(* ===== verification/Prelude.thy ===== *)
theory Prelude
  imports "HOL-Library.Word" "HOL-Library.Monad_Syntax"
begin

text \<open>
  Shared vocabulary of the development: bytes and machine integers, the result type that
  models \<open>base::result\<close> together with failing assertions, the \<open>BNL_TRY\<close> macro, raw memory
  writes of the encoders, and the list and word lemmas the components share.
\<close>

unbundle bit_operations_syntax

type_synonym byte = "8 word"
type_synonym bytes = "8 word list"
type_synonym uint16 = "16 word"
type_synonym uint32 = "32 word"
type_synonym uint64 = "64 word"

named_theorems seq_simps \<open>rewriting a sequence operation to its byte-list meaning\<close>
named_theorems codec_simps \<open>rewriting a codec operation to its byte-level meaning\<close>
named_theorems conn_simps \<open>unfolding the stream and connection handlers\<close>

section \<open>Results\<close>

text \<open>
  \<open>base::result<T, S>\<close> holds a value or an error. \<open>Fault\<close> is the third outcome of running
  the source: an \<open>assert\<close> fails, or the C++ standard leaves the behaviour undefined (a read
  or write out of bounds, a shift by the operand's width or more, \<open>front()\<close> of an empty list,
  an exception leaving a \<open>noexcept\<close> function). Operations whose only failure is such a fault
  return an \<open>option\<close>; \<open>or_fault\<close> turns their \<open>None\<close> into \<open>Fault\<close>.
\<close>

datatype ('a, 'e) result = Ok 'a | Err 'e | Fault

text \<open>The macro \<open>BNL_TRY\<close> (an alias of \<open>OUTCOME_TRYX\<close>): take the value or return the error.\<close>

definition bnl_try :: "('a, 'e) result \<Rightarrow> ('a \<Rightarrow> ('b, 'e) result) \<Rightarrow> ('b, 'e) result" where
  "bnl_try r k = (case r of Ok a \<Rightarrow> k a | Err e \<Rightarrow> Err e | Fault \<Rightarrow> Fault)"

text \<open>The same macro where the call also changes a state that stays visible on the error path.\<close>

definition try_state ::
  "('a, 'e) result \<times> 's \<Rightarrow> ('a \<Rightarrow> 's \<Rightarrow> ('b, 'e) result \<times> 's) \<Rightarrow> ('b, 'e) result \<times> 's" where
  "try_state m k =
     (case m of (Ok a, s) \<Rightarrow> k a s | (Err e, s) \<Rightarrow> (Err e, s) | (Fault, s) \<Rightarrow> (Fault, s))"

text \<open>A pure result used while the state is \<open>s\<close>: an error leaves \<open>s\<close> as it is.\<close>

definition try_in ::
  "'s \<Rightarrow> ('a, 'e) result \<Rightarrow> ('a \<Rightarrow> ('b, 'e) result \<times> 's) \<Rightarrow> ('b, 'e) result \<times> 's" where
  "try_in s r k = (case r of Ok a \<Rightarrow> k a | Err e \<Rightarrow> (Err e, s) | Fault \<Rightarrow> (Fault, s))"

definition or_fault :: "'a option \<Rightarrow> ('a, 'e) result" where
  "or_fault x = (case x of Some a \<Rightarrow> Ok a | None \<Rightarrow> Fault)"

lemma or_fault_simps [simp]: "or_fault (Some a) = Ok a" "or_fault None = Fault"
  by (simp_all add: or_fault_def)

lemma or_fault_eq_Ok [simp]: "or_fault x = Ok a \<longleftrightarrow> x = Some a"
  by (cases x) simp_all

lemma or_fault_not_Err [simp]: "or_fault x \<noteq> Err e"
  by (cases x) simp_all

lemma or_fault_eq_Fault [simp]: "or_fault x = Fault \<longleftrightarrow> x = None"
  by (cases x) simp_all

lemma bnl_try_simps [simp]:
  "bnl_try (Ok a) k = k a" "bnl_try (Err e) k = Err e" "bnl_try Fault k = Fault"
  by (simp_all add: bnl_try_def)

lemma try_state_simps [simp]:
  "try_state (Ok a, s) k = k a s" "try_state (Err e, s) k = (Err e, s)"
  "try_state (Fault, s) k = (Fault, s)"
  by (simp_all add: try_state_def)

lemma try_in_simps [simp]:
  "try_in s (Ok a) k' = k' a" "try_in s (Err e) k' = (Err e, s)"
  "try_in s Fault k' = (Fault, s)"
  by (simp_all add: try_in_def)

lemma bnl_try_eq_Ok:
  "bnl_try r k = Ok b \<longleftrightarrow> (\<exists>a. r = Ok a \<and> k a = Ok b)"
  by (cases r) simp_all

lemma bnl_try_eq_Fault:
  "bnl_try r k = Fault \<longleftrightarrow> r = Fault \<or> (\<exists>a. r = Ok a \<and> k a = Fault)"
  by (cases r) simp_all

lemma bnl_try_assoc:
  "bnl_try (bnl_try r k) l = bnl_try r (\<lambda>a. bnl_try (k a) l)"
  by (cases r) simp_all

lemma bnl_try_cong [fundef_cong]:
  "r = r' \<Longrightarrow> (\<And>a. r' = Ok a \<Longrightarrow> k a = k' a) \<Longrightarrow> bnl_try r k = bnl_try r' k'"
  by (cases r') simp_all

lemma try_state_cong [fundef_cong]:
  "m = m' \<Longrightarrow> (\<And>a s. m' = (Ok a, s) \<Longrightarrow> k a s = k' a s) \<Longrightarrow> try_state m k = try_state m' k'"
  by (auto simp: try_state_def split: prod.splits result.splits)

section \<open>Raw memory\<close>

text \<open>
  An encoder receives \<open>uint8_t *dest\<close>, a pointer into an allocation. The model passes the
  allocation's bytes and the offset of \<open>dest\<close>; a store outside the allocation is a \<open>Fault\<close>.
  A fresh allocation has indeterminate contents, given by the parameter \<open>junk\<close>.
\<close>

definition fresh_memory :: "(nat \<Rightarrow> byte) \<Rightarrow> nat \<Rightarrow> bytes" where
  "fresh_memory junk n = map junk [0..<n]"

definition mem_load :: "bytes \<Rightarrow> nat \<Rightarrow> byte option" where
  "mem_load mem i = (if i < length mem then Some (mem ! i) else None)"

definition mem_store :: "bytes \<Rightarrow> nat \<Rightarrow> bytes \<Rightarrow> bytes option" where
  "mem_store mem i bs =
     (if i + length bs \<le> length mem
      then Some (take i mem @ bs @ drop (i + length bs) mem) else None)"

lemma length_fresh_memory [simp]: "length (fresh_memory junk n) = n"
  by (simp add: fresh_memory_def)

lemma mem_store_append:
  "i = length pre \<Longrightarrow> length bs \<le> length post \<Longrightarrow>
   mem_store (pre @ post) i bs = Some (pre @ bs @ drop (length bs) post)"
  by (simp add: mem_store_def)

lemma mem_load_append:
  "i = length pre \<Longrightarrow> post \<noteq> [] \<Longrightarrow> mem_load (pre @ post) i = Some (hd post)"
  by (simp add: mem_load_def nth_append hd_conv_nth)

section \<open>Words bit by bit\<close>

text \<open>
  The byte-shuffling of the codecs is proved bit by bit: \<open>word_eqI_upt\<close> reduces an equation of
  words to its bits, and the unfolded index lists let the simplifier enumerate them.
\<close>

lemma unat_2p: "k < LENGTH('a) \<Longrightarrow> unat (2 ^ k :: 'a::len word) = 2 ^ k"
proof -
  assume "k < LENGTH('a)"
  then have "(2 :: nat) ^ k < 2 ^ LENGTH('a)" by simp
  moreover have "(2 ^ k :: 'a word) = word_of_nat (2 ^ k)" by simp
  ultimately show ?thesis by (simp only: unat_of_nat mod_less)
qed

lemma word_less_2p_iff:
  "k < LENGTH('a) \<Longrightarrow> (w :: 'a::len word) < 2 ^ k \<longleftrightarrow> unat w < 2 ^ k"
  by (simp add: word_less_nat_alt unat_2p)

lemma not_bit_above:
  assumes "(w :: 'a::len word) < 2 ^ k" "k \<le> n"
  shows "\<not> bit w n"
proof
  assume b: "bit w n"
  then have "n < LENGTH('a)" by (rule bit_imp_le_length)
  with assms have "unat w < 2 ^ k" by (simp add: word_less_2p_iff)
  then have "take_bit k (unat w) = unat w" by (simp add: take_bit_nat_eq_self)
  moreover from b have "bit (unat w) n" by (simp add: bit_unsigned_iff)
  ultimately show False using assms(2) by (metis bit_take_bit_iff not_less)
qed

lemma take_bit_word_less:
  "k < LENGTH('a) \<Longrightarrow> take_bit k (w :: 'a::len word) < 2 ^ k"
  by (simp add: word_less_2p_iff unsigned_take_bit_eq take_bit_nat_less_exp)

lemma unat_drop_bit: "unat (drop_bit k (w :: 'a::len word)) = unat w div 2 ^ k"
  by (subst unsigned_drop_bit_eq) (simp add: drop_bit_eq_div take_bit_nat_eq_self)

lemma word_eqI_upt:
  "(\<forall>n \<in> set [0..<LENGTH('a)]. bit v n = bit w n) \<Longrightarrow> v = (w :: 'a::len word)"
  by (rule bit_word_eqI) simp

lemma upt_8:
  "[0..<8] = [0, 1, 2, 3, 4, 5, 6, 7]"
  by code_simp

lemma upt_16:
  "[0..<16] = [0, 1, 2, 3, 4, 5, 6, 7, 8, 9, 10, 11, 12, 13, 14, 15]"
  by code_simp

lemma upt_32:
  "[0..<32] = [0, 1, 2, 3, 4, 5, 6, 7, 8, 9, 10, 11, 12, 13, 14, 15, 16, 17, 18, 19, 20, 21,
    22, 23, 24, 25, 26, 27, 28, 29, 30, 31]"
  by code_simp

lemma upt_64:
  "[0..<64] = [0, 1, 2, 3, 4, 5, 6, 7, 8, 9, 10, 11, 12, 13, 14, 15, 16, 17, 18, 19, 20, 21,
    22, 23, 24, 25, 26, 27, 28, 29, 30, 31, 32, 33, 34, 35, 36, 37, 38, 39, 40, 41, 42, 43,
    44, 45, 46, 47, 48, 49, 50, 51, 52, 53, 54, 55, 56, 57, 58, 59, 60, 61, 62, 63]"
  by code_simp

lemmas upt_enum = upt_8 upt_16 upt_32 upt_64

section \<open>Characters and bytes\<close>

text \<open>
  The source converts between \<open>char\<close> and \<open>uint8_t\<close> with \<open>static_cast\<close>; both have eight bits.
\<close>

definition char_of_byte :: "byte \<Rightarrow> char" where
  "char_of_byte b = char_of (unat b)"

definition byte_of_char :: "char \<Rightarrow> byte" where
  "byte_of_char c = word_of_nat (of_char c)"

lemma char_of_byte_of_char [simp]: "char_of_byte (byte_of_char c) = c"
proof -
  have "(of_char c :: nat) = of_char c mod 256" by simp
  then have "(of_char c :: nat) < 256" by (metis mod_less_divisor zero_less_numeral)
  then show ?thesis
    by (simp add: char_of_byte_def byte_of_char_def unat_of_nat)
qed

lemma byte_of_char_of_byte [simp]: "byte_of_char (char_of_byte b) = b"
proof -
  have "unat b < 2 ^ 8" using unsigned_less [of b] by simp
  then show ?thesis
    by (simp add: char_of_byte_def byte_of_char_def take_bit_nat_eq_self)
qed

section \<open>Lists\<close>

lemma list_of_length:
  "length xs = 1 \<Longrightarrow> \<exists>a. xs = [a]"
  "length xs = 2 \<Longrightarrow> \<exists>a b. xs = [a, b]"
  "length xs = 4 \<Longrightarrow> \<exists>a b c d. xs = [a, b, c, d]"
  "length xs = 8 \<Longrightarrow> \<exists>a b c d e f g h. xs = [a, b, c, d, e, f, g, h]"
  by (auto simp: length_Suc_conv eval_nat_numeral)

lemma take_append_drop_nth:
  "i < length xs \<Longrightarrow> xs = take i xs @ xs ! i # drop (Suc i) xs"
  by (rule id_take_nth_drop)

lemma concat_dropWhile_Nil: "concat (dropWhile (\<lambda>b. b = []) bs) = concat bs"
  by (induction bs) auto

lemma dropWhile_Nil_Cons:
  "dropWhile (\<lambda>b. b = []) bs = c # cs \<Longrightarrow> c \<noteq> []"
  by (metis (mono_tags) hd_dropWhile list.distinct(1) list.sel(1))

end
