(* ===== verification/Buffers.thy ===== *)
theory Buffers
  imports Prelude
begin

text \<open>
  The byte containers of \<open>bnl/base\<close> at the level their clients see. A \<open>base::buffer\<close> is the
  list of its bytes (the theory \<open>Buffer_Heap\<close> relates this view to the reference-counted memory
  behind it); a \<open>base::buffers\<close> is the list of its buffers, with the loops of \<open>buffers.cpp\<close>.
\<close>

section \<open>base::buffer as a byte list\<close>

definition buffer_size :: "bytes \<Rightarrow> nat" where
  "buffer_size b = length b"

definition buffer_empty :: "bytes \<Rightarrow> bool" where
  "buffer_empty b \<longleftrightarrow> buffer_size b = 0"

definition buffer_at :: "bytes \<Rightarrow> nat \<Rightarrow> byte option" where
  "buffer_at b index = (if index < buffer_size b then Some (b ! index) else None)"

definition buffer_consume :: "bytes \<Rightarrow> nat \<Rightarrow> bytes option" where
  "buffer_consume b n = (if n \<le> buffer_size b then Some (drop n b) else None)"

text \<open>\<open>slice\<close> returns the first \<open>size\<close> bytes and the buffer that is left.\<close>

definition buffer_slice :: "bytes \<Rightarrow> nat \<Rightarrow> (bytes \<times> bytes) option" where
  "buffer_slice b n =
     (if \<not> n \<le> buffer_size b then None
      else if n = 0 then Some ([], b)
      else Some (take n b, drop n b))"

definition buffer_concat :: "bytes \<Rightarrow> bytes \<Rightarrow> bytes" where
  "buffer_concat first second = first @ second"

lemma buffer_size_eq [simp]: "buffer_size b = length b"
  by (simp add: buffer_size_def)

lemma buffer_empty_eq [simp]: "buffer_empty b \<longleftrightarrow> b = []"
  by (simp add: buffer_empty_def)

lemma buffer_slice_eq:
  "buffer_slice b n = (if n \<le> length b then Some (take n b, drop n b) else None)"
  by (auto simp: buffer_slice_def)

section \<open>base::buffers\<close>

type_synonym buffers = "bytes list"

fun buffers_size_from :: "nat \<Rightarrow> buffers \<Rightarrow> nat" where
  "buffers_size_from n [] = n"
| "buffers_size_from n (buffer # bs) = buffers_size_from (n + buffer_size buffer) bs"

definition buffers_size :: "buffers \<Rightarrow> nat" where
  "buffers_size bs = buffers_size_from 0 bs"

definition buffers_empty :: "buffers \<Rightarrow> bool" where
  "buffers_empty bs \<longleftrightarrow> buffers_size bs = 0"

text \<open>The search loop of \<open>operator[]\<close>; reaching \<open>end()\<close> would dereference a past-the-end iterator.\<close>

fun buffers_find :: "buffers \<Rightarrow> nat \<Rightarrow> byte option" where
  "buffers_find [] index = None"
| "buffers_find (buffer # bs) index =
     (if buffer_size buffer \<le> index then buffers_find bs (index - buffer_size buffer)
      else buffer_at buffer index)"

definition buffers_at :: "buffers \<Rightarrow> nat \<Rightarrow> byte option" where
  "buffers_at bs index = (if index < buffers_size bs then buffers_find bs index else None)"

definition buffers_push :: "buffers \<Rightarrow> bytes \<Rightarrow> buffers" where
  "buffers_push bs buffer = bs @ [buffer]"

definition buffers_pop :: "buffers \<Rightarrow> (bytes \<times> buffers) option" where
  "buffers_pop bs =
     (if \<not> buffers_size bs > 0 then None
      else (case bs of [] \<Rightarrow> None | buffer # rest \<Rightarrow> Some (buffer, rest)))"

definition buffers_front :: "buffers \<Rightarrow> bytes option" where
  "buffers_front bs = (case bs of [] \<Rightarrow> None | buffer # _ \<Rightarrow> Some buffer)"

definition buffers_back :: "buffers \<Rightarrow> bytes option" where
  "buffers_back bs = (case bs of [] \<Rightarrow> None | _ # _ \<Rightarrow> Some (last bs))"

text \<open>\<open>discard\<close> erases the empty buffers at the front.\<close>

fun buffers_discard :: "buffers \<Rightarrow> buffers" where
  "buffers_discard [] = []"
| "buffers_discard (buffer # bs) =
     (if buffer_empty buffer then buffers_discard bs else buffer # bs)"

text \<open>The loop of \<open>consume\<close>, before the final \<open>discard\<close>.\<close>

fun buffers_consume_loop :: "buffers \<Rightarrow> nat \<Rightarrow> buffers option" where
  "buffers_consume_loop bs 0 = Some bs"
| "buffers_consume_loop [] (Suc n) = None"
| "buffers_consume_loop (buffer # bs) (Suc n) =
     (let to_consume = min (Suc n) (buffer_size buffer) in
      do {
        buffer' \<leftarrow> buffer_consume buffer to_consume;
        bs' \<leftarrow> buffers_consume_loop bs (Suc n - to_consume);
        Some (buffer' # bs')
      })"

definition buffers_consume :: "buffers \<Rightarrow> nat \<Rightarrow> buffers option" where
  "buffers_consume bs n =
     (if \<not> n \<le> buffers_size bs then None
      else do { bs' \<leftarrow> buffers_consume_loop bs n; Some (buffers_discard bs') })"

text \<open>
  \<open>find_first_not_empty\<close> splits the list at the first non-empty buffer (the iterator it
  returns); the loop of \<open>slice\<close> splits what follows at the buffer where the slice ends.
\<close>

fun find_first_not_empty :: "buffers \<Rightarrow> buffers \<times> buffers" where
  "find_first_not_empty [] = ([], [])"
| "find_first_not_empty (buffer # bs) =
     (if \<not> buffer_empty buffer then ([], buffer # bs)
      else (let (skipped, rest) = find_first_not_empty bs in (buffer # skipped, rest)))"

fun slice_end :: "nat \<Rightarrow> buffers \<Rightarrow> buffers \<times> buffers \<times> nat" where
  "slice_end left [] = ([], [], left)"
| "slice_end left (buffer # bs) =
     (if left > buffer_size buffer
      then (let (whole, rest, left') = slice_end (left - buffer_size buffer) bs
            in (buffer # whole, rest, left'))
      else ([], buffer # bs, left))"

text \<open>\<open>concat(start, end, left)\<close>: the buffers before \<open>end\<close>, then \<open>left\<close> bytes of \<open>*end\<close>.\<close>

definition buffers_concat :: "buffers \<Rightarrow> bytes \<Rightarrow> nat \<Rightarrow> bytes" where
  "buffers_concat whole last_part left = concat whole @ take left last_part"

definition buffers_slice :: "buffers \<Rightarrow> nat \<Rightarrow> (bytes \<times> buffers) option" where
  "buffers_slice bs n =
     (if \<not> n \<le> buffers_size bs then None
      else (case find_first_not_empty bs of
        (skipped, []) \<Rightarrow> None
      | (skipped, first # rest) \<Rightarrow>
          (case slice_end n (first # rest) of
             (whole, [], left) \<Rightarrow> None
           | (whole, last_part # rest', left) \<Rightarrow>
               (if whole = []
                then do {
                  (result, first') \<leftarrow> buffer_slice first left;
                  Some (result, buffers_discard (skipped @ first' # rest))
                }
                else let result = buffers_concat whole last_part left in do {
                  bs' \<leftarrow> buffers_consume bs (buffer_size result);
                  Some (result, bs')
                }))))"

section \<open>Meaning of the operations on the concatenated bytes\<close>

lemma buffers_size_from_eq: "buffers_size_from n bs = n + length (concat bs)"
  by (induction n bs rule: buffers_size_from.induct) simp_all

lemma buffers_size_eq [simp]: "buffers_size bs = length (concat bs)"
  by (simp add: buffers_size_def buffers_size_from_eq)

lemma buffers_empty_eq [simp]: "buffers_empty bs \<longleftrightarrow> concat bs = []"
  by (simp add: buffers_empty_def del: concat_eq_Nil_conv)

lemma buffers_find_eq:
  "buffers_find bs i = (if i < length (concat bs) then Some (concat bs ! i) else None)"
  by (induction bs i rule: buffers_find.induct) (auto simp: buffer_at_def nth_append)

lemma buffers_at_eq:
  "buffers_at bs i = (if i < length (concat bs) then Some (concat bs ! i) else None)"
  by (simp add: buffers_at_def buffers_find_eq)

lemma concat_push [simp]: "concat (buffers_push bs b) = concat bs @ b"
  by (simp add: buffers_push_def)

lemma concat_discard [simp]: "concat (buffers_discard bs) = concat bs"
  by (induction bs) auto

lemma buffers_discard_id: "bs = [] \<or> hd bs \<noteq> [] \<Longrightarrow> buffers_discard bs = bs"
  by (cases bs) auto

lemma buffers_discard_front: "buffers_discard bs = [] \<or> hd (buffers_discard bs) \<noteq> []"
  by (induction bs) auto

lemma buffers_consume_loop_Ok:
  "n \<le> length (concat bs) \<Longrightarrow>
   \<exists>bs'. buffers_consume_loop bs n = Some bs' \<and> concat bs' = drop n (concat bs)"
proof (induction bs n rule: buffers_consume_loop.induct)
  case (3 b bs n)
  let ?k = "min (Suc n) (length b)"
  have "Suc n - ?k \<le> length (concat bs)" using "3.prems" by simp
  then obtain bs' where bs': "buffers_consume_loop bs (Suc n - ?k) = Some bs'"
    "concat bs' = drop (Suc n - ?k) (concat bs)"
    using "3.IH" [of ?k "drop ?k b"] by (auto simp: buffer_consume_def)
  moreover have "drop ?k b @ drop (Suc n - ?k) (concat bs) = drop (Suc n) (b @ concat bs)"
    by (cases "Suc n \<le> length b") (simp_all add: min_def)
  ultimately show ?case by (simp add: buffer_consume_def Let_def)
qed simp_all

lemma buffers_consume_Ok:
  assumes "n \<le> length (concat bs)"
  obtains bs' where "buffers_consume bs n = Some bs'" "concat bs' = drop n (concat bs)"
    "bs' = [] \<or> hd bs' \<noteq> []"
proof -
  obtain bs'' where "buffers_consume_loop bs n = Some bs''" "concat bs'' = drop n (concat bs)"
    using buffers_consume_loop_Ok [OF assms] by blast
  then show thesis
    using that [of "buffers_discard bs''"] assms buffers_discard_front [of bs'']
    by (simp add: buffers_consume_def)
qed

lemma buffers_consume_Fault:
  "length (concat bs) < n \<Longrightarrow> buffers_consume bs n = None"
  by (simp add: buffers_consume_def)

lemma find_first_not_empty_eq:
  "find_first_not_empty bs = (takeWhile (\<lambda>b. b = []) bs, dropWhile (\<lambda>b. b = []) bs)"
  by (induction bs) auto

lemma slice_end_spec:
  "slice_end n bs = (whole, rest, left) \<Longrightarrow> n \<le> length (concat bs) \<Longrightarrow> bs \<noteq> [] \<Longrightarrow>
   whole @ rest = bs \<and> rest \<noteq> [] \<and> left \<le> length (hd rest) \<and>
   n = length (concat whole) + left"
proof (induction n bs arbitrary: whole rest left rule: slice_end.induct)
  case (2 n b bs)
  show ?case
  proof (cases "length b < n")
    case True
    then obtain whole' where w: "slice_end (n - length b) bs = (whole', rest, left)"
      "whole = b # whole'"
      using "2.prems" by (auto split: prod.splits)
    have "bs \<noteq> []" using True "2.prems" by auto
    moreover have "n - length b \<le> length (concat bs)" using "2.prems"(2) by simp
    ultimately have "whole' @ rest = bs \<and> rest \<noteq> [] \<and> left \<le> length (hd rest) \<and>
        n - length b = length (concat whole') + left"
      using "2.IH" [of whole' rest left] w True by simp
    then show ?thesis using w(2) True by auto
  next
    case False
    then show ?thesis using "2.prems" by auto
  qed
qed simp

text \<open>
  The contract of \<open>slice\<close>: on a container that holds at least one byte, the returned buffer is the
  next \<open>n\<close> bytes and the container keeps the rest, wherever the buffer boundaries are.
\<close>

lemma buffers_slice_Ok:
  assumes n: "n \<le> length (concat bs)" and ne: "concat bs \<noteq> []"
  obtains bs' where "buffers_slice bs n = Some (take n (concat bs), bs')"
    "concat bs' = drop n (concat bs)" "bs' = [] \<or> hd bs' \<noteq> []"
proof -
  define skipped where "skipped = takeWhile (\<lambda>b. b = []) bs"
  have sk: "concat skipped = []"
    by (auto simp: skipped_def dest: set_takeWhileD)
  from ne have "dropWhile (\<lambda>b. b = []) bs \<noteq> []"
    by (metis concat.simps(1) concat_dropWhile_Nil)
  then obtain first rest where fr: "dropWhile (\<lambda>b. b = []) bs = first # rest"
    by (cases "dropWhile (\<lambda>b. b = []) bs") auto
  have bs: "bs = skipped @ first # rest"
    unfolding skipped_def fr [symmetric] by simp
  then have cb: "concat bs = first @ concat rest" using sk by simp
  obtain whole post left where se: "slice_end n (first # rest) = (whole, post, left)"
    by (cases "slice_end n (first # rest)") auto
  have spec: "whole @ post = first # rest" "post \<noteq> []" "left \<le> length (hd post)"
    "n = length (concat whole) + left"
    using slice_end_spec [OF se] n cb by auto
  obtain lp rest' where post: "post = lp # rest'" using spec(2) by (cases post) auto
  have unfold: "buffers_slice bs n =
     (if whole = []
      then Option.bind (buffer_slice first left) (\<lambda>(result, first').
           Some (result, buffers_discard (skipped @ first' # rest)))
      else Option.bind (buffers_consume bs (length (buffers_concat whole lp left)))
           (\<lambda>bs'. Some (buffers_concat whole lp left, bs')))"
    using n by (simp add: buffers_slice_def find_first_not_empty_eq fr se post
        skipped_def [symmetric] Let_def del: slice_end.simps)
  show thesis
  proof (cases "whole = []")
    case True
    with spec post have left: "left = n" "n \<le> length first" by auto
    let ?bs' = "buffers_discard (skipped @ drop n first # rest)"
    have "buffers_slice bs n = Some (take n (concat bs), ?bs')"
      unfolding unfold using True left by (simp add: buffer_slice_eq cb)
    moreover have "concat ?bs' = drop n (concat bs)" using left cb sk by simp
    ultimately show thesis using that buffers_discard_front by blast
  next
    case False
    have tk: "buffers_concat whole lp left = take n (concat bs)"
    proof -
      have "concat bs = concat whole @ lp @ concat rest'"
        using cb spec(1) post
        by (metis append.assoc concat.simps(2) concat_append)
      then show ?thesis using spec(3,4) post by (simp add: buffers_concat_def)
    qed
    then have len: "length (buffers_concat whole lp left) = n" using n by simp
    obtain bs' where bs': "buffers_consume bs n = Some bs'" "concat bs' = drop n (concat bs)"
      "bs' = [] \<or> hd bs' \<noteq> []"
      using buffers_consume_Ok [OF n] by blast
    with False tk len that show thesis by (simp add: unfold)
  qed
qed

lemma buffers_pop_Ok:
  "concat bs \<noteq> [] \<Longrightarrow> buffers_pop bs = Some (hd bs, tl bs)"
  by (cases bs) (auto simp: buffers_pop_def)

end
