(* ===== verification/Sequence.thy ===== *)
theory Sequence
  imports Buffers
begin

text \<open>
  What the decoders read from. Every decoder is a template over its byte container, instantiated
  explicitly (\<open>template.hpp\<close>) for exactly four types: \<open>buffer\<close>, \<open>buffers\<close> and the \<open>lookahead\<close> of
  each. The datatype \<open>sequence\<close> has one constructor per instantiation, the operations dispatch on
  it, and the locale \<open>byte_sequence\<close> is the contract the decoders rely on.
\<close>

section \<open>The contract of a byte container\<close>

locale byte_sequence =
  fixes bytes_of :: "'s \<Rightarrow> bytes"
    and size_of :: "'s \<Rightarrow> nat"
    and at :: "'s \<Rightarrow> nat \<Rightarrow> byte option"
    and consume :: "'s \<Rightarrow> nat \<Rightarrow> 's option"
    and valid :: "'s \<Rightarrow> bool"
  assumes size_law: "valid s \<Longrightarrow> size_of s = length (bytes_of s)"
    and at_law: "valid s \<Longrightarrow> i < length (bytes_of s) \<Longrightarrow> at s i = Some (bytes_of s ! i)"
    and at_fault: "valid s \<Longrightarrow> length (bytes_of s) \<le> i \<Longrightarrow> at s i = None"
    and consume_law: "valid s \<Longrightarrow> n \<le> length (bytes_of s) \<Longrightarrow>
      \<exists>s'. consume s n = Some s' \<and> bytes_of s' = drop n (bytes_of s) \<and> valid s'"
    and consume_fault: "valid s \<Longrightarrow> length (bytes_of s) < n \<Longrightarrow> consume s n = None"
begin

lemma at_eq: "valid s \<Longrightarrow> at s i = (if i < length (bytes_of s) then Some (bytes_of s ! i) else None)"
  by (simp add: at_law at_fault)

lemma consume_bytes:
  "valid s \<Longrightarrow> consume s n = Some s' \<Longrightarrow>
   n \<le> length (bytes_of s) \<and> bytes_of s' = drop n (bytes_of s) \<and> valid s'"
  by (metis consume_fault consume_law linorder_not_less option.distinct(1) option.sel)

lemma consume_defined:
  "valid s \<Longrightarrow> (consume s n = None) = (length (bytes_of s) < n)"
  by (metis consume_fault consume_law linorder_not_less option.distinct(1))

lemma read_prefix:
  "valid s \<Longrightarrow> n \<le> length (bytes_of s) \<Longrightarrow> those (map (at s) [0..<n]) = Some (take n (bytes_of s))"
proof (induction n)
  case (Suc n)
  have app: "those xs = Some ys \<Longrightarrow> those (xs @ [Some z]) = Some (ys @ [z])"
    for xs and ys :: bytes and z
    by (induction xs arbitrary: ys) (auto split: option.splits)
  from Suc have "those (map (at s) [0..<n]) = Some (take n (bytes_of s))" by simp
  from app [OF this, of "bytes_of s ! n"] Suc.prems show ?case
    by (simp add: at_law take_Suc_conv_app_nth)
qed simp

lemma read_prefix_fault:
  "valid s \<Longrightarrow> length (bytes_of s) < n \<Longrightarrow> those (map (at s) [0..<n]) = None"
proof -
  assume "valid s" and "length (bytes_of s) < n"
  have none: "None \<in> set xs \<Longrightarrow> those xs = None" for xs :: "byte option list"
    by (induction xs) (auto split: option.splits)
  from \<open>valid s\<close> have "at s (length (bytes_of s)) = None" by (simp add: at_fault)
  then have "None \<in> set (map (at s) [0..<n])"
    using \<open>length (bytes_of s) < n\<close> by (force simp: image_iff intro: bexI [of _ "length (bytes_of s)"])
  then show "those (map (at s) [0..<n]) = None" by (rule none)
qed

end

interpretation buffer_seq: byte_sequence id buffer_size buffer_at buffer_consume "\<lambda>_. True"
  by unfold_locales (auto simp: buffer_at_def buffer_consume_def)

interpretation buffers_seq: byte_sequence concat buffers_size buffers_at buffers_consume "\<lambda>_. True"
proof unfold_locales
  fix bs :: buffers and n
  assume "n \<le> length (concat bs)"
  then show "\<exists>bs'. buffers_consume bs n = Some bs' \<and> concat bs' = drop n (concat bs) \<and> True"
    by (metis buffers_consume_Ok)
qed (simp_all add: buffers_at_eq buffers_consume_Fault)

section \<open>Sequences and lookaheads\<close>

text \<open>
  A lookahead refers to its container and keeps \<open>previous_\<close>, the bytes skipped by the lookahead it
  was copied from, and \<open>position_\<close>, the bytes it consumed itself.
\<close>

datatype sequence =
    Buffer_seq bytes
  | Buffers_seq buffers
  | Buffer_lookahead bytes nat nat
  | Buffers_lookahead buffers nat nat

fun seq_size :: "sequence \<Rightarrow> nat" where
  "seq_size (Buffer_seq b) = buffer_size b"
| "seq_size (Buffers_seq bs) = buffers_size bs"
| "seq_size (Buffer_lookahead b previous position) = buffer_size b - position - previous"
| "seq_size (Buffers_lookahead bs previous position) = buffers_size bs - position - previous"

definition seq_empty :: "sequence \<Rightarrow> bool" where
  "seq_empty s \<longleftrightarrow> seq_size s = 0"

fun seq_at :: "sequence \<Rightarrow> nat \<Rightarrow> byte option" where
  "seq_at (Buffer_seq b) index = buffer_at b index"
| "seq_at (Buffers_seq bs) index = buffers_at bs index"
| "seq_at (Buffer_lookahead b previous position) index =
     (if index < seq_size (Buffer_lookahead b previous position)
      then buffer_at b (previous + position + index) else None)"
| "seq_at (Buffers_lookahead bs previous position) index =
     (if index < seq_size (Buffers_lookahead bs previous position)
      then buffers_at bs (previous + position + index) else None)"

fun seq_consume :: "sequence \<Rightarrow> nat \<Rightarrow> sequence option" where
  "seq_consume (Buffer_seq b) n = map_option Buffer_seq (buffer_consume b n)"
| "seq_consume (Buffers_seq bs) n = map_option Buffers_seq (buffers_consume bs n)"
| "seq_consume (Buffer_lookahead b previous position) n =
     (if n \<le> seq_size (Buffer_lookahead b previous position)
      then Some (Buffer_lookahead b previous (position + n)) else None)"
| "seq_consume (Buffers_lookahead bs previous position) n =
     (if n \<le> seq_size (Buffers_lookahead bs previous position)
      then Some (Buffers_lookahead bs previous (position + n)) else None)"

text \<open>\<open>Sequence::lookahead_type lookahead(encoded)\<close>: a lookahead of a lookahead is its copy.\<close>

fun seq_lookahead :: "sequence \<Rightarrow> sequence" where
  "seq_lookahead (Buffer_seq b) = Buffer_lookahead b 0 0"
| "seq_lookahead (Buffers_seq bs) = Buffers_lookahead bs 0 0"
| "seq_lookahead (Buffer_lookahead b previous position) = Buffer_lookahead b (previous + position) 0"
| "seq_lookahead (Buffers_lookahead bs previous position) =
     Buffers_lookahead bs (previous + position) 0"

text \<open>\<open>consumed\<close> is a member of the lookaheads only; a container counts as not consumed.\<close>

fun seq_consumed :: "sequence \<Rightarrow> nat" where
  "seq_consumed (Buffer_lookahead b previous position) = position"
| "seq_consumed (Buffers_lookahead bs previous position) = position"
| "seq_consumed _ = 0"

text \<open>The invariant of a lookahead: it never points past the end of its container.\<close>

fun seq_ok :: "sequence \<Rightarrow> bool" where
  "seq_ok (Buffer_lookahead b previous position) \<longleftrightarrow> previous + position \<le> length b"
| "seq_ok (Buffers_lookahead bs previous position) \<longleftrightarrow> previous + position \<le> length (concat bs)"
| "seq_ok _ \<longleftrightarrow> True"

text \<open>The bytes still to be read.\<close>

fun seq_bytes :: "sequence \<Rightarrow> bytes" where
  "seq_bytes (Buffer_seq b) = b"
| "seq_bytes (Buffers_seq bs) = concat bs"
| "seq_bytes (Buffer_lookahead b previous position) = drop (previous + position) b"
| "seq_bytes (Buffers_lookahead bs previous position) = drop (previous + position) (concat bs)"

interpretation seq: byte_sequence seq_bytes seq_size seq_at seq_consume seq_ok
proof unfold_locales
  fix s :: sequence
  assume ok: "seq_ok s"
  show "seq_size s = length (seq_bytes s)" by (cases s) auto
  show "seq_at s i = Some (seq_bytes s ! i)" if "i < length (seq_bytes s)" for i
    using ok that by (cases s) (auto simp: buffer_at_def buffers_at_eq)
  show "seq_at s i = None" if "length (seq_bytes s) \<le> i" for i
    using ok that by (cases s) (auto simp: buffer_at_def buffers_at_eq)
  show "\<exists>s'. seq_consume s n = Some s' \<and> seq_bytes s' = drop n (seq_bytes s) \<and> seq_ok s'"
    if "n \<le> length (seq_bytes s)" for n
  proof (cases s)
    case (Buffers_seq bs)
    with that obtain bs' where "buffers_consume bs n = Some bs'" "concat bs' = drop n (concat bs)"
      using buffers_seq.consume_law by force
    with Buffers_seq show ?thesis by simp
  next
    case (Buffer_seq b)
    with that show ?thesis by (simp add: buffer_consume_def)
  next
    case (Buffer_lookahead b p q)
    with ok that have "p + (q + n) \<le> length b" by simp
    with Buffer_lookahead that show ?thesis by (simp add: add.commute add.left_commute)
  next
    case (Buffers_lookahead bs p q)
    with ok that have "p + (q + n) \<le> length (concat bs)" by simp
    with Buffers_lookahead that show ?thesis by (simp add: add.commute add.left_commute)
  qed
  show "seq_consume s n = None" if "length (seq_bytes s) < n" for n
    using ok that by (cases s) (auto simp: buffer_consume_def buffers_consume_Fault)
qed

text \<open>The sequence that is left after \<open>n\<close> bytes (\<open>n\<close> at most its size).\<close>

definition seq_drop :: "sequence \<Rightarrow> nat \<Rightarrow> sequence" where
  "seq_drop s n = (case seq_consume s n of Some s' \<Rightarrow> s' | None \<Rightarrow> s)"

lemma seq_consume_eq:
  "seq_ok s \<Longrightarrow> seq_consume s n = (if n \<le> length (seq_bytes s) then Some (seq_drop s n) else None)"
  using seq.consume_law [of s n] by (auto simp: seq_drop_def seq.consume_fault)

lemma seq_bytes_drop [simp]:
  "seq_ok s \<Longrightarrow> n \<le> length (seq_bytes s) \<Longrightarrow> seq_bytes (seq_drop s n) = drop n (seq_bytes s)"
  using seq.consume_law [of s n] by (auto simp: seq_drop_def)

lemma seq_ok_drop [simp]: "seq_ok s \<Longrightarrow> seq_ok (seq_drop s n)"
  using seq.consume_bytes [of s n] by (auto simp: seq_drop_def split: option.split)

lemma seq_size_eq [simp]: "seq_ok s \<Longrightarrow> seq_size s = length (seq_bytes s)"
  by (rule seq.size_law)

lemma seq_empty_eq [simp]: "seq_ok s \<Longrightarrow> seq_empty s \<longleftrightarrow> seq_bytes s = []"
  by (simp add: seq_empty_def)

lemma seq_lookahead_simps [simp]:
  "seq_bytes (seq_lookahead s) = seq_bytes s"
  "seq_ok s \<Longrightarrow> seq_ok (seq_lookahead s)"
  "seq_consumed (seq_lookahead s) = 0"
  by (cases s; simp)+

text \<open>Consuming through a lookahead only moves its position.\<close>

fun is_lookahead :: "sequence \<Rightarrow> bool" where
  "is_lookahead (Buffer_lookahead b previous position) \<longleftrightarrow> True"
| "is_lookahead (Buffers_lookahead bs previous position) \<longleftrightarrow> True"
| "is_lookahead _ \<longleftrightarrow> False"

lemma is_lookahead_simps [simp]:
  "is_lookahead (seq_lookahead s)" "is_lookahead (seq_drop s n) = is_lookahead s"
  by (cases s; auto simp: seq_drop_def split: option.splits)+

lemma seq_consumed_drop [simp]:
  "is_lookahead s \<Longrightarrow> seq_ok s \<Longrightarrow> n \<le> length (seq_bytes s) \<Longrightarrow>
   seq_consumed (seq_drop s n) = seq_consumed s + n"
  by (cases s) (auto simp: seq_drop_def)

lemma seq_drop_drop [simp]:
  "is_lookahead s \<Longrightarrow> seq_ok s \<Longrightarrow> m + n \<le> length (seq_bytes s) \<Longrightarrow>
   seq_drop (seq_drop s m) n = seq_drop s (m + n)"
  by (cases s) (auto simp: seq_drop_def)

lemma seq_drop_0 [simp]: "is_lookahead s \<Longrightarrow> seq_drop s 0 = s"
  by (cases s) (auto simp: seq_drop_def)

definition seq_read :: "sequence \<Rightarrow> nat \<Rightarrow> bytes option" where
  "seq_read s n = those (map (seq_at s) [0..<n])"

lemma seq_read_eq:
  "seq_ok s \<Longrightarrow> seq_read s n = (if n \<le> length (seq_bytes s) then Some (take n (seq_bytes s)) else None)"
  by (simp add: seq_read_def seq.read_prefix seq.read_prefix_fault)

lemmas sequence_ops = seq.at_eq seq_consume_eq seq_read_eq

end
