(* ===== verification/Errors.thy ===== *)
theory Errors
  imports Prelude
begin

text \<open>
  The error codes of \<open>bnl/http3\<close> and \<open>bnl/quic\<close> (\<open>result.hpp\<close>), their numeric values and the
  messages of \<open>system_error.cpp\<close>.
\<close>

section \<open>http3::error\<close>

datatype error =
    No_error | Internal | Wrong_stream | Closed_critical_stream | Missing_settings
  | Unexpected_frame | Malformed_frame | Qpack_decompression_failed
  | Incomplete | Idle | Delegate | Not_implemented | Varint_overflow | Malformed_header
  | Stream_closed | Invalid_handle

text \<open>The enumerators after \<open>incomplete\<close> count up from it.\<close>

fun error_value :: "error \<Rightarrow> uint64" where
  "error_value No_error = 0x0"
| "error_value Internal = 0x03"
| "error_value Wrong_stream = 0x0a"
| "error_value Closed_critical_stream = 0x0f"
| "error_value Missing_settings = 0x0012"
| "error_value Unexpected_frame = 0x0013"
| "error_value Malformed_frame = 0x0100"
| "error_value Qpack_decompression_failed = 0x200"
| "error_value Incomplete = push_bit 56 0x40"
| "error_value Idle = push_bit 56 0x40 + 1"
| "error_value Delegate = push_bit 56 0x40 + 2"
| "error_value Not_implemented = push_bit 56 0x40 + 3"
| "error_value Varint_overflow = push_bit 56 0x40 + 4"
| "error_value Malformed_header = push_bit 56 0x40 + 5"
| "error_value Stream_closed = push_bit 56 0x40 + 6"
| "error_value Invalid_handle = push_bit 56 0x40 + 7"

fun error_message :: "error \<Rightarrow> string" where
  "error_message No_error = ''no error''"
| "error_message Internal = ''internal''"
| "error_message Wrong_stream = ''wrong stream''"
| "error_message Closed_critical_stream = ''closed critical stream''"
| "error_message Missing_settings = ''missing settings''"
| "error_message Unexpected_frame = ''unexpected frame''"
| "error_message Malformed_frame = ''malformed frame''"
| "error_message Qpack_decompression_failed = ''qpack decompression failed''"
| "error_message Not_implemented = ''not implemented''"
| "error_message Varint_overflow = ''varint overflow''"
| "error_message Malformed_header = ''malformed header''"
| "error_message Stream_closed = ''stream closed''"
| "error_message Invalid_handle = ''invalid handle''"
| "error_message Incomplete = ''incomplete''"
| "error_message Idle = ''idle''"
| "error_message Delegate = ''delegate''"

definition all_errors :: "error list" where
  "all_errors =
     [No_error, Internal, Wrong_stream, Closed_critical_stream, Missing_settings,
      Unexpected_frame, Malformed_frame, Qpack_decompression_failed, Not_implemented,
      Varint_overflow, Malformed_header, Stream_closed, Invalid_handle, Incomplete, Idle,
      Delegate]"

text \<open>
  \<open>message\<close> receives an \<open>int\<close>; \<open>static_cast<error>(code)\<close> sign-extends it to 64 bits.
  \<open>make_error_code\<close> goes the other way and keeps the low 32 bits.
\<close>

definition make_error_code :: "error \<Rightarrow> 32 word" where
  "make_error_code e = ucast (error_value e)"

definition category_message :: "32 word \<Rightarrow> string" where
  "category_message code =
     (case filter (\<lambda>e. error_value e = scast code) all_errors of
        e # _ \<Rightarrow> error_message e
      | [] \<Rightarrow> ''unknown'')"

section \<open>quic::error\<close>

datatype quic_error =
    Q_no_error | Q_internal | Q_incomplete | Q_idle | Q_delegate | Q_finished
  | Q_not_implemented | Q_handshake | Q_crypto | Q_ngtcp2 | Q_path_validation
  | Q_stream_not_found | Q_stream_id_blocked | Q_stream_data_blocked

fun quic_error_value :: "quic_error \<Rightarrow> uint64" where
  "quic_error_value Q_no_error = 0x0"
| "quic_error_value Q_internal = 0x1"
| "quic_error_value Q_incomplete = push_bit 56 0x40"
| "quic_error_value Q_idle = push_bit 56 0x40 + 1"
| "quic_error_value Q_delegate = push_bit 56 0x40 + 2"
| "quic_error_value Q_finished = push_bit 56 0x40 + 3"
| "quic_error_value Q_not_implemented = push_bit 56 0x40 + 4"
| "quic_error_value Q_handshake = push_bit 56 0x40 + 5"
| "quic_error_value Q_crypto = push_bit 56 0x40 + 6"
| "quic_error_value Q_ngtcp2 = push_bit 56 0x40 + 7"
| "quic_error_value Q_path_validation = push_bit 56 0x40 + 8"
| "quic_error_value Q_stream_not_found = push_bit 56 0x40 + 9"
| "quic_error_value Q_stream_id_blocked = push_bit 56 0x40 + 10"
| "quic_error_value Q_stream_data_blocked = push_bit 56 0x40 + 11"

fun quic_error_message :: "quic_error \<Rightarrow> string" where
  "quic_error_message Q_no_error = ''no error''"
| "quic_error_message Q_internal = ''internal''"
| "quic_error_message Q_not_implemented = ''not implemented''"
| "quic_error_message Q_incomplete = ''incomplete''"
| "quic_error_message Q_idle = ''idle''"
| "quic_error_message Q_delegate = ''delegate''"
| "quic_error_message Q_finished = ''finished''"
| "quic_error_message Q_stream_id_blocked = ''stream id blocked''"
| "quic_error_message Q_stream_data_blocked = ''stream data blocked''"
| "quic_error_message Q_stream_not_found = ''stream not found''"
| "quic_error_message Q_handshake = ''handshake''"
| "quic_error_message Q_crypto = ''crypto''"
| "quic_error_message Q_ngtcp2 = ''ngtcp2''"
| "quic_error_message Q_path_validation = ''path validation''"

text \<open>Both categories report the name \<open>bnl-http3\<close>.\<close>

definition http3_category_name :: string where
  "http3_category_name = ''bnl-http3''"

definition quic_category_name :: string where
  "quic_category_name = ''bnl-http3''"

lemma error_value_inj: "inj error_value"
proof (rule injI)
  fix a b assume "error_value a = error_value b"
  then show "a = b" by (cases a; cases b) simp_all
qed

lemma quic_error_value_inj: "inj quic_error_value"
proof (rule injI)
  fix a b assume "quic_error_value a = quic_error_value b"
  then show "a = b" by (cases a; cases b) simp_all
qed

text \<open>
  The code of a library error keeps only the low 32 bits of a value above \<open>2\<^sup>6\<^sup>2\<close>, so the message
  of a \<open>std::error_code\<close> made from it is not its own.
\<close>

lemma category_message_protocol:
  "error_value e < 0x1000 \<Longrightarrow> category_message (make_error_code e) = error_message e"
  by (cases e) (simp_all add: category_message_def make_error_code_def all_errors_def)

lemma category_message_internal_codes:
  "category_message (make_error_code Incomplete) = ''no error''"
  "category_message (make_error_code Not_implemented) = ''internal''"
  "category_message (make_error_code Idle) = ''unknown''"
  by (simp_all add: category_message_def make_error_code_def all_errors_def)

end
