(* ===== verification/Codec.thy ===== *)
theory Codec
  imports Sequence Errors
begin

text \<open>
  Two notions the codecs share: the contract of a self-delimiting wire format, and the class of
  decoders that read a lookahead the way a stream parser has to.
\<close>

section \<open>Self-delimiting formats\<close>

text \<open>
  The contract of a self-delimiting wire format: \<open>wire\<close> writes a value, \<open>parse\<close> reads one from the
  front of a byte string and says how many bytes it took. Varints, frames and prefixed integers
  provide it; stream multiplexing relies on it.
\<close>

locale prefix_codec =
  fixes wire :: "'a \<Rightarrow> bytes"
    and parse :: "bytes \<Rightarrow> ('a \<times> nat) option"
    and encodable :: "'a \<Rightarrow> bool"
  assumes parse_wire_law: "encodable v \<Longrightarrow> parse (wire v @ rest) = Some (v, length (wire v))"
    and parse_bound: "parse bs = Some (v, n) \<Longrightarrow> 0 < n \<and> n \<le> length bs"
    and parse_local: "parse bs = Some (v, n) \<Longrightarrow> parse (take n bs @ rest) = Some (v, n)"
begin

lemma wire_inj: "encodable v \<Longrightarrow> encodable w \<Longrightarrow> wire v = wire w \<Longrightarrow> v = w"
  using parse_wire_law [of v "[]"] parse_wire_law [of w "[]"] by simp

lemma wire_not_Nil: "encodable v \<Longrightarrow> wire v \<noteq> []"
  using parse_wire_law [of v "[]"] parse_bound [of "wire v"] by fastforce

lemma truncated:
  assumes v: "encodable v" and k: "k < length (wire v)"
  shows "parse (take k (wire v)) = None"
proof (rule ccontr)
  assume "parse (take k (wire v)) \<noteq> None"
  then obtain w n where w: "parse (take k (wire v)) = Some (w, n)" by auto
  then have n: "n \<le> k" using parse_bound [OF w] by simp
  then have "take n (take k (wire v)) @ drop n (wire v) = wire v" by (simp add: min_def)
  then have "parse (wire v) = Some (w, n)"
    using parse_local [OF w, of "drop n (wire v)"] by simp
  with parse_wire_law [OF v, of "[]"] n k show False by simp
qed

text \<open>No encoding is a proper prefix of another, so concatenations decode in one way.\<close>

lemma prefix_free:
  assumes "encodable v" "encodable w" "wire v @ xs = wire w @ ys"
  shows "v = w \<and> xs = ys"
  using parse_wire_law [OF assms(1), of xs] parse_wire_law [OF assms(2), of ys] assms(3)
  by auto

lemma concat_wire_inj:
  assumes "\<forall>v \<in> set vs. encodable v" "\<forall>w \<in> set ws. encodable w"
    and "concat (map wire vs) = concat (map wire ws)"
  shows "vs = ws"
  using assms
proof (induction vs arbitrary: ws)
  case Nil
  show ?case
  proof (cases ws)
    case (Cons w ws')
    with Nil have "wire w = []" "encodable w" by simp_all
    then show ?thesis using wire_not_Nil by blast
  qed simp
next
  case (Cons v vs)
  show ?case
  proof (cases ws)
    case Nil
    with Cons.prems have "wire v = []" "encodable v" by simp_all
    then show ?thesis using wire_not_Nil by blast
  next
    case ws: (Cons w ws')
    have "v = w \<and> concat (map wire vs) = concat (map wire ws')"
      by (rule prefix_free) (use Cons.prems ws in simp_all)
    then show ?thesis using Cons.IH [of ws'] Cons.prems ws by simp
  qed
qed

end

section \<open>Streaming decoders\<close>

text \<open>
  A decoder is \<open>streaming\<close> when it never faults, only moves the position of its lookahead, and
  its verdict does not change when more bytes arrive: unless it said \<open>incomplete\<close>, it does the
  same on every lookahead (of whatever container) whose bytes start with the ones it saw.
\<close>

definition lookahead_ok :: "sequence \<Rightarrow> bool" where
  "lookahead_ok s \<longleftrightarrow> seq_ok s \<and> is_lookahead s"

definition streaming :: "(sequence \<Rightarrow> ('a, error) result \<times> sequence) \<Rightarrow> bool" where
  "streaming D \<longleftrightarrow>
     (\<forall>s t more. lookahead_ok s \<longrightarrow> lookahead_ok t \<longrightarrow> seq_bytes t = seq_bytes s @ more \<longrightarrow>
        (\<exists>r n. D s = (r, seq_drop s n) \<and> n \<le> length (seq_bytes s) \<and> r \<noteq> Fault \<and>
           (r = Err Incomplete \<or> D t = (r, seq_drop t n))))"

lemma lookahead_ok_simps [simp]:
  "lookahead_ok s \<Longrightarrow> seq_ok s" "lookahead_ok s \<Longrightarrow> is_lookahead s"
  "lookahead_ok s \<Longrightarrow> lookahead_ok (seq_drop s n)"
  "seq_ok s \<Longrightarrow> lookahead_ok (seq_lookahead s)"
  by (simp_all add: lookahead_ok_def)

lemma streamingE:
  assumes "streaming D" "lookahead_ok s" "lookahead_ok t" "seq_bytes t = seq_bytes s @ more"
  obtains r n where "D s = (r, seq_drop s n)" "n \<le> length (seq_bytes s)" "r \<noteq> Fault"
    "r = Err Incomplete \<or> D t = (r, seq_drop t n)"
  using assms unfolding streaming_def by blast

lemma streaming_run:
  assumes "streaming D" "lookahead_ok s"
  obtains r n where "D s = (r, seq_drop s n)" "n \<le> length (seq_bytes s)" "r \<noteq> Fault"
proof -
  obtain r n where "D s = (r, seq_drop s n)" "n \<le> length (seq_bytes s)" "r \<noteq> Fault"
    by (rule streamingE [OF assms assms(2), of "[]"]) auto
  then show thesis by (rule that)
qed

text \<open>With the same bytes in another container the verdict is the same, \<open>incomplete\<close> included.\<close>

lemma streaming_container:
  assumes D: "streaming D" and s: "lookahead_ok s" and t: "lookahead_ok t"
    and eq: "seq_bytes s = seq_bytes t"
  shows "fst (D s) = fst (D t)"
proof -
  obtain r n where r: "D s = (r, seq_drop s n)" "r = Err Incomplete \<or> D t = (r, seq_drop t n)"
    by (rule streamingE [OF D s t, of "[]"]) (use eq in auto)
  obtain r' m where r': "D t = (r', seq_drop t m)" "r' = Err Incomplete \<or> D s = (r', seq_drop s m)"
    by (rule streamingE [OF D t s, of "[]"]) (use eq in auto)
  from r r' show ?thesis by auto
qed

lemma streaming_return [intro!]: "r \<noteq> Fault \<Longrightarrow> streaming (\<lambda>s. (r, s))"
  unfolding streaming_def by (fastforce intro: exI [of _ "0 :: nat"])

text \<open>
  Sequencing with \<open>BNL_TRY\<close>; the rest may use how many bytes the first decoder consumed.
\<close>

lemma streaming_try_count:
  assumes D: "streaming D" and K: "\<And>v n. streaming (K v n)"
  shows "streaming (\<lambda>s. try_state (D s) (\<lambda>v s'. K v (seq_consumed s' - seq_consumed s) s'))"
  unfolding streaming_def
proof (intro allI impI)
  fix s t more
  assume s: "lookahead_ok s" and t: "lookahead_ok t" and st: "seq_bytes t = seq_bytes s @ more"
  let ?E = "\<lambda>s. try_state (D s) (\<lambda>v s'. K v (seq_consumed s' - seq_consumed s) s')"
  obtain r n where r: "D s = (r, seq_drop s n)" "n \<le> length (seq_bytes s)" "r \<noteq> Fault"
    "r = Err Incomplete \<or> D t = (r, seq_drop t n)"
    by (rule streamingE [OF D s t st])
  show "\<exists>r n. ?E s = (r, seq_drop s n) \<and> n \<le> length (seq_bytes s) \<and> r \<noteq> Fault \<and>
      (r = Err Incomplete \<or> ?E t = (r, seq_drop t n))"
  proof (cases r)
    case (Err e)
    with r show ?thesis by (intro exI [of _ "Err e"] exI [of _ n]) auto
  next
    case (Ok v)
    with r have dt: "D t = (Ok v, seq_drop t n)" by simp
    have n: "n \<le> length (seq_bytes t)" using r(2) st by simp
    have app: "seq_bytes (seq_drop t n) = seq_bytes (seq_drop s n) @ more" using r(2) st s t n by simp
    from K have Kn: "streaming (K v n)" .
    have la: "lookahead_ok (seq_drop s n)" "lookahead_ok (seq_drop t n)" using s t by simp_all
    obtain r' m where r': "K v n (seq_drop s n) = (r', seq_drop (seq_drop s n) m)"
      "m \<le> length (seq_bytes (seq_drop s n))" "r' \<noteq> Fault"
      "r' = Err Incomplete \<or> K v n (seq_drop t n) = (r', seq_drop (seq_drop t n) m)"
      by (rule streamingE [OF Kn la app])
    have m: "n + m \<le> length (seq_bytes s)" "n + m \<le> length (seq_bytes t)"
      using r'(2) r(2) s st by simp_all
    have "?E s = K v n (seq_drop s n)" using r(1,2) Ok s by simp
    moreover have "?E t = K v n (seq_drop t n)" using dt n t by simp
    ultimately show ?thesis using r' m s t
      by (intro exI [of _ r'] exI [of _ "n + m"]) auto
  qed (use r in simp)
qed

lemma streaming_try:
  assumes "streaming D" and "\<And>v. streaming (K v)"
  shows "streaming (\<lambda>s. try_state (D s) K)"
  using streaming_try_count [of D "\<lambda>v _. K v"] assms by simp

lemma streaming_if: "streaming D \<Longrightarrow> streaming E \<Longrightarrow> streaming (if b then D else E)"
  by simp

text \<open>\<open>reads D bs v\<close>: from any lookahead that starts with \<open>bs\<close>, \<open>D\<close> takes \<open>bs\<close> and returns \<open>v\<close>.\<close>

definition reads :: "(sequence \<Rightarrow> ('a, error) result \<times> sequence) \<Rightarrow> bytes \<Rightarrow> 'a \<Rightarrow> bool" where
  "reads D bs v \<longleftrightarrow>
     (\<forall>l rest. lookahead_ok l \<longrightarrow> seq_bytes l = bs @ rest \<longrightarrow> D l = (Ok v, seq_drop l (length bs)))"

lemma readsD:
  "reads D bs v \<Longrightarrow> lookahead_ok l \<Longrightarrow> seq_bytes l = bs @ rest \<Longrightarrow>
   D l = (Ok v, seq_drop l (length bs))"
  by (simp add: reads_def)

lemma reads_return [intro!]: "reads (\<lambda>l. (Ok v, l)) [] v"
  by (simp add: reads_def)

lemma reads_try_count:
  assumes D: "reads D a v" and K: "reads (K v (length a)) b w"
  shows "reads (\<lambda>l. try_state (D l) (\<lambda>v l'. K v (seq_consumed l' - seq_consumed l) l')) (a @ b) w"
  unfolding reads_def
proof (intro allI impI)
  fix l rest
  assume l: "lookahead_ok l" and bs: "seq_bytes l = (a @ b) @ rest"
  then have d: "D l = (Ok v, seq_drop l (length a))" using readsD [OF D] by simp
  have "K v (length a) (seq_drop l (length a)) = (Ok w, seq_drop (seq_drop l (length a)) (length b))"
    by (rule readsD [OF K]) (use l bs in simp_all)
  then show "try_state (D l) (\<lambda>v l'. K v (seq_consumed l' - seq_consumed l) l') =
      (Ok w, seq_drop l (length (a @ b)))"
    using d l bs by simp
qed

lemma reads_try:
  "reads D a v \<Longrightarrow> reads (K v) b w \<Longrightarrow> reads (\<lambda>l. try_state (D l) K) (a @ b) w"
  using reads_try_count [of D a v "\<lambda>v _. K v"] by simp

lemma reads_try_last:
  "reads D a v \<Longrightarrow> K v = (\<lambda>l. (Ok w, l)) \<Longrightarrow> reads (\<lambda>l. try_state (D l) K) a w"
  using reads_try [of D a v K "[]" w] by (simp add: reads_return)

text \<open>
  \<open>starves D bs\<close>: on every strict prefix of \<open>bs\<close> the decoder \<open>D\<close> asks for more bytes.
\<close>

definition starves :: "(sequence \<Rightarrow> ('a, error) result \<times> sequence) \<Rightarrow> bytes \<Rightarrow> bool" where
  "starves D bs \<longleftrightarrow>
     (\<forall>l k. lookahead_ok l \<longrightarrow> k < length bs \<longrightarrow> seq_bytes l = take k bs \<longrightarrow> fst (D l) = Err Incomplete)"

lemma starvesD:
  "starves D bs \<Longrightarrow> lookahead_ok l \<Longrightarrow> k < length bs \<Longrightarrow> seq_bytes l = take k bs \<Longrightarrow>
   fst (D l) = Err Incomplete"
  by (simp add: starves_def)

lemma starves_Nil [intro!]: "starves D []"
  by (simp add: starves_def)

lemma try_state_Err: "fst m = Err e \<Longrightarrow> fst (try_state m K) = Err e"
  by (cases m) simp

lemma starves_try:
  assumes D: "reads D a v" "starves D a" and K: "starves (K v) b"
  shows "starves (\<lambda>l. try_state (D l) K) (a @ b)"
  unfolding starves_def
proof (intro allI impI)
  fix l k
  assume l: "lookahead_ok l" and k: "k < length (a @ b)" and bs: "seq_bytes l = take k (a @ b)"
  show "fst (try_state (D l) K) = Err Incomplete"
  proof (cases "k < length a")
    case True
    then show ?thesis using starvesD [OF D(2) l, of k] bs by (simp add: try_state_Err)
  next
    case False
    then have bytes: "seq_bytes l = a @ take (k - length a) b" using bs by simp
    then have "D l = (Ok v, seq_drop l (length a))" by (rule readsD [OF D(1) l])
    moreover have "fst (K v (seq_drop l (length a))) = Err Incomplete"
      by (rule starvesD [OF K, of _ "k - length a"]) (use l k False bytes in auto)
    ultimately show ?thesis by simp
  qed
qed

lemma starves_try_last: "starves D a \<Longrightarrow> starves (\<lambda>l. try_state (D l) K) a"
  by (simp add: starves_def try_state_Err)

section \<open>Decoding through a lookahead\<close>

text \<open>
  The frame of the decoders that make a lookahead, decode from it and, when that succeeds, finish
  with \<open>encoded.consume(lookahead.consumed())\<close>; an error leaves \<open>encoded\<close> as it was.
\<close>

definition commit ::
  "(sequence \<Rightarrow> ('a, error) result \<times> sequence) \<Rightarrow> sequence \<Rightarrow> ('a, error) result \<times> sequence" where
  "commit D encoded =
     (case D (seq_lookahead encoded) of
        (Ok v, lookahead) \<Rightarrow>
          try_in encoded (or_fault (seq_consume encoded (seq_consumed lookahead))) (\<lambda>encoded'.
          (Ok v, encoded'))
      | (Err e, _) \<Rightarrow> (Err e, encoded)
      | (Fault, _) \<Rightarrow> (Fault, encoded))"

lemma commit_Ok:
  "reads D bs v \<Longrightarrow> seq_ok s \<Longrightarrow> seq_bytes s = bs @ rest \<Longrightarrow> commit D s = (Ok v, seq_drop s (length bs))"
  using readsD [of D bs v "seq_lookahead s" rest] by (simp add: commit_def seq_consume_eq)

lemma commit_Err: "fst (D (seq_lookahead s)) = Err e \<Longrightarrow> commit D s = (Err e, s)"
  by (cases "D (seq_lookahead s)") (simp add: commit_def)

lemma reads_commit: "reads D bs v \<Longrightarrow> reads (commit D) bs v"
  unfolding reads_def [of "commit D"] using commit_Ok by fastforce

lemma commit_short:
  "starves D bs \<Longrightarrow> seq_ok s \<Longrightarrow> k < length bs \<Longrightarrow> seq_bytes s = take k bs \<Longrightarrow> commit D s = (Err Incomplete, s)"
  by (rule commit_Err, rule starvesD) simp_all

lemma starves_commit: "starves D bs \<Longrightarrow> starves (commit D) bs"
  unfolding starves_def [of "commit D"] using commit_short by fastforce

section \<open>Decoders that only move their lookahead\<close>

text \<open>
  \<open>moves D E\<close>: on a lookahead \<open>D\<close> does nothing but advance it within its bytes, and it fails with
  errors of \<open>E\<close> only.
\<close>

definition moves :: "(sequence \<Rightarrow> ('a, error) result \<times> sequence) \<Rightarrow> error set \<Rightarrow> bool" where
  "moves D E \<longleftrightarrow>
     (\<forall>l. lookahead_ok l \<longrightarrow>
        (\<exists>r n. D l = (r, seq_drop l n) \<and> n \<le> length (seq_bytes l) \<and> (\<forall>e. r = Err e \<longrightarrow> e \<in> E)))"

lemma movesD:
  "moves D E \<Longrightarrow> lookahead_ok l \<Longrightarrow>
   \<exists>r n. D l = (r, seq_drop l n) \<and> n \<le> length (seq_bytes l) \<and> (\<forall>e. r = Err e \<longrightarrow> e \<in> E)"
  by (simp add: moves_def)

lemma moves_return [intro]: "(\<And>e. r = Err e \<Longrightarrow> e \<in> E) \<Longrightarrow> moves (\<lambda>l. (r, l)) E"
  unfolding moves_def by (fastforce intro: exI [of _ "0 :: nat"])

lemma moves_try:
  assumes D: "moves D E" and K: "\<And>v. moves (K v) E"
  shows "moves (\<lambda>l. try_state (D l) K) E"
  unfolding moves_def
proof (intro allI impI)
  fix l
  assume l: "lookahead_ok l"
  obtain r n where r: "D l = (r, seq_drop l n)" "n \<le> length (seq_bytes l)" "\<forall>e. r = Err e \<longrightarrow> e \<in> E"
    using movesD [OF D l] by blast
  show "\<exists>r n. try_state (D l) K = (r, seq_drop l n) \<and> n \<le> length (seq_bytes l) \<and> (\<forall>e. r = Err e \<longrightarrow> e \<in> E)"
  proof (cases r)
    case (Ok v)
    have "lookahead_ok (seq_drop l n)" using l by simp
    from movesD [OF K this, of v]
    obtain r' m where r': "K v (seq_drop l n) = (r', seq_drop (seq_drop l n) m)"
      "m \<le> length (seq_bytes (seq_drop l n))" "\<forall>e. r' = Err e \<longrightarrow> e \<in> E"
      by blast
    then have "try_state (D l) K = (r', seq_drop l (n + m))" using r Ok l by simp
    moreover have "n + m \<le> length (seq_bytes l)" using r(2) r'(2) l by simp
    ultimately show ?thesis using r'(3) by blast
  qed (use r in auto)
qed

lemma moves_if: "(b \<Longrightarrow> moves D E) \<Longrightarrow> (\<not> b \<Longrightarrow> moves D' E) \<Longrightarrow> moves (\<lambda>l. if b then D l else D' l) E"
  by (cases b) simp_all

lemma moves_at:
  assumes "\<And>b. moves (D b) E" "\<And>l. P l \<longleftrightarrow> seq_empty l" "Incomplete \<in> E"
  shows "moves (\<lambda>l. if P l then (Err Incomplete, l) else try_in l (or_fault (seq_at l 0)) (\<lambda>b. D b l)) E"
  unfolding moves_def
proof (intro allI impI)
  fix l
  assume l: "lookahead_ok l"
  show "\<exists>r n. (if P l then (Err Incomplete, l) else try_in l (or_fault (seq_at l 0)) (\<lambda>b. D b l)) = (r, seq_drop l n) \<and>
      n \<le> length (seq_bytes l) \<and> (\<forall>e. r = Err e \<longrightarrow> e \<in> E)"
  proof (cases "seq_bytes l")
    case Nil
    then show ?thesis using l assms(2,3) by (intro exI [of _ "Err Incomplete"] exI [of _ 0]) simp
  next
    case (Cons b bs)
    then show ?thesis using movesD [OF assms(1) l, of b] l assms(2) by (simp add: seq.at_eq)
  qed
qed

lemma moves_commit: "moves D E \<Longrightarrow> moves (commit D) E"
  unfolding moves_def [of "commit D"]
proof (intro allI impI)
  fix l
  assume D: "moves D E" and l: "lookahead_ok l"
  obtain r n where r: "D (seq_lookahead l) = (r, seq_drop (seq_lookahead l) n)" "n \<le> length (seq_bytes l)"
    "\<forall>e. r = Err e \<longrightarrow> e \<in> E"
    using movesD [OF D, of "seq_lookahead l"] l by auto
  then have "commit D l = (r, seq_drop l (case r of Ok v \<Rightarrow> n | _ \<Rightarrow> 0))"
    using l by (cases r) (simp_all add: commit_def seq_consume_eq)
  then show "\<exists>r n. commit D l = (r, seq_drop l n) \<and> n \<le> length (seq_bytes l) \<and> (\<forall>e. r = Err e \<longrightarrow> e \<in> E)"
    using r(2,3) by (intro exI [of _ r] exI [of _ "case r of Ok v \<Rightarrow> n | _ \<Rightarrow> 0"]) (cases r; simp)
qed

section \<open>Writers\<close>

text \<open>
  The encoders advance a pointer through the destination. A cursor is the offset of \<open>dest\<close> with
  the memory; \<open>writes P bs\<close> says that \<open>P\<close> stores exactly \<open>bs\<close> and touches nothing else.
\<close>

type_synonym cursor = "nat \<times> bytes"

text \<open>\<open>*dest++ = b\<close>.\<close>

definition put_byte :: "byte \<Rightarrow> cursor \<Rightarrow> (cursor, error) result" where
  "put_byte b c =
     (case c of (dest, mem) \<Rightarrow>
        bnl_try (or_fault (mem_store mem dest [b])) (\<lambda>mem'. Ok (dest + 1, mem')))"

definition writes :: "(cursor \<Rightarrow> (cursor, error) result) \<Rightarrow> bytes \<Rightarrow> bool" where
  "writes P bs \<longleftrightarrow>
     (\<forall>pre post. length bs \<le> length post \<longrightarrow>
        P (length pre, pre @ post) = Ok (length pre + length bs, pre @ bs @ drop (length bs) post))"

lemma writesD:
  "writes P bs \<Longrightarrow> n = length pre \<Longrightarrow> length bs \<le> length post \<Longrightarrow>
   P (n, pre @ post) = Ok (n + length bs, pre @ bs @ drop (length bs) post)"
  by (simp add: writes_def)

lemma writes_Nil [intro!]: "writes Ok []"
  by (simp add: writes_def)

lemma writes_try: "writes P a \<Longrightarrow> writes Q b \<Longrightarrow> writes (\<lambda>c. bnl_try (P c) Q) (a @ b)"
  unfolding writes_def
proof (intro allI impI)
  fix pre post :: bytes
  assume P: "\<forall>pre post. length a \<le> length post \<longrightarrow>
      P (length pre, pre @ post) = Ok (length pre + length a, pre @ a @ drop (length a) post)"
    and Q: "\<forall>pre post. length b \<le> length post \<longrightarrow>
      Q (length pre, pre @ post) = Ok (length pre + length b, pre @ b @ drop (length b) post)"
    and len: "length (a @ b) \<le> length post"
  have "P (length pre, pre @ post) = Ok (length pre + length a, pre @ a @ drop (length a) post)"
    using P len by simp
  moreover have "Q (length (pre @ a), (pre @ a) @ drop (length a) post) =
      Ok (length (pre @ a) + length b, (pre @ a) @ b @ drop (length b) (drop (length a) post))"
    by (rule Q [rule_format]) (use len in simp)
  ultimately show "bnl_try (P (length pre, pre @ post)) Q =
      Ok (length pre + length (a @ b), pre @ (a @ b) @ drop (length (a @ b)) post)"
    by (simp add: add.commute add.left_commute)
qed

lemma writes_put_byte [intro!]: "writes (put_byte b) [b]"
  by (simp add: writes_def put_byte_def mem_store_append)

end
