(* ===== verification/Varint.thy ===== *)
theory Varint
  imports Codec
begin

text \<open>
  Variable-length integers (\<open>bnl/http3/src/codec/varint\<close>): the two high bits of the first byte
  give the binary logarithm of the length, the remaining bits are the value in network order.
\<close>

section \<open>encode.cpp\<close>

definition varint_max :: uint64 where
  "varint_max = push_bit 56 0x40 - 1"

definition varint_encoded_size :: "uint64 \<Rightarrow> (nat, error) result" where
  "varint_encoded_size varint =
     (if varint < 0x40 then Ok 1
      else if varint < push_bit 8 0x40 then Ok 2
      else if varint < push_bit 24 0x40 then Ok 4
      else if varint < push_bit 56 0x40 then Ok 8
      else Err Varint_overflow)"

definition uint8_header :: byte where "uint8_header = 0x00"
definition uint16_header :: byte where "uint16_header = 0x40"
definition uint32_header :: byte where "uint32_header = 0x80"
definition uint64_header :: byte where "uint64_header = 0xc0"

definition uint8_encode :: "bytes \<Rightarrow> nat \<Rightarrow> byte \<Rightarrow> bytes option" where
  "uint8_encode mem dest number = mem_store mem dest [number OR uint8_header]"

definition uint16_encode :: "bytes \<Rightarrow> nat \<Rightarrow> uint16 \<Rightarrow> bytes option" where
  "uint16_encode mem dest number =
     mem_store mem dest
       [ucast (drop_bit 8 number) OR uint16_header,
        ucast (drop_bit 0 number)]"

definition uint32_encode :: "bytes \<Rightarrow> nat \<Rightarrow> uint32 \<Rightarrow> bytes option" where
  "uint32_encode mem dest number =
     mem_store mem dest
       [ucast (drop_bit 24 number) OR uint32_header,
        ucast (drop_bit 16 number),
        ucast (drop_bit 8 number),
        ucast (drop_bit 0 number)]"

definition uint64_encode :: "bytes \<Rightarrow> nat \<Rightarrow> uint64 \<Rightarrow> bytes option" where
  "uint64_encode mem dest number =
     mem_store mem dest
       [ucast (drop_bit 56 number) OR uint64_header,
        ucast (drop_bit 48 number),
        ucast (drop_bit 40 number),
        ucast (drop_bit 32 number),
        ucast (drop_bit 24 number),
        ucast (drop_bit 16 number),
        ucast (drop_bit 8 number),
        ucast (drop_bit 0 number)]"

text \<open>\<open>encode(dest, varint)\<close>: the number of bytes written, and the memory after the writes.\<close>

definition varint_encode :: "bytes \<Rightarrow> nat \<Rightarrow> uint64 \<Rightarrow> (nat \<times> bytes, error) result" where
  "varint_encode mem dest varint =
     bnl_try (varint_encoded_size varint) (\<lambda>varint_size.
     bnl_try (or_fault
        (if varint_size = 1 then uint8_encode mem dest (ucast varint)
         else if varint_size = 2 then uint16_encode mem dest (ucast varint)
         else if varint_size = 4 then uint32_encode mem dest (ucast varint)
         else if varint_size = 8 then uint64_encode mem dest varint
         else None)) (\<lambda>mem'.
     Ok (varint_size, mem')))"

definition varint_encode_buffer :: "(nat \<Rightarrow> byte) \<Rightarrow> uint64 \<Rightarrow> (bytes, error) result" where
  "varint_encode_buffer junk varint =
     bnl_try (varint_encoded_size varint) (\<lambda>encoded_size.
     bnl_try (varint_encode (fresh_memory junk encoded_size) 0 varint) (\<lambda>(_, encoded).
     Ok encoded))"

section \<open>decode.cpp\<close>

definition uint8_decode :: "sequence \<Rightarrow> byte option \<times> sequence" where
  "uint8_decode lookahead =
     (case seq_read lookahead 1 of
        Some [b0] \<Rightarrow> (Some (b0 AND 0x3f), seq_drop lookahead 1)
      | _ \<Rightarrow> (None, lookahead))"

definition uint16_decode :: "sequence \<Rightarrow> uint16 option \<times> sequence" where
  "uint16_decode lookahead =
     (case seq_read lookahead 2 of
        Some [b0, b1] \<Rightarrow>
          (Some ((push_bit 8 (ucast b0) OR push_bit 0 (ucast b1)) AND 0x3fff),
           seq_drop lookahead 2)
      | _ \<Rightarrow> (None, lookahead))"

definition uint32_decode :: "sequence \<Rightarrow> uint32 option \<times> sequence" where
  "uint32_decode lookahead =
     (case seq_read lookahead 4 of
        Some [b0, b1, b2, b3] \<Rightarrow>
          (Some ((push_bit 24 (ucast b0) OR push_bit 16 (ucast b1) OR
                  push_bit 8 (ucast b2) OR push_bit 0 (ucast b3)) AND 0x3fffffff),
           seq_drop lookahead 4)
      | _ \<Rightarrow> (None, lookahead))"

definition uint64_decode :: "sequence \<Rightarrow> uint64 option \<times> sequence" where
  "uint64_decode lookahead =
     (case seq_read lookahead 8 of
        Some [b0, b1, b2, b3, b4, b5, b6, b7] \<Rightarrow>
          (Some ((push_bit 56 (ucast b0) OR push_bit 48 (ucast b1) OR
                  push_bit 40 (ucast b2) OR push_bit 32 (ucast b3) OR
                  push_bit 24 (ucast b4) OR push_bit 16 (ucast b5) OR
                  push_bit 8 (ucast b6) OR push_bit 0 (ucast b7)) AND 0x3fffffffffffffff),
           seq_drop lookahead 8)
      | _ \<Rightarrow> (None, lookahead))"

text \<open>The \<open>switch\<close> on the size; the narrower results are widened to \<open>uint64_t\<close>.\<close>

definition varint_switch :: "nat \<Rightarrow> sequence \<Rightarrow> uint64 option \<times> sequence" where
  "varint_switch varint_size lookahead =
     (if varint_size = 1 then map_prod (map_option ucast) id (uint8_decode lookahead)
      else if varint_size = 2 then map_prod (map_option ucast) id (uint16_decode lookahead)
      else if varint_size = 4 then map_prod (map_option ucast) id (uint32_decode lookahead)
      else if varint_size = 8 then uint64_decode lookahead
      else (None, lookahead))"

definition varint_decode :: "sequence \<Rightarrow> (uint64, error) result \<times> sequence" where
  "varint_decode encoded =
     (let lookahead = seq_lookahead encoded in
      if seq_empty lookahead then (Err Incomplete, encoded)
      else try_in encoded (or_fault (seq_at lookahead 0)) (\<lambda>first.
        let header = drop_bit 6 first;
            varint_size = push_bit (unat header) 1
        in if seq_size lookahead < varint_size then (Err Incomplete, encoded)
           else (case varint_switch varint_size lookahead of
              (None, _) \<Rightarrow> (Fault, encoded)
            | (Some varint, lookahead') \<Rightarrow>
                try_in encoded (or_fault (seq_consume encoded (seq_consumed lookahead')))
                  (\<lambda>encoded'. (Ok varint, encoded')))))"

section \<open>The wire format\<close>

text \<open>
  The specification both directions are compared with: \<open>be_bytes\<close> writes a word in network order,
  \<open>be_value\<close> reads one.
\<close>

definition be_bytes :: "nat \<Rightarrow> uint64 \<Rightarrow> bytes" where
  "be_bytes n x = map (\<lambda>i. ucast (drop_bit (8 * (n - 1 - i)) x)) [0..<n]"

definition be_value :: "bytes \<Rightarrow> uint64" where
  "be_value bs = foldl (\<lambda>acc b. push_bit 8 acc OR ucast b) 0 bs"

definition varint_size :: "uint64 \<Rightarrow> nat" where
  "varint_size v = (if v < 2 ^ 6 then 1 else if v < 2 ^ 14 then 2 else if v < 2 ^ 30 then 4 else 8)"

definition varint_wire :: "uint64 \<Rightarrow> bytes" where
  "varint_wire v =
     (if v < 2 ^ 6 then be_bytes 1 v
      else if v < 2 ^ 14 then be_bytes 2 (v OR push_bit 14 1)
      else if v < 2 ^ 30 then be_bytes 4 (v OR push_bit 30 2)
      else be_bytes 8 (v OR push_bit 62 3))"

definition varint_parse :: "bytes \<Rightarrow> (uint64 \<times> nat) option" where
  "varint_parse bs =
     (case bs of [] \<Rightarrow> None
      | b # _ \<Rightarrow>
          (let n = 2 ^ unat (drop_bit 6 b) in
           if length bs < n then None
           else Some (take_bit (8 * n - 2) (be_value (take n bs)), n)))"

section \<open>Encoding\<close>

lemma varint_encoded_size_eq:
  "varint_encoded_size v = (if v < 2 ^ 62 then Ok (varint_size v) else Err Varint_overflow)"
  by (auto simp: varint_encoded_size_def varint_size_def word_less_nat_alt)

lemma varint_size_cases: "varint_size v \<in> {1, 2, 4, 8}"
  by (simp add: varint_size_def)

lemma varint_size_pos [simp]: "0 < varint_size v" "varint_size v \<noteq> 0"
  by (simp_all add: varint_size_def)

lemma varint_size_le: "varint_size v \<le> 8"
  by (simp add: varint_size_def)

lemma length_be_bytes [simp]: "length (be_bytes n x) = n"
  by (simp add: be_bytes_def)

lemma length_varint_wire [simp]: "length (varint_wire v) = varint_size v"
  by (simp add: varint_wire_def varint_size_def)

lemma varint_wire_not_Nil [simp]: "varint_wire v \<noteq> []"
  by (metis length_varint_wire list.size(3) varint_size_pos(2))

lemma be_bytes_enum:
  "be_bytes 1 x = [ucast x]"
  "be_bytes (Suc 0) x = [ucast x]"
  "be_bytes 2 x = [ucast (drop_bit 8 x), ucast x]"
  "be_bytes 4 x = [ucast (drop_bit 24 x), ucast (drop_bit 16 x), ucast (drop_bit 8 x), ucast x]"
  "be_bytes 8 x = [ucast (drop_bit 56 x), ucast (drop_bit 48 x), ucast (drop_bit 40 x),
     ucast (drop_bit 32 x), ucast (drop_bit 24 x), ucast (drop_bit 16 x), ucast (drop_bit 8 x),
     ucast x]"
  by (simp_all add: be_bytes_def upt_rec)

lemma uint8_bytes: "v < 2 ^ 6 \<Longrightarrow> [ucast v OR uint8_header] = be_bytes 1 (v :: uint64)"
  by (simp add: uint8_header_def be_bytes_enum)

lemma uint16_bytes:
  assumes "v < 2 ^ 14"
  shows "[ucast (drop_bit 8 (ucast v :: uint16)) OR uint16_header,
     ucast (drop_bit 0 (ucast v :: uint16))] = be_bytes 2 ((v :: uint64) OR push_bit 14 1)"
proof -
  note nb = not_bit_above [OF assms]
  have "ucast (drop_bit 8 (ucast v :: uint16)) OR uint16_header =
      (ucast (drop_bit 8 (v OR push_bit 14 1)) :: byte)"
    by (rule word_eqI_upt) (simp add: upt_8 bit_simps uint16_header_def nb)
  moreover have "ucast (drop_bit 0 (ucast v :: uint16)) = (ucast (v OR push_bit 14 1) :: byte)"
    by (rule word_eqI_upt) (simp add: upt_8 bit_simps)
  ultimately show ?thesis by (simp add: be_bytes_enum)
qed

lemma uint32_bytes:
  assumes "v < 2 ^ 30"
  shows "[ucast (drop_bit 24 (ucast v :: uint32)) OR uint32_header,
     ucast (drop_bit 16 (ucast v :: uint32)), ucast (drop_bit 8 (ucast v :: uint32)),
     ucast (drop_bit 0 (ucast v :: uint32))] = be_bytes 4 ((v :: uint64) OR push_bit 30 2)"
proof -
  note nb = not_bit_above [OF assms]
  have "ucast (drop_bit 24 (ucast v :: uint32)) OR uint32_header =
      (ucast (drop_bit 24 (v OR push_bit 30 2)) :: byte)"
    by (rule word_eqI_upt) (simp add: upt_8 bit_simps uint32_header_def nb)
  moreover have "ucast (drop_bit k (ucast v :: uint32)) = (ucast (drop_bit k (v OR push_bit 30 2)) :: byte)"
    if "k \<in> {0, 8, 16}" for k
    using that by (intro word_eqI_upt) (auto simp: upt_8 bit_simps)
  ultimately show ?thesis
    by (simp add: be_bytes_enum del: drop_bit_or) (metis drop_bit_0 id_apply insertCI)
qed

lemma uint64_bytes:
  assumes "v < 2 ^ 62"
  shows "[ucast (drop_bit 56 v) OR uint64_header, ucast (drop_bit 48 v), ucast (drop_bit 40 v),
     ucast (drop_bit 32 v), ucast (drop_bit 24 v), ucast (drop_bit 16 v), ucast (drop_bit 8 v),
     ucast (drop_bit 0 v)] = be_bytes 8 ((v :: uint64) OR push_bit 62 3)"
proof -
  note nb = not_bit_above [OF assms]
  have "ucast (drop_bit 56 v) OR uint64_header = (ucast (drop_bit 56 (v OR push_bit 62 3)) :: byte)"
    by (rule word_eqI_upt) (simp add: upt_8 bit_simps uint64_header_def nb)
  moreover have "ucast (drop_bit k v) = (ucast (drop_bit k (v OR push_bit 62 3)) :: byte)"
    if "k \<in> {0, 8, 16, 24, 32, 40, 48}" for k
    using that by (intro word_eqI_upt) (auto simp: upt_8 bit_simps)
  ultimately show ?thesis
    by (simp add: be_bytes_enum del: drop_bit_or) (metis drop_bit_0 id_apply insertCI)
qed

text \<open>What the writers do: they store the wire format, or fault when the memory is too small.\<close>

lemma varint_encode_eq:
  "varint_encode mem dest v =
     (if v < 2 ^ 62
      then bnl_try (or_fault (mem_store mem dest (varint_wire v))) (\<lambda>mem'. Ok (varint_size v, mem'))
      else Err Varint_overflow)"
proof -
  consider "v < 2 ^ 6" | "\<not> v < 2 ^ 6" "v < 2 ^ 14" | "\<not> v < 2 ^ 14" "v < 2 ^ 30"
    | "\<not> v < 2 ^ 30" "v < 2 ^ 62" | "\<not> v < 2 ^ 62" by blast
  then show ?thesis
  proof cases
    case 1
    then have "v < 2 ^ 62" by (simp add: word_less_nat_alt)
    with 1 show ?thesis using uint8_bytes [OF 1]
      by (simp add: varint_encode_def varint_encoded_size_eq varint_size_def varint_wire_def
          uint8_encode_def)
  next
    case 2
    then have "v < 2 ^ 62" by (simp add: word_less_nat_alt)
    with 2 show ?thesis using uint16_bytes [OF 2(2)]
      by (simp add: varint_encode_def varint_encoded_size_eq varint_size_def varint_wire_def
          uint16_encode_def)
  next
    case 3
    then have "v < 2 ^ 62" "\<not> v < 2 ^ 6" by (simp_all add: word_less_nat_alt)
    with 3 show ?thesis using uint32_bytes [OF 3(2)]
      by (simp add: varint_encode_def varint_encoded_size_eq varint_size_def varint_wire_def
          uint32_encode_def)
  next
    case 4
    then have "\<not> v < 2 ^ 14" "\<not> v < 2 ^ 6" by (simp_all add: word_less_nat_alt)
    with 4 show ?thesis using uint64_bytes [OF 4(2)]
      by (simp add: varint_encode_def varint_encoded_size_eq varint_size_def varint_wire_def
          uint64_encode_def)
  qed (simp add: varint_encode_def varint_encoded_size_eq)
qed

lemma varint_encode_buffer_eq:
  "varint_encode_buffer junk v = (if v < 2 ^ 62 then Ok (varint_wire v) else Err Varint_overflow)"
  by (simp add: varint_encode_buffer_def varint_encoded_size_eq varint_encode_eq mem_store_def)

section \<open>Decoding\<close>

lemma be_value_enum:
  "be_value [b0] = ucast b0"
  "be_value [b0, b1] = push_bit 8 (ucast b0) OR ucast b1"
  "be_value [b0, b1, b2, b3] =
     push_bit 8 (push_bit 8 (push_bit 8 (ucast b0) OR ucast b1) OR ucast b2) OR ucast b3"
  "be_value [b0, b1, b2, b3, b4, b5, b6, b7] =
     push_bit 8 (push_bit 8 (push_bit 8 (push_bit 8 (push_bit 8 (push_bit 8 (push_bit 8
       (ucast b0) OR ucast b1) OR ucast b2) OR ucast b3) OR ucast b4) OR ucast b5)
       OR ucast b6) OR ucast b7"
  by (simp_all add: be_value_def)

lemma uint8_value: "ucast (b0 AND 0x3f :: byte) = take_bit 6 (be_value [b0])"
  by (rule word_eqI_upt) (simp add: upt_64 bit_simps be_value_enum)

lemma uint16_value:
  "ucast ((push_bit 8 (ucast b0) OR push_bit 0 (ucast b1)) AND 0x3fff :: uint16) =
   take_bit 14 (be_value [b0, b1])"
  by (rule word_eqI_upt) (simp add: upt_64 bit_simps be_value_enum)

lemma uint32_value:
  "ucast ((push_bit 24 (ucast b0) OR push_bit 16 (ucast b1) OR push_bit 8 (ucast b2) OR
     push_bit 0 (ucast b3)) AND 0x3fffffff :: uint32) = take_bit 30 (be_value [b0, b1, b2, b3])"
  by (rule word_eqI_upt) (simp add: upt_64 bit_simps be_value_enum)

lemma uint64_value:
  "(push_bit 56 (ucast b0) OR push_bit 48 (ucast b1) OR push_bit 40 (ucast b2) OR
    push_bit 32 (ucast b3) OR push_bit 24 (ucast b4) OR push_bit 16 (ucast b5) OR
    push_bit 8 (ucast b6) OR push_bit 0 (ucast b7)) AND 0x3fffffffffffffff =
   take_bit 62 (be_value [b0, b1, b2, b3, b4, b5, b6, b7])"
  by (rule word_eqI_upt) (simp add: upt_64 bit_simps be_value_enum)

lemma header_cases: "unat (drop_bit 6 (b :: byte)) \<in> {0, 1, 2, 3}"
proof -
  have "unat b < 256" using unsigned_less [of b] by simp
  then have "unat b div 64 < 4" by (simp add: less_mult_imp_div_less)
  then have "unat (drop_bit 6 b) < 4" using unat_drop_bit [of 6 b] by simp
  then show ?thesis by auto
qed

lemma varint_switch_eq:
  assumes ok: "seq_ok s" and n: "n \<in> {1, 2, 4, 8}" "n \<le> length (seq_bytes s)"
  shows "varint_switch n s = (Some (take_bit (8 * n - 2) (be_value (take n (seq_bytes s)))), seq_drop s n)"
proof -
  have len: "length (take n (seq_bytes s)) = n" using n by simp
  have rd: "seq_read s n = Some (take n (seq_bytes s))" using ok n by (simp add: seq_read_eq)
  consider "n = 1" | "n = 2" | "n = 4" | "n = 8" using n by auto
  then show ?thesis
  proof cases
    case 1
    then obtain b0 where "take n (seq_bytes s) = [b0]"
      using list_of_length(1) [of "take n (seq_bytes s)"] len by blast
    with 1 rd show ?thesis using uint8_value [of b0]
      by (simp add: varint_switch_def uint8_decode_def)
  next
    case 2
    then obtain b0 b1 where "take n (seq_bytes s) = [b0, b1]"
      using list_of_length(2) [of "take n (seq_bytes s)"] len by blast
    with 2 rd show ?thesis using uint16_value [of b0 b1]
      by (simp add: varint_switch_def uint16_decode_def)
  next
    case 3
    then obtain b0 b1 b2 b3 where "take n (seq_bytes s) = [b0, b1, b2, b3]"
      using list_of_length(3) [of "take n (seq_bytes s)"] len by blast
    with 3 rd show ?thesis using uint32_value [of b0 b1 b2 b3]
      by (simp add: varint_switch_def uint32_decode_def)
  next
    case 4
    then obtain b0 b1 b2 b3 b4 b5 b6 b7 where
      "take n (seq_bytes s) = [b0, b1, b2, b3, b4, b5, b6, b7]"
      using list_of_length(4) [of "take n (seq_bytes s)"] len by blast
    with 4 rd show ?thesis using uint64_value [of b0 b1 b2 b3 b4 b5 b6 b7]
      by (simp add: varint_switch_def uint64_decode_def)
  qed
qed

text \<open>The decoder reads what \<open>varint_parse\<close> reads, on each of the four byte containers.\<close>

lemma varint_decode_eq [codec_simps]:
  assumes ok: "seq_ok s"
  shows "varint_decode s =
     (case varint_parse (seq_bytes s) of
        None \<Rightarrow> (Err Incomplete, s)
      | Some (v, n) \<Rightarrow> (Ok v, seq_drop s n))"
proof (cases "seq_bytes s")
  case Nil
  then show ?thesis using ok by (simp add: varint_decode_def varint_parse_def)
next
  case (Cons b bs)
  define n where "n = (2 :: nat) ^ unat (drop_bit 6 b)"
  have cases: "n \<in> {1, 2, 4, 8}" using header_cases [of b] by (auto simp: n_def)
  have push: "push_bit (unat (drop_bit 6 b)) (1 :: nat) = n" by (simp add: n_def push_bit_eq_mult)
  let ?la = "seq_lookahead s"
  have la: "seq_ok ?la" "seq_bytes ?la = b # bs" using ok Cons by simp_all
  have first: "seq_at ?la 0 = Some b" using la by (simp add: seq.at_eq)
  show ?thesis
  proof (cases "length (b # bs) < n")
    case True
    then show ?thesis using la first Cons
      by (simp add: varint_decode_def varint_parse_def push n_def [symmetric])
  next
    case False
    then have sw: "varint_switch n ?la =
        (Some (take_bit (8 * n - 2) (be_value (take n (b # bs)))), seq_drop ?la n)"
      using varint_switch_eq [of ?la n] la cases by simp
    moreover have "seq_consumed (seq_drop ?la n) = n" using False la by simp
    ultimately show ?thesis using False la first Cons ok
      by (simp add: varint_decode_def varint_parse_def push n_def [symmetric] seq_consume_eq)
  qed
qed

lemma varint_parse_bounds:
  assumes "varint_parse bs = Some (v, n)"
  shows "n \<le> length bs \<and> n \<in> {1, 2, 4, 8} \<and> v < 2 ^ 62"
proof -
  from assms obtain b bs' where bs: "bs = b # bs'"
    by (auto simp: varint_parse_def split: list.splits)
  define m where "m = (2 :: nat) ^ unat (drop_bit 6 b)"
  have cases: "m \<in> {1, 2, 4, 8}" using header_cases [of b] by (auto simp: m_def)
  from assms bs have n: "n = m" "m \<le> length bs" "v = take_bit (8 * m - 2) (be_value (take m bs))"
    by (auto simp: varint_parse_def m_def Let_def split: if_splits)
  have "8 * m - 2 \<le> 62" using cases by auto
  then have "take_bit 62 v = v" by (simp add: n(3) min_def)
  moreover have "take_bit 62 v < 2 ^ 62" by (rule take_bit_word_less) simp
  ultimately show ?thesis using n cases by auto
qed

section \<open>Round trip\<close>

lemma be_round_trip:
  "be_value (be_bytes 1 v) AND 0xff = v AND 0xff"
  "be_value (be_bytes 2 v) AND 0xffff = v AND 0xffff"
  "be_value (be_bytes 4 v) AND 0xffffffff = v AND 0xffffffff"
  "be_value (be_bytes 8 v) = v"
  by (rule word_eqI_upt, simp add: upt_64 bit_simps be_value_enum be_bytes_enum)+

lemma take_bit_or_high:
  assumes "v < 2 ^ k" and "be_value bs AND m = (v OR push_bit k h) AND m" and "take_bit k m = mask k"
  shows "take_bit k (be_value bs) = (v :: uint64)"
proof -
  have "take_bit k (be_value bs) = take_bit k (be_value bs AND m)"
    by (simp add: take_bit_and assms(3)) (auto simp: bit_eq_iff bit_simps)
  also have "\<dots> = take_bit k ((v OR push_bit k h) AND m)" by (simp add: assms(2))
  also have "\<dots> = take_bit k v"
    by (simp add: take_bit_and assms(3)) (auto simp: bit_eq_iff bit_simps)
  also have "\<dots> = v"
    by (rule bit_eqI) (metis assms(1) bit_take_bit_iff not_bit_above not_less)
  finally show ?thesis .
qed

lemma header_byte:
  assumes "v < 2 ^ (8 * c + 6)" and "c \<le> 7"
  shows "drop_bit 6 (ucast (drop_bit (8 * c) ((v :: uint64) OR push_bit (8 * c + 6) h)) :: byte) =
    ucast h AND 3"
proof (rule bit_word_eqI)
  fix n assume "n < LENGTH(8)"
  then have n: "n < 8" by simp
  have *: "8 * c + (6 + n) = (8 * c + 6) + n" by simp
  have nb: "\<not> bit v (8 * c + (6 + n))" by (rule not_bit_above [OF assms(1)]) simp
  have three: "bit (3 :: byte) n \<longleftrightarrow> n < 2"
  proof -
    have "(3 :: byte) = mask 2" by (simp add: mask_eq_exp_minus_1)
    then show ?thesis by (simp only: bit_mask_iff) (use n in simp)
  qed
  have shift: "bit (push_bit (8 * c + 6) h) (8 * c + (6 + n)) \<longleftrightarrow> 8 * c + 6 + n < 64 \<and> bit h n"
    by (simp add: bit_push_bit_iff)
  have "bit (drop_bit 6 (ucast (drop_bit (8 * c) (v OR push_bit (8 * c + 6) h)) :: byte)) n \<longleftrightarrow>
      6 + n < 8 \<and> bit (v OR push_bit (8 * c + 6) h) (8 * c + (6 + n))"
    using assms(2) n by (auto simp: bit_drop_bit_eq bit_ucast_iff simp del: bit_or_iff drop_bit_or dest: bit_imp_le_length)
  also have "\<dots> \<longleftrightarrow> n < 2 \<and> bit h n"
    using nb shift assms(2) by (auto simp only: bit_or_iff)
  also have "\<dots> \<longleftrightarrow> bit (ucast h AND 3 :: byte) n"
    using three n by (auto simp: bit_and_iff bit_ucast_iff)
  finally show "bit (drop_bit 6 (ucast (drop_bit (8 * c) (v OR push_bit (8 * c + 6) h)) :: byte)) n =
      bit (ucast h AND 3 :: byte) n" .
qed

lemma first_be_byte: "0 < n \<Longrightarrow> \<exists>bs. be_bytes n x = ucast (drop_bit (8 * (n - 1)) x) # bs"
  by (cases n) (auto simp: be_bytes_def upt_rec)

lemma varint_wire_eq:
  "\<exists>h. varint_wire v = be_bytes (varint_size v) (v OR push_bit (8 * varint_size v - 2) h) \<and>
    2 ^ unat (ucast h AND 3 :: byte) = varint_size v \<and>
    be_value (varint_wire v) AND mask (8 * varint_size v) =
      (v OR push_bit (8 * varint_size v - 2) h) AND mask (8 * varint_size v)"
proof -
  have masks: "(mask 8 :: uint64) = 0xff" "(mask 16 :: uint64) = 0xffff"
    "(mask 32 :: uint64) = 0xffffffff"
    by (simp_all add: mask_eq_exp_minus_1)
  have full: "x AND (mask 64 :: uint64) = x" for x
    by (rule word_eqI_upt) (simp add: upt_64 bit_simps)
  note rt = be_round_trip
  consider "v < 2 ^ 6" | "\<not> v < 2 ^ 6" "v < 2 ^ 14" | "\<not> v < 2 ^ 6" "\<not> v < 2 ^ 14" "v < 2 ^ 30"
    | "\<not> v < 2 ^ 6" "\<not> v < 2 ^ 14" "\<not> v < 2 ^ 30" by blast
  then show ?thesis
  proof cases
    case 1
    then show ?thesis using rt(1) [of v]
      by (intro exI [of _ 0]) (simp add: varint_wire_def varint_size_def masks)
  next
    case 2
    then show ?thesis using rt(2) [of "v OR push_bit 14 1"]
      by (intro exI [of _ 1]) (simp add: varint_wire_def varint_size_def masks)
  next
    case 3
    then show ?thesis using rt(3) [of "v OR push_bit 30 2"]
      by (intro exI [of _ 2]) (simp add: varint_wire_def varint_size_def masks)
  next
    case 4
    then show ?thesis using rt(4) [of "v OR push_bit 62 3"]
      by (intro exI [of _ 3]) (simp add: varint_wire_def varint_size_def full)
  qed
qed

lemma varint_size_bound: "v < 2 ^ 62 \<Longrightarrow> v < 2 ^ (8 * varint_size v - 2)"
  by (simp add: varint_size_def)

lemma varint_parse_wire:
  assumes v: "v < 2 ^ 62"
  shows "varint_parse (varint_wire v @ rest) = Some (v, varint_size v)"
proof -
  let ?n = "varint_size v" let ?k = "8 * varint_size v - 2"
  obtain h where h: "varint_wire v = be_bytes ?n (v OR push_bit ?k h)"
    "2 ^ unat (ucast h AND 3 :: byte) = ?n"
    "be_value (varint_wire v) AND mask (8 * ?n) = (v OR push_bit ?k h) AND mask (8 * ?n)"
    using varint_wire_eq by blast
  obtain b bs where bs: "varint_wire v = b # bs" by (cases "varint_wire v") auto
  have "b = ucast (drop_bit (8 * (?n - 1)) (v OR push_bit ?k h))"
    using first_be_byte [of ?n "v OR push_bit ?k h"] h(1) bs by auto
  then have header: "2 ^ unat (drop_bit 6 b) = ?n"
    using header_byte [of v "?n - 1" h] varint_size_bound [OF v] h(2) varint_size_le [of v]
    by (simp add: varint_size_def split: if_splits)
  have "take_bit ?k (mask (8 * ?n)) = (mask ?k :: uint64)"
    using varint_size_le [of v] by (auto simp: bit_eq_iff bit_simps)
  then have "take_bit ?k (be_value (varint_wire v)) = v"
    using take_bit_or_high [OF varint_size_bound [OF v] h(3)] by blast
  moreover have "take ?n (varint_wire v @ rest) = varint_wire v" by simp
  moreover have "varint_parse (varint_wire v @ rest) =
      (if length (varint_wire v @ rest) < ?n then None
       else Some (take_bit ?k (be_value (take ?n (varint_wire v @ rest))), ?n))"
    unfolding varint_parse_def by (simp only: bs append_Cons list.case header Let_def)
  ultimately show ?thesis by simp
qed

text \<open>Reading depends only on the bytes that are taken.\<close>

lemma varint_parse_local:
  assumes "varint_parse bs = Some (v, n)"
  shows "varint_parse (take n bs @ rest) = Some (v, n)"
proof -
  from assms obtain b bs' where bs: "bs = b # bs'"
    by (auto simp: varint_parse_def split: list.splits)
  define m where "m = (2 :: nat) ^ unat (drop_bit 6 b)"
  from assms bs have n: "n = m" "m \<le> length bs" "v = take_bit (8 * m - 2) (be_value (take m bs))"
    by (auto simp: varint_parse_def m_def Let_def split: if_splits)
  have "0 < m" by (simp add: m_def)
  then obtain k where k: "m = Suc k" by (cases m) auto
  then have tk: "take n bs @ rest = b # take k bs' @ rest" by (simp add: n(1) bs)
  have len: "m \<le> length (take n bs @ rest)" using n(1,2) by simp
  have tt: "take m (take n bs @ rest) = take m bs" using n(1,2) by simp
  have "varint_parse (take n bs @ rest) =
      (if length (take n bs @ rest) < m then None
       else Some (take_bit (8 * m - 2) (be_value (take m (take n bs @ rest))), m))"
    unfolding varint_parse_def tk list.case Let_def m_def [symmetric] ..
  then show ?thesis using len tt n by simp
qed

interpretation varint: prefix_codec varint_wire varint_parse "\<lambda>v. v < 2 ^ 62"
proof unfold_locales
  show "varint_parse (varint_wire v @ rest) = Some (v, length (varint_wire v))"
    if "v < 2 ^ 62" for v rest
    using varint_parse_wire [OF that] by simp
  show "0 < n \<and> n \<le> length bs" if "varint_parse bs = Some (v, n)" for bs v n
    using varint_parse_bounds [OF that] by auto
  show "varint_parse (take n bs @ rest) = Some (v, n)" if "varint_parse bs = Some (v, n)"
    for bs v n rest
    using that by (rule varint_parse_local)
qed

text \<open>The forms the frame codec uses.\<close>

lemma varint_decode_wire:
  "seq_ok s \<Longrightarrow> v < 2 ^ 62 \<Longrightarrow> seq_bytes s = varint_wire v @ rest \<Longrightarrow>
   varint_decode s = (Ok v, seq_drop s (varint_size v))"
  by (simp add: varint_decode_eq varint_parse_wire)

lemma varint_decode_OkD:
  "seq_ok s \<Longrightarrow> varint_decode s = (Ok v, s') \<Longrightarrow>
   \<exists>n. varint_parse (seq_bytes s) = Some (v, n) \<and> s' = seq_drop s n \<and> n \<le> length (seq_bytes s) \<and>
     0 < n \<and> v < 2 ^ 62"
  by (auto simp: varint_decode_eq split: option.splits dest!: varint_parse_bounds)

lemma streaming_varint: "streaming varint_decode"
  unfolding streaming_def
proof (intro allI impI)
  fix s t more
  assume ok: "lookahead_ok s" "lookahead_ok t" and st: "seq_bytes t = seq_bytes s @ more"
  show "\<exists>r n. varint_decode s = (r, seq_drop s n) \<and> n \<le> length (seq_bytes s) \<and> r \<noteq> Fault \<and>
      (r = Err Incomplete \<or> varint_decode t = (r, seq_drop t n))"
  proof (cases "varint_parse (seq_bytes s)")
    case None
    then show ?thesis using ok
      by (intro exI [of _ "Err Incomplete"] exI [of _ 0]) (simp add: varint_decode_eq)
  next
    case (Some vn)
    obtain v n where vn: "vn = (v, n)" by (cases vn)
    with Some have n: "n \<le> length (seq_bytes s)" using varint_parse_bounds by blast
    have "seq_bytes t = take n (seq_bytes s) @ drop n (seq_bytes s) @ more" using st by simp
    then have "varint_parse (seq_bytes t) = Some (v, n)"
      using varint_parse_local Some vn by metis
    with Some vn n ok show ?thesis
      by (intro exI [of _ "Ok v"] exI [of _ n]) (simp add: varint_decode_eq)
  qed
qed

lemma reads_varint: "v < 2 ^ 62 \<Longrightarrow> reads varint_decode (varint_wire v) v"
  by (simp add: reads_def varint_decode_wire)

lemma varint_encode_at:
  "v < 2 ^ 62 \<Longrightarrow> dest = length pre \<Longrightarrow> varint_size v \<le> length post \<Longrightarrow>
   varint_encode (pre @ post) dest v =
     Ok (varint_size v, pre @ varint_wire v @ drop (varint_size v) post)"
  by (simp add: varint_encode_eq mem_store_append)

section \<open>Properties\<close>

text \<open>
  C27. Every value below \<open>2\<^sup>6\<^sup>2\<close> is encoded, whatever the fresh memory held, to a buffer that
  decodes to the same value on each of the four byte containers, wherever their boundaries lie,
  consuming exactly the encoding and leaving the bytes that follow it.
\<close>

theorem varint_round_trip:
  assumes "v < 2 ^ 62" and "seq_ok s"
    and "varint_encode_buffer junk v = Ok encoded" and "seq_bytes s = encoded @ rest"
  shows "\<exists>s'. varint_decode s = (Ok v, s') \<and> seq_bytes s' = rest \<and> seq_ok s'"
proof -
  have enc: "encoded = varint_wire v" using assms(1,3) by (simp add: varint_encode_buffer_eq)
  then have "seq_bytes (seq_drop s (varint_size v)) = rest" using assms(2,4) by simp
  then show ?thesis using assms enc by (simp add: varint_decode_wire)
qed

theorem varint_round_trip_witness:
  "\<exists>s'. varint_decode (Buffers_seq [[0x7b], [0xbd, 7]]) = (Ok 15293, s') \<and>
     seq_bytes s' = [7] \<and> seq_ok s'"
proof (rule varint_round_trip)
  show "(15293 :: uint64) < 2 ^ 62" by simp
  show "seq_ok (Buffers_seq [[0x7b], [0xbd, 7]])" by simp
  show "varint_encode_buffer (\<lambda>_. 0xff) 15293 = Ok [0x7b, 0xbd]" by code_simp
  show "seq_bytes (Buffers_seq [[0x7b], [0xbd, 7]]) = [0x7b, 0xbd] @ [7]" by simp
qed

text \<open>
  The encoder fails exactly from \<open>2\<^sup>6\<^sup>2\<close> on, with \<open>varint_overflow\<close>, and otherwise uses the
  shortest of the four forms: no shorter length can hold the value.
\<close>

theorem varint_encode_minimal:
  "(case varint_encode_buffer junk v of
      Ok bs \<Rightarrow> v < 2 ^ 62 \<and> length bs \<in> {1, 2, 4, 8} \<and> v < 2 ^ (8 * length bs - 2) \<and>
        (length bs = 1 \<or> 2 ^ (8 * (length bs div 2) - 2) \<le> v) \<and>
        varint_encoded_size v = Ok (length bs)
    | Err e \<Rightarrow> e = Varint_overflow \<and> \<not> v < 2 ^ 62 \<and> varint_encoded_size v = Err e
    | Fault \<Rightarrow> False)"
  by (auto simp: varint_encode_buffer_eq varint_encoded_size_eq varint_size_def)

text \<open>
  Decoding never faults, and decides between a value and \<open>incomplete\<close>: on \<open>incomplete\<close> the
  container is untouched, on success it lost between one and eight bytes from its front and the
  value fits 62 bits.
\<close>

theorem varint_decode_safe:
  assumes "seq_ok s"
  shows "case varint_decode s of
      (Ok v, s') \<Rightarrow> v < 2 ^ 62 \<and> seq_ok s' \<and>
        (\<exists>n \<in> {1, 2, 4, 8}. n \<le> length (seq_bytes s) \<and> seq_bytes s' = drop n (seq_bytes s))
    | (Err e, s') \<Rightarrow> e = Incomplete \<and> s' = s
    | (Fault, _) \<Rightarrow> False"
  using assms
  by (auto simp: varint_decode_eq split: option.splits dest!: varint_parse_bounds)

theorem varint_decode_safe_witness:
  "case varint_decode (Buffer_lookahead [0, 0xc0, 1] 0 1) of
      (Ok v, s') \<Rightarrow> v < 2 ^ 62 \<and> seq_ok s' \<and>
        (\<exists>n \<in> {1, 2, 4, 8}. n \<le> length (seq_bytes (Buffer_lookahead [0, 0xc0, 1] 0 1)) \<and>
           seq_bytes s' = drop n (seq_bytes (Buffer_lookahead [0, 0xc0, 1] 0 1)))
    | (Err e, s') \<Rightarrow> e = Incomplete \<and> s' = Buffer_lookahead [0, 0xc0, 1] 0 1
    | (Fault, _) \<Rightarrow> False"
  by (rule varint_decode_safe) simp

text \<open>
  A varint that has not arrived completely is reported as \<open>incomplete\<close> and stays in the
  container: every strict prefix of an encoding, on every container.
\<close>

theorem varint_decode_truncated:
  assumes "v < 2 ^ 62" and "k < length (varint_wire v)" and "seq_ok s"
    and "seq_bytes s = take k (varint_wire v)"
  shows "varint_decode s = (Err Incomplete, s)"
  using assms varint.truncated [of v k] by (simp add: varint_decode_eq del: length_varint_wire)

theorem varint_decode_truncated_witness:
  "varint_decode (Buffers_seq [[0x9d], [0x7f, 0x3e]]) =
     (Err Incomplete, Buffers_seq [[0x9d], [0x7f, 0x3e]])"
proof (rule varint_decode_truncated)
  show "(494878333 :: uint64) < 2 ^ 62" by simp
  show "3 < length (varint_wire 494878333)" by code_simp
  show "seq_ok (Buffers_seq [[0x9d], [0x7f, 0x3e]])" by simp
  show "seq_bytes (Buffers_seq [[0x9d], [0x7f, 0x3e]]) = take 3 (varint_wire 494878333)"
    by code_simp
qed

end
