(* ===== verification/Frame.thy ===== *)
theory Frame
  imports Varint
begin

text \<open>
  HTTP/3 frames (\<open>bnl/http3/src/codec/frame\<close>) and the settings they carry
  (\<open>bnl/base/src/http3/settings.cpp\<close>): a frame is its type, the size of its payload and the
  payload. The payload of DATA, HEADERS and the header block of PUSH_PROMISE follow the frame and
  are not part of it.
\<close>

section \<open>settings.hpp and settings.cpp\<close>

definition setting_max_header_list_size :: uint64 where "setting_max_header_list_size = 0x6"
definition setting_num_placeholders :: uint64 where "setting_num_placeholders = 0x9"
definition setting_qpack_max_table_capacity :: uint64 where "setting_qpack_max_table_capacity = 0x1"
definition setting_qpack_blocked_streams :: uint64 where "setting_qpack_blocked_streams = 0x7"

lemmas setting_ids =
  setting_max_header_list_size_def setting_num_placeholders_def
  setting_qpack_max_table_capacity_def setting_qpack_blocked_streams_def

record settings =
  max_header_list_size :: uint64
  num_placeholders :: uint64
  qpack_max_table_capacity :: uint64
  qpack_blocked_streams :: uint64

definition default_settings :: settings where
  "default_settings =
     \<lparr>max_header_list_size = push_bit 56 0x40 - 1, num_placeholders = 0,
      qpack_max_table_capacity = 0, qpack_blocked_streams = 0\<rparr>"

definition settings_array :: "settings \<Rightarrow> (uint64 \<times> uint64) list" where
  "settings_array s =
     [(setting_max_header_list_size, max_header_list_size s),
      (setting_num_placeholders, num_placeholders s),
      (setting_qpack_max_table_capacity, qpack_max_table_capacity s),
      (setting_qpack_blocked_streams, qpack_blocked_streams s)]"

section \<open>frame.hpp\<close>

datatype frame_type =
    Data_type | Headers_type | Priority_type | Cancel_push_type | Settings_type
  | Push_promise_type | Goaway_type | Max_push_id_type | Duplicate_push_type

fun frame_type_value :: "frame_type \<Rightarrow> uint64" where
  "frame_type_value Data_type = 0x0"
| "frame_type_value Headers_type = 0x1"
| "frame_type_value Priority_type = 0x2"
| "frame_type_value Cancel_push_type = 0x3"
| "frame_type_value Settings_type = 0x4"
| "frame_type_value Push_promise_type = 0x5"
| "frame_type_value Goaway_type = 0x7"
| "frame_type_value Max_push_id_type = 0xd"
| "frame_type_value Duplicate_push_type = 0xe"

text \<open>\<open>static_cast<frame::type>\<close> followed by a \<open>switch\<close>: \<open>None\<close> is the \<open>default\<close> label.\<close>

definition frame_type_cast :: "uint64 \<Rightarrow> frame_type option" where
  "frame_type_cast t =
     (if t = 0x0 then Some Data_type
      else if t = 0x1 then Some Headers_type
      else if t = 0x2 then Some Priority_type
      else if t = 0x3 then Some Cancel_push_type
      else if t = 0x4 then Some Settings_type
      else if t = 0x5 then Some Push_promise_type
      else if t = 0x7 then Some Goaway_type
      else if t = 0xd then Some Max_push_id_type
      else if t = 0xe then Some Duplicate_push_type
      else None)"

text \<open>
  \<open>priority::type\<close> has the fixed underlying type \<open>uint8_t\<close> and two enumerators of value 3
  (\<open>current\<close> and \<open>root\<close>), so it is the byte itself.
\<close>

definition priority_request :: byte where "priority_request = 0"
definition priority_push :: byte where "priority_push = 1"
definition priority_placeholder :: byte where "priority_placeholder = 2"
definition priority_current :: byte where "priority_current = 3"
definition priority_root :: byte where "priority_root = 3"

record priority =
  prioritized_element_type :: byte
  element_dependency_type :: byte
  prioritized_element_id :: uint64
  element_dependency_id :: uint64
  weight :: byte

text \<open>The union and its tag \<open>type_\<close>; a push promise holds its push id and the header block size.\<close>

datatype frame =
    Data uint64
  | Headers uint64
  | Priority priority
  | Settings settings
  | Cancel_push uint64
  | Push_promise uint64 uint64
  | Goaway uint64
  | Max_push_id uint64
  | Duplicate_push uint64

fun type_of :: "frame \<Rightarrow> frame_type" where
  "type_of (Data _) = Data_type"
| "type_of (Headers _) = Headers_type"
| "type_of (Priority _) = Priority_type"
| "type_of (Settings _) = Settings_type"
| "type_of (Cancel_push _) = Cancel_push_type"
| "type_of (Push_promise _ _) = Push_promise_type"
| "type_of (Goaway _) = Goaway_type"
| "type_of (Max_push_id _) = Max_push_id_type"
| "type_of (Duplicate_push _) = Duplicate_push_type"

text \<open>\<open>operator==\<close>, and the name \<open>operator<<\<close> prints before the type's number.\<close>

fun frame_eq :: "frame \<Rightarrow> frame \<Rightarrow> bool" where
  "frame_eq (Data a) (Data b) \<longleftrightarrow> a = b"
| "frame_eq (Headers a) (Headers b) \<longleftrightarrow> a = b"
| "frame_eq (Priority a) (Priority b) \<longleftrightarrow>
     element_dependency_id a = element_dependency_id b \<and>
     element_dependency_type a = element_dependency_type b \<and>
     prioritized_element_id a = prioritized_element_id b \<and>
     prioritized_element_type a = prioritized_element_type b \<and>
     weight a = weight b"
| "frame_eq (Cancel_push a) (Cancel_push b) \<longleftrightarrow> a = b"
| "frame_eq (Settings a) (Settings b) \<longleftrightarrow> settings_array a = settings_array b"
| "frame_eq (Push_promise i m) (Push_promise j n) \<longleftrightarrow> i = j \<and> m = n"
| "frame_eq (Goaway a) (Goaway b) \<longleftrightarrow> a = b"
| "frame_eq (Max_push_id a) (Max_push_id b) \<longleftrightarrow> a = b"
| "frame_eq (Duplicate_push a) (Duplicate_push b) \<longleftrightarrow> a = b"
| "frame_eq _ _ \<longleftrightarrow> False"

fun frame_type_name :: "frame_type \<Rightarrow> string" where
  "frame_type_name Data_type = ''DATA''"
| "frame_type_name Headers_type = ''HEADERS''"
| "frame_type_name Priority_type = ''PRIORITY''"
| "frame_type_name Settings_type = ''SETTINGS''"
| "frame_type_name Cancel_push_type = ''CANCEL_PUSH''"
| "frame_type_name Push_promise_type = ''PUSH_PROMISE''"
| "frame_type_name Goaway_type = ''GOAWAY''"
| "frame_type_name Max_push_id_type = ''MAX_PUSH_ID''"
| "frame_type_name Duplicate_push_type = ''DUPLICATE_PUSH''"

section \<open>encode.cpp\<close>

text \<open>\<open>payload_size += BNL_TRY(varint::encoded_size(v))\<close>, in \<open>uint64_t\<close> arithmetic.\<close>

definition add_encoded_size :: "uint64 \<Rightarrow> uint64 \<Rightarrow> (uint64, error) result" where
  "add_encoded_size payload_size v =
     bnl_try (varint_encoded_size v) (\<lambda>n. Ok (payload_size + word_of_nat n))"

fun settings_payload_size :: "uint64 \<Rightarrow> (uint64 \<times> uint64) list \<Rightarrow> (uint64, error) result" where
  "settings_payload_size payload_size [] = Ok payload_size"
| "settings_payload_size payload_size ((ident, value) # settings) =
     (if ident = setting_num_placeholders \<and> value = 0
      then settings_payload_size payload_size settings
      else bnl_try (add_encoded_size payload_size ident) (\<lambda>payload_size.
           bnl_try (add_encoded_size payload_size value) (\<lambda>payload_size.
           settings_payload_size payload_size settings)))"

fun payload_size :: "frame \<Rightarrow> (uint64, error) result" where
  "payload_size (Data n) = Ok (0 + n)"
| "payload_size (Headers n) = Ok (0 + n)"
| "payload_size (Priority p) =
     bnl_try (add_encoded_size (0 + 1) (prioritized_element_id p)) (\<lambda>payload_size.
     bnl_try (add_encoded_size payload_size (element_dependency_id p)) (\<lambda>payload_size.
     Ok (payload_size + 1)))"
| "payload_size (Cancel_push push_id) = add_encoded_size 0 push_id"
| "payload_size (Settings s) = settings_payload_size 0 (settings_array s)"
| "payload_size (Push_promise push_id n) =
     bnl_try (add_encoded_size 0 push_id) (\<lambda>payload_size. Ok (payload_size + n))"
| "payload_size (Goaway stream_id) = add_encoded_size 0 stream_id"
| "payload_size (Max_push_id push_id) = add_encoded_size 0 push_id"
| "payload_size (Duplicate_push push_id) = add_encoded_size 0 push_id"

definition frame_encoded_size :: "frame \<Rightarrow> (nat, error) result" where
  "frame_encoded_size f =
     bnl_try (payload_size f) (\<lambda>payload_size.
     bnl_try (case f of
         Headers _ \<Rightarrow> Ok 0
       | Data _ \<Rightarrow> Ok 0
       | Push_promise push_id _ \<Rightarrow> varint_encoded_size push_id
       | _ \<Rightarrow> Ok (unat payload_size)) (\<lambda>payload_encoded_size.
     bnl_try (varint_encoded_size (frame_type_value (type_of f))) (\<lambda>type_size.
     bnl_try (varint_encoded_size payload_size) (\<lambda>size_size.
     Ok (type_size + size_size + payload_encoded_size)))))"

text \<open>\<open>dest += BNL_TRY(varint::encode(dest, v))\<close>.\<close>

definition put_varint :: "uint64 \<Rightarrow> cursor \<Rightarrow> (cursor, error) result" where
  "put_varint v c =
     (case c of (dest, mem) \<Rightarrow>
        bnl_try (varint_encode mem dest v) (\<lambda>(n, mem'). Ok (dest + n, mem')))"

definition priority_byte :: "priority \<Rightarrow> byte" where
  "priority_byte p =
     (let b = 0;
          b = b OR push_bit 6 (prioritized_element_type p);
          b = b OR push_bit 4 (element_dependency_type p)
      in b AND 0xf0)"

fun put_settings :: "(uint64 \<times> uint64) list \<Rightarrow> cursor \<Rightarrow> (cursor, error) result" where
  "put_settings [] c = Ok c"
| "put_settings ((ident, value) # settings) c =
     (if ident = setting_num_placeholders \<and> value = 0 then put_settings settings c
      else bnl_try (put_varint ident c) (\<lambda>c.
           bnl_try (put_varint value c) (\<lambda>c.
           put_settings settings c)))"

fun put_payload :: "frame \<Rightarrow> cursor \<Rightarrow> (cursor, error) result" where
  "put_payload (Data _) c = Ok c"
| "put_payload (Headers _) c = Ok c"
| "put_payload (Priority p) c =
     bnl_try (put_byte (priority_byte p) c) (\<lambda>c.
     bnl_try (put_varint (prioritized_element_id p) c) (\<lambda>c.
     bnl_try (put_varint (element_dependency_id p) c) (\<lambda>c.
     put_byte (weight p) c)))"
| "put_payload (Cancel_push push_id) c = put_varint push_id c"
| "put_payload (Settings s) c = put_settings (settings_array s) c"
| "put_payload (Push_promise push_id _) c = put_varint push_id c"
| "put_payload (Goaway stream_id) c = put_varint stream_id c"
| "put_payload (Max_push_id push_id) c = put_varint push_id c"
| "put_payload (Duplicate_push push_id) c = put_varint push_id c"

definition frame_encode :: "bytes \<Rightarrow> nat \<Rightarrow> frame \<Rightarrow> (nat \<times> bytes, error) result" where
  "frame_encode mem dest f =
     bnl_try (payload_size f) (\<lambda>payload_size.
     bnl_try (put_varint (frame_type_value (type_of f)) (dest, mem)) (\<lambda>c.
     bnl_try (put_varint payload_size c) (\<lambda>c.
     bnl_try (put_payload f c) (\<lambda>(dest', mem').
     Ok (dest' - dest, mem')))))"

definition frame_encode_buffer :: "(nat \<Rightarrow> byte) \<Rightarrow> frame \<Rightarrow> (bytes, error) result" where
  "frame_encode_buffer junk f =
     bnl_try (frame_encoded_size f) (\<lambda>encoded_size.
     bnl_try (frame_encode (fresh_memory junk encoded_size) 0 f) (\<lambda>(_, encoded).
     Ok encoded))"

section \<open>decode.cpp\<close>

text \<open>A varint read takes bytes, so the decoding loops end.\<close>

lemma varint_decode_shrinks:
  assumes "varint_decode s = (Ok v, s')"
  shows "seq_size s' < seq_size s"
proof (cases "seq_ok s")
  case True
  then obtain n where "s' = seq_drop s n" "n \<le> length (seq_bytes s)" "0 < n"
    using varint_decode_OkD [OF True assms] by auto
  with True show ?thesis by simp
next
  case False
  then have "seq_size (seq_lookahead s) = 0" by (cases s) auto
  with assms show ?thesis by (simp add: varint_decode_def seq_empty_def)
qed

function frame_peek_loop :: "sequence \<Rightarrow> (frame_type, error) result" where
  "frame_peek_loop lookahead =
     (case varint_decode lookahead of
        (Ok t, lookahead') \<Rightarrow>
          (case frame_type_cast t of
             Some ty \<Rightarrow> Ok ty
           | None \<Rightarrow> frame_peek_loop lookahead')
      | (Err e, _) \<Rightarrow> Err e
      | (Fault, _) \<Rightarrow> Fault)"
  by pat_completeness auto
termination
  by (relation "measure seq_size") (auto dest: varint_decode_shrinks [OF sym])

definition frame_peek :: "sequence \<Rightarrow> (frame_type, error) result" where
  "frame_peek encoded = frame_peek_loop (seq_lookahead encoded)"

definition frame_uint8_decode :: "sequence \<Rightarrow> (byte, error) result \<times> sequence" where
  "frame_uint8_decode lookahead =
     (if seq_empty lookahead then (Err Incomplete, lookahead)
      else try_in lookahead (or_fault (seq_at lookahead 0)) (\<lambda>result.
           try_in lookahead (or_fault (seq_consume lookahead 1)) (\<lambda>lookahead'.
           (Ok result, lookahead'))))"

definition set_setting :: "uint64 \<Rightarrow> uint64 \<Rightarrow> settings \<Rightarrow> settings" where
  "set_setting ident value s =
     (if ident = setting_max_header_list_size then s\<lparr>max_header_list_size := value\<rparr>
      else if ident = setting_num_placeholders then s\<lparr>num_placeholders := value\<rparr>
      else if ident = setting_qpack_max_table_capacity then s\<lparr>qpack_max_table_capacity := value\<rparr>
      else if ident = setting_qpack_blocked_streams then s\<lparr>qpack_blocked_streams := value\<rparr>
      else s)"

function settings_decode ::
  "uint64 \<Rightarrow> nat \<Rightarrow> settings \<Rightarrow> sequence \<Rightarrow> (settings, error) result \<times> sequence" where
  "settings_decode payload_encoded_size settings_encoded_size s lookahead =
     (if settings_encoded_size < unat payload_encoded_size then
        (let before = seq_consumed lookahead in
         try_state (varint_decode lookahead) (\<lambda>ident lookahead.
         try_state (varint_decode lookahead) (\<lambda>value lookahead.
         settings_decode payload_encoded_size
           (settings_encoded_size + (seq_consumed lookahead - before))
           (set_setting ident value s) lookahead)))
      else (Ok s, lookahead))"
  by pat_completeness auto
termination
  by (relation "measure (\<lambda>(_, _, _, l). seq_size l)")
     (auto dest!: varint_decode_shrinks)

text \<open>
  The lambda \<open>payload_decode\<close>; it also assigns the captured \<open>payload_encoded_size\<close>, whose last
  value is returned beside the frame.
\<close>

definition payload_decode ::
  "uint64 \<Rightarrow> uint64 \<Rightarrow> sequence \<Rightarrow> (frame \<times> uint64, error) result \<times> sequence" where
  "payload_decode type payload_encoded_size lookahead =
     (case frame_type_cast type of
        Some Data_type \<Rightarrow> (Ok (Data payload_encoded_size, 0), lookahead)
      | Some Headers_type \<Rightarrow> (Ok (Headers payload_encoded_size, 0), lookahead)
      | Some Priority_type \<Rightarrow>
          try_state (frame_uint8_decode lookahead) (\<lambda>b lookahead.
          try_state (varint_decode lookahead) (\<lambda>prioritized lookahead.
          try_state (varint_decode lookahead) (\<lambda>dependency lookahead.
          try_state (frame_uint8_decode lookahead) (\<lambda>w lookahead.
          (Ok (Priority
             \<lparr>prioritized_element_type = drop_bit 6 b,
              element_dependency_type = drop_bit 4 b AND 0x03,
              prioritized_element_id = prioritized,
              element_dependency_id = dependency,
              weight = w\<rparr>, payload_encoded_size), lookahead)))))
      | Some Cancel_push_type \<Rightarrow>
          try_state (varint_decode lookahead) (\<lambda>push_id lookahead.
          (Ok (Cancel_push push_id, payload_encoded_size), lookahead))
      | Some Settings_type \<Rightarrow>
          try_state (settings_decode payload_encoded_size 0 default_settings lookahead)
            (\<lambda>s lookahead. (Ok (Settings s, payload_encoded_size), lookahead))
      | Some Push_promise_type \<Rightarrow>
          (let before = seq_consumed lookahead in
           try_state (varint_decode lookahead) (\<lambda>push_id lookahead.
           let varint_encoded_size = seq_consumed lookahead - before in
           if unat payload_encoded_size < varint_encoded_size
           then (Ok (Push_promise push_id 0, payload_encoded_size), lookahead)
           else (Ok (Push_promise push_id
                       (payload_encoded_size - word_of_nat varint_encoded_size),
                     word_of_nat varint_encoded_size), lookahead)))
      | Some Goaway_type \<Rightarrow>
          try_state (varint_decode lookahead) (\<lambda>stream_id lookahead.
          (Ok (Goaway stream_id, payload_encoded_size), lookahead))
      | Some Max_push_id_type \<Rightarrow>
          try_state (varint_decode lookahead) (\<lambda>push_id lookahead.
          (Ok (Max_push_id push_id, payload_encoded_size), lookahead))
      | Some Duplicate_push_type \<Rightarrow>
          try_state (varint_decode lookahead) (\<lambda>push_id lookahead.
          (Ok (Duplicate_push push_id, payload_encoded_size), lookahead))
      | None \<Rightarrow>
          (if seq_size lookahead < unat payload_encoded_size then (Err Incomplete, lookahead)
           else try_in lookahead (or_fault (seq_consume lookahead (unat payload_encoded_size)))
             (\<lambda>lookahead'. (Err Delegate, lookahead'))))"

text \<open>The rest of \<open>decode_single\<close>: the call of the lambda and the check of the advertised size.\<close>

definition checked_payload ::
  "uint64 \<Rightarrow> uint64 \<Rightarrow> sequence \<Rightarrow> (frame, error) result \<times> sequence" where
  "checked_payload type payload_encoded_size lookahead =
     (let before = seq_consumed lookahead in
      try_state (payload_decode type payload_encoded_size lookahead)
        (\<lambda>(f, payload_encoded_size) lookahead.
         let actual_encoded_size = seq_consumed lookahead - before in
         if actual_encoded_size \<noteq> unat payload_encoded_size then (Err Malformed_frame, lookahead)
         else (Ok f, lookahead)))"

definition decode_single :: "sequence \<Rightarrow> (frame, error) result \<times> sequence" where
  "decode_single lookahead =
     try_state (varint_decode lookahead) (\<lambda>type lookahead.
     try_state (varint_decode lookahead) (\<lambda>payload_encoded_size lookahead.
     checked_payload type payload_encoded_size lookahead))"

text \<open>The decoders of single frames are streaming; this also makes the outer loop end.\<close>

lemma streaming_frame_uint8: "streaming frame_uint8_decode"
  unfolding streaming_def
proof (intro allI impI)
  fix s t more
  assume ok: "lookahead_ok s" "lookahead_ok t" and st: "seq_bytes t = seq_bytes s @ more"
  show "\<exists>r n. frame_uint8_decode s = (r, seq_drop s n) \<and> n \<le> length (seq_bytes s) \<and> r \<noteq> Fault \<and>
      (r = Err Incomplete \<or> frame_uint8_decode t = (r, seq_drop t n))"
  proof (cases "seq_bytes s")
    case Nil
    then show ?thesis using ok
      by (intro exI [of _ "Err Incomplete"] exI [of _ 0]) (simp add: frame_uint8_decode_def)
  next
    case (Cons b bs)
    then show ?thesis using ok st
      by (intro exI [of _ "Ok b"] exI [of _ 1])
        (simp add: frame_uint8_decode_def seq.at_eq seq_consume_eq)
  qed
qed

declare settings_decode.simps [simp del] frame_peek_loop.simps [simp del]

lemma streaming_settings: "streaming (settings_decode psize n s)"
proof -
  have "\<exists>r m. settings_decode psize n s l = (r, seq_drop l m) \<and> m \<le> length (seq_bytes l) \<and>
      r \<noteq> Fault \<and> (r = Err Incomplete \<or> settings_decode psize n s t = (r, seq_drop t m))"
    if "lookahead_ok l" "lookahead_ok t" "seq_bytes t = seq_bytes l @ more" for l t more
    using that
  proof (induction "length (seq_bytes l)" arbitrary: n s l t rule: less_induct)
    case less
    show ?case
    proof (cases "n < unat psize")
      case False
      then show ?thesis using less.prems
        by (intro exI [of _ "Ok s"] exI [of _ 0]) (simp add: settings_decode.simps)
    next
      case True
      let ?rec = "\<lambda>s' n' l'. settings_decode psize (n + n') s' l'"
      let ?two = "\<lambda>l. try_state (varint_decode l) (\<lambda>ident l.
        try_state (varint_decode l) (\<lambda>value l. (Ok (ident, value), l)))"
      have unfold: "settings_decode psize n s l = try_state (?two l) (\<lambda>(ident, value) l'.
          settings_decode psize (n + (seq_consumed l' - seq_consumed l)) (set_setting ident value s) l')"
        for l
        using True by (subst settings_decode.simps)
          (simp add: try_state_def Let_def split: prod.splits result.splits)
      have two: "streaming ?two"
        by (intro streaming_try streaming_varint streaming_return) simp
      obtain r k where r: "?two l = (r, seq_drop l k)" "k \<le> length (seq_bytes l)" "r \<noteq> Fault"
        "r = Err Incomplete \<or> ?two t = (r, seq_drop t k)"
        by (rule streamingE [OF two less.prems])
      show ?thesis
      proof (cases r)
        case (Err e)
        have "settings_decode psize n s l = (Err e, seq_drop l k)" using r(1) Err unfold by simp
        moreover have "e = Incomplete \<or> settings_decode psize n s t = (Err e, seq_drop t k)"
          using r(4) Err unfold by auto
        ultimately show ?thesis using r(2) by (intro exI [of _ "Err e"] exI [of _ k]) simp
      next
        case (Ok iv)
        obtain i v where iv: "iv = (i, v)" by (cases iv)
        have tk: "?two t = (Ok iv, seq_drop t k)" using r(4) Ok by simp
        have kt: "k \<le> length (seq_bytes t)" using less.prems(3) r(2) by simp
        have "seq_size (seq_drop l k) < seq_size l"
        proof -
          obtain l1 a where "varint_decode l = (Ok a, l1)" "varint_decode l1 = (Ok v, seq_drop l k)"
            using r(1) Ok iv by (auto simp: try_state_def split: prod.splits result.splits)
          then show ?thesis by (meson varint_decode_shrinks less_trans)
        qed
        then have smaller: "length (seq_bytes (seq_drop l k)) < length (seq_bytes l)"
          using less.prems(1) by simp
        have app: "seq_bytes (seq_drop t k) = seq_bytes (seq_drop l k) @ more"
          using less.prems r(2) kt by simp
        obtain r' m where r': "?rec (set_setting i v s) k (seq_drop l k) = (r', seq_drop (seq_drop l k) m)"
          "m \<le> length (seq_bytes (seq_drop l k))" "r' \<noteq> Fault"
          "r' = Err Incomplete \<or>
           ?rec (set_setting i v s) k (seq_drop t k) = (r', seq_drop (seq_drop t k) m)"
          using less.hyps [OF smaller _ _ app] less.prems by fastforce
        have m: "k + m \<le> length (seq_bytes l)" "k + m \<le> length (seq_bytes t)"
          using r'(2) r(2) less.prems by simp_all
        have "settings_decode psize n s l = (r', seq_drop l (k + m))"
          using r(1,2) r'(1) m less.prems Ok iv unfold by simp
        moreover have "r' = Err Incomplete \<or> settings_decode psize n s t = (r', seq_drop t (k + m))"
          using tk kt r'(4) m less.prems iv unfold by auto
        ultimately show ?thesis using m r'(3) by blast
      qed (use r in simp)
    qed
  qed
  then show ?thesis unfolding streaming_def by blast
qed

lemma streaming_skip:
  "streaming (\<lambda>l. if seq_size l < n then (Err Incomplete, l)
     else try_in l (or_fault (seq_consume l n)) (\<lambda>l'. (Err Delegate, l')))" (is "streaming ?D")
  unfolding streaming_def
proof (intro allI impI)
  fix s t more
  assume ok: "lookahead_ok s" "lookahead_ok t" and st: "seq_bytes t = seq_bytes s @ more"
  show "\<exists>r m. ?D s = (r, seq_drop s m) \<and> m \<le> length (seq_bytes s) \<and> r \<noteq> Fault \<and>
      (r = Err Incomplete \<or> ?D t = (r, seq_drop t m))"
  proof (cases "length (seq_bytes s) < n")
    case True
    then show ?thesis using ok by (intro exI [of _ "Err Incomplete"] exI [of _ 0]) simp
  next
    case False
    then show ?thesis using ok st
      by (intro exI [of _ "Err Delegate"] exI [of _ n]) (simp add: seq_consume_eq)
  qed
qed

lemmas streaming_intros = streaming_varint streaming_frame_uint8 streaming_settings streaming_skip

lemma streaming_payload: "streaming (payload_decode ty n)"
proof (cases "frame_type_cast ty")
  case None
  then have "payload_decode ty n = (\<lambda>l. if seq_size l < unat n then (Err Incomplete, l)
     else try_in l (or_fault (seq_consume l (unat n))) (\<lambda>l'. (Err Delegate, l')))"
    by (simp add: payload_decode_def fun_eq_iff)
  then show ?thesis by (simp only: streaming_skip)
next
  case (Some ft)
  note [simp] = payload_decode_def [abs_def] Some
  have one: "streaming (\<lambda>l. try_state (varint_decode l) (\<lambda>v l. (Ok (f v, n), l)))"
    for f :: "uint64 \<Rightarrow> frame"
    by (intro streaming_try streaming_intros streaming_return) simp
  show ?thesis
  proof (cases ft)
    case Priority_type
    then show ?thesis
      by simp (intro streaming_try streaming_intros streaming_return, simp)
  next
    case Settings_type
    then show ?thesis
      by simp (intro streaming_try streaming_intros streaming_return, simp)
  next
    case Push_promise_type
    let ?K = "\<lambda>push_id m. \<lambda>l. (if unat n < m then Ok (Push_promise push_id 0, n)
      else Ok (Push_promise push_id (n - word_of_nat m), word_of_nat m), l)"
    have "streaming (\<lambda>l. try_state (varint_decode l) (\<lambda>v l'. ?K v (seq_consumed l' - seq_consumed l) l'))"
      by (rule streaming_try_count [OF streaming_varint]) (rule streaming_return, simp)
    moreover have "payload_decode ty n =
        (\<lambda>l. try_state (varint_decode l) (\<lambda>v l'. ?K v (seq_consumed l' - seq_consumed l) l'))"
      using Push_promise_type by (auto simp: fun_eq_iff Let_def try_state_def split: prod.splits result.splits)
    ultimately show ?thesis by (simp only:)
  qed (simp_all add: one streaming_return)
qed

definition size_check :: "frame \<times> uint64 \<Rightarrow> nat \<Rightarrow> (frame, error) result" where
  "size_check fn n = (if n \<noteq> unat (snd fn) then Err Malformed_frame else Ok (fst fn))"

lemma checked_payload_alt:
  "checked_payload ty n = (\<lambda>l. try_state (payload_decode ty n l)
     (\<lambda>fn l'. (\<lambda>l'. (size_check fn (seq_consumed l' - seq_consumed l), l')) l'))"
  by (intro ext)
    (simp add: checked_payload_def try_state_def size_check_def Let_def split: prod.splits result.splits)

lemma streaming_checked_payload: "streaming (checked_payload ty n)"
proof -
  have "streaming (\<lambda>l. try_state (payload_decode ty n l)
      (\<lambda>fn l'. (\<lambda>m l. (size_check fn m, l)) (seq_consumed l' - seq_consumed l) l'))"
    by (rule streaming_try_count [OF streaming_payload])
      (rule streaming_return, simp add: size_check_def)
  then show ?thesis by (simp add: checked_payload_alt)
qed

lemma streaming_after_type:
  "streaming (\<lambda>l. try_state (varint_decode l) (\<lambda>n l. checked_payload ty n l))"
  by (intro streaming_try streaming_varint streaming_checked_payload)

lemma streaming_decode_single: "streaming decode_single"
  unfolding decode_single_def [abs_def] by (intro streaming_try streaming_varint streaming_after_type)

text \<open>Every verdict other than \<open>incomplete\<close> is reached after the two varints of the header.\<close>

lemma decode_single_progress:
  assumes l: "lookahead_ok l" and d: "decode_single l = (r, l')" "r \<noteq> Err Incomplete"
  obtains n where "l' = seq_drop l n" "0 < n" "n \<le> length (seq_bytes l)"
proof -
  obtain ty m where ty: "varint_decode l = (Ok ty, seq_drop l m)" "0 < m" "m \<le> length (seq_bytes l)"
    using d varint_decode_eq [of l] l varint_parse_bounds [of "seq_bytes l"]
    by (fastforce simp: decode_single_def split: option.splits)
  let ?rest = "\<lambda>l. try_state (varint_decode l) (\<lambda>n l. checked_payload ty n l)"
  have la: "lookahead_ok (seq_drop l m)" using l by simp
  obtain r' k where k: "?rest (seq_drop l m) = (r', seq_drop (seq_drop l m) k)"
      "k \<le> length (seq_bytes (seq_drop l m))"
    by (rule streaming_run [OF streaming_after_type la])
  have "decode_single l = ?rest (seq_drop l m)" using ty by (simp add: decode_single_def)
  then have "l' = seq_drop (seq_drop l m) k" using k d by simp
  then have "l' = seq_drop l (m + k)" using k(2) ty l by simp
  then show thesis using that [of "m + k"] ty k(2) l by simp
qed

lemma delegate_shrinks:
  assumes d: "decode_single (seq_lookahead s) = (Err Delegate, l)"
    and c: "seq_consume s (seq_consumed l) = Some s'"
  shows "seq_size s' < seq_size s"
proof (cases "seq_ok s")
  case True
  then have la: "lookahead_ok (seq_lookahead s)" by simp
  obtain n where n: "l = seq_drop (seq_lookahead s) n" "0 < n" "n \<le> length (seq_bytes s)"
    using decode_single_progress [OF la d] by auto
  then have "seq_consumed l = n" using True by simp
  then show ?thesis using c n True by (auto simp: seq_consume_eq)
next
  case False
  then have "seq_empty (seq_lookahead (seq_lookahead s))" by (cases s) (auto simp: seq_empty_def)
  with d show ?thesis by (simp add: decode_single_def varint_decode_def)
qed

text \<open>
  \<open>frame::decode\<close>: unknown frames are consumed from the container one by one; a frame whose
  decoding fails leaves it as it is.
\<close>

function frame_decode :: "sequence \<Rightarrow> (frame, error) result \<times> sequence" where
  "frame_decode encoded =
     (case decode_single (seq_lookahead encoded) of
        (Fault, _) \<Rightarrow> (Fault, encoded)
      | (Err e, lookahead) \<Rightarrow>
          (if e \<noteq> Delegate then (Err e, encoded)
           else (case seq_consume encoded (seq_consumed lookahead) of
               None \<Rightarrow> (Fault, encoded)
             | Some encoded' \<Rightarrow> frame_decode encoded'))
      | (Ok f, lookahead) \<Rightarrow>
          (case seq_consume encoded (seq_consumed lookahead) of
             None \<Rightarrow> (Fault, encoded)
           | Some encoded' \<Rightarrow> (Ok f, encoded')))"
  by pat_completeness auto
termination
  by (relation "measure seq_size") (auto dest: delegate_shrinks [OF sym])

declare frame_decode.simps [simp del]

section \<open>The wire format\<close>

text \<open>
  The varints of the payload in their order, the bytes of the payload, its advertised size (in the
  source's \<open>uint64_t\<close> arithmetic), and the frame on the wire.
\<close>

fun settings_fields :: "(uint64 \<times> uint64) list \<Rightarrow> uint64 list" where
  "settings_fields [] = []"
| "settings_fields ((ident, value) # settings) =
     (if ident = setting_num_placeholders \<and> value = 0 then settings_fields settings
      else ident # value # settings_fields settings)"

fun frame_varints :: "frame \<Rightarrow> uint64 list" where
  "frame_varints (Data _) = []"
| "frame_varints (Headers _) = []"
| "frame_varints (Priority p) = [prioritized_element_id p, element_dependency_id p]"
| "frame_varints (Settings s) = settings_fields (settings_array s)"
| "frame_varints (Cancel_push v) = [v]"
| "frame_varints (Push_promise v _) = [v]"
| "frame_varints (Goaway v) = [v]"
| "frame_varints (Max_push_id v) = [v]"
| "frame_varints (Duplicate_push v) = [v]"

definition varints_wire :: "uint64 list \<Rightarrow> bytes" where
  "varints_wire vs = concat (map varint_wire vs)"

fun payload_wire :: "frame \<Rightarrow> bytes" where
  "payload_wire (Priority p) =
     [priority_byte p] @ varint_wire (prioritized_element_id p) @
     varint_wire (element_dependency_id p) @ [weight p]"
| "payload_wire f = varints_wire (frame_varints f)"

fun advertised_size :: "frame \<Rightarrow> uint64" where
  "advertised_size (Data n) = n"
| "advertised_size (Headers n) = n"
| "advertised_size (Push_promise v n) = word_of_nat (varint_size v) + n"
| "advertised_size f = word_of_nat (length (payload_wire f))"

definition frame_wire :: "frame \<Rightarrow> bytes" where
  "frame_wire f =
     varint_wire (frame_type_value (type_of f)) @ varint_wire (advertised_size f) @ payload_wire f"

definition frame_fits :: "frame \<Rightarrow> bool" where
  "frame_fits f \<longleftrightarrow> (\<forall>v \<in> set (frame_varints f). v < 2 ^ 62) \<and> advertised_size f < 2 ^ 62"

lemma frame_type_value_fits [simp]: "frame_type_value t < 4611686018427387904"
  by (cases t) simp_all

lemma frame_type_cast_value [simp]: "frame_type_cast (frame_type_value t) = Some t"
  by (cases t) (simp_all add: frame_type_cast_def)

lemma frame_type_cast_Some: "frame_type_cast v = Some t \<Longrightarrow> v = frame_type_value t"
  by (auto simp: frame_type_cast_def split: if_splits)

lemma varints_wire_simps [simp]:
  "varints_wire [] = []" "varints_wire (v # vs) = varint_wire v @ varints_wire vs"
  "varints_wire (vs @ ws) = varints_wire vs @ varints_wire ws"
  by (simp_all add: varints_wire_def)

section \<open>Encoding\<close>

lemma add_encoded_size_eq:
  "add_encoded_size n v =
     (if v < 2 ^ 62 then Ok (n + word_of_nat (varint_size v)) else Err Varint_overflow)"
  by (simp add: add_encoded_size_def varint_encoded_size_eq)

lemma settings_payload_size_eq:
  "settings_payload_size n ps =
     (if \<forall>v \<in> set (settings_fields ps). v < 2 ^ 62
      then Ok (n + word_of_nat (length (varints_wire (settings_fields ps))))
      else Err Varint_overflow)"
proof (induction ps arbitrary: n)
  case (Cons p ps)
  obtain i v where p: "p = (i, v)" by (cases p)
  show ?case
  proof (cases "i = setting_num_placeholders \<and> v = 0")
    case False
    then have "settings_fields (p # ps) = i # v # settings_fields ps" using p by auto
    moreover have "settings_payload_size n (p # ps) = bnl_try (add_encoded_size n i)
        (\<lambda>m. bnl_try (add_encoded_size m v) (\<lambda>m. settings_payload_size m ps))"
      using p False by auto
    ultimately show ?thesis by (simp add: add_encoded_size_eq Cons.IH add.assoc)
  qed (simp add: p Cons.IH)
qed simp

lemma payload_size_eq:
  "payload_size f =
     (if \<forall>v \<in> set (frame_varints f). v < 2 ^ 62 then Ok (advertised_size f) else Err Varint_overflow)"
proof (cases f)
  case (Settings s)
  then show ?thesis
    by (simp add: settings_payload_size_eq)
qed (simp_all add: add_encoded_size_eq algebra_simps)

lemma length_settings_fields: "length (settings_fields ps) \<le> 2 * length ps"
  by (induction ps rule: settings_fields.induct) auto

lemma length_varints_wire: "length (varints_wire vs) \<le> 8 * length vs"
proof (induction vs)
  case (Cons v vs)
  then show ?case using varint_size_le [of v] by simp
qed simp

lemma length_payload_wire: "length (payload_wire f) \<le> 64"
proof (cases f)
  case (Settings s)
  have "length (frame_varints f) \<le> 8"
    using length_settings_fields [of "settings_array s"] Settings by (simp add: settings_array_def)
  then show ?thesis using length_varints_wire [of "frame_varints f"] Settings by simp
qed (use varint_size_le in \<open>auto intro: order_trans [OF varint_size_le] order_trans [OF add_mono]\<close>)

lemma frame_encoded_size_eq:
  "frame_encoded_size f = (if frame_fits f then Ok (length (frame_wire f)) else Err Varint_overflow)"
proof (cases "frame_fits f")
  case True
  have "unat (word_of_nat (length (payload_wire f)) :: uint64) = length (payload_wire f)"
    using length_payload_wire [of f] by (simp add: unat_of_nat)
  with True show ?thesis
    by (cases f) (simp_all add: frame_encoded_size_def payload_size_eq frame_fits_def
        varint_encoded_size_eq frame_wire_def del: payload_wire.simps(1))
next
  case False
  then show ?thesis
    by (cases f) (auto simp: frame_encoded_size_def payload_size_eq frame_fits_def
        varint_encoded_size_eq)
qed

lemma writes_put_varint: "v < 2 ^ 62 \<Longrightarrow> writes (put_varint v) (varint_wire v)"
  by (simp add: writes_def put_varint_def varint_encode_at)

lemma writes_put_settings:
  "\<forall>v \<in> set (settings_fields ps). v < 2 ^ 62 \<Longrightarrow>
   writes (put_settings ps) (varints_wire (settings_fields ps))"
proof (induction ps)
  case Nil
  then show ?case by (simp add: writes_def)
next
  case (Cons p ps)
  obtain i v where p: "p = (i, v)" by (cases p)
  show ?case
  proof (cases "i = setting_num_placeholders \<and> v = 0")
    case True
    then have "put_settings (p # ps) = put_settings ps" using p by (simp add: fun_eq_iff)
    then show ?thesis using True p Cons by simp
  next
    case False
    then have eq: "put_settings (p # ps) =
        (\<lambda>c. bnl_try (put_varint i c) (\<lambda>c. bnl_try (put_varint v c) (put_settings ps)))"
      using p by (auto simp: fun_eq_iff)
    have "writes (\<lambda>c. bnl_try (put_varint i c) (\<lambda>c. bnl_try (put_varint v c) (put_settings ps)))
        (varint_wire i @ varint_wire v @ varints_wire (settings_fields ps))"
      by (intro writes_try writes_put_varint Cons.IH) (use Cons.prems p False in auto)
    moreover have "varints_wire (settings_fields (p # ps)) =
        varint_wire i @ varint_wire v @ varints_wire (settings_fields ps)"
      using p False by (simp del: append_assoc) 
    ultimately show ?thesis by (simp only: eq)
  qed
qed

lemma put_payload_single:
  "frame_varints f = [v] \<Longrightarrow> (\<forall>s. f \<noteq> Settings s) \<Longrightarrow>
   put_payload f = put_varint v \<and> payload_wire f = varint_wire v"
  by (cases f) (auto simp: fun_eq_iff)

lemma writes_put_payload:
  assumes fits: "\<forall>v \<in> set (frame_varints f). v < 2 ^ 62"
  shows "writes (put_payload f) (payload_wire f)"
proof -
  consider p where "f = Priority p" | s where "f = Settings s" | n where "f = Data n \<or> f = Headers n"
    | v where "frame_varints f = [v]" "\<forall>s. f \<noteq> Settings s"
    by (cases f) auto
  then show ?thesis
  proof cases
    case (1 p)
    have eq: "put_payload (Priority p) = (\<lambda>c. bnl_try (put_byte (priority_byte p) c)
        (\<lambda>c. bnl_try (put_varint (prioritized_element_id p) c)
        (\<lambda>c. bnl_try (put_varint (element_dependency_id p) c) (put_byte (weight p)))))"
      by (simp add: fun_eq_iff)
    show ?thesis unfolding 1 eq payload_wire.simps
      by (intro writes_try writes_put_byte writes_put_varint) (use fits 1 in simp_all)
  next
    case (2 s)
    have "put_payload (Settings s) = put_settings (settings_array s)" by (simp add: fun_eq_iff)
    moreover have "writes (put_settings (settings_array s))
        (varints_wire (settings_fields (settings_array s)))"
      by (rule writes_put_settings) (use fits 2 in simp)
    ultimately show ?thesis using 2 by simp
  next
    case (3 n)
    then show ?thesis by (auto simp: writes_def)
  next
    case (4 v)
    then show ?thesis using put_payload_single [OF 4] fits writes_put_varint [of v] by simp
  qed
qed

lemma writes_frame:
  assumes "frame_fits f"
  shows "writes (\<lambda>c. bnl_try (put_varint (frame_type_value (type_of f)) c) (\<lambda>c.
     bnl_try (put_varint (advertised_size f) c) (put_payload f))) (frame_wire f)"
  unfolding frame_wire_def
  by (intro writes_try writes_put_varint writes_put_payload)
    (use assms in \<open>simp_all add: frame_fits_def\<close>)

lemma frame_encode_eq:
  assumes "dest = length pre" "length (frame_wire f) \<le> length post"
  shows "frame_encode (pre @ post) dest f =
    (if frame_fits f
     then Ok (length (frame_wire f), pre @ frame_wire f @ drop (length (frame_wire f)) post)
     else Err Varint_overflow)"
proof (cases "frame_fits f")
  case True
  have "frame_encode (pre @ post) dest f =
      bnl_try (bnl_try (put_varint (frame_type_value (type_of f)) (dest, pre @ post))
        (\<lambda>c. bnl_try (put_varint (advertised_size f) c) (put_payload f)))
        (\<lambda>(dest', mem'). Ok (dest' - dest, mem'))"
    using True by (simp add: frame_encode_def payload_size_eq frame_fits_def bnl_try_assoc)
  also have "\<dots> = Ok (length (frame_wire f), pre @ frame_wire f @ drop (length (frame_wire f)) post)"
    using writesD [OF writes_frame [OF True] assms] by simp
  finally show ?thesis using True by simp
next
  case False
  consider "\<not> (\<forall>v \<in> set (frame_varints f). v < 2 ^ 62)"
    | "\<forall>v \<in> set (frame_varints f). v < 2 ^ 62" "\<not> advertised_size f < 2 ^ 62"
    using False by (auto simp: frame_fits_def)
  then show ?thesis
  proof cases
    case 1
    then show ?thesis using False by (auto simp: frame_encode_def payload_size_eq)
  next
    case 2
    let ?t = "frame_type_value (type_of f)"
    have "varint_size ?t \<le> length post" using assms(2) by (simp add: frame_wire_def)
    then have "put_varint ?t (dest, pre @ post) =
        Ok (dest + varint_size ?t, pre @ varint_wire ?t @ drop (varint_size ?t) post)"
      using writesD [OF writes_put_varint, of ?t dest pre post] assms(1) by simp
    with 2 False show ?thesis
      by (simp add: frame_encode_def payload_size_eq put_varint_def varint_encode_eq)
  qed
qed

lemma frame_encode_buffer_eq:
  "frame_encode_buffer junk f = (if frame_fits f then Ok (frame_wire f) else Err Varint_overflow)"
  using frame_encode_eq [of 0 "[]" f "fresh_memory junk (length (frame_wire f))"]
  by (simp add: frame_encode_buffer_def frame_encoded_size_eq)

section \<open>Decoding an encoded frame\<close>

text \<open>
  A frame that survives the trip: the two priority element types fit their two bits, and the size
  advertised for a push promise did not wrap around.
\<close>

definition encodable_frame :: "frame \<Rightarrow> bool" where
  "encodable_frame f \<longleftrightarrow> frame_fits f \<and>
     (case f of
        Priority p \<Rightarrow> prioritized_element_type p < 4 \<and> element_dependency_type p < 4
      | Push_promise v n \<Rightarrow> varint_size v + unat n < 2 ^ 62
      | _ \<Rightarrow> True)"

lemma reads_uint8: "reads frame_uint8_decode [b] b"
  unfolding reads_def
  by (intro allI impI) (simp add: frame_uint8_decode_def seq.at_eq seq_consume_eq)

fun read_settings :: "(uint64 \<times> uint64) list \<Rightarrow> settings \<Rightarrow> settings" where
  "read_settings [] s = s"
| "read_settings ((ident, value) # ps) s =
     (if ident = setting_num_placeholders \<and> value = 0 then read_settings ps s
      else read_settings ps (set_setting ident value s))"

lemma read_settings_array: "read_settings (settings_array s) default_settings = s"
  by (cases s) (simp add: settings_array_def default_settings_def set_setting_def setting_ids)

lemma reads_settings:
  "\<forall>v \<in> set (settings_fields ps). v < 2 ^ 62 \<Longrightarrow>
   n + length (varints_wire (settings_fields ps)) = unat psize \<Longrightarrow>
   reads (settings_decode psize n s) (varints_wire (settings_fields ps)) (read_settings ps s)"
proof (induction ps arbitrary: n s)
  case Nil
  then have "settings_decode psize n s = (\<lambda>l. (Ok s, l))"
    by (auto simp: fun_eq_iff settings_decode.simps)
  then show ?case by (simp add: reads_return)
next
  case (Cons p ps)
  obtain i v where p: "p = (i, v)" by (cases p)
  show ?case
  proof (cases "i = setting_num_placeholders \<and> v = 0")
    case True
    with Cons p show ?thesis by simp
  next
    case False
    let ?b = "varints_wire (settings_fields ps)"
    have fields: "settings_fields (p # ps) = i # v # settings_fields ps" using p False by auto
    have fits: "i < 2 ^ 62" "v < 2 ^ 62" "\<forall>v \<in> set (settings_fields ps). v < 2 ^ 62"
      using Cons.prems(1) fields by simp_all
    let ?two = "\<lambda>l. try_state (varint_decode l) (\<lambda>i l. try_state (varint_decode l) (\<lambda>v l. (Ok (i, v), l)))"
    have "n + (varint_size i + (varint_size v + length ?b)) = unat psize"
      using Cons.prems(2) fields by simp
    then have more: "n < unat psize" using varint_size_pos(1) [of i] by linarith
    have two: "reads ?two (varint_wire i @ varint_wire v @ []) (i, v)"
      by (rule reads_try [OF reads_varint [OF fits(1)]], rule reads_try [OF reads_varint [OF fits(2)]],
          rule reads_return)
    have rest: "reads (settings_decode psize (n + length (varint_wire i @ varint_wire v @ []))
        (set_setting (fst (i, v)) (snd (i, v)) s)) ?b (read_settings ps (set_setting i v s))"
      unfolding fst_conv snd_conv
      by (rule Cons.IH) (use fits Cons.prems fields in \<open>simp_all add: add.assoc\<close>)
    have "reads (\<lambda>l. try_state (?two l) (\<lambda>iv l'.
        (\<lambda>iv m. settings_decode psize (n + m) (set_setting (fst iv) (snd iv) s)) iv
          (seq_consumed l' - seq_consumed l) l'))
        ((varint_wire i @ varint_wire v @ []) @ ?b) (read_settings ps (set_setting i v s))"
      by (rule reads_try_count [OF two]) (rule rest)
    moreover have "settings_decode psize n s = (\<lambda>l. try_state (?two l) (\<lambda>iv l'.
        (\<lambda>iv m. settings_decode psize (n + m) (set_setting (fst iv) (snd iv) s)) iv
          (seq_consumed l' - seq_consumed l) l'))"
      using more by (intro ext, subst settings_decode.simps)
        (simp add: try_state_def Let_def split: prod.splits result.splits)
    ultimately show ?thesis using fields p False by (simp del: varints_wire_simps(3)) auto
  qed
qed

lemma priority_byte_parts:
  assumes "prioritized_element_type p < 4" "element_dependency_type p < 4"
  shows "drop_bit 6 (priority_byte p) = prioritized_element_type p"
    "drop_bit 4 (priority_byte p) AND 3 = element_dependency_type p"
proof -
  have 4: "w < 4 \<Longrightarrow> w \<in> {0, 1, 2, 3 :: byte}" for w
    by (simp add: word_less_nat_alt unat_arith_simps) arith
  from 4 [OF assms(1)] 4 [OF assms(2)]
  show "drop_bit 6 (priority_byte p) = prioritized_element_type p"
    "drop_bit 4 (priority_byte p) AND 3 = element_dependency_type p"
    by (auto simp: priority_byte_def)
qed

lemma unat_varint_size [simp]: "unat (word_of_nat (varint_size v) :: uint64) = varint_size v"
  using varint_size_le [of v] by (simp add: unat_of_nat)

lemma unat_advertised:
  "(\<forall>n. f \<noteq> Data n) \<and> (\<forall>n. f \<noteq> Headers n) \<and> (\<forall>v n. f \<noteq> Push_promise v n) \<Longrightarrow>
   unat (advertised_size f) = length (payload_wire f)"
  using length_payload_wire [of f]
  by (cases f) (simp_all add: unat_of_nat del: payload_wire.simps(1))

lemma reads_checked:
  assumes "reads (payload_decode ty n) bs (f, n')" and "unat n' = length bs"
  shows "reads (checked_payload ty n) bs f"
proof -
  have "(\<lambda>l :: sequence. (size_check (f, n') (length bs), l)) = (\<lambda>l. (Ok f, l))"
    by (simp add: size_check_def assms(2))
  then have "reads (\<lambda>l. (size_check (f, n') (length bs), l)) [] f"
    by (simp only: reads_return)
  then have "reads (checked_payload ty n) (bs @ []) f"
    unfolding checked_payload_alt
    by (rule reads_try_count [where K = "\<lambda>fn m l. (size_check fn m, l)", OF assms(1)])
  then show ?thesis by simp
qed

lemma reads_checked_single:
  assumes "payload_decode ty n = (\<lambda>l. try_state (varint_decode l) (\<lambda>v l. (Ok (g v, n), l)))"
    and "v < 2 ^ 62" "unat n = varint_size v"
  shows "reads (checked_payload ty n) (varint_wire v) (g v)"
proof -
  have "reads (payload_decode ty n) (varint_wire v) (g v, n)"
    unfolding assms(1) by (rule reads_try_last [OF reads_varint [OF assms(2)]]) simp
  then show ?thesis by (rule reads_checked) (simp add: assms(3))
qed

lemma priority_collapse:
  "\<lparr>prioritized_element_type = prioritized_element_type p,
    element_dependency_type = element_dependency_type p,
    prioritized_element_id = prioritized_element_id p,
    element_dependency_id = element_dependency_id p, weight = weight p\<rparr> = p"
  by (cases p) simp

lemma reads_payload:
  assumes "encodable_frame f"
  shows "reads (checked_payload (frame_type_value (type_of f)) (advertised_size f)) (payload_wire f) f"
proof (cases f)
  case (Priority p)
  let ?n = "advertised_size f"
  have fits: "prioritized_element_id p < 2 ^ 62" "element_dependency_id p < 2 ^ 62"
    and types: "prioritized_element_type p < 4" "element_dependency_type p < 4"
    using assms Priority by (simp_all add: encodable_frame_def frame_fits_def)
  have "reads (payload_decode (frame_type_value (type_of f)) ?n)
     ([priority_byte p] @ varint_wire (prioritized_element_id p) @
      varint_wire (element_dependency_id p) @ [weight p] @ []) (Priority p, ?n)"
    unfolding payload_decode_def [abs_def] frame_type_cast_value Priority type_of.simps option.case
      frame_type.case
    by (rule reads_try [OF reads_uint8], rule reads_try [OF reads_varint [OF fits(1)]],
        rule reads_try [OF reads_varint [OF fits(2)]], rule reads_try [OF reads_uint8])
      (simp only: priority_byte_parts [OF types] priority_collapse reads_return)
  then show ?thesis
    by (intro reads_checked [where n' = ?n]) (use Priority unat_advertised [of f] in simp_all)
next
  case (Settings s)
  let ?n = "advertised_size f"
  have n: "unat ?n = length (payload_wire f)" using unat_advertised [of f] Settings by simp
  have "reads (settings_decode ?n 0 default_settings) (varints_wire (settings_fields (settings_array s)))
      (read_settings (settings_array s) default_settings)"
    by (rule reads_settings)
      (use assms Settings n in \<open>simp_all add: encodable_frame_def frame_fits_def\<close>)
  then have "reads (payload_decode (frame_type_value (type_of f)) ?n) (payload_wire f) (Settings s, ?n)"
    unfolding payload_decode_def [abs_def] frame_type_cast_value Settings type_of.simps option.case
      frame_type.case
    by (intro reads_try_last) (simp_all add: read_settings_array)
  from reads_checked [OF this n] show ?thesis by (simp only: Settings)
next
  case (Push_promise v n)
  let ?N = "advertised_size f" and ?vs = "varint_size v"
  have v: "v < 2 ^ 62" and fit: "?vs + unat n < 2 ^ 62"
    using assms Push_promise by (simp_all add: encodable_frame_def frame_fits_def)
  have vs: "unat (word_of_nat ?vs :: uint64) = ?vs"
    using varint_size_le [of v] by (simp add: unat_of_nat)
  have "unat ?N = ?vs + unat n"
  proof -
    have "unat (word_of_nat ?vs + n) = unat (word_of_nat ?vs :: uint64) + unat n"
      using fit vs by (intro unat_plus_simple [THEN iffD1]) (simp add: word_le_nat_alt unat_word_ariths)
    then show ?thesis using vs Push_promise by simp
  qed
  then have N: "\<not> unat ?N < ?vs" "?N - word_of_nat ?vs = n" using Push_promise by simp_all
  let ?K = "\<lambda>push_id m. \<lambda>l. (if unat ?N < m then Ok (Push_promise push_id 0, ?N)
      else Ok (Push_promise push_id (?N - word_of_nat m), word_of_nat m), l)"
  have "reads (\<lambda>l. try_state (varint_decode l) (\<lambda>v l'. ?K v (seq_consumed l' - seq_consumed l) l'))
      (varint_wire v @ []) (Push_promise v n, word_of_nat ?vs)"
    by (rule reads_try_count [where K = ?K, OF reads_varint [OF v]]) (simp add: N reads_return)
  moreover have "payload_decode (frame_type_value (type_of f)) ?N =
      (\<lambda>l. try_state (varint_decode l) (\<lambda>v l'. ?K v (seq_consumed l' - seq_consumed l) l'))"
    using Push_promise
    by (auto simp: fun_eq_iff payload_decode_def Let_def try_state_def frame_type_cast_def
        split: prod.splits result.splits)
  ultimately have "reads (payload_decode (frame_type_value (type_of f)) ?N) (varint_wire v)
      (Push_promise v n, word_of_nat ?vs)" by simp
  then have "reads (checked_payload (frame_type_value (type_of f)) ?N) (varint_wire v) (Push_promise v n)"
    by (rule reads_checked) (simp add: vs)
  then show ?thesis using Push_promise by simp
next
  case (Data n)
  then show ?thesis by (intro reads_checked [where n' = 0])
    (simp_all add: reads_def payload_decode_def frame_type_cast_def)
next
  case (Headers n)
  then show ?thesis by (intro reads_checked [where n' = 0])
    (simp_all add: reads_def payload_decode_def frame_type_cast_def)
qed (use assms in \<open>auto simp: encodable_frame_def frame_fits_def payload_decode_def fun_eq_iff
    frame_type_cast_def intro!: reads_checked_single\<close>)

lemma reads_frame:
  assumes "encodable_frame f"
  shows "reads decode_single (frame_wire f) f"
proof -
  have fits: "frame_type_value (type_of f) < 2 ^ 62" "advertised_size f < 2 ^ 62"
    using assms by (simp_all add: encodable_frame_def frame_fits_def)
  show ?thesis unfolding decode_single_def [abs_def] frame_wire_def
    by (rule reads_try [OF reads_varint [OF fits(1)]], rule reads_try [OF reads_varint [OF fits(2)]],
        rule reads_payload [OF assms])
qed

section \<open>The outer loop\<close>

definition decode_verdict :: "sequence \<Rightarrow> (frame, error) result \<Rightarrow> nat \<Rightarrow> (frame, error) result \<times> sequence" where
  "decode_verdict s r n =
     (if r = Err Delegate then frame_decode (seq_drop s n)
      else case r of Ok f \<Rightarrow> (Ok f, seq_drop s n) | _ \<Rightarrow> (r, s))"

lemma decode_verdict_simps [simp]:
  "decode_verdict s (Err Delegate) n = frame_decode (seq_drop s n)"
  "decode_verdict s (Ok f) n = (Ok f, seq_drop s n)"
  "e \<noteq> Delegate \<Longrightarrow> decode_verdict s (Err e) n = (Err e, s)"
  by (simp_all add: decode_verdict_def)

lemma frame_decode_by:
  assumes "seq_ok s" "decode_single (seq_lookahead s) = (r, seq_drop (seq_lookahead s) n)"
    "n \<le> length (seq_bytes s)" "r \<noteq> Fault"
  shows "frame_decode s = decode_verdict s r n"
  using assms by (subst frame_decode.simps) (cases r; simp add: seq_consume_eq decode_verdict_def)

text \<open>
  One round of the loop on two containers, the second possibly holding more bytes: unless the
  first one needs more, both go on with the same single frame.
\<close>

lemma frame_decode_step:
  assumes s: "seq_ok s" and t: "seq_ok t" and st: "seq_bytes t = seq_bytes s @ ys"
  obtains (incomplete) "fst (decode_single (seq_lookahead s)) = Err Incomplete"
      "frame_decode s = (Err Incomplete, s)"
    | (decided) r n where "r \<noteq> Fault" "r \<noteq> Err Incomplete" "0 < n" "n \<le> length (seq_bytes s)"
      "fst (decode_single (seq_lookahead s)) = r"
      "frame_decode s = decode_verdict s r n" "frame_decode t = decode_verdict t r n"
proof -
  have la: "lookahead_ok (seq_lookahead s)" "lookahead_ok (seq_lookahead t)"
    and las: "seq_bytes (seq_lookahead t) = seq_bytes (seq_lookahead s) @ ys"
    using s t st by simp_all
  obtain r n where rn: "decode_single (seq_lookahead s) = (r, seq_drop (seq_lookahead s) n)"
    "n \<le> length (seq_bytes (seq_lookahead s))" "r \<noteq> Fault"
    "r = Err Incomplete \<or> decode_single (seq_lookahead t) = (r, seq_drop (seq_lookahead t) n)"
    by (rule streamingE [OF streaming_decode_single la las])
  have fs: "frame_decode s = decode_verdict s r n" using frame_decode_by [OF s rn(1)] rn by simp
  show thesis
  proof (cases "r = Err Incomplete")
    case True
    show ?thesis by (rule incomplete) (simp_all add: rn(1) fs True)
  next
    case False
    then obtain m where m: "seq_drop (seq_lookahead s) n = seq_drop (seq_lookahead s) m" "0 < m"
        "m \<le> length (seq_bytes s)"
      using decode_single_progress [OF la(1) rn(1)] by auto
    have consumed: "seq_consumed (seq_drop (seq_lookahead s) n) = n"
      "seq_consumed (seq_drop (seq_lookahead s) m) = m"
      using rn(2) m(3) s by simp_all
    have "n = m" using consumed m(1) by metis
    then have "0 < n" using m(2) by (simp only:)
    moreover have "frame_decode t = decode_verdict t r n"
      using frame_decode_by [OF t, of r n] rn False st by simp
    ultimately show ?thesis
      by (intro decided [of r n]) (use rn(1-3) False fs in simp_all)
  qed
qed

text \<open>The verdict and what is left depend on the bytes, not on the container they sit in.\<close>

lemma frame_decode_container:
  assumes "seq_ok s" "seq_ok t" "seq_bytes t = seq_bytes s"
  shows "fst (frame_decode s) = fst (frame_decode t) \<and>
    seq_bytes (snd (frame_decode s)) = seq_bytes (snd (frame_decode t))"
  using assms
proof (induction "length (seq_bytes s)" arbitrary: s t rule: less_induct)
  case less
  have app: "seq_bytes t = seq_bytes s @ []" "seq_bytes s = seq_bytes t @ []"
    using less.prems by simp_all
  show ?case
  proof (rule frame_decode_step [OF less.prems(1,2) app(1)], goal_cases)
    case 1
    show ?case
    proof (rule frame_decode_step [OF less.prems(2,1) app(2)], goal_cases)
      case 1
      then show ?case using \<open>frame_decode s = _\<close> less.prems by simp
    next
      case (2 r n)
      have "fst (decode_single (seq_lookahead s)) = fst (decode_single (seq_lookahead t))"
        by (rule streaming_container [OF streaming_decode_single]) (use less.prems in simp_all)
      then show ?case using 1 2 by auto
    qed
  next
    case (2 r n)
    show ?case
    proof (cases "r = Err Delegate")
      case True
      have "length (seq_bytes (seq_drop s n)) < length (seq_bytes s)" using 2 less.prems by simp
      from less.hyps [OF this, of "seq_drop t n"] 2 True less.prems show ?thesis by simp
    next
      case False
      then show ?thesis using 2 less.prems by (cases r) simp_all
    qed
  qed
qed

lemma frame_decode_extend:
  assumes "seq_ok s" "seq_ok t" "seq_bytes t = seq_bytes s @ ys" "frame_decode s = (r, s')"
  shows "if r = Err Incomplete
    then (\<forall>u. seq_ok u \<longrightarrow> seq_bytes u = seq_bytes s' @ ys \<longrightarrow>
            fst (frame_decode u) = fst (frame_decode t) \<and>
            seq_bytes (snd (frame_decode u)) = seq_bytes (snd (frame_decode t)))
    else (\<exists>t'. frame_decode t = (r, t') \<and> seq_bytes t' = seq_bytes s' @ ys)"
  using assms
proof (induction "length (seq_bytes s)" arbitrary: s t s' rule: less_induct)
  case less
  show ?case
  proof (rule frame_decode_step [OF less.prems(1-3)], goal_cases)
    case 1
    then have r: "r = Err Incomplete" "s' = s" using less.prems(4) by simp_all
    have "fst (frame_decode u) = fst (frame_decode t) \<and>
        seq_bytes (snd (frame_decode u)) = seq_bytes (snd (frame_decode t))"
      if "seq_ok u" "seq_bytes u = seq_bytes s' @ ys" for u
      by (rule frame_decode_container) (use that r less.prems in simp_all)
    then show ?case using r by simp
  next
    case (2 q n)
    have nt: "n \<le> length (seq_bytes t)" using 2(4) less.prems(3) by simp
    have app: "seq_bytes (seq_drop t n) = seq_bytes (seq_drop s n) @ ys"
      using less.prems 2(4) nt by simp
    show ?case
    proof (cases "q = Err Delegate")
      case True
      have sm: "length (seq_bytes (seq_drop s n)) < length (seq_bytes s)" using 2 less.prems by simp
      have ok: "seq_ok (seq_drop s n)" "seq_ok (seq_drop t n)" using less.prems by simp_all
      have "frame_decode (seq_drop s n) = (r, s')" using True 2 less.prems(4) by simp
      from less.hyps [OF sm ok app this] True 2 show ?thesis by simp
    next
      case False
      then show ?thesis using 2 less.prems app by (cases q) auto
    qed
  qed
qed

text \<open>The errors a single frame can produce.\<close>

lemma settings_decode_errors:
  "lookahead_ok l \<Longrightarrow> fst (settings_decode psize n s l) = Err e \<Longrightarrow> e = Incomplete"
proof (induction "length (seq_bytes l)" arbitrary: n s l rule: less_induct)
  case less
  show ?case
  proof (cases "n < unat psize")
    case True
    show ?thesis
    proof (cases "varint_parse (seq_bytes l)")
      case None
      then show ?thesis using less.prems True
        by (subst (asm) settings_decode.simps) (simp add: varint_decode_eq Let_def)
    next
      case (Some im)
      obtain i m where im: "im = (i, m)" by (cases im)
      have m: "m \<le> length (seq_bytes l)" "0 < m"
        using varint_parse_bounds [OF Some [unfolded im]] by auto
      show ?thesis
      proof (cases "varint_parse (drop m (seq_bytes l))")
        case None
        then show ?thesis using less.prems True Some im m
          by (subst (asm) settings_decode.simps) (simp add: varint_decode_eq Let_def)
      next
        case (Some vk)
        obtain v k where vk: "vk = (v, k)" by (cases vk)
        have k: "m + k \<le> length (seq_bytes l)" using Some vk varint_parse_bounds m by fastforce
        have "length (seq_bytes (seq_drop l (m + k))) < length (seq_bytes l)"
          using k m less.prems by simp
        moreover have "lookahead_ok (seq_drop l (m + k))" using less.prems by simp
        moreover have "fst (settings_decode psize (n + (m + k)) (set_setting i v s) (seq_drop l (m + k))) = Err e"
          using less.prems(2) True \<open>varint_parse (seq_bytes l) = Some im\<close> im Some vk m k less.prems(1)
          by (subst (asm) settings_decode.simps) (simp add: varint_decode_eq Let_def)
        ultimately show ?thesis by (rule less.hyps)
      qed
    qed
  next
    case False
    then show ?thesis using less.prems by (simp add: settings_decode.simps)
  qed
qed

definition errors_in :: "(sequence \<Rightarrow> ('a, error) result \<times> sequence) \<Rightarrow> error set \<Rightarrow> bool" where
  "errors_in D E \<longleftrightarrow> (\<forall>l e. lookahead_ok l \<longrightarrow> fst (D l) = Err e \<longrightarrow> e \<in> E)"

lemma errors_in_varint: "Incomplete \<in> E \<Longrightarrow> errors_in varint_decode E"
  by (auto simp: errors_in_def varint_decode_eq split: option.splits)

lemma errors_in_uint8: "Incomplete \<in> E \<Longrightarrow> errors_in frame_uint8_decode E"
  by (auto simp: errors_in_def frame_uint8_decode_def seq.at_eq seq_consume_eq)

lemma errors_in_settings: "Incomplete \<in> E \<Longrightarrow> errors_in (settings_decode psize n s) E"
  unfolding errors_in_def using settings_decode_errors by blast

lemma errors_in_return: "errors_in (\<lambda>l. (Ok (v l), l)) E" "e \<in> E \<Longrightarrow> errors_in (\<lambda>l. (Err e, l)) E"
  by (simp_all add: errors_in_def)

lemma errors_in_try:
  assumes D: "errors_in D E" "streaming D" and K: "\<And>l v. errors_in (K l v) E"
  shows "errors_in (\<lambda>l. try_state (D l) (K l)) E"
  unfolding errors_in_def
proof (intro allI impI)
  fix l e
  assume l: "lookahead_ok l" and e: "fst (try_state (D l) (K l)) = Err e"
  obtain r n where r: "D l = (r, seq_drop l n)" "r \<noteq> Fault" by (rule streaming_run [OF D(2) l])
  show "e \<in> E"
  proof (cases r)
    case (Ok v)
    have "errors_in (K l v) E" by (rule K)
    moreover have "fst (K l v (seq_drop l n)) = Err e" using e r Ok by simp
    moreover have "lookahead_ok (seq_drop l n)" using l by simp
    ultimately show ?thesis unfolding errors_in_def by blast
  next
    case (Err e')
    then show ?thesis using e r D(1) l unfolding errors_in_def by auto
  qed (use r in simp)
qed

lemma errors_in_if:
  "errors_in D E \<Longrightarrow> errors_in F E \<Longrightarrow> errors_in (\<lambda>l. if b l then D l else F l) E"
  by (simp add: errors_in_def)

lemmas errors_in_intros = errors_in_try errors_in_if errors_in_varint errors_in_uint8 errors_in_settings
  errors_in_return streaming_intros

lemma errors_in_payload: "errors_in (payload_decode ty n) {Incomplete, Delegate}"
proof (cases "frame_type_cast ty")
  case None
  then show ?thesis by (auto simp: errors_in_def payload_decode_def seq_consume_eq)
next
  case (Some ft)
  then show ?thesis
    by (cases ft) (auto simp: payload_decode_def [abs_def] Let_def intro!: errors_in_intros)
qed

lemma decode_single_errors:
  "errors_in decode_single {Incomplete, Delegate, Malformed_frame}"
proof -
  have "errors_in (payload_decode ty n) {Incomplete, Delegate, Malformed_frame}" for ty n
    using errors_in_payload [of ty n] unfolding errors_in_def by blast
  then have "errors_in (checked_payload ty n) {Incomplete, Delegate, Malformed_frame}" for ty n
    unfolding checked_payload_alt
    by (intro errors_in_try streaming_payload) (auto simp: errors_in_def size_check_def)
  then show ?thesis unfolding decode_single_def [abs_def]
    by (intro errors_in_try errors_in_varint streaming_varint) simp_all
qed

lemma frame_decode_result:
  assumes "seq_ok s"
  shows "\<exists>n \<le> length (seq_bytes s). seq_bytes (snd (frame_decode s)) = drop n (seq_bytes s) \<and>
    seq_ok (snd (frame_decode s)) \<and>
    (case fst (frame_decode s) of Ok f \<Rightarrow> 0 < n | Err e \<Rightarrow> e \<in> {Incomplete, Malformed_frame} | Fault \<Rightarrow> False)"
  using assms
proof (induction "length (seq_bytes s)" arbitrary: s rule: less_induct)
  case less
  have app: "seq_bytes s = seq_bytes s @ []" by simp
  show ?case
  proof (rule frame_decode_step [OF less.prems less.prems app], goal_cases)
    case 1
    then show ?case using less.prems by (intro exI [of _ 0]) simp
  next
    case (2 r n)
    show ?case
    proof (cases r)
      case (Ok f)
      then show ?thesis using 2 less.prems by (intro exI [of _ n]) simp
    next
      case (Err e)
      show ?thesis
      proof (cases "e = Delegate")
        case True
        have sm: "length (seq_bytes (seq_drop s n)) < length (seq_bytes s)" using 2 less.prems by simp
        have ok: "seq_ok (seq_drop s n)" using less.prems by simp
        obtain k where k: "k \<le> length (seq_bytes (seq_drop s n))"
          "seq_bytes (snd (frame_decode (seq_drop s n))) = drop k (seq_bytes (seq_drop s n))"
          "seq_ok (snd (frame_decode (seq_drop s n)))"
          "case fst (frame_decode (seq_drop s n)) of Ok f \<Rightarrow> 0 < k
            | Err e \<Rightarrow> e \<in> {Incomplete, Malformed_frame} | Fault \<Rightarrow> False"
          using less.hyps [OF sm ok] by blast
        have "frame_decode s = frame_decode (seq_drop s n)" using 2 Err True by simp
        then show ?thesis using k 2 less.prems
          by (intro exI [of _ "n + k"]) (auto simp: add.commute split: result.splits)
      next
        case False
        have "e \<in> {Incomplete, Delegate, Malformed_frame}"
          using decode_single_errors 2(5) Err less.prems lookahead_ok_simps(4)
          unfolding errors_in_def by blast
        then show ?thesis using 2 Err False less.prems by (intro exI [of _ 0]) auto
      qed
    qed (use 2 in simp)
  qed
qed

lemma frame_decode_wire:
  assumes f: "encodable_frame f" and s: "seq_ok s" "seq_bytes s = frame_wire f @ rest"
  shows "frame_decode s = (Ok f, seq_drop s (length (frame_wire f)))"
proof -
  have "decode_single (seq_lookahead s) = (Ok f, seq_drop (seq_lookahead s) (length (frame_wire f)))"
    by (rule readsD [OF reads_frame [OF f]]) (use s in simp_all)
  then show ?thesis using frame_decode_by [of s "Ok f"] s by simp
qed

text \<open>A frame of an unknown type with its payload.\<close>

definition unknown_wire :: "uint64 \<times> bytes \<Rightarrow> bytes" where
  "unknown_wire u = varint_wire (fst u) @ varint_wire (word_of_nat (length (snd u))) @ snd u"

definition unknown_ok :: "uint64 \<times> bytes \<Rightarrow> bool" where
  "unknown_ok u \<longleftrightarrow> fst u < 2 ^ 62 \<and> frame_type_cast (fst u) = None \<and> length (snd u) < 2 ^ 62"

lemma decode_single_unknown:
  assumes u: "unknown_ok u" and l: "lookahead_ok l" "seq_bytes l = unknown_wire u @ rest"
  shows "decode_single l = (Err Delegate, seq_drop l (length (unknown_wire u)))"
proof -
  let ?ty = "fst u" and ?p = "snd u" let ?n = "word_of_nat (length ?p) :: uint64"
  have n: "unat ?n = length ?p" using u by (simp add: unknown_ok_def unat_of_nat)
  have fits: "?ty < 2 ^ 62" "?n < 2 ^ 62" using u n by (simp_all add: unknown_ok_def word_less_nat_alt)
  have 1: "varint_decode l = (Ok ?ty, seq_drop l (varint_size ?ty))"
    using varint_decode_wire [of l ?ty] l fits by (simp add: unknown_wire_def)
  let ?l1 = "seq_drop l (varint_size ?ty)"
  have b1: "seq_bytes ?l1 = varint_wire ?n @ ?p @ rest" "lookahead_ok ?l1"
    using l by (simp_all add: unknown_wire_def)
  then have 2: "varint_decode ?l1 = (Ok ?n, seq_drop ?l1 (varint_size ?n))"
    using varint_decode_wire [of ?l1 ?n] fits by simp
  let ?l2 = "seq_drop ?l1 (varint_size ?n)"
  have b2: "seq_bytes ?l2 = ?p @ rest" "lookahead_ok ?l2" using b1 by simp_all
  have "payload_decode ?ty ?n ?l2 = (Err Delegate, seq_drop ?l2 (length ?p))"
    using u b2 n by (simp add: payload_decode_def unknown_ok_def seq_consume_eq)
  then have "decode_single l = (Err Delegate, seq_drop ?l2 (length ?p))"
    using 1 2 by (simp add: decode_single_def checked_payload_def Let_def)
  then show ?thesis using l by (simp add: unknown_wire_def add.assoc)
qed

lemma frame_decode_skips:
  assumes "\<forall>u \<in> set us. unknown_ok u" "encodable_frame f" "seq_ok s"
    "seq_bytes s = concat (map unknown_wire us) @ frame_wire f @ rest"
  shows "\<exists>s'. frame_decode s = (Ok f, s') \<and> seq_bytes s' = rest \<and> seq_ok s'"
  using assms
proof (induction us arbitrary: s)
  case Nil
  then show ?case using frame_decode_wire [of f s rest] by simp
next
  case (Cons u us)
  let ?n = "length (unknown_wire u)"
  have "decode_single (seq_lookahead s) = (Err Delegate, seq_drop (seq_lookahead s) ?n)"
    by (rule decode_single_unknown) (use Cons.prems in simp_all)
  then have "frame_decode s = frame_decode (seq_drop s ?n)"
    using frame_decode_by [of s "Err Delegate"] Cons.prems by simp
  then show ?case using Cons.IH [of "seq_drop s ?n"] Cons.prems by simp
qed

text \<open>Frames whose payload does not depend on the advertised size.\<close>

fun fixed_payload :: "frame \<Rightarrow> bool" where
  "fixed_payload (Priority p) \<longleftrightarrow> True"
| "fixed_payload (Cancel_push v) \<longleftrightarrow> True"
| "fixed_payload (Goaway v) \<longleftrightarrow> True"
| "fixed_payload (Max_push_id v) \<longleftrightarrow> True"
| "fixed_payload (Duplicate_push v) \<longleftrightarrow> True"
| "fixed_payload _ \<longleftrightarrow> False"

lemma reads_fixed_payload:
  assumes "fixed_payload f" "encodable_frame f"
  shows "reads (payload_decode (frame_type_value (type_of f)) n) (payload_wire f) (f, n)"
proof (cases f)
  case (Priority p)
  have fits: "prioritized_element_id p < 2 ^ 62" "element_dependency_id p < 2 ^ 62"
    and types: "prioritized_element_type p < 4" "element_dependency_type p < 4"
    using assms Priority by (simp_all add: encodable_frame_def frame_fits_def)
  have "reads (payload_decode (frame_type_value (type_of f)) n)
     ([priority_byte p] @ varint_wire (prioritized_element_id p) @
      varint_wire (element_dependency_id p) @ [weight p] @ []) (Priority p, n)"
    unfolding payload_decode_def [abs_def] frame_type_cast_value Priority type_of.simps option.case
      frame_type.case
    by (rule reads_try [OF reads_uint8], rule reads_try [OF reads_varint [OF fits(1)]],
        rule reads_try [OF reads_varint [OF fits(2)]], rule reads_try [OF reads_uint8])
      (simp only: priority_byte_parts [OF types] priority_collapse reads_return)
  then show ?thesis using Priority by simp
qed (use assms in \<open>auto simp: encodable_frame_def frame_fits_def payload_decode_def [abs_def]
    frame_type_cast_def intro!: reads_try_last reads_varint\<close>)

lemma checked_payload_mismatch:
  assumes "fixed_payload f" "encodable_frame f" "unat n \<noteq> length (payload_wire f)"
    and "lookahead_ok l" "seq_bytes l = payload_wire f @ rest"
  shows "fst (checked_payload (frame_type_value (type_of f)) n l) = Err Malformed_frame"
  using readsD [OF reads_fixed_payload [OF assms(1,2), of n] assms(4,5)] assms(3-5)
  by (simp add: checked_payload_alt size_check_def)

lemma frame_decode_short:
  assumes "encodable_frame f" "k < length (frame_wire f)" "seq_ok s"
    "seq_bytes s = take k (frame_wire f)"
  shows "frame_decode s = (Err Incomplete, s)"
proof -
  let ?t = "Buffer_seq (frame_wire f)"
  have app: "seq_bytes ?t = seq_bytes s @ drop k (frame_wire f)" using assms by simp
  have t: "frame_decode ?t = (Ok f, seq_drop ?t (length (frame_wire f)))"
    using frame_decode_wire [of f ?t "[]"] assms(1) by simp
  have ok: "seq_ok ?t" by simp
  show ?thesis
  proof (rule frame_decode_step [OF assms(3) ok app], goal_cases)
    case (2 r n)
    have la: "lookahead_ok (seq_lookahead ?t)" by (simp add: lookahead_ok_def)
    have "decode_single (seq_lookahead ?t) = (Ok f, seq_drop (seq_lookahead ?t) (length (frame_wire f)))"
      by (rule readsD [OF reads_frame [OF assms(1)] la, of "[]"]) simp
    have "frame_decode ?t = decode_verdict ?t r n" by fact
    show ?case
    proof (cases r)
      case (Ok g)
      have "frame_decode ?t = (Ok g, seq_drop ?t n)"
        using \<open>frame_decode ?t = decode_verdict ?t r n\<close> Ok by (simp only: decode_verdict_simps)
      with t have "seq_drop ?t n = seq_drop ?t (length (frame_wire f))" by (simp only: prod.inject)
      then have "seq_bytes (seq_drop ?t n) = seq_bytes (seq_drop ?t (length (frame_wire f)))"
        by (rule arg_cong)
      moreover have "n < length (frame_wire f)" using 2 assms by simp
      ultimately show ?thesis by simp
    next
      case (Err e)
      obtain q m where q: "decode_single (seq_lookahead s) = (q, seq_drop (seq_lookahead s) m)"
        "q = Err Incomplete \<or>
         decode_single (seq_lookahead ?t) = (q, seq_drop (seq_lookahead ?t) m)"
        by (rule streamingE [OF streaming_decode_single _ la, of "seq_lookahead s"])
          (use assms(3) app in auto)
      with 2 Err \<open>decode_single (seq_lookahead ?t) = _\<close> show ?thesis by simp
    qed (use 2 in simp)
  qed
qed

section \<open>Properties\<close>

text \<open>
  C26. Encoding a frame never writes outside the buffer sized by \<open>encoded_size\<close>, fills it
  completely whatever it held, and fails with \<open>varint_overflow\<close> exactly when a field or the
  advertised size does not fit 62 bits; \<open>encoded_size\<close> agrees with it in every case.
\<close>

theorem frame_encode_total:
  "(case frame_encode_buffer junk f of
      Ok bs \<Rightarrow> frame_fits f \<and> bs = frame_wire f \<and> frame_encoded_size f = Ok (length bs)
    | Err e \<Rightarrow> e = Varint_overflow \<and> \<not> frame_fits f \<and> frame_encoded_size f = Err e
    | Fault \<Rightarrow> False)"
  by (simp add: frame_encode_buffer_eq frame_encoded_size_eq)

text \<open>
  C4. A frame of any type decodes back to itself from any container, also after any number of
  frames of unknown type, which are skipped with their payloads; what follows it stays.
\<close>

theorem frame_round_trip:
  assumes "encodable_frame f" and "\<forall>u \<in> set us. unknown_ok u" and "seq_ok s"
    and "frame_encode_buffer junk f = Ok encoded"
    and "seq_bytes s = concat (map unknown_wire us) @ encoded @ rest"
  shows "\<exists>s'. frame_decode s = (Ok f, s') \<and> seq_bytes s' = rest \<and> seq_ok s'"
  using assms frame_decode_skips [OF assms(2,1,3)]
  by (auto simp: frame_encode_buffer_eq split: if_splits)

theorem frame_round_trip_witness:
  "\<exists>s'. frame_decode (Buffers_seq [[0x21, 2, 9], [9, 0x05, 0x03], [0x40, 0x64, 7]]) =
       (Ok (Push_promise 100 1), s') \<and> seq_bytes s' = [7] \<and> seq_ok s'"
proof (rule frame_round_trip)
  show "encodable_frame (Push_promise 100 1)"
    by (simp add: encodable_frame_def frame_fits_def varint_size_def)
  show "\<forall>u \<in> set [(0x21, [9, 9])]. unknown_ok u" by (simp add: unknown_ok_def frame_type_cast_def)
  show "seq_ok (Buffers_seq [[0x21, 2, 9], [9, 0x05, 0x03], [0x40, 0x64, 7]])" by simp
  show "frame_encode_buffer (\<lambda>_. 0) (Push_promise 100 1) = Ok [5, 3, 0x40, 0x64]" by code_simp
  show "seq_bytes (Buffers_seq [[0x21, 2, 9], [9, 0x05, 0x03], [0x40, 0x64, 7]]) =
      concat (map unknown_wire [(0x21, [9, 9])]) @ [5, 3, 0x40, 0x64] @ [7]"
    by code_simp
qed

text \<open>
  C25. Decoding never faults on any input. It returns a frame and takes at least one byte, or fails
  with \<open>incomplete\<close> or \<open>malformed_frame\<close>; in every case what is left is a suffix of the input.
\<close>

theorem frame_decode_safe:
  assumes "seq_ok s"
  shows "\<exists>n \<le> length (seq_bytes s). seq_bytes (snd (frame_decode s)) = drop n (seq_bytes s) \<and>
    seq_ok (snd (frame_decode s)) \<and>
    (case fst (frame_decode s) of
       Ok f \<Rightarrow> 0 < n
     | Err e \<Rightarrow> e \<in> {Incomplete, Malformed_frame}
     | Fault \<Rightarrow> False)"
  by (rule frame_decode_result [OF assms])

theorem frame_decode_safe_witness:
  "\<exists>n \<le> length (seq_bytes (Buffer_seq [3, 2, 5])).
    seq_bytes (snd (frame_decode (Buffer_seq [3, 2, 5]))) = drop n (seq_bytes (Buffer_seq [3, 2, 5])) \<and>
    seq_ok (snd (frame_decode (Buffer_seq [3, 2, 5]))) \<and>
    (case fst (frame_decode (Buffer_seq [3, 2, 5])) of
       Ok f \<Rightarrow> 0 < n
     | Err e \<Rightarrow> e \<in> {Incomplete, Malformed_frame}
     | Fault \<Rightarrow> False)"
  by (rule frame_decode_safe) simp

text \<open>
  C24. Decoding is incremental. With more bytes at the end of the input, a verdict other than
  \<open>incomplete\<close> stays the same and the extra bytes are left over; after \<open>incomplete\<close>, going on
  from what was left with the extra bytes gives what decoding the whole input would have given.
\<close>

theorem frame_decode_incremental:
  assumes "seq_ok s" "seq_ok t" "seq_bytes t = seq_bytes s @ ys" "frame_decode s = (r, s')"
  shows "if r = Err Incomplete
    then (\<forall>u. seq_ok u \<longrightarrow> seq_bytes u = seq_bytes s' @ ys \<longrightarrow>
            fst (frame_decode u) = fst (frame_decode t) \<and>
            seq_bytes (snd (frame_decode u)) = seq_bytes (snd (frame_decode t)))
    else (\<exists>t'. frame_decode t = (r, t') \<and> seq_bytes t' = seq_bytes s' @ ys)"
  by (rule frame_decode_extend [OF assms])

theorem frame_decode_incremental_witness:
  "\<exists>t'. frame_decode (Buffers_seq [[7, 1], [5, 0], [1]]) = (Ok (Goaway 5), t') \<and>
     seq_bytes t' = seq_bytes (Buffer_seq []) @ [0, 1]"
proof -
  have "frame_decode (Buffer_seq [7, 1, 5]) = (Ok (Goaway 5), Buffer_seq [])" by code_simp
  from frame_decode_incremental [OF _ _ _ this, of "Buffers_seq [[7, 1], [5, 0], [1]]" "[0, 1]"]
  show ?thesis by simp
qed

text \<open>
  A frame that has not arrived completely is \<open>incomplete\<close> and the container keeps every byte:
  no strict prefix of an encoded frame is taken for a frame or for a malformed one.
\<close>

theorem frame_decode_truncated:
  assumes "encodable_frame f" "k < length (frame_wire f)" "seq_ok s"
    "seq_bytes s = take k (frame_wire f)"
  shows "frame_decode s = (Err Incomplete, s)"
  by (rule frame_decode_short [OF assms])

theorem frame_decode_truncated_witness:
  "frame_decode (Buffer_seq [5, 3, 0x40]) = (Err Incomplete, Buffer_seq [5, 3, 0x40])"
proof (rule frame_decode_truncated)
  show "encodable_frame (Push_promise 100 1)"
    by (simp add: encodable_frame_def frame_fits_def varint_size_def)
  show "3 < length (frame_wire (Push_promise 100 1))" by code_simp
  show "seq_ok (Buffer_seq [5, 3, 0x40])" by simp
  show "seq_bytes (Buffer_seq [5, 3, 0x40]) = take 3 (frame_wire (Push_promise 100 1))" by code_simp
qed

text \<open>
  A PRIORITY, CANCEL_PUSH, GOAWAY, MAX_PUSH_ID or DUPLICATE_PUSH frame whose advertised size
  is not the size of its payload is rejected as \<open>malformed_frame\<close> and stays in the container.
\<close>

theorem frame_decode_malformed:
  assumes "fixed_payload f" "encodable_frame f" "n < 2 ^ 62" "unat n \<noteq> length (payload_wire f)"
    and "seq_ok s"
    and "seq_bytes s = varint_wire (frame_type_value (type_of f)) @ varint_wire n @ payload_wire f @ rest"
  shows "frame_decode s = (Err Malformed_frame, s)"
proof -
  let ?ty = "frame_type_value (type_of f)" and ?l = "seq_lookahead s"
  have ty: "?ty < 2 ^ 62" by simp
  let ?l1 = "seq_drop ?l (varint_size ?ty)" let ?l2 = "seq_drop ?l1 (varint_size n)"
  have 1: "varint_decode ?l = (Ok ?ty, ?l1)"
    using varint_decode_wire [OF _ ty, of ?l] assms by simp
  have b1: "seq_bytes ?l1 = varint_wire n @ payload_wire f @ rest" "lookahead_ok ?l1"
    using assms by simp_all
  then have 2: "varint_decode ?l1 = (Ok n, ?l2)" using varint_decode_wire [of ?l1 n] assms(3) by simp
  have b2: "seq_bytes ?l2 = payload_wire f @ rest" "lookahead_ok ?l2" using b1 by simp_all
  have "fst (decode_single ?l) = Err Malformed_frame"
    using 1 2 checked_payload_mismatch [OF assms(1,2,4) b2(2,1)] by (simp add: decode_single_def)
  then show ?thesis by (subst frame_decode.simps) (auto split: prod.split)
qed

theorem frame_decode_malformed_witness:
  "frame_decode (Buffer_seq [0xd, 2, 5]) = (Err Malformed_frame, Buffer_seq [0xd, 2, 5])"
proof (rule frame_decode_malformed)
  show "fixed_payload (Max_push_id 5)" by simp
  show "encodable_frame (Max_push_id 5)"
    by (simp add: encodable_frame_def frame_fits_def varint_size_def)
  show "(2 :: uint64) < 2 ^ 62" by simp
  show "unat (2 :: uint64) \<noteq> length (payload_wire (Max_push_id 5))" by (simp add: varint_size_def)
  show "seq_ok (Buffer_seq [0xd, 2, 5])" by simp
  show "seq_bytes (Buffer_seq [0xd, 2, 5]) =
      varint_wire (frame_type_value (type_of (Max_push_id 5))) @ varint_wire 2 @ payload_wire (Max_push_id 5) @ []"
    by code_simp
qed

text \<open>
  \<open>peek\<close> loops past an unknown type without skipping that frame's length and payload, so it
  announces a DATA frame where the next frame that \<open>decode\<close> returns is a HEADERS frame.
\<close>

theorem frame_peek_unknown_type:
  "frame_peek (Buffer_seq [0x21, 0, 1, 0]) = Ok Data_type \<and>
   fst (frame_decode (Buffer_seq [0x21, 0, 1, 0])) = Ok (Headers 0)"
  by code_simp

text \<open>
  The size a push promise advertises is computed in \<open>uint64_t\<close> and may wrap around: such a
  frame is encoded without an error and decodes to another frame.
\<close>

theorem push_promise_size_wraps:
  "frame_encode_buffer junk (Push_promise 0 0xffffffffffffffff) = Ok [5, 0, 0] \<and>
   fst (frame_decode (Buffer_seq [5, 0, 0])) = Err Malformed_frame"
proof
  show "frame_encode_buffer junk (Push_promise 0 0xffffffffffffffff) = Ok [5, 0, 0]"
    unfolding frame_encode_buffer_eq by code_simp
qed code_simp

end
