(* ===== verification/Huffman_Tables.thy ===== *)
theory Huffman_Tables
  imports Prelude
begin

text \<open>
  The tables of the Huffman codec (\<open>huffman/encode_generated.cpp\<close>, \<open>huffman/decode_generated.cpp\<close>),
  entry by entry. The encoding table gives the code of each of the 256 bytes and of the terminal
  symbol 256; the decoding table is an automaton with 256 states that reads four bits at a time.
\<close>

section \<open>encode_generated.cpp\<close>

text \<open>A symbol is its code, right-aligned in 32 bits, and the number of bits of the code.\<close>

type_synonym symbol = "uint32 \<times> nat"

definition encoding_rows_0 :: "symbol list" where
  "encoding_rows_0 =
    [(0x1ff8, 13), (0x7fffd8, 23), (0xfffffe2, 28), (0xfffffe3, 28),
     (0xfffffe4, 28), (0xfffffe5, 28), (0xfffffe6, 28), (0xfffffe7, 28),
     (0xfffffe8, 28), (0xffffea, 24), (0x3ffffffc, 30), (0xfffffe9, 28),
     (0xfffffea, 28), (0x3ffffffd, 30), (0xfffffeb, 28), (0xfffffec, 28)]"

definition encoding_rows_16 :: "symbol list" where
  "encoding_rows_16 =
    [(0xfffffed, 28), (0xfffffee, 28), (0xfffffef, 28), (0xffffff0, 28),
     (0xffffff1, 28), (0xffffff2, 28), (0x3ffffffe, 30), (0xffffff3, 28),
     (0xffffff4, 28), (0xffffff5, 28), (0xffffff6, 28), (0xffffff7, 28),
     (0xffffff8, 28), (0xffffff9, 28), (0xffffffa, 28), (0xffffffb, 28)]"

definition encoding_rows_32 :: "symbol list" where
  "encoding_rows_32 =
    [(0x14, 6), (0x3f8, 10), (0x3f9, 10), (0xffa, 12),
     (0x1ff9, 13), (0x15, 6), (0xf8, 8), (0x7fa, 11),
     (0x3fa, 10), (0x3fb, 10), (0xf9, 8), (0x7fb, 11),
     (0xfa, 8), (0x16, 6), (0x17, 6), (0x18, 6)]"

definition encoding_rows_48 :: "symbol list" where
  "encoding_rows_48 =
    [(0x0, 5), (0x1, 5), (0x2, 5), (0x19, 6),
     (0x1a, 6), (0x1b, 6), (0x1c, 6), (0x1d, 6),
     (0x1e, 6), (0x1f, 6), (0x5c, 7), (0xfb, 8),
     (0x7ffc, 15), (0x20, 6), (0xffb, 12), (0x3fc, 10)]"

definition encoding_rows_64 :: "symbol list" where
  "encoding_rows_64 =
    [(0x1ffa, 13), (0x21, 6), (0x5d, 7), (0x5e, 7),
     (0x5f, 7), (0x60, 7), (0x61, 7), (0x62, 7),
     (0x63, 7), (0x64, 7), (0x65, 7), (0x66, 7),
     (0x67, 7), (0x68, 7), (0x69, 7), (0x6a, 7)]"

definition encoding_rows_80 :: "symbol list" where
  "encoding_rows_80 =
    [(0x6b, 7), (0x6c, 7), (0x6d, 7), (0x6e, 7),
     (0x6f, 7), (0x70, 7), (0x71, 7), (0x72, 7),
     (0xfc, 8), (0x73, 7), (0xfd, 8), (0x1ffb, 13),
     (0x7fff0, 19), (0x1ffc, 13), (0x3ffc, 14), (0x22, 6)]"

definition encoding_rows_96 :: "symbol list" where
  "encoding_rows_96 =
    [(0x7ffd, 15), (0x3, 5), (0x23, 6), (0x4, 5),
     (0x24, 6), (0x5, 5), (0x25, 6), (0x26, 6),
     (0x27, 6), (0x6, 5), (0x74, 7), (0x75, 7),
     (0x28, 6), (0x29, 6), (0x2a, 6), (0x7, 5)]"

definition encoding_rows_112 :: "symbol list" where
  "encoding_rows_112 =
    [(0x2b, 6), (0x76, 7), (0x2c, 6), (0x8, 5),
     (0x9, 5), (0x2d, 6), (0x77, 7), (0x78, 7),
     (0x79, 7), (0x7a, 7), (0x7b, 7), (0x7ffe, 15),
     (0x7fc, 11), (0x3ffd, 14), (0x1ffd, 13), (0xffffffc, 28)]"

definition encoding_rows_128 :: "symbol list" where
  "encoding_rows_128 =
    [(0xfffe6, 20), (0x3fffd2, 22), (0xfffe7, 20), (0xfffe8, 20),
     (0x3fffd3, 22), (0x3fffd4, 22), (0x3fffd5, 22), (0x7fffd9, 23),
     (0x3fffd6, 22), (0x7fffda, 23), (0x7fffdb, 23), (0x7fffdc, 23),
     (0x7fffdd, 23), (0x7fffde, 23), (0xffffeb, 24), (0x7fffdf, 23)]"

definition encoding_rows_144 :: "symbol list" where
  "encoding_rows_144 =
    [(0xffffec, 24), (0xffffed, 24), (0x3fffd7, 22), (0x7fffe0, 23),
     (0xffffee, 24), (0x7fffe1, 23), (0x7fffe2, 23), (0x7fffe3, 23),
     (0x7fffe4, 23), (0x1fffdc, 21), (0x3fffd8, 22), (0x7fffe5, 23),
     (0x3fffd9, 22), (0x7fffe6, 23), (0x7fffe7, 23), (0xffffef, 24)]"

definition encoding_rows_160 :: "symbol list" where
  "encoding_rows_160 =
    [(0x3fffda, 22), (0x1fffdd, 21), (0xfffe9, 20), (0x3fffdb, 22),
     (0x3fffdc, 22), (0x7fffe8, 23), (0x7fffe9, 23), (0x1fffde, 21),
     (0x7fffea, 23), (0x3fffdd, 22), (0x3fffde, 22), (0xfffff0, 24),
     (0x1fffdf, 21), (0x3fffdf, 22), (0x7fffeb, 23), (0x7fffec, 23)]"

definition encoding_rows_176 :: "symbol list" where
  "encoding_rows_176 =
    [(0x1fffe0, 21), (0x1fffe1, 21), (0x3fffe0, 22), (0x1fffe2, 21),
     (0x7fffed, 23), (0x3fffe1, 22), (0x7fffee, 23), (0x7fffef, 23),
     (0xfffea, 20), (0x3fffe2, 22), (0x3fffe3, 22), (0x3fffe4, 22),
     (0x7ffff0, 23), (0x3fffe5, 22), (0x3fffe6, 22), (0x7ffff1, 23)]"

definition encoding_rows_192 :: "symbol list" where
  "encoding_rows_192 =
    [(0x3ffffe0, 26), (0x3ffffe1, 26), (0xfffeb, 20), (0x7fff1, 19),
     (0x3fffe7, 22), (0x7ffff2, 23), (0x3fffe8, 22), (0x1ffffec, 25),
     (0x3ffffe2, 26), (0x3ffffe3, 26), (0x3ffffe4, 26), (0x7ffffde, 27),
     (0x7ffffdf, 27), (0x3ffffe5, 26), (0xfffff1, 24), (0x1ffffed, 25)]"

definition encoding_rows_208 :: "symbol list" where
  "encoding_rows_208 =
    [(0x7fff2, 19), (0x1fffe3, 21), (0x3ffffe6, 26), (0x7ffffe0, 27),
     (0x7ffffe1, 27), (0x3ffffe7, 26), (0x7ffffe2, 27), (0xfffff2, 24),
     (0x1fffe4, 21), (0x1fffe5, 21), (0x3ffffe8, 26), (0x3ffffe9, 26),
     (0xffffffd, 28), (0x7ffffe3, 27), (0x7ffffe4, 27), (0x7ffffe5, 27)]"

definition encoding_rows_224 :: "symbol list" where
  "encoding_rows_224 =
    [(0xfffec, 20), (0xfffff3, 24), (0xfffed, 20), (0x1fffe6, 21),
     (0x3fffe9, 22), (0x1fffe7, 21), (0x1fffe8, 21), (0x7ffff3, 23),
     (0x3fffea, 22), (0x3fffeb, 22), (0x1ffffee, 25), (0x1ffffef, 25),
     (0xfffff4, 24), (0xfffff5, 24), (0x3ffffea, 26), (0x7ffff4, 23)]"

definition encoding_rows_240 :: "symbol list" where
  "encoding_rows_240 =
    [(0x3ffffeb, 26), (0x7ffffe6, 27), (0x3ffffec, 26), (0x3ffffed, 26),
     (0x7ffffe7, 27), (0x7ffffe8, 27), (0x7ffffe9, 27), (0x7ffffea, 27),
     (0x7ffffeb, 27), (0xffffffe, 28), (0x7ffffec, 27), (0x7ffffed, 27),
     (0x7ffffee, 27), (0x7ffffef, 27), (0x7fffff0, 27), (0x3ffffee, 26)]"

definition encoding_rows_256 :: "symbol list" where
  "encoding_rows_256 = [(0x3fffffff, 30)]"

definition encoding_chunks :: "symbol list list" where
  "encoding_chunks =
    [encoding_rows_0, encoding_rows_16, encoding_rows_32, encoding_rows_48,
     encoding_rows_64, encoding_rows_80, encoding_rows_96, encoding_rows_112,
     encoding_rows_128, encoding_rows_144, encoding_rows_160, encoding_rows_176,
     encoding_rows_192, encoding_rows_208, encoding_rows_224, encoding_rows_240,
     encoding_rows_256]"

definition encoding_table :: "symbol list" where
  "encoding_table = concat encoding_chunks"

section \<open>decode_generated.cpp\<close>

definition flag_accepted :: byte where "flag_accepted = 1"
definition flag_symbol :: byte where "flag_symbol = 2"
definition flag_failed :: byte where "flag_failed = 4"

lemmas flag_defs = flag_accepted_def flag_symbol_def flag_failed_def

datatype node = Node (node_state: byte) (node_flags: byte) (node_symbol: byte)

text \<open>The rows of the table, eight states at a time.\<close>

definition decoding_rows_0 :: "node list list" where
  "decoding_rows_0 =
    [[Node 4 0 0, Node 5 0 0, Node 7 0 0, Node 8 0 0, Node 11 0 0, Node 12 0 0, Node 16 0 0, Node 19 0 0,
        Node 25 0 0, Node 28 0 0, Node 32 0 0, Node 35 0 0, Node 42 0 0, Node 49 0 0, Node 57 0 0, Node 64 1 0],
     [Node 0 3 48, Node 0 3 49, Node 0 3 50, Node 0 3 97, Node 0 3 99, Node 0 3 101, Node 0 3 105, Node 0 3 111,
        Node 0 3 115, Node 0 3 116, Node 13 0 0, Node 14 0 0, Node 17 0 0, Node 18 0 0, Node 20 0 0, Node 21 0 0],
     [Node 1 2 48, Node 22 3 48, Node 1 2 49, Node 22 3 49, Node 1 2 50, Node 22 3 50, Node 1 2 97, Node 22 3 97,
        Node 1 2 99, Node 22 3 99, Node 1 2 101, Node 22 3 101, Node 1 2 105, Node 22 3 105, Node 1 2 111, Node 22 3 111],
     [Node 2 2 48, Node 9 2 48, Node 23 2 48, Node 40 3 48, Node 2 2 49, Node 9 2 49, Node 23 2 49, Node 40 3 49,
        Node 2 2 50, Node 9 2 50, Node 23 2 50, Node 40 3 50, Node 2 2 97, Node 9 2 97, Node 23 2 97, Node 40 3 97],
     [Node 3 2 48, Node 6 2 48, Node 10 2 48, Node 15 2 48, Node 24 2 48, Node 31 2 48, Node 41 2 48, Node 56 3 48,
        Node 3 2 49, Node 6 2 49, Node 10 2 49, Node 15 2 49, Node 24 2 49, Node 31 2 49, Node 41 2 49, Node 56 3 49],
     [Node 3 2 50, Node 6 2 50, Node 10 2 50, Node 15 2 50, Node 24 2 50, Node 31 2 50, Node 41 2 50, Node 56 3 50,
        Node 3 2 97, Node 6 2 97, Node 10 2 97, Node 15 2 97, Node 24 2 97, Node 31 2 97, Node 41 2 97, Node 56 3 97],
     [Node 2 2 99, Node 9 2 99, Node 23 2 99, Node 40 3 99, Node 2 2 101, Node 9 2 101, Node 23 2 101, Node 40 3 101,
        Node 2 2 105, Node 9 2 105, Node 23 2 105, Node 40 3 105, Node 2 2 111, Node 9 2 111, Node 23 2 111, Node 40 3 111],
     [Node 3 2 99, Node 6 2 99, Node 10 2 99, Node 15 2 99, Node 24 2 99, Node 31 2 99, Node 41 2 99, Node 56 3 99,
        Node 3 2 101, Node 6 2 101, Node 10 2 101, Node 15 2 101, Node 24 2 101, Node 31 2 101, Node 41 2 101, Node 56 3 101]]"

definition decoding_rows_8 :: "node list list" where
  "decoding_rows_8 =
    [[Node 3 2 105, Node 6 2 105, Node 10 2 105, Node 15 2 105, Node 24 2 105, Node 31 2 105, Node 41 2 105, Node 56 3 105,
        Node 3 2 111, Node 6 2 111, Node 10 2 111, Node 15 2 111, Node 24 2 111, Node 31 2 111, Node 41 2 111, Node 56 3 111],
     [Node 1 2 115, Node 22 3 115, Node 1 2 116, Node 22 3 116, Node 0 3 32, Node 0 3 37, Node 0 3 45, Node 0 3 46,
        Node 0 3 47, Node 0 3 51, Node 0 3 52, Node 0 3 53, Node 0 3 54, Node 0 3 55, Node 0 3 56, Node 0 3 57],
     [Node 2 2 115, Node 9 2 115, Node 23 2 115, Node 40 3 115, Node 2 2 116, Node 9 2 116, Node 23 2 116, Node 40 3 116,
        Node 1 2 32, Node 22 3 32, Node 1 2 37, Node 22 3 37, Node 1 2 45, Node 22 3 45, Node 1 2 46, Node 22 3 46],
     [Node 3 2 115, Node 6 2 115, Node 10 2 115, Node 15 2 115, Node 24 2 115, Node 31 2 115, Node 41 2 115, Node 56 3 115,
        Node 3 2 116, Node 6 2 116, Node 10 2 116, Node 15 2 116, Node 24 2 116, Node 31 2 116, Node 41 2 116, Node 56 3 116],
     [Node 2 2 32, Node 9 2 32, Node 23 2 32, Node 40 3 32, Node 2 2 37, Node 9 2 37, Node 23 2 37, Node 40 3 37,
        Node 2 2 45, Node 9 2 45, Node 23 2 45, Node 40 3 45, Node 2 2 46, Node 9 2 46, Node 23 2 46, Node 40 3 46],
     [Node 3 2 32, Node 6 2 32, Node 10 2 32, Node 15 2 32, Node 24 2 32, Node 31 2 32, Node 41 2 32, Node 56 3 32,
        Node 3 2 37, Node 6 2 37, Node 10 2 37, Node 15 2 37, Node 24 2 37, Node 31 2 37, Node 41 2 37, Node 56 3 37],
     [Node 3 2 45, Node 6 2 45, Node 10 2 45, Node 15 2 45, Node 24 2 45, Node 31 2 45, Node 41 2 45, Node 56 3 45,
        Node 3 2 46, Node 6 2 46, Node 10 2 46, Node 15 2 46, Node 24 2 46, Node 31 2 46, Node 41 2 46, Node 56 3 46],
     [Node 1 2 47, Node 22 3 47, Node 1 2 51, Node 22 3 51, Node 1 2 52, Node 22 3 52, Node 1 2 53, Node 22 3 53,
        Node 1 2 54, Node 22 3 54, Node 1 2 55, Node 22 3 55, Node 1 2 56, Node 22 3 56, Node 1 2 57, Node 22 3 57]]"

definition decoding_rows_16 :: "node list list" where
  "decoding_rows_16 =
    [[Node 2 2 47, Node 9 2 47, Node 23 2 47, Node 40 3 47, Node 2 2 51, Node 9 2 51, Node 23 2 51, Node 40 3 51,
        Node 2 2 52, Node 9 2 52, Node 23 2 52, Node 40 3 52, Node 2 2 53, Node 9 2 53, Node 23 2 53, Node 40 3 53],
     [Node 3 2 47, Node 6 2 47, Node 10 2 47, Node 15 2 47, Node 24 2 47, Node 31 2 47, Node 41 2 47, Node 56 3 47,
        Node 3 2 51, Node 6 2 51, Node 10 2 51, Node 15 2 51, Node 24 2 51, Node 31 2 51, Node 41 2 51, Node 56 3 51],
     [Node 3 2 52, Node 6 2 52, Node 10 2 52, Node 15 2 52, Node 24 2 52, Node 31 2 52, Node 41 2 52, Node 56 3 52,
        Node 3 2 53, Node 6 2 53, Node 10 2 53, Node 15 2 53, Node 24 2 53, Node 31 2 53, Node 41 2 53, Node 56 3 53],
     [Node 2 2 54, Node 9 2 54, Node 23 2 54, Node 40 3 54, Node 2 2 55, Node 9 2 55, Node 23 2 55, Node 40 3 55,
        Node 2 2 56, Node 9 2 56, Node 23 2 56, Node 40 3 56, Node 2 2 57, Node 9 2 57, Node 23 2 57, Node 40 3 57],
     [Node 3 2 54, Node 6 2 54, Node 10 2 54, Node 15 2 54, Node 24 2 54, Node 31 2 54, Node 41 2 54, Node 56 3 54,
        Node 3 2 55, Node 6 2 55, Node 10 2 55, Node 15 2 55, Node 24 2 55, Node 31 2 55, Node 41 2 55, Node 56 3 55],
     [Node 3 2 56, Node 6 2 56, Node 10 2 56, Node 15 2 56, Node 24 2 56, Node 31 2 56, Node 41 2 56, Node 56 3 56,
        Node 3 2 57, Node 6 2 57, Node 10 2 57, Node 15 2 57, Node 24 2 57, Node 31 2 57, Node 41 2 57, Node 56 3 57],
     [Node 26 0 0, Node 27 0 0, Node 29 0 0, Node 30 0 0, Node 33 0 0, Node 34 0 0, Node 36 0 0, Node 37 0 0,
        Node 43 0 0, Node 46 0 0, Node 50 0 0, Node 53 0 0, Node 58 0 0, Node 61 0 0, Node 65 0 0, Node 68 1 0],
     [Node 0 3 61, Node 0 3 65, Node 0 3 95, Node 0 3 98, Node 0 3 100, Node 0 3 102, Node 0 3 103, Node 0 3 104,
        Node 0 3 108, Node 0 3 109, Node 0 3 110, Node 0 3 112, Node 0 3 114, Node 0 3 117, Node 38 0 0, Node 39 0 0]]"

definition decoding_rows_24 :: "node list list" where
  "decoding_rows_24 =
    [[Node 1 2 61, Node 22 3 61, Node 1 2 65, Node 22 3 65, Node 1 2 95, Node 22 3 95, Node 1 2 98, Node 22 3 98,
        Node 1 2 100, Node 22 3 100, Node 1 2 102, Node 22 3 102, Node 1 2 103, Node 22 3 103, Node 1 2 104, Node 22 3 104],
     [Node 2 2 61, Node 9 2 61, Node 23 2 61, Node 40 3 61, Node 2 2 65, Node 9 2 65, Node 23 2 65, Node 40 3 65,
        Node 2 2 95, Node 9 2 95, Node 23 2 95, Node 40 3 95, Node 2 2 98, Node 9 2 98, Node 23 2 98, Node 40 3 98],
     [Node 3 2 61, Node 6 2 61, Node 10 2 61, Node 15 2 61, Node 24 2 61, Node 31 2 61, Node 41 2 61, Node 56 3 61,
        Node 3 2 65, Node 6 2 65, Node 10 2 65, Node 15 2 65, Node 24 2 65, Node 31 2 65, Node 41 2 65, Node 56 3 65],
     [Node 3 2 95, Node 6 2 95, Node 10 2 95, Node 15 2 95, Node 24 2 95, Node 31 2 95, Node 41 2 95, Node 56 3 95,
        Node 3 2 98, Node 6 2 98, Node 10 2 98, Node 15 2 98, Node 24 2 98, Node 31 2 98, Node 41 2 98, Node 56 3 98],
     [Node 2 2 100, Node 9 2 100, Node 23 2 100, Node 40 3 100, Node 2 2 102, Node 9 2 102, Node 23 2 102, Node 40 3 102,
        Node 2 2 103, Node 9 2 103, Node 23 2 103, Node 40 3 103, Node 2 2 104, Node 9 2 104, Node 23 2 104, Node 40 3 104],
     [Node 3 2 100, Node 6 2 100, Node 10 2 100, Node 15 2 100, Node 24 2 100, Node 31 2 100, Node 41 2 100, Node 56 3 100,
        Node 3 2 102, Node 6 2 102, Node 10 2 102, Node 15 2 102, Node 24 2 102, Node 31 2 102, Node 41 2 102, Node 56 3 102],
     [Node 3 2 103, Node 6 2 103, Node 10 2 103, Node 15 2 103, Node 24 2 103, Node 31 2 103, Node 41 2 103, Node 56 3 103,
        Node 3 2 104, Node 6 2 104, Node 10 2 104, Node 15 2 104, Node 24 2 104, Node 31 2 104, Node 41 2 104, Node 56 3 104],
     [Node 1 2 108, Node 22 3 108, Node 1 2 109, Node 22 3 109, Node 1 2 110, Node 22 3 110, Node 1 2 112, Node 22 3 112,
        Node 1 2 114, Node 22 3 114, Node 1 2 117, Node 22 3 117, Node 0 3 58, Node 0 3 66, Node 0 3 67, Node 0 3 68]]"

definition decoding_rows_32 :: "node list list" where
  "decoding_rows_32 =
    [[Node 2 2 108, Node 9 2 108, Node 23 2 108, Node 40 3 108, Node 2 2 109, Node 9 2 109, Node 23 2 109, Node 40 3 109,
        Node 2 2 110, Node 9 2 110, Node 23 2 110, Node 40 3 110, Node 2 2 112, Node 9 2 112, Node 23 2 112, Node 40 3 112],
     [Node 3 2 108, Node 6 2 108, Node 10 2 108, Node 15 2 108, Node 24 2 108, Node 31 2 108, Node 41 2 108, Node 56 3 108,
        Node 3 2 109, Node 6 2 109, Node 10 2 109, Node 15 2 109, Node 24 2 109, Node 31 2 109, Node 41 2 109, Node 56 3 109],
     [Node 3 2 110, Node 6 2 110, Node 10 2 110, Node 15 2 110, Node 24 2 110, Node 31 2 110, Node 41 2 110, Node 56 3 110,
        Node 3 2 112, Node 6 2 112, Node 10 2 112, Node 15 2 112, Node 24 2 112, Node 31 2 112, Node 41 2 112, Node 56 3 112],
     [Node 2 2 114, Node 9 2 114, Node 23 2 114, Node 40 3 114, Node 2 2 117, Node 9 2 117, Node 23 2 117, Node 40 3 117,
        Node 1 2 58, Node 22 3 58, Node 1 2 66, Node 22 3 66, Node 1 2 67, Node 22 3 67, Node 1 2 68, Node 22 3 68],
     [Node 3 2 114, Node 6 2 114, Node 10 2 114, Node 15 2 114, Node 24 2 114, Node 31 2 114, Node 41 2 114, Node 56 3 114,
        Node 3 2 117, Node 6 2 117, Node 10 2 117, Node 15 2 117, Node 24 2 117, Node 31 2 117, Node 41 2 117, Node 56 3 117],
     [Node 2 2 58, Node 9 2 58, Node 23 2 58, Node 40 3 58, Node 2 2 66, Node 9 2 66, Node 23 2 66, Node 40 3 66,
        Node 2 2 67, Node 9 2 67, Node 23 2 67, Node 40 3 67, Node 2 2 68, Node 9 2 68, Node 23 2 68, Node 40 3 68],
     [Node 3 2 58, Node 6 2 58, Node 10 2 58, Node 15 2 58, Node 24 2 58, Node 31 2 58, Node 41 2 58, Node 56 3 58,
        Node 3 2 66, Node 6 2 66, Node 10 2 66, Node 15 2 66, Node 24 2 66, Node 31 2 66, Node 41 2 66, Node 56 3 66],
     [Node 3 2 67, Node 6 2 67, Node 10 2 67, Node 15 2 67, Node 24 2 67, Node 31 2 67, Node 41 2 67, Node 56 3 67,
        Node 3 2 68, Node 6 2 68, Node 10 2 68, Node 15 2 68, Node 24 2 68, Node 31 2 68, Node 41 2 68, Node 56 3 68]]"

definition decoding_rows_40 :: "node list list" where
  "decoding_rows_40 =
    [[Node 44 0 0, Node 45 0 0, Node 47 0 0, Node 48 0 0, Node 51 0 0, Node 52 0 0, Node 54 0 0, Node 55 0 0,
        Node 59 0 0, Node 60 0 0, Node 62 0 0, Node 63 0 0, Node 66 0 0, Node 67 0 0, Node 69 0 0, Node 72 1 0],
     [Node 0 3 69, Node 0 3 70, Node 0 3 71, Node 0 3 72, Node 0 3 73, Node 0 3 74, Node 0 3 75, Node 0 3 76,
        Node 0 3 77, Node 0 3 78, Node 0 3 79, Node 0 3 80, Node 0 3 81, Node 0 3 82, Node 0 3 83, Node 0 3 84],
     [Node 1 2 69, Node 22 3 69, Node 1 2 70, Node 22 3 70, Node 1 2 71, Node 22 3 71, Node 1 2 72, Node 22 3 72,
        Node 1 2 73, Node 22 3 73, Node 1 2 74, Node 22 3 74, Node 1 2 75, Node 22 3 75, Node 1 2 76, Node 22 3 76],
     [Node 2 2 69, Node 9 2 69, Node 23 2 69, Node 40 3 69, Node 2 2 70, Node 9 2 70, Node 23 2 70, Node 40 3 70,
        Node 2 2 71, Node 9 2 71, Node 23 2 71, Node 40 3 71, Node 2 2 72, Node 9 2 72, Node 23 2 72, Node 40 3 72],
     [Node 3 2 69, Node 6 2 69, Node 10 2 69, Node 15 2 69, Node 24 2 69, Node 31 2 69, Node 41 2 69, Node 56 3 69,
        Node 3 2 70, Node 6 2 70, Node 10 2 70, Node 15 2 70, Node 24 2 70, Node 31 2 70, Node 41 2 70, Node 56 3 70],
     [Node 3 2 71, Node 6 2 71, Node 10 2 71, Node 15 2 71, Node 24 2 71, Node 31 2 71, Node 41 2 71, Node 56 3 71,
        Node 3 2 72, Node 6 2 72, Node 10 2 72, Node 15 2 72, Node 24 2 72, Node 31 2 72, Node 41 2 72, Node 56 3 72],
     [Node 2 2 73, Node 9 2 73, Node 23 2 73, Node 40 3 73, Node 2 2 74, Node 9 2 74, Node 23 2 74, Node 40 3 74,
        Node 2 2 75, Node 9 2 75, Node 23 2 75, Node 40 3 75, Node 2 2 76, Node 9 2 76, Node 23 2 76, Node 40 3 76],
     [Node 3 2 73, Node 6 2 73, Node 10 2 73, Node 15 2 73, Node 24 2 73, Node 31 2 73, Node 41 2 73, Node 56 3 73,
        Node 3 2 74, Node 6 2 74, Node 10 2 74, Node 15 2 74, Node 24 2 74, Node 31 2 74, Node 41 2 74, Node 56 3 74]]"

definition decoding_rows_48 :: "node list list" where
  "decoding_rows_48 =
    [[Node 3 2 75, Node 6 2 75, Node 10 2 75, Node 15 2 75, Node 24 2 75, Node 31 2 75, Node 41 2 75, Node 56 3 75,
        Node 3 2 76, Node 6 2 76, Node 10 2 76, Node 15 2 76, Node 24 2 76, Node 31 2 76, Node 41 2 76, Node 56 3 76],
     [Node 1 2 77, Node 22 3 77, Node 1 2 78, Node 22 3 78, Node 1 2 79, Node 22 3 79, Node 1 2 80, Node 22 3 80,
        Node 1 2 81, Node 22 3 81, Node 1 2 82, Node 22 3 82, Node 1 2 83, Node 22 3 83, Node 1 2 84, Node 22 3 84],
     [Node 2 2 77, Node 9 2 77, Node 23 2 77, Node 40 3 77, Node 2 2 78, Node 9 2 78, Node 23 2 78, Node 40 3 78,
        Node 2 2 79, Node 9 2 79, Node 23 2 79, Node 40 3 79, Node 2 2 80, Node 9 2 80, Node 23 2 80, Node 40 3 80],
     [Node 3 2 77, Node 6 2 77, Node 10 2 77, Node 15 2 77, Node 24 2 77, Node 31 2 77, Node 41 2 77, Node 56 3 77,
        Node 3 2 78, Node 6 2 78, Node 10 2 78, Node 15 2 78, Node 24 2 78, Node 31 2 78, Node 41 2 78, Node 56 3 78],
     [Node 3 2 79, Node 6 2 79, Node 10 2 79, Node 15 2 79, Node 24 2 79, Node 31 2 79, Node 41 2 79, Node 56 3 79,
        Node 3 2 80, Node 6 2 80, Node 10 2 80, Node 15 2 80, Node 24 2 80, Node 31 2 80, Node 41 2 80, Node 56 3 80],
     [Node 2 2 81, Node 9 2 81, Node 23 2 81, Node 40 3 81, Node 2 2 82, Node 9 2 82, Node 23 2 82, Node 40 3 82,
        Node 2 2 83, Node 9 2 83, Node 23 2 83, Node 40 3 83, Node 2 2 84, Node 9 2 84, Node 23 2 84, Node 40 3 84],
     [Node 3 2 81, Node 6 2 81, Node 10 2 81, Node 15 2 81, Node 24 2 81, Node 31 2 81, Node 41 2 81, Node 56 3 81,
        Node 3 2 82, Node 6 2 82, Node 10 2 82, Node 15 2 82, Node 24 2 82, Node 31 2 82, Node 41 2 82, Node 56 3 82],
     [Node 3 2 83, Node 6 2 83, Node 10 2 83, Node 15 2 83, Node 24 2 83, Node 31 2 83, Node 41 2 83, Node 56 3 83,
        Node 3 2 84, Node 6 2 84, Node 10 2 84, Node 15 2 84, Node 24 2 84, Node 31 2 84, Node 41 2 84, Node 56 3 84]]"

definition decoding_rows_56 :: "node list list" where
  "decoding_rows_56 =
    [[Node 0 3 85, Node 0 3 86, Node 0 3 87, Node 0 3 89, Node 0 3 106, Node 0 3 107, Node 0 3 113, Node 0 3 118,
        Node 0 3 119, Node 0 3 120, Node 0 3 121, Node 0 3 122, Node 70 0 0, Node 71 0 0, Node 73 0 0, Node 74 1 0],
     [Node 1 2 85, Node 22 3 85, Node 1 2 86, Node 22 3 86, Node 1 2 87, Node 22 3 87, Node 1 2 89, Node 22 3 89,
        Node 1 2 106, Node 22 3 106, Node 1 2 107, Node 22 3 107, Node 1 2 113, Node 22 3 113, Node 1 2 118, Node 22 3 118],
     [Node 2 2 85, Node 9 2 85, Node 23 2 85, Node 40 3 85, Node 2 2 86, Node 9 2 86, Node 23 2 86, Node 40 3 86,
        Node 2 2 87, Node 9 2 87, Node 23 2 87, Node 40 3 87, Node 2 2 89, Node 9 2 89, Node 23 2 89, Node 40 3 89],
     [Node 3 2 85, Node 6 2 85, Node 10 2 85, Node 15 2 85, Node 24 2 85, Node 31 2 85, Node 41 2 85, Node 56 3 85,
        Node 3 2 86, Node 6 2 86, Node 10 2 86, Node 15 2 86, Node 24 2 86, Node 31 2 86, Node 41 2 86, Node 56 3 86],
     [Node 3 2 87, Node 6 2 87, Node 10 2 87, Node 15 2 87, Node 24 2 87, Node 31 2 87, Node 41 2 87, Node 56 3 87,
        Node 3 2 89, Node 6 2 89, Node 10 2 89, Node 15 2 89, Node 24 2 89, Node 31 2 89, Node 41 2 89, Node 56 3 89],
     [Node 2 2 106, Node 9 2 106, Node 23 2 106, Node 40 3 106, Node 2 2 107, Node 9 2 107, Node 23 2 107, Node 40 3 107,
        Node 2 2 113, Node 9 2 113, Node 23 2 113, Node 40 3 113, Node 2 2 118, Node 9 2 118, Node 23 2 118, Node 40 3 118],
     [Node 3 2 106, Node 6 2 106, Node 10 2 106, Node 15 2 106, Node 24 2 106, Node 31 2 106, Node 41 2 106, Node 56 3 106,
        Node 3 2 107, Node 6 2 107, Node 10 2 107, Node 15 2 107, Node 24 2 107, Node 31 2 107, Node 41 2 107, Node 56 3 107],
     [Node 3 2 113, Node 6 2 113, Node 10 2 113, Node 15 2 113, Node 24 2 113, Node 31 2 113, Node 41 2 113, Node 56 3 113,
        Node 3 2 118, Node 6 2 118, Node 10 2 118, Node 15 2 118, Node 24 2 118, Node 31 2 118, Node 41 2 118, Node 56 3 118]]"

definition decoding_rows_64 :: "node list list" where
  "decoding_rows_64 =
    [[Node 1 2 119, Node 22 3 119, Node 1 2 120, Node 22 3 120, Node 1 2 121, Node 22 3 121, Node 1 2 122, Node 22 3 122,
        Node 0 3 38, Node 0 3 42, Node 0 3 44, Node 0 3 59, Node 0 3 88, Node 0 3 90, Node 75 0 0, Node 78 0 0],
     [Node 2 2 119, Node 9 2 119, Node 23 2 119, Node 40 3 119, Node 2 2 120, Node 9 2 120, Node 23 2 120, Node 40 3 120,
        Node 2 2 121, Node 9 2 121, Node 23 2 121, Node 40 3 121, Node 2 2 122, Node 9 2 122, Node 23 2 122, Node 40 3 122],
     [Node 3 2 119, Node 6 2 119, Node 10 2 119, Node 15 2 119, Node 24 2 119, Node 31 2 119, Node 41 2 119, Node 56 3 119,
        Node 3 2 120, Node 6 2 120, Node 10 2 120, Node 15 2 120, Node 24 2 120, Node 31 2 120, Node 41 2 120, Node 56 3 120],
     [Node 3 2 121, Node 6 2 121, Node 10 2 121, Node 15 2 121, Node 24 2 121, Node 31 2 121, Node 41 2 121, Node 56 3 121,
        Node 3 2 122, Node 6 2 122, Node 10 2 122, Node 15 2 122, Node 24 2 122, Node 31 2 122, Node 41 2 122, Node 56 3 122],
     [Node 1 2 38, Node 22 3 38, Node 1 2 42, Node 22 3 42, Node 1 2 44, Node 22 3 44, Node 1 2 59, Node 22 3 59,
        Node 1 2 88, Node 22 3 88, Node 1 2 90, Node 22 3 90, Node 76 0 0, Node 77 0 0, Node 79 0 0, Node 81 0 0],
     [Node 2 2 38, Node 9 2 38, Node 23 2 38, Node 40 3 38, Node 2 2 42, Node 9 2 42, Node 23 2 42, Node 40 3 42,
        Node 2 2 44, Node 9 2 44, Node 23 2 44, Node 40 3 44, Node 2 2 59, Node 9 2 59, Node 23 2 59, Node 40 3 59],
     [Node 3 2 38, Node 6 2 38, Node 10 2 38, Node 15 2 38, Node 24 2 38, Node 31 2 38, Node 41 2 38, Node 56 3 38,
        Node 3 2 42, Node 6 2 42, Node 10 2 42, Node 15 2 42, Node 24 2 42, Node 31 2 42, Node 41 2 42, Node 56 3 42],
     [Node 3 2 44, Node 6 2 44, Node 10 2 44, Node 15 2 44, Node 24 2 44, Node 31 2 44, Node 41 2 44, Node 56 3 44,
        Node 3 2 59, Node 6 2 59, Node 10 2 59, Node 15 2 59, Node 24 2 59, Node 31 2 59, Node 41 2 59, Node 56 3 59]]"

definition decoding_rows_72 :: "node list list" where
  "decoding_rows_72 =
    [[Node 2 2 88, Node 9 2 88, Node 23 2 88, Node 40 3 88, Node 2 2 90, Node 9 2 90, Node 23 2 90, Node 40 3 90,
        Node 0 3 33, Node 0 3 34, Node 0 3 40, Node 0 3 41, Node 0 3 63, Node 80 0 0, Node 82 0 0, Node 84 0 0],
     [Node 3 2 88, Node 6 2 88, Node 10 2 88, Node 15 2 88, Node 24 2 88, Node 31 2 88, Node 41 2 88, Node 56 3 88,
        Node 3 2 90, Node 6 2 90, Node 10 2 90, Node 15 2 90, Node 24 2 90, Node 31 2 90, Node 41 2 90, Node 56 3 90],
     [Node 1 2 33, Node 22 3 33, Node 1 2 34, Node 22 3 34, Node 1 2 40, Node 22 3 40, Node 1 2 41, Node 22 3 41,
        Node 1 2 63, Node 22 3 63, Node 0 3 39, Node 0 3 43, Node 0 3 124, Node 83 0 0, Node 85 0 0, Node 88 0 0],
     [Node 2 2 33, Node 9 2 33, Node 23 2 33, Node 40 3 33, Node 2 2 34, Node 9 2 34, Node 23 2 34, Node 40 3 34,
        Node 2 2 40, Node 9 2 40, Node 23 2 40, Node 40 3 40, Node 2 2 41, Node 9 2 41, Node 23 2 41, Node 40 3 41],
     [Node 3 2 33, Node 6 2 33, Node 10 2 33, Node 15 2 33, Node 24 2 33, Node 31 2 33, Node 41 2 33, Node 56 3 33,
        Node 3 2 34, Node 6 2 34, Node 10 2 34, Node 15 2 34, Node 24 2 34, Node 31 2 34, Node 41 2 34, Node 56 3 34],
     [Node 3 2 40, Node 6 2 40, Node 10 2 40, Node 15 2 40, Node 24 2 40, Node 31 2 40, Node 41 2 40, Node 56 3 40,
        Node 3 2 41, Node 6 2 41, Node 10 2 41, Node 15 2 41, Node 24 2 41, Node 31 2 41, Node 41 2 41, Node 56 3 41],
     [Node 2 2 63, Node 9 2 63, Node 23 2 63, Node 40 3 63, Node 1 2 39, Node 22 3 39, Node 1 2 43, Node 22 3 43,
        Node 1 2 124, Node 22 3 124, Node 0 3 35, Node 0 3 62, Node 86 0 0, Node 87 0 0, Node 89 0 0, Node 90 0 0],
     [Node 3 2 63, Node 6 2 63, Node 10 2 63, Node 15 2 63, Node 24 2 63, Node 31 2 63, Node 41 2 63, Node 56 3 63,
        Node 2 2 39, Node 9 2 39, Node 23 2 39, Node 40 3 39, Node 2 2 43, Node 9 2 43, Node 23 2 43, Node 40 3 43]]"

definition decoding_rows_80 :: "node list list" where
  "decoding_rows_80 =
    [[Node 3 2 39, Node 6 2 39, Node 10 2 39, Node 15 2 39, Node 24 2 39, Node 31 2 39, Node 41 2 39, Node 56 3 39,
        Node 3 2 43, Node 6 2 43, Node 10 2 43, Node 15 2 43, Node 24 2 43, Node 31 2 43, Node 41 2 43, Node 56 3 43],
     [Node 2 2 124, Node 9 2 124, Node 23 2 124, Node 40 3 124, Node 1 2 35, Node 22 3 35, Node 1 2 62, Node 22 3 62,
        Node 0 3 0, Node 0 3 36, Node 0 3 64, Node 0 3 91, Node 0 3 93, Node 0 3 126, Node 91 0 0, Node 92 0 0],
     [Node 3 2 124, Node 6 2 124, Node 10 2 124, Node 15 2 124, Node 24 2 124, Node 31 2 124, Node 41 2 124, Node 56 3 124,
        Node 2 2 35, Node 9 2 35, Node 23 2 35, Node 40 3 35, Node 2 2 62, Node 9 2 62, Node 23 2 62, Node 40 3 62],
     [Node 3 2 35, Node 6 2 35, Node 10 2 35, Node 15 2 35, Node 24 2 35, Node 31 2 35, Node 41 2 35, Node 56 3 35,
        Node 3 2 62, Node 6 2 62, Node 10 2 62, Node 15 2 62, Node 24 2 62, Node 31 2 62, Node 41 2 62, Node 56 3 62],
     [Node 1 2 0, Node 22 3 0, Node 1 2 36, Node 22 3 36, Node 1 2 64, Node 22 3 64, Node 1 2 91, Node 22 3 91,
        Node 1 2 93, Node 22 3 93, Node 1 2 126, Node 22 3 126, Node 0 3 94, Node 0 3 125, Node 93 0 0, Node 94 0 0],
     [Node 2 2 0, Node 9 2 0, Node 23 2 0, Node 40 3 0, Node 2 2 36, Node 9 2 36, Node 23 2 36, Node 40 3 36,
        Node 2 2 64, Node 9 2 64, Node 23 2 64, Node 40 3 64, Node 2 2 91, Node 9 2 91, Node 23 2 91, Node 40 3 91],
     [Node 3 2 0, Node 6 2 0, Node 10 2 0, Node 15 2 0, Node 24 2 0, Node 31 2 0, Node 41 2 0, Node 56 3 0,
        Node 3 2 36, Node 6 2 36, Node 10 2 36, Node 15 2 36, Node 24 2 36, Node 31 2 36, Node 41 2 36, Node 56 3 36],
     [Node 3 2 64, Node 6 2 64, Node 10 2 64, Node 15 2 64, Node 24 2 64, Node 31 2 64, Node 41 2 64, Node 56 3 64,
        Node 3 2 91, Node 6 2 91, Node 10 2 91, Node 15 2 91, Node 24 2 91, Node 31 2 91, Node 41 2 91, Node 56 3 91]]"

definition decoding_rows_88 :: "node list list" where
  "decoding_rows_88 =
    [[Node 2 2 93, Node 9 2 93, Node 23 2 93, Node 40 3 93, Node 2 2 126, Node 9 2 126, Node 23 2 126, Node 40 3 126,
        Node 1 2 94, Node 22 3 94, Node 1 2 125, Node 22 3 125, Node 0 3 60, Node 0 3 96, Node 0 3 123, Node 95 0 0],
     [Node 3 2 93, Node 6 2 93, Node 10 2 93, Node 15 2 93, Node 24 2 93, Node 31 2 93, Node 41 2 93, Node 56 3 93,
        Node 3 2 126, Node 6 2 126, Node 10 2 126, Node 15 2 126, Node 24 2 126, Node 31 2 126, Node 41 2 126, Node 56 3 126],
     [Node 2 2 94, Node 9 2 94, Node 23 2 94, Node 40 3 94, Node 2 2 125, Node 9 2 125, Node 23 2 125, Node 40 3 125,
        Node 1 2 60, Node 22 3 60, Node 1 2 96, Node 22 3 96, Node 1 2 123, Node 22 3 123, Node 96 0 0, Node 110 0 0],
     [Node 3 2 94, Node 6 2 94, Node 10 2 94, Node 15 2 94, Node 24 2 94, Node 31 2 94, Node 41 2 94, Node 56 3 94,
        Node 3 2 125, Node 6 2 125, Node 10 2 125, Node 15 2 125, Node 24 2 125, Node 31 2 125, Node 41 2 125, Node 56 3 125],
     [Node 2 2 60, Node 9 2 60, Node 23 2 60, Node 40 3 60, Node 2 2 96, Node 9 2 96, Node 23 2 96, Node 40 3 96,
        Node 2 2 123, Node 9 2 123, Node 23 2 123, Node 40 3 123, Node 97 0 0, Node 101 0 0, Node 111 0 0, Node 133 0 0],
     [Node 3 2 60, Node 6 2 60, Node 10 2 60, Node 15 2 60, Node 24 2 60, Node 31 2 60, Node 41 2 60, Node 56 3 60,
        Node 3 2 96, Node 6 2 96, Node 10 2 96, Node 15 2 96, Node 24 2 96, Node 31 2 96, Node 41 2 96, Node 56 3 96],
     [Node 3 2 123, Node 6 2 123, Node 10 2 123, Node 15 2 123, Node 24 2 123, Node 31 2 123, Node 41 2 123, Node 56 3 123,
        Node 98 0 0, Node 99 0 0, Node 102 0 0, Node 105 0 0, Node 112 0 0, Node 119 0 0, Node 134 0 0, Node 153 0 0],
     [Node 0 3 92, Node 0 3 195, Node 0 3 208, Node 100 0 0, Node 103 0 0, Node 104 0 0, Node 106 0 0, Node 107 0 0,
        Node 113 0 0, Node 116 0 0, Node 120 0 0, Node 126 0 0, Node 135 0 0, Node 142 0 0, Node 154 0 0, Node 169 0 0]]"

definition decoding_rows_96 :: "node list list" where
  "decoding_rows_96 =
    [[Node 1 2 92, Node 22 3 92, Node 1 2 195, Node 22 3 195, Node 1 2 208, Node 22 3 208, Node 0 3 128, Node 0 3 130,
        Node 0 3 131, Node 0 3 162, Node 0 3 184, Node 0 3 194, Node 0 3 224, Node 0 3 226, Node 108 0 0, Node 109 0 0],
     [Node 2 2 92, Node 9 2 92, Node 23 2 92, Node 40 3 92, Node 2 2 195, Node 9 2 195, Node 23 2 195, Node 40 3 195,
        Node 2 2 208, Node 9 2 208, Node 23 2 208, Node 40 3 208, Node 1 2 128, Node 22 3 128, Node 1 2 130, Node 22 3 130],
     [Node 3 2 92, Node 6 2 92, Node 10 2 92, Node 15 2 92, Node 24 2 92, Node 31 2 92, Node 41 2 92, Node 56 3 92,
        Node 3 2 195, Node 6 2 195, Node 10 2 195, Node 15 2 195, Node 24 2 195, Node 31 2 195, Node 41 2 195, Node 56 3 195],
     [Node 3 2 208, Node 6 2 208, Node 10 2 208, Node 15 2 208, Node 24 2 208, Node 31 2 208, Node 41 2 208, Node 56 3 208,
        Node 2 2 128, Node 9 2 128, Node 23 2 128, Node 40 3 128, Node 2 2 130, Node 9 2 130, Node 23 2 130, Node 40 3 130],
     [Node 3 2 128, Node 6 2 128, Node 10 2 128, Node 15 2 128, Node 24 2 128, Node 31 2 128, Node 41 2 128, Node 56 3 128,
        Node 3 2 130, Node 6 2 130, Node 10 2 130, Node 15 2 130, Node 24 2 130, Node 31 2 130, Node 41 2 130, Node 56 3 130],
     [Node 1 2 131, Node 22 3 131, Node 1 2 162, Node 22 3 162, Node 1 2 184, Node 22 3 184, Node 1 2 194, Node 22 3 194,
        Node 1 2 224, Node 22 3 224, Node 1 2 226, Node 22 3 226, Node 0 3 153, Node 0 3 161, Node 0 3 167, Node 0 3 172],
     [Node 2 2 131, Node 9 2 131, Node 23 2 131, Node 40 3 131, Node 2 2 162, Node 9 2 162, Node 23 2 162, Node 40 3 162,
        Node 2 2 184, Node 9 2 184, Node 23 2 184, Node 40 3 184, Node 2 2 194, Node 9 2 194, Node 23 2 194, Node 40 3 194],
     [Node 3 2 131, Node 6 2 131, Node 10 2 131, Node 15 2 131, Node 24 2 131, Node 31 2 131, Node 41 2 131, Node 56 3 131,
        Node 3 2 162, Node 6 2 162, Node 10 2 162, Node 15 2 162, Node 24 2 162, Node 31 2 162, Node 41 2 162, Node 56 3 162]]"

definition decoding_rows_104 :: "node list list" where
  "decoding_rows_104 =
    [[Node 3 2 184, Node 6 2 184, Node 10 2 184, Node 15 2 184, Node 24 2 184, Node 31 2 184, Node 41 2 184, Node 56 3 184,
        Node 3 2 194, Node 6 2 194, Node 10 2 194, Node 15 2 194, Node 24 2 194, Node 31 2 194, Node 41 2 194, Node 56 3 194],
     [Node 2 2 224, Node 9 2 224, Node 23 2 224, Node 40 3 224, Node 2 2 226, Node 9 2 226, Node 23 2 226, Node 40 3 226,
        Node 1 2 153, Node 22 3 153, Node 1 2 161, Node 22 3 161, Node 1 2 167, Node 22 3 167, Node 1 2 172, Node 22 3 172],
     [Node 3 2 224, Node 6 2 224, Node 10 2 224, Node 15 2 224, Node 24 2 224, Node 31 2 224, Node 41 2 224, Node 56 3 224,
        Node 3 2 226, Node 6 2 226, Node 10 2 226, Node 15 2 226, Node 24 2 226, Node 31 2 226, Node 41 2 226, Node 56 3 226],
     [Node 2 2 153, Node 9 2 153, Node 23 2 153, Node 40 3 153, Node 2 2 161, Node 9 2 161, Node 23 2 161, Node 40 3 161,
        Node 2 2 167, Node 9 2 167, Node 23 2 167, Node 40 3 167, Node 2 2 172, Node 9 2 172, Node 23 2 172, Node 40 3 172],
     [Node 3 2 153, Node 6 2 153, Node 10 2 153, Node 15 2 153, Node 24 2 153, Node 31 2 153, Node 41 2 153, Node 56 3 153,
        Node 3 2 161, Node 6 2 161, Node 10 2 161, Node 15 2 161, Node 24 2 161, Node 31 2 161, Node 41 2 161, Node 56 3 161],
     [Node 3 2 167, Node 6 2 167, Node 10 2 167, Node 15 2 167, Node 24 2 167, Node 31 2 167, Node 41 2 167, Node 56 3 167,
        Node 3 2 172, Node 6 2 172, Node 10 2 172, Node 15 2 172, Node 24 2 172, Node 31 2 172, Node 41 2 172, Node 56 3 172],
     [Node 114 0 0, Node 115 0 0, Node 117 0 0, Node 118 0 0, Node 121 0 0, Node 123 0 0, Node 127 0 0, Node 130 0 0,
        Node 136 0 0, Node 139 0 0, Node 143 0 0, Node 146 0 0, Node 155 0 0, Node 162 0 0, Node 170 0 0, Node 180 0 0],
     [Node 0 3 176, Node 0 3 177, Node 0 3 179, Node 0 3 209, Node 0 3 216, Node 0 3 217, Node 0 3 227, Node 0 3 229,
        Node 0 3 230, Node 122 0 0, Node 124 0 0, Node 125 0 0, Node 128 0 0, Node 129 0 0, Node 131 0 0, Node 132 0 0]]"

definition decoding_rows_112 :: "node list list" where
  "decoding_rows_112 =
    [[Node 1 2 176, Node 22 3 176, Node 1 2 177, Node 22 3 177, Node 1 2 179, Node 22 3 179, Node 1 2 209, Node 22 3 209,
        Node 1 2 216, Node 22 3 216, Node 1 2 217, Node 22 3 217, Node 1 2 227, Node 22 3 227, Node 1 2 229, Node 22 3 229],
     [Node 2 2 176, Node 9 2 176, Node 23 2 176, Node 40 3 176, Node 2 2 177, Node 9 2 177, Node 23 2 177, Node 40 3 177,
        Node 2 2 179, Node 9 2 179, Node 23 2 179, Node 40 3 179, Node 2 2 209, Node 9 2 209, Node 23 2 209, Node 40 3 209],
     [Node 3 2 176, Node 6 2 176, Node 10 2 176, Node 15 2 176, Node 24 2 176, Node 31 2 176, Node 41 2 176, Node 56 3 176,
        Node 3 2 177, Node 6 2 177, Node 10 2 177, Node 15 2 177, Node 24 2 177, Node 31 2 177, Node 41 2 177, Node 56 3 177],
     [Node 3 2 179, Node 6 2 179, Node 10 2 179, Node 15 2 179, Node 24 2 179, Node 31 2 179, Node 41 2 179, Node 56 3 179,
        Node 3 2 209, Node 6 2 209, Node 10 2 209, Node 15 2 209, Node 24 2 209, Node 31 2 209, Node 41 2 209, Node 56 3 209],
     [Node 2 2 216, Node 9 2 216, Node 23 2 216, Node 40 3 216, Node 2 2 217, Node 9 2 217, Node 23 2 217, Node 40 3 217,
        Node 2 2 227, Node 9 2 227, Node 23 2 227, Node 40 3 227, Node 2 2 229, Node 9 2 229, Node 23 2 229, Node 40 3 229],
     [Node 3 2 216, Node 6 2 216, Node 10 2 216, Node 15 2 216, Node 24 2 216, Node 31 2 216, Node 41 2 216, Node 56 3 216,
        Node 3 2 217, Node 6 2 217, Node 10 2 217, Node 15 2 217, Node 24 2 217, Node 31 2 217, Node 41 2 217, Node 56 3 217],
     [Node 3 2 227, Node 6 2 227, Node 10 2 227, Node 15 2 227, Node 24 2 227, Node 31 2 227, Node 41 2 227, Node 56 3 227,
        Node 3 2 229, Node 6 2 229, Node 10 2 229, Node 15 2 229, Node 24 2 229, Node 31 2 229, Node 41 2 229, Node 56 3 229],
     [Node 1 2 230, Node 22 3 230, Node 0 3 129, Node 0 3 132, Node 0 3 133, Node 0 3 134, Node 0 3 136, Node 0 3 146,
        Node 0 3 154, Node 0 3 156, Node 0 3 160, Node 0 3 163, Node 0 3 164, Node 0 3 169, Node 0 3 170, Node 0 3 173]]"

definition decoding_rows_120 :: "node list list" where
  "decoding_rows_120 =
    [[Node 2 2 230, Node 9 2 230, Node 23 2 230, Node 40 3 230, Node 1 2 129, Node 22 3 129, Node 1 2 132, Node 22 3 132,
        Node 1 2 133, Node 22 3 133, Node 1 2 134, Node 22 3 134, Node 1 2 136, Node 22 3 136, Node 1 2 146, Node 22 3 146],
     [Node 3 2 230, Node 6 2 230, Node 10 2 230, Node 15 2 230, Node 24 2 230, Node 31 2 230, Node 41 2 230, Node 56 3 230,
        Node 2 2 129, Node 9 2 129, Node 23 2 129, Node 40 3 129, Node 2 2 132, Node 9 2 132, Node 23 2 132, Node 40 3 132],
     [Node 3 2 129, Node 6 2 129, Node 10 2 129, Node 15 2 129, Node 24 2 129, Node 31 2 129, Node 41 2 129, Node 56 3 129,
        Node 3 2 132, Node 6 2 132, Node 10 2 132, Node 15 2 132, Node 24 2 132, Node 31 2 132, Node 41 2 132, Node 56 3 132],
     [Node 2 2 133, Node 9 2 133, Node 23 2 133, Node 40 3 133, Node 2 2 134, Node 9 2 134, Node 23 2 134, Node 40 3 134,
        Node 2 2 136, Node 9 2 136, Node 23 2 136, Node 40 3 136, Node 2 2 146, Node 9 2 146, Node 23 2 146, Node 40 3 146],
     [Node 3 2 133, Node 6 2 133, Node 10 2 133, Node 15 2 133, Node 24 2 133, Node 31 2 133, Node 41 2 133, Node 56 3 133,
        Node 3 2 134, Node 6 2 134, Node 10 2 134, Node 15 2 134, Node 24 2 134, Node 31 2 134, Node 41 2 134, Node 56 3 134],
     [Node 3 2 136, Node 6 2 136, Node 10 2 136, Node 15 2 136, Node 24 2 136, Node 31 2 136, Node 41 2 136, Node 56 3 136,
        Node 3 2 146, Node 6 2 146, Node 10 2 146, Node 15 2 146, Node 24 2 146, Node 31 2 146, Node 41 2 146, Node 56 3 146],
     [Node 1 2 154, Node 22 3 154, Node 1 2 156, Node 22 3 156, Node 1 2 160, Node 22 3 160, Node 1 2 163, Node 22 3 163,
        Node 1 2 164, Node 22 3 164, Node 1 2 169, Node 22 3 169, Node 1 2 170, Node 22 3 170, Node 1 2 173, Node 22 3 173],
     [Node 2 2 154, Node 9 2 154, Node 23 2 154, Node 40 3 154, Node 2 2 156, Node 9 2 156, Node 23 2 156, Node 40 3 156,
        Node 2 2 160, Node 9 2 160, Node 23 2 160, Node 40 3 160, Node 2 2 163, Node 9 2 163, Node 23 2 163, Node 40 3 163]]"

definition decoding_rows_128 :: "node list list" where
  "decoding_rows_128 =
    [[Node 3 2 154, Node 6 2 154, Node 10 2 154, Node 15 2 154, Node 24 2 154, Node 31 2 154, Node 41 2 154, Node 56 3 154,
        Node 3 2 156, Node 6 2 156, Node 10 2 156, Node 15 2 156, Node 24 2 156, Node 31 2 156, Node 41 2 156, Node 56 3 156],
     [Node 3 2 160, Node 6 2 160, Node 10 2 160, Node 15 2 160, Node 24 2 160, Node 31 2 160, Node 41 2 160, Node 56 3 160,
        Node 3 2 163, Node 6 2 163, Node 10 2 163, Node 15 2 163, Node 24 2 163, Node 31 2 163, Node 41 2 163, Node 56 3 163],
     [Node 2 2 164, Node 9 2 164, Node 23 2 164, Node 40 3 164, Node 2 2 169, Node 9 2 169, Node 23 2 169, Node 40 3 169,
        Node 2 2 170, Node 9 2 170, Node 23 2 170, Node 40 3 170, Node 2 2 173, Node 9 2 173, Node 23 2 173, Node 40 3 173],
     [Node 3 2 164, Node 6 2 164, Node 10 2 164, Node 15 2 164, Node 24 2 164, Node 31 2 164, Node 41 2 164, Node 56 3 164,
        Node 3 2 169, Node 6 2 169, Node 10 2 169, Node 15 2 169, Node 24 2 169, Node 31 2 169, Node 41 2 169, Node 56 3 169],
     [Node 3 2 170, Node 6 2 170, Node 10 2 170, Node 15 2 170, Node 24 2 170, Node 31 2 170, Node 41 2 170, Node 56 3 170,
        Node 3 2 173, Node 6 2 173, Node 10 2 173, Node 15 2 173, Node 24 2 173, Node 31 2 173, Node 41 2 173, Node 56 3 173],
     [Node 137 0 0, Node 138 0 0, Node 140 0 0, Node 141 0 0, Node 144 0 0, Node 145 0 0, Node 147 0 0, Node 150 0 0,
        Node 156 0 0, Node 159 0 0, Node 163 0 0, Node 166 0 0, Node 171 0 0, Node 174 0 0, Node 181 0 0, Node 190 0 0],
     [Node 0 3 178, Node 0 3 181, Node 0 3 185, Node 0 3 186, Node 0 3 187, Node 0 3 189, Node 0 3 190, Node 0 3 196,
        Node 0 3 198, Node 0 3 228, Node 0 3 232, Node 0 3 233, Node 148 0 0, Node 149 0 0, Node 151 0 0, Node 152 0 0],
     [Node 1 2 178, Node 22 3 178, Node 1 2 181, Node 22 3 181, Node 1 2 185, Node 22 3 185, Node 1 2 186, Node 22 3 186,
        Node 1 2 187, Node 22 3 187, Node 1 2 189, Node 22 3 189, Node 1 2 190, Node 22 3 190, Node 1 2 196, Node 22 3 196]]"

definition decoding_rows_136 :: "node list list" where
  "decoding_rows_136 =
    [[Node 2 2 178, Node 9 2 178, Node 23 2 178, Node 40 3 178, Node 2 2 181, Node 9 2 181, Node 23 2 181, Node 40 3 181,
        Node 2 2 185, Node 9 2 185, Node 23 2 185, Node 40 3 185, Node 2 2 186, Node 9 2 186, Node 23 2 186, Node 40 3 186],
     [Node 3 2 178, Node 6 2 178, Node 10 2 178, Node 15 2 178, Node 24 2 178, Node 31 2 178, Node 41 2 178, Node 56 3 178,
        Node 3 2 181, Node 6 2 181, Node 10 2 181, Node 15 2 181, Node 24 2 181, Node 31 2 181, Node 41 2 181, Node 56 3 181],
     [Node 3 2 185, Node 6 2 185, Node 10 2 185, Node 15 2 185, Node 24 2 185, Node 31 2 185, Node 41 2 185, Node 56 3 185,
        Node 3 2 186, Node 6 2 186, Node 10 2 186, Node 15 2 186, Node 24 2 186, Node 31 2 186, Node 41 2 186, Node 56 3 186],
     [Node 2 2 187, Node 9 2 187, Node 23 2 187, Node 40 3 187, Node 2 2 189, Node 9 2 189, Node 23 2 189, Node 40 3 189,
        Node 2 2 190, Node 9 2 190, Node 23 2 190, Node 40 3 190, Node 2 2 196, Node 9 2 196, Node 23 2 196, Node 40 3 196],
     [Node 3 2 187, Node 6 2 187, Node 10 2 187, Node 15 2 187, Node 24 2 187, Node 31 2 187, Node 41 2 187, Node 56 3 187,
        Node 3 2 189, Node 6 2 189, Node 10 2 189, Node 15 2 189, Node 24 2 189, Node 31 2 189, Node 41 2 189, Node 56 3 189],
     [Node 3 2 190, Node 6 2 190, Node 10 2 190, Node 15 2 190, Node 24 2 190, Node 31 2 190, Node 41 2 190, Node 56 3 190,
        Node 3 2 196, Node 6 2 196, Node 10 2 196, Node 15 2 196, Node 24 2 196, Node 31 2 196, Node 41 2 196, Node 56 3 196],
     [Node 1 2 198, Node 22 3 198, Node 1 2 228, Node 22 3 228, Node 1 2 232, Node 22 3 232, Node 1 2 233, Node 22 3 233,
        Node 0 3 1, Node 0 3 135, Node 0 3 137, Node 0 3 138, Node 0 3 139, Node 0 3 140, Node 0 3 141, Node 0 3 143],
     [Node 2 2 198, Node 9 2 198, Node 23 2 198, Node 40 3 198, Node 2 2 228, Node 9 2 228, Node 23 2 228, Node 40 3 228,
        Node 2 2 232, Node 9 2 232, Node 23 2 232, Node 40 3 232, Node 2 2 233, Node 9 2 233, Node 23 2 233, Node 40 3 233]]"

definition decoding_rows_144 :: "node list list" where
  "decoding_rows_144 =
    [[Node 3 2 198, Node 6 2 198, Node 10 2 198, Node 15 2 198, Node 24 2 198, Node 31 2 198, Node 41 2 198, Node 56 3 198,
        Node 3 2 228, Node 6 2 228, Node 10 2 228, Node 15 2 228, Node 24 2 228, Node 31 2 228, Node 41 2 228, Node 56 3 228],
     [Node 3 2 232, Node 6 2 232, Node 10 2 232, Node 15 2 232, Node 24 2 232, Node 31 2 232, Node 41 2 232, Node 56 3 232,
        Node 3 2 233, Node 6 2 233, Node 10 2 233, Node 15 2 233, Node 24 2 233, Node 31 2 233, Node 41 2 233, Node 56 3 233],
     [Node 1 2 1, Node 22 3 1, Node 1 2 135, Node 22 3 135, Node 1 2 137, Node 22 3 137, Node 1 2 138, Node 22 3 138,
        Node 1 2 139, Node 22 3 139, Node 1 2 140, Node 22 3 140, Node 1 2 141, Node 22 3 141, Node 1 2 143, Node 22 3 143],
     [Node 2 2 1, Node 9 2 1, Node 23 2 1, Node 40 3 1, Node 2 2 135, Node 9 2 135, Node 23 2 135, Node 40 3 135,
        Node 2 2 137, Node 9 2 137, Node 23 2 137, Node 40 3 137, Node 2 2 138, Node 9 2 138, Node 23 2 138, Node 40 3 138],
     [Node 3 2 1, Node 6 2 1, Node 10 2 1, Node 15 2 1, Node 24 2 1, Node 31 2 1, Node 41 2 1, Node 56 3 1,
        Node 3 2 135, Node 6 2 135, Node 10 2 135, Node 15 2 135, Node 24 2 135, Node 31 2 135, Node 41 2 135, Node 56 3 135],
     [Node 3 2 137, Node 6 2 137, Node 10 2 137, Node 15 2 137, Node 24 2 137, Node 31 2 137, Node 41 2 137, Node 56 3 137,
        Node 3 2 138, Node 6 2 138, Node 10 2 138, Node 15 2 138, Node 24 2 138, Node 31 2 138, Node 41 2 138, Node 56 3 138],
     [Node 2 2 139, Node 9 2 139, Node 23 2 139, Node 40 3 139, Node 2 2 140, Node 9 2 140, Node 23 2 140, Node 40 3 140,
        Node 2 2 141, Node 9 2 141, Node 23 2 141, Node 40 3 141, Node 2 2 143, Node 9 2 143, Node 23 2 143, Node 40 3 143],
     [Node 3 2 139, Node 6 2 139, Node 10 2 139, Node 15 2 139, Node 24 2 139, Node 31 2 139, Node 41 2 139, Node 56 3 139,
        Node 3 2 140, Node 6 2 140, Node 10 2 140, Node 15 2 140, Node 24 2 140, Node 31 2 140, Node 41 2 140, Node 56 3 140]]"

definition decoding_rows_152 :: "node list list" where
  "decoding_rows_152 =
    [[Node 3 2 141, Node 6 2 141, Node 10 2 141, Node 15 2 141, Node 24 2 141, Node 31 2 141, Node 41 2 141, Node 56 3 141,
        Node 3 2 143, Node 6 2 143, Node 10 2 143, Node 15 2 143, Node 24 2 143, Node 31 2 143, Node 41 2 143, Node 56 3 143],
     [Node 157 0 0, Node 158 0 0, Node 160 0 0, Node 161 0 0, Node 164 0 0, Node 165 0 0, Node 167 0 0, Node 168 0 0,
        Node 172 0 0, Node 173 0 0, Node 175 0 0, Node 177 0 0, Node 182 0 0, Node 185 0 0, Node 191 0 0, Node 207 0 0],
     [Node 0 3 147, Node 0 3 149, Node 0 3 150, Node 0 3 151, Node 0 3 152, Node 0 3 155, Node 0 3 157, Node 0 3 158,
        Node 0 3 165, Node 0 3 166, Node 0 3 168, Node 0 3 174, Node 0 3 175, Node 0 3 180, Node 0 3 182, Node 0 3 183],
     [Node 1 2 147, Node 22 3 147, Node 1 2 149, Node 22 3 149, Node 1 2 150, Node 22 3 150, Node 1 2 151, Node 22 3 151,
        Node 1 2 152, Node 22 3 152, Node 1 2 155, Node 22 3 155, Node 1 2 157, Node 22 3 157, Node 1 2 158, Node 22 3 158],
     [Node 2 2 147, Node 9 2 147, Node 23 2 147, Node 40 3 147, Node 2 2 149, Node 9 2 149, Node 23 2 149, Node 40 3 149,
        Node 2 2 150, Node 9 2 150, Node 23 2 150, Node 40 3 150, Node 2 2 151, Node 9 2 151, Node 23 2 151, Node 40 3 151],
     [Node 3 2 147, Node 6 2 147, Node 10 2 147, Node 15 2 147, Node 24 2 147, Node 31 2 147, Node 41 2 147, Node 56 3 147,
        Node 3 2 149, Node 6 2 149, Node 10 2 149, Node 15 2 149, Node 24 2 149, Node 31 2 149, Node 41 2 149, Node 56 3 149],
     [Node 3 2 150, Node 6 2 150, Node 10 2 150, Node 15 2 150, Node 24 2 150, Node 31 2 150, Node 41 2 150, Node 56 3 150,
        Node 3 2 151, Node 6 2 151, Node 10 2 151, Node 15 2 151, Node 24 2 151, Node 31 2 151, Node 41 2 151, Node 56 3 151],
     [Node 2 2 152, Node 9 2 152, Node 23 2 152, Node 40 3 152, Node 2 2 155, Node 9 2 155, Node 23 2 155, Node 40 3 155,
        Node 2 2 157, Node 9 2 157, Node 23 2 157, Node 40 3 157, Node 2 2 158, Node 9 2 158, Node 23 2 158, Node 40 3 158]]"

definition decoding_rows_160 :: "node list list" where
  "decoding_rows_160 =
    [[Node 3 2 152, Node 6 2 152, Node 10 2 152, Node 15 2 152, Node 24 2 152, Node 31 2 152, Node 41 2 152, Node 56 3 152,
        Node 3 2 155, Node 6 2 155, Node 10 2 155, Node 15 2 155, Node 24 2 155, Node 31 2 155, Node 41 2 155, Node 56 3 155],
     [Node 3 2 157, Node 6 2 157, Node 10 2 157, Node 15 2 157, Node 24 2 157, Node 31 2 157, Node 41 2 157, Node 56 3 157,
        Node 3 2 158, Node 6 2 158, Node 10 2 158, Node 15 2 158, Node 24 2 158, Node 31 2 158, Node 41 2 158, Node 56 3 158],
     [Node 1 2 165, Node 22 3 165, Node 1 2 166, Node 22 3 166, Node 1 2 168, Node 22 3 168, Node 1 2 174, Node 22 3 174,
        Node 1 2 175, Node 22 3 175, Node 1 2 180, Node 22 3 180, Node 1 2 182, Node 22 3 182, Node 1 2 183, Node 22 3 183],
     [Node 2 2 165, Node 9 2 165, Node 23 2 165, Node 40 3 165, Node 2 2 166, Node 9 2 166, Node 23 2 166, Node 40 3 166,
        Node 2 2 168, Node 9 2 168, Node 23 2 168, Node 40 3 168, Node 2 2 174, Node 9 2 174, Node 23 2 174, Node 40 3 174],
     [Node 3 2 165, Node 6 2 165, Node 10 2 165, Node 15 2 165, Node 24 2 165, Node 31 2 165, Node 41 2 165, Node 56 3 165,
        Node 3 2 166, Node 6 2 166, Node 10 2 166, Node 15 2 166, Node 24 2 166, Node 31 2 166, Node 41 2 166, Node 56 3 166],
     [Node 3 2 168, Node 6 2 168, Node 10 2 168, Node 15 2 168, Node 24 2 168, Node 31 2 168, Node 41 2 168, Node 56 3 168,
        Node 3 2 174, Node 6 2 174, Node 10 2 174, Node 15 2 174, Node 24 2 174, Node 31 2 174, Node 41 2 174, Node 56 3 174],
     [Node 2 2 175, Node 9 2 175, Node 23 2 175, Node 40 3 175, Node 2 2 180, Node 9 2 180, Node 23 2 180, Node 40 3 180,
        Node 2 2 182, Node 9 2 182, Node 23 2 182, Node 40 3 182, Node 2 2 183, Node 9 2 183, Node 23 2 183, Node 40 3 183],
     [Node 3 2 175, Node 6 2 175, Node 10 2 175, Node 15 2 175, Node 24 2 175, Node 31 2 175, Node 41 2 175, Node 56 3 175,
        Node 3 2 180, Node 6 2 180, Node 10 2 180, Node 15 2 180, Node 24 2 180, Node 31 2 180, Node 41 2 180, Node 56 3 180]]"

definition decoding_rows_168 :: "node list list" where
  "decoding_rows_168 =
    [[Node 3 2 182, Node 6 2 182, Node 10 2 182, Node 15 2 182, Node 24 2 182, Node 31 2 182, Node 41 2 182, Node 56 3 182,
        Node 3 2 183, Node 6 2 183, Node 10 2 183, Node 15 2 183, Node 24 2 183, Node 31 2 183, Node 41 2 183, Node 56 3 183],
     [Node 0 3 188, Node 0 3 191, Node 0 3 197, Node 0 3 231, Node 0 3 239, Node 176 0 0, Node 178 0 0, Node 179 0 0,
        Node 183 0 0, Node 184 0 0, Node 186 0 0, Node 187 0 0, Node 192 0 0, Node 199 0 0, Node 208 0 0, Node 223 0 0],
     [Node 1 2 188, Node 22 3 188, Node 1 2 191, Node 22 3 191, Node 1 2 197, Node 22 3 197, Node 1 2 231, Node 22 3 231,
        Node 1 2 239, Node 22 3 239, Node 0 3 9, Node 0 3 142, Node 0 3 144, Node 0 3 145, Node 0 3 148, Node 0 3 159],
     [Node 2 2 188, Node 9 2 188, Node 23 2 188, Node 40 3 188, Node 2 2 191, Node 9 2 191, Node 23 2 191, Node 40 3 191,
        Node 2 2 197, Node 9 2 197, Node 23 2 197, Node 40 3 197, Node 2 2 231, Node 9 2 231, Node 23 2 231, Node 40 3 231],
     [Node 3 2 188, Node 6 2 188, Node 10 2 188, Node 15 2 188, Node 24 2 188, Node 31 2 188, Node 41 2 188, Node 56 3 188,
        Node 3 2 191, Node 6 2 191, Node 10 2 191, Node 15 2 191, Node 24 2 191, Node 31 2 191, Node 41 2 191, Node 56 3 191],
     [Node 3 2 197, Node 6 2 197, Node 10 2 197, Node 15 2 197, Node 24 2 197, Node 31 2 197, Node 41 2 197, Node 56 3 197,
        Node 3 2 231, Node 6 2 231, Node 10 2 231, Node 15 2 231, Node 24 2 231, Node 31 2 231, Node 41 2 231, Node 56 3 231],
     [Node 2 2 239, Node 9 2 239, Node 23 2 239, Node 40 3 239, Node 1 2 9, Node 22 3 9, Node 1 2 142, Node 22 3 142,
        Node 1 2 144, Node 22 3 144, Node 1 2 145, Node 22 3 145, Node 1 2 148, Node 22 3 148, Node 1 2 159, Node 22 3 159],
     [Node 3 2 239, Node 6 2 239, Node 10 2 239, Node 15 2 239, Node 24 2 239, Node 31 2 239, Node 41 2 239, Node 56 3 239,
        Node 2 2 9, Node 9 2 9, Node 23 2 9, Node 40 3 9, Node 2 2 142, Node 9 2 142, Node 23 2 142, Node 40 3 142]]"

definition decoding_rows_176 :: "node list list" where
  "decoding_rows_176 =
    [[Node 3 2 9, Node 6 2 9, Node 10 2 9, Node 15 2 9, Node 24 2 9, Node 31 2 9, Node 41 2 9, Node 56 3 9,
        Node 3 2 142, Node 6 2 142, Node 10 2 142, Node 15 2 142, Node 24 2 142, Node 31 2 142, Node 41 2 142, Node 56 3 142],
     [Node 2 2 144, Node 9 2 144, Node 23 2 144, Node 40 3 144, Node 2 2 145, Node 9 2 145, Node 23 2 145, Node 40 3 145,
        Node 2 2 148, Node 9 2 148, Node 23 2 148, Node 40 3 148, Node 2 2 159, Node 9 2 159, Node 23 2 159, Node 40 3 159],
     [Node 3 2 144, Node 6 2 144, Node 10 2 144, Node 15 2 144, Node 24 2 144, Node 31 2 144, Node 41 2 144, Node 56 3 144,
        Node 3 2 145, Node 6 2 145, Node 10 2 145, Node 15 2 145, Node 24 2 145, Node 31 2 145, Node 41 2 145, Node 56 3 145],
     [Node 3 2 148, Node 6 2 148, Node 10 2 148, Node 15 2 148, Node 24 2 148, Node 31 2 148, Node 41 2 148, Node 56 3 148,
        Node 3 2 159, Node 6 2 159, Node 10 2 159, Node 15 2 159, Node 24 2 159, Node 31 2 159, Node 41 2 159, Node 56 3 159],
     [Node 0 3 171, Node 0 3 206, Node 0 3 215, Node 0 3 225, Node 0 3 236, Node 0 3 237, Node 188 0 0, Node 189 0 0,
        Node 193 0 0, Node 196 0 0, Node 200 0 0, Node 203 0 0, Node 209 0 0, Node 216 0 0, Node 224 0 0, Node 238 0 0],
     [Node 1 2 171, Node 22 3 171, Node 1 2 206, Node 22 3 206, Node 1 2 215, Node 22 3 215, Node 1 2 225, Node 22 3 225,
        Node 1 2 236, Node 22 3 236, Node 1 2 237, Node 22 3 237, Node 0 3 199, Node 0 3 207, Node 0 3 234, Node 0 3 235],
     [Node 2 2 171, Node 9 2 171, Node 23 2 171, Node 40 3 171, Node 2 2 206, Node 9 2 206, Node 23 2 206, Node 40 3 206,
        Node 2 2 215, Node 9 2 215, Node 23 2 215, Node 40 3 215, Node 2 2 225, Node 9 2 225, Node 23 2 225, Node 40 3 225],
     [Node 3 2 171, Node 6 2 171, Node 10 2 171, Node 15 2 171, Node 24 2 171, Node 31 2 171, Node 41 2 171, Node 56 3 171,
        Node 3 2 206, Node 6 2 206, Node 10 2 206, Node 15 2 206, Node 24 2 206, Node 31 2 206, Node 41 2 206, Node 56 3 206]]"

definition decoding_rows_184 :: "node list list" where
  "decoding_rows_184 =
    [[Node 3 2 215, Node 6 2 215, Node 10 2 215, Node 15 2 215, Node 24 2 215, Node 31 2 215, Node 41 2 215, Node 56 3 215,
        Node 3 2 225, Node 6 2 225, Node 10 2 225, Node 15 2 225, Node 24 2 225, Node 31 2 225, Node 41 2 225, Node 56 3 225],
     [Node 2 2 236, Node 9 2 236, Node 23 2 236, Node 40 3 236, Node 2 2 237, Node 9 2 237, Node 23 2 237, Node 40 3 237,
        Node 1 2 199, Node 22 3 199, Node 1 2 207, Node 22 3 207, Node 1 2 234, Node 22 3 234, Node 1 2 235, Node 22 3 235],
     [Node 3 2 236, Node 6 2 236, Node 10 2 236, Node 15 2 236, Node 24 2 236, Node 31 2 236, Node 41 2 236, Node 56 3 236,
        Node 3 2 237, Node 6 2 237, Node 10 2 237, Node 15 2 237, Node 24 2 237, Node 31 2 237, Node 41 2 237, Node 56 3 237],
     [Node 2 2 199, Node 9 2 199, Node 23 2 199, Node 40 3 199, Node 2 2 207, Node 9 2 207, Node 23 2 207, Node 40 3 207,
        Node 2 2 234, Node 9 2 234, Node 23 2 234, Node 40 3 234, Node 2 2 235, Node 9 2 235, Node 23 2 235, Node 40 3 235],
     [Node 3 2 199, Node 6 2 199, Node 10 2 199, Node 15 2 199, Node 24 2 199, Node 31 2 199, Node 41 2 199, Node 56 3 199,
        Node 3 2 207, Node 6 2 207, Node 10 2 207, Node 15 2 207, Node 24 2 207, Node 31 2 207, Node 41 2 207, Node 56 3 207],
     [Node 3 2 234, Node 6 2 234, Node 10 2 234, Node 15 2 234, Node 24 2 234, Node 31 2 234, Node 41 2 234, Node 56 3 234,
        Node 3 2 235, Node 6 2 235, Node 10 2 235, Node 15 2 235, Node 24 2 235, Node 31 2 235, Node 41 2 235, Node 56 3 235],
     [Node 194 0 0, Node 195 0 0, Node 197 0 0, Node 198 0 0, Node 201 0 0, Node 202 0 0, Node 204 0 0, Node 205 0 0,
        Node 210 0 0, Node 213 0 0, Node 217 0 0, Node 220 0 0, Node 225 0 0, Node 231 0 0, Node 239 0 0, Node 246 0 0],
     [Node 0 3 192, Node 0 3 193, Node 0 3 200, Node 0 3 201, Node 0 3 202, Node 0 3 205, Node 0 3 210, Node 0 3 213,
        Node 0 3 218, Node 0 3 219, Node 0 3 238, Node 0 3 240, Node 0 3 242, Node 0 3 243, Node 0 3 255, Node 206 0 0]]"

definition decoding_rows_192 :: "node list list" where
  "decoding_rows_192 =
    [[Node 1 2 192, Node 22 3 192, Node 1 2 193, Node 22 3 193, Node 1 2 200, Node 22 3 200, Node 1 2 201, Node 22 3 201,
        Node 1 2 202, Node 22 3 202, Node 1 2 205, Node 22 3 205, Node 1 2 210, Node 22 3 210, Node 1 2 213, Node 22 3 213],
     [Node 2 2 192, Node 9 2 192, Node 23 2 192, Node 40 3 192, Node 2 2 193, Node 9 2 193, Node 23 2 193, Node 40 3 193,
        Node 2 2 200, Node 9 2 200, Node 23 2 200, Node 40 3 200, Node 2 2 201, Node 9 2 201, Node 23 2 201, Node 40 3 201],
     [Node 3 2 192, Node 6 2 192, Node 10 2 192, Node 15 2 192, Node 24 2 192, Node 31 2 192, Node 41 2 192, Node 56 3 192,
        Node 3 2 193, Node 6 2 193, Node 10 2 193, Node 15 2 193, Node 24 2 193, Node 31 2 193, Node 41 2 193, Node 56 3 193],
     [Node 3 2 200, Node 6 2 200, Node 10 2 200, Node 15 2 200, Node 24 2 200, Node 31 2 200, Node 41 2 200, Node 56 3 200,
        Node 3 2 201, Node 6 2 201, Node 10 2 201, Node 15 2 201, Node 24 2 201, Node 31 2 201, Node 41 2 201, Node 56 3 201],
     [Node 2 2 202, Node 9 2 202, Node 23 2 202, Node 40 3 202, Node 2 2 205, Node 9 2 205, Node 23 2 205, Node 40 3 205,
        Node 2 2 210, Node 9 2 210, Node 23 2 210, Node 40 3 210, Node 2 2 213, Node 9 2 213, Node 23 2 213, Node 40 3 213],
     [Node 3 2 202, Node 6 2 202, Node 10 2 202, Node 15 2 202, Node 24 2 202, Node 31 2 202, Node 41 2 202, Node 56 3 202,
        Node 3 2 205, Node 6 2 205, Node 10 2 205, Node 15 2 205, Node 24 2 205, Node 31 2 205, Node 41 2 205, Node 56 3 205],
     [Node 3 2 210, Node 6 2 210, Node 10 2 210, Node 15 2 210, Node 24 2 210, Node 31 2 210, Node 41 2 210, Node 56 3 210,
        Node 3 2 213, Node 6 2 213, Node 10 2 213, Node 15 2 213, Node 24 2 213, Node 31 2 213, Node 41 2 213, Node 56 3 213],
     [Node 1 2 218, Node 22 3 218, Node 1 2 219, Node 22 3 219, Node 1 2 238, Node 22 3 238, Node 1 2 240, Node 22 3 240,
        Node 1 2 242, Node 22 3 242, Node 1 2 243, Node 22 3 243, Node 1 2 255, Node 22 3 255, Node 0 3 203, Node 0 3 204]]"

definition decoding_rows_200 :: "node list list" where
  "decoding_rows_200 =
    [[Node 2 2 218, Node 9 2 218, Node 23 2 218, Node 40 3 218, Node 2 2 219, Node 9 2 219, Node 23 2 219, Node 40 3 219,
        Node 2 2 238, Node 9 2 238, Node 23 2 238, Node 40 3 238, Node 2 2 240, Node 9 2 240, Node 23 2 240, Node 40 3 240],
     [Node 3 2 218, Node 6 2 218, Node 10 2 218, Node 15 2 218, Node 24 2 218, Node 31 2 218, Node 41 2 218, Node 56 3 218,
        Node 3 2 219, Node 6 2 219, Node 10 2 219, Node 15 2 219, Node 24 2 219, Node 31 2 219, Node 41 2 219, Node 56 3 219],
     [Node 3 2 238, Node 6 2 238, Node 10 2 238, Node 15 2 238, Node 24 2 238, Node 31 2 238, Node 41 2 238, Node 56 3 238,
        Node 3 2 240, Node 6 2 240, Node 10 2 240, Node 15 2 240, Node 24 2 240, Node 31 2 240, Node 41 2 240, Node 56 3 240],
     [Node 2 2 242, Node 9 2 242, Node 23 2 242, Node 40 3 242, Node 2 2 243, Node 9 2 243, Node 23 2 243, Node 40 3 243,
        Node 2 2 255, Node 9 2 255, Node 23 2 255, Node 40 3 255, Node 1 2 203, Node 22 3 203, Node 1 2 204, Node 22 3 204],
     [Node 3 2 242, Node 6 2 242, Node 10 2 242, Node 15 2 242, Node 24 2 242, Node 31 2 242, Node 41 2 242, Node 56 3 242,
        Node 3 2 243, Node 6 2 243, Node 10 2 243, Node 15 2 243, Node 24 2 243, Node 31 2 243, Node 41 2 243, Node 56 3 243],
     [Node 3 2 255, Node 6 2 255, Node 10 2 255, Node 15 2 255, Node 24 2 255, Node 31 2 255, Node 41 2 255, Node 56 3 255,
        Node 2 2 203, Node 9 2 203, Node 23 2 203, Node 40 3 203, Node 2 2 204, Node 9 2 204, Node 23 2 204, Node 40 3 204],
     [Node 3 2 203, Node 6 2 203, Node 10 2 203, Node 15 2 203, Node 24 2 203, Node 31 2 203, Node 41 2 203, Node 56 3 203,
        Node 3 2 204, Node 6 2 204, Node 10 2 204, Node 15 2 204, Node 24 2 204, Node 31 2 204, Node 41 2 204, Node 56 3 204],
     [Node 211 0 0, Node 212 0 0, Node 214 0 0, Node 215 0 0, Node 218 0 0, Node 219 0 0, Node 221 0 0, Node 222 0 0,
        Node 226 0 0, Node 228 0 0, Node 232 0 0, Node 235 0 0, Node 240 0 0, Node 243 0 0, Node 247 0 0, Node 250 0 0]]"

definition decoding_rows_208 :: "node list list" where
  "decoding_rows_208 =
    [[Node 0 3 211, Node 0 3 212, Node 0 3 214, Node 0 3 221, Node 0 3 222, Node 0 3 223, Node 0 3 241, Node 0 3 244,
        Node 0 3 245, Node 0 3 246, Node 0 3 247, Node 0 3 248, Node 0 3 250, Node 0 3 251, Node 0 3 252, Node 0 3 253],
     [Node 1 2 211, Node 22 3 211, Node 1 2 212, Node 22 3 212, Node 1 2 214, Node 22 3 214, Node 1 2 221, Node 22 3 221,
        Node 1 2 222, Node 22 3 222, Node 1 2 223, Node 22 3 223, Node 1 2 241, Node 22 3 241, Node 1 2 244, Node 22 3 244],
     [Node 2 2 211, Node 9 2 211, Node 23 2 211, Node 40 3 211, Node 2 2 212, Node 9 2 212, Node 23 2 212, Node 40 3 212,
        Node 2 2 214, Node 9 2 214, Node 23 2 214, Node 40 3 214, Node 2 2 221, Node 9 2 221, Node 23 2 221, Node 40 3 221],
     [Node 3 2 211, Node 6 2 211, Node 10 2 211, Node 15 2 211, Node 24 2 211, Node 31 2 211, Node 41 2 211, Node 56 3 211,
        Node 3 2 212, Node 6 2 212, Node 10 2 212, Node 15 2 212, Node 24 2 212, Node 31 2 212, Node 41 2 212, Node 56 3 212],
     [Node 3 2 214, Node 6 2 214, Node 10 2 214, Node 15 2 214, Node 24 2 214, Node 31 2 214, Node 41 2 214, Node 56 3 214,
        Node 3 2 221, Node 6 2 221, Node 10 2 221, Node 15 2 221, Node 24 2 221, Node 31 2 221, Node 41 2 221, Node 56 3 221],
     [Node 2 2 222, Node 9 2 222, Node 23 2 222, Node 40 3 222, Node 2 2 223, Node 9 2 223, Node 23 2 223, Node 40 3 223,
        Node 2 2 241, Node 9 2 241, Node 23 2 241, Node 40 3 241, Node 2 2 244, Node 9 2 244, Node 23 2 244, Node 40 3 244],
     [Node 3 2 222, Node 6 2 222, Node 10 2 222, Node 15 2 222, Node 24 2 222, Node 31 2 222, Node 41 2 222, Node 56 3 222,
        Node 3 2 223, Node 6 2 223, Node 10 2 223, Node 15 2 223, Node 24 2 223, Node 31 2 223, Node 41 2 223, Node 56 3 223],
     [Node 3 2 241, Node 6 2 241, Node 10 2 241, Node 15 2 241, Node 24 2 241, Node 31 2 241, Node 41 2 241, Node 56 3 241,
        Node 3 2 244, Node 6 2 244, Node 10 2 244, Node 15 2 244, Node 24 2 244, Node 31 2 244, Node 41 2 244, Node 56 3 244]]"

definition decoding_rows_216 :: "node list list" where
  "decoding_rows_216 =
    [[Node 1 2 245, Node 22 3 245, Node 1 2 246, Node 22 3 246, Node 1 2 247, Node 22 3 247, Node 1 2 248, Node 22 3 248,
        Node 1 2 250, Node 22 3 250, Node 1 2 251, Node 22 3 251, Node 1 2 252, Node 22 3 252, Node 1 2 253, Node 22 3 253],
     [Node 2 2 245, Node 9 2 245, Node 23 2 245, Node 40 3 245, Node 2 2 246, Node 9 2 246, Node 23 2 246, Node 40 3 246,
        Node 2 2 247, Node 9 2 247, Node 23 2 247, Node 40 3 247, Node 2 2 248, Node 9 2 248, Node 23 2 248, Node 40 3 248],
     [Node 3 2 245, Node 6 2 245, Node 10 2 245, Node 15 2 245, Node 24 2 245, Node 31 2 245, Node 41 2 245, Node 56 3 245,
        Node 3 2 246, Node 6 2 246, Node 10 2 246, Node 15 2 246, Node 24 2 246, Node 31 2 246, Node 41 2 246, Node 56 3 246],
     [Node 3 2 247, Node 6 2 247, Node 10 2 247, Node 15 2 247, Node 24 2 247, Node 31 2 247, Node 41 2 247, Node 56 3 247,
        Node 3 2 248, Node 6 2 248, Node 10 2 248, Node 15 2 248, Node 24 2 248, Node 31 2 248, Node 41 2 248, Node 56 3 248],
     [Node 2 2 250, Node 9 2 250, Node 23 2 250, Node 40 3 250, Node 2 2 251, Node 9 2 251, Node 23 2 251, Node 40 3 251,
        Node 2 2 252, Node 9 2 252, Node 23 2 252, Node 40 3 252, Node 2 2 253, Node 9 2 253, Node 23 2 253, Node 40 3 253],
     [Node 3 2 250, Node 6 2 250, Node 10 2 250, Node 15 2 250, Node 24 2 250, Node 31 2 250, Node 41 2 250, Node 56 3 250,
        Node 3 2 251, Node 6 2 251, Node 10 2 251, Node 15 2 251, Node 24 2 251, Node 31 2 251, Node 41 2 251, Node 56 3 251],
     [Node 3 2 252, Node 6 2 252, Node 10 2 252, Node 15 2 252, Node 24 2 252, Node 31 2 252, Node 41 2 252, Node 56 3 252,
        Node 3 2 253, Node 6 2 253, Node 10 2 253, Node 15 2 253, Node 24 2 253, Node 31 2 253, Node 41 2 253, Node 56 3 253],
     [Node 0 3 254, Node 227 0 0, Node 229 0 0, Node 230 0 0, Node 233 0 0, Node 234 0 0, Node 236 0 0, Node 237 0 0,
        Node 241 0 0, Node 242 0 0, Node 244 0 0, Node 245 0 0, Node 248 0 0, Node 249 0 0, Node 251 0 0, Node 252 0 0]]"

definition decoding_rows_224 :: "node list list" where
  "decoding_rows_224 =
    [[Node 1 2 254, Node 22 3 254, Node 0 3 2, Node 0 3 3, Node 0 3 4, Node 0 3 5, Node 0 3 6, Node 0 3 7,
        Node 0 3 8, Node 0 3 11, Node 0 3 12, Node 0 3 14, Node 0 3 15, Node 0 3 16, Node 0 3 17, Node 0 3 18],
     [Node 2 2 254, Node 9 2 254, Node 23 2 254, Node 40 3 254, Node 1 2 2, Node 22 3 2, Node 1 2 3, Node 22 3 3,
        Node 1 2 4, Node 22 3 4, Node 1 2 5, Node 22 3 5, Node 1 2 6, Node 22 3 6, Node 1 2 7, Node 22 3 7],
     [Node 3 2 254, Node 6 2 254, Node 10 2 254, Node 15 2 254, Node 24 2 254, Node 31 2 254, Node 41 2 254, Node 56 3 254,
        Node 2 2 2, Node 9 2 2, Node 23 2 2, Node 40 3 2, Node 2 2 3, Node 9 2 3, Node 23 2 3, Node 40 3 3],
     [Node 3 2 2, Node 6 2 2, Node 10 2 2, Node 15 2 2, Node 24 2 2, Node 31 2 2, Node 41 2 2, Node 56 3 2,
        Node 3 2 3, Node 6 2 3, Node 10 2 3, Node 15 2 3, Node 24 2 3, Node 31 2 3, Node 41 2 3, Node 56 3 3],
     [Node 2 2 4, Node 9 2 4, Node 23 2 4, Node 40 3 4, Node 2 2 5, Node 9 2 5, Node 23 2 5, Node 40 3 5,
        Node 2 2 6, Node 9 2 6, Node 23 2 6, Node 40 3 6, Node 2 2 7, Node 9 2 7, Node 23 2 7, Node 40 3 7],
     [Node 3 2 4, Node 6 2 4, Node 10 2 4, Node 15 2 4, Node 24 2 4, Node 31 2 4, Node 41 2 4, Node 56 3 4,
        Node 3 2 5, Node 6 2 5, Node 10 2 5, Node 15 2 5, Node 24 2 5, Node 31 2 5, Node 41 2 5, Node 56 3 5],
     [Node 3 2 6, Node 6 2 6, Node 10 2 6, Node 15 2 6, Node 24 2 6, Node 31 2 6, Node 41 2 6, Node 56 3 6,
        Node 3 2 7, Node 6 2 7, Node 10 2 7, Node 15 2 7, Node 24 2 7, Node 31 2 7, Node 41 2 7, Node 56 3 7],
     [Node 1 2 8, Node 22 3 8, Node 1 2 11, Node 22 3 11, Node 1 2 12, Node 22 3 12, Node 1 2 14, Node 22 3 14,
        Node 1 2 15, Node 22 3 15, Node 1 2 16, Node 22 3 16, Node 1 2 17, Node 22 3 17, Node 1 2 18, Node 22 3 18]]"

definition decoding_rows_232 :: "node list list" where
  "decoding_rows_232 =
    [[Node 2 2 8, Node 9 2 8, Node 23 2 8, Node 40 3 8, Node 2 2 11, Node 9 2 11, Node 23 2 11, Node 40 3 11,
        Node 2 2 12, Node 9 2 12, Node 23 2 12, Node 40 3 12, Node 2 2 14, Node 9 2 14, Node 23 2 14, Node 40 3 14],
     [Node 3 2 8, Node 6 2 8, Node 10 2 8, Node 15 2 8, Node 24 2 8, Node 31 2 8, Node 41 2 8, Node 56 3 8,
        Node 3 2 11, Node 6 2 11, Node 10 2 11, Node 15 2 11, Node 24 2 11, Node 31 2 11, Node 41 2 11, Node 56 3 11],
     [Node 3 2 12, Node 6 2 12, Node 10 2 12, Node 15 2 12, Node 24 2 12, Node 31 2 12, Node 41 2 12, Node 56 3 12,
        Node 3 2 14, Node 6 2 14, Node 10 2 14, Node 15 2 14, Node 24 2 14, Node 31 2 14, Node 41 2 14, Node 56 3 14],
     [Node 2 2 15, Node 9 2 15, Node 23 2 15, Node 40 3 15, Node 2 2 16, Node 9 2 16, Node 23 2 16, Node 40 3 16,
        Node 2 2 17, Node 9 2 17, Node 23 2 17, Node 40 3 17, Node 2 2 18, Node 9 2 18, Node 23 2 18, Node 40 3 18],
     [Node 3 2 15, Node 6 2 15, Node 10 2 15, Node 15 2 15, Node 24 2 15, Node 31 2 15, Node 41 2 15, Node 56 3 15,
        Node 3 2 16, Node 6 2 16, Node 10 2 16, Node 15 2 16, Node 24 2 16, Node 31 2 16, Node 41 2 16, Node 56 3 16],
     [Node 3 2 17, Node 6 2 17, Node 10 2 17, Node 15 2 17, Node 24 2 17, Node 31 2 17, Node 41 2 17, Node 56 3 17,
        Node 3 2 18, Node 6 2 18, Node 10 2 18, Node 15 2 18, Node 24 2 18, Node 31 2 18, Node 41 2 18, Node 56 3 18],
     [Node 0 3 19, Node 0 3 20, Node 0 3 21, Node 0 3 23, Node 0 3 24, Node 0 3 25, Node 0 3 26, Node 0 3 27,
        Node 0 3 28, Node 0 3 29, Node 0 3 30, Node 0 3 31, Node 0 3 127, Node 0 3 220, Node 0 3 249, Node 253 0 0],
     [Node 1 2 19, Node 22 3 19, Node 1 2 20, Node 22 3 20, Node 1 2 21, Node 22 3 21, Node 1 2 23, Node 22 3 23,
        Node 1 2 24, Node 22 3 24, Node 1 2 25, Node 22 3 25, Node 1 2 26, Node 22 3 26, Node 1 2 27, Node 22 3 27]]"

definition decoding_rows_240 :: "node list list" where
  "decoding_rows_240 =
    [[Node 2 2 19, Node 9 2 19, Node 23 2 19, Node 40 3 19, Node 2 2 20, Node 9 2 20, Node 23 2 20, Node 40 3 20,
        Node 2 2 21, Node 9 2 21, Node 23 2 21, Node 40 3 21, Node 2 2 23, Node 9 2 23, Node 23 2 23, Node 40 3 23],
     [Node 3 2 19, Node 6 2 19, Node 10 2 19, Node 15 2 19, Node 24 2 19, Node 31 2 19, Node 41 2 19, Node 56 3 19,
        Node 3 2 20, Node 6 2 20, Node 10 2 20, Node 15 2 20, Node 24 2 20, Node 31 2 20, Node 41 2 20, Node 56 3 20],
     [Node 3 2 21, Node 6 2 21, Node 10 2 21, Node 15 2 21, Node 24 2 21, Node 31 2 21, Node 41 2 21, Node 56 3 21,
        Node 3 2 23, Node 6 2 23, Node 10 2 23, Node 15 2 23, Node 24 2 23, Node 31 2 23, Node 41 2 23, Node 56 3 23],
     [Node 2 2 24, Node 9 2 24, Node 23 2 24, Node 40 3 24, Node 2 2 25, Node 9 2 25, Node 23 2 25, Node 40 3 25,
        Node 2 2 26, Node 9 2 26, Node 23 2 26, Node 40 3 26, Node 2 2 27, Node 9 2 27, Node 23 2 27, Node 40 3 27],
     [Node 3 2 24, Node 6 2 24, Node 10 2 24, Node 15 2 24, Node 24 2 24, Node 31 2 24, Node 41 2 24, Node 56 3 24,
        Node 3 2 25, Node 6 2 25, Node 10 2 25, Node 15 2 25, Node 24 2 25, Node 31 2 25, Node 41 2 25, Node 56 3 25],
     [Node 3 2 26, Node 6 2 26, Node 10 2 26, Node 15 2 26, Node 24 2 26, Node 31 2 26, Node 41 2 26, Node 56 3 26,
        Node 3 2 27, Node 6 2 27, Node 10 2 27, Node 15 2 27, Node 24 2 27, Node 31 2 27, Node 41 2 27, Node 56 3 27],
     [Node 1 2 28, Node 22 3 28, Node 1 2 29, Node 22 3 29, Node 1 2 30, Node 22 3 30, Node 1 2 31, Node 22 3 31,
        Node 1 2 127, Node 22 3 127, Node 1 2 220, Node 22 3 220, Node 1 2 249, Node 22 3 249, Node 254 0 0, Node 255 0 0],
     [Node 2 2 28, Node 9 2 28, Node 23 2 28, Node 40 3 28, Node 2 2 29, Node 9 2 29, Node 23 2 29, Node 40 3 29,
        Node 2 2 30, Node 9 2 30, Node 23 2 30, Node 40 3 30, Node 2 2 31, Node 9 2 31, Node 23 2 31, Node 40 3 31]]"

definition decoding_rows_248 :: "node list list" where
  "decoding_rows_248 =
    [[Node 3 2 28, Node 6 2 28, Node 10 2 28, Node 15 2 28, Node 24 2 28, Node 31 2 28, Node 41 2 28, Node 56 3 28,
        Node 3 2 29, Node 6 2 29, Node 10 2 29, Node 15 2 29, Node 24 2 29, Node 31 2 29, Node 41 2 29, Node 56 3 29],
     [Node 3 2 30, Node 6 2 30, Node 10 2 30, Node 15 2 30, Node 24 2 30, Node 31 2 30, Node 41 2 30, Node 56 3 30,
        Node 3 2 31, Node 6 2 31, Node 10 2 31, Node 15 2 31, Node 24 2 31, Node 31 2 31, Node 41 2 31, Node 56 3 31],
     [Node 2 2 127, Node 9 2 127, Node 23 2 127, Node 40 3 127, Node 2 2 220, Node 9 2 220, Node 23 2 220, Node 40 3 220,
        Node 2 2 249, Node 9 2 249, Node 23 2 249, Node 40 3 249, Node 0 3 10, Node 0 3 13, Node 0 3 22, Node 0 4 0],
     [Node 3 2 127, Node 6 2 127, Node 10 2 127, Node 15 2 127, Node 24 2 127, Node 31 2 127, Node 41 2 127, Node 56 3 127,
        Node 3 2 220, Node 6 2 220, Node 10 2 220, Node 15 2 220, Node 24 2 220, Node 31 2 220, Node 41 2 220, Node 56 3 220],
     [Node 3 2 249, Node 6 2 249, Node 10 2 249, Node 15 2 249, Node 24 2 249, Node 31 2 249, Node 41 2 249, Node 56 3 249,
        Node 1 2 10, Node 22 3 10, Node 1 2 13, Node 22 3 13, Node 1 2 22, Node 22 3 22, Node 0 4 0, Node 0 4 0],
     [Node 2 2 10, Node 9 2 10, Node 23 2 10, Node 40 3 10, Node 2 2 13, Node 9 2 13, Node 23 2 13, Node 40 3 13,
        Node 2 2 22, Node 9 2 22, Node 23 2 22, Node 40 3 22, Node 0 4 0, Node 0 4 0, Node 0 4 0, Node 0 4 0],
     [Node 3 2 10, Node 6 2 10, Node 10 2 10, Node 15 2 10, Node 24 2 10, Node 31 2 10, Node 41 2 10, Node 56 3 10,
        Node 3 2 13, Node 6 2 13, Node 10 2 13, Node 15 2 13, Node 24 2 13, Node 31 2 13, Node 41 2 13, Node 56 3 13],
     [Node 3 2 22, Node 6 2 22, Node 10 2 22, Node 15 2 22, Node 24 2 22, Node 31 2 22, Node 41 2 22, Node 56 3 22,
        Node 0 4 0, Node 0 4 0, Node 0 4 0, Node 0 4 0, Node 0 4 0, Node 0 4 0, Node 0 4 0, Node 0 4 0]]"

definition decoding_chunks :: "node list list list" where
  "decoding_chunks =
    [decoding_rows_0, decoding_rows_8, decoding_rows_16, decoding_rows_24,
     decoding_rows_32, decoding_rows_40, decoding_rows_48, decoding_rows_56,
     decoding_rows_64, decoding_rows_72, decoding_rows_80, decoding_rows_88,
     decoding_rows_96, decoding_rows_104, decoding_rows_112, decoding_rows_120,
     decoding_rows_128, decoding_rows_136, decoding_rows_144, decoding_rows_152,
     decoding_rows_160, decoding_rows_168, decoding_rows_176, decoding_rows_184,
     decoding_rows_192, decoding_rows_200, decoding_rows_208, decoding_rows_216,
     decoding_rows_224, decoding_rows_232, decoding_rows_240, decoding_rows_248]"

definition decoding_table :: "node list list" where
  "decoding_table = concat decoding_chunks"

end
