(* ===== verification/Huffman_Trie.thy ===== *)
theory Huffman_Trie
  imports Huffman_Tables
begin

text \<open>
  The prefix tree of the Huffman code, with its 256 inner nodes numbered in preorder, and the proof
  that both generated tables are derived from it: the encoding table lists its paths, and the
  decoding automaton walks it four bits at a time.
\<close>

section \<open>The tree\<close>

text \<open>
  An inner node has a child for a zero bit and a child for a one bit: another inner node, a
  symbol, or the terminal symbol. The children are listed for sixteen inner nodes at a time.
\<close>

datatype target = Inner byte | Leaf byte | Eos

definition trie_rows_0 :: "(target \<times> target) list" where
  "trie_rows_0 =
    [(Inner 1, Inner 22), (Inner 2, Inner 9), (Inner 3, Inner 6), (Inner 4, Inner 5),
     (Leaf 48, Leaf 49), (Leaf 50, Leaf 97), (Inner 7, Inner 8), (Leaf 99, Leaf 101),
     (Leaf 105, Leaf 111), (Inner 10, Inner 15), (Inner 11, Inner 12), (Leaf 115, Leaf 116),
     (Inner 13, Inner 14), (Leaf 32, Leaf 37), (Leaf 45, Leaf 46), (Inner 16, Inner 19)]"

definition trie_rows_16 :: "(target \<times> target) list" where
  "trie_rows_16 =
    [(Inner 17, Inner 18), (Leaf 47, Leaf 51), (Leaf 52, Leaf 53), (Inner 20, Inner 21),
     (Leaf 54, Leaf 55), (Leaf 56, Leaf 57), (Inner 23, Inner 40), (Inner 24, Inner 31),
     (Inner 25, Inner 28), (Inner 26, Inner 27), (Leaf 61, Leaf 65), (Leaf 95, Leaf 98),
     (Inner 29, Inner 30), (Leaf 100, Leaf 102), (Leaf 103, Leaf 104), (Inner 32, Inner 35)]"

definition trie_rows_32 :: "(target \<times> target) list" where
  "trie_rows_32 =
    [(Inner 33, Inner 34), (Leaf 108, Leaf 109), (Leaf 110, Leaf 112), (Inner 36, Inner 37),
     (Leaf 114, Leaf 117), (Inner 38, Inner 39), (Leaf 58, Leaf 66), (Leaf 67, Leaf 68),
     (Inner 41, Inner 56), (Inner 42, Inner 49), (Inner 43, Inner 46), (Inner 44, Inner 45),
     (Leaf 69, Leaf 70), (Leaf 71, Leaf 72), (Inner 47, Inner 48), (Leaf 73, Leaf 74)]"

definition trie_rows_48 :: "(target \<times> target) list" where
  "trie_rows_48 =
    [(Leaf 75, Leaf 76), (Inner 50, Inner 53), (Inner 51, Inner 52), (Leaf 77, Leaf 78),
     (Leaf 79, Leaf 80), (Inner 54, Inner 55), (Leaf 81, Leaf 82), (Leaf 83, Leaf 84),
     (Inner 57, Inner 64), (Inner 58, Inner 61), (Inner 59, Inner 60), (Leaf 85, Leaf 86),
     (Leaf 87, Leaf 89), (Inner 62, Inner 63), (Leaf 106, Leaf 107), (Leaf 113, Leaf 118)]"

definition trie_rows_64 :: "(target \<times> target) list" where
  "trie_rows_64 =
    [(Inner 65, Inner 68), (Inner 66, Inner 67), (Leaf 119, Leaf 120), (Leaf 121, Leaf 122),
     (Inner 69, Inner 72), (Inner 70, Inner 71), (Leaf 38, Leaf 42), (Leaf 44, Leaf 59),
     (Inner 73, Inner 74), (Leaf 88, Leaf 90), (Inner 75, Inner 78), (Inner 76, Inner 77),
     (Leaf 33, Leaf 34), (Leaf 40, Leaf 41), (Inner 79, Inner 81), (Leaf 63, Inner 80)]"

definition trie_rows_80 :: "(target \<times> target) list" where
  "trie_rows_80 =
    [(Leaf 39, Leaf 43), (Inner 82, Inner 84), (Leaf 124, Inner 83), (Leaf 35, Leaf 62),
     (Inner 85, Inner 88), (Inner 86, Inner 87), (Leaf 0, Leaf 36), (Leaf 64, Leaf 91),
     (Inner 89, Inner 90), (Leaf 93, Leaf 126), (Inner 91, Inner 92), (Leaf 94, Leaf 125),
     (Inner 93, Inner 94), (Leaf 60, Leaf 96), (Leaf 123, Inner 95), (Inner 96, Inner 110)]"

definition trie_rows_96 :: "(target \<times> target) list" where
  "trie_rows_96 =
    [(Inner 97, Inner 101), (Inner 98, Inner 99), (Leaf 92, Leaf 195), (Leaf 208, Inner 100),
     (Leaf 128, Leaf 130), (Inner 102, Inner 105), (Inner 103, Inner 104), (Leaf 131, Leaf 162),
     (Leaf 184, Leaf 194), (Inner 106, Inner 107), (Leaf 224, Leaf 226), (Inner 108, Inner 109),
     (Leaf 153, Leaf 161), (Leaf 167, Leaf 172), (Inner 111, Inner 133), (Inner 112, Inner 119)]"

definition trie_rows_112 :: "(target \<times> target) list" where
  "trie_rows_112 =
    [(Inner 113, Inner 116), (Inner 114, Inner 115), (Leaf 176, Leaf 177), (Leaf 179, Leaf 209),
     (Inner 117, Inner 118), (Leaf 216, Leaf 217), (Leaf 227, Leaf 229), (Inner 120, Inner 126),
     (Inner 121, Inner 123), (Leaf 230, Inner 122), (Leaf 129, Leaf 132), (Inner 124, Inner 125),
     (Leaf 133, Leaf 134), (Leaf 136, Leaf 146), (Inner 127, Inner 130), (Inner 128, Inner 129)]"

definition trie_rows_128 :: "(target \<times> target) list" where
  "trie_rows_128 =
    [(Leaf 154, Leaf 156), (Leaf 160, Leaf 163), (Inner 131, Inner 132), (Leaf 164, Leaf 169),
     (Leaf 170, Leaf 173), (Inner 134, Inner 153), (Inner 135, Inner 142), (Inner 136, Inner 139),
     (Inner 137, Inner 138), (Leaf 178, Leaf 181), (Leaf 185, Leaf 186), (Inner 140, Inner 141),
     (Leaf 187, Leaf 189), (Leaf 190, Leaf 196), (Inner 143, Inner 146), (Inner 144, Inner 145)]"

definition trie_rows_144 :: "(target \<times> target) list" where
  "trie_rows_144 =
    [(Leaf 198, Leaf 228), (Leaf 232, Leaf 233), (Inner 147, Inner 150), (Inner 148, Inner 149),
     (Leaf 1, Leaf 135), (Leaf 137, Leaf 138), (Inner 151, Inner 152), (Leaf 139, Leaf 140),
     (Leaf 141, Leaf 143), (Inner 154, Inner 169), (Inner 155, Inner 162), (Inner 156, Inner 159),
     (Inner 157, Inner 158), (Leaf 147, Leaf 149), (Leaf 150, Leaf 151), (Inner 160, Inner 161)]"

definition trie_rows_160 :: "(target \<times> target) list" where
  "trie_rows_160 =
    [(Leaf 152, Leaf 155), (Leaf 157, Leaf 158), (Inner 163, Inner 166), (Inner 164, Inner 165),
     (Leaf 165, Leaf 166), (Leaf 168, Leaf 174), (Inner 167, Inner 168), (Leaf 175, Leaf 180),
     (Leaf 182, Leaf 183), (Inner 170, Inner 180), (Inner 171, Inner 174), (Inner 172, Inner 173),
     (Leaf 188, Leaf 191), (Leaf 197, Leaf 231), (Inner 175, Inner 177), (Leaf 239, Inner 176)]"

definition trie_rows_176 :: "(target \<times> target) list" where
  "trie_rows_176 =
    [(Leaf 9, Leaf 142), (Inner 178, Inner 179), (Leaf 144, Leaf 145), (Leaf 148, Leaf 159),
     (Inner 181, Inner 190), (Inner 182, Inner 185), (Inner 183, Inner 184), (Leaf 171, Leaf 206),
     (Leaf 215, Leaf 225), (Inner 186, Inner 187), (Leaf 236, Leaf 237), (Inner 188, Inner 189),
     (Leaf 199, Leaf 207), (Leaf 234, Leaf 235), (Inner 191, Inner 207), (Inner 192, Inner 199)]"

definition trie_rows_192 :: "(target \<times> target) list" where
  "trie_rows_192 =
    [(Inner 193, Inner 196), (Inner 194, Inner 195), (Leaf 192, Leaf 193), (Leaf 200, Leaf 201),
     (Inner 197, Inner 198), (Leaf 202, Leaf 205), (Leaf 210, Leaf 213), (Inner 200, Inner 203),
     (Inner 201, Inner 202), (Leaf 218, Leaf 219), (Leaf 238, Leaf 240), (Inner 204, Inner 205),
     (Leaf 242, Leaf 243), (Leaf 255, Inner 206), (Leaf 203, Leaf 204), (Inner 208, Inner 223)]"

definition trie_rows_208 :: "(target \<times> target) list" where
  "trie_rows_208 =
    [(Inner 209, Inner 216), (Inner 210, Inner 213), (Inner 211, Inner 212), (Leaf 211, Leaf 212),
     (Leaf 214, Leaf 221), (Inner 214, Inner 215), (Leaf 222, Leaf 223), (Leaf 241, Leaf 244),
     (Inner 217, Inner 220), (Inner 218, Inner 219), (Leaf 245, Leaf 246), (Leaf 247, Leaf 248),
     (Inner 221, Inner 222), (Leaf 250, Leaf 251), (Leaf 252, Leaf 253), (Inner 224, Inner 238)]"

definition trie_rows_224 :: "(target \<times> target) list" where
  "trie_rows_224 =
    [(Inner 225, Inner 231), (Inner 226, Inner 228), (Leaf 254, Inner 227), (Leaf 2, Leaf 3),
     (Inner 229, Inner 230), (Leaf 4, Leaf 5), (Leaf 6, Leaf 7), (Inner 232, Inner 235),
     (Inner 233, Inner 234), (Leaf 8, Leaf 11), (Leaf 12, Leaf 14), (Inner 236, Inner 237),
     (Leaf 15, Leaf 16), (Leaf 17, Leaf 18), (Inner 239, Inner 246), (Inner 240, Inner 243)]"

definition trie_rows_240 :: "(target \<times> target) list" where
  "trie_rows_240 =
    [(Inner 241, Inner 242), (Leaf 19, Leaf 20), (Leaf 21, Leaf 23), (Inner 244, Inner 245),
     (Leaf 24, Leaf 25), (Leaf 26, Leaf 27), (Inner 247, Inner 250), (Inner 248, Inner 249),
     (Leaf 28, Leaf 29), (Leaf 30, Leaf 31), (Inner 251, Inner 252), (Leaf 127, Leaf 220),
     (Leaf 249, Inner 253), (Inner 254, Inner 255), (Leaf 10, Leaf 13), (Leaf 22, Eos)]"

definition trie_rows :: "(target \<times> target) list list" where
  "trie_rows =
    [trie_rows_0, trie_rows_16, trie_rows_32, trie_rows_48,
     trie_rows_64, trie_rows_80, trie_rows_96, trie_rows_112,
     trie_rows_128, trie_rows_144, trie_rows_160, trie_rows_176,
     trie_rows_192, trie_rows_208, trie_rows_224, trie_rows_240]"

definition children :: "byte \<Rightarrow> target \<times> target" where
  "children s = trie_rows ! (unat s div 16) ! (unat s mod 16)"

definition child :: "byte \<Rightarrow> bool \<Rightarrow> target" where
  "child s b = (if b then snd (children s) else fst (children s))"

lemma children_0:
  "children 0 = (Inner 1, Inner 22)"
  "children 1 = (Inner 2, Inner 9)"
  "children 2 = (Inner 3, Inner 6)"
  "children 3 = (Inner 4, Inner 5)"
  "children 4 = (Leaf 48, Leaf 49)"
  "children 5 = (Leaf 50, Leaf 97)"
  "children 6 = (Inner 7, Inner 8)"
  "children 7 = (Leaf 99, Leaf 101)"
  "children 8 = (Leaf 105, Leaf 111)"
  "children 9 = (Inner 10, Inner 15)"
  "children 10 = (Inner 11, Inner 12)"
  "children 11 = (Leaf 115, Leaf 116)"
  "children 12 = (Inner 13, Inner 14)"
  "children 13 = (Leaf 32, Leaf 37)"
  "children 14 = (Leaf 45, Leaf 46)"
  "children 15 = (Inner 16, Inner 19)"
  by (simp_all add: children_def trie_rows_def trie_rows_0_def)

lemma children_16:
  "children 16 = (Inner 17, Inner 18)"
  "children 17 = (Leaf 47, Leaf 51)"
  "children 18 = (Leaf 52, Leaf 53)"
  "children 19 = (Inner 20, Inner 21)"
  "children 20 = (Leaf 54, Leaf 55)"
  "children 21 = (Leaf 56, Leaf 57)"
  "children 22 = (Inner 23, Inner 40)"
  "children 23 = (Inner 24, Inner 31)"
  "children 24 = (Inner 25, Inner 28)"
  "children 25 = (Inner 26, Inner 27)"
  "children 26 = (Leaf 61, Leaf 65)"
  "children 27 = (Leaf 95, Leaf 98)"
  "children 28 = (Inner 29, Inner 30)"
  "children 29 = (Leaf 100, Leaf 102)"
  "children 30 = (Leaf 103, Leaf 104)"
  "children 31 = (Inner 32, Inner 35)"
  by (simp_all add: children_def trie_rows_def trie_rows_16_def)

lemma children_32:
  "children 32 = (Inner 33, Inner 34)"
  "children 33 = (Leaf 108, Leaf 109)"
  "children 34 = (Leaf 110, Leaf 112)"
  "children 35 = (Inner 36, Inner 37)"
  "children 36 = (Leaf 114, Leaf 117)"
  "children 37 = (Inner 38, Inner 39)"
  "children 38 = (Leaf 58, Leaf 66)"
  "children 39 = (Leaf 67, Leaf 68)"
  "children 40 = (Inner 41, Inner 56)"
  "children 41 = (Inner 42, Inner 49)"
  "children 42 = (Inner 43, Inner 46)"
  "children 43 = (Inner 44, Inner 45)"
  "children 44 = (Leaf 69, Leaf 70)"
  "children 45 = (Leaf 71, Leaf 72)"
  "children 46 = (Inner 47, Inner 48)"
  "children 47 = (Leaf 73, Leaf 74)"
  by (simp_all add: children_def trie_rows_def trie_rows_32_def)

lemma children_48:
  "children 48 = (Leaf 75, Leaf 76)"
  "children 49 = (Inner 50, Inner 53)"
  "children 50 = (Inner 51, Inner 52)"
  "children 51 = (Leaf 77, Leaf 78)"
  "children 52 = (Leaf 79, Leaf 80)"
  "children 53 = (Inner 54, Inner 55)"
  "children 54 = (Leaf 81, Leaf 82)"
  "children 55 = (Leaf 83, Leaf 84)"
  "children 56 = (Inner 57, Inner 64)"
  "children 57 = (Inner 58, Inner 61)"
  "children 58 = (Inner 59, Inner 60)"
  "children 59 = (Leaf 85, Leaf 86)"
  "children 60 = (Leaf 87, Leaf 89)"
  "children 61 = (Inner 62, Inner 63)"
  "children 62 = (Leaf 106, Leaf 107)"
  "children 63 = (Leaf 113, Leaf 118)"
  by (simp_all add: children_def trie_rows_def trie_rows_48_def)

lemma children_64:
  "children 64 = (Inner 65, Inner 68)"
  "children 65 = (Inner 66, Inner 67)"
  "children 66 = (Leaf 119, Leaf 120)"
  "children 67 = (Leaf 121, Leaf 122)"
  "children 68 = (Inner 69, Inner 72)"
  "children 69 = (Inner 70, Inner 71)"
  "children 70 = (Leaf 38, Leaf 42)"
  "children 71 = (Leaf 44, Leaf 59)"
  "children 72 = (Inner 73, Inner 74)"
  "children 73 = (Leaf 88, Leaf 90)"
  "children 74 = (Inner 75, Inner 78)"
  "children 75 = (Inner 76, Inner 77)"
  "children 76 = (Leaf 33, Leaf 34)"
  "children 77 = (Leaf 40, Leaf 41)"
  "children 78 = (Inner 79, Inner 81)"
  "children 79 = (Leaf 63, Inner 80)"
  by (simp_all add: children_def trie_rows_def trie_rows_64_def)

lemma children_80:
  "children 80 = (Leaf 39, Leaf 43)"
  "children 81 = (Inner 82, Inner 84)"
  "children 82 = (Leaf 124, Inner 83)"
  "children 83 = (Leaf 35, Leaf 62)"
  "children 84 = (Inner 85, Inner 88)"
  "children 85 = (Inner 86, Inner 87)"
  "children 86 = (Leaf 0, Leaf 36)"
  "children 87 = (Leaf 64, Leaf 91)"
  "children 88 = (Inner 89, Inner 90)"
  "children 89 = (Leaf 93, Leaf 126)"
  "children 90 = (Inner 91, Inner 92)"
  "children 91 = (Leaf 94, Leaf 125)"
  "children 92 = (Inner 93, Inner 94)"
  "children 93 = (Leaf 60, Leaf 96)"
  "children 94 = (Leaf 123, Inner 95)"
  "children 95 = (Inner 96, Inner 110)"
  by (simp_all add: children_def trie_rows_def trie_rows_80_def)

lemma children_96:
  "children 96 = (Inner 97, Inner 101)"
  "children 97 = (Inner 98, Inner 99)"
  "children 98 = (Leaf 92, Leaf 195)"
  "children 99 = (Leaf 208, Inner 100)"
  "children 100 = (Leaf 128, Leaf 130)"
  "children 101 = (Inner 102, Inner 105)"
  "children 102 = (Inner 103, Inner 104)"
  "children 103 = (Leaf 131, Leaf 162)"
  "children 104 = (Leaf 184, Leaf 194)"
  "children 105 = (Inner 106, Inner 107)"
  "children 106 = (Leaf 224, Leaf 226)"
  "children 107 = (Inner 108, Inner 109)"
  "children 108 = (Leaf 153, Leaf 161)"
  "children 109 = (Leaf 167, Leaf 172)"
  "children 110 = (Inner 111, Inner 133)"
  "children 111 = (Inner 112, Inner 119)"
  by (simp_all add: children_def trie_rows_def trie_rows_96_def)

lemma children_112:
  "children 112 = (Inner 113, Inner 116)"
  "children 113 = (Inner 114, Inner 115)"
  "children 114 = (Leaf 176, Leaf 177)"
  "children 115 = (Leaf 179, Leaf 209)"
  "children 116 = (Inner 117, Inner 118)"
  "children 117 = (Leaf 216, Leaf 217)"
  "children 118 = (Leaf 227, Leaf 229)"
  "children 119 = (Inner 120, Inner 126)"
  "children 120 = (Inner 121, Inner 123)"
  "children 121 = (Leaf 230, Inner 122)"
  "children 122 = (Leaf 129, Leaf 132)"
  "children 123 = (Inner 124, Inner 125)"
  "children 124 = (Leaf 133, Leaf 134)"
  "children 125 = (Leaf 136, Leaf 146)"
  "children 126 = (Inner 127, Inner 130)"
  "children 127 = (Inner 128, Inner 129)"
  by (simp_all add: children_def trie_rows_def trie_rows_112_def)

lemma children_128:
  "children 128 = (Leaf 154, Leaf 156)"
  "children 129 = (Leaf 160, Leaf 163)"
  "children 130 = (Inner 131, Inner 132)"
  "children 131 = (Leaf 164, Leaf 169)"
  "children 132 = (Leaf 170, Leaf 173)"
  "children 133 = (Inner 134, Inner 153)"
  "children 134 = (Inner 135, Inner 142)"
  "children 135 = (Inner 136, Inner 139)"
  "children 136 = (Inner 137, Inner 138)"
  "children 137 = (Leaf 178, Leaf 181)"
  "children 138 = (Leaf 185, Leaf 186)"
  "children 139 = (Inner 140, Inner 141)"
  "children 140 = (Leaf 187, Leaf 189)"
  "children 141 = (Leaf 190, Leaf 196)"
  "children 142 = (Inner 143, Inner 146)"
  "children 143 = (Inner 144, Inner 145)"
  by (simp_all add: children_def trie_rows_def trie_rows_128_def)

lemma children_144:
  "children 144 = (Leaf 198, Leaf 228)"
  "children 145 = (Leaf 232, Leaf 233)"
  "children 146 = (Inner 147, Inner 150)"
  "children 147 = (Inner 148, Inner 149)"
  "children 148 = (Leaf 1, Leaf 135)"
  "children 149 = (Leaf 137, Leaf 138)"
  "children 150 = (Inner 151, Inner 152)"
  "children 151 = (Leaf 139, Leaf 140)"
  "children 152 = (Leaf 141, Leaf 143)"
  "children 153 = (Inner 154, Inner 169)"
  "children 154 = (Inner 155, Inner 162)"
  "children 155 = (Inner 156, Inner 159)"
  "children 156 = (Inner 157, Inner 158)"
  "children 157 = (Leaf 147, Leaf 149)"
  "children 158 = (Leaf 150, Leaf 151)"
  "children 159 = (Inner 160, Inner 161)"
  by (simp_all add: children_def trie_rows_def trie_rows_144_def)

lemma children_160:
  "children 160 = (Leaf 152, Leaf 155)"
  "children 161 = (Leaf 157, Leaf 158)"
  "children 162 = (Inner 163, Inner 166)"
  "children 163 = (Inner 164, Inner 165)"
  "children 164 = (Leaf 165, Leaf 166)"
  "children 165 = (Leaf 168, Leaf 174)"
  "children 166 = (Inner 167, Inner 168)"
  "children 167 = (Leaf 175, Leaf 180)"
  "children 168 = (Leaf 182, Leaf 183)"
  "children 169 = (Inner 170, Inner 180)"
  "children 170 = (Inner 171, Inner 174)"
  "children 171 = (Inner 172, Inner 173)"
  "children 172 = (Leaf 188, Leaf 191)"
  "children 173 = (Leaf 197, Leaf 231)"
  "children 174 = (Inner 175, Inner 177)"
  "children 175 = (Leaf 239, Inner 176)"
  by (simp_all add: children_def trie_rows_def trie_rows_160_def)

lemma children_176:
  "children 176 = (Leaf 9, Leaf 142)"
  "children 177 = (Inner 178, Inner 179)"
  "children 178 = (Leaf 144, Leaf 145)"
  "children 179 = (Leaf 148, Leaf 159)"
  "children 180 = (Inner 181, Inner 190)"
  "children 181 = (Inner 182, Inner 185)"
  "children 182 = (Inner 183, Inner 184)"
  "children 183 = (Leaf 171, Leaf 206)"
  "children 184 = (Leaf 215, Leaf 225)"
  "children 185 = (Inner 186, Inner 187)"
  "children 186 = (Leaf 236, Leaf 237)"
  "children 187 = (Inner 188, Inner 189)"
  "children 188 = (Leaf 199, Leaf 207)"
  "children 189 = (Leaf 234, Leaf 235)"
  "children 190 = (Inner 191, Inner 207)"
  "children 191 = (Inner 192, Inner 199)"
  by (simp_all add: children_def trie_rows_def trie_rows_176_def)

lemma children_192:
  "children 192 = (Inner 193, Inner 196)"
  "children 193 = (Inner 194, Inner 195)"
  "children 194 = (Leaf 192, Leaf 193)"
  "children 195 = (Leaf 200, Leaf 201)"
  "children 196 = (Inner 197, Inner 198)"
  "children 197 = (Leaf 202, Leaf 205)"
  "children 198 = (Leaf 210, Leaf 213)"
  "children 199 = (Inner 200, Inner 203)"
  "children 200 = (Inner 201, Inner 202)"
  "children 201 = (Leaf 218, Leaf 219)"
  "children 202 = (Leaf 238, Leaf 240)"
  "children 203 = (Inner 204, Inner 205)"
  "children 204 = (Leaf 242, Leaf 243)"
  "children 205 = (Leaf 255, Inner 206)"
  "children 206 = (Leaf 203, Leaf 204)"
  "children 207 = (Inner 208, Inner 223)"
  by (simp_all add: children_def trie_rows_def trie_rows_192_def)

lemma children_208:
  "children 208 = (Inner 209, Inner 216)"
  "children 209 = (Inner 210, Inner 213)"
  "children 210 = (Inner 211, Inner 212)"
  "children 211 = (Leaf 211, Leaf 212)"
  "children 212 = (Leaf 214, Leaf 221)"
  "children 213 = (Inner 214, Inner 215)"
  "children 214 = (Leaf 222, Leaf 223)"
  "children 215 = (Leaf 241, Leaf 244)"
  "children 216 = (Inner 217, Inner 220)"
  "children 217 = (Inner 218, Inner 219)"
  "children 218 = (Leaf 245, Leaf 246)"
  "children 219 = (Leaf 247, Leaf 248)"
  "children 220 = (Inner 221, Inner 222)"
  "children 221 = (Leaf 250, Leaf 251)"
  "children 222 = (Leaf 252, Leaf 253)"
  "children 223 = (Inner 224, Inner 238)"
  by (simp_all add: children_def trie_rows_def trie_rows_208_def)

lemma children_224:
  "children 224 = (Inner 225, Inner 231)"
  "children 225 = (Inner 226, Inner 228)"
  "children 226 = (Leaf 254, Inner 227)"
  "children 227 = (Leaf 2, Leaf 3)"
  "children 228 = (Inner 229, Inner 230)"
  "children 229 = (Leaf 4, Leaf 5)"
  "children 230 = (Leaf 6, Leaf 7)"
  "children 231 = (Inner 232, Inner 235)"
  "children 232 = (Inner 233, Inner 234)"
  "children 233 = (Leaf 8, Leaf 11)"
  "children 234 = (Leaf 12, Leaf 14)"
  "children 235 = (Inner 236, Inner 237)"
  "children 236 = (Leaf 15, Leaf 16)"
  "children 237 = (Leaf 17, Leaf 18)"
  "children 238 = (Inner 239, Inner 246)"
  "children 239 = (Inner 240, Inner 243)"
  by (simp_all add: children_def trie_rows_def trie_rows_224_def)

lemma children_240:
  "children 240 = (Inner 241, Inner 242)"
  "children 241 = (Leaf 19, Leaf 20)"
  "children 242 = (Leaf 21, Leaf 23)"
  "children 243 = (Inner 244, Inner 245)"
  "children 244 = (Leaf 24, Leaf 25)"
  "children 245 = (Leaf 26, Leaf 27)"
  "children 246 = (Inner 247, Inner 250)"
  "children 247 = (Inner 248, Inner 249)"
  "children 248 = (Leaf 28, Leaf 29)"
  "children 249 = (Leaf 30, Leaf 31)"
  "children 250 = (Inner 251, Inner 252)"
  "children 251 = (Leaf 127, Leaf 220)"
  "children 252 = (Leaf 249, Inner 253)"
  "children 253 = (Inner 254, Inner 255)"
  "children 254 = (Leaf 10, Leaf 13)"
  "children 255 = (Leaf 22, Eos)"
  by (simp_all add: children_def trie_rows_def trie_rows_240_def)

lemmas children_rules =
  children_0 children_16 children_32 children_48
  children_64 children_80 children_96 children_112
  children_128 children_144 children_160 children_176
  children_192 children_208 children_224 children_240

text \<open>The nodes on the path of at most seven ones: what padding may leave unfinished.\<close>

definition accepting :: "byte \<Rightarrow> bool" where
  "accepting s \<longleftrightarrow> s \<in> {0, 22, 40, 56, 64, 68, 72, 74}"

section \<open>The decoding table\<close>

fun nibble_run :: "byte \<Rightarrow> byte option \<Rightarrow> bool list \<Rightarrow> node" where
  "nibble_run s out [] =
     (case out of
        None \<Rightarrow> Node s (if accepting s then 1 else 0) 0
      | Some x \<Rightarrow> Node s (if accepting s then 3 else 2) x)"
| "nibble_run s out (b # bs) =
     (case child s b of
        Inner t \<Rightarrow> nibble_run t out bs
      | Leaf x \<Rightarrow> nibble_run 0 (Some x) bs
      | Eos \<Rightarrow> Node 0 4 0)"

definition nibbles :: "bool list list" where
  "nibbles = [[a, b, c, d]. a \<leftarrow> [False, True], b \<leftarrow> [False, True], c \<leftarrow> [False, True], d \<leftarrow> [False, True]]"

definition table_row :: "byte \<Rightarrow> node list" where
  "table_row s = map (nibble_run s None) nibbles"

lemma table_row_unfold:
  "table_row s =
     [nibble_run s None [False, False, False, False], nibble_run s None [False, False, False, True],
      nibble_run s None [False, False, True, False], nibble_run s None [False, False, True, True],
      nibble_run s None [False, True, False, False], nibble_run s None [False, True, False, True],
      nibble_run s None [False, True, True, False], nibble_run s None [False, True, True, True],
      nibble_run s None [True, False, False, False], nibble_run s None [True, False, False, True],
      nibble_run s None [True, False, True, False], nibble_run s None [True, False, True, True],
      nibble_run s None [True, True, False, False], nibble_run s None [True, True, False, True],
      nibble_run s None [True, True, True, False], nibble_run s None [True, True, True, True]]"
  by (simp add: table_row_def nibbles_def)

lemmas row_simps = table_row_unfold child_def children_rules accepting_def

lemma rows_0: "decoding_rows_0 = map table_row [0, 1, 2, 3, 4, 5, 6, 7]"
  by (simp add: decoding_rows_0_def row_simps)

lemma rows_8: "decoding_rows_8 = map table_row [8, 9, 10, 11, 12, 13, 14, 15]"
  by (simp add: decoding_rows_8_def row_simps)

lemma rows_16: "decoding_rows_16 = map table_row [16, 17, 18, 19, 20, 21, 22, 23]"
  by (simp add: decoding_rows_16_def row_simps)

lemma rows_24: "decoding_rows_24 = map table_row [24, 25, 26, 27, 28, 29, 30, 31]"
  by (simp add: decoding_rows_24_def row_simps)

lemma rows_32: "decoding_rows_32 = map table_row [32, 33, 34, 35, 36, 37, 38, 39]"
  by (simp add: decoding_rows_32_def row_simps)

lemma rows_40: "decoding_rows_40 = map table_row [40, 41, 42, 43, 44, 45, 46, 47]"
  by (simp add: decoding_rows_40_def row_simps)

lemma rows_48: "decoding_rows_48 = map table_row [48, 49, 50, 51, 52, 53, 54, 55]"
  by (simp add: decoding_rows_48_def row_simps)

lemma rows_56: "decoding_rows_56 = map table_row [56, 57, 58, 59, 60, 61, 62, 63]"
  by (simp add: decoding_rows_56_def row_simps)

lemma rows_64: "decoding_rows_64 = map table_row [64, 65, 66, 67, 68, 69, 70, 71]"
  by (simp add: decoding_rows_64_def row_simps)

lemma rows_72: "decoding_rows_72 = map table_row [72, 73, 74, 75, 76, 77, 78, 79]"
  by (simp add: decoding_rows_72_def row_simps)

lemma rows_80: "decoding_rows_80 = map table_row [80, 81, 82, 83, 84, 85, 86, 87]"
  by (simp add: decoding_rows_80_def row_simps)

lemma rows_88: "decoding_rows_88 = map table_row [88, 89, 90, 91, 92, 93, 94, 95]"
  by (simp add: decoding_rows_88_def row_simps)

lemma rows_96: "decoding_rows_96 = map table_row [96, 97, 98, 99, 100, 101, 102, 103]"
  by (simp add: decoding_rows_96_def row_simps)

lemma rows_104: "decoding_rows_104 = map table_row [104, 105, 106, 107, 108, 109, 110, 111]"
  by (simp add: decoding_rows_104_def row_simps)

lemma rows_112: "decoding_rows_112 = map table_row [112, 113, 114, 115, 116, 117, 118, 119]"
  by (simp add: decoding_rows_112_def row_simps)

lemma rows_120: "decoding_rows_120 = map table_row [120, 121, 122, 123, 124, 125, 126, 127]"
  by (simp add: decoding_rows_120_def row_simps)

lemma rows_128: "decoding_rows_128 = map table_row [128, 129, 130, 131, 132, 133, 134, 135]"
  by (simp add: decoding_rows_128_def row_simps)

lemma rows_136: "decoding_rows_136 = map table_row [136, 137, 138, 139, 140, 141, 142, 143]"
  by (simp add: decoding_rows_136_def row_simps)

lemma rows_144: "decoding_rows_144 = map table_row [144, 145, 146, 147, 148, 149, 150, 151]"
  by (simp add: decoding_rows_144_def row_simps)

lemma rows_152: "decoding_rows_152 = map table_row [152, 153, 154, 155, 156, 157, 158, 159]"
  by (simp add: decoding_rows_152_def row_simps)

lemma rows_160: "decoding_rows_160 = map table_row [160, 161, 162, 163, 164, 165, 166, 167]"
  by (simp add: decoding_rows_160_def row_simps)

lemma rows_168: "decoding_rows_168 = map table_row [168, 169, 170, 171, 172, 173, 174, 175]"
  by (simp add: decoding_rows_168_def row_simps)

lemma rows_176: "decoding_rows_176 = map table_row [176, 177, 178, 179, 180, 181, 182, 183]"
  by (simp add: decoding_rows_176_def row_simps)

lemma rows_184: "decoding_rows_184 = map table_row [184, 185, 186, 187, 188, 189, 190, 191]"
  by (simp add: decoding_rows_184_def row_simps)

lemma rows_192: "decoding_rows_192 = map table_row [192, 193, 194, 195, 196, 197, 198, 199]"
  by (simp add: decoding_rows_192_def row_simps)

lemma rows_200: "decoding_rows_200 = map table_row [200, 201, 202, 203, 204, 205, 206, 207]"
  by (simp add: decoding_rows_200_def row_simps)

lemma rows_208: "decoding_rows_208 = map table_row [208, 209, 210, 211, 212, 213, 214, 215]"
  by (simp add: decoding_rows_208_def row_simps)

lemma rows_216: "decoding_rows_216 = map table_row [216, 217, 218, 219, 220, 221, 222, 223]"
  by (simp add: decoding_rows_216_def row_simps)

lemma rows_224: "decoding_rows_224 = map table_row [224, 225, 226, 227, 228, 229, 230, 231]"
  by (simp add: decoding_rows_224_def row_simps)

lemma rows_232: "decoding_rows_232 = map table_row [232, 233, 234, 235, 236, 237, 238, 239]"
  by (simp add: decoding_rows_232_def row_simps)

lemma rows_240: "decoding_rows_240 = map table_row [240, 241, 242, 243, 244, 245, 246, 247]"
  by (simp add: decoding_rows_240_def row_simps)

lemma rows_248: "decoding_rows_248 = map table_row [248, 249, 250, 251, 252, 253, 254, 255]"
  by (simp add: decoding_rows_248_def row_simps)

section \<open>The tables as functions\<close>

lemma concat_nth:
  "(\<forall>r \<in> set rs. length r = k) \<Longrightarrow> n < k * length rs \<Longrightarrow> concat rs ! n = rs ! (n div k) ! (n mod k)"
proof (induction rs arbitrary: n)
  case (Cons r rs)
  show ?case
  proof (cases "n < k")
    case True
    then show ?thesis using Cons.prems by (simp add: nth_append)
  next
    case False
    moreover have "0 < k" using Cons.prems by (cases k) auto
    ultimately have "n div k = Suc ((n - k) div k)" "n mod k = (n - k) mod k"
      by (simp_all add: le_div_geq le_mod_geq)
    then show ?thesis using Cons False by (simp add: nth_append)
  qed
qed simp

definition byte_chunks :: "byte list list" where
  "byte_chunks =
    [[0, 1, 2, 3, 4, 5, 6, 7],
     [8, 9, 10, 11, 12, 13, 14, 15],
     [16, 17, 18, 19, 20, 21, 22, 23],
     [24, 25, 26, 27, 28, 29, 30, 31],
     [32, 33, 34, 35, 36, 37, 38, 39],
     [40, 41, 42, 43, 44, 45, 46, 47],
     [48, 49, 50, 51, 52, 53, 54, 55],
     [56, 57, 58, 59, 60, 61, 62, 63],
     [64, 65, 66, 67, 68, 69, 70, 71],
     [72, 73, 74, 75, 76, 77, 78, 79],
     [80, 81, 82, 83, 84, 85, 86, 87],
     [88, 89, 90, 91, 92, 93, 94, 95],
     [96, 97, 98, 99, 100, 101, 102, 103],
     [104, 105, 106, 107, 108, 109, 110, 111],
     [112, 113, 114, 115, 116, 117, 118, 119],
     [120, 121, 122, 123, 124, 125, 126, 127],
     [128, 129, 130, 131, 132, 133, 134, 135],
     [136, 137, 138, 139, 140, 141, 142, 143],
     [144, 145, 146, 147, 148, 149, 150, 151],
     [152, 153, 154, 155, 156, 157, 158, 159],
     [160, 161, 162, 163, 164, 165, 166, 167],
     [168, 169, 170, 171, 172, 173, 174, 175],
     [176, 177, 178, 179, 180, 181, 182, 183],
     [184, 185, 186, 187, 188, 189, 190, 191],
     [192, 193, 194, 195, 196, 197, 198, 199],
     [200, 201, 202, 203, 204, 205, 206, 207],
     [208, 209, 210, 211, 212, 213, 214, 215],
     [216, 217, 218, 219, 220, 221, 222, 223],
     [224, 225, 226, 227, 228, 229, 230, 231],
     [232, 233, 234, 235, 236, 237, 238, 239],
     [240, 241, 242, 243, 244, 245, 246, 247],
     [248, 249, 250, 251, 252, 253, 254, 255]]"

definition all_bytes :: "byte list" where
  "all_bytes = concat byte_chunks"

lemma byte_chunks_eq:
  "byte_chunks = map (\<lambda>k. map (\<lambda>i. word_of_nat (8 * k + i)) [0..<8]) [0..<32]"
  unfolding upt_8 upt_32 by (simp add: byte_chunks_def)

lemma length_all_bytes [simp]: "length all_bytes = 256"
  by (simp add: all_bytes_def byte_chunks_def)

lemma nth_all_bytes: "all_bytes ! unat s = s"
proof -
  have n: "unat s < 256" using unsigned_less [of s] by simp
  have "\<forall>r \<in> set byte_chunks. length r = 8" "length byte_chunks = 32"
    by (simp_all add: byte_chunks_eq)
  then have "all_bytes ! unat s = byte_chunks ! (unat s div 8) ! (unat s mod 8)"
    unfolding all_bytes_def using n by (intro concat_nth) simp_all
  also have "\<dots> = word_of_nat (8 * (unat s div 8) + unat s mod 8)"
    using n by (simp add: byte_chunks_eq less_mult_imp_div_less del: of_nat_add of_nat_mult)
  also have "\<dots> = s" by (simp del: of_nat_add of_nat_mult)
  finally show ?thesis .
qed

text \<open>The whole decoding table is the automaton of the tree.\<close>

lemma decoding_chunks_eq: "decoding_chunks = map (map table_row) byte_chunks"
  unfolding decoding_chunks_def byte_chunks_def
  by (simp only: list.map
      rows_0 rows_8 rows_16 rows_24 rows_32 rows_40 rows_48 rows_56
      rows_64 rows_72 rows_80 rows_88 rows_96 rows_104 rows_112 rows_120
      rows_128 rows_136 rows_144 rows_152 rows_160 rows_168 rows_176 rows_184
      rows_192 rows_200 rows_208 rows_216 rows_224 rows_232 rows_240 rows_248)

lemma decoding_table_eq: "decoding_table = map table_row all_bytes"
  by (simp only: decoding_table_def decoding_chunks_eq all_bytes_def map_concat)

lemma decoding_table_nth: "decoding_table ! unat s = table_row s"
proof -
  have "unat s < length all_bytes" using unsigned_less [of s] by simp
  then show ?thesis by (simp add: decoding_table_eq nth_all_bytes)
qed

definition nibble_bits :: "byte \<Rightarrow> bool list" where
  "nibble_bits n = [bit n 3, bit n 2, bit n 1, bit n 0]"

lemma encoding_table_nth:
  "n < 257 \<Longrightarrow> encoding_table ! n = encoding_chunks ! (n div 16) ! (n mod 16)"
proof -
  assume n: "n < 257"
  let ?full = "butlast encoding_chunks"
  have eq: "encoding_table = concat ?full @ encoding_rows_256"
    by (simp add: encoding_table_def encoding_chunks_def)
  have len: "\<forall>r \<in> set ?full. length r = 16" "length ?full = 16"
    by (simp_all add: encoding_chunks_def encoding_rows_0_def encoding_rows_16_def encoding_rows_32_def encoding_rows_48_def encoding_rows_64_def encoding_rows_80_def encoding_rows_96_def encoding_rows_112_def encoding_rows_128_def encoding_rows_144_def encoding_rows_160_def encoding_rows_176_def encoding_rows_192_def encoding_rows_208_def encoding_rows_224_def encoding_rows_240_def)
  have cl: "length (concat ?full) = 256"
    by (simp add: encoding_chunks_def encoding_rows_0_def encoding_rows_16_def encoding_rows_32_def encoding_rows_48_def encoding_rows_64_def encoding_rows_80_def encoding_rows_96_def encoding_rows_112_def encoding_rows_128_def encoding_rows_144_def encoding_rows_160_def encoding_rows_176_def encoding_rows_192_def encoding_rows_208_def encoding_rows_224_def encoding_rows_240_def)
  show ?thesis
  proof (cases "n < 256")
    case True
    then have "encoding_table ! n = concat ?full ! n" using cl by (simp add: eq nth_append)
    also have "\<dots> = ?full ! (n div 16) ! (n mod 16)" using concat_nth [OF len(1)] True len(2) by simp
    also have "\<dots> = encoding_chunks ! (n div 16) ! (n mod 16)"
      using True len(2) by (simp add: nth_butlast less_mult_imp_div_less)
    finally show ?thesis .
  next
    case False
    then have "n = 256" using n by simp
    have "encoding_table ! 256 = (concat ?full @ encoding_rows_256) ! length (concat ?full)"
      by (simp only: eq cl)
    also have "\<dots> = hd encoding_rows_256"
      by (simp only: encoding_rows_256_def nth_append_length list.sel)
    also have "\<dots> = encoding_chunks ! (256 div 16) ! (256 mod 16)"
      by (simp add: encoding_chunks_def encoding_rows_256_def)
    finally show ?thesis using \<open>n = 256\<close> by simp
  qed
qed

lemma nibble_cases: "n < 16 \<Longrightarrow> (n :: byte) \<in> {0, 1, 2, 3, 4, 5, 6, 7, 8, 9, 10, 11, 12, 13, 14, 15}"
proof -
  assume "n < 16"
  then have "unat n < 16" by (simp add: word_less_nat_alt)
  then have "word_of_nat (unat n) \<in> (word_of_nat ` set [0..<16] :: byte set)"
    by (intro imageI) simp
  then show ?thesis unfolding upt_16 by simp
qed

lemma nibble_bits_eval:
  "nibble_bits 0 = [False, False, False, False]" "nibble_bits 1 = [False, False, False, True]"
  "nibble_bits 2 = [False, False, True, False]" "nibble_bits 3 = [False, False, True, True]"
  "nibble_bits 4 = [False, True, False, False]" "nibble_bits 5 = [False, True, False, True]"
  "nibble_bits 6 = [False, True, True, False]" "nibble_bits 7 = [False, True, True, True]"
  "nibble_bits 8 = [True, False, False, False]" "nibble_bits 9 = [True, False, False, True]"
  "nibble_bits 10 = [True, False, True, False]" "nibble_bits 11 = [True, False, True, True]"
  "nibble_bits 12 = [True, True, False, False]" "nibble_bits 13 = [True, True, False, True]"
  "nibble_bits 14 = [True, True, True, False]" "nibble_bits 15 = [True, True, True, True]"
  by code_simp+

lemma table_row_nth: "n < 16 \<Longrightarrow> table_row s ! unat (n :: byte) = nibble_run s None (nibble_bits n)"
  using nibble_cases [of n] by (auto simp: table_row_unfold nibble_bits_eval simp del: nibble_run.simps)

section \<open>Codes\<close>

text \<open>The bits of a code, the most significant one first.\<close>

definition code_bits :: "symbol \<Rightarrow> bool list" where
  "code_bits s = (case s of (code, n) \<Rightarrow> map (bit code) (rev [0..<n]))"

lemmas code_bits_eval = code_bits_def upt_rec

text \<open>The path from the root to each inner node, written as a code.\<close>

definition path_rows_0 :: "symbol list" where
  "path_rows_0 =
    [(0, 0), (0, 1), (0, 2), (0, 3),
     (0, 4), (1, 4), (1, 3), (2, 4),
     (3, 4), (1, 2), (2, 3), (4, 4),
     (5, 4), (10, 5), (11, 5), (3, 3)]"

definition path_rows_16 :: "symbol list" where
  "path_rows_16 =
    [(6, 4), (12, 5), (13, 5), (7, 4),
     (14, 5), (15, 5), (1, 1), (2, 2),
     (4, 3), (8, 4), (16, 5), (17, 5),
     (9, 4), (18, 5), (19, 5), (5, 3)]"

definition path_rows_32 :: "symbol list" where
  "path_rows_32 =
    [(10, 4), (20, 5), (21, 5), (11, 4),
     (22, 5), (23, 5), (46, 6), (47, 6),
     (3, 2), (6, 3), (12, 4), (24, 5),
     (48, 6), (49, 6), (25, 5), (50, 6)]"

definition path_rows_48 :: "symbol list" where
  "path_rows_48 =
    [(51, 6), (13, 4), (26, 5), (52, 6),
     (53, 6), (27, 5), (54, 6), (55, 6),
     (7, 3), (14, 4), (28, 5), (56, 6),
     (57, 6), (29, 5), (58, 6), (59, 6)]"

definition path_rows_64 :: "symbol list" where
  "path_rows_64 =
    [(15, 4), (30, 5), (60, 6), (61, 6),
     (31, 5), (62, 6), (124, 7), (125, 7),
     (63, 6), (126, 7), (127, 7), (254, 8),
     (508, 9), (509, 9), (255, 8), (510, 9)]"

definition path_rows_80 :: "symbol list" where
  "path_rows_80 =
    [(1021, 10), (511, 9), (1022, 10), (2045, 11),
     (1023, 10), (2046, 11), (4092, 12), (4093, 12),
     (2047, 11), (4094, 12), (4095, 12), (8190, 13),
     (8191, 13), (16382, 14), (16383, 14), (32767, 15)]"

definition path_rows_96 :: "symbol list" where
  "path_rows_96 =
    [(65534, 16), (131068, 17), (262136, 18), (262137, 18),
     (524275, 19), (131069, 17), (262138, 18), (524276, 19),
     (524277, 19), (262139, 18), (524278, 19), (524279, 19),
     (1048558, 20), (1048559, 20), (65535, 16), (131070, 17)]"

definition path_rows_112 :: "symbol list" where
  "path_rows_112 =
    [(262140, 18), (524280, 19), (1048560, 20), (1048561, 20),
     (524281, 19), (1048562, 20), (1048563, 20), (262141, 18),
     (524282, 19), (1048564, 20), (2097129, 21), (1048565, 20),
     (2097130, 21), (2097131, 21), (524283, 19), (1048566, 20)]"

definition path_rows_128 :: "symbol list" where
  "path_rows_128 =
    [(2097132, 21), (2097133, 21), (1048567, 20), (2097134, 21),
     (2097135, 21), (131071, 17), (262142, 18), (524284, 19),
     (1048568, 20), (2097136, 21), (2097137, 21), (1048569, 20),
     (2097138, 21), (2097139, 21), (524285, 19), (1048570, 20)]"

definition path_rows_144 :: "symbol list" where
  "path_rows_144 =
    [(2097140, 21), (2097141, 21), (1048571, 20), (2097142, 21),
     (4194284, 22), (4194285, 22), (2097143, 21), (4194286, 22),
     (4194287, 22), (262143, 18), (524286, 19), (1048572, 20),
     (2097144, 21), (4194288, 22), (4194289, 22), (2097145, 21)]"

definition path_rows_160 :: "symbol list" where
  "path_rows_160 =
    [(4194290, 22), (4194291, 22), (1048573, 20), (2097146, 21),
     (4194292, 22), (4194293, 22), (2097147, 21), (4194294, 22),
     (4194295, 22), (524287, 19), (1048574, 20), (2097148, 21),
     (4194296, 22), (4194297, 22), (2097149, 21), (4194298, 22)]"

definition path_rows_176 :: "symbol list" where
  "path_rows_176 =
    [(8388597, 23), (4194299, 22), (8388598, 23), (8388599, 23),
     (1048575, 20), (2097150, 21), (4194300, 22), (8388600, 23),
     (8388601, 23), (4194301, 22), (8388602, 23), (8388603, 23),
     (16777206, 24), (16777207, 24), (2097151, 21), (4194302, 22)]"

definition path_rows_192 :: "symbol list" where
  "path_rows_192 =
    [(8388604, 23), (16777208, 24), (33554416, 25), (33554417, 25),
     (16777209, 24), (33554418, 25), (33554419, 25), (8388605, 23),
     (16777210, 24), (33554420, 25), (33554421, 25), (16777211, 24),
     (33554422, 25), (33554423, 25), (67108847, 26), (4194303, 22)]"

definition path_rows_208 :: "symbol list" where
  "path_rows_208 =
    [(8388606, 23), (16777212, 24), (33554424, 25), (67108848, 26),
     (67108849, 26), (33554425, 25), (67108850, 26), (67108851, 26),
     (16777213, 24), (33554426, 25), (67108852, 26), (67108853, 26),
     (33554427, 25), (67108854, 26), (67108855, 26), (8388607, 23)]"

definition path_rows_224 :: "symbol list" where
  "path_rows_224 =
    [(16777214, 24), (33554428, 25), (67108856, 26), (134217713, 27),
     (67108857, 26), (134217714, 27), (134217715, 27), (33554429, 25),
     (67108858, 26), (134217716, 27), (134217717, 27), (67108859, 26),
     (134217718, 27), (134217719, 27), (16777215, 24), (33554430, 25)]"

definition path_rows_240 :: "symbol list" where
  "path_rows_240 =
    [(67108860, 26), (134217720, 27), (134217721, 27), (67108861, 26),
     (134217722, 27), (134217723, 27), (33554431, 25), (67108862, 26),
     (134217724, 27), (134217725, 27), (67108863, 26), (134217726, 27),
     (134217727, 27), (268435455, 28), (536870910, 29), (536870911, 29)]"

definition path_rows :: "symbol list list" where
  "path_rows =
    [path_rows_0, path_rows_16, path_rows_32, path_rows_48,
     path_rows_64, path_rows_80, path_rows_96, path_rows_112,
     path_rows_128, path_rows_144, path_rows_160, path_rows_176,
     path_rows_192, path_rows_208, path_rows_224, path_rows_240]"

definition trie_path :: "byte \<Rightarrow> bool list" where
  "trie_path s = code_bits (path_rows ! (unat s div 16) ! (unat s mod 16))"

lemma trie_path_0:
  "trie_path 0 = code_bits (0, 0)"
  "trie_path 1 = code_bits (0, 1)"
  "trie_path 2 = code_bits (0, 2)"
  "trie_path 3 = code_bits (0, 3)"
  "trie_path 4 = code_bits (0, 4)"
  "trie_path 5 = code_bits (1, 4)"
  "trie_path 6 = code_bits (1, 3)"
  "trie_path 7 = code_bits (2, 4)"
  "trie_path 8 = code_bits (3, 4)"
  "trie_path 9 = code_bits (1, 2)"
  "trie_path 10 = code_bits (2, 3)"
  "trie_path 11 = code_bits (4, 4)"
  "trie_path 12 = code_bits (5, 4)"
  "trie_path 13 = code_bits (10, 5)"
  "trie_path 14 = code_bits (11, 5)"
  "trie_path 15 = code_bits (3, 3)"
  by (simp_all add: trie_path_def path_rows_def path_rows_0_def)

lemma trie_path_16:
  "trie_path 16 = code_bits (6, 4)"
  "trie_path 17 = code_bits (12, 5)"
  "trie_path 18 = code_bits (13, 5)"
  "trie_path 19 = code_bits (7, 4)"
  "trie_path 20 = code_bits (14, 5)"
  "trie_path 21 = code_bits (15, 5)"
  "trie_path 22 = code_bits (1, 1)"
  "trie_path 23 = code_bits (2, 2)"
  "trie_path 24 = code_bits (4, 3)"
  "trie_path 25 = code_bits (8, 4)"
  "trie_path 26 = code_bits (16, 5)"
  "trie_path 27 = code_bits (17, 5)"
  "trie_path 28 = code_bits (9, 4)"
  "trie_path 29 = code_bits (18, 5)"
  "trie_path 30 = code_bits (19, 5)"
  "trie_path 31 = code_bits (5, 3)"
  by (simp_all add: trie_path_def path_rows_def path_rows_16_def)

lemma trie_path_32:
  "trie_path 32 = code_bits (10, 4)"
  "trie_path 33 = code_bits (20, 5)"
  "trie_path 34 = code_bits (21, 5)"
  "trie_path 35 = code_bits (11, 4)"
  "trie_path 36 = code_bits (22, 5)"
  "trie_path 37 = code_bits (23, 5)"
  "trie_path 38 = code_bits (46, 6)"
  "trie_path 39 = code_bits (47, 6)"
  "trie_path 40 = code_bits (3, 2)"
  "trie_path 41 = code_bits (6, 3)"
  "trie_path 42 = code_bits (12, 4)"
  "trie_path 43 = code_bits (24, 5)"
  "trie_path 44 = code_bits (48, 6)"
  "trie_path 45 = code_bits (49, 6)"
  "trie_path 46 = code_bits (25, 5)"
  "trie_path 47 = code_bits (50, 6)"
  by (simp_all add: trie_path_def path_rows_def path_rows_32_def)

lemma trie_path_48:
  "trie_path 48 = code_bits (51, 6)"
  "trie_path 49 = code_bits (13, 4)"
  "trie_path 50 = code_bits (26, 5)"
  "trie_path 51 = code_bits (52, 6)"
  "trie_path 52 = code_bits (53, 6)"
  "trie_path 53 = code_bits (27, 5)"
  "trie_path 54 = code_bits (54, 6)"
  "trie_path 55 = code_bits (55, 6)"
  "trie_path 56 = code_bits (7, 3)"
  "trie_path 57 = code_bits (14, 4)"
  "trie_path 58 = code_bits (28, 5)"
  "trie_path 59 = code_bits (56, 6)"
  "trie_path 60 = code_bits (57, 6)"
  "trie_path 61 = code_bits (29, 5)"
  "trie_path 62 = code_bits (58, 6)"
  "trie_path 63 = code_bits (59, 6)"
  by (simp_all add: trie_path_def path_rows_def path_rows_48_def)

lemma trie_path_64:
  "trie_path 64 = code_bits (15, 4)"
  "trie_path 65 = code_bits (30, 5)"
  "trie_path 66 = code_bits (60, 6)"
  "trie_path 67 = code_bits (61, 6)"
  "trie_path 68 = code_bits (31, 5)"
  "trie_path 69 = code_bits (62, 6)"
  "trie_path 70 = code_bits (124, 7)"
  "trie_path 71 = code_bits (125, 7)"
  "trie_path 72 = code_bits (63, 6)"
  "trie_path 73 = code_bits (126, 7)"
  "trie_path 74 = code_bits (127, 7)"
  "trie_path 75 = code_bits (254, 8)"
  "trie_path 76 = code_bits (508, 9)"
  "trie_path 77 = code_bits (509, 9)"
  "trie_path 78 = code_bits (255, 8)"
  "trie_path 79 = code_bits (510, 9)"
  by (simp_all add: trie_path_def path_rows_def path_rows_64_def)

lemma trie_path_80:
  "trie_path 80 = code_bits (1021, 10)"
  "trie_path 81 = code_bits (511, 9)"
  "trie_path 82 = code_bits (1022, 10)"
  "trie_path 83 = code_bits (2045, 11)"
  "trie_path 84 = code_bits (1023, 10)"
  "trie_path 85 = code_bits (2046, 11)"
  "trie_path 86 = code_bits (4092, 12)"
  "trie_path 87 = code_bits (4093, 12)"
  "trie_path 88 = code_bits (2047, 11)"
  "trie_path 89 = code_bits (4094, 12)"
  "trie_path 90 = code_bits (4095, 12)"
  "trie_path 91 = code_bits (8190, 13)"
  "trie_path 92 = code_bits (8191, 13)"
  "trie_path 93 = code_bits (16382, 14)"
  "trie_path 94 = code_bits (16383, 14)"
  "trie_path 95 = code_bits (32767, 15)"
  by (simp_all add: trie_path_def path_rows_def path_rows_80_def)

lemma trie_path_96:
  "trie_path 96 = code_bits (65534, 16)"
  "trie_path 97 = code_bits (131068, 17)"
  "trie_path 98 = code_bits (262136, 18)"
  "trie_path 99 = code_bits (262137, 18)"
  "trie_path 100 = code_bits (524275, 19)"
  "trie_path 101 = code_bits (131069, 17)"
  "trie_path 102 = code_bits (262138, 18)"
  "trie_path 103 = code_bits (524276, 19)"
  "trie_path 104 = code_bits (524277, 19)"
  "trie_path 105 = code_bits (262139, 18)"
  "trie_path 106 = code_bits (524278, 19)"
  "trie_path 107 = code_bits (524279, 19)"
  "trie_path 108 = code_bits (1048558, 20)"
  "trie_path 109 = code_bits (1048559, 20)"
  "trie_path 110 = code_bits (65535, 16)"
  "trie_path 111 = code_bits (131070, 17)"
  by (simp_all add: trie_path_def path_rows_def path_rows_96_def)

lemma trie_path_112:
  "trie_path 112 = code_bits (262140, 18)"
  "trie_path 113 = code_bits (524280, 19)"
  "trie_path 114 = code_bits (1048560, 20)"
  "trie_path 115 = code_bits (1048561, 20)"
  "trie_path 116 = code_bits (524281, 19)"
  "trie_path 117 = code_bits (1048562, 20)"
  "trie_path 118 = code_bits (1048563, 20)"
  "trie_path 119 = code_bits (262141, 18)"
  "trie_path 120 = code_bits (524282, 19)"
  "trie_path 121 = code_bits (1048564, 20)"
  "trie_path 122 = code_bits (2097129, 21)"
  "trie_path 123 = code_bits (1048565, 20)"
  "trie_path 124 = code_bits (2097130, 21)"
  "trie_path 125 = code_bits (2097131, 21)"
  "trie_path 126 = code_bits (524283, 19)"
  "trie_path 127 = code_bits (1048566, 20)"
  by (simp_all add: trie_path_def path_rows_def path_rows_112_def)

lemma trie_path_128:
  "trie_path 128 = code_bits (2097132, 21)"
  "trie_path 129 = code_bits (2097133, 21)"
  "trie_path 130 = code_bits (1048567, 20)"
  "trie_path 131 = code_bits (2097134, 21)"
  "trie_path 132 = code_bits (2097135, 21)"
  "trie_path 133 = code_bits (131071, 17)"
  "trie_path 134 = code_bits (262142, 18)"
  "trie_path 135 = code_bits (524284, 19)"
  "trie_path 136 = code_bits (1048568, 20)"
  "trie_path 137 = code_bits (2097136, 21)"
  "trie_path 138 = code_bits (2097137, 21)"
  "trie_path 139 = code_bits (1048569, 20)"
  "trie_path 140 = code_bits (2097138, 21)"
  "trie_path 141 = code_bits (2097139, 21)"
  "trie_path 142 = code_bits (524285, 19)"
  "trie_path 143 = code_bits (1048570, 20)"
  by (simp_all add: trie_path_def path_rows_def path_rows_128_def)

lemma trie_path_144:
  "trie_path 144 = code_bits (2097140, 21)"
  "trie_path 145 = code_bits (2097141, 21)"
  "trie_path 146 = code_bits (1048571, 20)"
  "trie_path 147 = code_bits (2097142, 21)"
  "trie_path 148 = code_bits (4194284, 22)"
  "trie_path 149 = code_bits (4194285, 22)"
  "trie_path 150 = code_bits (2097143, 21)"
  "trie_path 151 = code_bits (4194286, 22)"
  "trie_path 152 = code_bits (4194287, 22)"
  "trie_path 153 = code_bits (262143, 18)"
  "trie_path 154 = code_bits (524286, 19)"
  "trie_path 155 = code_bits (1048572, 20)"
  "trie_path 156 = code_bits (2097144, 21)"
  "trie_path 157 = code_bits (4194288, 22)"
  "trie_path 158 = code_bits (4194289, 22)"
  "trie_path 159 = code_bits (2097145, 21)"
  by (simp_all add: trie_path_def path_rows_def path_rows_144_def)

lemma trie_path_160:
  "trie_path 160 = code_bits (4194290, 22)"
  "trie_path 161 = code_bits (4194291, 22)"
  "trie_path 162 = code_bits (1048573, 20)"
  "trie_path 163 = code_bits (2097146, 21)"
  "trie_path 164 = code_bits (4194292, 22)"
  "trie_path 165 = code_bits (4194293, 22)"
  "trie_path 166 = code_bits (2097147, 21)"
  "trie_path 167 = code_bits (4194294, 22)"
  "trie_path 168 = code_bits (4194295, 22)"
  "trie_path 169 = code_bits (524287, 19)"
  "trie_path 170 = code_bits (1048574, 20)"
  "trie_path 171 = code_bits (2097148, 21)"
  "trie_path 172 = code_bits (4194296, 22)"
  "trie_path 173 = code_bits (4194297, 22)"
  "trie_path 174 = code_bits (2097149, 21)"
  "trie_path 175 = code_bits (4194298, 22)"
  by (simp_all add: trie_path_def path_rows_def path_rows_160_def)

lemma trie_path_176:
  "trie_path 176 = code_bits (8388597, 23)"
  "trie_path 177 = code_bits (4194299, 22)"
  "trie_path 178 = code_bits (8388598, 23)"
  "trie_path 179 = code_bits (8388599, 23)"
  "trie_path 180 = code_bits (1048575, 20)"
  "trie_path 181 = code_bits (2097150, 21)"
  "trie_path 182 = code_bits (4194300, 22)"
  "trie_path 183 = code_bits (8388600, 23)"
  "trie_path 184 = code_bits (8388601, 23)"
  "trie_path 185 = code_bits (4194301, 22)"
  "trie_path 186 = code_bits (8388602, 23)"
  "trie_path 187 = code_bits (8388603, 23)"
  "trie_path 188 = code_bits (16777206, 24)"
  "trie_path 189 = code_bits (16777207, 24)"
  "trie_path 190 = code_bits (2097151, 21)"
  "trie_path 191 = code_bits (4194302, 22)"
  by (simp_all add: trie_path_def path_rows_def path_rows_176_def)

lemma trie_path_192:
  "trie_path 192 = code_bits (8388604, 23)"
  "trie_path 193 = code_bits (16777208, 24)"
  "trie_path 194 = code_bits (33554416, 25)"
  "trie_path 195 = code_bits (33554417, 25)"
  "trie_path 196 = code_bits (16777209, 24)"
  "trie_path 197 = code_bits (33554418, 25)"
  "trie_path 198 = code_bits (33554419, 25)"
  "trie_path 199 = code_bits (8388605, 23)"
  "trie_path 200 = code_bits (16777210, 24)"
  "trie_path 201 = code_bits (33554420, 25)"
  "trie_path 202 = code_bits (33554421, 25)"
  "trie_path 203 = code_bits (16777211, 24)"
  "trie_path 204 = code_bits (33554422, 25)"
  "trie_path 205 = code_bits (33554423, 25)"
  "trie_path 206 = code_bits (67108847, 26)"
  "trie_path 207 = code_bits (4194303, 22)"
  by (simp_all add: trie_path_def path_rows_def path_rows_192_def)

lemma trie_path_208:
  "trie_path 208 = code_bits (8388606, 23)"
  "trie_path 209 = code_bits (16777212, 24)"
  "trie_path 210 = code_bits (33554424, 25)"
  "trie_path 211 = code_bits (67108848, 26)"
  "trie_path 212 = code_bits (67108849, 26)"
  "trie_path 213 = code_bits (33554425, 25)"
  "trie_path 214 = code_bits (67108850, 26)"
  "trie_path 215 = code_bits (67108851, 26)"
  "trie_path 216 = code_bits (16777213, 24)"
  "trie_path 217 = code_bits (33554426, 25)"
  "trie_path 218 = code_bits (67108852, 26)"
  "trie_path 219 = code_bits (67108853, 26)"
  "trie_path 220 = code_bits (33554427, 25)"
  "trie_path 221 = code_bits (67108854, 26)"
  "trie_path 222 = code_bits (67108855, 26)"
  "trie_path 223 = code_bits (8388607, 23)"
  by (simp_all add: trie_path_def path_rows_def path_rows_208_def)

lemma trie_path_224:
  "trie_path 224 = code_bits (16777214, 24)"
  "trie_path 225 = code_bits (33554428, 25)"
  "trie_path 226 = code_bits (67108856, 26)"
  "trie_path 227 = code_bits (134217713, 27)"
  "trie_path 228 = code_bits (67108857, 26)"
  "trie_path 229 = code_bits (134217714, 27)"
  "trie_path 230 = code_bits (134217715, 27)"
  "trie_path 231 = code_bits (33554429, 25)"
  "trie_path 232 = code_bits (67108858, 26)"
  "trie_path 233 = code_bits (134217716, 27)"
  "trie_path 234 = code_bits (134217717, 27)"
  "trie_path 235 = code_bits (67108859, 26)"
  "trie_path 236 = code_bits (134217718, 27)"
  "trie_path 237 = code_bits (134217719, 27)"
  "trie_path 238 = code_bits (16777215, 24)"
  "trie_path 239 = code_bits (33554430, 25)"
  by (simp_all add: trie_path_def path_rows_def path_rows_224_def)

lemma trie_path_240:
  "trie_path 240 = code_bits (67108860, 26)"
  "trie_path 241 = code_bits (134217720, 27)"
  "trie_path 242 = code_bits (134217721, 27)"
  "trie_path 243 = code_bits (67108861, 26)"
  "trie_path 244 = code_bits (134217722, 27)"
  "trie_path 245 = code_bits (134217723, 27)"
  "trie_path 246 = code_bits (33554431, 25)"
  "trie_path 247 = code_bits (67108862, 26)"
  "trie_path 248 = code_bits (134217724, 27)"
  "trie_path 249 = code_bits (134217725, 27)"
  "trie_path 250 = code_bits (67108863, 26)"
  "trie_path 251 = code_bits (134217726, 27)"
  "trie_path 252 = code_bits (134217727, 27)"
  "trie_path 253 = code_bits (268435455, 28)"
  "trie_path 254 = code_bits (536870910, 29)"
  "trie_path 255 = code_bits (536870911, 29)"
  by (simp_all add: trie_path_def path_rows_def path_rows_240_def)

lemmas trie_path_rules =
  trie_path_0 trie_path_16 trie_path_32 trie_path_48
  trie_path_64 trie_path_80 trie_path_96 trie_path_112
  trie_path_128 trie_path_144 trie_path_160 trie_path_176
  trie_path_192 trie_path_208 trie_path_224 trie_path_240

lemma encoding_0:
  "encoding_table ! 0 = (0x1ff8, 13)"
  "encoding_table ! 1 = (0x7fffd8, 23)"
  "encoding_table ! 2 = (0xfffffe2, 28)"
  "encoding_table ! 3 = (0xfffffe3, 28)"
  "encoding_table ! 4 = (0xfffffe4, 28)"
  "encoding_table ! 5 = (0xfffffe5, 28)"
  "encoding_table ! 6 = (0xfffffe6, 28)"
  "encoding_table ! 7 = (0xfffffe7, 28)"
  "encoding_table ! 8 = (0xfffffe8, 28)"
  "encoding_table ! 9 = (0xffffea, 24)"
  "encoding_table ! 10 = (0x3ffffffc, 30)"
  "encoding_table ! 11 = (0xfffffe9, 28)"
  "encoding_table ! 12 = (0xfffffea, 28)"
  "encoding_table ! 13 = (0x3ffffffd, 30)"
  "encoding_table ! 14 = (0xfffffeb, 28)"
  "encoding_table ! 15 = (0xfffffec, 28)"
  "encoding_table ! Suc 0 = (0x7fffd8, 23)"
  by (simp_all add: encoding_table_nth encoding_chunks_def encoding_rows_0_def)

lemma encoding_16:
  "encoding_table ! 16 = (0xfffffed, 28)"
  "encoding_table ! 17 = (0xfffffee, 28)"
  "encoding_table ! 18 = (0xfffffef, 28)"
  "encoding_table ! 19 = (0xffffff0, 28)"
  "encoding_table ! 20 = (0xffffff1, 28)"
  "encoding_table ! 21 = (0xffffff2, 28)"
  "encoding_table ! 22 = (0x3ffffffe, 30)"
  "encoding_table ! 23 = (0xffffff3, 28)"
  "encoding_table ! 24 = (0xffffff4, 28)"
  "encoding_table ! 25 = (0xffffff5, 28)"
  "encoding_table ! 26 = (0xffffff6, 28)"
  "encoding_table ! 27 = (0xffffff7, 28)"
  "encoding_table ! 28 = (0xffffff8, 28)"
  "encoding_table ! 29 = (0xffffff9, 28)"
  "encoding_table ! 30 = (0xffffffa, 28)"
  "encoding_table ! 31 = (0xffffffb, 28)"
  by (simp_all add: encoding_table_nth encoding_chunks_def encoding_rows_16_def)

lemma encoding_32:
  "encoding_table ! 32 = (0x14, 6)"
  "encoding_table ! 33 = (0x3f8, 10)"
  "encoding_table ! 34 = (0x3f9, 10)"
  "encoding_table ! 35 = (0xffa, 12)"
  "encoding_table ! 36 = (0x1ff9, 13)"
  "encoding_table ! 37 = (0x15, 6)"
  "encoding_table ! 38 = (0xf8, 8)"
  "encoding_table ! 39 = (0x7fa, 11)"
  "encoding_table ! 40 = (0x3fa, 10)"
  "encoding_table ! 41 = (0x3fb, 10)"
  "encoding_table ! 42 = (0xf9, 8)"
  "encoding_table ! 43 = (0x7fb, 11)"
  "encoding_table ! 44 = (0xfa, 8)"
  "encoding_table ! 45 = (0x16, 6)"
  "encoding_table ! 46 = (0x17, 6)"
  "encoding_table ! 47 = (0x18, 6)"
  by (simp_all add: encoding_table_nth encoding_chunks_def encoding_rows_32_def)

lemma encoding_48:
  "encoding_table ! 48 = (0x0, 5)"
  "encoding_table ! 49 = (0x1, 5)"
  "encoding_table ! 50 = (0x2, 5)"
  "encoding_table ! 51 = (0x19, 6)"
  "encoding_table ! 52 = (0x1a, 6)"
  "encoding_table ! 53 = (0x1b, 6)"
  "encoding_table ! 54 = (0x1c, 6)"
  "encoding_table ! 55 = (0x1d, 6)"
  "encoding_table ! 56 = (0x1e, 6)"
  "encoding_table ! 57 = (0x1f, 6)"
  "encoding_table ! 58 = (0x5c, 7)"
  "encoding_table ! 59 = (0xfb, 8)"
  "encoding_table ! 60 = (0x7ffc, 15)"
  "encoding_table ! 61 = (0x20, 6)"
  "encoding_table ! 62 = (0xffb, 12)"
  "encoding_table ! 63 = (0x3fc, 10)"
  by (simp_all add: encoding_table_nth encoding_chunks_def encoding_rows_48_def)

lemma encoding_64:
  "encoding_table ! 64 = (0x1ffa, 13)"
  "encoding_table ! 65 = (0x21, 6)"
  "encoding_table ! 66 = (0x5d, 7)"
  "encoding_table ! 67 = (0x5e, 7)"
  "encoding_table ! 68 = (0x5f, 7)"
  "encoding_table ! 69 = (0x60, 7)"
  "encoding_table ! 70 = (0x61, 7)"
  "encoding_table ! 71 = (0x62, 7)"
  "encoding_table ! 72 = (0x63, 7)"
  "encoding_table ! 73 = (0x64, 7)"
  "encoding_table ! 74 = (0x65, 7)"
  "encoding_table ! 75 = (0x66, 7)"
  "encoding_table ! 76 = (0x67, 7)"
  "encoding_table ! 77 = (0x68, 7)"
  "encoding_table ! 78 = (0x69, 7)"
  "encoding_table ! 79 = (0x6a, 7)"
  by (simp_all add: encoding_table_nth encoding_chunks_def encoding_rows_64_def)

lemma encoding_80:
  "encoding_table ! 80 = (0x6b, 7)"
  "encoding_table ! 81 = (0x6c, 7)"
  "encoding_table ! 82 = (0x6d, 7)"
  "encoding_table ! 83 = (0x6e, 7)"
  "encoding_table ! 84 = (0x6f, 7)"
  "encoding_table ! 85 = (0x70, 7)"
  "encoding_table ! 86 = (0x71, 7)"
  "encoding_table ! 87 = (0x72, 7)"
  "encoding_table ! 88 = (0xfc, 8)"
  "encoding_table ! 89 = (0x73, 7)"
  "encoding_table ! 90 = (0xfd, 8)"
  "encoding_table ! 91 = (0x1ffb, 13)"
  "encoding_table ! 92 = (0x7fff0, 19)"
  "encoding_table ! 93 = (0x1ffc, 13)"
  "encoding_table ! 94 = (0x3ffc, 14)"
  "encoding_table ! 95 = (0x22, 6)"
  by (simp_all add: encoding_table_nth encoding_chunks_def encoding_rows_80_def)

lemma encoding_96:
  "encoding_table ! 96 = (0x7ffd, 15)"
  "encoding_table ! 97 = (0x3, 5)"
  "encoding_table ! 98 = (0x23, 6)"
  "encoding_table ! 99 = (0x4, 5)"
  "encoding_table ! 100 = (0x24, 6)"
  "encoding_table ! 101 = (0x5, 5)"
  "encoding_table ! 102 = (0x25, 6)"
  "encoding_table ! 103 = (0x26, 6)"
  "encoding_table ! 104 = (0x27, 6)"
  "encoding_table ! 105 = (0x6, 5)"
  "encoding_table ! 106 = (0x74, 7)"
  "encoding_table ! 107 = (0x75, 7)"
  "encoding_table ! 108 = (0x28, 6)"
  "encoding_table ! 109 = (0x29, 6)"
  "encoding_table ! 110 = (0x2a, 6)"
  "encoding_table ! 111 = (0x7, 5)"
  by (simp_all add: encoding_table_nth encoding_chunks_def encoding_rows_96_def)

lemma encoding_112:
  "encoding_table ! 112 = (0x2b, 6)"
  "encoding_table ! 113 = (0x76, 7)"
  "encoding_table ! 114 = (0x2c, 6)"
  "encoding_table ! 115 = (0x8, 5)"
  "encoding_table ! 116 = (0x9, 5)"
  "encoding_table ! 117 = (0x2d, 6)"
  "encoding_table ! 118 = (0x77, 7)"
  "encoding_table ! 119 = (0x78, 7)"
  "encoding_table ! 120 = (0x79, 7)"
  "encoding_table ! 121 = (0x7a, 7)"
  "encoding_table ! 122 = (0x7b, 7)"
  "encoding_table ! 123 = (0x7ffe, 15)"
  "encoding_table ! 124 = (0x7fc, 11)"
  "encoding_table ! 125 = (0x3ffd, 14)"
  "encoding_table ! 126 = (0x1ffd, 13)"
  "encoding_table ! 127 = (0xffffffc, 28)"
  by (simp_all add: encoding_table_nth encoding_chunks_def encoding_rows_112_def)

lemma encoding_128:
  "encoding_table ! 128 = (0xfffe6, 20)"
  "encoding_table ! 129 = (0x3fffd2, 22)"
  "encoding_table ! 130 = (0xfffe7, 20)"
  "encoding_table ! 131 = (0xfffe8, 20)"
  "encoding_table ! 132 = (0x3fffd3, 22)"
  "encoding_table ! 133 = (0x3fffd4, 22)"
  "encoding_table ! 134 = (0x3fffd5, 22)"
  "encoding_table ! 135 = (0x7fffd9, 23)"
  "encoding_table ! 136 = (0x3fffd6, 22)"
  "encoding_table ! 137 = (0x7fffda, 23)"
  "encoding_table ! 138 = (0x7fffdb, 23)"
  "encoding_table ! 139 = (0x7fffdc, 23)"
  "encoding_table ! 140 = (0x7fffdd, 23)"
  "encoding_table ! 141 = (0x7fffde, 23)"
  "encoding_table ! 142 = (0xffffeb, 24)"
  "encoding_table ! 143 = (0x7fffdf, 23)"
  by (simp_all add: encoding_table_nth encoding_chunks_def encoding_rows_128_def)

lemma encoding_144:
  "encoding_table ! 144 = (0xffffec, 24)"
  "encoding_table ! 145 = (0xffffed, 24)"
  "encoding_table ! 146 = (0x3fffd7, 22)"
  "encoding_table ! 147 = (0x7fffe0, 23)"
  "encoding_table ! 148 = (0xffffee, 24)"
  "encoding_table ! 149 = (0x7fffe1, 23)"
  "encoding_table ! 150 = (0x7fffe2, 23)"
  "encoding_table ! 151 = (0x7fffe3, 23)"
  "encoding_table ! 152 = (0x7fffe4, 23)"
  "encoding_table ! 153 = (0x1fffdc, 21)"
  "encoding_table ! 154 = (0x3fffd8, 22)"
  "encoding_table ! 155 = (0x7fffe5, 23)"
  "encoding_table ! 156 = (0x3fffd9, 22)"
  "encoding_table ! 157 = (0x7fffe6, 23)"
  "encoding_table ! 158 = (0x7fffe7, 23)"
  "encoding_table ! 159 = (0xffffef, 24)"
  by (simp_all add: encoding_table_nth encoding_chunks_def encoding_rows_144_def)

lemma encoding_160:
  "encoding_table ! 160 = (0x3fffda, 22)"
  "encoding_table ! 161 = (0x1fffdd, 21)"
  "encoding_table ! 162 = (0xfffe9, 20)"
  "encoding_table ! 163 = (0x3fffdb, 22)"
  "encoding_table ! 164 = (0x3fffdc, 22)"
  "encoding_table ! 165 = (0x7fffe8, 23)"
  "encoding_table ! 166 = (0x7fffe9, 23)"
  "encoding_table ! 167 = (0x1fffde, 21)"
  "encoding_table ! 168 = (0x7fffea, 23)"
  "encoding_table ! 169 = (0x3fffdd, 22)"
  "encoding_table ! 170 = (0x3fffde, 22)"
  "encoding_table ! 171 = (0xfffff0, 24)"
  "encoding_table ! 172 = (0x1fffdf, 21)"
  "encoding_table ! 173 = (0x3fffdf, 22)"
  "encoding_table ! 174 = (0x7fffeb, 23)"
  "encoding_table ! 175 = (0x7fffec, 23)"
  by (simp_all add: encoding_table_nth encoding_chunks_def encoding_rows_160_def)

lemma encoding_176:
  "encoding_table ! 176 = (0x1fffe0, 21)"
  "encoding_table ! 177 = (0x1fffe1, 21)"
  "encoding_table ! 178 = (0x3fffe0, 22)"
  "encoding_table ! 179 = (0x1fffe2, 21)"
  "encoding_table ! 180 = (0x7fffed, 23)"
  "encoding_table ! 181 = (0x3fffe1, 22)"
  "encoding_table ! 182 = (0x7fffee, 23)"
  "encoding_table ! 183 = (0x7fffef, 23)"
  "encoding_table ! 184 = (0xfffea, 20)"
  "encoding_table ! 185 = (0x3fffe2, 22)"
  "encoding_table ! 186 = (0x3fffe3, 22)"
  "encoding_table ! 187 = (0x3fffe4, 22)"
  "encoding_table ! 188 = (0x7ffff0, 23)"
  "encoding_table ! 189 = (0x3fffe5, 22)"
  "encoding_table ! 190 = (0x3fffe6, 22)"
  "encoding_table ! 191 = (0x7ffff1, 23)"
  by (simp_all add: encoding_table_nth encoding_chunks_def encoding_rows_176_def)

lemma encoding_192:
  "encoding_table ! 192 = (0x3ffffe0, 26)"
  "encoding_table ! 193 = (0x3ffffe1, 26)"
  "encoding_table ! 194 = (0xfffeb, 20)"
  "encoding_table ! 195 = (0x7fff1, 19)"
  "encoding_table ! 196 = (0x3fffe7, 22)"
  "encoding_table ! 197 = (0x7ffff2, 23)"
  "encoding_table ! 198 = (0x3fffe8, 22)"
  "encoding_table ! 199 = (0x1ffffec, 25)"
  "encoding_table ! 200 = (0x3ffffe2, 26)"
  "encoding_table ! 201 = (0x3ffffe3, 26)"
  "encoding_table ! 202 = (0x3ffffe4, 26)"
  "encoding_table ! 203 = (0x7ffffde, 27)"
  "encoding_table ! 204 = (0x7ffffdf, 27)"
  "encoding_table ! 205 = (0x3ffffe5, 26)"
  "encoding_table ! 206 = (0xfffff1, 24)"
  "encoding_table ! 207 = (0x1ffffed, 25)"
  by (simp_all add: encoding_table_nth encoding_chunks_def encoding_rows_192_def)

lemma encoding_208:
  "encoding_table ! 208 = (0x7fff2, 19)"
  "encoding_table ! 209 = (0x1fffe3, 21)"
  "encoding_table ! 210 = (0x3ffffe6, 26)"
  "encoding_table ! 211 = (0x7ffffe0, 27)"
  "encoding_table ! 212 = (0x7ffffe1, 27)"
  "encoding_table ! 213 = (0x3ffffe7, 26)"
  "encoding_table ! 214 = (0x7ffffe2, 27)"
  "encoding_table ! 215 = (0xfffff2, 24)"
  "encoding_table ! 216 = (0x1fffe4, 21)"
  "encoding_table ! 217 = (0x1fffe5, 21)"
  "encoding_table ! 218 = (0x3ffffe8, 26)"
  "encoding_table ! 219 = (0x3ffffe9, 26)"
  "encoding_table ! 220 = (0xffffffd, 28)"
  "encoding_table ! 221 = (0x7ffffe3, 27)"
  "encoding_table ! 222 = (0x7ffffe4, 27)"
  "encoding_table ! 223 = (0x7ffffe5, 27)"
  by (simp_all add: encoding_table_nth encoding_chunks_def encoding_rows_208_def)

lemma encoding_224:
  "encoding_table ! 224 = (0xfffec, 20)"
  "encoding_table ! 225 = (0xfffff3, 24)"
  "encoding_table ! 226 = (0xfffed, 20)"
  "encoding_table ! 227 = (0x1fffe6, 21)"
  "encoding_table ! 228 = (0x3fffe9, 22)"
  "encoding_table ! 229 = (0x1fffe7, 21)"
  "encoding_table ! 230 = (0x1fffe8, 21)"
  "encoding_table ! 231 = (0x7ffff3, 23)"
  "encoding_table ! 232 = (0x3fffea, 22)"
  "encoding_table ! 233 = (0x3fffeb, 22)"
  "encoding_table ! 234 = (0x1ffffee, 25)"
  "encoding_table ! 235 = (0x1ffffef, 25)"
  "encoding_table ! 236 = (0xfffff4, 24)"
  "encoding_table ! 237 = (0xfffff5, 24)"
  "encoding_table ! 238 = (0x3ffffea, 26)"
  "encoding_table ! 239 = (0x7ffff4, 23)"
  by (simp_all add: encoding_table_nth encoding_chunks_def encoding_rows_224_def)

lemma encoding_240:
  "encoding_table ! 240 = (0x3ffffeb, 26)"
  "encoding_table ! 241 = (0x7ffffe6, 27)"
  "encoding_table ! 242 = (0x3ffffec, 26)"
  "encoding_table ! 243 = (0x3ffffed, 26)"
  "encoding_table ! 244 = (0x7ffffe7, 27)"
  "encoding_table ! 245 = (0x7ffffe8, 27)"
  "encoding_table ! 246 = (0x7ffffe9, 27)"
  "encoding_table ! 247 = (0x7ffffea, 27)"
  "encoding_table ! 248 = (0x7ffffeb, 27)"
  "encoding_table ! 249 = (0xffffffe, 28)"
  "encoding_table ! 250 = (0x7ffffec, 27)"
  "encoding_table ! 251 = (0x7ffffed, 27)"
  "encoding_table ! 252 = (0x7ffffee, 27)"
  "encoding_table ! 253 = (0x7ffffef, 27)"
  "encoding_table ! 254 = (0x7fffff0, 27)"
  "encoding_table ! 255 = (0x3ffffee, 26)"
  "encoding_table ! 256 = (0x3fffffff, 30)"
  by (simp_all add: encoding_table_nth encoding_chunks_def encoding_rows_240_def encoding_rows_256_def)

lemmas encoding_rules =
  encoding_0 encoding_16 encoding_32 encoding_48
  encoding_64 encoding_80 encoding_96 encoding_112
  encoding_128 encoding_144 encoding_160 encoding_176
  encoding_192 encoding_208 encoding_224 encoding_240

text \<open>
  Every edge of the tree extends the path of its node by its bit; the path to a leaf is the code
  of its symbol.
\<close>

definition target_path :: "target \<Rightarrow> bool list" where
  "target_path t =
     (case t of
        Inner s \<Rightarrow> trie_path s
      | Leaf x \<Rightarrow> code_bits (encoding_table ! unat x)
      | Eos \<Rightarrow> code_bits (encoding_table ! 256))"

definition edge_ok :: "byte \<Rightarrow> bool" where
  "edge_ok s \<longleftrightarrow>
     target_path (fst (children s)) = trie_path s @ [False] \<and>
     target_path (snd (children s)) = trie_path s @ [True]"

lemmas edge_simps = edge_ok_def target_path_def children_rules trie_path_rules encoding_rules
  code_bits_eval

lemma edges_0:
  "edge_ok 0" "edge_ok 1" "edge_ok 2" "edge_ok 3" "edge_ok 4" "edge_ok 5" "edge_ok 6" "edge_ok 7"
  "edge_ok 8" "edge_ok 9" "edge_ok 10" "edge_ok 11" "edge_ok 12" "edge_ok 13" "edge_ok 14" "edge_ok 15"
  by (simp_all add: edge_simps)

lemma edges_16:
  "edge_ok 16" "edge_ok 17" "edge_ok 18" "edge_ok 19" "edge_ok 20" "edge_ok 21" "edge_ok 22" "edge_ok 23"
  "edge_ok 24" "edge_ok 25" "edge_ok 26" "edge_ok 27" "edge_ok 28" "edge_ok 29" "edge_ok 30" "edge_ok 31"
  by (simp_all add: edge_simps)

lemma edges_32:
  "edge_ok 32" "edge_ok 33" "edge_ok 34" "edge_ok 35" "edge_ok 36" "edge_ok 37" "edge_ok 38" "edge_ok 39"
  "edge_ok 40" "edge_ok 41" "edge_ok 42" "edge_ok 43" "edge_ok 44" "edge_ok 45" "edge_ok 46" "edge_ok 47"
  by (simp_all add: edge_simps)

lemma edges_48:
  "edge_ok 48" "edge_ok 49" "edge_ok 50" "edge_ok 51" "edge_ok 52" "edge_ok 53" "edge_ok 54" "edge_ok 55"
  "edge_ok 56" "edge_ok 57" "edge_ok 58" "edge_ok 59" "edge_ok 60" "edge_ok 61" "edge_ok 62" "edge_ok 63"
  by (simp_all add: edge_simps)

lemma edges_64:
  "edge_ok 64" "edge_ok 65" "edge_ok 66" "edge_ok 67" "edge_ok 68" "edge_ok 69" "edge_ok 70" "edge_ok 71"
  "edge_ok 72" "edge_ok 73" "edge_ok 74" "edge_ok 75" "edge_ok 76" "edge_ok 77" "edge_ok 78" "edge_ok 79"
  by (simp_all add: edge_simps)

lemma edges_80:
  "edge_ok 80" "edge_ok 81" "edge_ok 82" "edge_ok 83" "edge_ok 84" "edge_ok 85" "edge_ok 86" "edge_ok 87"
  "edge_ok 88" "edge_ok 89" "edge_ok 90" "edge_ok 91" "edge_ok 92" "edge_ok 93" "edge_ok 94" "edge_ok 95"
  by (simp_all add: edge_simps)

lemma edges_96:
  "edge_ok 96" "edge_ok 97" "edge_ok 98" "edge_ok 99" "edge_ok 100" "edge_ok 101" "edge_ok 102" "edge_ok 103"
  "edge_ok 104" "edge_ok 105" "edge_ok 106" "edge_ok 107" "edge_ok 108" "edge_ok 109" "edge_ok 110" "edge_ok 111"
  by (simp_all add: edge_simps)

lemma edges_112:
  "edge_ok 112" "edge_ok 113" "edge_ok 114" "edge_ok 115" "edge_ok 116" "edge_ok 117" "edge_ok 118" "edge_ok 119"
  "edge_ok 120" "edge_ok 121" "edge_ok 122" "edge_ok 123" "edge_ok 124" "edge_ok 125" "edge_ok 126" "edge_ok 127"
  by (simp_all add: edge_simps)

lemma edges_128:
  "edge_ok 128" "edge_ok 129" "edge_ok 130" "edge_ok 131" "edge_ok 132" "edge_ok 133" "edge_ok 134" "edge_ok 135"
  "edge_ok 136" "edge_ok 137" "edge_ok 138" "edge_ok 139" "edge_ok 140" "edge_ok 141" "edge_ok 142" "edge_ok 143"
  by (simp_all add: edge_simps)

lemma edges_144:
  "edge_ok 144" "edge_ok 145" "edge_ok 146" "edge_ok 147" "edge_ok 148" "edge_ok 149" "edge_ok 150" "edge_ok 151"
  "edge_ok 152" "edge_ok 153" "edge_ok 154" "edge_ok 155" "edge_ok 156" "edge_ok 157" "edge_ok 158" "edge_ok 159"
  by (simp_all add: edge_simps)

lemma edges_160:
  "edge_ok 160" "edge_ok 161" "edge_ok 162" "edge_ok 163" "edge_ok 164" "edge_ok 165" "edge_ok 166" "edge_ok 167"
  "edge_ok 168" "edge_ok 169" "edge_ok 170" "edge_ok 171" "edge_ok 172" "edge_ok 173" "edge_ok 174" "edge_ok 175"
  by (simp_all add: edge_simps)

lemma edges_176:
  "edge_ok 176" "edge_ok 177" "edge_ok 178" "edge_ok 179" "edge_ok 180" "edge_ok 181" "edge_ok 182" "edge_ok 183"
  "edge_ok 184" "edge_ok 185" "edge_ok 186" "edge_ok 187" "edge_ok 188" "edge_ok 189" "edge_ok 190" "edge_ok 191"
  by (simp_all add: edge_simps)

lemma edges_192:
  "edge_ok 192" "edge_ok 193" "edge_ok 194" "edge_ok 195" "edge_ok 196" "edge_ok 197" "edge_ok 198" "edge_ok 199"
  "edge_ok 200" "edge_ok 201" "edge_ok 202" "edge_ok 203" "edge_ok 204" "edge_ok 205" "edge_ok 206" "edge_ok 207"
  by (simp_all add: edge_simps)

lemma edges_208:
  "edge_ok 208" "edge_ok 209" "edge_ok 210" "edge_ok 211" "edge_ok 212" "edge_ok 213" "edge_ok 214" "edge_ok 215"
  "edge_ok 216" "edge_ok 217" "edge_ok 218" "edge_ok 219" "edge_ok 220" "edge_ok 221" "edge_ok 222" "edge_ok 223"
  by (simp_all add: edge_simps)

lemma edges_224:
  "edge_ok 224" "edge_ok 225" "edge_ok 226" "edge_ok 227" "edge_ok 228" "edge_ok 229" "edge_ok 230" "edge_ok 231"
  "edge_ok 232" "edge_ok 233" "edge_ok 234" "edge_ok 235" "edge_ok 236" "edge_ok 237" "edge_ok 238" "edge_ok 239"
  by (simp_all add: edge_simps)

lemma edges_240:
  "edge_ok 240" "edge_ok 241" "edge_ok 242" "edge_ok 243" "edge_ok 244" "edge_ok 245" "edge_ok 246" "edge_ok 247"
  "edge_ok 248" "edge_ok 249" "edge_ok 250" "edge_ok 251" "edge_ok 252" "edge_ok 253" "edge_ok 254" "edge_ok 255"
  by (simp_all add: edge_simps)

lemma edge_ok_all: "edge_ok s"
proof -
  have "\<forall>r \<in> set byte_chunks. \<forall>x \<in> set r. edge_ok x"
    by (simp add: byte_chunks_def edges_0 edges_16 edges_32 edges_48 edges_64 edges_80 edges_96 edges_112 edges_128 edges_144 edges_160 edges_176 edges_192 edges_208 edges_224 edges_240)
  then have "\<forall>x \<in> set all_bytes. edge_ok x" by (simp add: all_bytes_def)
  moreover have "s \<in> set all_bytes"
    using nth_mem [of "unat s" all_bytes] unsigned_less [of s] by (simp add: nth_all_bytes)
  ultimately show ?thesis by blast
qed

section \<open>Reading bits\<close>

text \<open>
  The reference decoder: from inner node \<open>s\<close> read the bits one by one, returning to the root after
  each symbol; the result is the symbols and the node that is reached.
\<close>

fun bit_run :: "byte \<Rightarrow> bool list \<Rightarrow> (byte list \<times> byte) option" where
  "bit_run s [] = Some ([], s)"
| "bit_run s (b # bs) =
     (case child s b of
        Inner t \<Rightarrow> bit_run t bs
      | Leaf x \<Rightarrow> map_option (\<lambda>(xs, t). (x # xs, t)) (bit_run 0 bs)
      | Eos \<Rightarrow> None)"

definition code_of :: "byte \<Rightarrow> bool list" where
  "code_of x = code_bits (encoding_table ! unat x)"

lemma bit_run_append:
  "bit_run s (as @ bs) =
     (case bit_run s as of
        None \<Rightarrow> None
      | Some (xs, t) \<Rightarrow> map_option (\<lambda>(ys, u). (xs @ ys, u)) (bit_run t bs))"
proof (induction s as rule: bit_run.induct)
  case (1 s)
  then show ?case by (cases "bit_run s bs") auto
next
  case (2 s b as)
  show ?case
  proof (cases "child s b")
    case (Leaf x)
    show ?thesis
    proof (cases "bit_run 0 as")
      case None
      then show ?thesis using Leaf "2.IH"(2) [OF Leaf] by simp
    next
      case (Some p)
      then show ?thesis using Leaf "2.IH"(2) [OF Leaf]
        by (cases "bit_run (snd p) bs") (auto split: prod.splits)
    qed
  qed (use 2 in simp_all)
qed

lemma trie_path_root: "trie_path 0 = []"
  by (simp add: trie_path_rules code_bits_def)

lemma bit_run_path:
  "bit_run s bs = Some (xs, t) \<Longrightarrow> trie_path s @ bs = concat (map code_of xs) @ trie_path t"
proof (induction s bs arbitrary: xs rule: bit_run.induct)
  case (2 s b bs)
  have edge: "target_path (child s b) = trie_path s @ [b]"
    using edge_ok_all [of s] by (simp add: edge_ok_def child_def)
  show ?case
  proof (cases "child s b")
    case (Inner u)
    then have "trie_path u @ bs = concat (map code_of xs) @ trie_path t" using 2 by simp
    then show ?thesis using Inner edge by (simp add: target_path_def)
  next
    case (Leaf x)
    then obtain ys where ys: "bit_run 0 bs = Some (ys, t)" "xs = x # ys" using 2 by auto
    have "bs = concat (map code_of ys) @ trie_path t"
      using "2.IH"(2) [OF Leaf ys(1)] by (simp add: trie_path_root)
    then show ?thesis using edge Leaf ys(2) by (simp add: target_path_def code_of_def [symmetric])
  next
    case Eos
    then show ?thesis using 2 by simp
  qed
qed simp

text \<open>Each code leads from the root to its symbol.\<close>

lemma codes_0:
  "bit_run 0 (code_of 0) = Some ([0], 0)"
  "bit_run 0 (code_of 1) = Some ([1], 0)"
  "bit_run 0 (code_of 2) = Some ([2], 0)"
  "bit_run 0 (code_of 3) = Some ([3], 0)"
  "bit_run 0 (code_of 4) = Some ([4], 0)"
  "bit_run 0 (code_of 5) = Some ([5], 0)"
  "bit_run 0 (code_of 6) = Some ([6], 0)"
  "bit_run 0 (code_of 7) = Some ([7], 0)"
  "bit_run 0 (code_of 8) = Some ([8], 0)"
  "bit_run 0 (code_of 9) = Some ([9], 0)"
  "bit_run 0 (code_of 10) = Some ([10], 0)"
  "bit_run 0 (code_of 11) = Some ([11], 0)"
  "bit_run 0 (code_of 12) = Some ([12], 0)"
  "bit_run 0 (code_of 13) = Some ([13], 0)"
  "bit_run 0 (code_of 14) = Some ([14], 0)"
  "bit_run 0 (code_of 15) = Some ([15], 0)"
  by (simp_all add: code_of_def encoding_rules code_bits_eval child_def children_rules)

lemma codes_16:
  "bit_run 0 (code_of 16) = Some ([16], 0)"
  "bit_run 0 (code_of 17) = Some ([17], 0)"
  "bit_run 0 (code_of 18) = Some ([18], 0)"
  "bit_run 0 (code_of 19) = Some ([19], 0)"
  "bit_run 0 (code_of 20) = Some ([20], 0)"
  "bit_run 0 (code_of 21) = Some ([21], 0)"
  "bit_run 0 (code_of 22) = Some ([22], 0)"
  "bit_run 0 (code_of 23) = Some ([23], 0)"
  "bit_run 0 (code_of 24) = Some ([24], 0)"
  "bit_run 0 (code_of 25) = Some ([25], 0)"
  "bit_run 0 (code_of 26) = Some ([26], 0)"
  "bit_run 0 (code_of 27) = Some ([27], 0)"
  "bit_run 0 (code_of 28) = Some ([28], 0)"
  "bit_run 0 (code_of 29) = Some ([29], 0)"
  "bit_run 0 (code_of 30) = Some ([30], 0)"
  "bit_run 0 (code_of 31) = Some ([31], 0)"
  by (simp_all add: code_of_def encoding_rules code_bits_eval child_def children_rules)

lemma codes_32:
  "bit_run 0 (code_of 32) = Some ([32], 0)"
  "bit_run 0 (code_of 33) = Some ([33], 0)"
  "bit_run 0 (code_of 34) = Some ([34], 0)"
  "bit_run 0 (code_of 35) = Some ([35], 0)"
  "bit_run 0 (code_of 36) = Some ([36], 0)"
  "bit_run 0 (code_of 37) = Some ([37], 0)"
  "bit_run 0 (code_of 38) = Some ([38], 0)"
  "bit_run 0 (code_of 39) = Some ([39], 0)"
  "bit_run 0 (code_of 40) = Some ([40], 0)"
  "bit_run 0 (code_of 41) = Some ([41], 0)"
  "bit_run 0 (code_of 42) = Some ([42], 0)"
  "bit_run 0 (code_of 43) = Some ([43], 0)"
  "bit_run 0 (code_of 44) = Some ([44], 0)"
  "bit_run 0 (code_of 45) = Some ([45], 0)"
  "bit_run 0 (code_of 46) = Some ([46], 0)"
  "bit_run 0 (code_of 47) = Some ([47], 0)"
  by (simp_all add: code_of_def encoding_rules code_bits_eval child_def children_rules)

lemma codes_48:
  "bit_run 0 (code_of 48) = Some ([48], 0)"
  "bit_run 0 (code_of 49) = Some ([49], 0)"
  "bit_run 0 (code_of 50) = Some ([50], 0)"
  "bit_run 0 (code_of 51) = Some ([51], 0)"
  "bit_run 0 (code_of 52) = Some ([52], 0)"
  "bit_run 0 (code_of 53) = Some ([53], 0)"
  "bit_run 0 (code_of 54) = Some ([54], 0)"
  "bit_run 0 (code_of 55) = Some ([55], 0)"
  "bit_run 0 (code_of 56) = Some ([56], 0)"
  "bit_run 0 (code_of 57) = Some ([57], 0)"
  "bit_run 0 (code_of 58) = Some ([58], 0)"
  "bit_run 0 (code_of 59) = Some ([59], 0)"
  "bit_run 0 (code_of 60) = Some ([60], 0)"
  "bit_run 0 (code_of 61) = Some ([61], 0)"
  "bit_run 0 (code_of 62) = Some ([62], 0)"
  "bit_run 0 (code_of 63) = Some ([63], 0)"
  by (simp_all add: code_of_def encoding_rules code_bits_eval child_def children_rules)

lemma codes_64:
  "bit_run 0 (code_of 64) = Some ([64], 0)"
  "bit_run 0 (code_of 65) = Some ([65], 0)"
  "bit_run 0 (code_of 66) = Some ([66], 0)"
  "bit_run 0 (code_of 67) = Some ([67], 0)"
  "bit_run 0 (code_of 68) = Some ([68], 0)"
  "bit_run 0 (code_of 69) = Some ([69], 0)"
  "bit_run 0 (code_of 70) = Some ([70], 0)"
  "bit_run 0 (code_of 71) = Some ([71], 0)"
  "bit_run 0 (code_of 72) = Some ([72], 0)"
  "bit_run 0 (code_of 73) = Some ([73], 0)"
  "bit_run 0 (code_of 74) = Some ([74], 0)"
  "bit_run 0 (code_of 75) = Some ([75], 0)"
  "bit_run 0 (code_of 76) = Some ([76], 0)"
  "bit_run 0 (code_of 77) = Some ([77], 0)"
  "bit_run 0 (code_of 78) = Some ([78], 0)"
  "bit_run 0 (code_of 79) = Some ([79], 0)"
  by (simp_all add: code_of_def encoding_rules code_bits_eval child_def children_rules)

lemma codes_80:
  "bit_run 0 (code_of 80) = Some ([80], 0)"
  "bit_run 0 (code_of 81) = Some ([81], 0)"
  "bit_run 0 (code_of 82) = Some ([82], 0)"
  "bit_run 0 (code_of 83) = Some ([83], 0)"
  "bit_run 0 (code_of 84) = Some ([84], 0)"
  "bit_run 0 (code_of 85) = Some ([85], 0)"
  "bit_run 0 (code_of 86) = Some ([86], 0)"
  "bit_run 0 (code_of 87) = Some ([87], 0)"
  "bit_run 0 (code_of 88) = Some ([88], 0)"
  "bit_run 0 (code_of 89) = Some ([89], 0)"
  "bit_run 0 (code_of 90) = Some ([90], 0)"
  "bit_run 0 (code_of 91) = Some ([91], 0)"
  "bit_run 0 (code_of 92) = Some ([92], 0)"
  "bit_run 0 (code_of 93) = Some ([93], 0)"
  "bit_run 0 (code_of 94) = Some ([94], 0)"
  "bit_run 0 (code_of 95) = Some ([95], 0)"
  by (simp_all add: code_of_def encoding_rules code_bits_eval child_def children_rules)

lemma codes_96:
  "bit_run 0 (code_of 96) = Some ([96], 0)"
  "bit_run 0 (code_of 97) = Some ([97], 0)"
  "bit_run 0 (code_of 98) = Some ([98], 0)"
  "bit_run 0 (code_of 99) = Some ([99], 0)"
  "bit_run 0 (code_of 100) = Some ([100], 0)"
  "bit_run 0 (code_of 101) = Some ([101], 0)"
  "bit_run 0 (code_of 102) = Some ([102], 0)"
  "bit_run 0 (code_of 103) = Some ([103], 0)"
  "bit_run 0 (code_of 104) = Some ([104], 0)"
  "bit_run 0 (code_of 105) = Some ([105], 0)"
  "bit_run 0 (code_of 106) = Some ([106], 0)"
  "bit_run 0 (code_of 107) = Some ([107], 0)"
  "bit_run 0 (code_of 108) = Some ([108], 0)"
  "bit_run 0 (code_of 109) = Some ([109], 0)"
  "bit_run 0 (code_of 110) = Some ([110], 0)"
  "bit_run 0 (code_of 111) = Some ([111], 0)"
  by (simp_all add: code_of_def encoding_rules code_bits_eval child_def children_rules)

lemma codes_112:
  "bit_run 0 (code_of 112) = Some ([112], 0)"
  "bit_run 0 (code_of 113) = Some ([113], 0)"
  "bit_run 0 (code_of 114) = Some ([114], 0)"
  "bit_run 0 (code_of 115) = Some ([115], 0)"
  "bit_run 0 (code_of 116) = Some ([116], 0)"
  "bit_run 0 (code_of 117) = Some ([117], 0)"
  "bit_run 0 (code_of 118) = Some ([118], 0)"
  "bit_run 0 (code_of 119) = Some ([119], 0)"
  "bit_run 0 (code_of 120) = Some ([120], 0)"
  "bit_run 0 (code_of 121) = Some ([121], 0)"
  "bit_run 0 (code_of 122) = Some ([122], 0)"
  "bit_run 0 (code_of 123) = Some ([123], 0)"
  "bit_run 0 (code_of 124) = Some ([124], 0)"
  "bit_run 0 (code_of 125) = Some ([125], 0)"
  "bit_run 0 (code_of 126) = Some ([126], 0)"
  "bit_run 0 (code_of 127) = Some ([127], 0)"
  by (simp_all add: code_of_def encoding_rules code_bits_eval child_def children_rules)

lemma codes_128:
  "bit_run 0 (code_of 128) = Some ([128], 0)"
  "bit_run 0 (code_of 129) = Some ([129], 0)"
  "bit_run 0 (code_of 130) = Some ([130], 0)"
  "bit_run 0 (code_of 131) = Some ([131], 0)"
  "bit_run 0 (code_of 132) = Some ([132], 0)"
  "bit_run 0 (code_of 133) = Some ([133], 0)"
  "bit_run 0 (code_of 134) = Some ([134], 0)"
  "bit_run 0 (code_of 135) = Some ([135], 0)"
  "bit_run 0 (code_of 136) = Some ([136], 0)"
  "bit_run 0 (code_of 137) = Some ([137], 0)"
  "bit_run 0 (code_of 138) = Some ([138], 0)"
  "bit_run 0 (code_of 139) = Some ([139], 0)"
  "bit_run 0 (code_of 140) = Some ([140], 0)"
  "bit_run 0 (code_of 141) = Some ([141], 0)"
  "bit_run 0 (code_of 142) = Some ([142], 0)"
  "bit_run 0 (code_of 143) = Some ([143], 0)"
  by (simp_all add: code_of_def encoding_rules code_bits_eval child_def children_rules)

lemma codes_144:
  "bit_run 0 (code_of 144) = Some ([144], 0)"
  "bit_run 0 (code_of 145) = Some ([145], 0)"
  "bit_run 0 (code_of 146) = Some ([146], 0)"
  "bit_run 0 (code_of 147) = Some ([147], 0)"
  "bit_run 0 (code_of 148) = Some ([148], 0)"
  "bit_run 0 (code_of 149) = Some ([149], 0)"
  "bit_run 0 (code_of 150) = Some ([150], 0)"
  "bit_run 0 (code_of 151) = Some ([151], 0)"
  "bit_run 0 (code_of 152) = Some ([152], 0)"
  "bit_run 0 (code_of 153) = Some ([153], 0)"
  "bit_run 0 (code_of 154) = Some ([154], 0)"
  "bit_run 0 (code_of 155) = Some ([155], 0)"
  "bit_run 0 (code_of 156) = Some ([156], 0)"
  "bit_run 0 (code_of 157) = Some ([157], 0)"
  "bit_run 0 (code_of 158) = Some ([158], 0)"
  "bit_run 0 (code_of 159) = Some ([159], 0)"
  by (simp_all add: code_of_def encoding_rules code_bits_eval child_def children_rules)

lemma codes_160:
  "bit_run 0 (code_of 160) = Some ([160], 0)"
  "bit_run 0 (code_of 161) = Some ([161], 0)"
  "bit_run 0 (code_of 162) = Some ([162], 0)"
  "bit_run 0 (code_of 163) = Some ([163], 0)"
  "bit_run 0 (code_of 164) = Some ([164], 0)"
  "bit_run 0 (code_of 165) = Some ([165], 0)"
  "bit_run 0 (code_of 166) = Some ([166], 0)"
  "bit_run 0 (code_of 167) = Some ([167], 0)"
  "bit_run 0 (code_of 168) = Some ([168], 0)"
  "bit_run 0 (code_of 169) = Some ([169], 0)"
  "bit_run 0 (code_of 170) = Some ([170], 0)"
  "bit_run 0 (code_of 171) = Some ([171], 0)"
  "bit_run 0 (code_of 172) = Some ([172], 0)"
  "bit_run 0 (code_of 173) = Some ([173], 0)"
  "bit_run 0 (code_of 174) = Some ([174], 0)"
  "bit_run 0 (code_of 175) = Some ([175], 0)"
  by (simp_all add: code_of_def encoding_rules code_bits_eval child_def children_rules)

lemma codes_176:
  "bit_run 0 (code_of 176) = Some ([176], 0)"
  "bit_run 0 (code_of 177) = Some ([177], 0)"
  "bit_run 0 (code_of 178) = Some ([178], 0)"
  "bit_run 0 (code_of 179) = Some ([179], 0)"
  "bit_run 0 (code_of 180) = Some ([180], 0)"
  "bit_run 0 (code_of 181) = Some ([181], 0)"
  "bit_run 0 (code_of 182) = Some ([182], 0)"
  "bit_run 0 (code_of 183) = Some ([183], 0)"
  "bit_run 0 (code_of 184) = Some ([184], 0)"
  "bit_run 0 (code_of 185) = Some ([185], 0)"
  "bit_run 0 (code_of 186) = Some ([186], 0)"
  "bit_run 0 (code_of 187) = Some ([187], 0)"
  "bit_run 0 (code_of 188) = Some ([188], 0)"
  "bit_run 0 (code_of 189) = Some ([189], 0)"
  "bit_run 0 (code_of 190) = Some ([190], 0)"
  "bit_run 0 (code_of 191) = Some ([191], 0)"
  by (simp_all add: code_of_def encoding_rules code_bits_eval child_def children_rules)

lemma codes_192:
  "bit_run 0 (code_of 192) = Some ([192], 0)"
  "bit_run 0 (code_of 193) = Some ([193], 0)"
  "bit_run 0 (code_of 194) = Some ([194], 0)"
  "bit_run 0 (code_of 195) = Some ([195], 0)"
  "bit_run 0 (code_of 196) = Some ([196], 0)"
  "bit_run 0 (code_of 197) = Some ([197], 0)"
  "bit_run 0 (code_of 198) = Some ([198], 0)"
  "bit_run 0 (code_of 199) = Some ([199], 0)"
  "bit_run 0 (code_of 200) = Some ([200], 0)"
  "bit_run 0 (code_of 201) = Some ([201], 0)"
  "bit_run 0 (code_of 202) = Some ([202], 0)"
  "bit_run 0 (code_of 203) = Some ([203], 0)"
  "bit_run 0 (code_of 204) = Some ([204], 0)"
  "bit_run 0 (code_of 205) = Some ([205], 0)"
  "bit_run 0 (code_of 206) = Some ([206], 0)"
  "bit_run 0 (code_of 207) = Some ([207], 0)"
  by (simp_all add: code_of_def encoding_rules code_bits_eval child_def children_rules)

lemma codes_208:
  "bit_run 0 (code_of 208) = Some ([208], 0)"
  "bit_run 0 (code_of 209) = Some ([209], 0)"
  "bit_run 0 (code_of 210) = Some ([210], 0)"
  "bit_run 0 (code_of 211) = Some ([211], 0)"
  "bit_run 0 (code_of 212) = Some ([212], 0)"
  "bit_run 0 (code_of 213) = Some ([213], 0)"
  "bit_run 0 (code_of 214) = Some ([214], 0)"
  "bit_run 0 (code_of 215) = Some ([215], 0)"
  "bit_run 0 (code_of 216) = Some ([216], 0)"
  "bit_run 0 (code_of 217) = Some ([217], 0)"
  "bit_run 0 (code_of 218) = Some ([218], 0)"
  "bit_run 0 (code_of 219) = Some ([219], 0)"
  "bit_run 0 (code_of 220) = Some ([220], 0)"
  "bit_run 0 (code_of 221) = Some ([221], 0)"
  "bit_run 0 (code_of 222) = Some ([222], 0)"
  "bit_run 0 (code_of 223) = Some ([223], 0)"
  by (simp_all add: code_of_def encoding_rules code_bits_eval child_def children_rules)

lemma codes_224:
  "bit_run 0 (code_of 224) = Some ([224], 0)"
  "bit_run 0 (code_of 225) = Some ([225], 0)"
  "bit_run 0 (code_of 226) = Some ([226], 0)"
  "bit_run 0 (code_of 227) = Some ([227], 0)"
  "bit_run 0 (code_of 228) = Some ([228], 0)"
  "bit_run 0 (code_of 229) = Some ([229], 0)"
  "bit_run 0 (code_of 230) = Some ([230], 0)"
  "bit_run 0 (code_of 231) = Some ([231], 0)"
  "bit_run 0 (code_of 232) = Some ([232], 0)"
  "bit_run 0 (code_of 233) = Some ([233], 0)"
  "bit_run 0 (code_of 234) = Some ([234], 0)"
  "bit_run 0 (code_of 235) = Some ([235], 0)"
  "bit_run 0 (code_of 236) = Some ([236], 0)"
  "bit_run 0 (code_of 237) = Some ([237], 0)"
  "bit_run 0 (code_of 238) = Some ([238], 0)"
  "bit_run 0 (code_of 239) = Some ([239], 0)"
  by (simp_all add: code_of_def encoding_rules code_bits_eval child_def children_rules)

lemma codes_240:
  "bit_run 0 (code_of 240) = Some ([240], 0)"
  "bit_run 0 (code_of 241) = Some ([241], 0)"
  "bit_run 0 (code_of 242) = Some ([242], 0)"
  "bit_run 0 (code_of 243) = Some ([243], 0)"
  "bit_run 0 (code_of 244) = Some ([244], 0)"
  "bit_run 0 (code_of 245) = Some ([245], 0)"
  "bit_run 0 (code_of 246) = Some ([246], 0)"
  "bit_run 0 (code_of 247) = Some ([247], 0)"
  "bit_run 0 (code_of 248) = Some ([248], 0)"
  "bit_run 0 (code_of 249) = Some ([249], 0)"
  "bit_run 0 (code_of 250) = Some ([250], 0)"
  "bit_run 0 (code_of 251) = Some ([251], 0)"
  "bit_run 0 (code_of 252) = Some ([252], 0)"
  "bit_run 0 (code_of 253) = Some ([253], 0)"
  "bit_run 0 (code_of 254) = Some ([254], 0)"
  "bit_run 0 (code_of 255) = Some ([255], 0)"
  by (simp_all add: code_of_def encoding_rules code_bits_eval child_def children_rules)

lemma bit_run_code: "bit_run 0 (code_of x) = Some ([x], 0)"
proof -
  have "\<forall>r \<in> set byte_chunks. \<forall>x \<in> set r. bit_run 0 (code_of x) = Some ([x], 0)"
    by (simp add: byte_chunks_def codes_0 codes_16 codes_32 codes_48 codes_64 codes_80 codes_96 codes_112 codes_128 codes_144 codes_160 codes_176 codes_192 codes_208 codes_224 codes_240)
  then have "\<forall>x \<in> set all_bytes. bit_run 0 (code_of x) = Some ([x], 0)" by (simp add: all_bytes_def)
  moreover have "x \<in> set all_bytes"
    using nth_mem [of "unat x" all_bytes] unsigned_less [of x] by (simp add: nth_all_bytes)
  ultimately show ?thesis by blast
qed

lemma bit_run_codes:
  "bit_run 0 (concat (map code_of xs) @ bs) = map_option (\<lambda>(ys, t). (xs @ ys, t)) (bit_run 0 bs)"
proof (induction xs)
  case Nil
  then show ?case by (simp add: option.map_ident split_def)
next
  case (Cons x xs)
  then show ?case by (cases "bit_run 0 bs") (auto simp: bit_run_append [of 0 "code_of x"] bit_run_code)
qed

lemma replicate_eval:
  "replicate 2 True = [True, True]" "replicate 3 True = [True, True, True]"
  "replicate 4 True = [True, True, True, True]" "replicate 5 True = [True, True, True, True, True]"
  "replicate 6 True = [True, True, True, True, True, True]"
  "replicate 7 True = [True, True, True, True, True, True, True]"
  by (simp_all add: numeral_eq_Suc)

definition pad_states :: "byte list" where
  "pad_states = [0, 22, 40, 56, 64, 68, 72, 74]"

lemma accepting_set: "accepting s \<longleftrightarrow> s \<in> set pad_states"
  by (simp add: accepting_def pad_states_def)

lemma pad_states_run:
  assumes "k < 8"
  shows "trie_path (pad_states ! k) = replicate k True \<and>
    bit_run 0 (replicate k True) = Some ([], pad_states ! k)"
proof -
  have "k \<in> set [0..<8]" using assms by simp
  then show ?thesis unfolding upt_8
    by (auto simp: pad_states_def trie_path_rules code_bits_eval replicate_eval child_def children_rules)
qed


text \<open>
  The bits of a whole input are accepted exactly when they are codes followed by fewer than eight
  ones of padding.
\<close>

lemma accepting_index: "accepting s \<longleftrightarrow> (\<exists>k < 8. s = pad_states ! k)"
proof -
  have "length pad_states = 8" by (simp add: pad_states_def)
  then show ?thesis unfolding accepting_set in_set_conv_nth by auto
qed

lemma bit_run_accepts:
  "(\<exists>t. bit_run 0 bs = Some (xs, t) \<and> accepting t) \<longleftrightarrow>
   (\<exists>k < 8. bs = concat (map code_of xs) @ replicate k True)"
proof
  assume "\<exists>t. bit_run 0 bs = Some (xs, t) \<and> accepting t"
  then obtain k where k: "k < 8" "bit_run 0 bs = Some (xs, pad_states ! k)"
    unfolding accepting_index by blast
  show "\<exists>k < 8. bs = concat (map code_of xs) @ replicate k True"
    using bit_run_path [OF k(2)] pad_states_run [OF k(1)] k(1) by (auto simp: trie_path_root)
next
  assume "\<exists>k < 8. bs = concat (map code_of xs) @ replicate k True"
  then obtain k where k: "k < 8" "bs = concat (map code_of xs) @ replicate k True" by blast
  then show "\<exists>t. bit_run 0 bs = Some (xs, t) \<and> accepting t"
    using pad_states_run [OF k(1)] unfolding accepting_index
    by (intro exI [of _ "pad_states ! k"]) (auto simp: bit_run_codes)
qed

section \<open>Reading nibbles and bytes\<close>

lemma bit_run_root_short:
  "bit_run 0 [a] = Some (xs, t) \<Longrightarrow> xs = []"
  "bit_run 0 [a, b] = Some (xs, t) \<Longrightarrow> xs = []"
  "bit_run 0 [a, b, c] = Some (xs, t) \<Longrightarrow> xs = []"
  by (cases a; cases b; cases c; simp add: child_def children_rules)+

end
