(* ===== verification/Huffman.thy ===== *)
theory Huffman
  imports Huffman_Trie Codec
begin

text \<open>
  The Huffman codec of header strings (\<open>huffman/encode.cpp\<close>, \<open>huffman/decode.cpp\<close>). The encoder
  packs the codes of the characters into bytes, most significant bit first, and pads the last byte
  with the start of the terminal symbol's code; the decoder runs the automaton over nibbles, once
  to validate the input and count the characters, once to store them.
\<close>

section \<open>encode.cpp\<close>

definition symbol_for :: "char \<Rightarrow> symbol" where
  "symbol_for c = encoding_table ! unat (byte_of_char c)"

fun huffman_num_bits :: "nat \<Rightarrow> string \<Rightarrow> nat" where
  "huffman_num_bits num_bits [] = num_bits"
| "huffman_num_bits num_bits (c # cs) = huffman_num_bits (num_bits + snd (symbol_for c)) cs"

definition huffman_encoded_size :: "string \<Rightarrow> nat" where
  "huffman_encoded_size s = (huffman_num_bits 0 s + 7) div 8"

text \<open>\<open>*dest = *dest | b\<close>.\<close>

definition mem_or :: "bytes \<Rightarrow> nat \<Rightarrow> byte \<Rightarrow> bytes option" where
  "mem_or mem i b = do { old \<leftarrow> mem_load mem i; mem_store mem i [old OR b] }"

text \<open>The loop that stores the whole bytes in the middle of a code.\<close>

function symbol_loop :: "uint32 \<Rightarrow> nat \<Rightarrow> nat \<Rightarrow> bytes \<Rightarrow> (nat \<times> nat \<times> bytes) option" where
  "symbol_loop code num_bits dest mem =
     (if num_bits > 8 then
        do {
          mem \<leftarrow> mem_store mem dest [ucast (drop_bit (num_bits - num_bits mod 8) code)];
          symbol_loop code (num_bits - 8) (dest + 1) mem
        }
      else Some (num_bits, dest, mem))"
  by pat_completeness auto
termination by (relation "measure (\<lambda>(_, n, _, _). n)") auto

text \<open>
  \<open>symbol_encode\<close>; \<open>rem_bits\<close> is the number of free bits in the byte at \<open>dest\<close>. The result is the
  number of bytes \<open>dest\<close> advanced, the new \<open>rem_bits\<close> and the memory.
\<close>

definition symbol_encode ::
  "bytes \<Rightarrow> nat \<Rightarrow> nat \<Rightarrow> symbol \<Rightarrow> (nat \<times> nat \<times> bytes) option" where
  "symbol_encode mem begin_dest rem_bits symb =
     (let dest = begin_dest; code = fst symb; num_bits = snd symb in
      do {
        mem \<leftarrow> (if rem_bits = 8 then mem_store mem dest [0] else Some mem);
        (dest, rem_bits, mem) \<leftarrow>
          (if num_bits \<le> rem_bits then
             do {
               mem \<leftarrow> mem_or mem dest (ucast (push_bit (rem_bits - num_bits) code));
               Some (dest, rem_bits - num_bits, mem)
             }
           else
             do {
               mem \<leftarrow> mem_or mem dest (ucast (drop_bit (num_bits - rem_bits) code));
               let dest = dest + 1;
               let num_bits = num_bits - rem_bits;
               let code = (if num_bits mod 8 \<noteq> 0 then push_bit (8 - num_bits mod 8) code else code);
               (num_bits, dest, mem) \<leftarrow> symbol_loop code num_bits dest mem;
               mem \<leftarrow> mem_store mem dest [ucast code];
               Some (dest, 8 - num_bits, mem)
             });
        Some (if rem_bits = 0 then (dest + 1 - begin_dest, 8, mem)
              else (dest - begin_dest, rem_bits, mem))
      })"

fun huffman_encode_loop :: "string \<Rightarrow> nat \<Rightarrow> nat \<Rightarrow> bytes \<Rightarrow> (nat \<times> nat \<times> bytes) option" where
  "huffman_encode_loop [] dest rem_bits mem = Some (dest, rem_bits, mem)"
| "huffman_encode_loop (c # cs) dest rem_bits mem =
     do {
       (n, rem_bits, mem) \<leftarrow> symbol_encode mem dest rem_bits (symbol_for c);
       huffman_encode_loop cs (dest + n) rem_bits mem
     }"

definition huffman_encode :: "bytes \<Rightarrow> nat \<Rightarrow> string \<Rightarrow> (nat \<times> bytes) option" where
  "huffman_encode mem begin_dest s =
     do {
       (dest, rem_bits, mem) \<leftarrow> huffman_encode_loop s begin_dest 8 mem;
       if rem_bits < 8 then
         (let symb = encoding_table ! 256 in
          do {
            mem \<leftarrow> mem_or mem dest (ucast (drop_bit (snd symb - rem_bits) (fst symb)));
            Some (dest + 1 - begin_dest, mem)
          })
       else Some (dest - begin_dest, mem)
     }"

definition huffman_encode_buffer :: "(nat \<Rightarrow> byte) \<Rightarrow> string \<Rightarrow> bytes option" where
  "huffman_encode_buffer junk s =
     do {
       (_, encoded) \<leftarrow> huffman_encode (fresh_memory junk (huffman_encoded_size s)) 0 s;
       Some encoded
     }"

section \<open>decode.cpp\<close>

definition has_flag :: "byte \<Rightarrow> node \<Rightarrow> bool" where
  "has_flag flag node \<longleftrightarrow> node_flags node AND flag \<noteq> 0"

text \<open>
  The validation loop, over the indices still to be read: the state, the number of symbols, and
  whether the last byte left the automaton in an accepting state.
\<close>

fun decoded_size_loop ::
  "sequence \<Rightarrow> nat list \<Rightarrow> nat \<Rightarrow> byte \<Rightarrow> bool \<Rightarrow> (nat \<times> bool, error) result" where
  "decoded_size_loop encoded [] decoded_size state accept = Ok (decoded_size, accept)"
| "decoded_size_loop encoded (i # is) decoded_size state accept =
     bnl_try (or_fault (seq_at encoded i)) (\<lambda>b.
     let first = decoding_table ! unat state ! unat (drop_bit 4 b) in
     if has_flag flag_failed first then Err Qpack_decompression_failed
     else
       let decoded_size = (if has_flag flag_symbol first then decoded_size + 1 else decoded_size);
           second = decoding_table ! unat (node_state first) ! unat (b AND 0xf)
       in if has_flag flag_failed second then Err Qpack_decompression_failed
          else
            let decoded_size = (if has_flag flag_symbol second then decoded_size + 1 else decoded_size)
            in decoded_size_loop encoded is decoded_size (node_state second)
                 (has_flag flag_accepted second))"

definition huffman_decoded_size :: "sequence \<Rightarrow> nat \<Rightarrow> (nat, error) result" where
  "huffman_decoded_size encoded encoded_size =
     (if seq_size encoded < encoded_size then Err Incomplete
      else bnl_try (decoded_size_loop encoded [0..<encoded_size] 0 0 False) (\<lambda>(decoded_size, accept).
           if \<not> accept then Err Qpack_decompression_failed else Ok decoded_size))"

text \<open>\<open>*dest++ = static_cast<char>(symbol)\<close>, a store into the resized string.\<close>

definition store_char :: "string \<Rightarrow> nat \<Rightarrow> byte \<Rightarrow> string option" where
  "store_char decoded dest b =
     (if dest < length decoded then Some (decoded[dest := char_of_byte b]) else None)"

definition emit_symbol :: "node \<Rightarrow> string \<times> nat \<Rightarrow> (string \<times> nat) option" where
  "emit_symbol node out =
     (case out of (decoded, dest) \<Rightarrow>
        if has_flag flag_symbol node
        then do { decoded \<leftarrow> store_char decoded dest (node_symbol node); Some (decoded, dest + 1) }
        else Some (decoded, dest))"

fun decode_loop :: "sequence \<Rightarrow> nat list \<Rightarrow> string \<times> nat \<Rightarrow> byte \<Rightarrow> string option" where
  "decode_loop encoded [] out state = Some (fst out)"
| "decode_loop encoded (i # is) out state =
     do {
       b \<leftarrow> seq_at encoded i;
       let first = decoding_table ! unat state ! unat (drop_bit 4 b);
       out \<leftarrow> emit_symbol first out;
       let second = decoding_table ! unat (node_state first) ! unat (b AND 0xf);
       out \<leftarrow> emit_symbol second out;
       decode_loop encoded is out (node_state second)
     }"

definition huffman_decode :: "sequence \<Rightarrow> nat \<Rightarrow> (string, error) result \<times> sequence" where
  "huffman_decode encoded encoded_size =
     try_in encoded (huffman_decoded_size encoded encoded_size) (\<lambda>decoded_size.
     try_in encoded (or_fault (decode_loop encoded [0..<encoded_size] (replicate decoded_size CHR 0x00, 0) 0))
       (\<lambda>decoded.
     try_in encoded (or_fault (seq_consume encoded encoded_size)) (\<lambda>encoded'.
     (Ok decoded, encoded'))))"

section \<open>The automaton reads bits\<close>

definition byte_bits :: "byte \<Rightarrow> bool list" where
  "byte_bits b = nibble_bits (drop_bit 4 b) @ nibble_bits (b AND 0xf)"

definition bits_of :: "bytes \<Rightarrow> bool list" where
  "bits_of bs = concat (map byte_bits bs)"

lemma bits_of_simps [simp]:
  "bits_of [] = []" "bits_of (b # bs) = byte_bits b @ bits_of bs"
  "bits_of (as @ bs) = bits_of as @ bits_of bs"
  by (simp_all add: bits_of_def)

lemma length_nibble_bits [simp]: "length (nibble_bits n) = 4"
  by (simp add: nibble_bits_def)

lemma length_byte_bits [simp]: "length (byte_bits b) = 8"
  by (simp add: byte_bits_def)

lemma length_bits_of [simp]: "length (bits_of bs) = 8 * length bs"
  by (induction bs) simp_all

lemma high_nibble: "drop_bit 4 (b :: byte) < 16"
proof -
  have "unat b < 256" using unsigned_less [of b] by simp
  then have "unat b div 16 < 16" by (simp add: less_mult_imp_div_less)
  then show ?thesis by (simp only: word_less_nat_alt unat_drop_bit) simp
qed

lemma low_nibble: "(b :: byte) AND 0xf < 16"
proof -
  have "b AND 0xf = take_bit 4 b" by (simp add: take_bit_eq_mask mask_eq_exp_minus_1)
  then show ?thesis using take_bit_word_less [of 4 b] by simp
qed

lemma bit_run_root_no_symbol:
  assumes len: "length bs \<le> 3" and run: "bit_run 0 bs = Some (xs, t)"
  shows "xs = []"
proof (cases bs)
  case bs: (Cons a as)
  show ?thesis
  proof (cases as)
    case Nil
    then show ?thesis using run bs bit_run_root_short(1) by blast
  next
    case as: (Cons b cs)
    show ?thesis
    proof (cases cs)
      case Nil
      then show ?thesis using run bs as bit_run_root_short(2) by blast
    next
      case cs: (Cons c ds)
      then have "ds = []" using len bs as by simp
      then show ?thesis using run bs as cs bit_run_root_short(3) by blast
    qed
  qed
qed (use run in simp)

lemma bit_run_one_symbol: "length bs \<le> 4 \<Longrightarrow> bit_run s bs = Some (xs, t) \<Longrightarrow> length xs \<le> 1"
proof (induction s bs arbitrary: xs rule: bit_run.induct)
  case (2 s b bs)
  show ?case
  proof (cases "child s b")
    case (Leaf x)
    then obtain ys where "bit_run 0 bs = Some (ys, t)" "xs = x # ys" using 2 by auto
    then show ?thesis using bit_run_root_no_symbol [of bs ys t] 2 by simp
  qed (use 2 in auto)
qed simp

lemma nibble_run_None: "bit_run s bs = None \<Longrightarrow> nibble_run s out bs = Node 0 4 0"
  by (induction s bs arbitrary: out rule: bit_run.induct) (auto split: target.splits)

lemma nibble_run_Some:
  "bit_run s bs = Some (xs, t) \<Longrightarrow> length xs \<le> 1 \<Longrightarrow> out = None \<or> xs = [] \<Longrightarrow>
   nibble_run s out bs = nibble_run t (if xs = [] then out else Some (hd xs)) []"
proof (induction s bs arbitrary: out xs rule: bit_run.induct)
  case (2 s b bs)
  show ?case
  proof (cases "child s b")
    case (Inner u)
    then show ?thesis using 2 by simp
  next
    case (Leaf x)
    then obtain ys where ys: "bit_run 0 bs = Some (ys, t)" "xs = x # ys" using 2 by auto
    then have "ys = []" using 2 by simp
    then show ?thesis using "2.IH"(2) [OF Leaf, of "[]" "Some x"] ys Leaf by simp
  qed (use 2 in simp)
qed simp

text \<open>One step of the table: what the node says in terms of the bits that were read.\<close>

definition node_for :: "(byte list \<times> byte) option \<Rightarrow> node" where
  "node_for r =
     (case r of
        None \<Rightarrow> Node 0 4 0
      | Some (xs, t) \<Rightarrow>
          (case xs of
             [] \<Rightarrow> Node t (if accepting t then 1 else 0) 0
           | x # _ \<Rightarrow> Node t (if accepting t then 3 else 2) x))"

lemma table_step:
  assumes "n < 16"
  shows "decoding_table ! unat s ! unat (n :: byte) = node_for (bit_run s (nibble_bits n))"
proof -
  have "decoding_table ! unat s ! unat n = nibble_run s None (nibble_bits n)"
    by (simp only: decoding_table_nth table_row_nth [OF assms])
  also have "\<dots> = node_for (bit_run s (nibble_bits n))"
  proof (cases "bit_run s (nibble_bits n)")
    case None
    then show ?thesis by (simp add: nibble_run_None node_for_def)
  next
    case (Some p)
    obtain xs t where p: "p = (xs, t)" by (cases p)
    have l: "length xs \<le> 1" using bit_run_one_symbol [of "nibble_bits n" s xs t] Some p by simp
    show ?thesis
      using nibble_run_Some [OF Some [unfolded p] l, of None] l Some p
      by (cases xs) (simp_all add: node_for_def)
  qed
  finally show ?thesis .
qed

lemma node_flags_for:
  "has_flag flag_failed (node_for None)"
  "\<not> has_flag flag_failed (node_for (Some (xs, t)))"
  "length xs \<le> 1 \<Longrightarrow> has_flag flag_symbol (node_for (Some (xs, t))) \<longleftrightarrow> xs \<noteq> []"
  "has_flag flag_accepted (node_for (Some (xs, t))) \<longleftrightarrow> accepting t"
  "node_state (node_for (Some (xs, t))) = t"
  "xs \<noteq> [] \<Longrightarrow> node_symbol (node_for (Some (xs, t))) = hd xs"
  by (cases xs; simp add: has_flag_def flag_defs node_for_def)+

text \<open>The two loops against the bits of the bytes they read.\<close>

lemma decoded_size_loop_eq:
  "map (seq_at s) is = map Some bs \<Longrightarrow>
   decoded_size_loop s is k state accept =
     (case bit_run state (bits_of bs) of
        None \<Rightarrow> Err Qpack_decompression_failed
      | Some (xs, t) \<Rightarrow> Ok (k + length xs, if bs = [] then accept else accepting t))"
proof (induction "is" arbitrary: bs k state accept)
  case (Cons i "is")
  then obtain b bs' where bs: "bs = b # bs'" "seq_at s i = Some b" "map (seq_at s) is = map Some bs'"
    by (cases bs) auto
  let ?hi = "nibble_bits (drop_bit 4 b)" and ?lo = "nibble_bits (b AND 0xf)"
  have bits: "bits_of bs = ?hi @ ?lo @ bits_of bs'" by (simp add: bs byte_bits_def)
  show ?case
  proof (cases "bit_run state ?hi")
    case None
    then show ?thesis
      by (simp add: bs(2) bits bit_run_append table_step [OF high_nibble] node_flags_for Let_def)
  next
    case (Some p)
    obtain xs t where p: "p = (xs, t)" by (cases p)
    have xs: "length xs \<le> 1" using bit_run_one_symbol [of ?hi state xs t] Some p by simp
    show ?thesis
    proof (cases "bit_run t ?lo")
      case None
      then show ?thesis using \<open>bit_run state ?hi = Some p\<close> p
        by (simp add: bs(2) bits bit_run_append table_step [OF high_nibble] table_step [OF low_nibble]
            node_flags_for Let_def)
    next
      case (Some q)
      obtain ys u where q: "q = (ys, u)" by (cases q)
      have ys: "length ys \<le> 1" using bit_run_one_symbol [of ?lo t ys u] Some q by simp
      have k: "(if has_flag flag_symbol (node_for (Some (ys, u)))
          then (if has_flag flag_symbol (node_for (Some (xs, t))) then k + 1 else k) + 1
          else (if has_flag flag_symbol (node_for (Some (xs, t))) then k + 1 else k)) =
          k + length xs + length ys"
        using xs ys by (cases xs; cases ys; simp add: node_flags_for)
      have "decoded_size_loop s (i # is) k state accept =
          decoded_size_loop s is (k + length xs + length ys) u (accepting u)"
        using \<open>bit_run state ?hi = Some p\<close> p Some q k
        by (simp add: bs(2) table_step [OF high_nibble] table_step [OF low_nibble]
            node_flags_for(1,2,4,5) Let_def)
      moreover have "bit_run state (bits_of bs) =
          (case bit_run u (bits_of bs') of None \<Rightarrow> None | Some (zs, v) \<Rightarrow> Some (xs @ ys @ zs, v))"
        unfolding bits bit_run_append \<open>bit_run state ?hi = Some p\<close> p Some q
        by (auto split: option.split simp: bit_run_append Some q)
      moreover have "bs \<noteq> []" by (simp add: bs(1))
      ultimately show ?thesis
        using Cons.IH [OF bs(3)] by (auto split: option.splits)
    qed
  qed
qed simp

lemma store_char_append:
  "rest \<noteq> [] \<Longrightarrow> store_char (pre @ rest) (length pre) b = Some (pre @ [char_of_byte b] @ tl rest)"
  by (cases rest) (simp_all add: store_char_def)

lemma emit_node:
  assumes "length xs \<le> 1" "length xs \<le> length rest"
  shows "emit_symbol (node_for (Some (xs, t))) (pre @ rest, length pre) =
     Some ((pre @ map char_of_byte xs) @ drop (length xs) rest, length (pre @ map char_of_byte xs))"
proof (cases xs)
  case Nil
  then show ?thesis by (simp add: node_flags_for emit_symbol_def)
next
  case (Cons x ys)
  then have "ys = []" "rest \<noteq> []" using assms by auto
  with Cons show ?thesis
    by (simp add: node_flags_for store_char_append drop_Suc emit_symbol_def)
qed

lemma decode_loop_eq:
  "map (seq_at s) is = map Some bs \<Longrightarrow> bit_run state (bits_of bs) = Some (xs, t) \<Longrightarrow>
   length xs \<le> length rest \<Longrightarrow>
   decode_loop s is (pre @ rest, length pre) state =
     Some (pre @ map char_of_byte xs @ drop (length xs) rest)"
proof (induction "is" arbitrary: bs xs state pre rest)
  case (Cons i "is")
  then obtain b bs' where bs: "bs = b # bs'" "seq_at s i = Some b" "map (seq_at s) is = map Some bs'"
    by (cases bs) auto
  let ?hi = "nibble_bits (drop_bit 4 b)" and ?lo = "nibble_bits (b AND 0xf)"
  have bits: "bits_of bs = ?hi @ ?lo @ bits_of bs'" by (simp add: bs byte_bits_def)
  obtain as v ys u zs where run: "bit_run state ?hi = Some (as, v)" "bit_run v ?lo = Some (ys, u)"
    "bit_run u (bits_of bs') = Some (zs, t)" "xs = as @ ys @ zs"
    using Cons.prems(2) unfolding bits
    by (auto simp: bit_run_append split: option.splits)
  have l: "length as \<le> 1" "length ys \<le> 1"
    using bit_run_one_symbol [of ?hi state as v] bit_run_one_symbol [of ?lo v ys u] run by simp_all
  let ?pre1 = "pre @ map char_of_byte as" let ?rest1 = "drop (length as) rest"
  let ?pre2 = "?pre1 @ map char_of_byte ys" let ?rest2 = "drop (length ys) ?rest1"
  have len: "length as \<le> length rest" "length ys \<le> length ?rest1" using Cons.prems(3) run(4) by simp_all
  have "decode_loop s (i # is) (pre @ rest, length pre) state =
      decode_loop s is (?pre2 @ ?rest2, length ?pre2) u"
    by (simp only: decode_loop.simps bs(2) bind.bind_lunit Let_def table_step [OF high_nibble] run(1,2)
        emit_node [OF l(1) len(1)] table_step [OF low_nibble] node_flags_for(5)
        emit_node [OF l(2) len(2)])
  also have "\<dots> = Some (?pre2 @ map char_of_byte zs @ drop (length zs) ?rest2)"
    by (rule Cons.IH [OF bs(3) run(3)]) (use Cons.prems(3) run(4) in simp)
  finally show ?case using run(4) by (simp add: add.commute add.left_commute)
qed simp

text \<open>
  The decoder as a function of the bits: what it accepts are the codes of a string followed by
  padding, and what it returns is that string.
\<close>

definition huffman_spec :: "bytes \<Rightarrow> string option" where
  "huffman_spec bs =
     (case bit_run 0 (bits_of bs) of
        Some (xs, t) \<Rightarrow> if bs \<noteq> [] \<and> accepting t then Some (map char_of_byte xs) else None
      | None \<Rightarrow> None)"

lemma huffman_decode_eq:
  assumes ok: "seq_ok s"
  shows "huffman_decode s n =
     (if length (seq_bytes s) < n then (Err Incomplete, s)
      else case huffman_spec (take n (seq_bytes s)) of
             Some str \<Rightarrow> (Ok str, seq_drop s n)
           | None \<Rightarrow> (Err Qpack_decompression_failed, s))"
proof (cases "length (seq_bytes s) < n")
  case True
  then show ?thesis using ok by (simp add: huffman_decode_def huffman_decoded_size_def)
next
  case False
  let ?bs = "take n (seq_bytes s)"
  have "map (seq_at s) [0..<n] = map Some ?bs"
    using ok False by (intro nth_equalityI) (simp_all add: seq.at_eq)
  note loops = decoded_size_loop_eq [OF this] decode_loop_eq [OF this]
  have ne: "?bs = [] \<longleftrightarrow> n = 0" using False by auto
  show ?thesis
  proof (cases "bit_run 0 (bits_of ?bs)")
    case None
    then show ?thesis using False ok
      by (simp add: huffman_decode_def huffman_decoded_size_def loops huffman_spec_def)
  next
    case (Some p)
    obtain xs t where p: "p = (xs, t)" by (cases p)
    have "decode_loop s [0..<n] ([] @ replicate (length xs) CHR 0x00, length ([] :: string)) 0 =
        Some ([] @ map char_of_byte xs @ drop (length xs) (replicate (length xs) CHR 0x00))"
      by (rule loops(2)) (use Some p in simp_all)
    then show ?thesis using False ok Some p ne
      by (auto simp: huffman_decode_def huffman_decoded_size_def loops(1) huffman_spec_def seq_consume_eq)
  qed
qed

lemma huffman_spec_iff:
  "huffman_spec bs = Some str \<longleftrightarrow>
   bs \<noteq> [] \<and> (\<exists>k < 8. bits_of bs = concat (map (\<lambda>c. code_of (byte_of_char c)) str) @ replicate k True)"
proof -
  have "huffman_spec bs = Some str \<longleftrightarrow>
      bs \<noteq> [] \<and> (\<exists>t. bit_run 0 (bits_of bs) = Some (map byte_of_char str, t) \<and> accepting t)"
  proof
    assume "huffman_spec bs = Some str"
    then obtain xs t where "bit_run 0 (bits_of bs) = Some (xs, t)" "accepting t" "bs \<noteq> []"
      "str = map char_of_byte xs"
      by (auto simp: huffman_spec_def split: option.splits if_splits)
    then show "bs \<noteq> [] \<and> (\<exists>t. bit_run 0 (bits_of bs) = Some (map byte_of_char str, t) \<and> accepting t)"
      by (simp add: o_def)
  next
    assume "bs \<noteq> [] \<and> (\<exists>t. bit_run 0 (bits_of bs) = Some (map byte_of_char str, t) \<and> accepting t)"
    then show "huffman_spec bs = Some str" by (auto simp: huffman_spec_def o_def)
  qed
  then show ?thesis by (simp only: bit_run_accepts map_map o_def)
qed

section \<open>The encoder packs bits\<close>

lemma code_bits_split:
  assumes "k \<le> n"
  shows "code_bits (w, n) = code_bits (drop_bit k w, n - k) @ code_bits (w, k)"
proof (rule nth_equalityI)
  fix i assume "i < length (code_bits (w, n))"
  then have i: "i < n" by (simp add: code_bits_def)
  show "code_bits (w, n) ! i = (code_bits (drop_bit k w, n - k) @ code_bits (w, k)) ! i"
  proof (cases "i < n - k")
    case True
    then have "k + (n - k - Suc i) = n - Suc i" using assms by simp
    then show ?thesis using True i by (simp add: code_bits_def nth_append rev_nth bit_drop_bit_eq)
  next
    case False
    then have "k - Suc (i - (n - k)) = n - Suc i" using assms i by simp
    then show ?thesis using False i assms by (simp add: code_bits_def nth_append rev_nth)
  qed
qed (use assms in \<open>simp add: code_bits_def\<close>)

lemma code_bits_push:
  assumes "n + k \<le> 32"
  shows "code_bits (push_bit k w, n + k) = code_bits (w, n) @ replicate k False"
proof (rule nth_equalityI)
  fix i assume "i < length (code_bits (push_bit k w, n + k))"
  then have i: "i < n + k" by (simp add: code_bits_def)
  then show "code_bits (push_bit k w, n + k) ! i = (code_bits (w, n) @ replicate k False) ! i"
    using assms by (cases "i < n") (auto simp: code_bits_def nth_append rev_nth bit_push_bit_iff)
qed (simp add: code_bits_def)

lemma code_bits_leading:
  assumes "w < 2 ^ n" "n \<le> m"
  shows "code_bits (w, m) = replicate (m - n) False @ code_bits (w, n)"
proof (rule nth_equalityI)
  fix i assume "i < length (code_bits (w, m))"
  then have i: "i < m" by (simp add: code_bits_def)
  then show "code_bits (w, m) ! i = (replicate (m - n) False @ code_bits (w, n)) ! i"
    using assms not_bit_above [OF assms(1)]
    by (cases "i < m - n") (auto simp: code_bits_def nth_append rev_nth)
qed (use assms in \<open>simp add: code_bits_def\<close>)

lemma byte_bits_eq: "byte_bits b = map (bit b) [7, 6, 5, 4, 3, 2, 1, 0]"
proof -
  have "bit (15 :: byte) i \<longleftrightarrow> i < 4" for i
  proof -
    have "(15 :: byte) = mask 4" by (simp add: mask_eq_exp_minus_1)
    then show ?thesis by (simp only: bit_mask_iff) (auto simp: min_def)
  qed
  then show ?thesis
    by (simp add: byte_bits_def nibble_bits_def bit_drop_bit_eq bit_and_iff eval_nat_numeral)
qed

lemma byte_bits_ucast: "byte_bits (ucast (w :: uint32)) = code_bits (w, 8)"
  by (simp add: byte_bits_eq code_bits_def upt_8 bit_ucast_iff)

lemma byte_bits_or: "byte_bits (a OR b) = map2 (\<or>) (byte_bits a) (byte_bits b)"
  by (simp add: byte_bits_eq bit_or_iff)

lemma byte_bits_0: "byte_bits 0 = replicate 8 False"
  by (simp add: byte_bits_eq eval_nat_numeral)

lemma byte_bits_or_append:
  assumes "byte_bits a = p @ replicate k False" "byte_bits b = replicate (length p) False @ q"
    and "length q = k"
  shows "byte_bits (a OR b) = p @ q"
proof -
  have "map2 (\<or>) p (replicate (length p) False) = p" by (induction p) simp_all
  moreover have "map2 (\<or>) (replicate k False) q = q"
    using assms(3) by (induction q arbitrary: k) (auto simp: Suc_length_conv)
  ultimately show ?thesis using assms by (simp add: byte_bits_or zip_append)
qed

text \<open>
  The state of the encoder between two symbols: \<open>tail\<close> is the memory from \<open>dest\<close> on. When
  \<open>rem_bits\<close> is below eight its first byte holds the pending bits \<open>p\<close> followed by zeros.
\<close>

definition pending :: "nat \<Rightarrow> bool list \<Rightarrow> bytes \<Rightarrow> bool" where
  "pending r p tail \<longleftrightarrow>
     1 \<le> r \<and> r \<le> 8 \<and> length p = 8 - r \<and>
     (r < 8 \<longrightarrow> (\<exists>c post. tail = c # post \<and> byte_bits c = p @ replicate r False))"

lemma store_at: "mem_store (A @ c # post) (length A) [b] = Some (A @ b # post)"
  by (simp add: mem_store_append)

lemma or_at: "mem_or (A @ c # post) (length A) b = Some (A @ (c OR b) # post)"
  by (simp add: mem_or_def mem_load_append store_at)

lemma store_next: "mem_store (A @ c # d # post) (Suc (length A)) [b] = Some (A @ c # b # post)"
  using mem_store_append [of "Suc (length A)" "A @ [c]" "[b]" "d # post"] by simp

lemma store_next2:
  "mem_store (A @ c # d # e # post) (Suc (Suc (length A))) [b] = Some (A @ c # d # b # post)"
  using mem_store_append [of "Suc (Suc (length A))" "A @ [c, d]" "[b]" "e # post"] by simp

lemma drop_bit_less:
  "(w :: uint32) < 2 ^ n \<Longrightarrow> m \<le> n \<Longrightarrow> n \<le> 31 \<Longrightarrow> drop_bit m w < 2 ^ (n - m)"
proof -
  assume w: "w < 2 ^ n" "m \<le> n" "n \<le> 31"
  then have "unat w < 2 ^ n" by (simp add: word_less_2p_iff)
  also have "(2 :: nat) ^ n = 2 ^ (n - m) * 2 ^ m" using w(2) by (simp flip: power_add)
  finally have "unat w div 2 ^ m < 2 ^ (n - m)" by (rule less_mult_imp_div_less)
  moreover have "unat (drop_bit m w) = unat w div 2 ^ m" by (rule unat_drop_bit)
  moreover have "n - m < LENGTH(32)" using w(3) by simp
  ultimately show ?thesis by (simp only: word_less_2p_iff)
qed

lemma packed_bits:
  assumes "byte_bits cur = p @ replicate r False" "length p = 8 - r" "r \<le> 8" "code < 2 ^ n" "n \<le> r"
  shows "byte_bits (cur OR ucast (push_bit (r - n) code)) =
    (p @ code_bits (code, n)) @ replicate (r - n) False"
proof -
  have "byte_bits (ucast (push_bit (r - n) code)) = code_bits (push_bit (r - n) code, (8 - (r - n)) + (r - n))"
    using assms(3,5) by (simp add: byte_bits_ucast)
  also have "\<dots> = code_bits (code, 8 - (r - n)) @ replicate (r - n) False"
    by (rule code_bits_push) (use assms(3) in simp)
  also have "code_bits (code, 8 - (r - n)) = replicate (8 - r) False @ code_bits (code, n)"
    using code_bits_leading [OF assms(4), of "8 - (r - n)"] assms(3,5) by simp
  finally have "byte_bits (ucast (push_bit (r - n) code)) =
      replicate (length p) False @ (code_bits (code, n) @ replicate (r - n) False)"
    using assms(2) by simp
  from byte_bits_or_append [OF assms(1) this] show ?thesis
    using assms(5) by (simp add: code_bits_def)
qed

lemma packed_head:
  assumes "byte_bits cur = p @ replicate r False" "length p = 8 - r" "r \<le> 8" "code < 2 ^ n"
    "r < n" "n \<le> 31"
  shows "byte_bits (cur OR ucast (drop_bit (n - r) code)) = p @ code_bits (drop_bit (n - r) code, r)"
proof -
  have "drop_bit (n - r) code < 2 ^ r" using drop_bit_less [of code n "n - r"] assms(4-6) by simp
  from code_bits_leading [OF this assms(3)]
  have "byte_bits (ucast (drop_bit (n - r) code)) =
      replicate (length p) False @ code_bits (drop_bit (n - r) code, r)"
    using assms(2) by (simp add: byte_bits_ucast)
  from byte_bits_or_append [OF assms(1) this] show ?thesis by (simp add: code_bits_def)
qed

declare symbol_loop.simps [simp del]

lemma symbol_loop_stop: "n \<le> 8 \<Longrightarrow> symbol_loop code n dest mem = Some (n, dest, mem)"
  by (subst symbol_loop.simps) simp

text \<open>A symbol that ends in the current byte.\<close>

lemma symbol_encode_inside:
  assumes "pending r p (c # post)" "code < 2 ^ n" "1 \<le> n" "n \<le> r"
  shows "\<exists>W r' p' tail'. symbol_encode (A @ c # post) (length A) r (code, n) = Some (length W, r', A @ W @ tail') \<and>
    pending r' p' tail' \<and> bits_of W @ p' = p @ code_bits (code, n) \<and>
    length W + length tail' = length (c # post)"
proof -
  define cur where "cur = (if r = 8 then 0 else c)"
  have cur: "byte_bits cur = p @ replicate r False" and p: "length p = 8 - r" and r: "r \<le> 8"
    using assms(1) by (auto simp: pending_def cur_def byte_bits_0)
  let ?b = "cur OR ucast (push_bit (r - n) code)"
  have bits: "byte_bits ?b = (p @ code_bits (code, n)) @ replicate (r - n) False"
    by (rule packed_bits [OF cur p r assms(2,4)])
  have start: "(if r = 8 then mem_store (A @ c # post) (length A) [0] else Some (A @ c # post)) =
      Some (A @ cur # post)"
    by (simp add: cur_def store_at)
  have run: "symbol_encode (A @ c # post) (length A) r (code, n) =
      Some (if r - n = 0 then (1, 8, A @ ?b # post) else (0, r - n, A @ ?b # post))"
    unfolding symbol_encode_def Let_def fst_conv snd_conv start
    using assms(4) by (simp add: or_at)
  show ?thesis
  proof (cases "r = n")
    case True
    then show ?thesis using run bits
      by (intro exI [of _ "[?b]"] exI [of _ 8] exI [of _ "[]"] exI [of _ post])
        (simp add: pending_def)
  next
    case False
    have "length (code_bits (code, n)) = n" by (simp add: code_bits_def)
    then have "pending (r - n) (p @ code_bits (code, n)) (?b # post)"
      using bits p r assms(3,4) False by (simp add: pending_def) arith
    then show ?thesis using run False assms(4)
      by (intro exI [of _ "[]"] exI [of _ "r - n"] exI [of _ "p @ code_bits (code, n)"]
          exI [of _ "?b # post"]) simp
  qed
qed

text \<open>
  A symbol that goes on in the next bytes. The store in the middle shifts the code by
  \<open>num_bits - num_bits % 8\<close>, which is the right amount as long as \<open>num_bits\<close> is below sixteen.
\<close>

lemma symbol_encode_across:
  assumes "pending r p (c # post)" "code < 2 ^ n" "r < n" "n < r + 16" "n \<le> 31"
    and room: "length p + n \<le> 8 * length (c # post)"
  shows "\<exists>W r' p' tail'. symbol_encode (A @ c # post) (length A) r (code, n) = Some (length W, r', A @ W @ tail') \<and>
    pending r' p' tail' \<and> bits_of W @ p' = p @ code_bits (code, n) \<and>
    length W + length tail' = length (c # post)"
proof -
  define cur where "cur = (if r = 8 then 0 else c)"
  have cur: "byte_bits cur = p @ replicate r False" and p: "length p = 8 - r" and r: "r \<le> 8" "1 \<le> r"
    using assms(1) by (auto simp: pending_def cur_def byte_bits_0)
  define m where "m = n - r"
  have m: "1 \<le> m" "m < 16" "n - m = r" "m \<le> n" using assms(3,4) by (simp_all add: m_def)
  let ?b = "cur OR ucast (drop_bit m code)"
  have head: "byte_bits ?b = p @ code_bits (drop_bit m code, r)"
    unfolding m_def by (rule packed_head [OF cur p r(1) assms(2,3,5)])
  have all: "p @ code_bits (code, n) = byte_bits ?b @ code_bits (code, m)"
    using code_bits_split [OF m(4), of code] m(3) by (simp add: head)
  have start: "(if r = 8 then mem_store (A @ c # post) (length A) [0] else Some (A @ c # post)) =
      Some (A @ cur # post)"
    by (simp add: cur_def store_at)
  have more: "m \<le> 8 * length post" using room p r m(3) assms(3) by simp
  then obtain d post' where post: "post = d # post'" using m(1) by (cases post) auto
  show ?thesis
  proof (cases "m \<le> 8")
    case True
    define code' where "code' = (if m mod 8 \<noteq> 0 then push_bit (8 - m mod 8) code else code)"
    let ?y = "ucast code' :: byte"
    have y: "byte_bits ?y = code_bits (code, m) @ replicate (8 - m) False"
    proof (cases "m = 8")
      case True
      then show ?thesis by (simp add: byte_bits_ucast code'_def)
    next
      case False
      then have "code' = push_bit (8 - m) code" using True m(1) by (simp add: code'_def)
      then show ?thesis using code_bits_push [of m "8 - m" code] True by (simp add: byte_bits_ucast)
    qed
    have run: "symbol_encode (A @ c # post) (length A) r (code, n) =
        Some (if 8 - m = 0 then (2, 8, A @ ?b # ?y # post') else (1, 8 - m, A @ ?b # ?y # post'))"
      unfolding symbol_encode_def Let_def fst_conv snd_conv start
      using assms(3) True
      by (simp add: or_at m_def [symmetric] code'_def symbol_loop_stop post store_next)
    show ?thesis
    proof (cases "m = 8")
      case True
      then show ?thesis using run y
        by (intro exI [of _ "[?b, ?y]"] exI [of _ 8] exI [of _ "[]"] exI [of _ post'])
          (simp add: pending_def all post)
    next
      case False
      have "pending (8 - m) (code_bits (code, m)) (?y # post')"
        using y True False m(1) by (simp add: pending_def code_bits_def)
      then show ?thesis using run False True
        by (intro exI [of _ "[?b]"] exI [of _ "8 - m"] exI [of _ "code_bits (code, m)"]
            exI [of _ "?y # post'"]) (simp add: all post)
    qed
  next
    case False
    then obtain e post'' where post': "post' = e # post''"
      using more post by (cases post') auto
    have mm: "m mod 8 = m - 8" "m - m mod 8 = 8" "m - 8 \<le> 8" "m - 8 \<noteq> 0" "\<not> m - 8 > 8"
      using False m(2) by (simp_all add: le_mod_geq)
    define code' where "code' = push_bit (16 - m) code"
    let ?z = "ucast (drop_bit 8 code') :: byte" and ?y = "ucast code' :: byte"
    have "byte_bits ?z @ byte_bits ?y = code_bits (code', 16)"
      using code_bits_split [of 8 16 code'] by (simp add: byte_bits_ucast)
    also have "\<dots> = code_bits (code, m) @ replicate (16 - m) False"
      using code_bits_push [of m "16 - m" code] m(2) by (simp add: code'_def)
    finally have zy: "byte_bits ?z @ byte_bits ?y = code_bits (code, m) @ replicate (16 - m) False" .
    have z: "byte_bits ?z = take 8 (code_bits (code, m))"
      using arg_cong [OF zy, of "take 8"] False by (simp add: code_bits_def)
    have y: "byte_bits ?y = drop 8 (code_bits (code, m)) @ replicate (16 - m) False"
      using arg_cong [OF zy, of "drop 8"] False by (simp add: code_bits_def)
    have loop: "symbol_loop code' m (Suc (length A)) (A @ ?b # d # e # post'') =
        Some (m - 8, Suc (Suc (length A)), A @ ?b # ?z # e # post'')"
      using False mm by (subst symbol_loop.simps) (simp add: store_next symbol_loop_stop)
    have shift: "8 - (m - 8) = 16 - m" using False m(2) by simp
    have run: "symbol_encode (A @ c # post) (length A) r (code, n) =
        Some (2, 16 - m, A @ ?b # ?z # ?y # post'')"
      unfolding symbol_encode_def Let_def fst_conv snd_conv start
      using assms(3) False mm m(2) loop shift
      by (simp add: or_at m_def [symmetric] code'_def [symmetric] post post' store_next2)
    have "pending (16 - m) (drop 8 (code_bits (code, m))) (?y # post'')"
      using y False m(2) by (simp add: pending_def code_bits_def) arith
    then show ?thesis using run z
      by (intro exI [of _ "[?b, ?z]"] exI [of _ "16 - m"] exI [of _ "drop 8 (code_bits (code, m))"]
          exI [of _ "?y # post''"]) (simp add: all post post')
  qed
qed

text \<open>The codes of the table: at least five and at most thirty bits, and they fit their length.\<close>

definition symbol_ok :: "symbol \<Rightarrow> bool" where
  "symbol_ok s \<longleftrightarrow> fst s < 2 ^ snd s \<and> 5 \<le> snd s \<and> snd s \<le> 30"

lemma symbols_ok: "\<forall>r \<in> set encoding_chunks. list_all symbol_ok r"
  by (simp add: encoding_chunks_def symbol_ok_def encoding_rows_0_def encoding_rows_16_def
      encoding_rows_32_def encoding_rows_48_def encoding_rows_64_def encoding_rows_80_def
      encoding_rows_96_def encoding_rows_112_def encoding_rows_128_def encoding_rows_144_def
      encoding_rows_160_def encoding_rows_176_def encoding_rows_192_def encoding_rows_208_def
      encoding_rows_224_def encoding_rows_240_def encoding_rows_256_def)

lemma symbol_for_ok: "symbol_ok (symbol_for c)"
proof -
  let ?n = "unat (byte_of_char c)"
  have n: "?n < 256" using unsigned_less [of "byte_of_char c"] by simp
  have "\<forall>s \<in> set encoding_table. symbol_ok s"
    using symbols_ok by (auto simp: encoding_table_def list_all_iff)
  moreover have "length encoding_table = 257"
    by (simp add: encoding_table_def encoding_chunks_def encoding_rows_0_def encoding_rows_16_def
      encoding_rows_32_def encoding_rows_48_def encoding_rows_64_def encoding_rows_80_def
      encoding_rows_96_def encoding_rows_112_def encoding_rows_128_def encoding_rows_144_def
      encoding_rows_160_def encoding_rows_176_def encoding_rows_192_def encoding_rows_208_def
      encoding_rows_224_def encoding_rows_240_def encoding_rows_256_def)
  ultimately show ?thesis using n by (simp add: symbol_for_def)
qed

definition char_code :: "char \<Rightarrow> bool list" where
  "char_code c = code_of (byte_of_char c)"

definition string_bits :: "string \<Rightarrow> bool list" where
  "string_bits s = concat (map char_code s)"

lemma char_code_eq: "char_code c = code_bits (symbol_for c)"
  by (simp add: char_code_def code_of_def symbol_for_def)

lemma length_code_bits: "length (code_bits s) = snd s"
  by (cases s) (simp add: code_bits_def)

lemma string_bits_simps [simp]:
  "string_bits [] = []" "string_bits (c # s) = char_code c @ string_bits s"
  by (simp_all add: string_bits_def)

lemma huffman_num_bits_eq: "huffman_num_bits n s = n + length (string_bits s)"
  by (induction n s rule: huffman_num_bits.induct) (simp_all add: char_code_eq length_code_bits)

lemma huffman_encoded_size_eq: "huffman_encoded_size s = (length (string_bits s) + 7) div 8"
  by (simp add: huffman_encoded_size_def huffman_num_bits_eq)

text \<open>The characters the encoder gets right: those whose code has at most sixteen bits.\<close>

definition short_code :: "char \<Rightarrow> bool" where
  "short_code c \<longleftrightarrow> snd (symbol_for c) \<le> 16"

lemma symbol_encode_step:
  assumes "pending r p tail" "short_code c" "length p + length (char_code c) \<le> 8 * length tail"
  shows "\<exists>W r' p' tail'. symbol_encode (A @ tail) (length A) r (symbol_for c) =
      Some (length W, r', A @ W @ tail') \<and>
    pending r' p' tail' \<and> bits_of W @ p' = p @ char_code c \<and> length W + length tail' = length tail"
proof -
  obtain code n where s: "symbol_for c = (code, n)" by (cases "symbol_for c")
  have n: "code < 2 ^ n" "5 \<le> n" "n \<le> 16"
    using symbol_for_ok [of c] assms(2) s by (simp_all add: symbol_ok_def short_code_def)
  have cc: "char_code c = code_bits (code, n)" "length (char_code c) = n"
    by (simp_all add: char_code_eq s length_code_bits)
  obtain x post where tail: "tail = x # post" using assms(3) n(2) cc(2) by (cases tail) auto
  show ?thesis
  proof (cases "n \<le> r")
    case True
    then show ?thesis
      using symbol_encode_inside [of r p x post code n A] assms(1) n s cc(1) tail by simp
  next
    case False
    have "1 \<le> r" using assms(1) by (simp add: pending_def)
    then show ?thesis
      using symbol_encode_across [of r p x post code n A] False assms(1,3) n s cc tail by simp
  qed
qed

lemma huffman_encode_loop_eq:
  "pending r p tail \<Longrightarrow> \<forall>c \<in> set s. short_code c \<Longrightarrow>
   length p + length (string_bits s) \<le> 8 * length tail \<Longrightarrow>
   \<exists>W r' p' tail'. huffman_encode_loop s (length A) r (A @ tail) =
      Some (length A + length W, r', A @ W @ tail') \<and>
    pending r' p' tail' \<and> bits_of W @ p' = p @ string_bits s \<and>
    length W + length tail' = length tail"
proof (induction s arbitrary: A r p tail)
  case Nil
  then show ?case
    by (intro exI [of _ "[]"] exI [of _ r] exI [of _ p] exI [of _ tail]) simp
next
  case (Cons c s)
  then have "length p + length (char_code c) \<le> 8 * length tail" "short_code c" by simp_all
  from symbol_encode_step [OF Cons.prems(1) this(2,1)]
  obtain W r' p' tail' where W: "symbol_encode (A @ tail) (length A) r (symbol_for c) =
      Some (length W, r', A @ W @ tail')" "pending r' p' tail'" "bits_of W @ p' = p @ char_code c"
      "length W + length tail' = length tail" by blast
  have len: "8 * length W + length p' = length p + length (char_code c)"
    using arg_cong [OF W(3), of length] by simp
  then have room: "length p' + length (string_bits s) \<le> 8 * length tail'"
    using Cons.prems(3) W(4) by simp
  from Cons.IH [OF W(2) _ room, of "A @ W"] Cons.prems(2)
  obtain V r'' p'' tail'' where V: "huffman_encode_loop s (length (A @ W)) r' ((A @ W) @ tail') =
      Some (length (A @ W) + length V, r'', (A @ W) @ V @ tail'')" "pending r'' p'' tail''"
      "bits_of V @ p'' = p' @ string_bits s" "length V + length tail'' = length tail'"
    by (meson list.set_intros(2))
  have "huffman_encode_loop (c # s) (length A) r (A @ tail) =
      Some (length A + length (W @ V), r'', A @ (W @ V) @ tail'')"
    using W(1) V(1) by (simp add: add.assoc)
  moreover have "bits_of (W @ V) @ p'' = p @ string_bits (c # s)"
    using V(3) W(3) by (simp flip: append_assoc) (simp add: V(3) W(3))
  ultimately show ?case using V(2,4) W(4)
    by (intro exI [of _ "W @ V"] exI [of _ r''] exI [of _ p''] exI [of _ tail'']) simp
qed

lemma padding_bits:
  assumes "byte_bits c = p @ replicate r False" "length p = 8 - r" "r \<le> 8"
  shows "byte_bits (c OR ucast (drop_bit (30 - r) (0x3fffffff :: uint32))) = p @ replicate r True"
proof (rule byte_bits_or_append [OF assms(1)])
  have mask: "(0x3fffffff :: uint32) = mask 30" by (simp add: mask_eq_exp_minus_1)
  have ones: "bit (drop_bit (30 - r) (0x3fffffff :: uint32)) i \<longleftrightarrow> i < r" for i
    unfolding mask bit_drop_bit_eq o_def bit_mask_iff using assms(3) by auto
  show "byte_bits (ucast (drop_bit (30 - r) (0x3fffffff :: uint32))) =
      replicate (length p) False @ replicate r True"
    unfolding byte_bits_ucast code_bits_def prod.case ones
    by (rule nth_equalityI) (use assms(2,3) in \<open>auto simp: nth_append rev_nth\<close>)
qed simp

lemma huffman_encode_eq:
  assumes short: "\<forall>c \<in> set s. short_code c" and room: "huffman_encoded_size s \<le> length tail"
  shows "\<exists>W tail' k. huffman_encode (A @ tail) (length A) s = Some (length W, A @ W @ tail') \<and>
    bits_of W = string_bits s @ replicate k True \<and> k < 8 \<and>
    length W = huffman_encoded_size s \<and> length W + length tail' = length tail"
proof -
  have init: "pending 8 [] tail" by (simp add: pending_def)
  have fits: "length ([] :: bool list) + length (string_bits s) \<le> 8 * length tail"
    using room by (simp add: huffman_encoded_size_eq)
  from huffman_encode_loop_eq [OF init short fits, of A]
  obtain W r p tail' where W: "huffman_encode_loop s (length A) 8 (A @ tail) =
      Some (length A + length W, r, A @ W @ tail')" "pending r p tail'"
      "bits_of W @ p = string_bits s" "length W + length tail' = length tail" by auto
  have len: "8 * length W + length p = length (string_bits s)" using arg_cong [OF W(3), of length] by simp
  show ?thesis
  proof (cases "r = 8")
    case True
    then have "p = []" using W(2) by (simp add: pending_def)
    then show ?thesis using W True len
      by (intro exI [of _ W] exI [of _ tail'] exI [of _ 0])
        (simp add: huffman_encode_def huffman_encoded_size_eq)
  next
    case False
    then obtain c post where c: "tail' = c # post" "byte_bits c = p @ replicate r False"
      "length p = 8 - r" "r < 8" "1 \<le> r"
      using W(2) by (auto simp: pending_def)
    let ?c = "c OR ucast (drop_bit (30 - r) (0x3fffffff :: uint32))"
    have "huffman_encode (A @ tail) (length A) s = Some (length (W @ [?c]), A @ (W @ [?c]) @ post)"
      using W(1) c or_at [of "A @ W" c post]
      by (simp add: huffman_encode_def encoding_rules add.commute)
    moreover have "bits_of (W @ [?c]) = string_bits s @ replicate r True"
      using padding_bits [OF c(2,3)] c(4) W(3) by (simp flip: append_assoc) 
    moreover have "length (W @ [?c]) = huffman_encoded_size s"
      using len c(3,4,5) by (simp add: huffman_encoded_size_eq)
    ultimately show ?thesis using c(1,4) W(4)
      by (intro exI [of _ "W @ [?c]"] exI [of _ post] exI [of _ r]) simp
  qed
qed

lemma huffman_encode_buffer_eq:
  assumes "\<forall>c \<in> set s. short_code c"
  shows "\<exists>encoded k. huffman_encode_buffer junk s = Some encoded \<and>
    bits_of encoded = string_bits s @ replicate k True \<and> k < 8 \<and>
    length encoded = huffman_encoded_size s"
proof -
  let ?t = "fresh_memory junk (huffman_encoded_size s)"
  have "huffman_encoded_size s \<le> length ?t" by simp
  from huffman_encode_eq [OF assms this, of "[]"]
  obtain W tail' k where "huffman_encode ([] @ ?t) (length ([] :: bytes)) s = Some (length W, [] @ W @ tail')"
    "bits_of W = string_bits s @ replicate k True" "k < 8" "length W = huffman_encoded_size s"
    "length W + length tail' = length ?t" by blast
  then show ?thesis by (simp add: huffman_encode_buffer_def)
qed

lemma huffman_spec_iff_string:
  "huffman_spec bs = Some str \<longleftrightarrow>
   bs \<noteq> [] \<and> (\<exists>k < 8. bits_of bs = string_bits str @ replicate k True)"
  by (simp only: huffman_spec_iff string_bits_def char_code_def [abs_def])

lemma string_bits_eq_Nil [simp]: "string_bits s = [] \<longleftrightarrow> s = []"
proof (cases s)
  case (Cons c t)
  have "length (char_code c) \<ge> 5"
    using symbol_for_ok [of c] by (simp add: char_code_eq length_code_bits symbol_ok_def)
  then show ?thesis using Cons by (cases "char_code c") auto
qed simp

lemma huffman_spec_bits:
  assumes "bits_of bs = string_bits str @ replicate k True" "k < 8" "str \<noteq> []"
  shows "huffman_spec bs = Some str"
  using assms by (auto simp: huffman_spec_iff_string)

lemma short_code_iff: "short_code c \<longleftrightarrow> snd (encoding_table ! unat (byte_of_char c)) \<le> 16"
  by (simp add: short_code_def symbol_for_def)

text \<open>Among the printable ASCII characters only the backslash has a longer code.\<close>

lemma short_code_printable:
  assumes "32 \<le> (of_char c :: nat)" "(of_char c :: nat) \<le> 126" "c \<noteq> CHR 0x5c"
  shows "short_code c"
proof -
  have rows: "list_all (\<lambda>n. n \<noteq> 92 \<longrightarrow> snd (encoding_table ! n) \<le> 16) [32..<127]"
    by (simp add: upt_rec encoding_rules)
  have table: "n \<noteq> 92 \<longrightarrow> snd (encoding_table ! n) \<le> 16" if "32 \<le> n" "n < 127" for n
  proof -
    have "n \<in> set [32..<127]" using that unfolding set_upt atLeastLessThan_iff by (rule conjI)
    then show ?thesis using rows unfolding list_all_iff by blast
  qed
  have "(of_char c :: nat) \<noteq> 92"
  proof
    assume "(of_char c :: nat) = 92"
    then have "char_of (of_char c :: nat) = (char_of (92 :: nat) :: char)" by (rule arg_cong)
    moreover have "char_of (92 :: nat) = CHR 0x5c" by code_simp
    ultimately show False using assms(3) by simp
  qed
  moreover have "unat (byte_of_char c) = of_char c"
    using assms(2) by (simp add: byte_of_char_def unat_of_nat)
  ultimately show ?thesis using table [of "of_char c"] assms(1,2) by (simp add: short_code_iff)
qed

section \<open>Properties\<close>

text \<open>
  C5. The decoder against the definition of the code: it returns a string exactly when the bits of
  the given bytes, at least one, are the codes of its characters followed by fewer than eight ones;
  otherwise, also on no bytes at all, it fails with \<open>incomplete\<close> or \<open>qpack_decompression_failed\<close> and consumes nothing. It never faults.
\<close>

theorem huffman_decode_correct:
  assumes "seq_ok s"
  shows "case huffman_decode s n of
      (Ok str, s') \<Rightarrow> n \<le> length (seq_bytes s) \<and> 0 < n \<and> s' = seq_drop s n \<and>
        (\<exists>k < 8. bits_of (take n (seq_bytes s)) = string_bits str @ replicate k True)
    | (Err e, s') \<Rightarrow> s' = s \<and>
        (if length (seq_bytes s) < n then e = Incomplete
         else e = Qpack_decompression_failed \<and>
           (n = 0 \<or> (\<forall>str. \<forall>k < 8. bits_of (take n (seq_bytes s)) \<noteq> string_bits str @ replicate k True)))
    | (Fault, _) \<Rightarrow> False"
proof (cases "length (seq_bytes s) < n")
  case True
  then show ?thesis by (simp add: huffman_decode_eq [OF assms])
next
  case False
  then have ne: "take n (seq_bytes s) = [] \<longleftrightarrow> n = 0" by auto
  show ?thesis
  proof (cases "huffman_spec (take n (seq_bytes s))")
    case None
    then have "\<not> (take n (seq_bytes s) \<noteq> [] \<and>
        (\<exists>k < 8. bits_of (take n (seq_bytes s)) = string_bits str @ replicate k True))" for str
      by (metis huffman_spec_iff_string option.distinct(1))
    then show ?thesis using None False ne by (auto simp: huffman_decode_eq [OF assms])
  next
    case (Some str)
    then show ?thesis using False ne huffman_spec_iff_string [of "take n (seq_bytes s)" str]
      by (simp add: huffman_decode_eq [OF assms])
  qed
qed

theorem huffman_decode_correct_witness:
  "case huffman_decode (Buffer_seq [0x1f, 9]) 1 of
      (Ok str, s') \<Rightarrow> 1 \<le> length (seq_bytes (Buffer_seq [0x1f, 9])) \<and> (0 :: nat) < 1 \<and>
        s' = seq_drop (Buffer_seq [0x1f, 9]) 1 \<and>
        (\<exists>k < 8. bits_of (take 1 (seq_bytes (Buffer_seq [0x1f, 9]))) = string_bits str @ replicate k True)
    | (Err e, s') \<Rightarrow> s' = Buffer_seq [0x1f, 9] \<and>
        (if length (seq_bytes (Buffer_seq [0x1f, 9])) < 1 then e = Incomplete
         else e = Qpack_decompression_failed \<and>
           ((1 :: nat) = 0 \<or> (\<forall>str. \<forall>k < 8. bits_of (take 1 (seq_bytes (Buffer_seq [0x1f, 9]))) \<noteq>
              string_bits str @ replicate k True)))
    | (Fault, _) \<Rightarrow> False"
  by (rule huffman_decode_correct) simp

text \<open>
  Round trip: a nonempty string of characters with codes of at most sixteen bits is encoded
  into exactly \<open>encoded_size\<close> bytes, whatever the memory held, and decodes to itself.
\<close>

theorem huffman_round_trip:
  assumes "str \<noteq> []" "\<forall>c \<in> set str. short_code c" "seq_ok s"
    and "huffman_encode_buffer junk str = Some encoded" "seq_bytes s = encoded @ rest"
  shows "length encoded = huffman_encoded_size str \<and>
    huffman_decode s (length encoded) = (Ok str, seq_drop s (length encoded))"
proof -
  obtain k where k: "bits_of encoded = string_bits str @ replicate k True" "k < 8"
      "length encoded = huffman_encoded_size str"
    using huffman_encode_buffer_eq [OF assms(2), of junk] assms(4) by auto
  then show ?thesis using huffman_spec_bits [OF k(1,2) assms(1)] assms(5)
    by (simp add: huffman_decode_eq [OF assms(3)])
qed

lemma symbol_loop_more:
  "8 < n \<Longrightarrow> symbol_loop code n dest mem =
     do {
       mem \<leftarrow> mem_store mem dest [ucast (drop_bit (n - n mod 8) code)];
       symbol_loop code (n - 8) (dest + 1) mem
     }"
  by (subst symbol_loop.simps) simp

lemmas huffman_eval = symbol_loop_stop symbol_loop_more symbol_for_def byte_of_char_def encoding_rules huffman_encoded_size_def
  huffman_encode_buffer_def huffman_encode_def symbol_encode_def mem_or_def mem_load_def mem_store_def
  fresh_memory_def Let_def upt_rec

theorem huffman_round_trip_witness:
  "length [0x1c, 0x7f :: byte] = huffman_encoded_size ''ab'' \<and>
   huffman_decode (Buffers_seq [[0x1c], [0x7f, 7]]) (length [0x1c, 0x7f :: byte]) =
     (Ok ''ab'', seq_drop (Buffers_seq [[0x1c], [0x7f, 7]]) (length [0x1c, 0x7f :: byte]))"
proof (rule huffman_round_trip)
  show "''ab'' \<noteq> []" by simp
  show "\<forall>c \<in> set ''ab''. short_code c" by (simp add: short_code_def huffman_eval)
  show "seq_ok (Buffers_seq [[0x1c], [0x7f, 7]])" by simp
  show "huffman_encode_buffer (\<lambda>_. 0xff) ''ab'' = Some [0x1c, 0x7f]"
    by (simp add: huffman_eval)
  show "seq_bytes (Buffers_seq [[0x1c], [0x7f, 7]]) = [0x1c, 0x7f] @ [7]" by simp
qed

end
