(* ===== verification/Prefix_Int.thy ===== *)
theory Prefix_Int
  imports Codec
begin

text \<open>
  Prefixed integers (\<open>qpack/prefix_int\<close>): the value shares its first byte with \<open>8 - prefix\<close> high
  bits of the caller; values that do not fit the prefix continue in groups of seven bits, least
  significant group first. Every caller passes a constant prefix between 3 and 7.
\<close>

section \<open>encode.cpp\<close>

definition prefix_max :: "nat \<Rightarrow> byte" where
  "prefix_max prefix = ucast (push_bit prefix (1 :: uint32) - 1)"

function prefix_int_size_loop :: "uint64 \<Rightarrow> nat \<Rightarrow> nat" where
  "prefix_int_size_loop value encoded_size =
     (if value \<ge> 128 then prefix_int_size_loop (value div 128) (encoded_size + 1) else encoded_size)"
  by pat_completeness auto

lemma unat_div_128: "(128 :: uint64) \<le> v \<Longrightarrow> unat (v div 128) < unat v"
  by (simp add: unat_div word_le_nat_alt)

termination prefix_int_size_loop
  by (relation "measure (\<lambda>(v, _). unat v)") (simp_all add: unat_div_128)

definition prefix_int_encoded_size :: "uint64 \<Rightarrow> nat \<Rightarrow> nat" where
  "prefix_int_encoded_size value prefix =
     (if value < ucast (prefix_max prefix) then 1
      else prefix_int_size_loop (value - ucast (prefix_max prefix)) 1 + 1)"

function prefix_int_encode_loop :: "uint64 \<Rightarrow> nat \<Rightarrow> bytes \<Rightarrow> (nat \<times> bytes) option" where
  "prefix_int_encode_loop value dest mem =
     (if value \<ge> 128 then
        do {
          mem \<leftarrow> mem_store mem dest [ucast (value mod 128 + 128)];
          prefix_int_encode_loop (value div 128) (dest + 1) mem
        }
      else
        do {
          mem \<leftarrow> mem_store mem dest [ucast value];
          Some (dest + 1, mem)
        })"
  by pat_completeness auto
termination
  by (relation "measure (\<lambda>(v, _). unat v)") (simp_all add: unat_div_128)

definition prefix_int_encode :: "bytes \<Rightarrow> nat \<Rightarrow> uint64 \<Rightarrow> nat \<Rightarrow> (nat \<times> bytes) option" where
  "prefix_int_encode mem begin_dest value prefix =
     do {
       old \<leftarrow> mem_load mem begin_dest;
       if value < ucast (prefix_max prefix) then
         do {
           mem \<leftarrow> mem_store mem begin_dest [(old AND NOT (prefix_max prefix)) OR ucast value];
           Some (1, mem)
         }
       else
         do {
           mem \<leftarrow> mem_store mem begin_dest [old OR prefix_max prefix];
           (dest, mem) \<leftarrow>
             prefix_int_encode_loop (value - ucast (prefix_max prefix)) (begin_dest + 1) mem;
           Some (dest - begin_dest, mem)
         }
     }"

definition prefix_int_encode_buffer :: "(nat \<Rightarrow> byte) \<Rightarrow> uint64 \<Rightarrow> nat \<Rightarrow> bytes option" where
  "prefix_int_encode_buffer junk value prefix =
     do {
       (_, encoded) \<leftarrow>
         prefix_int_encode (fresh_memory junk (prefix_int_encoded_size value prefix)) 0 value prefix;
       Some encoded
     }"

section \<open>decode.cpp\<close>

definition prefix_uint8_decode :: "sequence \<Rightarrow> (byte, error) result \<times> sequence" where
  "prefix_uint8_decode encoded =
     (if seq_empty encoded then (Err Incomplete, encoded)
      else try_in encoded (or_fault (seq_at encoded 0)) (\<lambda>result.
           try_in encoded (or_fault (seq_consume encoded 1)) (\<lambda>encoded'.
           (Ok result, encoded'))))"

text \<open>
  The \<open>do\<close> loop. The factor \<open>1U << offset\<close> and the product are computed in 32 bits; a shift by 32
  or more is undefined behaviour.
\<close>

lemma prefix_uint8_shrinks:
  "prefix_uint8_decode s = (Ok b, s') \<Longrightarrow> seq_size s' < seq_size s"
proof (cases "seq_ok s")
  case True
  assume "prefix_uint8_decode s = (Ok b, s')"
  with True show ?thesis
    by (cases "seq_bytes s") (auto simp: prefix_uint8_decode_def seq.at_eq seq_consume_eq)
next
  case False
  assume d: "prefix_uint8_decode s = (Ok b, s')"
  from False have "seq_size s = 0" by (cases s) auto
  with d show ?thesis by (simp add: prefix_uint8_decode_def seq_empty_def)
qed

function prefix_int_decode_loop ::
  "uint64 \<Rightarrow> nat \<Rightarrow> sequence \<Rightarrow> (uint64, error) result \<times> sequence" where
  "prefix_int_decode_loop result offset encoded =
     (case prefix_uint8_decode encoded of
        (Ok b, encoded') \<Rightarrow>
          (if 32 \<le> offset then (Fault, encoded')
           else
             let result = result + ucast ((ucast b AND 127) * push_bit offset (1 :: uint32))
             in if b AND 128 = 128 then prefix_int_decode_loop result (offset + 7) encoded'
                else (Ok result, encoded'))
      | (Err e, encoded') \<Rightarrow> (Err e, encoded')
      | (Fault, encoded') \<Rightarrow> (Fault, encoded'))"
  by pat_completeness auto
termination
  by (relation "measure (\<lambda>(_, _, s). seq_size s)") (auto dest: prefix_uint8_shrinks [OF sym])

text \<open>
  The bytes are taken from \<open>encoded\<close> itself, also when the integer turns out to be incomplete; the
  lookahead made at the start stays at its position, so the final \<open>consume\<close> takes nothing.
\<close>

definition prefix_int_decode :: "sequence \<Rightarrow> nat \<Rightarrow> (uint64, error) result \<times> sequence" where
  "prefix_int_decode encoded prefix =
     (let lookahead = seq_lookahead encoded in
      try_state (prefix_uint8_decode encoded) (\<lambda>b encoded.
      let result = ucast b AND ucast (prefix_max prefix) in
      try_state
        (if result \<ge> ucast (prefix_max prefix) then prefix_int_decode_loop result 0 encoded
         else (Ok result, encoded)) (\<lambda>result encoded.
      try_in encoded (or_fault (seq_consume encoded (seq_consumed lookahead))) (\<lambda>encoded.
      (Ok result, encoded)))))"

declare prefix_int_size_loop.simps [simp del] prefix_int_encode_loop.simps [simp del]
  prefix_int_decode_loop.simps [simp del]

section \<open>The wire format\<close>

fun prefix_tail :: "nat \<Rightarrow> bytes" where
  "prefix_tail n =
     (if n < 128 then [word_of_nat n] else word_of_nat (n mod 128 + 128) # prefix_tail (n div 128))"

declare prefix_tail.simps [simp del]

definition prefix_wire :: "byte \<Rightarrow> nat \<Rightarrow> uint64 \<Rightarrow> bytes" where
  "prefix_wire old p v =
     (if unat v < 2 ^ p - 1 then [(old AND NOT (mask p)) OR ucast v]
      else (old OR mask p) # prefix_tail (unat v - (2 ^ p - 1)))"

lemma prefix_max_eq: "p \<le> 8 \<Longrightarrow> prefix_max p = mask p"
proof -
  assume p: "p \<le> 8"
  have "push_bit p (1 :: uint32) - 1 = mask p" by (simp add: mask_eq_exp_minus_1)
  moreover have "(ucast (mask p :: uint32) :: byte) = mask p"
    by (rule bit_word_eqI) (simp add: bit_ucast_iff bit_mask_iff)
  ultimately show ?thesis by (simp add: prefix_max_def)
qed

lemma unat_mask8: "p \<le> 8 \<Longrightarrow> unat (mask p :: byte) = 2 ^ p - 1"
proof -
  assume "p \<le> 8"
  then have "unat (mask p :: byte) = mask p"
    by (intro bit_eqI) (auto simp: bit_unsigned_iff bit_mask_iff)
  then show ?thesis by (simp add: mask_eq_exp_minus_1)
qed

lemma unat_prefix_max: "p \<le> 8 \<Longrightarrow> unat (ucast (prefix_max p) :: uint64) = 2 ^ p - 1"
proof -
  assume p: "p \<le> 8"
  have "unat (prefix_max p) < 2 ^ 8" using unsigned_less [of "prefix_max p"] by simp
  then have "unat (ucast (prefix_max p) :: uint64) = unat (prefix_max p)"
    by (simp add: unsigned_ucast_eq take_bit_nat_eq_self)
  with p show ?thesis by (simp add: prefix_max_eq unat_mask8)
qed

lemma less_prefix_max: "p \<le> 8 \<Longrightarrow> (v :: uint64) < ucast (prefix_max p) \<longleftrightarrow> unat v < 2 ^ p - 1"
  by (simp add: word_less_nat_alt unat_prefix_max)

lemma unat_minus_prefix:
  "p \<le> 8 \<Longrightarrow> \<not> unat v < 2 ^ p - 1 \<Longrightarrow> unat (v - ucast (prefix_max p) :: uint64) = unat v - (2 ^ p - 1)"
  by (simp add: unat_sub word_le_nat_alt unat_prefix_max)

lemma length_prefix_tail_pos: "0 < length (prefix_tail n)"
  by (subst prefix_tail.simps) simp

lemma prefix_int_size_loop_eq:
  "prefix_int_size_loop v n + 1 = n + length (prefix_tail (unat v))"
proof (induction v n rule: prefix_int_size_loop.induct)
  case (1 v n)
  then show ?case
    by (subst prefix_int_size_loop.simps, subst prefix_tail.simps)
      (simp add: word_le_nat_alt unat_div)
qed

lemma prefix_int_encoded_size_eq:
  "p \<le> 8 \<Longrightarrow> prefix_int_encoded_size v p = length (prefix_wire old p v)"
  using prefix_int_size_loop_eq [of "v - ucast (prefix_max p)" 1]
  by (simp add: prefix_int_encoded_size_def prefix_wire_def less_prefix_max unat_minus_prefix)

lemma prefix_int_encode_loop_eq:
  "length (prefix_tail (unat v)) \<le> length post \<Longrightarrow>
   prefix_int_encode_loop v (length A) (A @ post) =
     Some (length A + length (prefix_tail (unat v)),
           A @ prefix_tail (unat v) @ drop (length (prefix_tail (unat v))) post)"
proof (induction "unat v" arbitrary: v A post rule: less_induct)
  case less
  obtain x post' where post: "post = x # post'"
    using less.prems length_prefix_tail_pos [of "unat v"] by (cases post) auto
  show ?case
  proof (cases "128 \<le> v")
    case True
    let ?b = "ucast (v mod 128 + 128) :: byte"
    have nat: "128 \<le> unat v" using True by (simp add: word_le_nat_alt)
    have b: "?b = word_of_nat (unat v mod 128 + 128)"
    proof -
      have "unat (v mod 128 + 128) = unat v mod 128 + 128"
        by (simp add: unat_word_ariths unat_mod)
      then show ?thesis by (metis of_nat_unat)
    qed
    have tl: "prefix_tail (unat v) = ?b # prefix_tail (unat (v div 128))"
      using nat by (subst prefix_tail.simps) (simp only: b unat_div, simp)
    have "prefix_int_encode_loop v (length A) (A @ post) =
        prefix_int_encode_loop (v div 128) (length (A @ [?b])) ((A @ [?b]) @ post')"
      using True by (subst prefix_int_encode_loop.simps) (simp add: post mem_store_append)
    also have "\<dots> = Some (length (A @ [?b]) + length (prefix_tail (unat (v div 128))),
        (A @ [?b]) @ prefix_tail (unat (v div 128)) @ drop (length (prefix_tail (unat (v div 128)))) post')"
      by (rule less.hyps [OF unat_div_128 [OF True]]) (use less.prems post tl in simp)
    finally show ?thesis by (simp add: tl post)
  next
    case False
    have "ucast v = (word_of_nat (unat v) :: byte)" by simp
    moreover have "unat v < 128" using False by (simp add: word_le_nat_alt)
    ultimately have tl: "prefix_tail (unat v) = [ucast v]" by (subst prefix_tail.simps) simp
    then show ?thesis using False
      by (subst prefix_int_encode_loop.simps) (simp add: post mem_store_append)
  qed
qed

lemma prefix_int_encode_eq:
  assumes p: "p \<le> 8" and room: "length (prefix_wire old p v) \<le> Suc (length post)"
  shows "prefix_int_encode (A @ old # post) (length A) v p =
    Some (length (prefix_wire old p v),
          A @ prefix_wire old p v @ drop (length (prefix_wire old p v) - 1) post)"
proof (cases "unat v < 2 ^ p - 1")
  case True
  then show ?thesis unfolding prefix_int_encode_def less_prefix_max [OF p]
    by (simp add: mem_load_append mem_store_append prefix_wire_def prefix_max_eq [OF p])
next
  case False
  let ?w = "v - ucast (prefix_max p)"
  have w: "unat ?w = unat v - (2 ^ p - 1)" by (rule unat_minus_prefix [OF p False])
  have "length (prefix_tail (unat ?w)) \<le> length post"
    using room False by (simp add: prefix_wire_def w)
  from prefix_int_encode_loop_eq [OF this, of "A @ [old OR mask p]"]
  have "prefix_int_encode_loop ?w (Suc (length A)) (A @ (old OR mask p) # post) =
    Some (Suc (length A) + length (prefix_tail (unat v - (2 ^ p - 1))),
      A @ (old OR mask p) # prefix_tail (unat v - (2 ^ p - 1)) @
      drop (length (prefix_tail (unat v - (2 ^ p - 1)))) post)"
    by (simp add: w)
  then show ?thesis using False unfolding prefix_int_encode_def less_prefix_max [OF p]
    by (simp add: mem_load_append mem_store_append prefix_wire_def prefix_max_eq [OF p])
qed

section \<open>Decoding\<close>

lemma group_value: "ucast (b :: byte) AND 127 = (word_of_nat (unat b mod 128) :: uint32)"
proof -
  have "unat (b) < 2 ^ 8" using unsigned_less [of b] by simp
  then have u: "unat (ucast b :: uint32) = unat b"
    by (simp add: unsigned_ucast_eq take_bit_nat_eq_self)
  have "(127 :: uint32) = mask 7" by (simp add: mask_eq_exp_minus_1)
  then have "ucast b AND 127 = (take_bit 7 (ucast b) :: uint32)" by (simp only: take_bit_eq_mask)
  moreover have "unat (take_bit 7 (ucast b) :: uint32) = unat b mod 128"
  proof -
    have "take_bit 7 (unat b) = unat b mod 128" by (simp add: take_bit_eq_mod)
    then show ?thesis by (simp only: unsigned_take_bit_eq u)
  qed
  ultimately show ?thesis by (metis of_nat_unat ucast_id)
qed

lemma group_more: "(b :: byte) AND 128 = 128 \<longleftrightarrow> 128 \<le> unat b"
proof -
  have b: "unat b < 256" using unsigned_less [of b] by simp
  have one: "bit (128 :: byte) n \<longleftrightarrow> n = 7" for n
  proof -
    have "(128 :: byte) = push_bit 7 1" by simp
    then show ?thesis by (simp only: bit_push_bit_iff bit_1_iff) auto
  qed
  have "(b AND 128 = 128) \<longleftrightarrow> bit b 7"
  proof
    assume "b AND 128 = 128"
    then have "bit (b AND 128) 7" by simp
    then show "bit b 7" by (simp add: bit_and_iff)
  next
    assume "bit b 7"
    then show "b AND 128 = 128" by (intro bit_word_eqI) (simp only: bit_and_iff one, auto)
  qed
  also have "\<dots> \<longleftrightarrow> odd (unat b div 128)"
  proof -
    have "bit b 7 \<longleftrightarrow> bit (unat b) 7" by (simp add: bit_unsigned_iff)
    then show ?thesis by (simp add: bit_iff_odd)
  qed
  also have "\<dots> \<longleftrightarrow> 128 \<le> unat b"
  proof (cases "128 \<le> unat b")
    case True
    then have "unat b div 128 = 1" using b by simp
    then show ?thesis using True by simp
  qed simp
  finally show ?thesis .
qed

lemma group_product:
  assumes "g * 2 ^ off < 2 ^ 32"
  shows "ucast (word_of_nat g * push_bit off (1 :: uint32)) = (word_of_nat (g * 2 ^ off) :: uint64)"
proof -
  have "word_of_nat g * push_bit off (1 :: uint32) = word_of_nat (g * 2 ^ off)" by simp
  moreover have "unat (word_of_nat (g * 2 ^ off) :: uint32) = g * 2 ^ off"
    using assms by (simp only: unat_of_nat) simp
  ultimately show ?thesis by (metis of_nat_unat ucast_id unsigned_of_nat)
qed

lemma prefix_uint8_decode_Cons:
  "seq_ok s \<Longrightarrow> seq_bytes s = b # bs \<Longrightarrow> prefix_uint8_decode s = (Ok b, seq_drop s 1)"
  by (simp add: prefix_uint8_decode_def seq.at_eq seq_consume_eq)

lemma prefix_uint8_decode_Nil:
  "seq_ok s \<Longrightarrow> seq_bytes s = [] \<Longrightarrow> prefix_uint8_decode s = (Err Incomplete, s)"
  by (simp add: prefix_uint8_decode_def)

text \<open>What a decoder that reads \<open>encoded\<close> directly leaves behind.\<close>

definition taken :: "sequence \<Rightarrow> nat \<Rightarrow> sequence \<Rightarrow> bool" where
  "taken s n s' \<longleftrightarrow>
     n \<le> length (seq_bytes s) \<and> seq_ok s' \<and> seq_bytes s' = drop n (seq_bytes s) \<and>
     is_lookahead s' = is_lookahead s \<and> (is_lookahead s \<longrightarrow> s' = seq_drop s n)"

lemma taken_drop: "seq_ok s \<Longrightarrow> n \<le> length (seq_bytes s) \<Longrightarrow> taken s n (seq_drop s n)"
  by (simp add: taken_def)

lemma taken_0: "seq_ok s \<Longrightarrow> taken s 0 s"
  by (simp add: taken_def)

lemma taken_trans: "seq_ok s \<Longrightarrow> taken s m s' \<Longrightarrow> taken s' n s'' \<Longrightarrow> taken s (m + n) s''"
  by (auto simp: taken_def add.commute)

lemma prefix_int_decode_loop_Nil:
  "seq_ok s \<Longrightarrow> seq_bytes s = [] \<Longrightarrow> prefix_int_decode_loop r off s = (Err Incomplete, s)"
  by (subst prefix_int_decode_loop.simps) (simp add: prefix_uint8_decode_Nil)

lemma prefix_int_decode_loop_Cons:
  "seq_ok s \<Longrightarrow> seq_bytes s = b # bs \<Longrightarrow>
   prefix_int_decode_loop r off s =
     (if 32 \<le> off then (Fault, seq_drop s 1)
      else if b AND 128 = 128
      then prefix_int_decode_loop (r + ucast ((ucast b AND 127) * push_bit off (1 :: uint32))) (off + 7)
             (seq_drop s 1)
      else (Ok (r + ucast ((ucast b AND 127) * push_bit off (1 :: uint32))), seq_drop s 1))"
  by (subst prefix_int_decode_loop.simps) (simp add: prefix_uint8_decode_Cons Let_def)

text \<open>One group of an encoding whose value has more groups, and the room it leaves in 32 bits.\<close>

lemma prefix_tail_more:
  assumes "128 \<le> w"
  obtains b where "prefix_tail w = b # prefix_tail (w div 128)" "b AND 128 = 128"
    "ucast b AND 127 = (word_of_nat (w mod 128) :: uint32)"
proof
  let ?b = "word_of_nat (w mod 128 + 128) :: byte"
  show "prefix_tail w = ?b # prefix_tail (w div 128)" using assms by (subst prefix_tail.simps) simp
  have "w mod 128 + 128 < 256" by simp
  then have b: "unat ?b = w mod 128 + 128" by (simp only: unat_of_nat) simp
  show "?b AND 128 = 128" by (simp only: group_more b)
  show "ucast ?b AND 127 = (word_of_nat (w mod 128) :: uint32)" by (simp only: group_value b) simp
qed

lemma group_room:
  assumes "128 \<le> (w :: nat)" "w * 2 ^ off < 2 ^ 32"
  shows "(w div 128) * 2 ^ (off + 7) < 2 ^ 32" "off + 7 < 32" "(w mod 128) * 2 ^ off < 2 ^ 32"
    "(w mod 128) * 2 ^ off + (w div 128) * 2 ^ (off + 7) = w * 2 ^ off"
proof -
  have pow: "(w div 128) * 2 ^ (off + 7) = (w div 128 * 128) * 2 ^ off" by (simp add: power_add)
  also have "\<dots> \<le> w * 2 ^ off" by (intro mult_le_mono1) simp
  finally show small: "(w div 128) * 2 ^ (off + 7) < 2 ^ 32" using assms(2) by simp
  have "0 < w div 128" using assms(1) by (simp add: div_greater_zero_iff)
  then have "2 ^ (off + 7) \<le> (w div 128) * 2 ^ (off + 7)" by simp
  then have "(2 :: nat) ^ (off + 7) < 2 ^ 32" using small by linarith
  then show "off + 7 < 32" by (simp only: power_strict_increasing_iff)
  show "(w mod 128) * 2 ^ off < 2 ^ 32"
    using assms(2) by (meson le_less_trans mod_less_eq_dividend mult_le_mono1)
  have "(w mod 128) * 2 ^ off + (w div 128) * 2 ^ (off + 7) = (w mod 128 + w div 128 * 128) * 2 ^ off"
    unfolding pow by (simp only: add_mult_distrib)
  also have "w mod 128 + w div 128 * 128 = w" by simp
  finally show "(w mod 128) * 2 ^ off + (w div 128) * 2 ^ (off + 7) = w * 2 ^ off" .
qed

lemma prefix_int_decode_loop_eq:
  "seq_ok s \<Longrightarrow> seq_bytes s = prefix_tail w @ rest \<Longrightarrow> w * 2 ^ off < 2 ^ 32 \<Longrightarrow> off < 32 \<Longrightarrow>
   \<exists>s'. prefix_int_decode_loop r off s = (Ok (r + word_of_nat (w * 2 ^ off)), s') \<and>
     taken s (length (prefix_tail w)) s'"
proof (induction w arbitrary: r off s rule: less_induct)
  case (less w)
  show ?case
  proof (cases "w < 128")
    case True
    let ?b = "word_of_nat w :: byte"
    have tl: "prefix_tail w = [?b]" using True by (subst prefix_tail.simps) simp
    have b: "unat ?b = w" using True by (simp add: unat_of_nat)
    have "(ucast ((ucast ?b AND 127) * push_bit off (1 :: uint32)) :: uint64) = word_of_nat (w * 2 ^ off)"
      unfolding group_value b using True group_product [OF less.prems(3)] by simp
    moreover have "\<not> ?b AND 128 = 128" unfolding group_more b using True by simp
    ultimately have "prefix_int_decode_loop r off s = (Ok (r + word_of_nat (w * 2 ^ off)), seq_drop s 1)"
      using prefix_int_decode_loop_Cons [OF less.prems(1), of ?b rest] less.prems tl by simp
    then show ?thesis using taken_drop [of s 1] less.prems tl by simp
  next
    case False
    then have w: "128 \<le> w" by simp
    obtain b where tl: "prefix_tail w = b # prefix_tail (w div 128)" "b AND 128 = 128"
      "ucast b AND 127 = (word_of_nat (w mod 128) :: uint32)"
      by (rule prefix_tail_more [OF w])
    note room = group_room [OF w less.prems(3)]
    let ?r = "r + word_of_nat ((w mod 128) * 2 ^ off)"
    have step: "prefix_int_decode_loop r off s = prefix_int_decode_loop ?r (off + 7) (seq_drop s 1)"
      using prefix_int_decode_loop_Cons [OF less.prems(1), of b "prefix_tail (w div 128) @ rest" r off]
        less.prems(2,4) by (simp only: tl group_product [OF room(3)]) simp
    have s': "seq_bytes (seq_drop s 1) = prefix_tail (w div 128) @ rest" "seq_ok (seq_drop s 1)"
      using less.prems tl by simp_all
    have "w div 128 < w" using w by simp
    then obtain s'' where s'': "prefix_int_decode_loop ?r (off + 7) (seq_drop s 1) =
        (Ok (?r + word_of_nat ((w div 128) * 2 ^ (off + 7))), s'')"
        "taken (seq_drop s 1) (length (prefix_tail (w div 128))) s''"
      using less.IH [OF _ s'(2,1) room(1,2)] by blast
    have "?r + word_of_nat ((w div 128) * 2 ^ (off + 7)) = r + word_of_nat (w * 2 ^ off)"
      unfolding add.assoc of_nat_add [symmetric] room(4) ..
    moreover have "taken s (1 + length (prefix_tail (w div 128))) s''"
      by (rule taken_trans [OF _ taken_drop s''(2)]) (use less.prems tl in simp_all)
    ultimately show ?thesis using step s''(1) by (simp add: tl)
  qed
qed

lemma masked_unat:
  assumes p: "p \<le> 8"
  shows "(ucast (b :: byte) AND ucast (prefix_max p) :: uint64) = ucast (b AND mask p)"
  unfolding prefix_max_eq [OF p] by (rule bit_word_eqI) (auto simp: bit_and_iff bit_ucast_iff bit_mask_iff)

lemma unat_ucast_byte: "unat (ucast (b :: byte) :: uint64) = unat b"
proof -
  have "unat b < 2 ^ 8" using unsigned_less [of b] by simp
  then have "unat b < 2 ^ 64" by simp
  then show ?thesis by (simp add: unsigned_ucast_eq take_bit_nat_eq_self)
qed

lemma masked_ge:
  assumes p: "p \<le> 8"
  shows "ucast (prefix_max p) \<le> (ucast (b :: byte) AND ucast (prefix_max p) :: uint64) \<longleftrightarrow> b AND mask p = mask p"
proof -
  have "ucast (prefix_max p) \<le> (ucast b AND ucast (prefix_max p) :: uint64) \<longleftrightarrow>
      mask p \<le> b AND mask p"
    unfolding masked_unat [OF p] word_le_nat_alt unat_ucast_byte unfolding prefix_max_eq [OF p] ..
  also have "\<dots> \<longleftrightarrow> b AND mask p = mask p"
    by (metis and.commute antisym order_refl word_and_le1)
  finally show ?thesis .
qed

lemma first_small:
  assumes p: "p \<le> 8" and v: "unat v < 2 ^ p - 1"
  shows "((old AND NOT (mask p)) OR ucast (v :: uint64)) AND mask p = (ucast v :: byte)"
    and "ucast (ucast v :: byte) = v" and "(ucast v :: byte) \<noteq> mask p"
proof -
  have "v < 2 ^ p" using p v by (subst word_less_2p_iff) auto
  then have hi: "n < p" if "bit v n" for n using not_bit_above [of v p n] that not_le by blast
  show "((old AND NOT (mask p)) OR ucast v) AND mask p = (ucast v :: byte)"
    by (rule bit_word_eqI)
      (use hi in \<open>auto simp: bit_and_iff bit_or_iff bit_not_iff bit_mask_iff bit_ucast_iff\<close>)
  show u: "ucast (ucast v :: byte) = v"
    by (rule bit_word_eqI) (use hi p in \<open>fastforce simp: bit_ucast_iff\<close>)
  have "unat (ucast v :: byte) \<le> unat v" by (simp add: unsigned_ucast_eq take_bit_nat_less_eq_self)
  then show "(ucast v :: byte) \<noteq> mask p" using unat_mask8 [OF p] v by auto
qed

lemma first_large: "((old :: byte) OR mask p) AND mask p = mask p"
  by (rule bit_word_eqI) (auto simp: bit_and_iff bit_or_iff)

text \<open>The decoder after its first byte; the last \<open>consume\<close> takes nothing.\<close>

lemma prefix_int_decode_first:
  assumes p: "p \<le> 8" and s: "seq_ok s" "seq_bytes s = b # bs"
  shows "prefix_int_decode s p =
    (if b AND mask p = mask p
     then try_state (prefix_int_decode_loop (ucast (b AND mask p)) 0 (seq_drop s 1)) (\<lambda>r encoded.
       try_in encoded (or_fault (seq_consume encoded 0)) (\<lambda>encoded. (Ok r, encoded)))
     else (Ok (ucast (b AND mask p)), seq_drop (seq_drop s 1) 0))"
proof -
  have "seq_consume (seq_drop s 1) 0 = Some (seq_drop (seq_drop s 1) 0)"
    using seq_consume_eq [of "seq_drop s 1" 0] s by simp
  then show ?thesis
    unfolding prefix_int_decode_def Let_def prefix_uint8_decode_Cons [OF s] try_state_simps masked_ge [OF p]
    by (simp add: masked_unat [OF p])
qed

lemma taken_end: "seq_ok s \<Longrightarrow> taken s n s' \<Longrightarrow> taken s n (seq_drop s' 0)"
  using taken_trans [of s n s' 0 "seq_drop s' 0"] taken_drop [of s' 0] by (auto simp: taken_def)

lemma prefix_int_decode_eq:
  assumes p: "p \<le> 8" and v: "unat v < 2 ^ p - 1 + 2 ^ 32"
    and s: "seq_ok s" "seq_bytes s = prefix_wire old p v @ rest"
  shows "\<exists>s'. prefix_int_decode s p = (Ok v, s') \<and> taken s (length (prefix_wire old p v)) s'"
proof (cases "unat v < 2 ^ p - 1")
  case True
  let ?b = "(old AND NOT (mask p)) OR ucast v"
  have w: "prefix_wire old p v = [?b]" using True by (simp add: prefix_wire_def)
  have "prefix_int_decode s p = (Ok v, seq_drop (seq_drop s 1) 0)"
    using prefix_int_decode_first [OF p s(1), of ?b rest] s(2) w first_small [OF p True] by simp
  moreover have "taken s 1 (seq_drop (seq_drop s 1) 0)"
    by (rule taken_end [OF s(1)], rule taken_drop [OF s(1)]) (simp add: s(2) w)
  ultimately show ?thesis by (simp add: w)
next
  case False
  let ?b = "old OR mask p" and ?w = "unat v - (2 ^ p - 1)"
  have w: "prefix_wire old p v = ?b # prefix_tail ?w" using False by (simp add: prefix_wire_def)
  have d: "seq_ok (seq_drop s 1)" "seq_bytes (seq_drop s 1) = prefix_tail ?w @ rest"
    using s w by simp_all
  have small: "?w * 2 ^ 0 < 2 ^ 32" using v False by simp
  obtain s' where s': "prefix_int_decode_loop (ucast (mask p :: byte)) 0 (seq_drop s 1) =
      (Ok (ucast (mask p :: byte) + word_of_nat (?w * 2 ^ 0)), s')"
      "taken (seq_drop s 1) (length (prefix_tail ?w)) s'"
    using prefix_int_decode_loop_eq [OF d small] by auto
  have "(ucast (mask p :: byte) :: uint64) + word_of_nat ?w = v"
  proof -
    have "(ucast (mask p :: byte) :: uint64) = word_of_nat (2 ^ p - 1)"
      using unat_mask8 [OF p] by (metis of_nat_unat ucast_id unat_ucast_byte)
    then have "(ucast (mask p :: byte) :: uint64) + word_of_nat ?w = word_of_nat ((2 ^ p - 1) + ?w)"
      by (simp only: of_nat_add)
    also have "(2 ^ p - 1) + ?w = unat v" using False by linarith
    finally show ?thesis by simp
  qed
  moreover have "seq_consume s' 0 = Some (seq_drop s' 0)"
    using s'(2) seq_consume_eq [of s' 0] by (simp add: taken_def)
  ultimately have "prefix_int_decode s p = (Ok v, seq_drop s' 0)"
    using prefix_int_decode_first [OF p s(1), of ?b "prefix_tail ?w @ rest"] s(2) w s'(1)
    by (simp add: first_large)
  moreover have "taken s (1 + length (prefix_tail ?w)) (seq_drop s' 0)"
    by (rule taken_end [OF s(1)], rule taken_trans [OF s(1) taken_drop s'(2)]) (use s w in simp_all)
  ultimately show ?thesis by (simp add: w)
qed

lemma prefix_int_reads:
  assumes "p \<le> 8" "unat v < 2 ^ p - 1 + 2 ^ 32"
  shows "reads (\<lambda>l. prefix_int_decode l p) (prefix_wire old p v) v"
  unfolding reads_def
proof (intro allI impI)
  fix l rest
  assume l: "lookahead_ok l" "seq_bytes l = prefix_wire old p v @ rest"
  then show "prefix_int_decode l p = (Ok v, seq_drop l (length (prefix_wire old p v)))"
    using prefix_int_decode_eq [OF assms, of l old rest] by (auto simp: taken_def)
qed

text \<open>Truncated input: everything that was there has been taken.\<close>

lemma prefix_int_decode_loop_short:
  "seq_ok s \<Longrightarrow> k < length (prefix_tail w) \<Longrightarrow> seq_bytes s = take k (prefix_tail w) \<Longrightarrow>
   w * 2 ^ off < 2 ^ 32 \<Longrightarrow> off < 32 \<Longrightarrow>
   \<exists>s'. prefix_int_decode_loop r off s = (Err Incomplete, s') \<and> taken s k s'"
proof (induction w arbitrary: r off s k rule: less_induct)
  case (less w)
  show ?case
  proof (cases k)
    case 0
    then show ?thesis using less.prems prefix_int_decode_loop_Nil [of s r off] by (simp add: taken_0)
  next
      case (Suc j)
    then have w: "128 \<le> w" using less.prems(2) by (subst (asm) prefix_tail.simps) (auto split: if_splits)
    obtain b where tl: "prefix_tail w = b # prefix_tail (w div 128)" "b AND 128 = 128"
      by (rule prefix_tail_more [OF w])
    note room = group_room [OF w less.prems(4)]
    obtain r' where step: "prefix_int_decode_loop r off s =
        prefix_int_decode_loop r' (off + 7) (seq_drop s 1)"
      using prefix_int_decode_loop_Cons [OF less.prems(1), of b "take j (prefix_tail (w div 128))" r off]
        less.prems(3,5) tl Suc by auto
    have "w div 128 < w" using w by simp
    then obtain s' where s': "prefix_int_decode_loop r' (off + 7) (seq_drop s 1) = (Err Incomplete, s')"
        "taken (seq_drop s 1) j s'"
      using less.IH [of "w div 128" "seq_drop s 1" j "off + 7" r'] less.prems(1-3) room(1,2) tl Suc
      by auto
    have "taken s (1 + j) s'"
      by (rule taken_trans [OF _ taken_drop s'(2)]) (use less.prems tl Suc in simp_all)
    then show ?thesis using step s'(1) Suc by simp
  qed
qed

lemma prefix_int_decode_short:
  assumes p: "p \<le> 8" and v: "unat v < 2 ^ p - 1 + 2 ^ 32" and k: "k < length (prefix_wire old p v)"
    and s: "seq_ok s" "seq_bytes s = take k (prefix_wire old p v)"
  shows "\<exists>s'. prefix_int_decode s p = (Err Incomplete, s') \<and> taken s k s'"
proof (cases k)
  case 0
  then show ?thesis using s prefix_uint8_decode_Nil [of s] by (simp add: prefix_int_decode_def taken_0)
next
  case (Suc j)
  then have large: "\<not> unat v < 2 ^ p - 1" using k by (auto simp: prefix_wire_def)
  let ?b = "old OR mask p" and ?w = "unat v - (2 ^ p - 1)"
  have w: "prefix_wire old p v = ?b # prefix_tail ?w" using large by (simp add: prefix_wire_def)
  have d: "seq_ok (seq_drop s 1)" "seq_bytes (seq_drop s 1) = take j (prefix_tail ?w)"
    using s w Suc by simp_all
  have small: "?w * 2 ^ 0 < 2 ^ 32" using v large by simp
  obtain s' where s': "prefix_int_decode_loop (ucast (mask p :: byte)) 0 (seq_drop s 1) = (Err Incomplete, s')"
      "taken (seq_drop s 1) j s'"
    using prefix_int_decode_loop_short [OF d(1) _ d(2) small] k Suc w by auto
  have "taken s (1 + j) s'"
    by (rule taken_trans [OF s(1) taken_drop s'(2)]) (use s w Suc in simp_all)
  then show ?thesis
    using prefix_int_decode_first [OF p s(1), of ?b "take j (prefix_tail ?w)"] s(2) w s'(1) Suc
    by (simp add: first_large)
qed

lemma prefix_int_starves:
  assumes "p \<le> 8" "unat v < 2 ^ p - 1 + 2 ^ 32"
  shows "starves (\<lambda>l. prefix_int_decode l p) (prefix_wire old p v)"
  unfolding starves_def
proof (intro allI impI)
  fix l k
  assume l: "lookahead_ok l" "k < length (prefix_wire old p v)" "seq_bytes l = take k (prefix_wire old p v)"
  then show "fst (prefix_int_decode l p) = Err Incomplete"
    using prefix_int_decode_short [OF assms l(2) _ l(3)] by auto
qed

text \<open>The sixth group is shifted by 35 bits: that is the only way to a fault.\<close>

lemma prefix_int_decode_loop_fault:
  "seq_ok s \<Longrightarrow> j \<le> 5 \<Longrightarrow>
   fst (prefix_int_decode_loop r (7 * j) s) = Fault \<longleftrightarrow>
     6 - j \<le> length (seq_bytes s) \<and> (\<forall>i < 5 - j. seq_bytes s ! i AND 128 = 128)"
proof (induction "5 - j" arbitrary: j r s)
  case 0
  then have "j = 5" by simp
  then show ?case using 0 prefix_int_decode_loop_Nil [of s r 35] prefix_int_decode_loop_Cons [of s _ _ r 35]
    by (cases "seq_bytes s") simp_all
next
  case (Suc k)
  then have j: "j < 5" "5 - j = Suc k" "6 - j = Suc (6 - Suc j)" "k = 5 - Suc j" by simp_all
  show ?case
  proof (cases "seq_bytes s")
    case Nil
    then show ?thesis using Suc.prems j prefix_int_decode_loop_Nil [of s r "7 * j"] by simp
  next
    case (Cons b bs)
    let ?r = "r + ucast ((ucast b AND 127) * push_bit (7 * j) (1 :: uint32))"
    note step = prefix_int_decode_loop_Cons [OF Suc.prems(1) Cons, of r "7 * j"]
    show ?thesis
    proof (cases "b AND 128 = 128")
      case True
      have "prefix_int_decode_loop r (7 * j) s = prefix_int_decode_loop ?r (7 * Suc j) (seq_drop s 1)"
        using step True j(1) by (simp add: add.commute)
      moreover have "fst (prefix_int_decode_loop ?r (7 * Suc j) (seq_drop s 1)) = Fault \<longleftrightarrow>
          6 - Suc j \<le> length bs \<and> (\<forall>i < 5 - Suc j. bs ! i AND 128 = 128)"
        using Suc.hyps(1) [of "Suc j" "seq_drop s 1" ?r] Suc.prems Cons j by simp
      ultimately show ?thesis unfolding j(2,3) Cons using True j(4)
        by (auto simp: less_Suc_eq_0_disj)
    next
      case False
      then show ?thesis using step j Cons by auto
    qed
  qed
qed

lemma prefix_uint8_no_fault: "seq_ok s \<Longrightarrow> fst (prefix_uint8_decode s) \<noteq> Fault"
  by (cases "seq_bytes s") (simp_all add: prefix_uint8_decode_Nil prefix_uint8_decode_Cons)

lemma prefix_int_decode_loop_ok:
  "prefix_int_decode_loop r off s = (Ok v, s') \<Longrightarrow> seq_ok s \<Longrightarrow> seq_ok s'"
proof (induction r off s arbitrary: v s' rule: prefix_int_decode_loop.induct)
  case (1 r off s)
  show ?case
  proof (cases "seq_bytes s")
    case Nil
    then show ?thesis using 1 prefix_int_decode_loop_Nil by simp
  next
    case (Cons b bs)
    note d = prefix_uint8_decode_Cons [OF "1.prems"(2) Cons]
    show ?thesis
      using "1.prems" prefix_int_decode_loop_Cons [OF "1.prems"(2) Cons, of r off]
        "1.IH" [OF d [symmetric] refl _ refl, of v s'] by (auto split: if_splits)
  qed
qed

lemma moves_uint8: "Incomplete \<in> E \<Longrightarrow> moves prefix_uint8_decode E"
  unfolding moves_def
proof (intro allI impI)
  fix l
  assume "Incomplete \<in> E" "lookahead_ok l"
  then show "\<exists>r n. prefix_uint8_decode l = (r, seq_drop l n) \<and> n \<le> length (seq_bytes l) \<and> (\<forall>e. r = Err e \<longrightarrow> e \<in> E)"
    using prefix_uint8_decode_Nil [of l] prefix_uint8_decode_Cons [of l]
    by (cases "seq_bytes l") (fastforce intro: exI [of _ "0 :: nat"] exI [of _ "1 :: nat"])+
qed

lemma moves_prefix_loop:
  assumes E: "Incomplete \<in> E"
  shows "moves (prefix_int_decode_loop r off) E"
proof -
  have "\<exists>r' n. prefix_int_decode_loop r off l = (r', seq_drop l n) \<and> n \<le> length (seq_bytes l) \<and>
      (\<forall>e. r' = Err e \<longrightarrow> e \<in> E)" if "lookahead_ok l" for l
    using that
  proof (induction "length (seq_bytes l)" arbitrary: r off l rule: less_induct)
    case less
    show ?case
    proof (cases "seq_bytes l")
      case Nil
      then show ?thesis using less.prems E prefix_int_decode_loop_Nil [of l r off]
        by (intro exI [of _ "Err Incomplete"] exI [of _ 0]) simp
    next
      case (Cons b bs)
      let ?r = "r + ucast ((ucast b AND 127) * push_bit off (1 :: uint32))"
      have step: "prefix_int_decode_loop r off l = (if 32 \<le> off then (Fault, seq_drop l 1)
          else if b AND 128 = 128 then prefix_int_decode_loop ?r (off + 7) (seq_drop l 1)
          else (Ok ?r, seq_drop l 1))"
        using prefix_int_decode_loop_Cons [OF _ Cons] less.prems by simp
      show ?thesis
      proof (cases "\<not> 32 \<le> off \<and> b AND 128 = 128")
        case True
        have "length (seq_bytes (seq_drop l 1)) < length (seq_bytes l)" using less.prems Cons by simp
        moreover have "lookahead_ok (seq_drop l 1)" using less.prems by simp
        ultimately have "\<exists>r' n. prefix_int_decode_loop ?r (off + 7) (seq_drop l 1) = (r', seq_drop (seq_drop l 1) n) \<and>
            n \<le> length (seq_bytes (seq_drop l 1)) \<and> (\<forall>e. r' = Err e \<longrightarrow> e \<in> E)"
          by (rule less.hyps)
        then obtain r' n where "prefix_int_decode_loop ?r (off + 7) (seq_drop l 1) = (r', seq_drop (seq_drop l 1) n)"
            "n \<le> length (seq_bytes (seq_drop l 1))" "\<forall>e. r' = Err e \<longrightarrow> e \<in> E"
          by blast
        then show ?thesis using step True less.prems Cons
          by (intro exI [of _ r'] exI [of _ "1 + n"]) simp
      next
        case False
        then show ?thesis using step Cons by (auto intro!: exI [of _ "1 :: nat"])
      qed
    qed
  qed
  then show ?thesis by (simp add: moves_def)
qed

lemma prefix_int_decode_lookahead:
  "lookahead_ok l \<Longrightarrow> prefix_int_decode l p =
     try_state (prefix_uint8_decode l) (\<lambda>b l.
     let result = ucast b AND ucast (prefix_max p) in
     try_state (if result \<ge> ucast (prefix_max p) then prefix_int_decode_loop result 0 l else (Ok result, l))
       (\<lambda>v l. (Ok v, l)))"
proof -
  assume l: "lookahead_ok l"
  let ?f = "\<lambda>v l. try_in l (or_fault (seq_consume l 0)) (\<lambda>l. (Ok v, l))"
  have fin: "try_state (D l') ?f = try_state (D l') (\<lambda>v l. (Ok v, l))"
    if D: "moves D {Incomplete}" and l': "lookahead_ok l'" for D :: "sequence \<Rightarrow> (uint64, error) result \<times> sequence" and l'
  proof -
    obtain r n where r: "D l' = (r, seq_drop l' n)" "n \<le> length (seq_bytes l')" using movesD [OF D l'] by blast
    then show ?thesis using l' by (cases r) (simp_all add: seq_consume_eq)
  qed
  obtain r n where r: "prefix_uint8_decode l = (r, seq_drop l n)"
    using movesD [OF moves_uint8 [of "{Incomplete}"] l] by auto
  have D: "moves (\<lambda>l. if ucast (prefix_max p) \<le> v then prefix_int_decode_loop v 0 l else (Ok v, l)) {Incomplete}" for v
    by (intro moves_if moves_prefix_loop moves_return) simp_all
  show ?thesis
    using r fin [OF D, of "seq_drop l n"] l by (cases r) (simp_all add: prefix_int_decode_def Let_def)
qed

lemma moves_prefix_int:
  assumes E: "Incomplete \<in> E"
  shows "moves (\<lambda>l. prefix_int_decode l p) E"
proof -
  have "moves (\<lambda>l. try_state (prefix_uint8_decode l) (\<lambda>b l.
      let result = ucast b AND ucast (prefix_max p) in
      try_state (if result \<ge> ucast (prefix_max p) then prefix_int_decode_loop result 0 l else (Ok result, l))
        (\<lambda>v l. (Ok v, l)))) E"
    unfolding Let_def
    by (intro moves_try moves_uint8 moves_if moves_prefix_loop moves_return E) simp_all
  then show ?thesis unfolding moves_def using prefix_int_decode_lookahead by simp
qed

section \<open>Properties\<close>

text \<open>
  A prefixed integer decodes to the value that was encoded, whatever the flag bits of the first
  byte are and on each of the four containers, as long as what exceeds the prefix fits 32 bits; the
  encoding has the announced size and exactly its bytes are taken.
\<close>

theorem prefix_int_round_trip:
  assumes "p \<le> 8" and "unat v < 2 ^ p - 1 + 2 ^ 32"
    and "prefix_int_encode_buffer junk v p = Some encoded"
    and "seq_ok s" and "seq_bytes s = encoded @ rest"
  shows "\<exists>s'. prefix_int_decode s p = (Ok v, s') \<and> seq_bytes s' = rest \<and>
    length encoded = prefix_int_encoded_size v p"
proof -
  let ?n = "prefix_int_encoded_size v p"
  have n: "?n = length (prefix_wire (junk 0) p v)" by (rule prefix_int_encoded_size_eq [OF assms(1)])
  then have pos: "0 < ?n" by (simp add: prefix_wire_def)
  then have "fresh_memory junk ?n = [] @ junk 0 # map junk [1..<?n]"
    by (simp add: fresh_memory_def upt_rec)
  then have "encoded = prefix_wire (junk 0) p v"
    using assms(3) prefix_int_encode_eq [OF assms(1), of "junk 0" v "map junk [1..<?n]" "[]"] n pos
    by (simp add: prefix_int_encode_buffer_def)
  then show ?thesis
    using prefix_int_decode_eq [OF assms(1,2,4), of "junk 0" rest] assms(5) n by (auto simp: taken_def)
qed

theorem prefix_int_round_trip_witness:
  "\<exists>s'. prefix_int_decode (Buffers_seq [[0x1f, 0x9a], [0x0a, 7]]) 5 = (Ok 1337, s') \<and>
    seq_bytes s' = [7] \<and> length [0x1f, 0x9a, 0x0a :: byte] = prefix_int_encoded_size 1337 5"
proof (rule prefix_int_round_trip)
  show "prefix_int_encode_buffer (\<lambda>_. 0) 1337 5 = Some [0x1f, 0x9a, 0x0a]"
    by (simp add: prefix_int_encode_buffer_def prefix_int_encode_def prefix_int_encoded_size_def
        prefix_max_def prefix_int_size_loop.simps prefix_int_encode_loop.simps fresh_memory_def
        mem_load_def mem_store_def upt_rec)
qed simp_all

text \<open>
  C39. The decoder's undefined behaviour, exactly: it shifts a 32-bit value by 35 bits when the prefix
  is full and the five bytes after it all announce another one, which is then there. No other input
  makes it fault.
\<close>

theorem prefix_int_decode_fault:
  assumes "p \<le> 8" and "seq_ok s"
  shows "fst (prefix_int_decode s p) = Fault \<longleftrightarrow>
    7 \<le> length (seq_bytes s) \<and> seq_bytes s ! 0 AND mask p = mask p \<and>
    (\<forall>i \<in> {1..5}. seq_bytes s ! i AND 128 = 128)"
proof (cases "seq_bytes s")
  case Nil
  then show ?thesis using assms(2) by (simp add: prefix_int_decode_def prefix_uint8_decode_Nil)
next
  case (Cons b bs)
  let ?l = "prefix_int_decode_loop (ucast (b AND mask p)) 0 (seq_drop s 1)"
  have "{1..5 :: nat} = Suc ` {..<5}" by (simp add: image_Suc_lessThan)
  then have range: "(\<forall>i \<in> {1..5 :: nat}. P i) \<longleftrightarrow> (\<forall>i < 5. P (Suc i))" for P by auto
  have loop: "fst ?l = Fault \<longleftrightarrow> 6 \<le> length bs \<and> (\<forall>i < 5. bs ! i AND 128 = 128)"
    using prefix_int_decode_loop_fault [of "seq_drop s 1" 0] assms(2) Cons by simp
  have "seq_consume s' 0 \<noteq> None" if "?l = (Ok v, s')" for v s'
    using prefix_int_decode_loop_ok [OF that] assms(2) seq_consume_eq [of s' 0] by simp
  then have last: "fst (try_state ?l (\<lambda>r encoded.
      try_in encoded (or_fault (seq_consume encoded 0)) (\<lambda>encoded. (Ok r, encoded)))) = Fault \<longleftrightarrow>
      fst ?l = Fault"
    by (cases ?l; cases "fst ?l") auto
  have "fst (prefix_int_decode s p) = Fault \<longleftrightarrow> b AND mask p = mask p \<and> fst ?l = Fault"
    unfolding prefix_int_decode_first [OF assms Cons] using last
    by (cases "b AND mask p = mask p") (simp_all only: if_True if_False fst_conv result.distinct simp_thms)
  then show ?thesis unfolding loop range Cons by simp blast
qed

theorem prefix_int_decode_fault_witness:
  "fst (prefix_int_decode (Buffer_seq [0x7f, 0x80, 0x80, 0x80, 0x80, 0x80, 0]) 7) = Fault \<longleftrightarrow>
    7 \<le> length (seq_bytes (Buffer_seq [0x7f, 0x80, 0x80, 0x80, 0x80, 0x80, 0])) \<and>
    seq_bytes (Buffer_seq [0x7f, 0x80, 0x80, 0x80, 0x80, 0x80, 0]) ! 0 AND mask 7 = mask 7 \<and>
    (\<forall>i \<in> {1..5}. seq_bytes (Buffer_seq [0x7f, 0x80, 0x80, 0x80, 0x80, 0x80, 0]) ! i AND 128 = 128)"
  by (rule prefix_int_decode_fault) simp_all

end
