(* ===== verification/Literal.thy ===== *)
theory Literal
  imports Huffman Prefix_Int
begin

text \<open>
  String literals (\<open>qpack/literal\<close>): a flag bit above the length says whether the bytes are Huffman
  coded, the length is a prefixed integer, and the shorter of the two codings is chosen.
\<close>

section \<open>encode.cpp\<close>

definition literal_payload_size :: "string \<Rightarrow> nat" where
  "literal_payload_size literal =
     (if huffman_encoded_size literal < length literal then huffman_encoded_size literal
      else length literal)"

definition literal_encoded_size :: "string \<Rightarrow> nat \<Rightarrow> nat" where
  "literal_encoded_size literal prefix =
     prefix_int_encoded_size (word_of_nat (literal_payload_size literal)) prefix +
     literal_payload_size literal"

definition literal_encode :: "bytes \<Rightarrow> nat \<Rightarrow> string \<Rightarrow> nat \<Rightarrow> (nat \<times> bytes) option" where
  "literal_encode mem begin_dest literal prefix =
     (if literal_payload_size literal < length literal then
        do {
          old \<leftarrow> mem_load mem begin_dest;
          mem \<leftarrow> mem_store mem begin_dest [old OR ucast (push_bit prefix (1 :: uint32))];
          (n, mem) \<leftarrow> prefix_int_encode mem begin_dest (word_of_nat (literal_payload_size literal)) prefix;
          (m, mem) \<leftarrow> huffman_encode mem (begin_dest + n) literal;
          Some (n + m, mem)
        }
      else
        do {
          (n, mem) \<leftarrow> prefix_int_encode mem begin_dest (word_of_nat (literal_payload_size literal)) prefix;
          mem \<leftarrow> mem_store mem (begin_dest + n) (map byte_of_char literal);
          Some (n + length literal, mem)
        })"

definition literal_encode_buffer :: "(nat \<Rightarrow> byte) \<Rightarrow> string \<Rightarrow> nat \<Rightarrow> bytes option" where
  "literal_encode_buffer junk literal prefix =
     do {
       (_, encoded) \<leftarrow>
         literal_encode (fresh_memory junk (literal_encoded_size literal prefix)) 0 literal prefix;
       Some encoded
     }"

section \<open>decode.cpp\<close>

text \<open>What the decoder does on its lookahead: the length, then the two kinds of payload.\<close>

definition literal_payload :: "bool \<Rightarrow> uint64 \<Rightarrow> sequence \<Rightarrow> (string, error) result \<times> sequence" where
  "literal_payload is_huffman encoded_size lookahead =
     (if seq_size lookahead < unat encoded_size then (Err Incomplete, lookahead)
      else let bounded_encoded_size = unat encoded_size in
        if is_huffman then huffman_decode lookahead bounded_encoded_size
        else
          try_in lookahead (or_fault (seq_read lookahead bounded_encoded_size)) (\<lambda>literal.
          try_in lookahead (or_fault (seq_consume lookahead bounded_encoded_size)) (\<lambda>lookahead.
          (Ok (map char_of_byte literal), lookahead))))"

definition literal_body :: "nat \<Rightarrow> sequence \<Rightarrow> (string, error) result \<times> sequence" where
  "literal_body prefix lookahead =
     (if seq_empty lookahead then (Err Incomplete, lookahead)
      else try_in lookahead (or_fault (seq_at lookahead 0)) (\<lambda>b.
        let is_huffman = drop_bit prefix b AND 0x01 = 1 in
        try_state (prefix_int_decode lookahead prefix) (literal_payload is_huffman)))"

definition literal_decode :: "sequence \<Rightarrow> nat \<Rightarrow> (string, error) result \<times> sequence" where
  "literal_decode encoded prefix = commit (literal_body prefix) encoded"

section \<open>The wire format\<close>

text \<open>
  The Huffman bytes are those the encoder produces; on strings with short codes they do not depend
  on the memory it writes to.
\<close>

definition huffman_wire :: "string \<Rightarrow> bytes" where
  "huffman_wire s = the (huffman_encode_buffer (\<lambda>_. 0) s)"

definition huffman_shorter :: "string \<Rightarrow> bool" where
  "huffman_shorter s \<longleftrightarrow> huffman_encoded_size s < length s"

definition literal_wire :: "byte \<Rightarrow> nat \<Rightarrow> string \<Rightarrow> bytes" where
  "literal_wire old p s =
     (if huffman_shorter s
      then prefix_wire (old OR push_bit p 1) p (word_of_nat (huffman_encoded_size s)) @ huffman_wire s
      else prefix_wire old p (word_of_nat (length s)) @ map byte_of_char s)"

text \<open>The strings the encoder handles: below 4 GB, and with short codes where Huffman coding is used.\<close>

definition literal_ok :: "string \<Rightarrow> bool" where
  "literal_ok s \<longleftrightarrow> length s < 2 ^ 32 \<and> (huffman_shorter s \<longrightarrow> (\<forall>c \<in> set s. short_code c))"

lemma byte_bits_inj: "byte_bits a = byte_bits b \<Longrightarrow> a = b"
proof (rule word_eqI_upt)
  assume "byte_bits a = byte_bits b"
  then show "\<forall>n \<in> set [0..<LENGTH(8)]. bit a n = bit b n"
    by (simp add: byte_bits_eq upt_enum)
qed

lemma bits_of_inj: "bits_of as = bits_of bs \<Longrightarrow> as = bs"
proof (induction as arbitrary: bs)
  case Nil
  then show ?case using length_bits_of [of bs] by simp
next
  case (Cons a as)
  then obtain b bs' where bs: "bs = b # bs'" using length_bits_of [of "a # as"] by (cases bs) auto
  with Cons.prems have "byte_bits a = byte_bits b" "bits_of as = bits_of bs'" by simp_all
  then show ?case using Cons.IH bs by (simp add: byte_bits_inj)
qed

lemma huffman_encode_wire:
  assumes s: "\<forall>c \<in> set s. short_code c" and room: "huffman_encoded_size s \<le> length tail"
  obtains tail' where "huffman_encode (A @ tail) (length A) s = Some (length (huffman_wire s), A @ huffman_wire s @ tail')"
    "length (huffman_wire s) = huffman_encoded_size s"
    "length (huffman_wire s) + length tail' = length tail"
proof -
  obtain W tail' k where W: "huffman_encode (A @ tail) (length A) s = Some (length W, A @ W @ tail')"
      "bits_of W = string_bits s @ replicate k True" "length W = huffman_encoded_size s"
      "length W + length tail' = length tail"
    using huffman_encode_eq [OF s room] by metis
  obtain V j where V: "huffman_encode_buffer (\<lambda>_. 0) s = Some V"
      "bits_of V = string_bits s @ replicate j True" "length V = huffman_encoded_size s"
    using huffman_encode_buffer_eq [OF s] by metis
  have "length (bits_of V) = length (bits_of W)" using V(3) W(3) by simp
  then have "j = k" using V(2) W(2) by simp
  then have "V = W" using V(2) W(2) by (intro bits_of_inj) simp
  then have "huffman_wire s = W" using V(1) by (simp add: huffman_wire_def)
  then show thesis using that W by simp
qed

lemma length_huffman_wire: "\<forall>c \<in> set s. short_code c \<Longrightarrow> length (huffman_wire s) = huffman_encoded_size s"
  using huffman_encode_wire [of s "replicate (huffman_encoded_size s) 0" "[]"] by auto

lemma huffman_wire_decode:
  assumes s: "\<forall>c \<in> set s. short_code c" "s \<noteq> []" and ok: "seq_ok l" "seq_bytes l = huffman_wire s @ rest"
  shows "huffman_decode l (length (huffman_wire s)) = (Ok s, seq_drop l (length (huffman_wire s)))"
proof -
  obtain V where "huffman_encode_buffer (\<lambda>_. 0) s = Some V"
    using huffman_encode_buffer_eq [OF s(1), of "\<lambda>_. 0"] by auto
  then have V: "huffman_encode_buffer (\<lambda>_. 0) s = Some (huffman_wire s)" by (simp add: huffman_wire_def)
  show ?thesis using ok(2)
      huffman_spec_bits [of "huffman_wire s" s] huffman_encode_buffer_eq [OF s(1), of "\<lambda>_. 0"] V s(2)
    by (auto simp: huffman_decode_eq [OF ok(1)])
qed

section \<open>The encoder writes the wire format\<close>

lemma flag_byte: "p < 8 \<Longrightarrow> (ucast (push_bit p (1 :: uint32)) :: byte) = push_bit p 1"
  by (rule bit_word_eqI) (auto simp: bit_ucast_iff bit_exp_iff)

lemma literal_wire_size:
  assumes p: "p \<le> 8" and s: "literal_ok s"
  shows "literal_encoded_size s p = length (literal_wire old p s)"
proof (cases "huffman_shorter s")
  case True
  then have "\<forall>c \<in> set s. short_code c" using s by (simp add: literal_ok_def)
  then show ?thesis using True prefix_int_encoded_size_eq [OF p, of _ "old OR push_bit p 1"]
    by (simp add: literal_encoded_size_def literal_payload_size_def literal_wire_def
        huffman_shorter_def length_huffman_wire del: push_bit_of_1)
next
  case False
  then show ?thesis using prefix_int_encoded_size_eq [OF p, of _ old]
    by (simp add: literal_encoded_size_def literal_payload_size_def literal_wire_def huffman_shorter_def)
qed

lemma literal_encode_eq:
  assumes p: "p < 8" and s: "literal_ok s" and room: "length (literal_wire old p s) \<le> Suc (length post)"
  obtains post' where "literal_encode (A @ old # post) (length A) s p =
      Some (length (literal_wire old p s), A @ literal_wire old p s @ post')"
    "length (literal_wire old p s) + length post' = Suc (length post)"
proof (cases "huffman_shorter s")
  case True
  then have short: "huffman_encoded_size s < length s" by (simp add: huffman_shorter_def)
  let ?old = "old OR push_bit p 1" and ?n = "word_of_nat (huffman_encoded_size s) :: uint64"
  let ?W = "prefix_wire ?old p ?n"
  have codes: "\<forall>c \<in> set s. short_code c" using s True by (simp add: literal_ok_def)
  have wire: "literal_wire old p s = ?W @ huffman_wire s" using True by (simp add: literal_wire_def)
  have size: "literal_payload_size s = huffman_encoded_size s"
    using short by (simp add: literal_payload_size_def)
  have roomW: "length ?W \<le> Suc (length post)" using room wire by simp
  let ?post = "drop (length ?W - 1) post"
  have pi: "prefix_int_encode (A @ ?old # post) (length A) ?n p = Some (length ?W, A @ ?W @ ?post)"
    using prefix_int_encode_eq [of p ?old ?n post A] p roomW by simp
  have posW: "0 < length ?W" by (simp add: prefix_wire_def)
  have "huffman_encoded_size s \<le> length ?post"
    using room posW length_huffman_wire [OF codes] unfolding wire length_append length_drop by linarith
  then obtain tail' where t: "huffman_encode ((A @ ?W) @ ?post) (length (A @ ?W)) s =
      Some (length (huffman_wire s), (A @ ?W) @ huffman_wire s @ tail')"
      "length (huffman_wire s) + length tail' = length ?post"
    using huffman_encode_wire [OF codes, of ?post "A @ ?W"] by metis
  show thesis
  proof (rule that [of tail'])
    show "literal_encode (A @ old # post) (length A) s p =
        Some (length (literal_wire old p s), A @ literal_wire old p s @ tail')"
      unfolding literal_encode_def size using short p t(1)
      by (simp add: mem_load_append mem_store_append flag_byte pi wire del: push_bit_of_1)
    show "length (literal_wire old p s) + length tail' = Suc (length post)"
      using t(2) posW roomW unfolding wire length_append length_drop by linarith
  qed
next
  case False
  let ?n = "word_of_nat (length s) :: uint64" and ?bs = "map byte_of_char s"
  let ?W = "prefix_wire old p ?n"
  have wire: "literal_wire old p s = ?W @ ?bs" using False by (simp add: literal_wire_def)
  have size: "literal_payload_size s = length s" "\<not> literal_payload_size s < length s"
    using False by (auto simp: literal_payload_size_def huffman_shorter_def)
  have roomW: "length ?W \<le> Suc (length post)" using room wire by simp
  let ?post = "drop (length ?W - 1) post"
  have pi: "prefix_int_encode (A @ old # post) (length A) ?n p = Some (length ?W, A @ ?W @ ?post)"
    using prefix_int_encode_eq [of p old ?n post A] p roomW by simp
  have posW: "0 < length ?W" by (simp add: prefix_wire_def)
  have "mem_store ((A @ ?W) @ ?post) (length (A @ ?W)) ?bs = Some ((A @ ?W) @ ?bs @ drop (length ?bs) ?post)"
  proof (rule mem_store_append)
    show "length ?bs \<le> length ?post" using room posW unfolding wire length_append length_drop by linarith
  qed simp
  then have st: "mem_store (A @ ?W @ ?post) (length A + length ?W) ?bs = Some (A @ ?W @ ?bs @ drop (length ?bs) ?post)"
    by simp
  show thesis
  proof (rule that [of "drop (length ?bs) ?post"])
    show "literal_encode (A @ old # post) (length A) s p =
        Some (length (literal_wire old p s), A @ literal_wire old p s @ drop (length ?bs) ?post)"
      unfolding literal_encode_def using size st by (simp add: pi wire)
    show "length (literal_wire old p s) + length (drop (length ?bs) ?post) = Suc (length post)"
      using room posW unfolding wire length_append length_drop by linarith
  qed
qed

section \<open>The decoder reads it\<close>

lemma prefix_wire_flag:
  assumes p: "p < 8" and n: "n < 2 ^ 32"
  obtains b bs where "prefix_wire old p (word_of_nat n) = b # bs" "drop_bit p b AND 1 = 1 \<longleftrightarrow> bit old p"
proof -
  let ?v = "word_of_nat n :: uint64"
  have flag: "drop_bit p b AND 1 = 1 \<longleftrightarrow> bit b p" for b :: byte
    by (simp add: and_one_eq bit_iff_odd_drop_bit odd_iff_mod_2_eq_one)
  show thesis
  proof (cases "unat ?v < 2 ^ p - 1")
    case True
    have "\<not> bit ?v p"
    proof -
      have "?v < 2 ^ p" using p True by (subst word_less_2p_iff) auto
      then show ?thesis by (rule not_bit_above) simp
    qed
    then have "bit ((old AND NOT (mask p)) OR ucast ?v) p \<longleftrightarrow> bit old p"
      using p by (simp add: bit_or_iff bit_and_iff bit_not_iff bit_mask_iff bit_ucast_iff)
    then show thesis using that True flag by (simp add: prefix_wire_def)
  next
    case False
    have "bit (old OR mask p) p \<longleftrightarrow> bit old p" using p by (simp add: bit_or_iff bit_mask_iff)
    then show thesis using that False flag by (simp add: prefix_wire_def)
  qed
qed

lemma unat_length: "n < 2 ^ 32 \<Longrightarrow> unat (word_of_nat n :: uint64) = n"
  by (simp add: unat_of_nat)

lemma literal_payload_plain:
  assumes "length s < 2 ^ 32"
  shows "reads (literal_payload False (word_of_nat (length s))) (map byte_of_char s) s"
    "starves (literal_payload False (word_of_nat (length s))) (map byte_of_char s)"
  using assms
  by (auto simp: reads_def starves_def literal_payload_def unat_length sequence_ops o_def)

lemma literal_payload_huffman:
  assumes s: "\<forall>c \<in> set s. short_code c" "s \<noteq> []" and len: "huffman_encoded_size s < 2 ^ 32"
  shows "reads (literal_payload True (word_of_nat (huffman_encoded_size s))) (huffman_wire s) s"
    "starves (literal_payload True (word_of_nat (huffman_encoded_size s))) (huffman_wire s)"
  using len length_huffman_wire [OF s(1)] huffman_wire_decode [OF s]
  by (auto simp: reads_def starves_def literal_payload_def unat_length)

lemma literal_body_step:
  assumes D: "reads (\<lambda>l. try_state (prefix_int_decode l p) (literal_payload flag)) bs v"
      "starves (\<lambda>l. try_state (prefix_int_decode l p) (literal_payload flag)) bs"
    and bs: "bs = b # bs'" "drop_bit p b AND 1 = 1 \<longleftrightarrow> flag"
  shows "reads (literal_body p) bs v" "starves (literal_body p) bs"
proof -
  have body: "literal_body p l = try_state (prefix_int_decode l p) (literal_payload flag)"
    if "lookahead_ok l" "seq_bytes l = b # xs" for l xs
    using that bs(2) by (simp add: literal_body_def seq.at_eq)
  show "reads (literal_body p) bs v"
    unfolding reads_def using readsD [OF D(1)] body bs(1) by simp
  show "starves (literal_body p) bs"
    unfolding starves_def
  proof (intro allI impI)
    fix l k
    assume l: "lookahead_ok l" "k < length bs" "seq_bytes l = take k bs"
    show "fst (literal_body p l) = Err Incomplete"
    proof (cases k)
      case 0
      then show ?thesis using l by (simp add: literal_body_def)
    next
      case (Suc j)
      then have "seq_bytes l = b # take j bs'" using l bs(1) by simp
      then show ?thesis using starvesD [OF D(2) l] body [OF l(1)] by simp
    qed
  qed
qed

lemma literal_body_wire:
  assumes p: "p < 8" and s: "literal_ok s" and old: "\<not> bit old p"
  shows "reads (literal_body p) (literal_wire old p s) s" "starves (literal_body p) (literal_wire old p s)"
proof -
  have fits: "unat (word_of_nat n :: uint64) < 2 ^ p - 1 + 2 ^ 32" if "n < 2 ^ 32" for n
    using that unat_length [OF that] by linarith
  show "reads (literal_body p) (literal_wire old p s) s" "starves (literal_body p) (literal_wire old p s)"
  proof (atomize (full), cases "huffman_shorter s")
    case True
    let ?n = "huffman_encoded_size s" and ?old = "old OR push_bit p 1"
    let ?W = "prefix_wire ?old p (word_of_nat ?n)"
    have n: "?n < 2 ^ 32" "s \<noteq> []" "\<forall>c \<in> set s. short_code c"
      using True s by (auto simp: huffman_shorter_def literal_ok_def)
    obtain b bs where b: "?W = b # bs" "drop_bit p b AND 1 = 1 \<longleftrightarrow> bit ?old p"
      by (rule prefix_wire_flag [OF p n(1)])
    have flag: "bit ?old p" using p by (simp add: bit_or_iff bit_exp_iff)
    have P: "reads (\<lambda>l. prefix_int_decode l p) ?W (word_of_nat ?n)" "starves (\<lambda>l. prefix_int_decode l p) ?W"
      using prefix_int_reads prefix_int_starves p fits [OF n(1)] by simp_all
    note H = literal_payload_huffman [OF n(3,2,1)]
    have wire: "literal_wire old p s = ?W @ huffman_wire s" using True by (simp add: literal_wire_def)
    have D: "reads (\<lambda>l. try_state (prefix_int_decode l p) (literal_payload True)) (literal_wire old p s) s"
      "starves (\<lambda>l. try_state (prefix_int_decode l p) (literal_payload True)) (literal_wire old p s)"
      unfolding wire by (rule reads_try [where K = "literal_payload True", OF P(1) H(1)],
        rule starves_try [where K = "literal_payload True", OF P H(2)])
    show "reads (literal_body p) (literal_wire old p s) s \<and> starves (literal_body p) (literal_wire old p s)"
      using literal_body_step [OF D, of b "bs @ huffman_wire s"] b flag wire by simp
  next
    case False
    let ?W = "prefix_wire old p (word_of_nat (length s))"
    have n: "length s < 2 ^ 32" using s by (simp add: literal_ok_def)
    obtain b bs where b: "?W = b # bs" "drop_bit p b AND 1 = 1 \<longleftrightarrow> bit old p"
      by (rule prefix_wire_flag [OF p n])
    have P: "reads (\<lambda>l. prefix_int_decode l p) ?W (word_of_nat (length s))" "starves (\<lambda>l. prefix_int_decode l p) ?W"
      using prefix_int_reads prefix_int_starves p fits [OF n] by simp_all
    note H = literal_payload_plain [OF n]
    have wire: "literal_wire old p s = ?W @ map byte_of_char s" using False by (simp add: literal_wire_def)
    have D: "reads (\<lambda>l. try_state (prefix_int_decode l p) (literal_payload False)) (literal_wire old p s) s"
      "starves (\<lambda>l. try_state (prefix_int_decode l p) (literal_payload False)) (literal_wire old p s)"
      unfolding wire by (rule reads_try [where K = "literal_payload False", OF P(1) H(1)],
        rule starves_try [where K = "literal_payload False", OF P H(2)])
    show "reads (literal_body p) (literal_wire old p s) s \<and> starves (literal_body p) (literal_wire old p s)"
      using literal_body_step [OF D, of b "bs @ map byte_of_char s"] b old wire by simp
  qed
qed

lemma literal_decode_wire:
  assumes "p < 8" "literal_ok s" "\<not> bit old p"
  shows "reads (\<lambda>l. literal_decode l p) (literal_wire old p s) s"
    "starves (\<lambda>l. literal_decode l p) (literal_wire old p s)"
  unfolding literal_decode_def by (rule reads_commit, rule literal_body_wire [OF assms],
    rule starves_commit, rule literal_body_wire [OF assms])

lemma moves_huffman:
  assumes "Incomplete \<in> E" "Qpack_decompression_failed \<in> E"
  shows "moves (\<lambda>l. huffman_decode l n) E"
  unfolding moves_def
proof (intro allI impI)
  fix l
  assume l: "lookahead_ok l"
  show "\<exists>r m. huffman_decode l n = (r, seq_drop l m) \<and> m \<le> length (seq_bytes l) \<and> (\<forall>e. r = Err e \<longrightarrow> e \<in> E)"
  proof (cases "length (seq_bytes l) < n \<or> huffman_spec (take n (seq_bytes l)) = None")
    case True
    let ?e = "if length (seq_bytes l) < n then Incomplete else Qpack_decompression_failed"
    have "huffman_decode l n = (Err ?e, seq_drop l 0)"
      using True l by (auto simp: huffman_decode_eq)
    then show ?thesis using assms by (intro exI [of _ "Err ?e"] exI [of _ 0]) auto
  next
    case False
    then obtain str where "huffman_decode l n = (Ok str, seq_drop l n)" using l by (auto simp: huffman_decode_eq)
    then show ?thesis using False by (intro exI [of _ "Ok str"] exI [of _ n]) simp
  qed
qed

lemma moves_choice:
  "(\<And>l. D l = D1 l \<or> D l = D2 l) \<Longrightarrow> moves D1 E \<Longrightarrow> moves D2 E \<Longrightarrow> moves D E"
  unfolding moves_def by metis

lemma moves_payload:
  assumes E: "Incomplete \<in> E" "Qpack_decompression_failed \<in> E"
  shows "moves (literal_payload flag v) E"
proof -
  have plain: "moves (\<lambda>l. if seq_size l < unat v then (Err Incomplete, l)
      else try_in l (or_fault (seq_read l (unat v))) (\<lambda>literal.
        try_in l (or_fault (seq_consume l (unat v))) (\<lambda>l. (Ok (map char_of_byte literal), l)))) E"
    unfolding moves_def
  proof (intro allI impI)
    fix l
    assume l: "lookahead_ok l"
    show "\<exists>r m. (if seq_size l < unat v then (Err Incomplete, l)
      else try_in l (or_fault (seq_read l (unat v))) (\<lambda>literal.
        try_in l (or_fault (seq_consume l (unat v))) (\<lambda>l. (Ok (map char_of_byte literal), l)))) = (r, seq_drop l m) \<and>
      m \<le> length (seq_bytes l) \<and> (\<forall>e. r = Err e \<longrightarrow> e \<in> E)"
    proof (cases "length (seq_bytes l) < unat v")
      case True
      then show ?thesis using l E by (intro exI [of _ "Err Incomplete"] exI [of _ 0]) simp
    next
      case False
      then show ?thesis using l
        by (intro exI [of _ "Ok (map char_of_byte (take (unat v) (seq_bytes l)))"] exI [of _ "unat v"])
          (simp add: sequence_ops)
    qed
  qed
  show ?thesis
  proof (cases flag)
    case True
    have "moves (\<lambda>l. (Err Incomplete :: (string, error) result, l)) E" using E by (intro moves_return) simp
    from moves_choice [OF _ this moves_huffman [OF E, of "unat v"], of "literal_payload True v"]
    show ?thesis using True by (simp add: literal_payload_def)
  next
    case False
    then show ?thesis using plain by (simp only: literal_payload_def [abs_def] Let_def if_False)
  qed
qed

lemma moves_literal:
  assumes E: "Incomplete \<in> E" "Qpack_decompression_failed \<in> E"
  shows "moves (\<lambda>l. literal_decode l p) E"
proof -
  have "moves (literal_body p) E"
    unfolding literal_body_def [abs_def] Let_def
    by (intro moves_at moves_try moves_prefix_int moves_payload E) simp_all
  then show ?thesis unfolding literal_decode_def by (rule moves_commit)
qed

section \<open>Property\<close>

text \<open>
  A string literal decodes to the string that was encoded, in whichever of the two codings the
  encoder chose, with any flag bits of the caller above the length as long as the Huffman flag starts
  out clear; the encoder fills exactly the announced size and the decoder takes exactly that.
\<close>

theorem literal_round_trip:
  assumes "p < 8" and "literal_ok str" and "\<not> bit flags p"
    and "length tail + 1 = literal_encoded_size str p"
    and "seq_ok s" and "seq_bytes s = encoded @ rest"
    and "literal_encode (flags # tail) 0 str p = Some (n, encoded)"
  shows "n = length encoded \<and> n = literal_encoded_size str p \<and>
    literal_decode s p = (Ok str, seq_drop s n)"
proof -
  have size: "literal_encoded_size str p = length (literal_wire flags p str)"
    by (rule literal_wire_size) (use assms in simp_all)
  obtain post' where e: "literal_encode ([] @ flags # tail) (length ([] :: bytes)) str p =
      Some (length (literal_wire flags p str), [] @ literal_wire flags p str @ post')"
    "length (literal_wire flags p str) + length post' = Suc (length tail)"
    using literal_encode_eq [OF assms(1,2), of flags tail "[]"] assms(4) size by auto
  then have "encoded = literal_wire flags p str" "n = length (literal_wire flags p str)"
    using assms(4,7) size by simp_all
  then show ?thesis
    using commit_Ok [OF literal_body_wire(1) [OF assms(1-3)] assms(5)] assms(6) size
    by (simp add: literal_decode_def)
qed

lemma literal_ok_printable:
  assumes "length s < 2 ^ 32" "\<forall>c \<in> set s. (32 :: nat) \<le> of_char c \<and> of_char c \<le> (126 :: nat) \<and> c \<noteq> CHR 0x5c"
  shows "literal_ok s"
  using assms short_code_printable by (simp add: literal_ok_def)

lemmas literal_eval = literal_encode_def literal_payload_size_def literal_encoded_size_def
  prefix_int_encode_def prefix_int_encoded_size_def prefix_max_def
  prefix_int_size_loop.simps prefix_int_encode_loop.simps fresh_memory_def
  mem_load_def mem_store_def mem_or_def symbol_loop_stop symbol_loop_more symbol_for_def byte_of_char_def
  encoding_rules huffman_encoded_size_def huffman_encode_def symbol_encode_def

theorem literal_round_trip_witness:
  "(4 :: nat) = length [0x2b, 0x1c, 0x64, 0x17 :: byte] \<and> 4 = literal_encoded_size ''abc2'' 3 \<and>
   literal_decode (Buffers_seq [[0x2b], [0x1c, 0x64], [0x17, 7]]) 3 =
     (Ok ''abc2'', seq_drop (Buffers_seq [[0x2b], [0x1c, 0x64], [0x17, 7]]) 4)"
proof (rule literal_round_trip)
  show "literal_encode [0x20, 0, 0, 0] 0 ''abc2'' 3 = Some (4, [0x2b, 0x1c, 0x64, 0x17])"
    by (simp add: literal_eval)
  show "length [0, 0, 0 :: byte] + 1 = literal_encoded_size ''abc2'' 3" by (simp add: literal_eval)
  show "literal_ok ''abc2''" by (rule literal_ok_printable) simp_all
qed simp_all

end
