(* ===== verification/Header.thy ===== *)
theory Header
  imports Prelude
begin

text \<open>
  HTTP header fields (\<open>base/src/http3/header.cpp\<close>). \<open>header\<close> owns its strings and \<open>header_view\<close>
  borrows them; both are the pair of the name and the value.
\<close>

record header =
  header_name :: string
  header_value :: string

definition make_header :: "string \<Rightarrow> string \<Rightarrow> header" where
  "make_header name value = \<lparr> header_name = name, header_value = value \<rparr>"

text \<open>\<open>char\<close> may be signed, but the comparison only concerns characters below 128.\<close>

definition is_upper :: "char \<Rightarrow> bool" where
  "is_upper character \<longleftrightarrow> (65 :: nat) \<le> of_char character \<and> of_char character \<le> (90 :: nat)"

fun name_is_lowercase :: "string \<Rightarrow> bool" where
  "name_is_lowercase [] = True"
| "name_is_lowercase (character # name) =
     (if is_upper character then False else name_is_lowercase name)"

definition header_is_lowercase :: "header \<Rightarrow> bool" where
  "header_is_lowercase header = name_is_lowercase (header_name header)"

definition header_eq :: "header \<Rightarrow> header \<Rightarrow> bool" where
  "header_eq first second \<longleftrightarrow>
     header_name first = header_name second \<and> header_value first = header_value second"

definition show_header :: "header \<Rightarrow> string" where
  "show_header header = header_name header @ '': '' @ header_value header"

lemma make_header_simps [simp]:
  "header_name (make_header name value) = name" "header_value (make_header name value) = value"
  by (simp_all add: make_header_def)

lemma make_header_eta [simp]: "make_header (header_name h) (header_value h) = h"
  by (cases h) (simp add: make_header_def)

lemma header_eq_iff: "header_eq first second \<longleftrightarrow> first = second"
  by (cases first; cases second) (auto simp: header_eq_def)

lemma name_is_lowercase_iff: "name_is_lowercase name \<longleftrightarrow> (\<forall>c \<in> set name. \<not> is_upper c)"
  by (induction name) auto

end
