(* ===== verification/Static_Table_Rows.thy ===== *)
theory Static_Table_Rows
  imports Header
begin

text \<open>
  The cases of the three generated \<open>switch\<close> statements over the static table, in the order of the
  source: hashes to indices (\<open>encode_generated.cpp\<close>), indices to headers and names
  (\<open>decode_generated.cpp\<close>).
\<close>

section \<open>encode_generated.cpp\<close>

text \<open>A case of the outer switch: the hash of the name, the cases of the inner switch over the hash
  of the value, and the index returned when none of them applies.\<close>

type_synonym name_case = "uint64 \<times> (uint64 \<times> byte) list \<times> byte"

definition name_cases_0 :: "name_case list" where
  "name_cases_0 = [
     (16895098521482341206, [], 0),
     (11800921616074793521, [(1969084168692057419, 15),
        (3416820684017772195, 16),
        (3137017853320178759, 17),
        (5077457392360958184, 18),
        (13449464674369688059, 19),
        (1393561109570896241, 20),
        (8278045464579020327, 21)], 15),
     (1432527143127418564, [(16761507700594825962, 1)], 1),
     (16734001141632695329, [(13730016396111666430, 22),
        (10742537861312705840, 23)], 22),
     (11145724770861396798, [(2891813017576360282, 24),
        (2685111111418367100, 25),
        (2860949800888200221, 26),
        (5957985645556640011, 27),
        (12373623763172808772, 28),
        (6146904730557115430, 63),
        (11759795502426644276, 64),
        (17033585193496081404, 65),
        (1337354901647857481, 66),
        (11111781720710347155, 67),
        (14993518005534636743, 68),
        (1128097706726417269, 69),
        (17924379407345689140, 70),
        (12667669577372699657, 71)], 24),
     (14776963886974432617, [(285960807216420690, 29),
        (6373961066247414572, 30)], 29),
     (14455144075924042224, [(9032900040511447184, 31)], 31),
     (12586352021634702904, [], 72),
     (14590555536192441974, [(3279652670845457604, 32)], 32),
     (5881923794129529227, [(13702020392090633634, 73),
        (13992295306875567947, 74)], 73),
     (3800686319607884068, [(6792126209451122079, 33),
        (3910122139284074053, 34),
        (765293966243412708, 75)], 33),
     (10756748986426057606, [(2774841317834080824, 76),
        (13368036589511723433, 77),
        (16398749137410613924, 78)], 76),
     (9436417403599124064, [(765293966243412708, 35)], 35),
     (6796384088407939286, [(17031230962583399322, 79)], 79)]"

definition name_cases_1 :: "name_case list" where
  "name_cases_1 = [
     (4242818872217734295, [(3910122139284074053, 80)], 80),
     (14051338931492133901, [(2774841317834080824, 81),
        (3178169103122520677, 82)], 81),
     (5092756294692198100, [(7148434200721666028, 2)], 2),
     (12092656254601729054, [(9623284816163994036, 83)], 83),
     (8846816503791876372, [], 84),
     (6792126209451122079, [(10032073942971583664, 36),
        (3044507098168884424, 37),
        (441477139842840241, 38),
        (8897988708233174624, 39),
        (3660001317594812985, 40),
        (9509473917879564042, 41)], 36),
     (17156266451297603303, [], 3),
     (11860813331948357247, [(12202383188974104177, 42),
        (12621183860903199653, 43)], 42),
     (17031230962583399322, [(7148434200721666028, 4)], 4),
     (18043880115709070015, [(165232284275397264, 85)], 85),
     (3910122139284074053, [(6373961066247414572, 44),
        (9423039217905102597, 45),
        (116355269824119741, 46),
        (15711274223642436716, 47),
        (12727226202374957143, 48),
        (12200045138720289141, 49),
        (12092489581388341001, 50),
        (6791077934204364231, 51),
        (8886412932112875563, 52),
        (16588200704567877914, 53),
        (9119350762400467667, 54)], 44),
     (905780767293800022, [], 5),
     (9202271988582577219, [], 6),
     (12326157660028381149, [(13237225503670494420, 86)], 86),
     (6439525432329186999, [], 7),
     (9568944059520352163, [], 87),
     (5644212460638603090, [], 88),
     (12678664253902784264, [], 8),
     (8836338662272140136, [], 9),
     (10086758965902305572, [], 89),
     (5803729767262815818, [], 10),
     (17841021884467483934, [], 11),
     (14592406158319853782, [], 12),
     (7034821444952201446, [], 90),
     (4274379369960325767, [(15048569516378897441, 91)], 91)]"

definition name_cases_2 :: "name_case list" where
  "name_cases_2 = [
     (12715602975004390753, [(6181996873389341388, 55)], 55),
     (14154313121195327909, [], 13),
     (16290507850670895904, [], 92),
     (666465872145128107, [], 14),
     (4179674550753269761, [(13034728143243030830, 56),
        (11632417432576482556, 57),
        (16736049223785386895, 58)], 56),
     (5374862646944647126, [(765293966243412708, 93)], 93),
     (18069291607417813553, [(13237225503670494420, 94)], 94),
     (16625730634708209664, [], 95),
     (8816542506507529547, [(14455144075924042224, 59),
        (7034821444952201446, 60)], 59),
     (6196956168349306122, [(4306527442339074562, 61)], 61),
     (1042837635865018085, [], 96),
     (8598773544412918900, [(6492545016868164575, 97),
        (13303836962186157521, 98)], 97),
     (15732293358711069708, [(7412498726110841680, 62)], 62)]"

definition name_cases :: "name_case list" where
  "name_cases = name_cases_0 @ name_cases_1 @ name_cases_2"

text \<open>The strings hashed, from the comments beside the cases.\<close>

definition name_hashes :: "(uint64 \<times> string) list" where
  "name_hashes = [
     (16895098521482341206, '':authority''),
     (11800921616074793521, '':method''),
     (1432527143127418564, '':path''),
     (16734001141632695329, '':scheme''),
     (11145724770861396798, '':status''),
     (14776963886974432617, ''accept''),
     (14455144075924042224, ''accept-encoding''),
     (12586352021634702904, ''accept-language''),
     (14590555536192441974, ''accept-ranges''),
     (5881923794129529227, ''access-control-allow-credentials''),
     (3800686319607884068, ''access-control-allow-headers''),
     (10756748986426057606, ''access-control-allow-methods''),
     (9436417403599124064, ''access-control-allow-origin''),
     (6796384088407939286, ''access-control-expose-headers''),
     (4242818872217734295, ''access-control-request-headers''),
     (14051338931492133901, ''access-control-request-method''),
     (5092756294692198100, ''age''),
     (12092656254601729054, ''alt-svc''),
     (8846816503791876372, ''authorization''),
     (6792126209451122079, ''cache-control''),
     (17156266451297603303, ''content-disposition''),
     (11860813331948357247, ''content-encoding''),
     (17031230962583399322, ''content-length''),
     (18043880115709070015, ''content-security-policy''),
     (3910122139284074053, ''content-type''),
     (905780767293800022, ''cookie''),
     (9202271988582577219, ''date''),
     (12326157660028381149, ''early-data''),
     (6439525432329186999, ''etag''),
     (9568944059520352163, ''expect-ct''),
     (5644212460638603090, ''forwarded''),
     (12678664253902784264, ''if-modified-since''),
     (8836338662272140136, ''if-none-match''),
     (10086758965902305572, ''if-range''),
     (5803729767262815818, ''last-modified''),
     (17841021884467483934, ''link''),
     (14592406158319853782, ''location''),
     (7034821444952201446, ''origin''),
     (4274379369960325767, ''purpose''),
     (12715602975004390753, ''range''),
     (14154313121195327909, ''referer''),
     (16290507850670895904, ''server''),
     (666465872145128107, ''set-cookie''),
     (4179674550753269761, ''strict-transport-security''),
     (5374862646944647126, ''timing-allow-origin''),
     (18069291607417813553, ''upgrade-insecure-requests''),
     (16625730634708209664, ''user-agent''),
     (8816542506507529547, ''vary''),
     (6196956168349306122, ''x-content-type-options''),
     (1042837635865018085, ''x-forwarded-for''),
     (8598773544412918900, ''x-frame-options''),
     (15732293358711069708, ''x-xss-protection'')]"

definition value_hashes :: "(uint64 \<times> string) list" where
  "value_hashes = [
     (1969084168692057419, ''CONNECT''),
     (3416820684017772195, ''DELETE''),
     (3137017853320178759, ''GET''),
     (5077457392360958184, ''HEAD''),
     (13449464674369688059, ''OPTIONS''),
     (1393561109570896241, ''POST''),
     (8278045464579020327, ''PUT''),
     (16761507700594825962, ''/''),
     (13730016396111666430, ''http''),
     (10742537861312705840, ''https''),
     (2891813017576360282, ''103''),
     (2685111111418367100, ''200''),
     (2860949800888200221, ''304''),
     (5957985645556640011, ''404''),
     (12373623763172808772, ''503''),
     (6146904730557115430, ''100''),
     (11759795502426644276, ''204''),
     (17033585193496081404, ''206''),
     (1337354901647857481, ''302''),
     (11111781720710347155, ''400''),
     (14993518005534636743, ''403''),
     (1128097706726417269, ''421''),
     (17924379407345689140, ''425''),
     (12667669577372699657, ''500''),
     (285960807216420690, ''*/*''),
     (6373961066247414572, ''application/dns-message''),
     (9032900040511447184, ''gzip, deflate, br''),
     (3279652670845457604, ''bytes''),
     (13702020392090633634, ''FALSE''),
     (13992295306875567947, ''TRUE''),
     (6792126209451122079, ''cache-control''),
     (3910122139284074053, ''content-type''),
     (765293966243412708, ''*''),
     (2774841317834080824, ''get''),
     (13368036589511723433, ''get, post, options''),
     (16398749137410613924, ''options''),
     (765293966243412708, ''*''),
     (17031230962583399322, ''content-length''),
     (3910122139284074053, ''content-type''),
     (2774841317834080824, ''get''),
     (3178169103122520677, ''post''),
     (7148434200721666028, ''0''),
     (9623284816163994036, ''clear''),
     (10032073942971583664, ''max-age=0''),
     (3044507098168884424, ''max-age=2592000''),
     (441477139842840241, ''max-age=604800''),
     (8897988708233174624, ''no-cache''),
     (3660001317594812985, ''no-store''),
     (9509473917879564042, ''public, max-age=31536000''),
     (12202383188974104177, ''br''),
     (12621183860903199653, ''gzip''),
     (7148434200721666028, ''0''),
     (165232284275397264, ''script-src 'none'; object-src 'none'; base-uri 'none'' @ [CHR 0x27]),
     (6373961066247414572, ''application/dns-message''),
     (9423039217905102597, ''application/javascript''),
     (116355269824119741, ''application/json''),
     (15711274223642436716, ''application/x-www-form-urlencoded''),
     (12727226202374957143, ''image/gif''),
     (12200045138720289141, ''image/jpeg''),
     (12092489581388341001, ''image/png''),
     (6791077934204364231, ''text/css''),
     (8886412932112875563, ''text/html; charset=utf-8''),
     (16588200704567877914, ''text/plain''),
     (9119350762400467667, ''text/plain;charset=utf-8''),
     (13237225503670494420, ''1''),
     (15048569516378897441, ''prefetch''),
     (6181996873389341388, ''bytes=0-''),
     (13034728143243030830, ''max-age=31536000''),
     (11632417432576482556, ''max-age=31536000; includesubdomains''),
     (16736049223785386895, ''max-age=31536000; includesubdomains; preload''),
     (765293966243412708, ''*''),
     (13237225503670494420, ''1''),
     (14455144075924042224, ''accept-encoding''),
     (7034821444952201446, ''origin''),
     (4306527442339074562, ''nosniff''),
     (6492545016868164575, ''deny''),
     (13303836962186157521, ''sameorigin''),
     (7412498726110841680, ''1; mode=block'')]"

section \<open>decode_generated.cpp\<close>

definition header_value_cases_0 :: "(byte \<times> string \<times> string) list" where
  "header_value_cases_0 = [
     (15, '':method'', ''CONNECT''),
     (16, '':method'', ''DELETE''),
     (17, '':method'', ''GET''),
     (18, '':method'', ''HEAD''),
     (19, '':method'', ''OPTIONS''),
     (20, '':method'', ''POST''),
     (21, '':method'', ''PUT''),
     (1, '':path'', ''/''),
     (22, '':scheme'', ''http''),
     (23, '':scheme'', ''https''),
     (24, '':status'', ''103''),
     (25, '':status'', ''200''),
     (26, '':status'', ''304''),
     (27, '':status'', ''404''),
     (28, '':status'', ''503''),
     (63, '':status'', ''100''),
     (64, '':status'', ''204''),
     (65, '':status'', ''206''),
     (66, '':status'', ''302''),
     (67, '':status'', ''400''),
     (68, '':status'', ''403''),
     (69, '':status'', ''421''),
     (70, '':status'', ''425''),
     (71, '':status'', ''500''),
     (29, ''accept'', ''*/*''),
     (30, ''accept'', ''application/dns-message''),
     (31, ''accept-encoding'', ''gzip, deflate, br''),
     (32, ''accept-ranges'', ''bytes''),
     (73, ''access-control-allow-credentials'', ''FALSE''),
     (74, ''access-control-allow-credentials'', ''TRUE''),
     (33, ''access-control-allow-headers'', ''cache-control''),
     (34, ''access-control-allow-headers'', ''content-type''),
     (75, ''access-control-allow-headers'', ''*''),
     (76, ''access-control-allow-methods'', ''get''),
     (77, ''access-control-allow-methods'', ''get, post, options''),
     (78, ''access-control-allow-methods'', ''options''),
     (35, ''access-control-allow-origin'', ''*''),
     (79, ''access-control-expose-headers'', ''content-length''),
     (80, ''access-control-request-headers'', ''content-type''),
     (81, ''access-control-request-method'', ''get''),
     (82, ''access-control-request-method'', ''post''),
     (2, ''age'', ''0''),
     (83, ''alt-svc'', ''clear''),
     (36, ''cache-control'', ''max-age=0''),
     (37, ''cache-control'', ''max-age=2592000''),
     (38, ''cache-control'', ''max-age=604800''),
     (39, ''cache-control'', ''no-cache''),
     (40, ''cache-control'', ''no-store''),
     (41, ''cache-control'', ''public, max-age=31536000''),
     (42, ''content-encoding'', ''br''),
     (43, ''content-encoding'', ''gzip''),
     (4, ''content-length'', ''0''),
     (85, ''content-security-policy'', ''script-src 'none'; object-src 'none'; base-uri 'none'' @ [CHR 0x27]),
     (44, ''content-type'', ''application/dns-message''),
     (45, ''content-type'', ''application/javascript''),
     (46, ''content-type'', ''application/json''),
     (47, ''content-type'', ''application/x-www-form-urlencoded''),
     (48, ''content-type'', ''image/gif''),
     (49, ''content-type'', ''image/jpeg''),
     (50, ''content-type'', ''image/png''),
     (51, ''content-type'', ''text/css''),
     (52, ''content-type'', ''text/html; charset=utf-8''),
     (53, ''content-type'', ''text/plain''),
     (54, ''content-type'', ''text/plain;charset=utf-8''),
     (86, ''early-data'', ''1''),
     (91, ''purpose'', ''prefetch''),
     (55, ''range'', ''bytes=0-''),
     (56, ''strict-transport-security'', ''max-age=31536000''),
     (57, ''strict-transport-security'', ''max-age=31536000; includesubdomains'')]"

definition header_value_cases_1 :: "(byte \<times> string \<times> string) list" where
  "header_value_cases_1 = [
     (58, ''strict-transport-security'', ''max-age=31536000; includesubdomains; preload''),
     (93, ''timing-allow-origin'', ''*''),
     (94, ''upgrade-insecure-requests'', ''1''),
     (59, ''vary'', ''accept-encoding''),
     (60, ''vary'', ''origin''),
     (61, ''x-content-type-options'', ''nosniff''),
     (97, ''x-frame-options'', ''deny''),
     (98, ''x-frame-options'', ''sameorigin''),
     (62, ''x-xss-protection'', ''1; mode=block'')]"

definition header_value_cases :: "(byte \<times> string \<times> string) list" where
  "header_value_cases = header_value_cases_0 @ header_value_cases_1"

definition header_only_cases_0 :: "(byte \<times> string) list" where
  "header_only_cases_0 = [
     (0, '':authority''),
     (15, '':method''),
     (16, '':method''),
     (17, '':method''),
     (18, '':method''),
     (19, '':method''),
     (20, '':method''),
     (21, '':method''),
     (1, '':path''),
     (22, '':scheme''),
     (23, '':scheme''),
     (24, '':status''),
     (25, '':status''),
     (26, '':status''),
     (27, '':status''),
     (28, '':status''),
     (63, '':status''),
     (64, '':status''),
     (65, '':status''),
     (66, '':status''),
     (67, '':status''),
     (68, '':status''),
     (69, '':status''),
     (70, '':status''),
     (71, '':status''),
     (29, ''accept''),
     (30, ''accept''),
     (31, ''accept-encoding''),
     (72, ''accept-language''),
     (32, ''accept-ranges''),
     (73, ''access-control-allow-credentials''),
     (74, ''access-control-allow-credentials''),
     (33, ''access-control-allow-headers''),
     (34, ''access-control-allow-headers''),
     (75, ''access-control-allow-headers''),
     (76, ''access-control-allow-methods''),
     (77, ''access-control-allow-methods''),
     (78, ''access-control-allow-methods''),
     (35, ''access-control-allow-origin''),
     (79, ''access-control-expose-headers''),
     (80, ''access-control-request-headers''),
     (81, ''access-control-request-method''),
     (82, ''access-control-request-method''),
     (2, ''age''),
     (83, ''alt-svc''),
     (84, ''authorization''),
     (36, ''cache-control''),
     (37, ''cache-control''),
     (38, ''cache-control''),
     (39, ''cache-control''),
     (40, ''cache-control''),
     (41, ''cache-control''),
     (3, ''content-disposition''),
     (42, ''content-encoding''),
     (43, ''content-encoding''),
     (4, ''content-length''),
     (85, ''content-security-policy''),
     (44, ''content-type''),
     (45, ''content-type''),
     (46, ''content-type''),
     (47, ''content-type''),
     (48, ''content-type''),
     (49, ''content-type''),
     (50, ''content-type''),
     (51, ''content-type''),
     (52, ''content-type''),
     (53, ''content-type''),
     (54, ''content-type''),
     (5, ''cookie''),
     (6, ''date''),
     (86, ''early-data''),
     (7, ''etag'')]"

definition header_only_cases_1 :: "(byte \<times> string) list" where
  "header_only_cases_1 = [
     (87, ''expect-ct''),
     (88, ''forwarded''),
     (8, ''if-modified-since''),
     (9, ''if-none-match''),
     (89, ''if-range''),
     (10, ''last-modified''),
     (11, ''link''),
     (12, ''location''),
     (90, ''origin''),
     (91, ''purpose''),
     (55, ''range''),
     (13, ''referer''),
     (92, ''server''),
     (14, ''set-cookie''),
     (56, ''strict-transport-security''),
     (57, ''strict-transport-security''),
     (58, ''strict-transport-security''),
     (93, ''timing-allow-origin''),
     (94, ''upgrade-insecure-requests''),
     (95, ''user-agent''),
     (59, ''vary''),
     (60, ''vary''),
     (61, ''x-content-type-options''),
     (96, ''x-forwarded-for''),
     (97, ''x-frame-options''),
     (98, ''x-frame-options''),
     (62, ''x-xss-protection'')]"

definition header_only_cases :: "(byte \<times> string) list" where
  "header_only_cases = header_only_cases_0 @ header_only_cases_1"

lemmas name_cases_rows = name_cases_def name_cases_0_def name_cases_1_def name_cases_2_def
lemmas header_value_rows = header_value_cases_def header_value_cases_0_def header_value_cases_1_def
lemmas header_only_rows = header_only_cases_def header_only_cases_0_def header_only_cases_1_def

end
