(* ===== verification/Static_Table.thy ===== *)
theory Static_Table
  imports Static_Table_Rows
begin

text \<open>
  The lookups of the QPACK static table: the encoder compares hashes, the decoder switches on the
  index. \<open>XXH64\<close> with seed 0 is the function \<open>xxh\<close> that every definition here takes.
\<close>

section \<open>decode_generated.cpp\<close>

datatype fixed_type = Header_value | Header_only | Missing | Unknown

definition find_type :: "byte \<Rightarrow> fixed_type" where
  "find_type b =
     (if b AND 0x80 = 0x80 then Header_value
      else if b AND 0x40 = 0x40 then Header_only
      else if b AND 0x20 = 0x20 then Missing
      else Unknown)"

definition find_header_value :: "byte \<Rightarrow> bool \<times> header" where
  "find_header_value index =
     (case map_of header_value_cases index of
        Some (name, value) \<Rightarrow> (True, make_header name value)
      | None \<Rightarrow> (False, make_header [] []))"

definition find_header_only :: "byte \<Rightarrow> bool \<times> string" where
  "find_header_only index =
     (case map_of header_only_cases index of Some name \<Rightarrow> (True, name) | None \<Rightarrow> (False, []))"

section \<open>encode_generated.cpp\<close>

definition find_index :: "(string \<Rightarrow> uint64) \<Rightarrow> header \<Rightarrow> fixed_type \<times> byte" where
  "find_index xxh header =
     (case map_of name_cases (xxh (header_name header)) of
        None \<Rightarrow> (Missing, 0)
      | Some ([], index) \<Rightarrow> (Header_only, index)
      | Some (values, index) \<Rightarrow>
          (case map_of values (xxh (header_value header)) of
             Some index' \<Rightarrow> (Header_value, index')
           | None \<Rightarrow> (Header_only, index)))"

lemma find_index_eq:
  "find_index xxh h =
     (case map_of name_cases (xxh (header_name h)) of
        None \<Rightarrow> (Missing, 0)
      | Some (values, index) \<Rightarrow>
          (case map_of values (xxh (header_value h)) of
             Some index' \<Rightarrow> (Header_value, index')
           | None \<Rightarrow> (Header_only, index)))"
  by (simp add: find_index_def split: option.split list.split)

section \<open>Consistency of the tables\<close>

text \<open>
  The encoder identifies a name or a value by its hash alone. \<open>hashes_apart xxh h\<close> says that the
  name and the value of \<open>h\<close> have the hash of a table string exactly when they are that string.
\<close>

definition hashes_apart :: "(string \<Rightarrow> uint64) \<Rightarrow> header \<Rightarrow> bool" where
  "hashes_apart xxh h \<longleftrightarrow>
     list_all (\<lambda>(c, s). (xxh (header_name h) = c) = (header_name h = s)) name_hashes \<and>
     list_all (\<lambda>(c, s). (xxh (header_value h) = c) = (header_value h = s)) value_hashes"

text \<open>
  The three switches list the static table in the same order, so the strings behind the encoder's
  cases, read off the comments, are the decoder's cases.
\<close>

definition encoder_cases :: "(uint64 \<times> string \<times> byte) list" where
  "encoder_cases =
     concat (map (\<lambda>((c, vals, i), (d, name)). map (\<lambda>(d, j). (d, name, j)) vals) (zip name_cases name_hashes))"

lemma name_hash_order: "map fst name_cases = map fst name_hashes"
  by (simp add: name_cases_rows name_hashes_def)

lemma value_hash_order: "map fst encoder_cases = map fst value_hashes"
  by (simp add: encoder_cases_def name_cases_rows name_hashes_def value_hashes_def)

lemma value_rows:
  "map (\<lambda>((d, name, j), (d', value)). (j, name, value)) (zip encoder_cases value_hashes) = header_value_cases"
  by (simp add: encoder_cases_def name_cases_rows name_hashes_def value_hashes_def header_value_rows)

text \<open>The first row of each name is the one the encoder uses for a name reference.\<close>

fun first_rows :: "string \<Rightarrow> (byte \<times> string) list \<Rightarrow> (byte \<times> string) list" where
  "first_rows prev [] = []"
| "first_rows prev ((i, name) # rows) =
     (if name = prev then first_rows prev rows else (i, name) # first_rows name rows)"

lemma first_rows_subset: "set (first_rows prev rows) \<subseteq> set rows"
  by (induction prev rows rule: first_rows.induct) auto

lemma only_rows:
  "map (\<lambda>((c, vals, i), (d, name)). (i, name)) (zip name_cases name_hashes) = first_rows [] header_only_cases"
  by (simp add: name_cases_rows name_hashes_def header_only_rows)

lemma distinct_unat: "distinct (map (\<lambda>x. unat (fst x)) xs) \<Longrightarrow> distinct (map fst xs)"
  by (auto simp: distinct_map inj_on_def)

lemma value_indices_distinct: "distinct (map fst header_value_cases)"
  by (rule distinct_unat) (simp add: header_value_rows)

lemma only_indices_distinct: "distinct (map fst header_only_cases)"
  by (rule distinct_unat) (simp add: header_only_rows)

lemma name_hashes_distinct: "distinct (map fst name_cases)"
  by (rule distinct_unat) (simp add: name_cases_rows)

lemma value_hashes_distinct: "(c, vals, i) \<in> set name_cases \<Longrightarrow> distinct (map fst vals)"
proof -
  assume row: "(c, vals, i) \<in> set name_cases"
  have "list_all (\<lambda>(c, vals, i). distinct (map (\<lambda>x. unat (fst x)) vals)) name_cases"
    by (simp add: name_cases_rows)
  with row have "distinct (map (\<lambda>x. unat (fst x)) vals)" unfolding list_all_iff by auto
  then show ?thesis by (rule distinct_unat)
qed

lemma zip_member:
  "x \<in> set xs \<Longrightarrow> length xs = length ys \<Longrightarrow> \<exists>y. (x, y) \<in> set (zip xs ys)"
proof -
  assume x: "x \<in> set xs" and len: "length xs = length ys"
  then obtain k where "k < length xs" "xs ! k = x" by (auto simp: in_set_conv_nth)
  then have "(x, ys ! k) \<in> set (zip xs ys)" using len by (auto simp: in_set_zip)
  then show ?thesis ..
qed

lemma zip_same_fst:
  assumes eq: "map fst xs = map fst ys" and m: "(x, y) \<in> set (zip xs ys)"
  shows "fst x = fst y"
proof -
  from m obtain n where n: "xs ! n = x" "ys ! n = y" "n < length xs" "n < length ys"
    by (auto simp: in_set_zip)
  from eq have "map fst xs ! n = map fst ys ! n" by simp
  then show ?thesis using n by simp
qed

text \<open>A case of the encoder and the strings it stands for.\<close>

lemma name_case_strings:
  assumes "(c, vals, i) \<in> set name_cases"
  obtains name where "(c, name) \<in> set name_hashes" "map_of header_only_cases i = Some name"
    "\<And>d j. (d, j) \<in> set vals \<Longrightarrow>
       \<exists>value. (d, value) \<in> set value_hashes \<and> map_of header_value_cases j = Some (name, value)"
proof -
  have "length name_cases = length name_hashes" using arg_cong [OF name_hash_order, of length] by simp
  then obtain y where y: "((c, vals, i), y) \<in> set (zip name_cases name_hashes)"
    using zip_member [OF assms] by blast
  then obtain name where name: "y = (c, name)"
    using zip_same_fst [OF name_hash_order y] by (cases y) auto
  have "(i, name) \<in> set (map (\<lambda>((c, vals, i), (d, name)). (i, name)) (zip name_cases name_hashes))"
    using y name by force
  then have "(i, name) \<in> set header_only_cases"
    unfolding only_rows using first_rows_subset by blast
  then have only: "map_of header_only_cases i = Some name"
    using only_indices_distinct by (simp add: map_of_is_SomeI)
  show thesis
  proof (rule that [of name])
    show "(c, name) \<in> set name_hashes" using y name by (auto dest: set_zip_rightD)
    show "map_of header_only_cases i = Some name" by (rule only)
    fix d j
    assume "(d, j) \<in> set vals"
    then have "(d, name, j) \<in> set ((\<lambda>((c, vals, i), (d, name)). map (\<lambda>(d, j). (d, name, j)) vals)
        ((c, vals, i), (c, name)))"
      unfolding prod.case set_map by (rule rev_image_eqI) simp
    then have "(d, name, j) \<in> set encoder_cases"
      unfolding encoder_cases_def set_concat set_map image_image
      by (rule UN_I [OF y [unfolded name]])
    moreover have "length encoder_cases = length value_hashes"
      using arg_cong [OF value_hash_order, of length] by simp
    ultimately have "\<exists>z. ((d, name, j), z) \<in> set (zip encoder_cases value_hashes)"
      by (rule zip_member)
    then obtain z where z: "((d, name, j), z) \<in> set (zip encoder_cases value_hashes)" by (elim exE)
    then obtain v where v: "z = (d, v)" using zip_same_fst [OF value_hash_order z] by (cases z) auto
    from z v have "(\<lambda>((d, name, j), (d', value)). (j, name, value)) ((d, name, j), (d, v)) \<in> set header_value_cases"
      unfolding value_rows [symmetric] set_map by (intro imageI) simp
    then have "(j, name, v) \<in> set header_value_cases" by simp
    then have "map_of header_value_cases j = Some (name, v)"
      using value_indices_distinct by (simp add: map_of_is_SomeI)
    then show "\<exists>value. (d, value) \<in> set value_hashes \<and> map_of header_value_cases j = Some (name, value)"
      using z v by (auto dest: set_zip_rightD)
  qed
qed

text \<open>Every row of the decoder stands behind a case of the encoder.\<close>

lemma value_row_case:
  assumes "(j, name, value) \<in> set header_value_cases"
  obtains c vals i d where "(c, vals, i) \<in> set name_cases" "(c, name) \<in> set name_hashes"
    "(d, j) \<in> set vals" "(d, value) \<in> set value_hashes"
proof -
  from assms obtain d d' where z: "((d, name, j), (d', value)) \<in> set (zip encoder_cases value_hashes)"
    unfolding value_rows [symmetric] by auto
  have d: "d' = d" using zip_same_fst [OF value_hash_order z] by simp
  from z have "(d, name, j) \<in> set encoder_cases" by (rule set_zip_leftD)
  then obtain c vals i c' where row: "((c, vals, i), (c', name)) \<in> set (zip name_cases name_hashes)" "(d, j) \<in> set vals"
    unfolding encoder_cases_def by auto
  have "c' = c" using zip_same_fst [OF name_hash_order row(1)] by simp
  then show thesis
    using that [of c vals i d] row z d by (auto dest: set_zip_leftD set_zip_rightD)
qed

lemma first_rows_names: "set (map snd rows) \<subseteq> insert prev (set (map snd (first_rows prev rows)))"
  by (induction prev rows rule: first_rows.induct) auto

lemma only_row_hash:
  assumes "(j, name) \<in> set header_only_cases" "name \<noteq> []"
  obtains c where "(c, name) \<in> set name_hashes"
proof -
  have "name \<in> set (map snd header_only_cases)" using assms(1) by force
  then have "name \<in> set (map snd (first_rows [] header_only_cases))"
    using first_rows_names [of header_only_cases "[]"] assms(2) by auto
  then obtain i where "(i, name) \<in> set (first_rows [] header_only_cases)" by auto
  then show thesis using that unfolding only_rows [symmetric] by (auto dest: set_zip_rightD)
qed

lemma no_empty_name: "(j, []) \<notin> set header_only_cases"
  by (simp add: header_only_rows)

lemma name_hash_row:
  assumes "(c, name) \<in> set name_hashes"
  obtains vals i where "map_of name_cases c = Some (vals, i)"
proof -
  have "c \<in> set (map fst name_cases)" unfolding name_hash_order using assms by force
  then show thesis using that by (auto simp: map_of_eq_None_iff dest!: weak_map_of_SomeI)
qed

lemma hashes_apartD:
  "hashes_apart xxh h \<Longrightarrow> (c, s) \<in> set name_hashes \<Longrightarrow> xxh (header_name h) = c \<longleftrightarrow> header_name h = s"
  "hashes_apart xxh h \<Longrightarrow> (d, v) \<in> set value_hashes \<Longrightarrow> xxh (header_value h) = d \<longleftrightarrow> header_value h = v"
  unfolding hashes_apart_def list_all_iff by auto

lemma find_header_value_iff:
  "find_header_value i = (True, h) \<longleftrightarrow> map_of header_value_cases i = Some (header_name h, header_value h)"
  by (cases h) (auto simp: find_header_value_def make_header_def split: option.splits)

lemma find_header_only_iff:
  "find_header_only i = (True, name) \<longleftrightarrow> map_of header_only_cases i = Some name"
  by (auto simp: find_header_only_def split: option.splits)

lemma find_index_not_unknown: "fst (find_index xxh h) \<noteq> Unknown"
  by (simp add: find_index_eq split: option.split prod.split)

lemma find_index_value:
  assumes h: "hashes_apart xxh h" and f: "find_index xxh h = (Header_value, i)"
  shows "find_header_value i = (True, h)"
proof -
  from f obtain vals i' where row: "map_of name_cases (xxh (header_name h)) = Some (vals, i')"
      "map_of vals (xxh (header_value h)) = Some i"
    by (auto simp: find_index_eq split: option.splits)
  obtain name where n: "(xxh (header_name h), name) \<in> set name_hashes"
      "\<And>d j. (d, j) \<in> set vals \<Longrightarrow>
         \<exists>value. (d, value) \<in> set value_hashes \<and> map_of header_value_cases j = Some (name, value)"
    using name_case_strings [OF map_of_SomeD [OF row(1)]] by metis
  obtain val where v: "(xxh (header_value h), val) \<in> set value_hashes"
      "map_of header_value_cases i = Some (name, val)"
    using n(2) [OF map_of_SomeD [OF row(2)]] by auto
  have "header_name h = name" using hashes_apartD(1) [OF h n(1)] by simp
  moreover have "header_value h = val" using hashes_apartD(2) [OF h v(1)] by simp
  ultimately show ?thesis using v(2) by (simp add: find_header_value_iff)
qed

lemma find_index_only:
  assumes h: "hashes_apart xxh h" and f: "find_index xxh h = (Header_only, i)"
  shows "find_header_only i = (True, header_name h)" and "find_header_value j \<noteq> (True, h)"
proof -
  from f obtain vals where row: "map_of name_cases (xxh (header_name h)) = Some (vals, i)"
      "map_of vals (xxh (header_value h)) = None"
    by (auto simp: find_index_eq split: option.splits)
  obtain name where n: "(xxh (header_name h), name) \<in> set name_hashes"
      "map_of header_only_cases i = Some name"
    by (rule name_case_strings [OF map_of_SomeD [OF row(1)]])
  have "header_name h = name" using hashes_apartD(1) [OF h n(1)] by simp
  then show "find_header_only i = (True, header_name h)" using n(2) by (simp add: find_header_only_iff)
  show "find_header_value j \<noteq> (True, h)"
  proof
    assume "find_header_value j = (True, h)"
    then have "(j, header_name h, header_value h) \<in> set header_value_cases"
      unfolding find_header_value_iff by (rule map_of_SomeD)
    then obtain c vals' i' d where c: "(c, vals', i') \<in> set name_cases" "(c, header_name h) \<in> set name_hashes"
        "(d, j) \<in> set vals'" "(d, header_value h) \<in> set value_hashes"
      by (rule value_row_case)
    have "xxh (header_name h) = c" "xxh (header_value h) = d"
      using hashes_apartD(1) [OF h c(2)] hashes_apartD(2) [OF h c(4)] by simp_all
    moreover have "map_of name_cases c = Some (vals', i')"
      using c(1) name_hashes_distinct by (simp add: map_of_is_SomeI)
    moreover have "map_of vals' d = Some j"
      using c(3) value_hashes_distinct [OF c(1)] by (simp add: map_of_is_SomeI)
    ultimately show False using row by simp
  qed
qed

lemma find_index_missing:
  assumes h: "hashes_apart xxh h" and f: "find_index xxh h = (Missing, i)"
  shows "find_header_only j \<noteq> (True, header_name h)"
proof
  assume "find_header_only j = (True, header_name h)"
  then have row: "(j, header_name h) \<in> set header_only_cases"
    unfolding find_header_only_iff by (rule map_of_SomeD)
  then have "header_name h \<noteq> []" using no_empty_name by metis
  then obtain c where c: "(c, header_name h) \<in> set name_hashes" using only_row_hash [OF row] by blast
  obtain vals i' where "map_of name_cases c = Some (vals, i')" by (rule name_hash_row [OF c])
  moreover have "xxh (header_name h) = c" using hashes_apartD(1) [OF h c] by simp
  ultimately show False using f by (simp add: find_index_eq split: option.splits)
qed

section \<open>Property\<close>

text \<open>
  C28. The encoder's table, keyed by hashes, is the decoder's table, keyed by indices: for a header
  whose name and value share no hash with another string of the table, \<open>find_index\<close> returns the
  index of exactly that header when there is one, otherwise an index of its name when there is one,
  and reports it missing only when the table does not have the name.
\<close>

theorem static_table_consistent:
  assumes "hashes_apart xxh h"
  shows "case find_index xxh h of
      (Header_value, i) \<Rightarrow> find_header_value i = (True, h)
    | (Header_only, i) \<Rightarrow> find_header_only i = (True, header_name h) \<and> (\<forall>j. find_header_value j \<noteq> (True, h))
    | (Missing, _) \<Rightarrow> \<forall>j. find_header_only j \<noteq> (True, header_name h)
    | (Unknown, _) \<Rightarrow> False"
  using find_index_value [OF assms] find_index_only [OF assms] find_index_missing [OF assms]
    find_index_not_unknown [of xxh h]
  by (cases "find_index xxh h"; cases "fst (find_index xxh h)") auto

text \<open>A hash function with the table's hashes of one header, and other values elsewhere.\<close>

definition sample_hash :: "string \<Rightarrow> uint64" where
  "sample_hash s =
     (if s = ''age'' then 5092756294692198100 else if s = ''0'' then 7148434200721666028 else 1)"

lemma sample_hash_apart: "hashes_apart sample_hash (make_header ''age'' ''0'')"
  by (simp add: hashes_apart_def sample_hash_def name_hashes_def value_hashes_def)

theorem static_table_consistent_witness:
  "find_index sample_hash (make_header ''age'' ''0'') = (Header_value, 2) \<and>
   find_header_value 2 = (True, make_header ''age'' ''0'')"
proof -
  have "find_index sample_hash (make_header ''age'' ''0'') = (Header_value, 2)"
    by (simp add: find_index_eq sample_hash_def name_cases_rows)
  then show ?thesis using static_table_consistent [OF sample_hash_apart] by simp
qed

end
