(* ===== verification/Qpack.thy ===== *)
theory Qpack
  imports Literal Static_Table
begin

text \<open>
  The QPACK encoder and decoder (\<open>qpack/encode.cpp\<close>, \<open>qpack/decode.cpp\<close>), which use the static table
  only. Both keep whether the two-byte prefix of the header block is still due and how many bytes
  of the block they have handled.
\<close>

datatype qpack_state = Prefix_due | Header_due

section \<open>encode.cpp\<close>

record qpack_encoder =
  qe_state :: qpack_state
  qe_count :: uint64

definition new_qpack_encoder :: qpack_encoder where
  "new_qpack_encoder = \<lparr> qe_state = Prefix_due, qe_count = 0 \<rparr>"

definition qpack_prefix_encoded_size :: nat where "qpack_prefix_encoded_size = 2"

definition qpack_encoded_size :: "(string \<Rightarrow> uint64) \<Rightarrow> qpack_encoder \<Rightarrow> header \<Rightarrow> (nat, error) result" where
  "qpack_encoded_size xxh enc header =
     (if \<not> header_is_lowercase header then Err Malformed_header
      else
        let encoded_size = (if qe_state enc = Prefix_due then qpack_prefix_encoded_size else 0)
        in case find_index xxh header of
             (Header_value, index) \<Rightarrow>
               Ok (encoded_size + prefix_int_encoded_size (ucast index) 6)
           | (Header_only, index) \<Rightarrow>
               Ok (encoded_size + prefix_int_encoded_size (ucast index) 4 +
                   literal_encoded_size (header_value header) 7)
           | (Missing, _) \<Rightarrow>
               Ok (encoded_size + literal_encoded_size (header_name header) 3 +
                   literal_encoded_size (header_value header) 7)
           | (Unknown, _) \<Rightarrow> Fault)"

definition indexed_header_field_prefix :: byte where "indexed_header_field_prefix = 0xc0"
definition literal_with_name_reference_prefix :: byte where "literal_with_name_reference_prefix = 0x50"
definition literal_without_name_reference_prefix :: byte where "literal_without_name_reference_prefix = 0x20"
definition literal_no_prefix :: byte where "literal_no_prefix = 0x00"

lemmas qpack_prefixes = indexed_header_field_prefix_def literal_with_name_reference_prefix_def
  literal_without_name_reference_prefix_def literal_no_prefix_def

text \<open>The \<open>switch\<close> of \<open>encode\<close>: each kind of field is announced by a byte that the first integer or
  literal then completes.\<close>

definition qpack_encode_field ::
  "(string \<Rightarrow> uint64) \<Rightarrow> header \<Rightarrow> bytes \<Rightarrow> nat \<Rightarrow> (nat \<times> bytes) option" where
  "qpack_encode_field xxh header mem dest =
     (case find_index xxh header of
        (Header_value, index) \<Rightarrow>
          do {
            mem \<leftarrow> mem_store mem dest [indexed_header_field_prefix];
            prefix_int_encode mem dest (ucast index) 6
          }
      | (Header_only, index) \<Rightarrow>
          do {
            mem \<leftarrow> mem_store mem dest [literal_with_name_reference_prefix];
            (n, mem) \<leftarrow> prefix_int_encode mem dest (ucast index) 4;
            mem \<leftarrow> mem_store mem (dest + n) [literal_no_prefix];
            (m, mem) \<leftarrow> literal_encode mem (dest + n) (header_value header) 7;
            Some (n + m, mem)
          }
      | (Missing, _) \<Rightarrow>
          do {
            mem \<leftarrow> mem_store mem dest [literal_without_name_reference_prefix];
            (n, mem) \<leftarrow> literal_encode mem dest (header_name header) 3;
            mem \<leftarrow> mem_store mem (dest + n) [literal_no_prefix];
            (m, mem) \<leftarrow> literal_encode mem (dest + n) (header_value header) 7;
            Some (n + m, mem)
          }
      | (Unknown, _) \<Rightarrow> None)"

definition qpack_encode ::
  "(string \<Rightarrow> uint64) \<Rightarrow> bytes \<Rightarrow> nat \<Rightarrow> header \<Rightarrow> qpack_encoder \<Rightarrow> (nat \<times> bytes \<times> qpack_encoder) option" where
  "qpack_encode xxh mem begin_dest header enc =
     do {
       (dest, mem, enc) \<leftarrow>
         (if qe_state enc = Prefix_due then
            do {
              mem \<leftarrow> mem_store mem begin_dest (replicate qpack_prefix_encoded_size 0);
              Some (begin_dest + qpack_prefix_encoded_size, mem, enc\<lparr>qe_state := Header_due\<rparr>)
            }
          else Some (begin_dest, mem, enc));
       (n, mem) \<leftarrow> qpack_encode_field xxh header mem dest;
       let encoded_size = dest + n - begin_dest;
       Some (encoded_size, mem, enc\<lparr>qe_count := qe_count enc + word_of_nat encoded_size\<rparr>)
     }"

definition qpack_encode_buffer ::
  "(string \<Rightarrow> uint64) \<Rightarrow> (nat \<Rightarrow> byte) \<Rightarrow> qpack_encoder \<Rightarrow> header \<Rightarrow> (bytes, error) result \<times> qpack_encoder" where
  "qpack_encode_buffer xxh junk enc header =
     try_in enc (qpack_encoded_size xxh enc header) (\<lambda>encoded_size.
     case qpack_encode xxh (fresh_memory junk encoded_size) 0 header enc of
       Some (_, encoded, enc') \<Rightarrow> (Ok encoded, enc')
     | None \<Rightarrow> (Fault, enc))"

section \<open>decode.cpp\<close>

record qpack_decoder =
  qd_state :: qpack_state
  qd_count :: uint64

definition new_qpack_decoder :: qpack_decoder where
  "new_qpack_decoder = \<lparr> qd_state = Prefix_due, qd_count = 0 \<rparr>"

text \<open>
  The field at the front of the lookahead. The index is cast to \<open>uint8_t\<close> before it is looked up.
\<close>

definition decode_indexed :: "sequence \<Rightarrow> (header, error) result \<times> sequence" where
  "decode_indexed lookahead =
     try_state (prefix_int_decode lookahead 6) (\<lambda>v lookahead.
     let (found, header) = find_header_value (ucast v) in
     if \<not> found then (Err Qpack_decompression_failed, lookahead) else (Ok header, lookahead))"

definition decode_with_name_reference :: "sequence \<Rightarrow> (header, error) result \<times> sequence" where
  "decode_with_name_reference lookahead =
     try_state (prefix_int_decode lookahead 4) (\<lambda>v lookahead.
     let (found, name) = find_header_only (ucast v) in
     if \<not> found then (Err Qpack_decompression_failed, lookahead)
     else try_state (literal_decode lookahead 7) (\<lambda>value lookahead.
       (Ok (make_header name value), lookahead)))"

definition decode_without_name_reference :: "sequence \<Rightarrow> (header, error) result \<times> sequence" where
  "decode_without_name_reference lookahead =
     try_state (literal_decode lookahead 3) (\<lambda>name lookahead.
     try_state (literal_decode lookahead 7) (\<lambda>value lookahead.
     let header = make_header name value in
     if \<not> header_is_lowercase header then (Err Malformed_header, lookahead)
     else (Ok header, lookahead)))"

definition qpack_field :: "sequence \<Rightarrow> (header, error) result \<times> sequence" where
  "qpack_field lookahead =
     (if seq_empty lookahead then (Err Incomplete, lookahead)
      else try_in lookahead (or_fault (seq_at lookahead 0)) (\<lambda>b.
        case find_type b of
          Header_value \<Rightarrow>
            if b AND 0x40 = 0 then (Err Qpack_decompression_failed, lookahead)
            else decode_indexed lookahead
        | Header_only \<Rightarrow>
            if b AND 0x10 = 0 then (Err Qpack_decompression_failed, lookahead)
            else decode_with_name_reference lookahead
        | Missing \<Rightarrow> decode_without_name_reference lookahead
        | Unknown \<Rightarrow> (Err Qpack_decompression_failed, lookahead)))"

text \<open>The prefix is consumed at once; the field is consumed, and counted, when it is complete.\<close>

definition qpack_decode_prefix ::
  "qpack_decoder \<Rightarrow> sequence \<Rightarrow> (unit, error) result \<times> sequence \<times> qpack_decoder" where
  "qpack_decode_prefix dec encoded =
     (if qd_state dec = Prefix_due then
        if seq_size encoded < qpack_prefix_encoded_size then (Err Incomplete, encoded, dec)
        else try_in (encoded, dec) (or_fault (seq_consume encoded qpack_prefix_encoded_size)) (\<lambda>encoded.
          (Ok (), encoded,
           dec\<lparr>qd_count := qd_count dec + word_of_nat qpack_prefix_encoded_size, qd_state := Header_due\<rparr>))
      else (Ok (), encoded, dec))"

definition qpack_decode ::
  "qpack_decoder \<Rightarrow> sequence \<Rightarrow> (header, error) result \<times> sequence \<times> qpack_decoder" where
  "qpack_decode dec encoded =
     try_state (qpack_decode_prefix dec encoded) (\<lambda>_ (encoded, dec).
     case qpack_field (seq_lookahead encoded) of
       (Ok header, lookahead) \<Rightarrow>
         let dec = dec\<lparr>qd_count := qd_count dec + word_of_nat (seq_consumed lookahead)\<rparr> in
         try_in (encoded, dec) (or_fault (seq_consume encoded (seq_consumed lookahead))) (\<lambda>encoded.
         (Ok header, encoded, dec))
     | (Err e, _) \<Rightarrow> (Err e, encoded, dec)
     | (Fault, _) \<Rightarrow> (Fault, encoded, dec))"

section \<open>The wire format\<close>

definition field_wire :: "(string \<Rightarrow> uint64) \<Rightarrow> header \<Rightarrow> bytes" where
  "field_wire xxh h =
     (case find_index xxh h of
        (Header_value, index) \<Rightarrow> prefix_wire 0xc0 6 (ucast index)
      | (Header_only, index) \<Rightarrow> prefix_wire 0x50 4 (ucast index) @ literal_wire 0 7 (header_value h)
      | _ \<Rightarrow> literal_wire 0x20 3 (header_name h) @ literal_wire 0 7 (header_value h))"

definition field_ok :: "(string \<Rightarrow> uint64) \<Rightarrow> header \<Rightarrow> bool" where
  "field_ok xxh h \<longleftrightarrow>
     header_is_lowercase h \<and>
     (case fst (find_index xxh h) of
        Header_value \<Rightarrow> True
      | Header_only \<Rightarrow> literal_ok (header_value h)
      | _ \<Rightarrow> literal_ok (header_name h) \<and> literal_ok (header_value h))"

definition block_prefix :: "qpack_state \<Rightarrow> bytes" where
  "block_prefix st = (if st = Prefix_due then [0, 0] else [])"

text \<open>\<open>emits P bs\<close>: the writer \<open>P\<close> stores \<open>bs\<close> at its destination and touches nothing before it.\<close>

definition emits :: "(bytes \<Rightarrow> nat \<Rightarrow> (nat \<times> bytes) option) \<Rightarrow> bytes \<Rightarrow> bool" where
  "emits P bs \<longleftrightarrow>
     (\<forall>A post. length bs \<le> length post \<longrightarrow>
        (\<exists>post'. P (A @ post) (length A) = Some (length bs, A @ bs @ post') \<and>
           length bs + length post' = length post))"

lemma emitsD:
  "emits P bs \<Longrightarrow> length bs \<le> length post \<Longrightarrow>
   \<exists>post'. P (A @ post) (length A) = Some (length bs, A @ bs @ post') \<and>
     length bs + length post' = length post"
  by (simp add: emits_def)

lemma emits_whole: "emits P bs \<Longrightarrow> length mem = length bs \<Longrightarrow> P mem 0 = Some (length bs, bs)"
  using emitsD [of P bs mem "[]"] by auto

lemma emits_seq:
  assumes P: "emits P a" and Q: "emits Q b"
  shows "emits (\<lambda>mem dest. do {
      (n, mem) \<leftarrow> P mem dest;
      (m, mem) \<leftarrow> Q mem (dest + n);
      Some (n + m, mem) }) (a @ b)"
  unfolding emits_def
proof (intro allI impI)
  fix A post :: bytes
  assume room: "length (a @ b) \<le> length post"
  then obtain p1 where p1: "P (A @ post) (length A) = Some (length a, A @ a @ p1)"
    "length a + length p1 = length post"
    using emitsD [OF P, of post A] by auto
  then obtain p2 where p2: "Q ((A @ a) @ p1) (length (A @ a)) = Some (length b, (A @ a) @ b @ p2)"
    "length b + length p2 = length p1"
    using emitsD [OF Q, of p1 "A @ a"] room by auto
  show "\<exists>post'. do { (n, mem) \<leftarrow> P (A @ post) (length A); (m, mem) \<leftarrow> Q mem (length A + n); Some (n + m, mem) } =
        Some (length (a @ b), A @ (a @ b) @ post') \<and> length (a @ b) + length post' = length post"
    using p1 p2 by (intro exI [of _ p2]) simp
qed

lemma emits_prefix_int:
  assumes p: "p \<le> 8"
  shows "emits (\<lambda>mem dest. do { mem \<leftarrow> mem_store mem dest [first]; prefix_int_encode mem dest v p })
    (prefix_wire first p v)"
  unfolding emits_def
proof (intro allI impI)
  fix A post :: bytes
  assume room: "length (prefix_wire first p v) \<le> length post"
  have pos: "1 \<le> length (prefix_wire first p v)" by (simp add: prefix_wire_def)
  then obtain x xs where post: "post = x # xs" using room by (cases post) auto
  have "length (prefix_wire first p v) + length (drop (length (prefix_wire first p v) - 1) xs) = length post"
    using pos room unfolding post length_drop list.size by linarith
  then show "\<exists>post'. do { mem \<leftarrow> mem_store (A @ post) (length A) [first]; prefix_int_encode mem (length A) v p } =
      Some (length (prefix_wire first p v), A @ prefix_wire first p v @ post') \<and>
      length (prefix_wire first p v) + length post' = length post"
    using prefix_int_encode_eq [OF p, of first v xs A] room
    by (intro exI [of _ "drop (length (prefix_wire first p v) - 1) xs"]) (simp add: post mem_store_append)
qed

lemma emits_literal:
  assumes p: "p < 8" and s: "literal_ok s"
  shows "emits (\<lambda>mem dest. do { mem \<leftarrow> mem_store mem dest [first]; literal_encode mem dest s p })
    (literal_wire first p s)"
  unfolding emits_def
proof (intro allI impI)
  fix A post :: bytes
  assume room: "length (literal_wire first p s) \<le> length post"
  have "0 < length (literal_wire first p s)" by (simp add: literal_wire_def prefix_wire_def)
  then obtain x xs where post: "post = x # xs" using room by (cases post) auto
  obtain post' where "literal_encode (A @ first # xs) (length A) s p =
      Some (length (literal_wire first p s), A @ literal_wire first p s @ post')"
      "length (literal_wire first p s) + length post' = Suc (length xs)"
    using literal_encode_eq [OF p s, of first xs A] room post by auto
  then show "\<exists>post'. do { mem \<leftarrow> mem_store (A @ post) (length A) [first]; literal_encode mem (length A) s p } =
      Some (length (literal_wire first p s), A @ literal_wire first p s @ post') \<and>
      length (literal_wire first p s) + length post' = length post"
    by (auto simp: post mem_store_append)
qed

lemma emits_field:
  assumes "field_ok xxh h"
  shows "emits (qpack_encode_field xxh h) (field_wire xxh h)"
proof -
  obtain ty i where f: "find_index xxh h = (ty, i)" by (cases "find_index xxh h")
  show ?thesis
  proof (cases ty)
    case Header_value
    then show ?thesis using f emits_prefix_int [of 6 "0xc0" "ucast i"]
      by (simp add: qpack_encode_field_def [abs_def] field_wire_def qpack_prefixes)
  next
    case Header_only
    then have "literal_ok (header_value h)" using assms f by (simp add: field_ok_def)
    then have "emits (\<lambda>mem dest. do {
        (n, mem) \<leftarrow> do { mem \<leftarrow> mem_store mem dest [0x50]; prefix_int_encode mem dest (ucast i) 4 };
        (m, mem) \<leftarrow> do { mem \<leftarrow> mem_store mem (dest + n) [0]; literal_encode mem (dest + n) (header_value h) 7 };
        Some (n + m, mem) }) (field_wire xxh h)"
      using emits_seq [OF emits_prefix_int [of 4 "0x50" "ucast i"] emits_literal [of 7 "header_value h" 0]]
        f Header_only by (simp add: field_wire_def)
    then show ?thesis using f Header_only
      by (simp add: qpack_encode_field_def [abs_def] qpack_prefixes bind_assoc)
  next
    case Missing
    then have "literal_ok (header_name h)" "literal_ok (header_value h)" using assms f by (simp_all add: field_ok_def)
    then have "emits (\<lambda>mem dest. do {
        (n, mem) \<leftarrow> do { mem \<leftarrow> mem_store mem dest [0x20]; literal_encode mem dest (header_name h) 3 };
        (m, mem) \<leftarrow> do { mem \<leftarrow> mem_store mem (dest + n) [0]; literal_encode mem (dest + n) (header_value h) 7 };
        Some (n + m, mem) }) (field_wire xxh h)"
      using emits_seq [OF emits_literal [of 3 "header_name h" "0x20"] emits_literal [of 7 "header_value h" 0]]
        f Missing by (simp add: field_wire_def)
    then show ?thesis using f Missing
      by (simp add: qpack_encode_field_def [abs_def] qpack_prefixes bind_assoc)
  next
    case Unknown
    then show ?thesis using f find_index_not_unknown [of xxh h] by simp
  qed
qed

lemma qpack_encoded_size_eq:
  assumes "field_ok xxh h"
  shows "qpack_encoded_size xxh enc h = Ok (length (block_prefix (qe_state enc) @ field_wire xxh h))"
proof -
  obtain ty i where f: "find_index xxh h = (ty, i)" by (cases "find_index xxh h")
  have "ty \<noteq> Unknown" using f find_index_not_unknown [of xxh h] by auto
  then show ?thesis using assms f
      literal_wire_size [of 7 "header_value h" 0] literal_wire_size [of 3 "header_name h" "0x20"]
      prefix_int_encoded_size_eq [of 6 _ "0xc0"] prefix_int_encoded_size_eq [of 4 _ "0x50"]
    by (cases ty) (auto simp: qpack_encoded_size_def field_wire_def field_ok_def block_prefix_def
        qpack_prefix_encoded_size_def Let_def)
qed

definition encoder_after :: "qpack_encoder \<Rightarrow> bytes \<Rightarrow> qpack_encoder" where
  "encoder_after enc bs = enc\<lparr>qe_state := Header_due, qe_count := qe_count enc + word_of_nat (length bs)\<rparr>"

lemma qpack_encode_buffer_eq:
  assumes ok: "field_ok xxh h" and bs_def: "bs = block_prefix (qe_state enc) @ field_wire xxh h"
  shows "qpack_encode_buffer xxh junk enc h = (Ok bs, encoder_after enc bs)"
proof -
  let ?w = "field_wire xxh h" and ?mem = "fresh_memory junk (length bs)"
  have "qpack_encode xxh ?mem 0 h enc = Some (length bs, bs, encoder_after enc bs)"
  proof (cases "qe_state enc")
    case Header_due
    then have bs: "bs = ?w" by (simp add: bs_def block_prefix_def)
    then show ?thesis using emits_whole [OF emits_field [OF ok], of ?mem] Header_due
      by (simp add: qpack_encode_def encoder_after_def Let_def)
  next
    case Prefix_due
    then have bs: "bs = [0, 0] @ ?w" by (simp add: bs_def block_prefix_def)
    have store: "mem_store ?mem 0 [0, 0] = Some ([0, 0] @ drop 2 ?mem)"
      using mem_store_append [of 0 "[]" "[0, 0]" ?mem] bs by (simp add: numeral_2_eq_2)
    obtain post' where "qpack_encode_field xxh h ([0, 0] @ drop 2 ?mem) (length [0, 0 :: byte]) =
        Some (length ?w, [0, 0] @ ?w @ post')" "length ?w + length post' = length (drop 2 ?mem)"
      using emitsD [OF emits_field [OF ok], of "drop 2 ?mem" "[0, 0]"] bs by auto
    then have "qpack_encode_field xxh h (0 # 0 # drop 2 ?mem) (Suc (Suc 0)) = Some (length ?w, bs)"
      using bs by simp
    moreover have "replicate 2 (0 :: byte) = [0, 0]" by (simp add: numeral_2_eq_2)
    ultimately show ?thesis using Prefix_due store bs
      by (simp add: qpack_encode_def qpack_prefix_encoded_size_def encoder_after_def Let_def)
  qed
  then show ?thesis
    by (simp add: qpack_encode_buffer_def qpack_encoded_size_eq [OF ok] bs_def [symmetric])
qed

section \<open>The decoder reads the wire format\<close>

lemma field_first:
  "drop_bit 6 (first :: byte) = 3 \<Longrightarrow> find_type first = Header_value \<and> first AND 0x40 \<noteq> 0"
  "drop_bit 4 first = 5 \<Longrightarrow> find_type first = Header_only \<and> first AND 0x10 \<noteq> 0"
  "drop_bit 5 first = 1 \<Longrightarrow> find_type first = Missing"
proof -
  have b: "bit first (k + n) = bit (drop_bit k first) n" for k n
    by (simp add: bit_drop_bit_eq add.commute)
  have flag: "first AND 2 ^ k = 2 ^ k \<longleftrightarrow> bit first k" "first AND 2 ^ k = 0 \<longleftrightarrow> \<not> bit first k" if "k < 8" for k
  proof -
    have and_eq: "first AND 2 ^ k = (if bit first k then 2 ^ k else 0)"
      by (rule bit_word_eqI) (auto simp: bit_and_iff bit_exp_iff)
    moreover have "(2 ^ k :: byte) \<noteq> 0" using that by (simp add: unat_2p word_unat_eq_iff)
    ultimately show "first AND 2 ^ k = 2 ^ k \<longleftrightarrow> bit first k" "first AND 2 ^ k = 0 \<longleftrightarrow> \<not> bit first k"
      by auto
  qed
  note flags = flag(1) [of 7, simplified] flag(1) [of 6, simplified] flag(1) [of 5, simplified]
    flag(2) [of 6, simplified] flag(2) [of 4, simplified]
  show "drop_bit 6 first = 3 \<Longrightarrow> find_type first = Header_value \<and> first AND 0x40 \<noteq> 0"
    using b [of 6 0] b [of 6 1] by (simp add: find_type_def flags)
  show "drop_bit 4 first = 5 \<Longrightarrow> find_type first = Header_only \<and> first AND 0x10 \<noteq> 0"
    using b [of 4 0] b [of 4 2] b [of 4 3] by (simp add: find_type_def flags)
  show "drop_bit 5 first = 1 \<Longrightarrow> find_type first = Missing"
    using b [of 5 0] b [of 5 1] b [of 5 2] by (simp add: find_type_def flags)
qed

text \<open>The high bits of the first byte are the caller's.\<close>

lemma prefix_wire_first:
  assumes p: "p < 8"
  obtains b bs where "prefix_wire old p v = b # bs" "drop_bit p b = drop_bit p old"
proof -
  have bits: "drop_bit p b = drop_bit p old" if "\<And>n. p \<le> n \<Longrightarrow> n < 8 \<Longrightarrow> bit b n = bit old n" for b :: byte
  proof (rule bit_word_eqI)
    fix n
    show "bit (drop_bit p b) n = bit (drop_bit p old) n"
      using that [of "p + n"] bit_imp_le_length [of b "p + n"] bit_imp_le_length [of old "p + n"]
      by (cases "p + n < 8") (auto simp: bit_drop_bit_eq)
  qed
  show thesis
  proof (cases "unat v < 2 ^ p - 1")
    case True
    have "v < 2 ^ p" using p True by (subst word_less_2p_iff) auto
    then have "\<not> bit v n" if "p \<le> n" for n using that by (rule not_bit_above)
    then have "bit ((old AND NOT (mask p)) OR ucast v) n \<longleftrightarrow> bit old n" if "p \<le> n" "n < 8" for n
      using that by (simp add: bit_or_iff bit_and_iff bit_not_iff bit_mask_iff bit_ucast_iff)
    then have "drop_bit p ((old AND NOT (mask p)) OR ucast v) = drop_bit p old" by (rule bits)
    moreover have "prefix_wire old p v = [(old AND NOT (mask p)) OR ucast v]"
      using True by (simp add: prefix_wire_def)
    ultimately show thesis by (rule that [rotated])
  next
    case False
    have "bit (old OR mask p) n \<longleftrightarrow> bit old n" if "p \<le> n" for n
      using that by (simp add: bit_or_iff bit_mask_iff)
    then have "drop_bit p (old OR mask p) = drop_bit p old" by (intro bits)
    moreover have "prefix_wire old p v = (old OR mask p) # prefix_tail (unat v - (2 ^ p - 1))"
      using False by (simp add: prefix_wire_def)
    ultimately show thesis by (rule that [rotated])
  qed
qed

lemma qpack_field_step:
  assumes D: "reads D bs v" "starves D bs"
    and bs: "bs = b # bs'"
    and field: "\<And>l xs. lookahead_ok l \<Longrightarrow> seq_bytes l = b # xs \<Longrightarrow> qpack_field l = D l"
  shows "reads qpack_field bs v" "starves qpack_field bs"
proof -
  show "reads qpack_field bs v"
    unfolding reads_def using readsD [OF D(1)] field bs by simp
  show "starves qpack_field bs"
    unfolding starves_def
  proof (intro allI impI)
    fix l k
    assume l: "lookahead_ok l" "k < length bs" "seq_bytes l = take k bs"
    show "fst (qpack_field l) = Err Incomplete"
    proof (cases k)
      case 0
      then show ?thesis using l by (simp add: qpack_field_def)
    next
      case (Suc j)
      then have "seq_bytes l = b # take j bs'" using l bs by simp
      then show ?thesis using starvesD [OF D(2) l] field [OF l(1)] by simp
    qed
  qed
qed

lemma index_fits: "2 ^ 3 \<le> (2 :: nat) ^ p \<Longrightarrow> unat (ucast (i :: byte) :: uint64) < 2 ^ p - 1 + 2 ^ 32"
proof -
  have "unat i < 2 ^ 8" using unsigned_less [of i] by simp
  then show "2 ^ 3 \<le> (2 :: nat) ^ p \<Longrightarrow> ?thesis" unfolding unat_ucast_byte by simp
qed

lemma qpack_field_indexed:
  assumes v: "unat v < 2 ^ 32" and h: "find_header_value (ucast v) = (True, h)"
  shows "reads qpack_field (prefix_wire 0xc0 6 v) h" "starves qpack_field (prefix_wire 0xc0 6 v)"
proof -
  let ?bs = "prefix_wire 0xc0 6 v"
  have fits: "unat v < 2 ^ 6 - 1 + 2 ^ 32" using v by simp
  have D: "reads decode_indexed ?bs h" "starves decode_indexed ?bs"
    unfolding decode_indexed_def [abs_def]
    by (rule reads_try_last [OF prefix_int_reads [OF _ fits]], simp, simp add: h fun_eq_iff)
      (rule starves_try_last [OF prefix_int_starves [OF _ fits]], simp)
  obtain b bs where b: "?bs = b # bs" "drop_bit 6 b = drop_bit 6 0xc0"
    by (rule prefix_wire_first [of 6 "0xc0" v]) simp
  then have first: "find_type b = Header_value \<and> b AND 0x40 \<noteq> 0" using field_first(1) [of b] by simp
  have field: "qpack_field l = decode_indexed l" if "lookahead_ok l" "seq_bytes l = b # xs" for l xs
    using that first by (simp add: qpack_field_def seq.at_eq)
  show "reads qpack_field ?bs h" "starves qpack_field ?bs"
    using qpack_field_step [OF D b(1) field] by simp_all
qed

lemma qpack_field_name_reference:
  assumes v: "unat v < 2 ^ 32" and name: "find_header_only (ucast v) = (True, name)" and val: "literal_ok val"
  defines "bs \<equiv> prefix_wire 0x50 4 v @ literal_wire 0 7 val"
  shows "reads qpack_field bs (make_header name val)" "starves qpack_field bs"
proof -
  have fits: "unat v < 2 ^ 4 - 1 + 2 ^ 32" using v by simp
  let ?K = "\<lambda>v lookahead. let (found, name) = find_header_only (ucast v) in
     if \<not> found then (Err Qpack_decompression_failed, lookahead)
     else try_state (literal_decode lookahead 7) (\<lambda>value lookahead.
       (Ok (make_header name value), lookahead))"
  have P: "reads (\<lambda>l. prefix_int_decode l 4) (prefix_wire 0x50 4 v) v"
    "starves (\<lambda>l. prefix_int_decode l 4) (prefix_wire 0x50 4 v)"
    using prefix_int_reads [OF _ fits] prefix_int_starves [OF _ fits] by simp_all
  have L: "reads (\<lambda>l. literal_decode l 7) (literal_wire 0 7 val) val"
    "starves (\<lambda>l. literal_decode l 7) (literal_wire 0 7 val)"
    using literal_decode_wire [OF _ val, of 7 0] by simp_all
  have K: "?K v = (\<lambda>l. try_state (literal_decode l 7) (\<lambda>value lookahead. (Ok (make_header name value), lookahead)))"
    by (simp add: name fun_eq_iff)
  have K': "reads (?K v) (literal_wire 0 7 val) (make_header name val)" "starves (?K v) (literal_wire 0 7 val)"
    unfolding K by (rule reads_try_last [OF L(1)], simp) (rule starves_try_last [OF L(2)])
  have D: "reads decode_with_name_reference bs (make_header name val)" "starves decode_with_name_reference bs"
    unfolding decode_with_name_reference_def [abs_def] bs_def
    by (rule reads_try [where K = ?K, OF P(1) K'(1)], rule starves_try [where K = ?K, OF P K'(2)])
  obtain b bs' where b: "prefix_wire 0x50 4 v = b # bs'" "drop_bit 4 b = drop_bit 4 0x50"
    by (rule prefix_wire_first [of 4 "0x50" v]) simp
  then have first: "find_type b = Header_only \<and> b AND 0x10 \<noteq> 0" using field_first(2) [of b] by simp
  have field: "qpack_field l = decode_with_name_reference l" if "lookahead_ok l" "seq_bytes l = b # xs" for l xs
    using that first by (simp add: qpack_field_def seq.at_eq)
  have "bs = b # bs' @ literal_wire 0 7 val" using b by (simp add: bs_def)
  from qpack_field_step [OF D this field]
  show "reads qpack_field bs (make_header name val)" "starves qpack_field bs" by simp_all
qed

lemma literal_wire_first:
  assumes "p < 7"
  obtains b bs where "literal_wire old p s = b # bs" "drop_bit (Suc p) b = drop_bit (Suc p) old"
proof -
  have up: "drop_bit (Suc p) b = drop_bit (Suc p) old" if "drop_bit p b = drop_bit p x" "drop_bit (Suc p) x = drop_bit (Suc p) old"
    for b x :: byte
    using arg_cong [OF that(1), of "drop_bit 1"] that(2) by simp
  have flag: "drop_bit (Suc p) (old OR push_bit p 1) = drop_bit (Suc p) old"
    by (rule bit_word_eqI) (auto simp: bit_drop_bit_eq bit_or_iff bit_exp_iff)
  show thesis
  proof (cases "huffman_shorter s")
    case True
    obtain b bs where b: "prefix_wire (old OR push_bit p 1) p (word_of_nat (huffman_encoded_size s)) = b # bs"
        "drop_bit p b = drop_bit p (old OR push_bit p 1)"
      by (rule prefix_wire_first [of p]) (use assms in simp)
    show thesis by (rule that [of b "bs @ huffman_wire s"])
      (simp only: literal_wire_def True b(1) if_True append_Cons, rule up [OF b(2) flag])
  next
    case False
    obtain b bs where b: "prefix_wire old p (word_of_nat (length s)) = b # bs" "drop_bit p b = drop_bit p old"
      by (rule prefix_wire_first [of p]) (use assms in simp)
    show thesis by (rule that [of b "bs @ map byte_of_char s"])
      (simp only: literal_wire_def False b(1) if_False append_Cons, rule up [OF b(2) refl])
  qed
qed

lemma qpack_field_literal:
  assumes h: "header_is_lowercase (make_header name val)" and name: "literal_ok name" and val: "literal_ok val"
  defines "bs \<equiv> literal_wire 0x20 3 name @ literal_wire 0 7 val"
  shows "reads qpack_field bs (make_header name val)" "starves qpack_field bs"
proof -
  let ?J = "\<lambda>name value lookahead. let header = make_header name value in
     if \<not> header_is_lowercase header then (Err Malformed_header, lookahead)
     else (Ok header, lookahead :: sequence)"
  let ?K = "\<lambda>name lookahead. try_state (literal_decode lookahead 7) (?J name)"
  have "\<not> bit (0x20 :: byte) 3" by simp
  then have N: "reads (\<lambda>l. literal_decode l 3) (literal_wire 0x20 3 name) name"
    "starves (\<lambda>l. literal_decode l 3) (literal_wire 0x20 3 name)"
    using literal_decode_wire [OF _ name, of 3 "0x20"] by simp_all
  have L: "reads (\<lambda>l. literal_decode l 7) (literal_wire 0 7 val) val"
    "starves (\<lambda>l. literal_decode l 7) (literal_wire 0 7 val)"
    using literal_decode_wire [OF _ val, of 7 0] by simp_all
  have K: "reads (?K name) (literal_wire 0 7 val) (make_header name val)" "starves (?K name) (literal_wire 0 7 val)"
    by (rule reads_try_last [OF L(1)], simp add: h fun_eq_iff) (rule starves_try_last [OF L(2)])
  have D: "reads decode_without_name_reference bs (make_header name val)" "starves decode_without_name_reference bs"
    unfolding decode_without_name_reference_def [abs_def] bs_def
    by (rule reads_try [where K = ?K, OF N(1) K(1)], rule starves_try [where K = ?K, OF N K(2)])
  obtain b bs' where b: "literal_wire 0x20 3 name = b # bs'" "drop_bit (Suc 3) b = drop_bit (Suc 3) 0x20"
    by (rule literal_wire_first [of 3 "0x20" name]) simp
  have "drop_bit 5 b = 1" using arg_cong [OF b(2), of "drop_bit 1"] by simp
  then have first: "find_type b = Missing" using field_first(3) [of b] by simp
  have field: "qpack_field l = decode_without_name_reference l" if "lookahead_ok l" "seq_bytes l = b # xs" for l xs
    using that first by (simp add: qpack_field_def seq.at_eq)
  have "bs = b # bs' @ literal_wire 0 7 val" using b by (simp add: bs_def)
  from qpack_field_step [OF D this field]
  show "reads qpack_field bs (make_header name val)" "starves qpack_field bs" by simp_all
qed

text \<open>Every encodable field, as the decoder sees it: the strings of the table row it names.\<close>

lemma qpack_field_wire:
  assumes h: "hashes_apart xxh h" and ok: "field_ok xxh h"
  shows "reads qpack_field (field_wire xxh h) h" "starves qpack_field (field_wire xxh h)"
proof -
  obtain ty i where f: "find_index xxh h = (ty, i)" by (cases "find_index xxh h")
  have "unat i < 2 ^ 8" using unsigned_less [of i] by simp
  then have v: "unat (ucast i :: uint64) < 2 ^ 32" unfolding unat_ucast_byte by simp
  have u: "ucast (ucast i :: uint64) = i" by (rule bit_word_eqI) (auto simp: bit_ucast_iff)
  show "reads qpack_field (field_wire xxh h) h" "starves qpack_field (field_wire xxh h)"
  proof (atomize (full), cases ty)
    case Header_value
    then have "find_header_value (ucast (ucast i :: uint64)) = (True, h)"
      using find_index_value [OF h] f u by simp
    from qpack_field_indexed [OF v this]
    show "reads qpack_field (field_wire xxh h) h \<and> starves qpack_field (field_wire xxh h)"
      using f Header_value by (simp add: field_wire_def)
  next
    case Header_only
    then have n: "find_header_only (ucast (ucast i :: uint64)) = (True, header_name h)"
      using find_index_only(1) [OF h] f u by simp
    have "literal_ok (header_value h)" using ok f Header_only by (simp add: field_ok_def)
    from qpack_field_name_reference [OF v n this]
    show "reads qpack_field (field_wire xxh h) h \<and> starves qpack_field (field_wire xxh h)"
      using f Header_only by (simp add: field_wire_def)
  next
    case Missing
    then have "literal_ok (header_name h)" "literal_ok (header_value h)" using ok f by (simp_all add: field_ok_def)
    moreover have "header_is_lowercase (make_header (header_name h) (header_value h))"
      using ok by (simp add: field_ok_def)
    ultimately show "reads qpack_field (field_wire xxh h) h \<and> starves qpack_field (field_wire xxh h)"
      using qpack_field_literal [of "header_name h" "header_value h"] f Missing by (simp add: field_wire_def)
  next
    case Unknown
    then show "reads qpack_field (field_wire xxh h) h \<and> starves qpack_field (field_wire xxh h)"
      using f find_index_not_unknown [of xxh h] by simp
  qed
qed

definition decoder_after :: "qpack_decoder \<Rightarrow> bytes \<Rightarrow> qpack_decoder" where
  "decoder_after dec bs = dec\<lparr>qd_state := Header_due, qd_count := qd_count dec + word_of_nat (length bs)\<rparr>"

lemma qpack_decode_header_due:
  assumes D: "reads qpack_field bs h" and st: "qd_state dec = Header_due"
    and s: "seq_ok s" "seq_bytes s = bs @ rest"
  shows "qpack_decode dec s = (Ok h, seq_drop s (length bs), decoder_after dec bs)"
  using readsD [OF D, of "seq_lookahead s" rest] s st
  by (simp add: qpack_decode_def qpack_decode_prefix_def seq_consume_eq decoder_after_def Let_def)

text \<open>The bytes of \<open>s'\<close> are those of \<open>s\<close> without the first \<open>n\<close>.\<close>

definition advanced :: "sequence \<Rightarrow> nat \<Rightarrow> sequence \<Rightarrow> bool" where
  "advanced s n s' \<longleftrightarrow> seq_ok s' \<and> n \<le> length (seq_bytes s) \<and> seq_bytes s' = drop n (seq_bytes s)"

lemma qpack_decode_wire:
  assumes D: "reads qpack_field bs h"
    and s: "seq_ok s" "seq_bytes s = block_prefix (qd_state dec) @ bs @ rest"
  shows "\<exists>s'. qpack_decode dec s = (Ok h, s', decoder_after dec (block_prefix (qd_state dec) @ bs)) \<and>
    seq_ok s' \<and> seq_bytes s' = rest"
proof (cases "qd_state dec")
  case Header_due
  then show ?thesis using qpack_decode_header_due [OF D _ s(1)] s by (simp add: block_prefix_def)
next
  case Prefix_due
  let ?s = "seq_drop s 2" and ?dec = "dec\<lparr>qd_count := qd_count dec + 2, qd_state := Header_due\<rparr>"
  have bytes: "seq_bytes s = [0, 0] @ bs @ rest" using s(2) Prefix_due by (simp add: block_prefix_def)
  have s2: "seq_ok ?s" "seq_bytes ?s = bs @ rest" using s(1) bytes by simp_all
  have "qpack_decode dec s = qpack_decode ?dec ?s"
    using s(1) bytes Prefix_due
    by (simp add: qpack_decode_def qpack_decode_prefix_def qpack_prefix_encoded_size_def seq_consume_eq)
  moreover have "qpack_decode ?dec ?s = (Ok h, seq_drop ?s (length bs), decoder_after ?dec bs)"
    by (rule qpack_decode_header_due [OF D _ s2]) simp
  moreover have "decoder_after ?dec bs = decoder_after dec ([0, 0] @ bs)"
    by (simp add: decoder_after_def)
  ultimately show ?thesis using s2 Prefix_due by (simp add: block_prefix_def)
qed

section \<open>The decoder only advances\<close>

abbreviation qpack_errors :: "error set" where
  "qpack_errors \<equiv> {Incomplete, Qpack_decompression_failed, Malformed_header}"

lemma moves_field_kinds:
  "moves decode_indexed qpack_errors" "moves decode_with_name_reference qpack_errors"
  "moves decode_without_name_reference qpack_errors"
  unfolding decode_indexed_def [abs_def] decode_with_name_reference_def [abs_def]
    decode_without_name_reference_def [abs_def] Let_def prod.case_eq_if
  by (intro moves_try moves_prefix_int moves_literal moves_if moves_return; auto)+

lemma moves_field: "moves qpack_field qpack_errors"
proof -
  have "moves (\<lambda>l. case find_type b of
          Header_value \<Rightarrow>
            if b AND 0x40 = 0 then (Err Qpack_decompression_failed, l) else decode_indexed l
        | Header_only \<Rightarrow>
            if b AND 0x10 = 0 then (Err Qpack_decompression_failed, l) else decode_with_name_reference l
        | Missing \<Rightarrow> decode_without_name_reference l
        | Unknown \<Rightarrow> (Err Qpack_decompression_failed, l)) qpack_errors" for b
    by (cases "find_type b"; simp only: fixed_type.case)
      (intro moves_if moves_field_kinds moves_return; simp)+
  then show ?thesis unfolding qpack_field_def [abs_def] by (intro moves_at) simp_all
qed

text \<open>One call of the decoder: what it took from the sequence is what it counted.\<close>

definition decoder_step :: "qpack_decoder \<Rightarrow> sequence \<Rightarrow> nat \<Rightarrow> qpack_decoder \<Rightarrow> sequence \<Rightarrow> bool" where
  "decoder_step dec s n dec' s' \<longleftrightarrow>
     seq_ok s' \<and> n \<le> length (seq_bytes s) \<and> seq_bytes s' = drop n (seq_bytes s) \<and>
     qd_count dec' = qd_count dec + word_of_nat n"

lemma qpack_decode_field_due:
  assumes s: "seq_ok s" and st: "qd_state dec = Header_due"
    and d: "qpack_decode dec s = (r, s', dec')"
  shows "\<exists>n. decoder_step dec s n dec' s' \<and> qd_state dec' = Header_due \<and>
    (\<forall>e. r = Err e \<longrightarrow> e \<in> qpack_errors \<and> s' = s \<and> dec' = dec \<and> n = 0)"
proof -
  have "lookahead_ok (seq_lookahead s)" using s by simp
  from movesD [OF moves_field this]
  obtain r1 n where r1: "qpack_field (seq_lookahead s) = (r1, seq_drop (seq_lookahead s) n)"
    "n \<le> length (seq_bytes s)" "\<forall>e. r1 = Err e \<longrightarrow> e \<in> qpack_errors"
    by auto
  show ?thesis
  proof (cases r1)
    case (Ok h)
    then have "r = Ok h" "s' = seq_drop s n" "dec' = dec\<lparr>qd_count := qd_count dec + word_of_nat n\<rparr>"
      using d r1 s st by (simp_all add: qpack_decode_def qpack_decode_prefix_def seq_consume_eq Let_def)
    then show ?thesis using s r1(2) st by (intro exI [of _ n]) (simp add: decoder_step_def)
  next
    case (Err e)
    then have "r = Err e" "s' = s" "dec' = dec"
      using d r1 s st by (simp_all add: qpack_decode_def qpack_decode_prefix_def)
    then show ?thesis using s r1(3) Err st by (intro exI [of _ 0]) (simp add: decoder_step_def)
  next
    case Fault
    then have "r = Fault" "s' = s" "dec' = dec"
      using d r1 s st by (simp_all add: qpack_decode_def qpack_decode_prefix_def)
    then show ?thesis using s st by (intro exI [of _ 0]) (simp add: decoder_step_def)
  qed
qed

lemma qpack_decode_prefix_due:
  assumes "seq_ok s" "qd_state dec = Prefix_due"
  shows "qpack_decode dec s =
    (if length (seq_bytes s) < 2 then (Err Incomplete, s, dec)
     else qpack_decode (dec\<lparr>qd_count := qd_count dec + 2, qd_state := Header_due\<rparr>) (seq_drop s 2))"
  using assms by (simp add: qpack_decode_def qpack_decode_prefix_def qpack_prefix_encoded_size_def seq_consume_eq)

lemma qpack_decode_step:
  assumes s: "seq_ok s" and d: "qpack_decode dec s = (r, s', dec')"
  obtains n where "decoder_step dec s n dec' s'"
    "\<And>e. r = Err e \<Longrightarrow> e \<in> qpack_errors \<and>
       (n = 0 \<and> s' = s \<and> dec' = dec \<or> n = 2 \<and> qd_state dec = Prefix_due \<and> qd_state dec' = Header_due)"
    "\<And>h. r = Ok h \<Longrightarrow> qd_state dec' = Header_due"
proof (cases "qd_state dec")
  case Header_due
  show thesis using qpack_decode_field_due [OF s Header_due d] that by blast
next
  case Prefix_due
  show thesis
  proof (cases "length (seq_bytes s) < 2")
    case True
    then have "r = Err Incomplete" "s' = s" "dec' = dec"
      using qpack_decode_prefix_due [OF s Prefix_due] d by simp_all
    then show thesis using that [of 0] s by (simp add: decoder_step_def)
  next
    case False
    let ?dec = "dec\<lparr>qd_count := qd_count dec + 2, qd_state := Header_due\<rparr>"
    have "qpack_decode ?dec (seq_drop s 2) = (r, s', dec')"
      using qpack_decode_prefix_due [OF s Prefix_due] d False by simp
    from qpack_decode_field_due [OF _ _ this] s
    obtain n where n: "decoder_step ?dec (seq_drop s 2) n dec' s'" "qd_state dec' = Header_due"
      "\<forall>e. r = Err e \<longrightarrow> e \<in> qpack_errors \<and> s' = seq_drop s 2 \<and> dec' = ?dec \<and> n = 0"
      by auto
    have "decoder_step dec s (2 + n) dec' s'"
      using n(1) s False by (auto simp: decoder_step_def)
    then show thesis using that [of "2 + n"] n(2,3) Prefix_due by auto
  qed
qed

section \<open>Properties\<close>

text \<open>
  C6. Encoding a header and decoding the bytes gives the header back, on each of the four containers,
  and leaves the two sides in step: both are past the prefix and have counted the same bytes, so the
  statement applies to the next header of the block. The header has a lower-case name, its literals
  are encodable and its strings share no hash with another string of the static table.
\<close>

theorem qpack_round_trip:
  assumes "hashes_apart xxh h" and "field_ok xxh h"
    and "qd_state dec = qe_state enc" and "qd_count dec = qe_count enc"
    and "qpack_encode_buffer xxh junk enc h = (Ok encoded, enc')"
    and "seq_ok s" and "seq_bytes s = encoded @ rest"
  shows "\<exists>s' dec'. qpack_decode dec s = (Ok h, s', dec') \<and> seq_ok s' \<and> seq_bytes s' = rest \<and>
    qd_state dec' = qe_state enc' \<and> qd_count dec' = qe_count enc' \<and>
    qe_count enc' = qe_count enc + word_of_nat (length encoded)"
proof -
  have enc: "encoded = block_prefix (qe_state enc) @ field_wire xxh h" "enc' = encoder_after enc encoded"
    using qpack_encode_buffer_eq [OF assms(2) refl, of junk enc] assms(5) by auto
  have "seq_bytes s = block_prefix (qd_state dec) @ field_wire xxh h @ rest"
    using assms(3,7) enc(1) by simp
  from qpack_decode_wire [OF qpack_field_wire(1) [OF assms(1,2)] assms(6) this]
  show ?thesis using enc assms(3,4) by (auto simp: decoder_after_def encoder_after_def)
qed

lemma sample_field_ok: "field_ok sample_hash (make_header ''age'' ''0'')"
  by (simp add: field_ok_def header_is_lowercase_def is_upper_def find_index_eq sample_hash_def name_cases_rows)

theorem qpack_round_trip_witness:
  "\<exists>s' dec'. qpack_decode new_qpack_decoder (Buffers_seq [[0], [0, 0xc2], [7]]) =
      (Ok (make_header ''age'' ''0''), s', dec') \<and> seq_ok s' \<and> seq_bytes s' = [7] \<and>
    qd_state dec' = qe_state (encoder_after new_qpack_encoder [0, 0, 0xc2]) \<and>
    qd_count dec' = qe_count (encoder_after new_qpack_encoder [0, 0, 0xc2]) \<and>
    qe_count (encoder_after new_qpack_encoder [0, 0, 0xc2]) =
      qe_count new_qpack_encoder + word_of_nat (length [0, 0, 0xc2 :: byte])"
proof (rule qpack_round_trip [OF sample_hash_apart sample_field_ok])
  have "find_index sample_hash (make_header ''age'' ''0'') = (Header_value, 2)"
    by (simp add: find_index_eq sample_hash_def name_cases_rows)
  then have "block_prefix (qe_state new_qpack_encoder) @ field_wire sample_hash (make_header ''age'' ''0'') = [0, 0, 0xc2]"
    by (simp add: block_prefix_def new_qpack_encoder_def field_wire_def prefix_wire_def mask_eq_exp_minus_1)
  then show "qpack_encode_buffer sample_hash (\<lambda>_. 0xff) new_qpack_encoder (make_header ''age'' ''0'') =
      (Ok [0, 0, 0xc2], encoder_after new_qpack_encoder [0, 0, 0xc2])"
    using qpack_encode_buffer_eq [OF sample_field_ok refl] by metis
qed (simp_all add: new_qpack_decoder_def new_qpack_encoder_def)

text \<open>
  The invariant behind the end of a header block: whatever one call of the decoder takes from the
  sequence, the prefix included, is what it adds to its count. A failing call takes nothing but,
  possibly, the two bytes of the prefix, and its error is one of three.
\<close>

theorem qpack_decode_counts:
  assumes "seq_ok s" and "qpack_decode dec s = (r, s', dec')"
  shows "\<exists>n. seq_ok s' \<and> n \<le> length (seq_bytes s) \<and> seq_bytes s' = drop n (seq_bytes s) \<and>
    qd_count dec' = qd_count dec + word_of_nat n \<and>
    (\<forall>e. r = Err e \<longrightarrow> e \<in> {Incomplete, Qpack_decompression_failed, Malformed_header} \<and>
       (n = 0 \<and> s' = s \<and> dec' = dec \<or> n = 2 \<and> qd_state dec = Prefix_due \<and> qd_state dec' = Header_due))"
  using qpack_decode_step [OF assms] unfolding decoder_step_def by metis

theorem qpack_decode_counts_witness:
  "\<exists>n. seq_ok (Buffer_seq []) \<and> n \<le> length (seq_bytes (Buffer_seq [0, 0])) \<and>
    seq_bytes (Buffer_seq []) = drop n (seq_bytes (Buffer_seq [0, 0])) \<and>
    qd_count \<lparr> qd_state = Header_due, qd_count = 2 \<rparr> = qd_count new_qpack_decoder + word_of_nat n \<and>
    (\<forall>e. (Err Incomplete :: (header, error) result) = Err e \<longrightarrow>
       e \<in> {Incomplete, Qpack_decompression_failed, Malformed_header} \<and>
       (n = 0 \<and> Buffer_seq [] = Buffer_seq [0, 0] \<and> \<lparr> qd_state = Header_due, qd_count = 2 \<rparr> = new_qpack_decoder \<or>
        n = 2 \<and> qd_state new_qpack_decoder = Prefix_due \<and> qd_state \<lparr> qd_state = Header_due, qd_count = 2 \<rparr> = Header_due))"
  by (rule qpack_decode_counts)
    (simp_all add: qpack_decode_def qpack_decode_prefix_def new_qpack_decoder_def qpack_prefix_encoded_size_def
      buffer_consume_def qpack_field_def seq_empty_def)

text \<open>
  C40. The decoder casts an index to eight bits before it looks it up, so an index outside the static
  table is not rejected: it stands for the row 256, 512, ... below it.
\<close>

theorem qpack_index_wraps:
  assumes "unat v < 2 ^ 32" and "find_header_value (ucast v) = (True, h)"
    and "qd_state dec = Header_due" and "seq_ok s" and "seq_bytes s = prefix_wire 0xc0 6 v @ rest"
  shows "fst (qpack_decode dec s) = Ok h"
  using qpack_decode_header_due [OF qpack_field_indexed(1) [OF assms(1,2)] assms(3-5)] by simp

theorem qpack_index_wraps_witness:
  "fst (qpack_decode \<lparr> qd_state = Header_due, qd_count = 2 \<rparr> (Buffer_seq [0xff, 0xd2, 0x01])) =
     Ok (make_header '':method'' ''GET'')"
proof (rule qpack_index_wraps [of 273 _ _ _ "[]"])
  show "find_header_value (ucast (273 :: uint64)) = (True, make_header '':method'' ''GET'')"
    by (simp add: find_header_value_def header_value_rows)
  show "seq_bytes (Buffer_seq [0xff, 0xd2, 0x01]) = prefix_wire 0xc0 6 273 @ []"
    by (simp add: prefix_wire_def prefix_tail.simps mask_eq_exp_minus_1)
qed simp_all

text \<open>
  The encoder compares hashes only: a header with any other name that has the hash of
  \<open>:authority\<close> is encoded without an error, and decodes as an \<open>:authority\<close> header.
\<close>

theorem qpack_hash_collision:
  assumes "xxh (header_name h) = xxh '':authority''" and "xxh '':authority'' = 16895098521482341206"
    and "header_is_lowercase h" and "literal_ok (header_value h)"
    and "seq_ok s" and "seq_bytes s = [0, 0] @ field_wire xxh h"
  shows "qpack_encode_buffer xxh junk new_qpack_encoder h =
      (Ok ([0, 0] @ field_wire xxh h), encoder_after new_qpack_encoder ([0, 0] @ field_wire xxh h)) \<and>
    fst (qpack_decode new_qpack_decoder s) = Ok (make_header '':authority'' (header_value h))"
proof -
  have f: "find_index xxh h = (Header_only, 0)"
    using assms(1,2) by (simp add: find_index_eq name_cases_rows)
  then have ok: "field_ok xxh h" using assms(3,4) by (simp add: field_ok_def)
  have e: "qpack_encode_buffer xxh junk new_qpack_encoder h =
      (Ok ([0, 0] @ field_wire xxh h), encoder_after new_qpack_encoder ([0, 0] @ field_wire xxh h))"
    by (rule qpack_encode_buffer_eq [OF ok]) (simp add: block_prefix_def new_qpack_encoder_def)
  have "find_header_only (ucast (0 :: uint64)) = (True, '':authority'')"
    by (simp add: find_header_only_def header_only_rows)
  then have "reads qpack_field (field_wire xxh h) (make_header '':authority'' (header_value h))"
    using qpack_field_name_reference(1) [of 0 "'':authority''" "header_value h"] assms(4) f
    by (simp add: field_wire_def)
  from qpack_decode_wire [OF this assms(5), of new_qpack_decoder "[]"] e assms(6)
  show ?thesis by (auto simp: block_prefix_def new_qpack_decoder_def)
qed

theorem qpack_hash_collision_witness:
  "qpack_encode_buffer (\<lambda>_. 16895098521482341206) (\<lambda>_. 0) new_qpack_encoder (make_header ''x-foo'' ''a'') =
      (Ok ([0, 0] @ field_wire (\<lambda>_. 16895098521482341206) (make_header ''x-foo'' ''a'')),
       encoder_after new_qpack_encoder ([0, 0] @ field_wire (\<lambda>_. 16895098521482341206) (make_header ''x-foo'' ''a''))) \<and>
    fst (qpack_decode new_qpack_decoder
      (Buffer_seq ([0, 0] @ field_wire (\<lambda>_. 16895098521482341206) (make_header ''x-foo'' ''a'')))) =
      Ok (make_header '':authority'' (header_value (make_header ''x-foo'' ''a'')))"
proof (rule qpack_hash_collision)
  show "literal_ok (header_value (make_header ''x-foo'' ''a''))" by (rule literal_ok_printable) simp_all
qed (simp_all add: header_is_lowercase_def is_upper_def)

text \<open>
  A row of the static table without a value cannot be referred to as a whole: the decoder rejects
  the indexed field, although it knows the name under the same index.
\<close>

theorem qpack_valueless_row:
  "find_header_only 0 = (True, '':authority'') \<and>
   qpack_decode \<lparr> qd_state = Header_due, qd_count = 2 \<rparr> (Buffer_seq [0xc0]) =
     (Err Qpack_decompression_failed, Buffer_seq [0xc0], \<lparr> qd_state = Header_due, qd_count = 2 \<rparr>)"
proof -
  let ?l = "seq_lookahead (Buffer_seq [0xc0])"
  have "reads (\<lambda>l. prefix_int_decode l 6) (prefix_wire 0xc0 6 0) 0" by (rule prefix_int_reads) simp_all
  moreover have "lookahead_ok ?l" by (rule lookahead_ok_simps(4)) simp
  ultimately have "prefix_int_decode ?l 6 = (Ok 0, seq_drop ?l 1)"
    using readsD [of _ "prefix_wire 0xc0 6 0" 0 ?l "[]"] by (simp add: prefix_wire_def mask_eq_exp_minus_1)
  then have "fst (qpack_field ?l) = Err Qpack_decompression_failed"
    by (simp add: qpack_field_def seq_empty_def buffer_at_def find_type_def decode_indexed_def
        find_header_value_def header_value_rows)
  then show ?thesis
    by (cases "qpack_field ?l")
      (simp add: qpack_decode_def qpack_decode_prefix_def find_header_only_def header_only_rows)
qed

end
