(* ===== verification/Headers_Codec.thy ===== *)
theory Headers_Codec
  imports Frame Qpack
begin

text \<open>
  The header block of a message (\<open>codec/headers.cpp\<close>): the encoder collects QPACK fields and then
  hands out a HEADERS frame and the fields one buffer at a time; the decoder reads the frame and
  counts the bytes of the fields against the size it advertised.
\<close>

section \<open>encoder\<close>

datatype headers_encoder_state = He_idle | He_frame | He_qpack | He_fin

record headers_encoder =
  he_state :: headers_encoder_state
  he_buffers :: buffers
  he_qpack :: qpack_encoder

definition new_headers_encoder :: headers_encoder where
  "new_headers_encoder = \<lparr> he_state = He_idle, he_buffers = [], he_qpack = new_qpack_encoder \<rparr>"

definition headers_encoder_add ::
  "(string \<Rightarrow> uint64) \<Rightarrow> (nat \<Rightarrow> byte) \<Rightarrow> header \<Rightarrow> headers_encoder \<Rightarrow>
   (unit, error) result \<times> headers_encoder" where
  "headers_encoder_add xxh junk header enc =
     (if he_state enc \<noteq> He_idle then (Err Internal, enc)
      else (case qpack_encode_buffer xxh junk (he_qpack enc) header of
          (Ok encoded, q) \<Rightarrow>
            (Ok (), enc\<lparr>he_qpack := q, he_buffers := buffers_push (he_buffers enc) encoded\<rparr>)
        | (Err e, q) \<Rightarrow> (Err e, enc\<lparr>he_qpack := q\<rparr>)
        | (Fault, q) \<Rightarrow> (Fault, enc\<lparr>he_qpack := q\<rparr>)))"

definition headers_encoder_fin :: "headers_encoder \<Rightarrow> (unit, error) result \<times> headers_encoder" where
  "headers_encoder_fin enc =
     (if he_state enc \<noteq> He_idle then (Err Internal, enc) else (Ok (), enc\<lparr>he_state := He_frame\<rparr>))"

definition headers_encoder_finished :: "headers_encoder \<Rightarrow> bool" where
  "headers_encoder_finished enc \<longleftrightarrow> he_state enc = He_fin"

definition headers_encoder_encode ::
  "(nat \<Rightarrow> byte) \<Rightarrow> headers_encoder \<Rightarrow> (bytes, error) result \<times> headers_encoder" where
  "headers_encoder_encode junk enc =
     (case he_state enc of
        He_idle \<Rightarrow> (Err Idle, enc)
      | He_frame \<Rightarrow>
          try_in enc (frame_encode_buffer junk (Headers (qe_count (he_qpack enc)))) (\<lambda>encoded.
          (Ok encoded, enc\<lparr>he_state := He_qpack\<rparr>))
      | He_qpack \<Rightarrow>
          try_in enc (or_fault (buffers_pop (he_buffers enc))) (\<lambda>(encoded, bs).
          (Ok encoded, enc\<lparr>he_buffers := bs,
             he_state := (if buffers_empty bs then He_fin else he_state enc)\<rparr>))
      | He_fin \<Rightarrow> (Err Internal, enc))"

section \<open>decoder\<close>

datatype headers_decoder_state = Hd_frame | Hd_qpack | Hd_fin

record headers_decoder =
  hd_state :: headers_decoder_state
  hd_size :: uint64
  hd_qpack :: qpack_decoder

definition new_headers_decoder :: headers_decoder where
  "new_headers_decoder = \<lparr> hd_state = Hd_frame, hd_size = 0, hd_qpack = new_qpack_decoder \<rparr>"

definition headers_decoder_started :: "headers_decoder \<Rightarrow> bool" where
  "headers_decoder_started dec \<longleftrightarrow> hd_state dec \<noteq> Hd_frame"

definition headers_decoder_finished :: "headers_decoder \<Rightarrow> bool" where
  "headers_decoder_finished dec \<longleftrightarrow> hd_state dec = Hd_fin"

text \<open>
  \<open>frame.headers.size\<close> reads the first member of the union. When the frame that was decoded is not
  the one that was announced, it is the first member of another payload; all of them start with a
  \<open>uint64_t\<close> except \<open>priority\<close>, where the read is undefined.
\<close>

fun frame_first_member :: "frame \<Rightarrow> uint64 option" where
  "frame_first_member (Data n) = Some n"
| "frame_first_member (Headers n) = Some n"
| "frame_first_member (Priority _) = None"
| "frame_first_member (Settings s) = Some (max_header_list_size s)"
| "frame_first_member (Cancel_push push_id) = Some push_id"
| "frame_first_member (Push_promise push_id _) = Some push_id"
| "frame_first_member (Goaway stream_id) = Some stream_id"
| "frame_first_member (Max_push_id push_id) = Some push_id"
| "frame_first_member (Duplicate_push push_id) = Some push_id"

definition headers_decode_field ::
  "headers_decoder \<Rightarrow> sequence \<Rightarrow> (header, error) result \<times> sequence \<times> headers_decoder" where
  "headers_decode_field dec encoded =
     (case qpack_decode (hd_qpack dec) encoded of
        (Ok header, encoded, q) \<Rightarrow>
          let dec = dec\<lparr>hd_qpack := q\<rparr> in
          if hd_size dec < qd_count q then (Err Malformed_frame, encoded, dec)
          else
            let fin = qd_count q = hd_size dec in
            (Ok header, encoded, dec\<lparr>hd_state := (if fin then Hd_fin else hd_state dec)\<rparr>)
      | (Err e, encoded, q) \<Rightarrow> (Err e, encoded, dec\<lparr>hd_qpack := q\<rparr>)
      | (Fault, encoded, q) \<Rightarrow> (Fault, encoded, dec\<lparr>hd_qpack := q\<rparr>))"

definition headers_decode ::
  "headers_decoder \<Rightarrow> sequence \<Rightarrow> (header, error) result \<times> sequence \<times> headers_decoder" where
  "headers_decode dec encoded =
     (case hd_state dec of
        Hd_frame \<Rightarrow>
          try_in (encoded, dec) (frame_peek encoded) (\<lambda>type.
          if type \<noteq> Headers_type then (Err Delegate, encoded, dec)
          else (case frame_decode encoded of
              (Ok frame, encoded) \<Rightarrow>
                let dec = dec\<lparr>hd_state := Hd_qpack\<rparr> in
                try_in (encoded, dec) (or_fault (frame_first_member frame)) (\<lambda>n.
                let dec = dec\<lparr>hd_size := n\<rparr> in
                if hd_size dec = 0 then (Err Malformed_frame, encoded, dec)
                else headers_decode_field dec encoded)
            | (Err e, encoded) \<Rightarrow> (Err e, encoded, dec)
            | (Fault, encoded) \<Rightarrow> (Fault, encoded, dec)))
      | Hd_qpack \<Rightarrow> headers_decode_field dec encoded
      | Hd_fin \<Rightarrow> (Err Internal, encoded, dec))"

section \<open>What the encoder hands out\<close>

text \<open>The fields of a list of headers as they follow each other in a block.\<close>

fun block_fields :: "(string \<Rightarrow> uint64) \<Rightarrow> qpack_state \<Rightarrow> header list \<Rightarrow> bytes list" where
  "block_fields xxh st [] = []"
| "block_fields xxh st (h # hs) = (block_prefix st @ field_wire xxh h) # block_fields xxh Header_due hs"

definition block_wire :: "(string \<Rightarrow> uint64) \<Rightarrow> header list \<Rightarrow> bytes" where
  "block_wire xxh hs = concat (block_fields xxh Prefix_due hs)"

definition headers_frame :: "bytes \<Rightarrow> frame" where
  "headers_frame block = Headers (word_of_nat (length block))"

text \<open>A client of the encoder: add the headers, then take \<open>n\<close> buffers.\<close>

fun add_headers ::
  "(string \<Rightarrow> uint64) \<Rightarrow> (nat \<Rightarrow> byte) \<Rightarrow> header list \<Rightarrow> headers_encoder \<Rightarrow> (unit, error) result \<times> headers_encoder" where
  "add_headers xxh junk [] enc = (Ok (), enc)"
| "add_headers xxh junk (h # hs) enc =
     try_state (headers_encoder_add xxh junk h enc) (\<lambda>_ enc. add_headers xxh junk hs enc)"

fun take_headers :: "(nat \<Rightarrow> byte) \<Rightarrow> nat \<Rightarrow> headers_encoder \<Rightarrow> (bytes list, error) result \<times> headers_encoder" where
  "take_headers junk 0 enc = (Ok [], enc)"
| "take_headers junk (Suc n) enc =
     try_state (headers_encoder_encode junk enc) (\<lambda>b enc.
     try_state (take_headers junk n enc) (\<lambda>bs enc.
     (Ok (b # bs), enc)))"

lemma field_wire_not_Nil: "field_ok xxh h \<Longrightarrow> field_wire xxh h \<noteq> []"
proof -
  assume "field_ok xxh h"
  obtain ty i where f: "find_index xxh h = (ty, i)" by (cases "find_index xxh h")
  then show ?thesis using find_index_not_unknown [of xxh h]
    by (cases ty) (simp_all add: field_wire_def prefix_wire_def literal_wire_def)
qed

text \<open>
  The invariant of an encoder that is still collecting: its buffers are the fields added so far, and
  the QPACK encoder has counted exactly their bytes.
\<close>

definition collected :: "(string \<Rightarrow> uint64) \<Rightarrow> header list \<Rightarrow> headers_encoder \<Rightarrow> bool" where
  "collected xxh hs enc \<longleftrightarrow>
     he_state enc = He_idle \<and> he_buffers enc = block_fields xxh Prefix_due hs \<and>
     qe_state (he_qpack enc) = (if hs = [] then Prefix_due else Header_due) \<and>
     qe_count (he_qpack enc) = word_of_nat (length (block_wire xxh hs))"

lemma collected_new: "collected xxh [] new_headers_encoder"
  by (simp add: collected_def new_headers_encoder_def new_qpack_encoder_def block_wire_def)

lemma block_fields_append:
  "block_fields xxh st (hs @ [h]) =
     block_fields xxh st hs @ [block_prefix (if hs = [] then st else Header_due) @ field_wire xxh h]"
  by (induction hs arbitrary: st) auto

lemma headers_encoder_add_eq:
  assumes c: "collected xxh hs enc" and ok: "field_ok xxh h"
  obtains enc' where "headers_encoder_add xxh junk h enc = (Ok (), enc')" "collected xxh (hs @ [h]) enc'"
proof -
  let ?bs = "block_prefix (qe_state (he_qpack enc)) @ field_wire xxh h"
  let ?enc = "enc\<lparr>he_qpack := encoder_after (he_qpack enc) ?bs, he_buffers := he_buffers enc @ [?bs]\<rparr>"
  have "headers_encoder_add xxh junk h enc = (Ok (), ?enc)"
    using c qpack_encode_buffer_eq [OF ok refl, of junk "he_qpack enc"]
    by (simp add: headers_encoder_add_def collected_def buffers_push_def)
  moreover have "collected xxh (hs @ [h]) ?enc"
    using c by (simp add: collected_def block_fields_append block_wire_def encoder_after_def add.assoc)
  ultimately show thesis by (rule that)
qed

lemma add_headers_eq:
  "collected xxh hs enc \<Longrightarrow> list_all (field_ok xxh) hs' \<Longrightarrow>
   \<exists>enc'. add_headers xxh junk hs' enc = (Ok (), enc') \<and> collected xxh (hs @ hs') enc'"
proof (induction hs' arbitrary: hs enc)
  case (Cons h hs')
  obtain enc1 where "headers_encoder_add xxh junk h enc = (Ok (), enc1)" "collected xxh (hs @ [h]) enc1"
    using headers_encoder_add_eq [OF Cons.prems(1), of h] Cons.prems(2) by auto
  then show ?case using Cons.IH [of "hs @ [h]" enc1] Cons.prems(2) by simp
qed simp

lemma take_fields:
  "he_state enc = He_qpack \<Longrightarrow> he_buffers enc = b # bs \<Longrightarrow> list_all (\<lambda>b. b \<noteq> []) (b # bs) \<Longrightarrow>
   take_headers junk (Suc (length bs)) enc =
     (Ok (b # bs), enc\<lparr>he_buffers := [], he_state := He_fin\<rparr>)"
proof (induction bs arbitrary: b enc)
  case Nil
  then show ?case by (simp add: headers_encoder_encode_def buffers_pop_Ok)
next
  case (Cons c bs)
  let ?enc = "enc\<lparr>he_buffers := c # bs, he_state := He_qpack\<rparr>"
  have "headers_encoder_encode junk enc = (Ok b, ?enc)"
    using Cons.prems by (simp add: headers_encoder_encode_def buffers_pop_Ok)
  moreover have "take_headers junk (Suc (length bs)) ?enc =
      (Ok (c # bs), ?enc\<lparr>he_buffers := [], he_state := He_fin\<rparr>)"
    by (rule Cons.IH) (use Cons.prems in simp_all)
  ultimately show ?case by simp
qed

lemma block_fields_not_Nil: "list_all (field_ok xxh) hs \<Longrightarrow> list_all (\<lambda>b. b \<noteq> []) (block_fields xxh st hs)"
  by (induction hs arbitrary: st) (simp_all add: field_wire_not_Nil)

lemma length_block_fields [simp]: "length (block_fields xxh st hs) = length hs"
  by (induction hs arbitrary: st) simp_all

lemma headers_frame_ok: "length block < 2 ^ 62 \<Longrightarrow> encodable_frame (headers_frame block) \<and>
    frame_first_member (headers_frame block) = Some (word_of_nat (length block)) \<and>
    unat (word_of_nat (length block) :: uint64) = length block"
proof -
  assume len: "length block < 2 ^ 62"
  then have u: "unat (word_of_nat (length block) :: uint64) = length block" by (simp add: unat_of_nat)
  then have "(word_of_nat (length block) :: uint64) < 2 ^ 62" using len by (subst word_less_2p_iff) simp_all
  then show ?thesis using u by (simp add: headers_frame_def encodable_frame_def frame_fits_def)
qed

lemma headers_encoder_run:
  assumes hs: "hs \<noteq> []" "list_all (field_ok xxh) hs" and len: "length (block_wire xxh hs) < 2 ^ 62"
  obtains enc where
    "try_state (add_headers xxh junk hs new_headers_encoder) (\<lambda>_ enc.
     try_state (headers_encoder_fin enc) (\<lambda>_ enc. take_headers junk (Suc (length hs)) enc)) =
       (Ok (frame_wire (headers_frame (block_wire xxh hs)) # block_fields xxh Prefix_due hs), enc)"
    "headers_encoder_finished enc"
proof -
  let ?f = "headers_frame (block_wire xxh hs)"
  obtain enc where enc: "add_headers xxh junk hs new_headers_encoder = (Ok (), enc)" "collected xxh hs enc"
    using add_headers_eq [OF collected_new hs(2)] by auto
  let ?enc = "enc\<lparr>he_state := He_qpack\<rparr>"
  obtain b bs where b: "block_fields xxh Prefix_due hs = b # bs" using hs(1) by (cases hs) auto
  then have len_bs: "Suc (length bs) = length hs"
    using length_block_fields [of xxh Prefix_due hs] by simp
  have "frame_encode_buffer junk ?f = Ok (frame_wire ?f)"
    using headers_frame_ok [OF len] by (simp add: frame_encode_buffer_eq encodable_frame_def)
  then have "headers_encoder_encode junk (enc\<lparr>he_state := He_frame\<rparr>) = (Ok (frame_wire ?f), ?enc)"
    using enc(2) by (simp add: headers_encoder_encode_def collected_def headers_frame_def)
  moreover have "take_headers junk (Suc (length bs)) ?enc =
      (Ok (b # bs), ?enc\<lparr>he_buffers := [], he_state := He_fin\<rparr>)"
    by (rule take_fields) (use enc(2) b block_fields_not_Nil [OF hs(2), of Prefix_due] in \<open>simp_all add: collected_def\<close>)
  ultimately have "take_headers junk (Suc (length hs)) (enc\<lparr>he_state := He_frame\<rparr>) =
      (Ok (frame_wire ?f # b # bs), ?enc\<lparr>he_buffers := [], he_state := He_fin\<rparr>)"
    by (simp add: len_bs [symmetric])
  then show thesis
    by (intro that [of "?enc\<lparr>he_buffers := [], he_state := He_fin\<rparr>"])
      (use enc b in \<open>simp_all add: headers_encoder_fin_def collected_def headers_encoder_finished_def\<close>)
qed

section \<open>What the decoder makes of it\<close>

lemma frame_peek_wire:
  assumes "seq_ok s" "seq_bytes s = frame_wire f @ rest"
  shows "frame_peek s = Ok (type_of f)"
proof -
  have "varint_decode (seq_lookahead s) = (Ok (frame_type_value (type_of f)),
      seq_drop (seq_lookahead s) (varint_size (frame_type_value (type_of f))))"
    using varint_decode_wire [of "seq_lookahead s"] assms by (simp add: frame_wire_def)
  then show ?thesis unfolding frame_peek_def by (subst frame_peek_loop.simps) simp
qed

text \<open>A client of the decoder: read \<open>n\<close> headers, with whether the block was finished after each.\<close>

fun read_headers ::
  "nat \<Rightarrow> headers_decoder \<Rightarrow> sequence \<Rightarrow> ((header \<times> bool) list, error) result \<times> sequence \<times> headers_decoder" where
  "read_headers 0 dec s = (Ok [], s, dec)"
| "read_headers (Suc n) dec s =
     try_state (headers_decode dec s) (\<lambda>h (s, dec).
     try_state (read_headers n dec s) (\<lambda>hs (s, dec').
     (Ok ((h, headers_decoder_finished dec) # hs), s, dec')))"

definition block_ok :: "(string \<Rightarrow> uint64) \<Rightarrow> header list \<Rightarrow> bool" where
  "block_ok xxh hs \<longleftrightarrow> list_all (\<lambda>h. hashes_apart xxh h \<and> field_ok xxh h) hs \<and> length (block_wire xxh hs) < 2 ^ 62"

text \<open>What a decoder in the middle of a block still has to count.\<close>

definition expecting :: "headers_decoder \<Rightarrow> nat \<Rightarrow> bool" where
  "expecting dec n \<longleftrightarrow>
     hd_state dec = Hd_qpack \<and> unat (qd_count (hd_qpack dec)) + n = unat (hd_size dec) \<and> unat (hd_size dec) < 2 ^ 62"

lemma count_add:
  assumes "unat (a :: uint64) + n = unat (b :: uint64)" "m \<le> n"
  shows "unat (a + word_of_nat m) = unat a + m"
proof -
  have "unat b < 2 ^ 64" using unsigned_less [of b] by simp
  then have "unat a + m < 2 ^ 64" using assms by linarith
  moreover have "unat (word_of_nat m :: uint64) = m" using calculation by (simp add: unat_of_nat)
  ultimately show ?thesis by (simp add: unat_word_ariths)
qed

lemma headers_decode_field_eq:
  fixes dec h
  assumes h: "reads qpack_field bs h" and s: "seq_ok s"
      "seq_bytes s = block_prefix (qd_state (hd_qpack dec)) @ bs @ rest"
    and e: "expecting dec (length (block_prefix (qd_state (hd_qpack dec)) @ bs) + n)"
  shows "\<exists>s' dec'. headers_decode_field dec s = (Ok h, s', dec') \<and> seq_ok s' \<and> seq_bytes s' = rest \<and>
    qd_state (hd_qpack dec') = Header_due \<and>
    (if n = 0 then headers_decoder_finished dec' else expecting dec' n)"
proof -
  let ?bs = "block_prefix (qd_state (hd_qpack dec)) @ bs"
  obtain s' where s': "qpack_decode (hd_qpack dec) s = (Ok h, s', decoder_after (hd_qpack dec) ?bs)"
      "seq_ok s'" "seq_bytes s' = rest"
    using qpack_decode_wire [OF h s] by auto
  have count: "unat (qd_count (decoder_after (hd_qpack dec) ?bs)) = unat (qd_count (hd_qpack dec)) + length ?bs"
    using e count_add [of "qd_count (hd_qpack dec)" "length ?bs + n" "hd_size dec" "length ?bs"]
    by (simp add: decoder_after_def expecting_def)
  then have le: "\<not> hd_size dec < qd_count (decoder_after (hd_qpack dec) ?bs)"
    using e by (simp add: word_less_nat_alt expecting_def)
  have eq: "qd_count (decoder_after (hd_qpack dec) ?bs) = hd_size dec \<longleftrightarrow> n = 0"
    using e unfolding word_unat_eq_iff count expecting_def length_append by linarith
  let ?dec = "dec\<lparr>hd_qpack := decoder_after (hd_qpack dec) ?bs,
      hd_state := (if n = 0 then Hd_fin else hd_state dec)\<rparr>"
  have "headers_decode_field dec s = (Ok h, s', ?dec)"
    using s'(1) le eq by (simp add: headers_decode_field_def Let_def)
  moreover have "qd_state (hd_qpack ?dec) = Header_due" by (simp add: decoder_after_def)
  moreover have "if n = 0 then headers_decoder_finished ?dec else expecting ?dec n"
    using e count by (simp add: headers_decoder_finished_def expecting_def)
  ultimately show ?thesis using s'(2,3) by blast
qed

lemma read_fields:
  "hs \<noteq> [] \<Longrightarrow> list_all (\<lambda>h. hashes_apart xxh h \<and> field_ok xxh h) hs \<Longrightarrow>
   expecting dec (length (concat (block_fields xxh (qd_state (hd_qpack dec)) hs))) \<Longrightarrow> seq_ok s \<Longrightarrow>
   seq_bytes s = concat (block_fields xxh (qd_state (hd_qpack dec)) hs) @ rest \<Longrightarrow>
   \<exists>s' dec'. read_headers (length hs) dec s = (Ok (zip hs (replicate (length hs - 1) False @ [True])), s', dec') \<and>
     seq_ok s' \<and> seq_bytes s' = rest \<and> headers_decoder_finished dec'"
proof (induction hs arbitrary: dec s)
  case (Cons h hs)
  let ?st = "qd_state (hd_qpack dec)" and ?tail = "concat (block_fields xxh Header_due hs)"
  have R: "reads qpack_field (field_wire xxh h) h" using qpack_field_wire(1) Cons.prems(2) by simp
  have bytes: "seq_bytes s = block_prefix ?st @ field_wire xxh h @ ?tail @ rest"
    using Cons.prems(5) by simp
  have e: "expecting dec (length (block_prefix ?st @ field_wire xxh h) + length ?tail)"
    using Cons.prems(3) by (simp add: add.assoc)
  have st: "hd_state dec = Hd_qpack" using e by (simp add: expecting_def)
  obtain s' dec' where d: "headers_decode_field dec s = (Ok h, s', dec')" "seq_ok s'" "seq_bytes s' = ?tail @ rest"
      "qd_state (hd_qpack dec') = Header_due"
      "if length ?tail = 0 then headers_decoder_finished dec' else expecting dec' (length ?tail)"
    using headers_decode_field_eq [OF R Cons.prems(4) bytes e] by blast
  then have dec: "headers_decode dec s = (Ok h, s', dec')" using st by (simp add: headers_decode_def)
  show ?case
  proof (cases "hs = []")
    case True
    then show ?thesis using dec d by simp
  next
    case False
    then obtain g gs where hs: "hs = g # gs" by (cases hs) auto
    then have "field_wire xxh g \<noteq> []" using Cons.prems(2) by (simp add: field_wire_not_Nil)
    then have tail: "length ?tail \<noteq> 0" using hs by simp
    then have "expecting dec' (length ?tail)" using d(5) by simp
    moreover have "\<not> headers_decoder_finished dec'"
      using calculation by (simp add: expecting_def headers_decoder_finished_def)
    moreover obtain s'' dec'' where "read_headers (length hs) dec' s' =
        (Ok (zip hs (replicate (length hs - 1) False @ [True])), s'', dec'')" "seq_ok s''" "seq_bytes s'' = rest"
        "headers_decoder_finished dec''"
      using Cons.IH [OF False, of dec' s'] Cons.prems(2) calculation(1) d(2-4) by auto
    ultimately show ?thesis using dec hs by simp
  qed
qed simp

lemma read_headers_wire:
  assumes hs: "hs \<noteq> []" "block_ok xxh hs"
    and s: "seq_ok s" "seq_bytes s = frame_wire (headers_frame (block_wire xxh hs)) @ block_wire xxh hs @ rest"
  shows "\<exists>s' dec'. read_headers (length hs) new_headers_decoder s =
      (Ok (zip hs (replicate (length hs - 1) False @ [True])), s', dec') \<and>
    seq_ok s' \<and> seq_bytes s' = rest \<and> headers_decoder_finished dec'"
proof -
  let ?w = "block_wire xxh hs" let ?f = "headers_frame ?w"
  have fields: "list_all (\<lambda>h. hashes_apart xxh h \<and> field_ok xxh h) hs" and len: "length ?w < 2 ^ 62"
    using hs(2) by (simp_all add: block_ok_def)
  note f = headers_frame_ok [OF len]
  let ?s = "seq_drop s (length (frame_wire ?f))"
  let ?dec = "new_headers_decoder\<lparr>hd_state := Hd_qpack, hd_size := word_of_nat (length ?w)\<rparr>"
  have peek: "frame_peek s = Ok Headers_type" using frame_peek_wire [OF s] by (simp add: headers_frame_def)
  have dec: "frame_decode s = (Ok ?f, ?s)" using frame_decode_wire [OF _ s] f by simp
  have "?w \<noteq> []"
    using hs(1) fields by (cases hs) (auto simp: block_wire_def dest: field_wire_not_Nil)
  then have size: "(word_of_nat (length ?w) :: uint64) \<noteq> 0" using f by (auto simp: word_unat_eq_iff)
  have first: "headers_decode new_headers_decoder s = headers_decode ?dec ?s"
    using peek dec f size by (simp add: headers_decode_def new_headers_decoder_def)
  obtain n where n: "length hs = Suc n" using hs(1) by (cases hs) auto
  have "read_headers (length hs) new_headers_decoder s = read_headers (length hs) ?dec ?s"
    unfolding n by (simp add: first)
  moreover have "\<exists>s' dec'. read_headers (length hs) ?dec ?s =
      (Ok (zip hs (replicate (length hs - 1) False @ [True])), s', dec') \<and>
      seq_ok s' \<and> seq_bytes s' = rest \<and> headers_decoder_finished dec'"
    by (rule read_fields [OF hs(1) fields])
      (use s f len in \<open>simp_all add: expecting_def new_headers_decoder_def new_qpack_decoder_def block_wire_def\<close>)
  ultimately show ?thesis by simp
qed

section \<open>Properties\<close>

text \<open>
  C10. A header block makes the trip: the encoder turns a non-empty list of headers into a HEADERS frame
  and one buffer per header, and the decoder, reading them from any container and with anything behind
  them, returns the headers in order, takes exactly the block, and is finished after the last header
  and not before.
\<close>

theorem headers_round_trip:
  assumes "hs \<noteq> []" and "block_ok xxh hs"
    and "try_state (add_headers xxh junk hs new_headers_encoder) (\<lambda>_ enc.
         try_state (headers_encoder_fin enc) (\<lambda>_ enc. take_headers junk (Suc (length hs)) enc)) = (r, enc)"
    and "seq_ok s" and "seq_bytes s = frame_wire (headers_frame (block_wire xxh hs)) @ block_wire xxh hs @ rest"
  shows "\<exists>chunks. r = Ok chunks \<and> headers_encoder_finished enc \<and> seq_bytes s = concat chunks @ rest \<and>
    (\<exists>s' dec. read_headers (length hs) new_headers_decoder s =
        (Ok (zip hs (replicate (length hs - 1) False @ [True])), s', dec) \<and>
       seq_ok s' \<and> seq_bytes s' = rest \<and> headers_decoder_finished dec)"
proof -
  have ok: "list_all (field_ok xxh) hs" "length (block_wire xxh hs) < 2 ^ 62"
    using assms(2) by (auto simp: block_ok_def list_all_iff)
  obtain enc' where "(r, enc) = (Ok (frame_wire (headers_frame (block_wire xxh hs)) # block_fields xxh Prefix_due hs), enc')"
      "headers_encoder_finished enc'"
    using headers_encoder_run [OF assms(1) ok, of junk] assms(3) by metis
  then show ?thesis using read_headers_wire [OF assms(1,2,4,5)] assms(5)
    by (auto simp: block_wire_def)
qed

lemma sample_block_wire:
  "block_wire sample_hash [make_header ''age'' ''0''] = [0, 0, 0xc2]"
proof -
  have "find_index sample_hash (make_header ''age'' ''0'') = (Header_value, 2)"
    by (simp add: find_index_eq sample_hash_def name_cases_rows)
  then show ?thesis
    by (simp add: block_wire_def block_prefix_def field_wire_def prefix_wire_def mask_eq_exp_minus_1)
qed

lemma sample_block_ok: "block_ok sample_hash [make_header ''age'' ''0'']"
  by (simp add: block_ok_def sample_hash_apart sample_field_ok sample_block_wire)

theorem headers_round_trip_witness:
  "\<exists>chunks. fst (try_state (add_headers sample_hash (\<lambda>_. 0) [make_header ''age'' ''0''] new_headers_encoder) (\<lambda>_ enc.
         try_state (headers_encoder_fin enc) (\<lambda>_ enc. take_headers (\<lambda>_. 0) 2 enc))) = Ok chunks \<and>
    [1, 3, 0, 0, 0xc2, 9] = concat chunks @ [9 :: byte] \<and>
    (\<exists>s' dec. read_headers 1 new_headers_decoder (Buffers_seq [[1, 3, 0], [0, 0xc2], [9]]) =
        (Ok [(make_header ''age'' ''0'', True)], s', dec) \<and> seq_bytes s' = [9] \<and> headers_decoder_finished dec)"
proof -
  let ?hs = "[make_header ''age'' ''0'']"
  obtain r enc where run: "try_state (add_headers sample_hash (\<lambda>_. 0) ?hs new_headers_encoder) (\<lambda>_ enc.
         try_state (headers_encoder_fin enc) (\<lambda>_ enc. take_headers (\<lambda>_. 0) (Suc (length ?hs)) enc)) = (r, enc)"
    by (cases "try_state (add_headers sample_hash (\<lambda>_. 0) ?hs new_headers_encoder) (\<lambda>_ enc.
         try_state (headers_encoder_fin enc) (\<lambda>_ enc. take_headers (\<lambda>_. 0) (Suc (length ?hs)) enc))")
  have f: "frame_wire (headers_frame (block_wire sample_hash ?hs)) = [1, 3]"
    by (simp add: sample_block_wire headers_frame_def frame_wire_def varint_wire_def varint_size_def
        varints_wire_def be_bytes_enum)
  have bytes: "seq_bytes (Buffers_seq [[1, 3, 0], [0, 0xc2], [9]]) =
      frame_wire (headers_frame (block_wire sample_hash ?hs)) @ block_wire sample_hash ?hs @ [9]"
    by (simp only: f) (simp add: sample_block_wire)
  have two: "Suc (length ?hs) = 2" by simp
  from headers_round_trip [OF _ sample_block_ok run _ bytes] run
  show ?thesis unfolding two by auto
qed

text \<open>
  An encoder that is finished without a header cannot be drained: it hands out a HEADERS frame of
  size zero, which a decoder rejects as malformed, and its next call takes a buffer from an empty list.
\<close>

theorem headers_encoder_empty_block:
  "headers_encoder_encode junk (snd (headers_encoder_fin new_headers_encoder)) =
     (Ok [1, 0], new_headers_encoder\<lparr>he_state := He_qpack\<rparr>) \<and>
   fst (headers_encoder_encode junk (new_headers_encoder\<lparr>he_state := He_qpack\<rparr>)) = Fault \<and>
   fst (headers_decode new_headers_decoder (Buffers_seq [[1, 0]])) = Err Malformed_frame"
proof -
  have f: "frame_wire (Headers 0) = [1, 0]"
    by (simp add: frame_wire_def varint_wire_def varint_size_def varints_wire_def be_bytes_enum)
  have ok: "encodable_frame (Headers 0)" by (simp add: encodable_frame_def frame_fits_def)
  let ?s = "Buffers_seq [[1, 0]]"
  have s: "seq_ok ?s" "seq_bytes ?s = frame_wire (Headers 0) @ []" by (simp_all add: f)
  have "frame_peek ?s = Ok Headers_type" using frame_peek_wire [OF s] by simp
  moreover have "frame_decode ?s = (Ok (Headers 0), seq_drop ?s (length (frame_wire (Headers 0))))"
    by (rule frame_decode_wire [OF ok s])
  ultimately have "fst (headers_decode new_headers_decoder ?s) = Err Malformed_frame"
    by (simp add: headers_decode_def new_headers_decoder_def)
  moreover have "frame_encode_buffer junk (Headers 0) = Ok [1, 0]"
    using ok by (simp add: frame_encode_buffer_eq encodable_frame_def f)
  ultimately show ?thesis
    by (simp add: headers_encoder_encode_def headers_encoder_fin_def new_headers_encoder_def
        new_qpack_encoder_def buffers_pop_def)
qed

end
