(* ===== verification/Body_Codec.thy ===== *)
theory Body_Codec
  imports Headers_Codec
begin

text \<open>
  The body of a message (\<open>codec/body.cpp\<close>): the encoder puts a DATA frame before each buffer, the
  decoder hands out the payloads of DATA frames in the parts in which they arrive.
\<close>

section \<open>encoder\<close>

datatype body_encoder_state = Be_frame | Be_data | Be_fin

record body_encoder =
  be_state :: body_encoder_state
  be_fin :: bool
  be_buffers :: buffers

definition new_body_encoder :: body_encoder where
  "new_body_encoder = \<lparr> be_state = Be_frame, be_fin = False, be_buffers = [] \<rparr>"

definition body_encoder_add :: "bytes \<Rightarrow> body_encoder \<Rightarrow> (unit, error) result \<times> body_encoder" where
  "body_encoder_add body enc =
     (if be_fin enc then (Err Internal, enc)
      else (Ok (), enc\<lparr>be_buffers := buffers_push (be_buffers enc) body\<rparr>))"

definition body_encoder_fin :: "body_encoder \<Rightarrow> (unit, error) result \<times> body_encoder" where
  "body_encoder_fin enc =
     (if be_state enc = Be_fin then (Err Internal, enc)
      else
        let enc = enc\<lparr>be_fin := True\<rparr> in
        (Ok (), if buffers_empty (be_buffers enc) then enc\<lparr>be_state := Be_fin\<rparr> else enc))"

definition body_encoder_finished :: "body_encoder \<Rightarrow> bool" where
  "body_encoder_finished enc \<longleftrightarrow> be_state enc = Be_fin"

definition body_encoder_encode ::
  "(nat \<Rightarrow> byte) \<Rightarrow> body_encoder \<Rightarrow> (bytes, error) result \<times> body_encoder" where
  "body_encoder_encode junk enc =
     (case be_state enc of
        Be_frame \<Rightarrow>
          (if buffers_empty (be_buffers enc) then (Err Idle, enc)
           else
             try_in enc (or_fault (buffers_front (be_buffers enc))) (\<lambda>front.
             try_in enc (frame_encode_buffer junk (Data (word_of_nat (buffer_size front)))) (\<lambda>encoded.
             (Ok encoded, enc\<lparr>be_state := Be_data\<rparr>))))
      | Be_data \<Rightarrow>
          try_in enc (or_fault (buffers_pop (be_buffers enc))) (\<lambda>(body, bs).
          (Ok body, enc\<lparr>be_buffers := bs,
             be_state := (if be_fin enc \<and> buffers_empty bs then Be_fin else Be_frame)\<rparr>))
      | Be_fin \<Rightarrow> (Err Internal, enc))"

section \<open>decoder\<close>

datatype body_decoder_state = Bd_frame | Bd_data

record body_decoder =
  bd_state :: body_decoder_state
  bd_remaining :: uint64

definition new_body_decoder :: body_decoder where
  "new_body_decoder = \<lparr> bd_state = Bd_frame, bd_remaining = 0 \<rparr>"

definition body_decoder_in_progress :: "body_decoder \<Rightarrow> bool" where
  "body_decoder_in_progress dec \<longleftrightarrow> bd_state dec = Bd_data"

text \<open>\<open>slice\<close> of the two containers the decoder is instantiated for; a lookahead has none.\<close>

fun seq_slice :: "sequence \<Rightarrow> nat \<Rightarrow> (bytes \<times> sequence) option" where
  "seq_slice (Buffer_seq b) n = do { (result, b') \<leftarrow> buffer_slice b n; Some (result, Buffer_seq b') }"
| "seq_slice (Buffers_seq bs) n = do { (result, bs') \<leftarrow> buffers_slice bs n; Some (result, Buffers_seq bs') }"
| "seq_slice _ n = None"

definition body_decode_part ::
  "body_decoder \<Rightarrow> sequence \<Rightarrow> (bytes, error) result \<times> sequence \<times> body_decoder" where
  "body_decode_part dec encoded =
     (if seq_empty encoded then (Err Incomplete, encoded, dec)
      else
        let body_part_size =
          (if seq_size encoded < unat (bd_remaining dec) then seq_size encoded else unat (bd_remaining dec))
        in try_in (encoded, dec) (or_fault (seq_slice encoded body_part_size)) (\<lambda>(body_part, encoded).
           let dec = dec\<lparr>bd_remaining := bd_remaining dec - word_of_nat body_part_size\<rparr> in
           if \<not> (seq_empty encoded \<or> bd_remaining dec = 0) then (Fault, encoded, dec)
           else (Ok body_part, encoded,
                 dec\<lparr>bd_state := (if bd_remaining dec = 0 then Bd_frame else bd_state dec)\<rparr>)))"

definition body_decode ::
  "body_decoder \<Rightarrow> sequence \<Rightarrow> (bytes, error) result \<times> sequence \<times> body_decoder" where
  "body_decode dec encoded =
     (case bd_state dec of
        Bd_frame \<Rightarrow>
          try_in (encoded, dec) (frame_peek encoded) (\<lambda>type.
          if type \<noteq> Data_type then (Err Delegate, encoded, dec)
          else (case frame_decode encoded of
              (Ok frame, encoded) \<Rightarrow>
                let dec = dec\<lparr>bd_state := Bd_data\<rparr> in
                try_in (encoded, dec) (or_fault (frame_first_member frame)) (\<lambda>n.
                body_decode_part (dec\<lparr>bd_remaining := n\<rparr>) encoded)
            | (Err e, encoded) \<Rightarrow> (Err e, encoded, dec)
            | (Fault, encoded) \<Rightarrow> (Fault, encoded, dec)))
      | Bd_data \<Rightarrow> body_decode_part dec encoded)"

section \<open>What the encoder hands out\<close>

definition data_frame :: "bytes \<Rightarrow> frame" where
  "data_frame body = Data (word_of_nat (length body))"

definition body_chunks :: "bytes list \<Rightarrow> bytes list" where
  "body_chunks bodies = concat (map (\<lambda>b. [frame_wire (data_frame b), b]) bodies)"

definition body_ok :: "bytes \<Rightarrow> bool" where
  "body_ok b \<longleftrightarrow> b \<noteq> [] \<and> length b < 2 ^ 62"

fun add_bodies :: "bytes list \<Rightarrow> body_encoder \<Rightarrow> (unit, error) result \<times> body_encoder" where
  "add_bodies [] enc = (Ok (), enc)"
| "add_bodies (b # bs) enc = try_state (body_encoder_add b enc) (\<lambda>_ enc. add_bodies bs enc)"

fun take_bodies :: "(nat \<Rightarrow> byte) \<Rightarrow> nat \<Rightarrow> body_encoder \<Rightarrow> (bytes list, error) result \<times> body_encoder" where
  "take_bodies junk 0 enc = (Ok [], enc)"
| "take_bodies junk (Suc n) enc =
     try_state (body_encoder_encode junk enc) (\<lambda>b enc.
     try_state (take_bodies junk n enc) (\<lambda>bs enc.
     (Ok (b # bs), enc)))"

lemma data_frame_ok:
  assumes "length b < 2 ^ 62"
  shows "encodable_frame (data_frame b)" "unat (word_of_nat (length b) :: uint64) = length b"
    "frame_encode_buffer junk (data_frame b) = Ok (frame_wire (data_frame b))"
proof -
  show u: "unat (word_of_nat (length b) :: uint64) = length b" using assms by (simp add: unat_of_nat)
  have "(word_of_nat (length b) :: uint64) < 2 ^ 62" using assms u by (subst word_less_2p_iff) simp_all
  then show "encodable_frame (data_frame b)" "frame_encode_buffer junk (data_frame b) = Ok (frame_wire (data_frame b))"
    by (simp_all add: data_frame_def encodable_frame_def frame_fits_def frame_encode_buffer_eq)
qed

lemma add_bodies_eq:
  "\<not> be_fin enc \<Longrightarrow> add_bodies bs enc = (Ok (), enc\<lparr>be_buffers := be_buffers enc @ bs\<rparr>)"
  by (induction bs arbitrary: enc) (simp_all add: body_encoder_add_def buffers_push_def)

lemma take_bodies_eq:
  "be_state enc = Be_frame \<Longrightarrow> be_fin enc \<Longrightarrow> be_buffers enc = b # bs \<Longrightarrow> list_all body_ok (b # bs) \<Longrightarrow>
   take_bodies junk (2 * Suc (length bs)) enc =
     (Ok (body_chunks (b # bs)), enc\<lparr>be_buffers := [], be_state := Be_fin\<rparr>)"
proof (induction bs arbitrary: b enc)
  case Nil
  then show ?case
    by (simp add: body_encoder_encode_def buffers_front_def buffers_pop_Ok body_ok_def body_chunks_def
        data_frame_def [symmetric] data_frame_ok numeral_2_eq_2)
next
  case (Cons c bs)
  let ?enc = "enc\<lparr>be_buffers := c # bs, be_state := Be_frame\<rparr>"
  have "body_encoder_encode junk enc = (Ok (frame_wire (data_frame b)), enc\<lparr>be_state := Be_data\<rparr>)"
    using Cons.prems by (simp add: body_encoder_encode_def buffers_front_def body_ok_def
        data_frame_def [symmetric] data_frame_ok)
  moreover have "body_encoder_encode junk (enc\<lparr>be_state := Be_data\<rparr>) = (Ok b, ?enc)"
    using Cons.prems by (simp add: body_encoder_encode_def buffers_pop_Ok body_ok_def)
  moreover have "take_bodies junk (2 * Suc (length bs)) ?enc =
      (Ok (body_chunks (c # bs)), ?enc\<lparr>be_buffers := [], be_state := Be_fin\<rparr>)"
    by (rule Cons.IH) (use Cons.prems in simp_all)
  ultimately show ?case by (simp add: body_chunks_def)
qed

section \<open>What the decoder makes of it\<close>

lemma seq_slice_eq:
  assumes "\<not> is_lookahead s" "n \<le> length (seq_bytes s)" "seq_bytes s \<noteq> []"
  obtains s' where "seq_slice s n = Some (take n (seq_bytes s), s')" "seq_bytes s' = drop n (seq_bytes s)"
    "seq_ok s'" "\<not> is_lookahead s'"
proof (cases s)
  case (Buffer_seq b)
  then show thesis using that [of "Buffer_seq (drop n b)"] assms by (simp add: buffer_slice_eq)
next
  case (Buffers_seq bs)
  then obtain bs' where "buffers_slice bs n = Some (take n (concat bs), bs')" "concat bs' = drop n (concat bs)"
    using buffers_slice_Ok [of n bs] assms by auto
  then show thesis using that [of "Buffers_seq bs'"] Buffers_seq by simp
qed (use assms in simp_all)

lemma remaining_after: "n \<le> unat r \<Longrightarrow> unat (r - word_of_nat n :: uint64) = unat r - n"
proof -
  assume n: "n \<le> unat r"
  have "unat r < 2 ^ 64" using unsigned_less [of r] by simp
  then have u: "unat (word_of_nat n :: uint64) = n" using n by (simp add: unat_of_nat)
  then have "word_of_nat n \<le> r" using n by (simp add: word_le_nat_alt)
  then show ?thesis using u by (simp add: unat_sub)
qed

text \<open>
  One call in the middle of a frame: it hands out what has arrived of the payload and never more.
\<close>

lemma body_decode_part_eq:
  assumes s: "seq_ok s" "\<not> is_lookahead s" "seq_bytes s \<noteq> []"
    and n: "n = min (length (seq_bytes s)) (unat (bd_remaining dec))"
  shows "\<exists>s'. body_decode_part dec s =
      (Ok (take n (seq_bytes s)), s',
       \<lparr> bd_state = (if n = unat (bd_remaining dec) then Bd_frame else bd_state dec),
         bd_remaining = bd_remaining dec - word_of_nat n \<rparr>) \<and>
    seq_bytes s' = drop n (seq_bytes s) \<and> seq_ok s' \<and> \<not> is_lookahead s'"
proof -
  obtain s' where s': "seq_slice s n = Some (take n (seq_bytes s), s')" "seq_bytes s' = drop n (seq_bytes s)"
    "seq_ok s'" "\<not> is_lookahead s'"
    using seq_slice_eq [OF s(2) _ s(3), of n] n by auto
  have size: "(if seq_size s < unat (bd_remaining dec) then seq_size s else unat (bd_remaining dec)) = n"
    using s(1) by (simp add: n min_def)
  have le: "n \<le> unat (bd_remaining dec)" by (simp add: n)
  have zero: "bd_remaining dec - word_of_nat n = 0 \<longleftrightarrow> n = unat (bd_remaining dec)"
    using remaining_after [OF le] le by (auto simp: word_unat_eq_iff)
  have "seq_bytes s' = [] \<or> n = unat (bd_remaining dec)" using s'(2) by (auto simp: n min_def)
  then have "body_decode_part dec s =
      (Ok (take n (seq_bytes s)), s',
       \<lparr> bd_state = (if n = unat (bd_remaining dec) then Bd_frame else bd_state dec),
         bd_remaining = bd_remaining dec - word_of_nat n \<rparr>)"
    using s s' zero unfolding body_decode_part_def size Let_def by (cases dec) simp
  then show ?thesis using s' by blast
qed

fun read_bodies ::
  "nat \<Rightarrow> body_decoder \<Rightarrow> sequence \<Rightarrow> (bytes list, error) result \<times> sequence \<times> body_decoder" where
  "read_bodies 0 dec s = (Ok [], s, dec)"
| "read_bodies (Suc n) dec s =
     try_state (body_decode dec s) (\<lambda>b (s, dec).
     try_state (read_bodies n dec s) (\<lambda>bs (s, dec).
     (Ok (b # bs), s, dec)))"

lemma body_decode_frame:
  assumes st: "bd_state dec = Bd_frame" and b: "body_ok b"
    and s: "seq_ok s" "\<not> is_lookahead s" "seq_bytes s = frame_wire (data_frame b) @ b @ rest"
  shows "\<exists>s'. body_decode dec s = (Ok b, s', \<lparr> bd_state = Bd_frame, bd_remaining = 0 \<rparr>) \<and>
    seq_bytes s' = rest \<and> seq_ok s' \<and> \<not> is_lookahead s'"
proof -
  have len: "length b < 2 ^ 62" "b \<noteq> []" using b by (simp_all add: body_ok_def)
  note f = data_frame_ok [OF len(1)]
  let ?s = "seq_drop s (length (frame_wire (data_frame b)))"
  let ?dec = "\<lparr> bd_state = Bd_data, bd_remaining = word_of_nat (length b) \<rparr>"
  have "frame_peek s = Ok Data_type" using frame_peek_wire [OF s(1,3)] by (simp add: data_frame_def)
  moreover have "frame_decode s = (Ok (data_frame b), ?s)" by (rule frame_decode_wire [OF f(1) s(1,3)])
  ultimately have "body_decode dec s = body_decode_part ?dec ?s"
    using st by (cases dec) (simp add: body_decode_def data_frame_def)
  moreover have s2: "seq_ok ?s" "\<not> is_lookahead ?s" "seq_bytes ?s = b @ rest" using s by simp_all
  moreover have "length b = min (length (seq_bytes ?s)) (unat (bd_remaining ?dec))" "seq_bytes ?s \<noteq> []"
    using s2(3) len(2) f(2) by simp_all
  from body_decode_part_eq [OF s2(1,2) this(2,1)]
  have "\<exists>s'. body_decode_part ?dec ?s = (Ok b, s', \<lparr> bd_state = Bd_frame, bd_remaining = 0 \<rparr>) \<and>
      seq_bytes s' = rest \<and> seq_ok s' \<and> \<not> is_lookahead s'"
    using s2(3) f(2) by simp
  ultimately show ?thesis by simp
qed

lemma read_bodies_eq:
  "bd_state dec = Bd_frame \<Longrightarrow> list_all body_ok bs \<Longrightarrow> seq_ok s \<Longrightarrow> \<not> is_lookahead s \<Longrightarrow>
   seq_bytes s = concat (body_chunks bs) @ rest \<Longrightarrow>
   \<exists>s' dec'. read_bodies (length bs) dec s = (Ok bs, s', dec') \<and> seq_bytes s' = rest \<and>
     \<not> body_decoder_in_progress dec'"
proof (induction bs arbitrary: dec s)
  case Nil
  then show ?case by (simp add: body_chunks_def body_decoder_in_progress_def)
next
  case (Cons b bs)
  have bytes: "seq_bytes s = frame_wire (data_frame b) @ b @ concat (body_chunks bs) @ rest"
    using Cons.prems(5) by (simp add: body_chunks_def)
  have b: "body_ok b" using Cons.prems(2) by simp
  obtain s' where s': "body_decode dec s = (Ok b, s', \<lparr> bd_state = Bd_frame, bd_remaining = 0 \<rparr>)"
    "seq_bytes s' = concat (body_chunks bs) @ rest" "seq_ok s'" "\<not> is_lookahead s'"
    using body_decode_frame [OF Cons.prems(1) b Cons.prems(3,4) bytes] by blast
  then show ?case using Cons.IH [of "\<lparr> bd_state = Bd_frame, bd_remaining = 0 \<rparr>" s'] Cons.prems(1,2) by auto
qed

lemma seq_consume_container: "seq_consume (Buffers_seq bs) n = Some s' \<Longrightarrow> \<exists>bs'. s' = Buffers_seq bs'"
  by auto

lemma frame_decode_container_kind: "frame_decode (Buffers_seq bs) = (r, s') \<Longrightarrow> \<exists>bs'. s' = Buffers_seq bs'"
proof (induction "seq_size (Buffers_seq bs)" arbitrary: bs rule: less_induct)
  case less
  show ?case
  proof (cases "decode_single (seq_lookahead (Buffers_seq bs))")
    case (Pair r1 l)
    show ?thesis
    proof (cases "r1 = Err Delegate")
      case True
      show ?thesis
      proof (cases "seq_consume (Buffers_seq bs) (seq_consumed l)")
        case None
        then show ?thesis using less.prems Pair True by (subst (asm) frame_decode.simps) auto
      next
        case (Some t)
        then obtain bs1 where t: "t = Buffers_seq bs1" by auto
        have "decode_single (seq_lookahead (Buffers_seq bs)) = (Err Delegate, l)" using Pair True by simp
        then have "seq_size t < seq_size (Buffers_seq bs)" using delegate_shrinks Some by metis
        then show ?thesis using less.hyps [of bs1] less.prems Pair True Some t
          by (subst (asm) (2) frame_decode.simps) auto
      qed
    next
      case False
      then show ?thesis using less.prems Pair
        by (subst (asm) frame_decode.simps) (auto split: result.splits option.splits)
    qed
  qed
qed

lemma body_decode_part_container:
  "body_decode_part dec (Buffers_seq bs) = (r, s', dec') \<Longrightarrow> \<exists>bs'. s' = Buffers_seq bs'"
  by (auto simp: body_decode_part_def Let_def try_in_def or_fault_def
      split: if_splits option.splits result.splits prod.splits bind_splits)

lemma body_decode_container:
  "body_decode dec (Buffers_seq bs) = (r, s', dec') \<Longrightarrow> \<exists>bs'. s' = Buffers_seq bs'"
  by (auto simp: body_decode_def Let_def try_in_def or_fault_def
      dest: frame_decode_container_kind body_decode_part_container
      split: if_splits option.splits result.splits prod.splits body_decoder_state.splits)

text \<open>
  A frame whose payload arrives in parts: after each part is pushed to the buffers, one call hands it
  out.
\<close>

fun feed_parts ::
  "bytes list \<Rightarrow> body_decoder \<Rightarrow> buffers \<Rightarrow> (bytes list, error) result \<times> buffers \<times> body_decoder" where
  "feed_parts [] dec bs = (Ok [], bs, dec)"
| "feed_parts (p # ps) dec bs =
     (case body_decode dec (Buffers_seq (buffers_push bs p)) of
        (Ok b, Buffers_seq bs, dec) \<Rightarrow>
          try_state (feed_parts ps dec bs) (\<lambda>qs (bs, dec). (Ok (b # qs), bs, dec))
      | (Err e, _, dec) \<Rightarrow> (Err e, bs, dec)
      | (_, _, dec) \<Rightarrow> (Fault, bs, dec))"

lemma feed_parts_eq:
  "bd_state dec = Bd_data \<Longrightarrow> list_all (\<lambda>p. p \<noteq> []) ps \<Longrightarrow> ps \<noteq> [] \<Longrightarrow>
   unat (bd_remaining dec) = length (concat ps) \<Longrightarrow> concat bs = [] \<Longrightarrow>
   \<exists>bs' dec'. feed_parts ps dec bs = (Ok ps, bs', dec') \<and> concat bs' = [] \<and>
     \<not> body_decoder_in_progress dec'"
proof (induction ps arbitrary: dec bs)
  case (Cons p ps)
  let ?s = "Buffers_seq (buffers_push bs p)" and ?rem = "bd_remaining dec"
  let ?dec = "\<lparr> bd_state = (if length p = unat ?rem then Bd_frame else Bd_data),
      bd_remaining = ?rem - word_of_nat (length p) \<rparr>"
  have n: "length p = min (length (seq_bytes ?s)) (unat ?rem)"
    using Cons.prems(4,5) by (simp del: concat_eq_Nil_conv)
  have ne: "seq_bytes ?s \<noteq> []" using Cons.prems(2,5) by (simp del: concat_eq_Nil_conv)
  obtain s' where s': "body_decode dec ?s = (Ok p, s', ?dec)" "seq_bytes s' = []"
    using body_decode_part_eq [OF _ _ ne n] Cons.prems(1,5) by (auto simp: body_decode_def)
  obtain bs1 where bs1: "s' = Buffers_seq bs1" "concat bs1 = []"
    using body_decode_container [OF s'(1)] s'(2) by auto
  show ?case
  proof (cases "ps = []")
    case True
    then show ?thesis using s' bs1 Cons.prems(4) by (simp add: body_decoder_in_progress_def)
  next
    case False
    have "concat ps \<noteq> []" using False Cons.prems(2) by (cases ps) auto
    then have lt: "length p < unat ?rem" using Cons.prems(4) by simp
    then have "unat (bd_remaining ?dec) = length (concat ps)"
      using Cons.prems(4) remaining_after [of "length p" ?rem] by simp
    moreover have "bd_state ?dec = Bd_data" using lt by simp
    ultimately obtain bs' dec' where "feed_parts ps ?dec bs1 = (Ok ps, bs', dec')" "concat bs' = []"
        "\<not> body_decoder_in_progress dec'"
      using Cons.IH [of ?dec bs1] False Cons.prems(2) bs1(2) by (simp del: concat_eq_Nil_conv) blast
    then show ?thesis using s' bs1 by simp
  qed
qed simp

section \<open>Properties\<close>

text \<open>
  C11. A body makes the trip: buffers added to the encoder come out as a DATA frame and the buffer
  each, and a decoder that finds all of it in its container returns the same buffers, takes exactly
  their frames and is then between frames.
\<close>

theorem body_round_trip:
  assumes "bs \<noteq> []" and "list_all body_ok bs"
    and "seq_ok s" and "\<not> is_lookahead s" and "seq_bytes s = concat (body_chunks bs) @ rest"
  shows "\<exists>enc. try_state (add_bodies bs new_body_encoder) (\<lambda>_ enc.
        try_state (body_encoder_fin enc) (\<lambda>_ enc. take_bodies junk (2 * length bs) enc)) =
        (Ok (body_chunks bs), enc) \<and> body_encoder_finished enc \<and>
    (\<exists>s' dec. read_bodies (length bs) new_body_decoder s = (Ok bs, s', dec) \<and> seq_bytes s' = rest \<and>
      \<not> body_decoder_in_progress dec)"
proof -
  obtain b bs' where bs: "bs = b # bs'" using assms(1) by (cases bs) auto
  let ?enc = "new_body_encoder\<lparr>be_buffers := bs, be_fin := True\<rparr>"
  have "add_bodies bs new_body_encoder = (Ok (), new_body_encoder\<lparr>be_buffers := bs\<rparr>)"
    by (simp add: add_bodies_eq new_body_encoder_def)
  moreover have "body_encoder_fin (new_body_encoder\<lparr>be_buffers := bs\<rparr>) = (Ok (), ?enc)"
    using assms(2) bs by (simp add: body_encoder_fin_def new_body_encoder_def body_ok_def)
  moreover have "take_bodies junk (2 * Suc (length bs')) ?enc =
      (Ok (body_chunks (b # bs')), ?enc\<lparr>be_buffers := [], be_state := Be_fin\<rparr>)"
    by (rule take_bodies_eq) (use assms(2) bs in \<open>simp_all add: new_body_encoder_def\<close>)
  moreover have "bd_state new_body_decoder = Bd_frame" by (simp add: new_body_decoder_def)
  ultimately show ?thesis
    using read_bodies_eq [OF _ assms(2-5)] bs by (simp add: body_encoder_finished_def)
qed

theorem body_round_trip_witness:
  "\<exists>enc. try_state (add_bodies [[1, 2], [3]] new_body_encoder) (\<lambda>_ enc.
        try_state (body_encoder_fin enc) (\<lambda>_ enc. take_bodies (\<lambda>_. 0) (2 * length [[1, 2], [3 :: byte]]) enc)) =
        (Ok (body_chunks [[1, 2], [3]]), enc) \<and> body_encoder_finished enc \<and>
    (\<exists>s' dec. read_bodies (length [[1, 2], [3 :: byte]]) new_body_decoder (Buffers_seq [[0, 2, 1], [2, 0], [1, 3, 9]]) =
      (Ok [[1, 2], [3]], s', dec) \<and> seq_bytes s' = [9] \<and> \<not> body_decoder_in_progress dec)"
  by (rule body_round_trip)
    (simp_all add: body_ok_def body_chunks_def data_frame_def frame_wire_def varint_wire_def varint_size_def
      varints_wire_def be_bytes_enum)

text \<open>
  In the middle of a frame the decoder hands out every part as it arrives, byte for byte, and it
  leaves the frame exactly when the parts add up to the advertised size.
\<close>

theorem body_decode_parts:
  assumes "bd_state dec = Bd_data" and "list_all (\<lambda>p. p \<noteq> []) ps" and "ps \<noteq> []"
    and "unat (bd_remaining dec) = length (concat ps)" and "concat bs = []"
  shows "\<exists>bs' dec'. feed_parts ps dec bs = (Ok ps, bs', dec') \<and> concat bs' = [] \<and>
    \<not> body_decoder_in_progress dec'"
  by (rule feed_parts_eq [OF assms])

theorem body_decode_parts_witness:
  "\<exists>bs' dec'. feed_parts [[1, 2], [3]] \<lparr> bd_state = Bd_data, bd_remaining = 3 \<rparr> [] = (Ok [[1, 2], [3]], bs', dec') \<and>
    concat bs' = [] \<and> \<not> body_decoder_in_progress dec'"
  by (rule body_decode_parts) simp_all

text \<open>
  A DATA frame of size zero at the end of what has arrived leaves the decoder inside the frame,
  although nothing of it is left: the call says \<open>incomplete\<close> and the decoder is in progress.
\<close>

theorem body_decode_empty_frame:
  "\<exists>s dec. body_decode new_body_decoder (Buffers_seq [[0, 0]]) = (Err Incomplete, s, dec) \<and>
    seq_bytes s = [] \<and> body_decoder_in_progress dec \<and> bd_remaining dec = 0"
proof -
  let ?s = "Buffers_seq [[0, 0]]" and ?f = "Data 0"
  have f: "frame_wire ?f = [0, 0]"
    by (simp add: frame_wire_def varint_wire_def varint_size_def varints_wire_def be_bytes_enum)
  have s: "seq_ok ?s" "seq_bytes ?s = frame_wire ?f @ []" by (simp_all add: f)
  have ok: "encodable_frame ?f" by (simp add: encodable_frame_def frame_fits_def)
  have "frame_peek ?s = Ok Data_type" using frame_peek_wire [OF s] by simp
  moreover have "frame_decode ?s = (Ok ?f, seq_drop ?s (length (frame_wire ?f)))"
    by (rule frame_decode_wire [OF ok s])
  moreover have "seq_bytes (seq_drop ?s (length (frame_wire ?f))) = []" using seq_bytes_drop [OF s(1)] f by simp
  ultimately show ?thesis
    by (simp add: body_decode_def new_body_decoder_def body_decode_part_def body_decoder_in_progress_def)
qed

end
