(* ===== verification/Events.thy ===== *)
theory Events
  imports Headers_Codec Body_Codec
begin

text \<open>
  What crosses the interfaces of the endpoints: the QUIC events of \<open>bnl/quic/event.hpp\<close> that carry
  the bytes of a stream in both directions, and the HTTP/3 events of \<open>bnl/http3/event.hpp\<close> that a
  connection reports. The moves of the tagged unions are the values themselves.
\<close>

section \<open>quic::event\<close>

record quic_data =
  data_id :: uint64
  data_fin :: bool
  data_buffer :: bytes

datatype application_error_type = Rst_stream | Stop_sending | Connection_close

record application_error =
  ae_type :: application_error_type
  ae_id :: uint64
  ae_value :: uint64

datatype quic_event = Quic_data quic_data | Quic_application_error application_error

fun quic_event_id :: "quic_event \<Rightarrow> uint64" where
  "quic_event_id (Quic_data data) = data_id data"
| "quic_event_id (Quic_application_error e) = ae_id e"

definition make_data :: "uint64 \<Rightarrow> bool \<Rightarrow> bytes \<Rightarrow> quic_data" where
  "make_data i fin b = \<lparr> data_id = i, data_fin = fin, data_buffer = b \<rparr>"

lemma make_data_simps [simp]:
  "data_id (make_data i fin b) = i" "data_fin (make_data i fin b) = fin" "data_buffer (make_data i fin b) = b"
  by (simp_all add: make_data_def)

section \<open>http3::event\<close>

datatype event_type = Settings_event | Header_event | Body_event | Finished_event

datatype event =
    Ev_settings settings
  | Ev_header uint64 bool header
  | Ev_body quic_data
  | Ev_finished uint64

fun event_type_of :: "event \<Rightarrow> event_type" where
  "event_type_of (Ev_settings _) = Settings_event"
| "event_type_of (Ev_header _ _ _) = Header_event"
| "event_type_of (Ev_body _) = Body_event"
| "event_type_of (Ev_finished _) = Finished_event"

lemma event_type_of_finished: "event_type_of e = Finished_event \<longleftrightarrow> (\<exists>i. e = Ev_finished i)"
  by (cases e) simp_all

section \<open>Frames a stream does not handle itself\<close>

text \<open>
  The base classes of the streams hand a frame they do not know to the virtual \<open>process(frame)\<close> of
  the client or server. None of the four overrides handles a frame: each one answers with an error.
  The streams rely on that to be the only source of events.
\<close>

locale rejecting =
  fixes handle :: "frame \<Rightarrow> (event, error) result"
  assumes rejects: "\<exists>e. handle f = Err e"
begin

lemma no_event: "handle f \<noteq> Ok ev"
  using rejects [of f] by auto

lemma no_fault: "handle f \<noteq> Fault"
  using rejects [of f] by auto

lemma no_event_in: "try_in s r (\<lambda>f. (handle f, s')) \<noteq> (Ok ev, t)"
  using no_event by (cases r) auto

end

section \<open>Calls on a member\<close>

text \<open>
  A method call on a member object: the member that comes back is put in its place whether the call
  succeeded or not.
\<close>

definition on_member :: "('f \<Rightarrow> 's) \<Rightarrow> ('a, 'e) result \<times> 'f \<Rightarrow> ('a, 'e) result \<times> 's" where
  "on_member put m = (case m of (r, f) \<Rightarrow> (r, put f))"

lemma on_member_simps [simp]: "on_member put (r, f) = (r, put f)"
  by (simp add: on_member_def)

section \<open>The container of a stream\<close>

text \<open>
  The streams keep what they received in a \<open>base::buffers\<close>, the instantiation \<open>Buffers_seq\<close> of the
  decoders. \<open>seq_buffers\<close> takes it out of the sequence again.
\<close>

fun seq_buffers :: "sequence \<Rightarrow> buffers" where
  "seq_buffers (Buffers_seq bs) = bs"
| "seq_buffers _ = []"

fun in_buffers :: "sequence \<Rightarrow> bool" where
  "in_buffers (Buffers_seq bs) \<longleftrightarrow> True"
| "in_buffers _ \<longleftrightarrow> False"

lemma in_buffersE: "in_buffers s \<Longrightarrow> (\<And>bs. s = Buffers_seq bs \<Longrightarrow> P) \<Longrightarrow> P"
  by (cases s) simp_all

lemma seq_buffers_bytes [simp]: "in_buffers s \<Longrightarrow> concat (seq_buffers s) = seq_bytes s"
  by (cases s) simp_all

lemma in_buffers_consume: "seq_consume s n = Some s' \<Longrightarrow> in_buffers s' = in_buffers s"
  by (cases s) (auto split: if_splits bind_splits)

lemma in_buffers_drop [simp]: "in_buffers (seq_drop s n) = in_buffers s"
  by (auto simp: seq_drop_def in_buffers_consume split: option.splits)

text \<open>Whatever a decoder returns, what it leaves is a \<open>base::buffers\<close> again.\<close>

lemma frame_decode_in_buffers: "frame_decode s = (r, s') \<Longrightarrow> in_buffers s \<Longrightarrow> in_buffers s'"
  by (cases s) (auto dest: frame_decode_container_kind)

lemma body_decode_in_buffers: "body_decode dec s = (r, s', dec') \<Longrightarrow> in_buffers s \<Longrightarrow> in_buffers s'"
  by (cases s) (auto dest: body_decode_container)

lemma qpack_decode_in_buffers: "qpack_decode dec s = (r, s', dec') \<Longrightarrow> in_buffers s \<Longrightarrow> in_buffers s'"
  by (auto simp: qpack_decode_def qpack_decode_prefix_def try_state_def try_in_def or_fault_def Let_def
      dest: in_buffers_consume split: if_splits option.splits result.splits prod.splits)

lemma headers_decode_in_buffers: "headers_decode dec s = (r, s', dec') \<Longrightarrow> in_buffers s \<Longrightarrow> in_buffers s'"
  by (auto simp: headers_decode_def headers_decode_field_def try_in_def or_fault_def Let_def
      dest: frame_decode_in_buffers qpack_decode_in_buffers
      split: if_splits option.splits result.splits prod.splits headers_decoder_state.splits)

text \<open>What has arrived either ends inside the next item or contains it.\<close>

lemma prefix_split:
  assumes "xs @ ys = us @ vs"
  obtains (short) "xs = take (length xs) us" "length xs < length us"
  | (long) zs where "xs = us @ zs" "zs @ ys = vs"
proof (cases "length xs < length us")
  case True
  then have "take (length xs) (xs @ ys) = take (length xs) us" using assms by simp
  then show thesis using short True by simp
next
  case False
  then have "take (length us) xs = us" "drop (length us) xs @ ys = vs"
    using arg_cong [OF assms, of "take (length us)"] arg_cong [OF assms, of "drop (length us)"] by simp_all
  then show thesis using long [of "drop (length us) xs"] by (metis append_take_drop_id)
qed

end
