(* ===== verification/Control.thy ===== *)
theory Control
  imports Events
begin

text \<open>
  The control streams (\<open>endpoint/stream/control.cpp\<close> with the overrides of
  \<open>client/stream/control.cpp\<close> and \<open>server/stream/control.cpp\<close>): the sender writes the stream type and
  a SETTINGS frame, the receiver reads them and then only frames that no endpoint implements.
\<close>

section \<open>sender\<close>

definition control_type :: uint64 where "control_type = 0x0"

datatype control_sender_state = Cs_type | Cs_settings | Cs_idle

record control_sender =
  cs_state :: control_sender_state
  cs_settings :: settings
  cs_id :: uint64

definition new_control_sender :: "uint64 \<Rightarrow> control_sender" where
  "new_control_sender i = \<lparr> cs_state = Cs_type, cs_settings = default_settings, cs_id = i \<rparr>"

definition control_send ::
  "(nat \<Rightarrow> byte) \<Rightarrow> control_sender \<Rightarrow> (quic_event, error) result \<times> control_sender" where
  "control_send junk c =
     (case cs_state c of
        Cs_type \<Rightarrow>
          try_in c (varint_encode_buffer junk control_type) (\<lambda>encoded.
          (Ok (Quic_data (make_data (cs_id c) False encoded)), c\<lparr>cs_state := Cs_settings\<rparr>))
      | Cs_settings \<Rightarrow>
          try_in c (frame_encode_buffer junk (Settings (cs_settings c))) (\<lambda>encoded.
          (Ok (Quic_data (make_data (cs_id c) False encoded)), c\<lparr>cs_state := Cs_idle\<rparr>))
      | Cs_idle \<Rightarrow> (Err Idle, c))"

section \<open>receiver\<close>

datatype control_receiver_state = Cr_type | Cr_settings | Cr_active

record control_receiver =
  cr_state :: control_receiver_state
  cr_buffers :: buffers
  cr_id :: uint64

definition new_control_receiver :: "uint64 \<Rightarrow> control_receiver" where
  "new_control_receiver i = \<lparr> cr_state = Cr_type, cr_buffers = [], cr_id = i \<rparr>"

definition control_recv :: "quic_data \<Rightarrow> control_receiver \<Rightarrow> (unit, error) result \<times> control_receiver" where
  "control_recv data c =
     (if data_fin data then (Err Closed_critical_stream, c)
      else (Ok (), c\<lparr>cr_buffers := buffers_push (cr_buffers c) (data_buffer data)\<rparr>))"

text \<open>\<open>frame::decode(buffers_)\<close>, which leaves what is behind the frame in the stream's buffers.\<close>

definition control_frame ::
  "control_receiver \<Rightarrow> (frame, error) result \<times> control_receiver" where
  "control_frame c =
     on_member (\<lambda>s. c\<lparr>cr_buffers := seq_buffers s\<rparr>) (frame_decode (Buffers_seq (cr_buffers c)))"

definition control_process_settings ::
  "control_receiver \<Rightarrow> (event, error) result \<times> control_receiver" where
  "control_process_settings c =
     try_state (control_frame c) (\<lambda>frame c.
     case frame of
       Settings s \<Rightarrow> (Ok (Ev_settings s), c\<lparr>cr_state := Cr_active\<rparr>)
     | _ \<Rightarrow> (Err Missing_settings, c))"

definition control_process_active ::
  "(frame \<Rightarrow> (event, error) result) \<Rightarrow> control_receiver \<Rightarrow> (event, error) result \<times> control_receiver" where
  "control_process_active handle c =
     try_state (control_frame c) (\<lambda>frame c.
     (if type_of frame \<in> {Headers_type, Data_type, Push_promise_type, Duplicate_push_type} then Err Wrong_stream
      else if type_of frame = Settings_type then Err Unexpected_frame
      else handle frame, c))"

text \<open>\<open>assert(type == control::type)\<close> is the fault; the case falls through to the next one.\<close>

definition control_process ::
  "(frame \<Rightarrow> (event, error) result) \<Rightarrow> control_receiver \<Rightarrow> (event, error) result \<times> control_receiver" where
  "control_process handle c =
     (case cr_state c of
        Cr_type \<Rightarrow>
          try_state (on_member (\<lambda>s. c\<lparr>cr_buffers := seq_buffers s\<rparr>)
              (varint_decode (Buffers_seq (cr_buffers c))))
            (\<lambda>t c. if t \<noteq> control_type then (Fault, c)
                    else control_process_settings (c\<lparr>cr_state := Cr_settings\<rparr>))
      | Cr_settings \<Rightarrow> control_process_settings c
      | Cr_active \<Rightarrow> control_process_active handle c)"

section \<open>client and server\<close>

definition client_stream_control_id :: uint64 where "client_stream_control_id = 0x02"
definition server_stream_control_id :: uint64 where "server_stream_control_id = 0x03"

definition client_control_frame :: "frame \<Rightarrow> (event, error) result" where
  "client_control_frame frame =
     (case type_of frame of
        Cancel_push_type \<Rightarrow> Err Not_implemented
      | Goaway_type \<Rightarrow> Err Not_implemented
      | Max_push_id_type \<Rightarrow> Err Unexpected_frame
      | Priority_type \<Rightarrow> Err Unexpected_frame
      | _ \<Rightarrow> Err Internal)"

definition server_control_frame :: "frame \<Rightarrow> (event, error) result" where
  "server_control_frame frame =
     (case type_of frame of
        Cancel_push_type \<Rightarrow> Err Not_implemented
      | Max_push_id_type \<Rightarrow> Err Not_implemented
      | Priority_type \<Rightarrow> Err Not_implemented
      | Goaway_type \<Rightarrow> Err Unexpected_frame
      | _ \<Rightarrow> Err Internal)"

definition client_control_sender :: control_sender where
  "client_control_sender = new_control_sender client_stream_control_id"

definition client_control_receiver :: control_receiver where
  "client_control_receiver = new_control_receiver server_stream_control_id"

definition server_control_sender :: control_sender where
  "server_control_sender = new_control_sender server_stream_control_id"

definition server_control_receiver :: control_receiver where
  "server_control_receiver = new_control_receiver client_stream_control_id"

interpretation client_control: rejecting client_control_frame
  by unfold_locales (simp add: client_control_frame_def split: frame_type.split)

interpretation server_control: rejecting server_control_frame
  by unfold_locales (simp add: server_control_frame_def split: frame_type.split)

section \<open>One call of the receiver\<close>

lemma control_frame_eq:
  "control_frame c = (r, c') \<Longrightarrow>
   \<exists>bs. c' = c\<lparr>cr_buffers := bs\<rparr> \<and> frame_decode (Buffers_seq (cr_buffers c)) = (r, Buffers_seq bs)"
  using frame_decode_container_kind [of "cr_buffers c"]
  by (cases "frame_decode (Buffers_seq (cr_buffers c))") (auto simp: control_frame_def)

lemma control_process_settings_step:
  "control_process_settings c = (r, c') \<Longrightarrow>
   (case r of
      Ok ev \<Rightarrow> (\<exists>s. ev = Ev_settings s) \<and> cr_state c' = Cr_active
    | _ \<Rightarrow> cr_state c' = cr_state c)"
  by (cases "control_frame c")
    (auto simp: control_process_settings_def try_state_def dest!: control_frame_eq
      split: result.splits frame.splits)

section \<open>Runs of the receiver\<close>

text \<open>
  A receiver is driven by its connection: data arrives and is buffered, or the connection asks for the
  next event. A run collects the events in between.
\<close>

inductive control_run ::
  "(frame \<Rightarrow> (event, error) result) \<Rightarrow> control_receiver \<Rightarrow> event list \<Rightarrow> control_receiver \<Rightarrow> bool"
  for handle where
  start: "control_run handle c [] c"
| recv: "control_run handle c evs c1 \<Longrightarrow> control_recv data c1 = (r, c2) \<Longrightarrow> control_run handle c evs c2"
| event: "control_run handle c evs c1 \<Longrightarrow> control_process handle c1 = (Ok ev, c2) \<Longrightarrow>
    control_run handle c (evs @ [ev]) c2"
| failed: "control_run handle c evs c1 \<Longrightarrow> control_process handle c1 = (Err e, c2) \<Longrightarrow>
    control_run handle c evs c2"

definition settings_once :: "event list \<Rightarrow> control_receiver \<Rightarrow> bool" where
  "settings_once evs c \<longleftrightarrow>
     (if cr_state c = Cr_active then \<exists>s. evs = [Ev_settings s] else evs = [])"

lemma control_recv_state: "control_recv data c = (r, c') \<Longrightarrow> cr_state c' = cr_state c"
  by (auto simp: control_recv_def split: if_splits)

context rejecting
begin

lemma control_process_active_step:
  "control_process_active handle c = (r, c') \<Longrightarrow> cr_state c' = cr_state c \<and> (\<forall>ev. r \<noteq> Ok ev)"
  using no_event
  by (cases "control_frame c")
    (auto simp: control_process_active_def try_state_def dest!: control_frame_eq split: result.splits if_splits)

lemma control_process_step:
  "control_process handle c = (r, c') \<Longrightarrow>
   (case r of
      Ok ev \<Rightarrow> (\<exists>s. ev = Ev_settings s) \<and> cr_state c \<noteq> Cr_active \<and> cr_state c' = Cr_active
    | _ \<Rightarrow> cr_state c' = Cr_active \<longleftrightarrow> cr_state c = Cr_active)"
  by (cases "cr_state c")
    (auto simp: control_process_def try_state_def on_member_def dest: control_process_active_step dest!: control_process_settings_step
      split: result.splits prod.splits if_splits)

lemma control_run_once: "control_run handle (new_control_receiver i) evs c \<Longrightarrow> settings_once evs c"
proof (induction "new_control_receiver i" evs c rule: control_run.induct)
  case start
  then show ?case by (simp add: settings_once_def new_control_receiver_def)
next
  case (recv evs c1 data r c2)
  then show ?case using control_recv_state by (simp add: settings_once_def)
next
  case (event evs c1 ev c2)
  then show ?case using control_process_step [OF event(3)] by (auto simp: settings_once_def)
next
  case (failed evs c1 e c2)
  then show ?case using control_process_step [OF failed(3)] by (simp add: settings_once_def)
qed

end

section \<open>The SETTINGS of the peer arrive\<close>

text \<open>A connection that asks for the next event after each piece of data, with what it is told.\<close>

fun control_feed ::
  "(frame \<Rightarrow> (event, error) result) \<Rightarrow> quic_data list \<Rightarrow> control_receiver \<Rightarrow>
   (event, error) result list \<times> control_receiver" where
  "control_feed handle [] c = ([], c)"
| "control_feed handle (d # ds) c =
     (case control_recv d c of
        (Ok _, c) \<Rightarrow>
          (case control_process handle c of
             (r, c) \<Rightarrow> (case control_feed handle ds c of (rs, c) \<Rightarrow> (r # rs, c)))
      | (Err e, c) \<Rightarrow> ([Err e], c)
      | (Fault, c) \<Rightarrow> ([Fault], c))"

text \<open>\<open>waiting s c w\<close>: the receiver still needs the bytes \<open>w\<close> to have the settings \<open>s\<close>.\<close>

definition waiting :: "settings \<Rightarrow> control_receiver \<Rightarrow> bytes \<Rightarrow> bool" where
  "waiting s c w \<longleftrightarrow>
     cr_state c = Cr_type \<and> concat (cr_buffers c) = [] \<and> w = 0 # frame_wire (Settings s) \<or>
     cr_state c = Cr_settings \<and> concat (cr_buffers c) @ w = frame_wire (Settings s)"

lemma control_process_settings_eq:
  assumes s: "encodable_frame (Settings s)" and w: "concat (cr_buffers c) @ w = frame_wire (Settings s)"
  shows "\<exists>bs. control_process_settings c =
      (if w = [] then (Ok (Ev_settings s), c\<lparr>cr_buffers := bs, cr_state := Cr_active\<rparr>) else (Err Incomplete, c)) \<and>
    (w = [] \<longrightarrow> concat bs = [])"
proof (cases "w = []")
  case True
  let ?s = "Buffers_seq (cr_buffers c)"
  have d: "frame_decode ?s = (Ok (Settings s), seq_drop ?s (length (frame_wire (Settings s))))"
    by (rule frame_decode_wire [OF s, of _ "[]"]) (use w True in simp_all)
  have "in_buffers (seq_drop ?s (length (frame_wire (Settings s))))" by simp
  moreover have "seq_bytes (seq_drop ?s (length (frame_wire (Settings s)))) = []"
    using w True by (subst seq_bytes_drop) simp_all
  ultimately have "concat (seq_buffers (seq_drop ?s (length (frame_wire (Settings s))))) = []" by simp
  then show ?thesis using True d
    by (intro exI [of _ "seq_buffers (seq_drop ?s (length (frame_wire (Settings s))))"])
      (simp del: concat_eq_Nil_conv add: control_process_settings_def control_frame_def)
next
  case False
  have "frame_decode (Buffers_seq (cr_buffers c)) = (Err Incomplete, Buffers_seq (cr_buffers c))"
  proof (rule frame_decode_short [OF s])
    show "length (concat (cr_buffers c)) < length (frame_wire (Settings s))"
      using False by (simp flip: w)
    show "seq_bytes (Buffers_seq (cr_buffers c)) = take (length (concat (cr_buffers c))) (frame_wire (Settings s))"
      by (simp flip: w)
  qed simp
  then show ?thesis using False by (simp add: control_process_settings_def control_frame_def)
qed

lemma control_process_waiting:
  assumes s: "encodable_frame (Settings s)" and w: "waiting s c (b @ w)" and d: "data_buffer d = b" "\<not> data_fin d"
  shows "\<exists>c1 c2. control_recv d c = (Ok (), c1) \<and>
    (if w = [] \<and> b \<noteq> [] then
       control_process handle c1 = (Ok (Ev_settings s), c2) \<and> cr_state c2 = Cr_active \<and> concat (cr_buffers c2) = []
     else if w = [] then True
     else control_process handle c1 = (Err Incomplete, c2) \<and> waiting s c2 w)"
proof -
  let ?c = "c\<lparr>cr_buffers := buffers_push (cr_buffers c) b\<rparr>"
  have recv: "control_recv d c = (Ok (), ?c)" using d by (simp add: control_recv_def)
  consider (settings) "cr_state c = Cr_settings" "concat (cr_buffers ?c) @ w = frame_wire (Settings s)"
    | (none) "cr_state c = Cr_type" "concat (cr_buffers ?c) = []" "b = []" "w = 0 # frame_wire (Settings s)"
    | (type) b' where "cr_state c = Cr_type" "b = 0 # b'" "concat (cr_buffers ?c) = b"
        "b' @ w = frame_wire (Settings s)"
    using w unfolding waiting_def by (cases b) (auto simp del: concat_eq_Nil_conv)
  then show ?thesis
  proof cases
    case settings
    then show ?thesis using recv control_process_settings_eq [OF s settings(2)]
      by (cases "w = []") (fastforce simp: control_process_def waiting_def simp del: concat_eq_Nil_conv)+
  next
    case none
    let ?s = "Buffers_seq (cr_buffers ?c)"
    have "varint_decode ?s = (Err Incomplete, ?s)"
      using none(2) by (simp del: concat_eq_Nil_conv add: varint_decode_eq varint_parse_def)
    then show ?thesis using recv none
      by (intro exI [of _ ?c]) (simp del: concat_eq_Nil_conv add: control_process_def waiting_def)
  next
    case type
    let ?s = "Buffers_seq (cr_buffers ?c)"
    have wire: "varint_wire 0 = [0]" "varint_size 0 = 1"
      by (simp_all add: varint_wire_def varint_size_def be_bytes_enum)
    have "varint_decode ?s = (Ok 0, seq_drop ?s 1)"
      using varint_decode_wire [of ?s 0 b'] type(2,3) by (simp add: wire)
    moreover have "in_buffers (seq_drop ?s 1)" by simp
    moreover have "seq_bytes ?s = 0 # b'" using type(2,3) by simp
    then have "seq_bytes (seq_drop ?s 1) = b'" by (subst seq_bytes_drop) (simp_all del: seq_bytes.simps)
    ultimately obtain bs where bs: "varint_decode ?s = (Ok 0, Buffers_seq bs)" "concat bs = b'"
      by (metis in_buffersE seq_bytes.simps(2))
    let ?c' = "?c\<lparr>cr_buffers := bs, cr_state := Cr_settings\<rparr>"
    have "concat (cr_buffers ?c') @ w = frame_wire (Settings s)" using bs(2) type(4) by simp
    from control_process_settings_eq [OF s this] show ?thesis
      using recv bs type
      by (cases "w = []")
        (fastforce simp: control_process_def control_type_def waiting_def simp del: concat_eq_Nil_conv)+
  qed
qed

lemma control_feed_waiting:
  "encodable_frame (Settings s) \<Longrightarrow> waiting s c (concat (map data_buffer ds)) \<Longrightarrow> list_all (\<lambda>d. \<not> data_fin d) ds \<Longrightarrow>
   ds \<noteq> [] \<Longrightarrow> data_buffer (last ds) \<noteq> [] \<Longrightarrow>
   \<exists>c'. control_feed handle ds c = (replicate (length ds - 1) (Err Incomplete) @ [Ok (Ev_settings s)], c') \<and>
     cr_state c' = Cr_active"
proof (induction ds arbitrary: c)
  case (Cons d ds)
  let ?w = "concat (map data_buffer ds)"
  have d: "\<not> data_fin d" "waiting s c (data_buffer d @ ?w)" using Cons.prems by simp_all
  note step = control_process_waiting [OF Cons.prems(1) d(2) refl d(1), of handle]
  show ?case
  proof (cases "ds = []")
    case True
    then show ?thesis using step Cons.prems(5) by auto
  next
    case False
    then have "?w \<noteq> []" using Cons.prems(5) last_in_set [OF False] by auto
    then obtain c1 c2 where c: "control_recv d c = (Ok (), c1)" "control_process handle c1 = (Err Incomplete, c2)"
        "waiting s c2 ?w"
      using step by (auto simp del: concat_eq_Nil_conv)
    obtain n where "length ds = Suc n" using False by (cases ds) auto
    then show ?thesis using Cons.IH [OF Cons.prems(1) c(3)] Cons.prems c False by auto
  qed
qed simp

definition control_sent :: "uint64 \<Rightarrow> quic_data list" where
  "control_sent i = [make_data i False [0], make_data i False (frame_wire (Settings default_settings))]"

lemma default_settings_encodable: "encodable_frame (Settings default_settings)"
  by (simp add: encodable_frame_def frame_fits_def default_settings_def settings_array_def
      setting_ids varint_size_def)

lemma control_sender_run:
  "\<exists>c. try_state (control_send junk (new_control_sender i)) (\<lambda>e1 c.
       try_state (control_send junk c) (\<lambda>e2 c. (Ok [e1, e2], c))) = (Ok (map Quic_data (control_sent i)), c) \<and>
     cs_state c = Cs_idle"
proof -
  have "varint_encode_buffer junk control_type = Ok [0]"
    by (simp add: varint_encode_buffer_eq control_type_def varint_wire_def varint_size_def be_bytes_enum)
  moreover have "frame_encode_buffer junk (Settings default_settings) = Ok (frame_wire (Settings default_settings))"
    using default_settings_encodable by (simp add: frame_encode_buffer_eq encodable_frame_def)
  ultimately show ?thesis by (simp add: control_send_def new_control_sender_def control_sent_def)
qed

lemma waiting_new:
  "waiting default_settings (new_control_receiver i) (concat (map data_buffer (control_sent j)))"
  by (simp add: waiting_def new_control_receiver_def control_sent_def)

section \<open>Properties\<close>

text \<open>
  C22. The two ends of a control stream understand each other: the sender writes two pieces of data,
  never finishes the stream and is idle then, and a receiver that gets the bytes in any pieces and is
  asked after each one answers \<open>incomplete\<close> until the last byte is there and then reports the sender's
  settings.
\<close>

theorem control_exchange:
  assumes "list_all (\<lambda>d. \<not> data_fin d) ds" and "ds \<noteq> []" and "data_buffer (last ds) \<noteq> []"
    and "concat (map data_buffer ds) = concat (map data_buffer sent)"
    and "try_state (control_send junk (new_control_sender i)) (\<lambda>e1 c.
         try_state (control_send junk c) (\<lambda>e2 c. (Ok [e1, e2], c))) = (Ok (map Quic_data sent), c)"
  shows "fst (control_send junk c) = Err Idle \<and> list_all (\<lambda>d. \<not> data_fin d \<and> data_id d = i) sent \<and>
    (\<exists>c'. control_feed handle ds (new_control_receiver i) =
        (replicate (length ds - 1) (Err Incomplete) @ [Ok (Ev_settings default_settings)], c') \<and>
      cr_state c' = Cr_active)"
proof -
  obtain c1 where "try_state (control_send junk (new_control_sender i)) (\<lambda>e1 c.
       try_state (control_send junk c) (\<lambda>e2 c. (Ok [e1, e2], c))) = (Ok (map Quic_data (control_sent i)), c1)"
    "cs_state c1 = Cs_idle" using control_sender_run by blast
  then have "map Quic_data sent = map Quic_data (control_sent i)" and c: "cs_state c = Cs_idle"
    using assms(5) by simp_all
  then have sent: "sent = control_sent i" using inj_map_eq_map [of Quic_data] by (auto simp: inj_def)
  have "waiting default_settings (new_control_receiver i) (concat (map data_buffer ds))"
    using assms(4) waiting_new [of i i] sent by simp
  from control_feed_waiting [OF default_settings_encodable this assms(1-3)] show ?thesis
    using sent c by (simp add: control_send_def control_sent_def)
qed

theorem control_exchange_witness:
  "\<exists>c'. control_feed client_control_frame (control_sent 2) (new_control_receiver 2) =
      (replicate (length (control_sent 2) - 1) (Err Incomplete) @ [Ok (Ev_settings default_settings)], c') \<and>
    cr_state c' = Cr_active"
proof -
  obtain c where run: "try_state (control_send (\<lambda>_. 0) (new_control_sender 2)) (\<lambda>e1 c.
       try_state (control_send (\<lambda>_. 0) c) (\<lambda>e2 c. (Ok [e1, e2], c))) = (Ok (map Quic_data (control_sent 2)), c)"
    using control_sender_run by blast
  have "frame_wire (Settings default_settings) \<noteq> []" by (simp add: frame_wire_def)
  then show ?thesis using control_exchange [OF _ _ _ refl run, of client_control_frame]
    by (simp add: control_sent_def)
qed

text \<open>
  C23. Whatever the peer sends and in whatever pieces it arrives, a control stream reports the peer's
  settings at most once and nothing else: it has reported them exactly when it is active.
\<close>

theorem control_settings_once:
  assumes "handle = client_control_frame \<or> handle = server_control_frame"
    and "control_run handle (new_control_receiver i) evs c"
  shows "if cr_state c = Cr_active then \<exists>s. evs = [Ev_settings s] else evs = []"
  using assms client_control.control_run_once server_control.control_run_once
  unfolding settings_once_def by blast

theorem control_settings_once_witness:
  "\<exists>c. cr_state c = Cr_active \<and> control_run client_control_frame (new_control_receiver 3) [Ev_settings default_settings] c \<and>
    (if cr_state c = Cr_active then \<exists>s. [Ev_settings default_settings] = [Ev_settings s]
     else [Ev_settings default_settings] = [])"
proof -
  let ?b = "concat (map data_buffer (control_sent 3))"
  have d: "data_buffer (make_data 3 False ?b) = ?b" "\<not> data_fin (make_data 3 False ?b)" by simp_all
  have w: "waiting default_settings (new_control_receiver 3) (?b @ [])" using waiting_new by simp
  have "?b \<noteq> []" by (simp add: control_sent_def)
  then obtain c1 c2 where c: "control_recv (make_data 3 False ?b) (new_control_receiver 3) = (Ok (), c1)"
    "control_process client_control_frame c1 = (Ok (Ev_settings default_settings), c2)" "cr_state c2 = Cr_active"
    using control_process_waiting [OF default_settings_encodable w d, of client_control_frame] by auto
  have run: "control_run client_control_frame (new_control_receiver 3) ([] @ [Ev_settings default_settings]) c2"
    by (rule control_run.event [OF control_run.recv [OF control_run.start c(1)] c(2)])
  then show ?thesis using control_settings_once [of client_control_frame 3 "[Ev_settings default_settings]" c2] c(3)
    by (intro exI [of _ c2]) simp
qed

end
