(* ===== verification/Message.thy ===== *)
theory Message
  imports Events
begin

text \<open>
  The header and body decoders on a stream that arrives in pieces: what a decoder still has to read of a
  message, and that one call either reports \<open>incomplete\<close> and still has the same to read, or returns
  the next header or the next part of the body. The request streams are built on these steps.
\<close>

section \<open>Peeking at the beginning of a frame\<close>

lemma frame_peek_byte:
  assumes s: "seq_ok s" "seq_bytes s = b # xs" and b: "unat b < 64" "frame_type_cast (ucast b) = Some ty"
  shows "frame_peek s = Ok ty"
proof -
  have u: "unat (ucast b :: uint64) = unat b" by (rule unat_ucast_byte)
  then have v: "(ucast b :: uint64) < 64" using b(1) by (simp add: word_less_nat_alt)
  have lt: "(ucast b :: uint64) < 2 ^ 62" using v by (rule order.strict_trans) simp
  have "ucast (ucast b :: uint64) = b" by (rule bit_word_eqI) (auto simp: bit_simps)
  then have "varint_wire (ucast b) = [b]" "varint_size (ucast b) = 1"
    using v by (simp_all add: varint_wire_def varint_size_def be_bytes_enum)
  then have "varint_decode (seq_lookahead s) = (Ok (ucast b), seq_drop (seq_lookahead s) 1)"
    using varint_decode_wire [OF _ lt, of "seq_lookahead s" xs] s by simp
  then show ?thesis using b(2) unfolding frame_peek_def by (subst frame_peek_loop.simps) simp
qed

lemma frame_peek_nothing: "seq_ok s \<Longrightarrow> seq_bytes s = [] \<Longrightarrow> frame_peek s = Err Incomplete"
  unfolding frame_peek_def
  by (subst frame_peek_loop.simps) (simp add: varint_decode_eq varint_parse_def)

text \<open>A HEADERS or DATA frame of which the end is still missing.\<close>

definition one_byte_type :: "frame \<Rightarrow> bool" where
  "one_byte_type f \<longleftrightarrow> (\<exists>n. f = Data n \<or> f = Headers n)"

lemma frame_peek_part:
  assumes f: "one_byte_type f" and s: "seq_ok s" "seq_bytes s = take (length (seq_bytes s)) (frame_wire f)"
  shows "frame_peek s = (if seq_bytes s = [] then Err Incomplete else Ok (type_of f))"
proof (cases "seq_bytes s")
  case Nil
  then show ?thesis using s by (simp add: frame_peek_nothing)
next
  case (Cons b xs)
  have "hd (frame_wire f) = (if type_of f = Data_type then 0 else 1)"
    using f by (auto simp: one_byte_type_def frame_wire_def varint_wire_def varint_size_def be_bytes_enum)
  moreover have "hd (seq_bytes s) = hd (frame_wire f)"
    using s(2) Cons by (metis hd_take length_greater_0_conv list.distinct(1))
  ultimately have b: "b = (if type_of f = Data_type then 0 else 1)" using Cons by simp
  moreover have "type_of f = Data_type \<or> type_of f = Headers_type" using f by (auto simp: one_byte_type_def)
  ultimately have "frame_type_cast (ucast b) = Some (type_of f)" "unat b < 64" by (auto simp: frame_type_cast_def)
  then show ?thesis using frame_peek_byte [OF s(1) Cons] Cons by simp
qed

section \<open>A header block that arrives in pieces\<close>

lemma qpack_decode_short:
  assumes D: "starves qpack_field bs" and s: "seq_ok s" "k < length (block_prefix (qd_state dec) @ bs)"
    "seq_bytes s = take k (block_prefix (qd_state dec) @ bs)"
  shows "\<exists>s' dec'. qpack_decode dec s = (Err Incomplete, s', dec') \<and> seq_ok s' \<and>
    (\<exists>m. dec' = (if m = 0 then dec else \<lparr> qd_state = Header_due, qd_count = qd_count dec + word_of_nat m \<rparr>) \<and>
       m \<le> k \<and> block_prefix (qd_state dec) = take m (block_prefix (qd_state dec)) @ block_prefix (qd_state dec') \<and>
       m \<le> length (block_prefix (qd_state dec)) \<and> seq_bytes s' = drop m (seq_bytes s))"
proof -
  have short: "qpack_decode d t = (Err Incomplete, t, d)"
    if "seq_ok t" "qd_state d = Header_due" "j < length bs" "seq_bytes t = take j bs" for d t j
  proof -
    have "fst (qpack_field (seq_lookahead t)) = Err Incomplete"
      by (rule starvesD [OF D _ that(3)]) (use that in simp_all)
    then show ?thesis using that(2)
      by (cases "qpack_field (seq_lookahead t)") (simp add: qpack_decode_def qpack_decode_prefix_def)
  qed
  show ?thesis
  proof (cases "qd_state dec")
    case Header_due
    then show ?thesis using short [OF s(1) Header_due, of k] s
      by (intro exI [of _ s] exI [of _ dec]) (auto simp: block_prefix_def intro: exI [of _ 0])
  next
    case Prefix_due
    show ?thesis
    proof (cases "k < 2")
      case True
      then have "length (seq_bytes s) < 2" using s(3) by simp
      then show ?thesis using qpack_decode_prefix_due [OF s(1) Prefix_due] s(1)
        by (intro exI [of _ s] exI [of _ dec]) (auto intro: exI [of _ 0])
    next
      case False
      let ?dec = "\<lparr> qd_state = Header_due, qd_count = qd_count dec + 2 \<rparr>"
      have len: "length (seq_bytes s) = k" using s(2,3) by simp
      have "seq_bytes s = [0, 0] @ take (k - 2) bs"
        using s(3) Prefix_due False by (simp add: block_prefix_def take_Cons' numeral_2_eq_2)
      then have "seq_bytes (seq_drop s 2) = take (k - 2) bs" using s(1) len False by simp
      then have "qpack_decode ?dec (seq_drop s 2) = (Err Incomplete, seq_drop s 2, ?dec)"
        using s False Prefix_due by (intro short) (auto simp: block_prefix_def)
      moreover have "dec\<lparr>qd_count := qd_count dec + 2, qd_state := Header_due\<rparr> = ?dec" by (cases dec) simp
      ultimately have "qpack_decode dec s = (Err Incomplete, seq_drop s 2, ?dec)"
        using qpack_decode_prefix_due [OF s(1) Prefix_due] len False by metis
      then show ?thesis using s(1) len False Prefix_due
        by (intro exI [of _ "seq_drop s 2"] exI [of _ ?dec]) (auto simp: block_prefix_def intro!: exI [of _ 2])
    qed
  qed
qed

text \<open>
  \<open>headers_due xxh dec hs w\<close>: the decoder still has to return the headers \<open>hs\<close>, and the bytes of the
  stream up to the end of the block are \<open>w\<close>.
\<close>

definition headers_due :: "(string \<Rightarrow> uint64) \<Rightarrow> headers_decoder \<Rightarrow> header list \<Rightarrow> bytes \<Rightarrow> bool" where
  "headers_due xxh dec hs w \<longleftrightarrow>
     hs \<noteq> [] \<and> list_all (\<lambda>h. hashes_apart xxh h \<and> field_ok xxh h) hs \<and>
     (dec = new_headers_decoder \<and> length (block_wire xxh hs) < 2 ^ 62 \<and>
        w = frame_wire (headers_frame (block_wire xxh hs)) @ block_wire xxh hs \<or>
      expecting dec (length w) \<and> w = concat (block_fields xxh (qd_state (hd_qpack dec)) hs))"

lemma headers_decode_field_short:
  assumes D: "starves qpack_field bs" and s: "seq_ok s" "k < length (block_prefix (qd_state (hd_qpack dec)) @ bs)"
    "seq_bytes s = take k (block_prefix (qd_state (hd_qpack dec)) @ bs)"
    and e: "expecting dec (length (block_prefix (qd_state (hd_qpack dec)) @ bs) + n)"
  shows "\<exists>s' dec' m. headers_decode_field dec s = (Err Incomplete, s', dec') \<and> seq_ok s' \<and>
    seq_bytes s' = drop m (seq_bytes s) \<and> m \<le> length (seq_bytes s) \<and>
    block_prefix (qd_state (hd_qpack dec)) = take m (block_prefix (qd_state (hd_qpack dec))) @ block_prefix (qd_state (hd_qpack dec')) \<and>
    m \<le> length (block_prefix (qd_state (hd_qpack dec))) \<and>
    expecting dec' (length (block_prefix (qd_state (hd_qpack dec')) @ bs) + n)"
proof -
  let ?q = "hd_qpack dec" let ?p = "block_prefix (qd_state ?q)"
  obtain s' q m where q: "qpack_decode ?q s = (Err Incomplete, s', q)" "seq_ok s'"
    "q = (if m = 0 then ?q else \<lparr> qd_state = Header_due, qd_count = qd_count ?q + word_of_nat m \<rparr>)"
    "m \<le> k" "?p = take m ?p @ block_prefix (qd_state q)" "m \<le> length ?p" "seq_bytes s' = drop m (seq_bytes s)"
    using qpack_decode_short [OF D s(1,2,3)] by blast
  let ?dec = "dec\<lparr>hd_qpack := q\<rparr>"
  have "length ?p = m + length (block_prefix (qd_state q))" using q(5,6) by (metis length_append length_take min.absorb2)
  moreover have "unat (qd_count q) = unat (qd_count ?q) + m"
    using q(3) count_add [of "qd_count ?q" "length (?p @ bs) + n" "hd_size dec" m] e q(6)
    by (auto simp: expecting_def)
  ultimately have "expecting ?dec (length (block_prefix (qd_state q) @ bs) + n)"
    using e by (simp add: expecting_def)
  moreover have "headers_decode_field dec s = (Err Incomplete, s', ?dec)"
    using q(1) by (simp add: headers_decode_field_def)
  moreover have "m \<le> length (seq_bytes s)" using q(4) s(2,3) by simp
  ultimately show ?thesis using q by (intro exI [of _ s'] exI [of _ ?dec] exI [of _ m]) simp
qed

lemma headers_decode_field_step:
  assumes hs: "list_all (\<lambda>h. hashes_apart xxh h \<and> field_ok xxh h) (h # hs)" and s: "seq_ok s"
    and w: "w = concat (block_fields xxh (qd_state (hd_qpack dec)) (h # hs))" "expecting dec (length w)"
    and bytes: "seq_bytes s @ rest = w @ tail"
  shows "\<exists>r s' dec'. headers_decode_field dec s = (r, s', dec') \<and> seq_ok s' \<and>
    (r = Err Incomplete \<and> rest \<noteq> [] \<and>
       (\<exists>w'. headers_due xxh dec' (h # hs) w' \<and> seq_bytes s' @ rest = w' @ tail) \<or>
     r = Ok h \<and> headers_decoder_finished dec' = (hs = []) \<and>
       (if hs = [] then seq_bytes s' @ rest = tail
        else \<exists>w'. headers_due xxh dec' hs w' \<and> seq_bytes s' @ rest = w' @ tail))"
proof -
  let ?p = "block_prefix (qd_state (hd_qpack dec))" and ?f = "field_wire xxh h"
  let ?tail = "concat (block_fields xxh Header_due hs)"
  have D: "reads qpack_field ?f h" "starves qpack_field ?f" using qpack_field_wire hs by simp_all
  have w': "w = (?p @ ?f) @ ?tail" using w(1) by simp
  have e: "expecting dec (length (?p @ ?f) + length ?tail)" using w(2) w' by (simp add: add.assoc)
  have "seq_bytes s @ rest = (?p @ ?f) @ (?tail @ tail)" using bytes w' by simp
  then show ?thesis
  proof (cases rule: prefix_split)
    case short
    from headers_decode_field_short [OF D(2) s short(2,1) e]
    obtain s' dec' m where d: "headers_decode_field dec s = (Err Incomplete, s', dec')" "seq_ok s'"
      "seq_bytes s' = drop m (seq_bytes s)" "m \<le> length (seq_bytes s)"
      "?p = take m ?p @ block_prefix (qd_state (hd_qpack dec'))" "m \<le> length ?p"
      "expecting dec' (length (block_prefix (qd_state (hd_qpack dec')) @ ?f) + length ?tail)"
      by blast
    let ?w = "concat (block_fields xxh (qd_state (hd_qpack dec')) (h # hs))"
    have "headers_due xxh dec' (h # hs) ?w" using hs d(7) by (simp add: headers_due_def add.assoc)
    moreover have "drop m ?p = block_prefix (qd_state (hd_qpack dec'))"
      using d(5,6) by (metis append_eq_conv_conj length_take min.absorb2)
    then have "drop m (seq_bytes s @ rest) = ?w @ tail" using bytes w' d(6) by simp
    then have "seq_bytes s' @ rest = ?w @ tail" using d(3,4) by simp
    moreover have "rest \<noteq> []" using short(2) bytes w' by auto
    ultimately show ?thesis using d(1,2) by blast
  next
    case (long zs)
    then have "seq_bytes s = ?p @ ?f @ zs" by simp
    from headers_decode_field_eq [OF D(1) s this e]
    obtain s' dec' where d: "headers_decode_field dec s = (Ok h, s', dec')" "seq_ok s'" "seq_bytes s' = zs"
      "qd_state (hd_qpack dec') = Header_due"
      "if length ?tail = 0 then headers_decoder_finished dec' else expecting dec' (length ?tail)"
      by blast
    show ?thesis
    proof (cases "hs = []")
      case True
      then show ?thesis using d long(2) by auto
    next
      case False
      then obtain g gs where g: "hs = g # gs" by (cases hs) auto
      then have "field_wire xxh g \<noteq> []" using hs by (simp add: field_wire_not_Nil)
      then have "expecting dec' (length ?tail)" using d(5) g by simp
      then have "headers_due xxh dec' hs ?tail" "\<not> headers_decoder_finished dec'"
        using hs d(4) False by (simp_all add: headers_due_def expecting_def headers_decoder_finished_def)
      moreover have "seq_bytes s' @ rest = ?tail @ tail" using d(3) long(2) by simp
      ultimately show ?thesis using d(1,2) False
        by (intro exI [of _ "Ok h"] exI [of _ s'] exI [of _ dec']) auto
    qed
  qed
qed

lemma headers_decode_step:
  assumes due: "headers_due xxh dec (h # hs) w" and s: "seq_ok s" and bytes: "seq_bytes s @ rest = w @ tail"
  shows "\<exists>r s' dec'. headers_decode dec s = (r, s', dec') \<and> seq_ok s' \<and>
    (r = Err Incomplete \<and> rest \<noteq> [] \<and>
       (\<exists>w'. headers_due xxh dec' (h # hs) w' \<and> seq_bytes s' @ rest = w' @ tail) \<or>
     r = Ok h \<and> headers_decoder_finished dec' = (hs = []) \<and>
       (if hs = [] then seq_bytes s' @ rest = tail
        else \<exists>w'. headers_due xxh dec' hs w' \<and> seq_bytes s' @ rest = w' @ tail))"
proof -
  let ?w = "block_wire xxh (h # hs)" let ?f = "headers_frame ?w"
  have hs: "list_all (\<lambda>h. hashes_apart xxh h \<and> field_ok xxh h) (h # hs)" using due by (simp add: headers_due_def)
  consider (field) "expecting dec (length w)" "w = concat (block_fields xxh (qd_state (hd_qpack dec)) (h # hs))"
    | (frame) "dec = new_headers_decoder" "length ?w < 2 ^ 62" "w = frame_wire ?f @ ?w"
    using due unfolding headers_due_def by blast
  then show ?thesis
  proof cases
    case field
    then have "headers_decode dec s = headers_decode_field dec s" by (simp add: headers_decode_def expecting_def)
    then show ?thesis using headers_decode_field_step [OF hs s field(2,1) bytes] by simp
  next
    case frame
    note f = headers_frame_ok [OF frame(2)]
    have "seq_bytes s @ rest = frame_wire ?f @ (?w @ tail)" using bytes frame(3) by simp
    then show ?thesis
    proof (cases rule: prefix_split)
      case short
      have "one_byte_type ?f" by (simp add: one_byte_type_def headers_frame_def)
      then have peek: "frame_peek s = (if seq_bytes s = [] then Err Incomplete else Ok Headers_type)"
        using frame_peek_part [OF _ s short(1)] by (simp add: headers_frame_def)
      have "frame_decode s = (Err Incomplete, s)"
        by (rule frame_decode_short [OF _ short(2) s short(1)]) (use f in simp)
      then have "headers_decode dec s = (Err Incomplete, s, dec)"
        using peek frame(1) by (simp add: headers_decode_def new_headers_decoder_def)
      moreover have "rest \<noteq> []" using short bytes frame(3) by auto
      ultimately show ?thesis using due s bytes by blast
    next
      case (long zs)
      let ?s = "seq_drop s (length (frame_wire ?f))"
      let ?dec = "new_headers_decoder\<lparr>hd_state := Hd_qpack, hd_size := word_of_nat (length ?w)\<rparr>"
      have peek: "frame_peek s = Ok Headers_type" using frame_peek_wire [OF s long(1)] by (simp add: headers_frame_def)
      have dec: "frame_decode s = (Ok ?f, ?s)" using frame_decode_wire [OF _ s long(1)] f by simp
      have "?w \<noteq> []" using hs by (auto simp: block_wire_def dest: field_wire_not_Nil)
      then have size: "(word_of_nat (length ?w) :: uint64) \<noteq> 0" using f by (auto simp: word_unat_eq_iff)
      have eq: "headers_decode dec s = headers_decode_field ?dec ?s"
        using peek dec f size frame(1) by (simp add: headers_decode_def new_headers_decoder_def)
      have s': "seq_ok ?s" "seq_bytes ?s @ rest = ?w @ tail" using s long by simp_all
      have "expecting ?dec (length ?w)"
        using f frame(2) by (simp add: expecting_def new_headers_decoder_def new_qpack_decoder_def)
      moreover have "?w = concat (block_fields xxh (qd_state (hd_qpack ?dec)) (h # hs))"
        by (simp add: block_wire_def new_headers_decoder_def new_qpack_decoder_def)
      ultimately show ?thesis using headers_decode_field_step [OF hs s'(1) _ _ s'(2)] eq by metis
    qed
  qed
qed

section \<open>A body that arrives in pieces\<close>

text \<open>
  \<open>body_due dec ps w\<close>: the decoder still has to return the buffers \<open>ps\<close> (of the first one perhaps only
  the rest), and the bytes of the stream up to their end are \<open>w\<close>.
\<close>

definition body_due :: "body_decoder \<Rightarrow> bytes list \<Rightarrow> bytes \<Rightarrow> bool" where
  "body_due dec ps w \<longleftrightarrow>
     bd_state dec = Bd_frame \<and> list_all body_ok ps \<and> w = concat (body_chunks ps) \<or>
     bd_state dec = Bd_data \<and> (\<exists>p qs. ps = p # qs \<and> p \<noteq> [] \<and> unat (bd_remaining dec) = length p \<and>
       list_all body_ok qs \<and> w = p @ concat (body_chunks qs))"

lemma body_due_Nil: "body_due dec [] w \<longleftrightarrow> \<not> body_decoder_in_progress dec \<and> w = []"
  by (cases "bd_state dec") (auto simp: body_due_def body_chunks_def body_decoder_in_progress_def)

lemma body_due_end: "body_due dec ps [] \<Longrightarrow> ps = []"
  by (cases ps) (auto simp: body_due_def body_chunks_def body_ok_def)

lemma body_decode_part_step:
  assumes s: "seq_ok s" "in_buffers s" and p: "p \<noteq> []" "unat (bd_remaining dec) = length p" "list_all body_ok qs"
    and st: "bd_state dec = Bd_data" and bytes: "seq_bytes s @ rest = p @ concat (body_chunks qs)"
  shows "\<exists>r s' dec'. body_decode_part dec s = (r, s', dec') \<and> seq_ok s' \<and>
    (r = Err Incomplete \<and> rest \<noteq> [] \<and> (\<exists>w'. body_due dec' (p # qs) w' \<and> seq_bytes s' @ rest = w') \<or>
     (\<exists>b ps'. r = Ok b \<and> b \<noteq> [] \<and> concat (p # qs) = b @ concat ps' \<and>
       (\<exists>w'. body_due dec' ps' w' \<and> seq_bytes s' @ rest = w')))"
proof (cases "seq_bytes s = []")
  case True
  then have "body_decode_part dec s = (Err Incomplete, s, dec)" using s by (simp add: body_decode_part_def)
  moreover have "body_due dec (p # qs) (p @ concat (body_chunks qs))" using p st by (simp add: body_due_def)
  moreover have "rest \<noteq> []" using True bytes p(1) by auto
  ultimately show ?thesis using s(1) bytes by blast
next
  case False
  let ?n = "min (length (seq_bytes s)) (unat (bd_remaining dec))"
  have n: "?n = min (length (seq_bytes s)) (length p)" by (simp add: p(2))
  have "\<not> is_lookahead s" using s(2) by (auto elim: in_buffersE)
  from body_decode_part_eq [OF s(1) this False refl]
  obtain s' where s': "body_decode_part dec s = (Ok (take ?n (seq_bytes s)), s',
      \<lparr> bd_state = (if ?n = unat (bd_remaining dec) then Bd_frame else bd_state dec),
        bd_remaining = bd_remaining dec - word_of_nat ?n \<rparr>)"
    "seq_bytes s' = drop ?n (seq_bytes s)" "seq_ok s'"
    by blast
  let ?dec = "\<lparr> bd_state = (if ?n = unat (bd_remaining dec) then Bd_frame else bd_state dec),
        bd_remaining = bd_remaining dec - word_of_nat ?n \<rparr>"
  have b: "take ?n (seq_bytes s) = take ?n p"
    using arg_cong [OF bytes, of "take ?n"] by (simp add: n)
  have rest: "seq_bytes s' @ rest = drop ?n p @ concat (body_chunks qs)"
    using arg_cong [OF bytes, of "drop ?n"] s'(2) by (simp add: n)
  have ne: "take ?n p \<noteq> []" using False p(1) n by simp
  have "\<exists>ps'. concat (p # qs) = take ?n p @ concat ps' \<and> body_due ?dec ps' (drop ?n p @ concat (body_chunks qs))"
  proof (cases "?n = length p")
    case True
    then show ?thesis using p by (intro exI [of _ qs]) (simp add: body_due_def)
  next
    case False
    then have "unat (bd_remaining dec - word_of_nat ?n) = length (drop ?n p)"
      using remaining_after [of ?n "bd_remaining dec"] p(2) by simp
    moreover have "drop ?n p \<noteq> []" using False n by simp
    ultimately show ?thesis using p(2,3) st False n
      by (intro exI [of _ "drop ?n p # qs"]) (simp add: body_due_def flip: append_assoc)
  qed
  then show ?thesis using s'(1,3) b ne rest by metis
qed

lemma body_decode_step:
  assumes due: "body_due dec (p # ps) w" and s: "seq_ok s" "in_buffers s" and bytes: "seq_bytes s @ rest = w"
  shows "\<exists>r s' dec'. body_decode dec s = (r, s', dec') \<and> seq_ok s' \<and>
    (r = Err Incomplete \<and> rest \<noteq> [] \<and> (\<exists>w'. body_due dec' (p # ps) w' \<and> seq_bytes s' @ rest = w') \<or>
     (\<exists>b ps'. r = Ok b \<and> b \<noteq> [] \<and> concat (p # ps) = b @ concat ps' \<and>
       (\<exists>w'. body_due dec' ps' w' \<and> seq_bytes s' @ rest = w')))"
proof (cases "bd_state dec")
  case Bd_data
  then have "body_decode dec s = body_decode_part dec s" by (simp add: body_decode_def)
  moreover have "p \<noteq> []" "unat (bd_remaining dec) = length p" "list_all body_ok ps" "w = p @ concat (body_chunks ps)"
    using due Bd_data by (simp_all add: body_due_def)
  ultimately show ?thesis using body_decode_part_step [OF s _ _ _ Bd_data] bytes by simp
next
  case Bd_frame
  let ?f = "data_frame p"
  have p: "body_ok p" "list_all body_ok ps" "w = frame_wire ?f @ p @ concat (body_chunks ps)"
    using due Bd_frame by (simp_all add: body_due_def body_chunks_def)
  then have len: "length p < 2 ^ 62" "p \<noteq> []" by (simp_all add: body_ok_def)
  note f = data_frame_ok [OF len(1)]
  have "seq_bytes s @ rest = frame_wire ?f @ (p @ concat (body_chunks ps))" using bytes p(3) by simp
  then show ?thesis
  proof (cases rule: prefix_split)
    case short
    have "one_byte_type ?f" by (simp add: one_byte_type_def data_frame_def)
    then have peek: "frame_peek s = (if seq_bytes s = [] then Err Incomplete else Ok Data_type)"
      using frame_peek_part [OF _ s(1) short(1)] by (simp add: data_frame_def)
    have "frame_decode s = (Err Incomplete, s)" by (rule frame_decode_short [OF f(1) short(2) s(1) short(1)])
    then have "body_decode dec s = (Err Incomplete, s, dec)" using peek Bd_frame by (simp add: body_decode_def)
    moreover have "rest \<noteq> []" using short bytes p(3) by auto
    ultimately show ?thesis using due s bytes by blast
  next
    case (long zs)
    let ?s = "seq_drop s (length (frame_wire ?f))"
    let ?dec = "\<lparr> bd_state = Bd_data, bd_remaining = word_of_nat (length p) \<rparr>"
    have "frame_peek s = Ok Data_type" using frame_peek_wire [OF s(1) long(1)] by (simp add: data_frame_def)
    moreover have "frame_decode s = (Ok ?f, ?s)" by (rule frame_decode_wire [OF f(1) s(1) long(1)])
    ultimately have "body_decode dec s = body_decode_part ?dec ?s"
      using Bd_frame by (cases dec) (simp add: body_decode_def data_frame_def)
    moreover have "seq_ok ?s" "in_buffers ?s" "seq_bytes ?s @ rest = p @ concat (body_chunks ps)"
      using s long by simp_all
    ultimately show ?thesis using body_decode_part_step [of ?s p ?dec ps rest] len(2) f(2) p(2) by simp
  qed
qed

section \<open>Every header and every body part takes something\<close>

text \<open>
  On arbitrary bytes: a decoder that returns a value has taken at least one byte. This is what makes
  the loops over events end.
\<close>

definition advances :: "(sequence \<Rightarrow> ('a, error) result \<times> sequence) \<Rightarrow> bool" where
  "advances D \<longleftrightarrow>
     (\<forall>l v l'. lookahead_ok l \<longrightarrow> D l = (Ok v, l') \<longrightarrow> length (seq_bytes l') < length (seq_bytes l))"

lemma advancesD:
  "advances D \<Longrightarrow> lookahead_ok l \<Longrightarrow> D l = (Ok v, l') \<Longrightarrow> length (seq_bytes l') < length (seq_bytes l)"
  by (simp add: advances_def)

lemma advances_try:
  assumes D: "advances D" "moves D E" and K: "\<And>v. moves (K v) E"
  shows "advances (\<lambda>l. try_state (D l) K)"
  unfolding advances_def
proof (intro allI impI)
  fix l w l'
  assume l: "lookahead_ok l" and w: "try_state (D l) K = (Ok w, l')"
  obtain r n where r: "D l = (r, seq_drop l n)" using movesD [OF D(2) l] by blast
  then obtain v where v: "r = Ok v" using w by (cases r) simp_all
  then have less: "length (seq_bytes (seq_drop l n)) < length (seq_bytes l)" using advancesD [OF D(1) l] r by simp
  have ok: "lookahead_ok (seq_drop l n)" using l by simp
  obtain r' m where "K v (seq_drop l n) = (r', seq_drop (seq_drop l n) m)" and m: "m \<le> length (seq_bytes (seq_drop l n))"
    using movesD [OF K ok] by blast
  then have "l' = seq_drop (seq_drop l n) m" using w r v by simp
  moreover have "seq_bytes (seq_drop (seq_drop l n) m) = drop m (seq_bytes (seq_drop l n))"
    by (rule seq_bytes_drop [OF _ m]) (use ok in simp)
  ultimately have "length (seq_bytes l') \<le> length (seq_bytes (seq_drop l n))" by simp
  then show "length (seq_bytes l') < length (seq_bytes l)" using less by simp
qed

lemma advances_commit:
  assumes D: "advances D" "moves D E"
  shows "advances (commit D)"
  unfolding advances_def
proof (intro allI impI)
  fix l v l'
  assume l: "lookahead_ok l" and c: "commit D l = (Ok v, l')"
  obtain r n where r: "D (seq_lookahead l) = (r, seq_drop (seq_lookahead l) n)" "n \<le> length (seq_bytes l)"
    using movesD [OF D(2), of "seq_lookahead l"] l by auto
  then have v: "r = Ok v" using c by (cases r) (auto simp: commit_def try_in_def or_fault_def split: option.splits)
  have "length (seq_bytes (seq_drop (seq_lookahead l) n)) < length (seq_bytes (seq_lookahead l))"
    using advancesD [OF D(1) _ r(1) [unfolded v]] l by simp
  then have "0 < n" using r(2) l by simp
  moreover have "l' = seq_drop l n" using c r l v by (simp add: commit_def seq_consume_eq)
  ultimately show "length (seq_bytes l') < length (seq_bytes l)" using r(2) l by simp
qed

lemma advances_prefix_int: "advances (\<lambda>l. prefix_int_decode l p)"
proof -
  have "advances prefix_uint8_decode"
    unfolding advances_def
  proof (intro allI impI)
    fix l v l'
    assume "lookahead_ok l" "prefix_uint8_decode l = (Ok v, l')"
    then show "length (seq_bytes l') < length (seq_bytes l)"
      using prefix_uint8_decode_Nil [of l] prefix_uint8_decode_Cons [of l] by (cases "seq_bytes l") auto
  qed
  then have "advances (\<lambda>l. try_state (prefix_uint8_decode l) (\<lambda>b l.
      let result = ucast b AND ucast (prefix_max p) in
      try_state (if result \<ge> ucast (prefix_max p) then prefix_int_decode_loop result 0 l else (Ok result, l))
        (\<lambda>v l. (Ok v, l))))"
    unfolding Let_def
    by (rule advances_try [where E = "{Incomplete}"])
      (intro moves_try moves_uint8 moves_if moves_prefix_loop moves_return; simp)+
  then show ?thesis unfolding advances_def using prefix_int_decode_lookahead by simp
qed

lemma advances_at:
  assumes D: "\<And>b. advances (D b)"
  shows "advances (\<lambda>l. if seq_empty l then (Err Incomplete, l) else try_in l (or_fault (seq_at l 0)) (\<lambda>b. D b l))"
  unfolding advances_def
proof (intro allI impI)
  fix l v l'
  assume l: "lookahead_ok l"
    and r: "(if seq_empty l then (Err Incomplete, l) else try_in l (or_fault (seq_at l 0)) (\<lambda>b. D b l)) = (Ok v, l')"
  then obtain b where "D b l = (Ok v, l')"
    by (auto simp: try_in_def or_fault_def split: if_splits option.splits)
  then show "length (seq_bytes l') < length (seq_bytes l)" using advancesD [OF D l] by blast
qed

lemma advances_literal: "advances (\<lambda>l. literal_decode l p)"
proof -
  let ?E = "{Incomplete, Qpack_decompression_failed}"
  have "advances (\<lambda>l. try_state (prefix_int_decode l p) (literal_payload flag))" for flag
    by (rule advances_try [OF advances_prefix_int, where E = ?E]) (intro moves_prefix_int moves_payload; simp)+
  then have "advances (literal_body p)"
    unfolding literal_body_def [abs_def] Let_def by (intro advances_at)
  moreover have "moves (literal_body p) ?E"
    unfolding literal_body_def [abs_def] Let_def
    by (intro moves_at moves_try moves_prefix_int moves_payload) simp_all
  ultimately show ?thesis unfolding literal_decode_def by (rule advances_commit)
qed

lemma advances_field: "advances qpack_field"
proof -
  have "advances (\<lambda>l. case find_type b of
          Header_value \<Rightarrow>
            if b AND 0x40 = 0 then (Err Qpack_decompression_failed, l) else decode_indexed l
        | Header_only \<Rightarrow>
            if b AND 0x10 = 0 then (Err Qpack_decompression_failed, l) else decode_with_name_reference l
        | Missing \<Rightarrow> decode_without_name_reference l
        | Unknown \<Rightarrow> (Err Qpack_decompression_failed, l))" for b
  proof -
    have "advances decode_indexed" "advances decode_with_name_reference" "advances decode_without_name_reference"
      unfolding decode_indexed_def [abs_def] decode_with_name_reference_def [abs_def]
        decode_without_name_reference_def [abs_def] Let_def prod.case_eq_if
      by (rule advances_try [OF advances_prefix_int, where E = qpack_errors] advances_try [OF advances_literal, where E = qpack_errors];
          intro moves_try moves_prefix_int moves_literal moves_if moves_return; auto)+
    moreover have "advances (\<lambda>l. (Err e, l))" for e by (simp add: advances_def)
    ultimately show ?thesis by (cases "find_type b") (auto simp: advances_def)
  qed
  then show ?thesis unfolding qpack_field_def [abs_def] by (rule advances_at)
qed

lemma qpack_decode_advances:
  assumes s: "seq_ok s" and d: "qpack_decode dec s = (Ok h, s', dec')"
  shows "seq_ok s' \<and> length (seq_bytes s') < length (seq_bytes s)"
proof -
  have field: "seq_ok t' \<and> length (seq_bytes t') < length (seq_bytes t)"
    if "seq_ok t" "qd_state q = Header_due" "qpack_decode q t = (Ok h, t', q')" for q t t' q'
  proof -
    have l: "lookahead_ok (seq_lookahead t)" using that(1) by simp
    obtain r n where r: "qpack_field (seq_lookahead t) = (r, seq_drop (seq_lookahead t) n)" "n \<le> length (seq_bytes t)"
      using movesD [OF moves_field l] by auto
    then have h: "r = Ok h" using that(2,3)
      by (cases r) (auto simp: qpack_decode_def qpack_decode_prefix_def Let_def try_in_def or_fault_def split: option.splits)
    then have "length (seq_bytes (seq_drop (seq_lookahead t) n)) < length (seq_bytes (seq_lookahead t))"
      using advancesD [OF advances_field l] r(1) by simp
    then have "0 < n" using r(2) that(1) by simp
    moreover have "t' = seq_drop t n" using that r h
      by (simp add: qpack_decode_def qpack_decode_prefix_def Let_def seq_consume_eq)
    ultimately show ?thesis using r(2) that(1) by simp
  qed
  show ?thesis
  proof (cases "qd_state dec")
    case Header_due
    then show ?thesis using field [OF s _ d] by simp
  next
    case Prefix_due
    then have two: "\<not> length (seq_bytes s) < 2" "qpack_decode (dec\<lparr>qd_count := qd_count dec + 2, qd_state := Header_due\<rparr>) (seq_drop s 2) =
        (Ok h, s', dec')"
      using d qpack_decode_prefix_due [OF s Prefix_due] by (auto split: if_splits)
    have "seq_ok s' \<and> length (seq_bytes s') < length (seq_bytes s) - 2" using field [OF _ _ two(2)] s two(1) by simp
    then show ?thesis by linarith
  qed
qed

lemma frame_decode_advances:
  "seq_ok s \<Longrightarrow> frame_decode s = (Ok f, s') \<Longrightarrow> seq_ok s' \<and> length (seq_bytes s') < length (seq_bytes s)"
  using frame_decode_result [of s] by fastforce

lemma headers_decode_advances:
  assumes s: "seq_ok s" and d: "headers_decode dec s = (Ok h, s', dec')"
  shows "seq_ok s' \<and> length (seq_bytes s') < length (seq_bytes s)"
proof -
  have field: "seq_ok t' \<and> length (seq_bytes t') < length (seq_bytes t)"
    if "seq_ok t" "headers_decode_field q t = (Ok h, t', q')" for q t t' q'
    using that qpack_decode_advances [OF that(1)]
    by (auto simp: headers_decode_field_def Let_def split: prod.splits result.splits if_splits)
  show ?thesis
  proof (cases "hd_state dec")
    case Hd_frame
    then obtain f t dec1 where f: "frame_decode s = (Ok f, t)" "headers_decode_field dec1 t = (Ok h, s', dec')"
      using d by (auto simp: headers_decode_def try_in_def or_fault_def Let_def
          split: result.splits prod.splits option.splits if_splits)
    then show ?thesis using frame_decode_advances [OF s f(1)] field [OF _ f(2)] by auto
  qed (use d field [OF s] in \<open>auto simp: headers_decode_def\<close>)
qed

text \<open>
  A body part may be empty: the frame of size zero of which only the header had arrived. The decoder
  returns it without taking a byte, but it cannot do so twice.
\<close>

definition body_left :: "body_decoder \<Rightarrow> bytes \<Rightarrow> nat" where
  "body_left dec bs = 2 * length bs + (if bd_state dec = Bd_data \<and> bd_remaining dec = 0 then 1 else 0)"

lemma body_decode_part_left:
  assumes s: "seq_ok s" "in_buffers s" and d: "body_decode_part dec s = (Ok b, s', dec')" and st: "bd_state dec = Bd_data"
  shows "body_left dec' (seq_bytes s') < 2 * length (seq_bytes s) + (if bd_remaining dec = 0 then 1 else 0)"
proof -
  have ne: "seq_bytes s \<noteq> []" using d s by (auto simp: body_decode_part_def)
  let ?n = "min (length (seq_bytes s)) (unat (bd_remaining dec))"
  have "\<not> is_lookahead s" using s(2) by (auto elim: in_buffersE)
  from body_decode_part_eq [OF s(1) this ne refl [of ?n]] d
  have s': "seq_bytes s' = drop ?n (seq_bytes s)"
    "dec' = \<lparr> bd_state = (if ?n = unat (bd_remaining dec) then Bd_frame else bd_state dec),
        bd_remaining = bd_remaining dec - word_of_nat ?n \<rparr>"
    by auto
  have "unat (bd_remaining dec - word_of_nat ?n) = unat (bd_remaining dec) - ?n" by (rule remaining_after) simp
  then have "\<not> (bd_state dec' = Bd_data \<and> bd_remaining dec' = 0)" using s'(2)
    by (auto simp: word_unat_eq_iff split: if_splits)
  moreover have "?n = 0 \<longrightarrow> bd_remaining dec = 0" using ne by (auto simp: min_def word_unat_eq_iff split: if_splits)
  moreover have "?n \<le> length (seq_bytes s)" by simp
  ultimately show ?thesis using s'(1) ne by (cases "?n = 0") (auto simp: body_left_def)
qed

lemma body_decode_left:
  assumes s: "seq_ok s" "in_buffers s" and d: "body_decode dec s = (Ok b, s', dec')"
  shows "body_left dec' (seq_bytes s') < body_left dec (seq_bytes s)"
proof (cases "bd_state dec")
  case Bd_data
  then have "body_decode_part dec s = (Ok b, s', dec')" using d by (simp add: body_decode_def)
  then show ?thesis using body_decode_part_left [OF s _ Bd_data] Bd_data by (simp add: body_left_def)
next
  case Bd_frame
  then obtain f t dec1 where f: "frame_decode s = (Ok f, t)" "body_decode_part dec1 t = (Ok b, s', dec')"
      "bd_state dec1 = Bd_data"
    using d by (auto simp: body_decode_def try_in_def or_fault_def Let_def
        split: result.splits prod.splits option.splits if_splits)
  have "seq_ok t" "length (seq_bytes t) < length (seq_bytes s)" using frame_decode_advances [OF s(1) f(1)] by auto
  moreover have "in_buffers t" using frame_decode_in_buffers [OF f(1) s(2)] .
  ultimately show ?thesis using body_decode_part_left [OF _ _ f(2,3)] by (auto simp: body_left_def split: if_splits)
qed

end
