(* ===== verification/Request.thy ===== *)
theory Request
  imports Message
begin

text \<open>
  The request streams (\<open>endpoint/stream/request.cpp\<close> with the overrides of
  \<open>client/stream/request.cpp\<close> and \<open>server/stream/request.cpp\<close>): the sender drains a header encoder and
  then a body encoder, the receiver turns the bytes of the peer into header, body and finished events.
  The links between senders and handles are in \<open>Handles\<close>.
\<close>

section \<open>sender\<close>

datatype request_sender_state = Rs_headers | Rs_body | Rs_fin

text \<open>\<open>rs_handle\<close> is the pointer \<open>handle_\<close>, the address of a handle.\<close>

record request_sender =
  rs_handle :: "nat option"
  rs_state :: request_sender_state
  rs_headers :: headers_encoder
  rs_body :: body_encoder
  rs_id :: uint64

definition new_request_sender :: "uint64 \<Rightarrow> request_sender" where
  "new_request_sender i =
     \<lparr> rs_handle = None, rs_state = Rs_headers, rs_headers = new_headers_encoder,
       rs_body = new_body_encoder, rs_id = i \<rparr>"

definition request_sender_finished :: "request_sender \<Rightarrow> bool" where
  "request_sender_finished s \<longleftrightarrow> rs_state s = Rs_fin"

definition request_send ::
  "(nat \<Rightarrow> byte) \<Rightarrow> request_sender \<Rightarrow> (quic_event, error) result \<times> request_sender" where
  "request_send junk s =
     (case rs_state s of
        Rs_headers \<Rightarrow>
          try_state (on_member (\<lambda>enc. s\<lparr>rs_headers := enc\<rparr>) (headers_encoder_encode junk (rs_headers s)))
            (\<lambda>encoded s.
             let s = (if headers_encoder_finished (rs_headers s)
                      then s\<lparr>rs_state := (if body_encoder_finished (rs_body s) then Rs_fin else Rs_body)\<rparr>
                      else s);
                 fin = (headers_encoder_finished (rs_headers s) \<and> body_encoder_finished (rs_body s))
             in (Ok (Quic_data (make_data (rs_id s) fin encoded)), s))
      | Rs_body \<Rightarrow>
          try_state (on_member (\<lambda>enc. s\<lparr>rs_body := enc\<rparr>) (body_encoder_encode junk (rs_body s)))
            (\<lambda>encoded s.
             let s = (if body_encoder_finished (rs_body s) then s\<lparr>rs_state := Rs_fin\<rparr> else s)
             in (Ok (Quic_data (make_data (rs_id s) (body_encoder_finished (rs_body s)) encoded)), s))
      | Rs_fin \<Rightarrow> (Err Internal, s))"

definition request_sender_header ::
  "(string \<Rightarrow> uint64) \<Rightarrow> (nat \<Rightarrow> byte) \<Rightarrow> header \<Rightarrow> request_sender \<Rightarrow> (unit, error) result \<times> request_sender" where
  "request_sender_header xxh junk header s =
     on_member (\<lambda>enc. s\<lparr>rs_headers := enc\<rparr>) (headers_encoder_add xxh junk header (rs_headers s))"

definition request_sender_body :: "bytes \<Rightarrow> request_sender \<Rightarrow> (unit, error) result \<times> request_sender" where
  "request_sender_body body s =
     on_member (\<lambda>enc. s\<lparr>rs_body := enc\<rparr>) (body_encoder_add body (rs_body s))"

definition request_sender_start :: "request_sender \<Rightarrow> (unit, error) result \<times> request_sender" where
  "request_sender_start s =
     on_member (\<lambda>enc. s\<lparr>rs_headers := enc\<rparr>) (headers_encoder_fin (rs_headers s))"

definition request_sender_fin :: "request_sender \<Rightarrow> (unit, error) result \<times> request_sender" where
  "request_sender_fin s =
     on_member (\<lambda>enc. s\<lparr>rs_body := enc\<rparr>) (body_encoder_fin (rs_body s))"

section \<open>receiver\<close>

datatype request_receiver_state = Rr_closed | Rr_headers | Rr_body | Rr_fin

record request_receiver =
  rr_state :: request_receiver_state
  rr_buffers :: buffers
  rr_fin_received :: bool
  rr_headers :: headers_decoder
  rr_body :: body_decoder
  rr_id :: uint64

definition new_request_receiver :: "uint64 \<Rightarrow> request_receiver" where
  "new_request_receiver i =
     \<lparr> rr_state = Rr_closed, rr_buffers = [], rr_fin_received = False,
       rr_headers = new_headers_decoder, rr_body = new_body_decoder, rr_id = i \<rparr>"

definition request_receiver_closed :: "request_receiver \<Rightarrow> bool" where
  "request_receiver_closed r \<longleftrightarrow> rr_state r = Rr_closed"

definition request_receiver_finished :: "request_receiver \<Rightarrow> bool" where
  "request_receiver_finished r \<longleftrightarrow> rr_state r = Rr_fin"

text \<open>\<open>assert(state_ == state::closed)\<close>.\<close>

definition request_receiver_start :: "request_receiver \<Rightarrow> (unit, error) result \<times> request_receiver" where
  "request_receiver_start r =
     (if rr_state r \<noteq> Rr_closed then (Fault, r) else (Ok (), r\<lparr>rr_state := Rr_headers\<rparr>))"

definition request_recv :: "quic_data \<Rightarrow> request_receiver \<Rightarrow> (unit, error) result \<times> request_receiver" where
  "request_recv data r =
     (if rr_fin_received r then (Err Internal, r)
      else (Ok (), r\<lparr>rr_fin_received := data_fin data,
                     rr_buffers := buffers_push (rr_buffers r) (data_buffer data)\<rparr>))"

text \<open>The three decoders applied to \<open>buffers_\<close>.\<close>

definition request_frame :: "request_receiver \<Rightarrow> (frame, error) result \<times> request_receiver" where
  "request_frame r =
     on_member (\<lambda>s. r\<lparr>rr_buffers := seq_buffers s\<rparr>) (frame_decode (Buffers_seq (rr_buffers r)))"

definition request_decode_header :: "request_receiver \<Rightarrow> (header, error) result \<times> request_receiver" where
  "request_decode_header r =
     on_member (\<lambda>(s, dec). r\<lparr>rr_buffers := seq_buffers s, rr_headers := dec\<rparr>)
       (headers_decode (rr_headers r) (Buffers_seq (rr_buffers r)))"

definition request_decode_body :: "request_receiver \<Rightarrow> (bytes, error) result \<times> request_receiver" where
  "request_decode_body r =
     on_member (\<lambda>(s, dec). r\<lparr>rr_buffers := seq_buffers s, rr_body := dec\<rparr>)
       (body_decode (rr_body r) (Buffers_seq (rr_buffers r)))"

text \<open>
  A decoder that fails leaves the \<open>switch\<close> with its error. \<open>delegate\<close> means that the next frame is not
  one the decoder handles: it is decoded here, and what is left of the frame types goes to the virtual
  \<open>process(frame)\<close>, which sees the header decoder.
\<close>

definition request_failed ::
  "(headers_decoder \<Rightarrow> frame \<Rightarrow> (event, error) result) \<Rightarrow> error \<Rightarrow> request_receiver \<Rightarrow>
   (event, error) result \<times> request_receiver" where
  "request_failed handle error r =
     (if error = Incomplete \<and> rr_fin_received r then (Err Malformed_frame, r)
      else if error = Delegate then
        try_state (request_frame r) (\<lambda>frame r.
        case type_of frame of
          Headers_type \<Rightarrow>
            if rr_state r = Rr_body then
              try_in r (or_fault (buffers_consume (rr_buffers r) (buffers_size (rr_buffers r)))) (\<lambda>bs.
              (Ok (Ev_body (make_data (rr_id r) True [])), r\<lparr>rr_buffers := bs, rr_state := Rr_fin\<rparr>))
            else (Err error, r)
        | Data_type \<Rightarrow> (Err Unexpected_frame, r)
        | Settings_type \<Rightarrow> (Err Wrong_stream, r)
        | Max_push_id_type \<Rightarrow> (Err Wrong_stream, r)
        | Cancel_push_type \<Rightarrow> (Err Wrong_stream, r)
        | Goaway_type \<Rightarrow> (Err Wrong_stream, r)
        | _ \<Rightarrow> (handle (rr_headers r) frame, r))
      else (Err error, r))"

definition request_process ::
  "(headers_decoder \<Rightarrow> frame \<Rightarrow> (event, error) result) \<Rightarrow> request_receiver \<Rightarrow>
   (event, error) result \<times> request_receiver" where
  "request_process handle r =
     (case rr_state r of
        Rr_closed \<Rightarrow> (Err Internal, r)
      | Rr_headers \<Rightarrow>
          (case request_decode_header r of
             (Ok h, r) \<Rightarrow>
               let fin = (buffers_empty (rr_buffers r) \<and> rr_fin_received r);
                   finished = headers_decoder_finished (rr_headers r);
                   r = (if finished \<and> fin then r\<lparr>rr_state := Rr_fin\<rparr>
                        else if finished then r\<lparr>rr_state := Rr_body\<rparr> else r)
               in (Ok (Ev_header (rr_id r) finished h), r)
           | (Err e, r) \<Rightarrow> request_failed handle e r
           | (Fault, r) \<Rightarrow> (Fault, r))
      | Rr_body \<Rightarrow>
          (case request_decode_body r of
             (Ok b, r) \<Rightarrow>
               let fin = (buffers_empty (rr_buffers r) \<and> rr_fin_received r)
               in if fin \<and> body_decoder_in_progress (rr_body r) then (Err Malformed_frame, r)
                  else (Ok (Ev_body (make_data (rr_id r) fin b)),
                        if fin then r\<lparr>rr_state := Rr_fin\<rparr> else r)
           | (Err e, r) \<Rightarrow> request_failed handle e r
           | (Fault, r) \<Rightarrow> (Fault, r))
      | Rr_fin \<Rightarrow> (Ok (Ev_finished (rr_id r)), r))"

section \<open>client and server\<close>

definition client_request_frame :: "headers_decoder \<Rightarrow> frame \<Rightarrow> (event, error) result" where
  "client_request_frame headers frame =
     (case type_of frame of
        Push_promise_type \<Rightarrow> Err Not_implemented
      | Duplicate_push_type \<Rightarrow> Err Not_implemented
      | Headers_type \<Rightarrow> Err Unexpected_frame
      | Priority_type \<Rightarrow> Err Unexpected_frame
      | _ \<Rightarrow> Err Internal)"

definition server_request_frame :: "headers_decoder \<Rightarrow> frame \<Rightarrow> (event, error) result" where
  "server_request_frame headers frame =
     (case type_of frame of
        Priority_type \<Rightarrow>
          if headers_decoder_started headers then Err Unexpected_frame else Err Not_implemented
      | Headers_type \<Rightarrow> Err Unexpected_frame
      | Push_promise_type \<Rightarrow> Err Unexpected_frame
      | Duplicate_push_type \<Rightarrow> Err Unexpected_frame
      | _ \<Rightarrow> Err Internal)"

text \<open>The contract of the override: it rejects, whatever the header decoder has seen.\<close>

locale rejecting_request =
  fixes handle :: "headers_decoder \<Rightarrow> frame \<Rightarrow> (event, error) result"
  assumes rejects_all: "rejecting (handle headers)"

sublocale rejecting_request \<subseteq> frame: rejecting "handle headers" for headers
  by (rule rejects_all)

interpretation client_request: rejecting_request client_request_frame
  by unfold_locales (simp add: client_request_frame_def split: frame_type.split)

interpretation server_request: rejecting_request server_request_frame
  by unfold_locales (simp add: server_request_frame_def split: frame_type.split)

section \<open>What a sender hands out\<close>

text \<open>A client of the sender: it adds headers and bodies and takes \<open>n\<close> events.\<close>

fun request_add_headers ::
  "(string \<Rightarrow> uint64) \<Rightarrow> (nat \<Rightarrow> byte) \<Rightarrow> header list \<Rightarrow> request_sender \<Rightarrow> (unit, error) result \<times> request_sender" where
  "request_add_headers xxh junk [] s = (Ok (), s)"
| "request_add_headers xxh junk (h # hs) s =
     try_state (request_sender_header xxh junk h s) (\<lambda>_ s. request_add_headers xxh junk hs s)"

fun request_add_bodies :: "bytes list \<Rightarrow> request_sender \<Rightarrow> (unit, error) result \<times> request_sender" where
  "request_add_bodies [] s = (Ok (), s)"
| "request_add_bodies (b # bs) s = try_state (request_sender_body b s) (\<lambda>_ s. request_add_bodies bs s)"

fun request_drain ::
  "(nat \<Rightarrow> byte) \<Rightarrow> nat \<Rightarrow> request_sender \<Rightarrow> (quic_event list, error) result \<times> request_sender" where
  "request_drain junk 0 s = (Ok [], s)"
| "request_drain junk (Suc n) s =
     try_state (request_send junk s) (\<lambda>e s.
     try_state (request_drain junk n s) (\<lambda>es s. (Ok (e # es), s)))"

definition write_message ::
  "(string \<Rightarrow> uint64) \<Rightarrow> (nat \<Rightarrow> byte) \<Rightarrow> header list \<Rightarrow> bytes list \<Rightarrow> request_sender \<Rightarrow>
   (unit, error) result \<times> request_sender" where
  "write_message xxh junk hs bs s =
     try_state (request_add_headers xxh junk hs s) (\<lambda>_ s.
     try_state (request_sender_start s) (\<lambda>_ s.
     try_state (request_add_bodies bs s) (\<lambda>_ s. request_sender_fin s)))"

text \<open>Data events of one stream of which only the last may carry the FIN.\<close>

fun as_data :: "uint64 \<Rightarrow> bool \<Rightarrow> bytes list \<Rightarrow> quic_data list" where
  "as_data i fin [] = []"
| "as_data i fin (b # bs) = make_data i (fin \<and> bs = []) b # as_data i fin bs"

definition message_chunks :: "(string \<Rightarrow> uint64) \<Rightarrow> header list \<Rightarrow> bytes list \<Rightarrow> bytes list" where
  "message_chunks xxh hs bs =
     frame_wire (headers_frame (block_wire xxh hs)) # block_fields xxh Prefix_due hs @ body_chunks bs"

definition message_length :: "header list \<Rightarrow> bytes list \<Rightarrow> nat" where
  "message_length hs bs = Suc (length hs) + 2 * length bs"

lemma as_data_simps [simp]:
  "map data_buffer (as_data i fin bs) = bs" "length (as_data i fin bs) = length bs"
  "list_all (\<lambda>d. data_id d = i) (as_data i fin bs)"
  by (induction bs) simp_all

lemma as_data_append: "ys \<noteq> [] \<Longrightarrow> as_data i fin (xs @ ys) = as_data i False xs @ as_data i fin ys"
  by (induction xs) simp_all

lemma as_data_fin: "bs \<noteq> [] \<Longrightarrow> map data_fin (as_data i True bs) = replicate (length bs - 1) False @ [True]"
proof (induction bs)
  case (Cons b bs)
  then show ?case by (cases bs) simp_all
qed simp

lemma request_add_headers_eq:
  "request_add_headers xxh junk hs s =
     on_member (\<lambda>enc. s\<lparr>rs_headers := enc\<rparr>) (add_headers xxh junk hs (rs_headers s))"
proof (induction hs arbitrary: s)
  case (Cons h hs)
  then show ?case
    by (cases "headers_encoder_add xxh junk h (rs_headers s)")
      (auto simp: request_sender_header_def on_member_def try_state_def split: result.splits prod.splits)
qed simp

lemma request_add_bodies_eq:
  "\<not> be_fin (rs_body s) \<Longrightarrow>
   request_add_bodies bs s = (Ok (), s\<lparr>rs_body := rs_body s\<lparr>be_buffers := be_buffers (rs_body s) @ bs\<rparr>\<rparr>)"
proof (induction bs arbitrary: s)
  case (Cons b bs)
  then show ?case by (simp add: request_sender_body_def body_encoder_add_def buffers_push_def)
qed simp

lemma request_drain_append:
  "request_drain junk (m + n) s =
     try_state (request_drain junk m s) (\<lambda>es s.
     try_state (request_drain junk n s) (\<lambda>fs s. (Ok (es @ fs), s)))"
proof (induction m arbitrary: s)
  case 0
  then show ?case by (auto simp: try_state_def split: prod.splits result.splits)
next
  case (Suc m)
  then show ?case by (auto simp: try_state_def split: prod.splits result.splits)
qed

lemma request_drain_fields:
  "rs_state s = Rs_headers \<Longrightarrow> he_state (rs_headers s) = He_qpack \<Longrightarrow> he_buffers (rs_headers s) = b # bs \<Longrightarrow>
   list_all (\<lambda>b. b \<noteq> []) (b # bs) \<Longrightarrow>
   request_drain junk (Suc (length bs)) s =
     (Ok (map Quic_data (as_data (rs_id s) (body_encoder_finished (rs_body s)) (b # bs))),
      s\<lparr>rs_headers := (rs_headers s)\<lparr>he_buffers := [], he_state := He_fin\<rparr>,
        rs_state := (if body_encoder_finished (rs_body s) then Rs_fin else Rs_body)\<rparr>)"
proof (induction bs arbitrary: b s)
  case Nil
  then show ?case
    by (simp add: request_send_def headers_encoder_encode_def buffers_pop_Ok headers_encoder_finished_def Let_def)
next
  case (Cons c bs)
  let ?s = "s\<lparr>rs_headers := (rs_headers s)\<lparr>he_buffers := c # bs, he_state := He_qpack\<rparr>\<rparr>"
  have "request_send junk s = (Ok (Quic_data (make_data (rs_id s) False b)), ?s)"
    using Cons.prems
    by (simp add: request_send_def headers_encoder_encode_def buffers_pop_Ok headers_encoder_finished_def Let_def)
  moreover have "request_drain junk (Suc (length bs)) ?s =
      (Ok (map Quic_data (as_data (rs_id ?s) (body_encoder_finished (rs_body ?s)) (c # bs))),
       ?s\<lparr>rs_headers := (rs_headers ?s)\<lparr>he_buffers := [], he_state := He_fin\<rparr>,
         rs_state := (if body_encoder_finished (rs_body ?s) then Rs_fin else Rs_body)\<rparr>)"
    by (rule Cons.IH) (use Cons.prems in simp_all)
  ultimately show ?case by simp
qed

lemma request_drain_bodies:
  "rs_state s = Rs_body \<Longrightarrow> be_state (rs_body s) = Be_frame \<Longrightarrow> be_fin (rs_body s) \<Longrightarrow>
   be_buffers (rs_body s) = b # bs \<Longrightarrow> list_all body_ok (b # bs) \<Longrightarrow>
   request_drain junk (2 * Suc (length bs)) s =
     (Ok (map Quic_data (as_data (rs_id s) True (body_chunks (b # bs)))),
      s\<lparr>rs_body := (rs_body s)\<lparr>be_buffers := [], be_state := Be_fin\<rparr>, rs_state := Rs_fin\<rparr>)"
proof (induction bs arbitrary: b s)
  case Nil
  then show ?case
    by (simp add: request_send_def body_encoder_encode_def buffers_front_def buffers_pop_Ok body_ok_def
        body_chunks_def data_frame_def [symmetric] data_frame_ok numeral_2_eq_2 body_encoder_finished_def Let_def)
next
  case (Cons c bs)
  let ?s1 = "s\<lparr>rs_body := (rs_body s)\<lparr>be_state := Be_data\<rparr>\<rparr>"
  let ?s2 = "s\<lparr>rs_body := (rs_body s)\<lparr>be_buffers := c # bs, be_state := Be_frame\<rparr>\<rparr>"
  have "request_send junk s = (Ok (Quic_data (make_data (rs_id s) False (frame_wire (data_frame b)))), ?s1)"
    using Cons.prems
    by (simp add: request_send_def body_encoder_encode_def buffers_front_def body_ok_def
        data_frame_def [symmetric] data_frame_ok body_encoder_finished_def Let_def)
  moreover have "request_send junk ?s1 = (Ok (Quic_data (make_data (rs_id s) False b)), ?s2)"
    using Cons.prems
    by (simp add: request_send_def body_encoder_encode_def buffers_pop_Ok body_ok_def body_encoder_finished_def Let_def)
  moreover have "request_drain junk (2 * Suc (length bs)) ?s2 =
      (Ok (map Quic_data (as_data (rs_id ?s2) True (body_chunks (c # bs)))),
       ?s2\<lparr>rs_body := (rs_body ?s2)\<lparr>be_buffers := [], be_state := Be_fin\<rparr>, rs_state := Rs_fin\<rparr>)"
    by (rule Cons.IH) (use Cons.prems in simp_all)
  ultimately show ?case by (simp add: body_chunks_def)
qed

lemma write_message_eq:
  assumes hs: "hs \<noteq> []" "list_all (field_ok xxh) hs" and bs: "list_all body_ok bs"
  shows "\<exists>enc. collected xxh hs enc \<and> write_message xxh junk hs bs (new_request_sender i) =
    (Ok (), (new_request_sender i)\<lparr>rs_headers := enc\<lparr>he_state := He_frame\<rparr>,
       rs_body := \<lparr> be_state = (if bs = [] then Be_fin else Be_frame), be_fin = True, be_buffers = bs \<rparr>\<rparr>)"
proof -
  obtain enc where enc: "add_headers xxh junk hs new_headers_encoder = (Ok (), enc)" "collected xxh hs enc"
    using add_headers_eq [OF collected_new hs(2)] by auto
  have "concat bs = [] \<longleftrightarrow> bs = []" using bs by (auto simp: list_all_iff body_ok_def)
  then show ?thesis using enc
    by (intro exI [of _ enc])
      (simp del: concat_eq_Nil_conv add: write_message_def request_add_headers_eq request_add_bodies_eq new_request_sender_def
        request_sender_start_def request_sender_fin_def headers_encoder_fin_def collected_def new_body_encoder_def
        body_encoder_fin_def)
qed

lemma message_drained:
  assumes hs: "hs \<noteq> []" "block_ok xxh hs" and bs: "list_all body_ok bs"
    and w: "write_message xxh junk hs bs (new_request_sender i) = (r, s)"
  shows "r = Ok () \<and> (\<exists>s'. request_drain junk (message_length hs bs) s =
      (Ok (map Quic_data (as_data i True (message_chunks xxh hs bs))), s') \<and> request_sender_finished s')"
proof -
  have hs': "list_all (field_ok xxh) hs" and len: "length (block_wire xxh hs) < 2 ^ 62"
    using hs(2) by (auto simp: block_ok_def list_all_iff)
  let ?f = "headers_frame (block_wire xxh hs)"
  obtain enc where enc: "collected xxh hs enc" and r: "r = Ok ()" and s: "s = (new_request_sender i)\<lparr>rs_headers := enc\<lparr>he_state := He_frame\<rparr>,
       rs_body := \<lparr> be_state = (if bs = [] then Be_fin else Be_frame), be_fin = True, be_buffers = bs \<rparr>\<rparr>"
    using write_message_eq [OF hs(1) hs' bs, of junk i] w by auto
  obtain b fs where b: "block_fields xxh Prefix_due hs = b # fs" using hs(1) by (cases hs) auto
  have n: "length hs = Suc (length fs)" using length_block_fields [of xxh Prefix_due hs] b by simp
  have "frame_encode_buffer junk ?f = Ok (frame_wire ?f)"
    using headers_frame_ok [OF len] by (simp add: frame_encode_buffer_eq encodable_frame_def)
  then have first: "request_send junk s = (Ok (Quic_data (make_data i False (frame_wire ?f))),
      s\<lparr>rs_headers := enc\<lparr>he_state := He_qpack\<rparr>\<rparr>)" (is "_ = (_, ?s1)")
    using enc s by (simp add: request_send_def headers_encoder_encode_def collected_def headers_frame_def
        new_request_sender_def headers_encoder_finished_def Let_def)
  let ?s2 = "?s1\<lparr>rs_headers := enc\<lparr>he_buffers := [], he_state := He_fin\<rparr>, rs_state := (if bs = [] then Rs_fin else Rs_body)\<rparr>"
  have fields: "request_drain junk (length hs) ?s1 =
      (Ok (map Quic_data (as_data i (bs = []) (block_fields xxh Prefix_due hs))), ?s2)"
    unfolding n b using request_drain_fields [of ?s1 b fs junk] enc b block_fields_not_Nil [OF hs', of Prefix_due] s
    by (auto simp: collected_def new_request_sender_def body_encoder_finished_def)
  have "\<exists>s'. request_drain junk (2 * length bs) ?s2 = (Ok (map Quic_data (as_data i True (body_chunks bs))), s') \<and>
      request_sender_finished s'"
  proof (cases bs)
    case Nil
    then show ?thesis by (simp add: body_chunks_def request_sender_finished_def)
  next
    case (Cons p ps)
    then show ?thesis using request_drain_bodies [of ?s2 p ps junk] bs s
      by (simp add: request_sender_finished_def new_request_sender_def)
  qed
  then obtain s' where s': "request_drain junk (2 * length bs) ?s2 = (Ok (map Quic_data (as_data i True (body_chunks bs))), s')"
    "request_sender_finished s'" by blast
  have "as_data i True (message_chunks xxh hs bs) = make_data i False (frame_wire ?f) #
      as_data i (bs = []) (block_fields xxh Prefix_due hs) @ as_data i True (body_chunks bs)"
    by (cases bs) (simp_all add: message_chunks_def b body_chunks_def as_data_append)
  then have "request_drain junk (Suc (length hs + 2 * length bs)) s =
      (Ok (map Quic_data (as_data i True (message_chunks xxh hs bs))), s')"
    using first fields s'(1) by (simp only: request_drain.simps request_drain_append) simp
  then show ?thesis using r s'(2) by (auto simp: message_length_def)
qed

section \<open>What a receiver makes of it\<close>

text \<open>
  The specification of the events of a message: one per header, the last one marked, then the content
  in parts of which the last one is marked (none when there is no content), then \<open>finished\<close>.
\<close>

inductive message :: "uint64 \<Rightarrow> header list \<Rightarrow> bytes \<Rightarrow> event list \<Rightarrow> bool" for i where
  finished: "message i [] [] [Ev_finished i]"
| header: "message i hs content evs \<Longrightarrow> message i (h # hs) content (Ev_header i (hs = []) h # evs)"
| body: "message i [] content evs \<Longrightarrow> part \<noteq> [] \<Longrightarrow>
    message i [] (part @ content) (Ev_body (make_data i (content = []) part) # evs)"

text \<open>
  \<open>request_due xxh i r hs ps rest\<close>: the receiver of stream \<open>i\<close> still has to report the headers \<open>hs\<close>
  and the content \<open>ps\<close>, and \<open>rest\<close> is what of the stream has not arrived yet.
\<close>

definition request_due ::
  "(string \<Rightarrow> uint64) \<Rightarrow> uint64 \<Rightarrow> request_receiver \<Rightarrow> header list \<Rightarrow> bytes list \<Rightarrow> bytes \<Rightarrow> bool" where
  "request_due xxh i r hs ps rest \<longleftrightarrow>
     rr_id r = i \<and> rr_fin_received r = (rest = []) \<and>
     (case rr_state r of
        Rr_closed \<Rightarrow> False
      | Rr_headers \<Rightarrow> rr_body r = new_body_decoder \<and> list_all body_ok ps \<and>
          (\<exists>w. headers_due xxh (rr_headers r) hs w \<and>
               concat (rr_buffers r) @ rest = w @ concat (body_chunks ps))
      | Rr_body \<Rightarrow> hs = [] \<and> ps \<noteq> [] \<and> body_due (rr_body r) ps (concat (rr_buffers r) @ rest)
      | Rr_fin \<Rightarrow> hs = [] \<and> ps = [] \<and> rest = [])"

lemma body_due_concat: "body_due dec ps w \<Longrightarrow> concat ps = [] \<longleftrightarrow> ps = []"
  by (auto simp: body_due_def body_ok_def list_all_iff)

lemma body_chunks_Nil: "list_all body_ok ps \<Longrightarrow> concat (body_chunks ps) = [] \<longleftrightarrow> ps = []"
  by (cases ps) (auto simp: body_chunks_def body_ok_def)

lemma request_process_headers:
  assumes due: "request_due xxh i r (h # hs) ps rest"
  shows "\<exists>r'. (request_process handle r = (Err Incomplete, r') \<and> rest \<noteq> [] \<and> request_due xxh i r' (h # hs) ps rest) \<or>
    (request_process handle r = (Ok (Ev_header i (hs = []) h), r') \<and> request_due xxh i r' hs ps rest)"
proof -
  let ?s = "Buffers_seq (rr_buffers r)"
  have st: "rr_state r = Rr_headers" "rr_body r = new_body_decoder" "list_all body_ok ps" "rr_id r = i"
      "rr_fin_received r = (rest = [])"
    using due by (cases "rr_state r"; simp add: request_due_def)+
  obtain w where w: "headers_due xxh (rr_headers r) (h # hs) w" "seq_bytes ?s @ rest = w @ concat (body_chunks ps)"
    using due st(1) by (auto simp: request_due_def)
  obtain x s' dec' where d: "headers_decode (rr_headers r) ?s = (x, s', dec')"
    "x = Err Incomplete \<and> rest \<noteq> [] \<and>
       (\<exists>w'. headers_due xxh dec' (h # hs) w' \<and> seq_bytes s' @ rest = w' @ concat (body_chunks ps)) \<or>
     x = Ok h \<and> headers_decoder_finished dec' = (hs = []) \<and>
       (if hs = [] then seq_bytes s' @ rest = concat (body_chunks ps)
        else \<exists>w'. headers_due xxh dec' hs w' \<and> seq_bytes s' @ rest = w' @ concat (body_chunks ps))"
    using headers_decode_step [OF w(1) _ w(2)] by auto
  have "in_buffers s'" using headers_decode_in_buffers [OF d(1)] by simp
  then obtain bs where s': "s' = Buffers_seq bs" by (rule in_buffersE)
  let ?r = "r\<lparr>rr_buffers := bs, rr_headers := dec'\<rparr>"
  have dec: "request_decode_header r = (x, ?r)" using d(1) s' by (simp add: request_decode_header_def)
  consider (more) "x = Err Incomplete" "rest \<noteq> []" "request_due xxh i ?r (h # hs) ps rest"
    | (one) "x = Ok h" "hs \<noteq> []" "\<not> headers_decoder_finished dec'" "request_due xxh i ?r hs ps rest"
    | (last) "x = Ok h" "hs = []" "headers_decoder_finished dec'" "concat bs @ rest = concat (body_chunks ps)"
    using d(2) st s' by (cases "hs = []") (auto simp: request_due_def simp del: concat_eq_Nil_conv)
  then show ?thesis
  proof cases
    case more
    then show ?thesis using dec st by (intro exI [of _ ?r]) (simp add: request_process_def request_failed_def)
  next
    case one
    then show ?thesis using dec st by (intro exI [of _ ?r]) (simp add: request_process_def Let_def)
  next
    case last
    let ?fin = "concat bs = [] \<and> rest = []"
    have fin: "?fin \<longleftrightarrow> ps = []" using body_chunks_Nil [OF st(3)] last(4) by (metis append_is_Nil_conv)
    have "body_due new_body_decoder ps (concat bs @ rest)"
      using st(3) last(4) by (simp add: body_due_def new_body_decoder_def)
    then have "request_due xxh i (?r\<lparr>rr_state := (if ?fin then Rr_fin else Rr_body)\<rparr>) hs ps rest"
      using st fin last(2) by (auto simp: request_due_def simp del: concat_eq_Nil_conv)
    then show ?thesis using dec st last
      by (intro exI [of _ "?r\<lparr>rr_state := (if ?fin then Rr_fin else Rr_body)\<rparr>"])
        (simp del: concat_eq_Nil_conv add: request_process_def Let_def)
  qed
qed

lemma request_process_body:
  assumes due: "request_due xxh i r [] ps rest" and ps: "ps \<noteq> []"
  shows "\<exists>r'. (request_process handle r = (Err Incomplete, r') \<and> rest \<noteq> [] \<and> request_due xxh i r' [] ps rest) \<or>
    (\<exists>b ps'. request_process handle r = (Ok (Ev_body (make_data i (concat ps' = []) b)), r') \<and> b \<noteq> [] \<and>
       concat ps = b @ concat ps' \<and> request_due xxh i r' [] ps' rest)"
proof -
  let ?s = "Buffers_seq (rr_buffers r)"
  have st: "rr_state r = Rr_body" "body_due (rr_body r) ps (seq_bytes ?s @ rest)" "rr_id r = i"
      "rr_fin_received r = (rest = [])"
    using due ps by (cases "rr_state r"; simp add: request_due_def headers_due_def)+
  obtain p qs where p: "ps = p # qs" using ps by (cases ps) auto
  have ok: "seq_ok ?s" "in_buffers ?s" by simp_all
  obtain x s' dec' where d: "body_decode (rr_body r) ?s = (x, s', dec')"
    "x = Err Incomplete \<and> rest \<noteq> [] \<and> body_due dec' ps (seq_bytes s' @ rest) \<or>
     (\<exists>b ps'. x = Ok b \<and> b \<noteq> [] \<and> concat ps = b @ concat ps' \<and> body_due dec' ps' (seq_bytes s' @ rest))"
    using body_decode_step [OF st(2) [unfolded p] ok refl] unfolding p by blast
  have "in_buffers s'" using body_decode_in_buffers [OF d(1)] by simp
  then obtain bs where s': "s' = Buffers_seq bs" by (rule in_buffersE)
  let ?r = "r\<lparr>rr_buffers := bs, rr_body := dec'\<rparr>"
  have dec: "request_decode_body r = (x, ?r)" using d(1) s' by (simp add: request_decode_body_def)
  from d(2) show ?thesis
  proof
    assume more: "x = Err Incomplete \<and> rest \<noteq> [] \<and> body_due dec' ps (seq_bytes s' @ rest)"
    then have "request_due xxh i ?r [] ps rest" using st ps s' by (simp add: request_due_def)
    then show ?thesis using more dec st by (intro exI [of _ ?r]) (simp add: request_process_def request_failed_def)
  next
    assume "\<exists>b ps'. x = Ok b \<and> b \<noteq> [] \<and> concat ps = b @ concat ps' \<and> body_due dec' ps' (seq_bytes s' @ rest)"
    then obtain b ps' where b: "x = Ok b" "b \<noteq> []" "concat ps = b @ concat ps'" "body_due dec' ps' (concat bs @ rest)"
      using s' by auto
    let ?fin = "concat bs = [] \<and> rest = []"
    have fin: "?fin \<longleftrightarrow> ps' = []" "?fin \<Longrightarrow> \<not> body_decoder_in_progress dec'"
      using b(4) body_due_end [of dec' ps'] body_due_Nil [of dec'] by (metis append_is_Nil_conv)+
    moreover have "concat ps' = [] \<longleftrightarrow> ps' = []" by (rule body_due_concat [OF b(4)])
    ultimately have "request_process handle r =
        (Ok (Ev_body (make_data i (concat ps' = []) b)), if ?fin then ?r\<lparr>rr_state := Rr_fin\<rparr> else ?r)"
      using dec st b(1) by (auto simp del: concat_eq_Nil_conv simp add: request_process_def Let_def)
    moreover have "request_due xxh i (if ?fin then ?r\<lparr>rr_state := Rr_fin\<rparr> else ?r) [] ps' rest"
      using st b(4) fin by (auto simp: request_due_def simp del: concat_eq_Nil_conv)
    ultimately show ?thesis using b(2,3) by blast
  qed
qed

lemma request_process_finished:
  "request_due xxh i r [] [] rest \<Longrightarrow> request_process handle r = (Ok (Ev_finished i), r) \<and> rest = []"
  by (cases "rr_state r") (simp_all add: request_due_def request_process_def headers_due_def)

text \<open>
  A connection that asks for events after each piece of data until the stream needs more or is
  finished. The fuel bounds the number of events it asks for; running out of it is a fault.
\<close>

fun request_pump ::
  "(headers_decoder \<Rightarrow> frame \<Rightarrow> (event, error) result) \<Rightarrow> nat \<Rightarrow> request_receiver \<Rightarrow>
   (event list, error) result \<times> request_receiver" where
  "request_pump handle 0 r = (Fault, r)"
| "request_pump handle (Suc n) r =
     (case request_process handle r of
        (Ok ev, r) \<Rightarrow>
          if event_type_of ev = Finished_event then (Ok [ev], r)
          else try_state (request_pump handle n r) (\<lambda>evs r. (Ok (ev # evs), r))
      | (Err e, r) \<Rightarrow> (if e = Incomplete then Ok [] else Err e, r)
      | (Fault, r) \<Rightarrow> (Fault, r))"

fun request_feed ::
  "(headers_decoder \<Rightarrow> frame \<Rightarrow> (event, error) result) \<Rightarrow> nat \<Rightarrow> quic_data list \<Rightarrow> request_receiver \<Rightarrow>
   (event list, error) result \<times> request_receiver" where
  "request_feed handle n [] r = (Ok [], r)"
| "request_feed handle n (d # ds) r =
     try_state (request_recv d r) (\<lambda>_ r.
     try_state (request_pump handle n r) (\<lambda>evs r.
     try_state (request_feed handle n ds r) (\<lambda>evs' r. (Ok (evs @ evs'), r))))"

text \<open>The pieces of a stream: the FIN comes with the last byte.\<close>

fun well_ended :: "quic_data list \<Rightarrow> bool" where
  "well_ended [] \<longleftrightarrow> False"
| "well_ended (d # ds) \<longleftrightarrow>
     (if ds = [] then data_fin d
      else \<not> data_fin d \<and> concat (map data_buffer ds) \<noteq> [] \<and> well_ended ds)"

lemma request_pump_due:
  "request_due xxh i r hs ps rest \<Longrightarrow> length hs + length (concat ps) < n \<Longrightarrow>
   \<exists>evs r' hs' ps'. request_pump handle n r = (Ok evs, r') \<and>
     (if rest = [] then message i hs (concat ps) evs \<and> request_receiver_finished r'
      else request_due xxh i r' hs' ps' rest \<and> length hs' + length (concat ps') < n \<and>
        (\<forall>evs'. message i hs' (concat ps') evs' \<longrightarrow> message i hs (concat ps) (evs @ evs')))"
proof (induction n arbitrary: r hs ps)
  case (Suc n)
  show ?case
  proof (cases hs)
    case (Cons h hs1)
    from request_process_headers [OF Suc.prems(1) [unfolded Cons], of handle]
    obtain r1 where "request_process handle r = (Err Incomplete, r1) \<and> rest \<noteq> [] \<and> request_due xxh i r1 hs ps rest \<or>
        request_process handle r = (Ok (Ev_header i (hs1 = []) h), r1) \<and> request_due xxh i r1 hs1 ps rest"
      using Cons by blast
    then show ?thesis
    proof
      assume "request_process handle r = (Err Incomplete, r1) \<and> rest \<noteq> [] \<and> request_due xxh i r1 hs ps rest"
      then show ?thesis using Suc.prems(2)
        by (intro exI [of _ "[]"] exI [of _ r1] exI [of _ hs] exI [of _ ps]) simp
    next
      assume r1: "request_process handle r = (Ok (Ev_header i (hs1 = []) h), r1) \<and> request_due xxh i r1 hs1 ps rest"
      obtain evs r' hs' ps' where IH: "request_pump handle n r1 = (Ok evs, r')"
        "if rest = [] then message i hs1 (concat ps) evs \<and> request_receiver_finished r'
         else request_due xxh i r' hs' ps' rest \<and> length hs' + length (concat ps') < n \<and>
           (\<forall>evs'. message i hs' (concat ps') evs' \<longrightarrow> message i hs1 (concat ps) (evs @ evs'))"
        using Suc.IH [OF conjunct2 [OF r1]] Suc.prems(2) Cons by auto
      have "request_pump handle (Suc n) r = (Ok (Ev_header i (hs1 = []) h # evs), r')" using r1 IH(1) by simp
      then show ?thesis using IH(2) Cons by (auto intro: message.header less_SucI split: if_splits)
    qed
  next
    case Nil
    show ?thesis
    proof (cases "ps = []")
      case True
      have "request_process handle r = (Ok (Ev_finished i), r)" "rest = []"
        using request_process_finished Suc.prems(1) Nil True by blast+
      moreover have "request_receiver_finished r"
        using Suc.prems(1) Nil True
        by (cases "rr_state r") (simp_all add: request_due_def headers_due_def request_receiver_finished_def)
      ultimately show ?thesis using Nil True by (simp add: message.finished)
    next
      case False
      from request_process_body [OF Suc.prems(1) [unfolded Nil] False, of handle]
      obtain r1 where "request_process handle r = (Err Incomplete, r1) \<and> rest \<noteq> [] \<and> request_due xxh i r1 hs ps rest \<or>
          (\<exists>b ps1. request_process handle r = (Ok (Ev_body (make_data i (concat ps1 = []) b)), r1) \<and> b \<noteq> [] \<and>
             concat ps = b @ concat ps1 \<and> request_due xxh i r1 [] ps1 rest)"
        unfolding Nil by blast
      then show ?thesis
      proof
        assume "request_process handle r = (Err Incomplete, r1) \<and> rest \<noteq> [] \<and> request_due xxh i r1 hs ps rest"
        then show ?thesis using Suc.prems(2)
          by (intro exI [of _ "[]"] exI [of _ r1] exI [of _ hs] exI [of _ ps]) simp
      next
        assume "\<exists>b ps1. request_process handle r = (Ok (Ev_body (make_data i (concat ps1 = []) b)), r1) \<and> b \<noteq> [] \<and>
             concat ps = b @ concat ps1 \<and> request_due xxh i r1 [] ps1 rest"
        then obtain b ps1 where r1: "request_process handle r = (Ok (Ev_body (make_data i (concat ps1 = []) b)), r1)"
          "b \<noteq> []" "concat ps = b @ concat ps1" "request_due xxh i r1 [] ps1 rest" by blast
        have "length [] + length (concat ps1) < n" using Suc.prems(2) r1(2,3) by (cases b) auto
        from Suc.IH [OF r1(4) this]
        obtain evs r' hs' ps' where IH: "request_pump handle n r1 = (Ok evs, r')"
          "if rest = [] then message i [] (concat ps1) evs \<and> request_receiver_finished r'
           else request_due xxh i r' hs' ps' rest \<and> length hs' + length (concat ps') < n \<and>
             (\<forall>evs'. message i hs' (concat ps') evs' \<longrightarrow> message i [] (concat ps1) (evs @ evs'))"
          by blast
        have "request_pump handle (Suc n) r = (Ok (Ev_body (make_data i (concat ps1 = []) b) # evs), r')"
          using r1(1) IH(1) by simp
        then show ?thesis using IH(2) r1(2) Nil unfolding r1(3)
          by (auto simp del: concat_eq_Nil_conv intro: message.body less_SucI split: if_splits)
      qed
    qed
  qed
qed simp

lemma request_feed_due:
  "request_due xxh i r hs ps (concat (map data_buffer ds)) \<Longrightarrow> concat (map data_buffer ds) \<noteq> [] \<Longrightarrow>
   well_ended ds \<Longrightarrow> length hs + length (concat ps) < n \<Longrightarrow>
   \<exists>evs r'. request_feed handle n ds r = (Ok evs, r') \<and> message i hs (concat ps) evs \<and> request_receiver_finished r'"
proof (induction ds arbitrary: r hs ps)
  case (Cons d ds)
  let ?rest = "concat (map data_buffer ds)"
  let ?r = "r\<lparr>rr_fin_received := data_fin d, rr_buffers := buffers_push (rr_buffers r) (data_buffer d)\<rparr>"
  have fin: "data_fin d \<longleftrightarrow> ?rest = []" using Cons.prems(3) by (auto split: if_splits)
  have "\<not> rr_fin_received r" using Cons.prems(1,2) by (simp add: request_due_def del: concat_eq_Nil_conv)
  then have recv: "request_recv d r = (Ok (), ?r)" by (simp add: request_recv_def)
  have "request_due xxh i ?r hs ps ?rest"
    using Cons.prems(1,2) fin
    by (cases "rr_state r") (simp_all del: concat_eq_Nil_conv add: request_due_def)
  from request_pump_due [OF this Cons.prems(4), of handle]
  obtain evs r1 hs' ps' where p: "request_pump handle n ?r = (Ok evs, r1)"
     "if ?rest = [] then message i hs (concat ps) evs \<and> request_receiver_finished r1
      else request_due xxh i r1 hs' ps' ?rest \<and> length hs' + length (concat ps') < n \<and>
        (\<forall>evs'. message i hs' (concat ps') evs' \<longrightarrow> message i hs (concat ps) (evs @ evs'))"
    by blast
  show ?case
  proof (cases "?rest = []")
    case True
    then have "ds = []" using Cons.prems(3) by (auto split: if_splits)
    then show ?thesis using recv p by simp
  next
    case False
    then have "ds \<noteq> []" "well_ended ds" using Cons.prems(3) by (auto split: if_splits)
    then obtain evs' r' where "request_feed handle n ds r1 = (Ok evs', r')" "message i hs' (concat ps') evs'"
        "request_receiver_finished r'"
      using Cons.IH [of r1 hs' ps'] p(2) False by auto
    then show ?thesis using recv p False by simp
  qed
qed simp

section \<open>The order of events\<close>

text \<open>
  The abstract state machine of a message: headers up to the one that is marked, then body parts up to
  the one that is marked (or none), then \<open>finished\<close> again and again.
\<close>

datatype message_phase = In_headers | After_headers | In_body | At_end

fun message_next :: "uint64 \<Rightarrow> message_phase \<Rightarrow> event \<Rightarrow> message_phase option" where
  "message_next i In_headers (Ev_header j fin h) =
     (if j = i then Some (if fin then After_headers else In_headers) else None)"
| "message_next i After_headers (Ev_body d) =
     (if data_id d = i then Some (if data_fin d then At_end else In_body) else None)"
| "message_next i In_body (Ev_body d) =
     (if data_id d = i then Some (if data_fin d then At_end else In_body) else None)"
| "message_next i After_headers (Ev_finished j) = (if j = i then Some At_end else None)"
| "message_next i At_end (Ev_finished j) = (if j = i then Some At_end else None)"
| "message_next i _ _ = None"

fun message_phases :: "uint64 \<Rightarrow> message_phase \<Rightarrow> event list \<Rightarrow> message_phase option" where
  "message_phases i p [] = Some p"
| "message_phases i p (ev # evs) = do { q \<leftarrow> message_next i p ev; message_phases i q evs }"

lemma message_phases_snoc:
  "message_phases i p (evs @ [ev]) = do { q \<leftarrow> message_phases i p evs; message_next i q ev }"
  by (induction evs arbitrary: p) (simp_all add: Option.bind_assoc)

definition simulates :: "message_phase \<Rightarrow> request_receiver \<Rightarrow> bool" where
  "simulates p r \<longleftrightarrow>
     (case rr_state r of
        Rr_closed \<Rightarrow> p = In_headers
      | Rr_headers \<Rightarrow> p = In_headers
      | Rr_body \<Rightarrow> p = After_headers \<or> p = In_body
      | Rr_fin \<Rightarrow> p = After_headers \<or> p = At_end)"

inductive request_run ::
  "(headers_decoder \<Rightarrow> frame \<Rightarrow> (event, error) result) \<Rightarrow> request_receiver \<Rightarrow> event list \<Rightarrow> request_receiver \<Rightarrow> bool"
  for handle r where
  nothing_yet: "request_run handle r [] r"
| started: "request_run handle r evs r1 \<Longrightarrow> request_receiver_start r1 = (Ok (), r2) \<Longrightarrow> request_run handle r evs r2"
| received: "request_run handle r evs r1 \<Longrightarrow> request_recv data r1 = (x, r2) \<Longrightarrow> request_run handle r evs r2"
| reported: "request_run handle r evs r1 \<Longrightarrow> request_process handle r1 = (Ok ev, r2) \<Longrightarrow>
    request_run handle r (evs @ [ev]) r2"
| failed: "request_run handle r evs r1 \<Longrightarrow> request_process handle r1 = (Err e, r2) \<Longrightarrow>
    request_run handle r evs r2"

lemma on_member_eq: "on_member put m = (x, s) \<longleftrightarrow> (\<exists>f. m = (x, f) \<and> s = put f)"
  by (cases m) auto

lemma request_frame_state:
  "request_frame r = (x, r') \<Longrightarrow> rr_state r' = rr_state r \<and> rr_id r' = rr_id r"
  by (auto simp: request_frame_def on_member_eq)

context rejecting_request
begin

lemma request_failed_step:
  "request_failed handle e r = (x, r') \<Longrightarrow>
   rr_id r' = rr_id r \<and>
   (case x of
      Ok ev \<Rightarrow> ev = Ev_body (make_data (rr_id r) True []) \<and> rr_state r = Rr_body \<and> rr_state r' = Rr_fin
    | _ \<Rightarrow> rr_state r' = rr_state r)"
  using frame.no_event
  by (cases "request_frame r")
    (auto simp: request_failed_def try_state_def try_in_def or_fault_def dest!: request_frame_state
      split: if_splits result.splits frame_type.splits option.splits)

lemma request_process_step:
  assumes p: "request_process handle r = (x, r')" and sim: "simulates p r"
  shows "rr_id r' = rr_id r \<and>
    (case x of
       Ok ev \<Rightarrow> (\<exists>q. message_next (rr_id r) p ev = Some q \<and> simulates q r')
     | _ \<Rightarrow> simulates p r')"
proof (cases "rr_state r")
  case Rr_headers
  obtain y r1 where d: "request_decode_header r = (y, r1)" by (cases "request_decode_header r")
  then have r1: "rr_state r1 = Rr_headers" "rr_id r1 = rr_id r"
    using Rr_headers by (auto simp: request_decode_header_def on_member_eq split: prod.splits)
  have "p = In_headers" using sim Rr_headers by (simp add: simulates_def)
  then show ?thesis using p d r1 Rr_headers
    by (cases y; cases x) (auto simp: request_process_def simulates_def Let_def dest!: request_failed_step split: if_splits)
next
  case Rr_body
  obtain y r1 where d: "request_decode_body r = (y, r1)" by (cases "request_decode_body r")
  then have r1: "rr_state r1 = Rr_body" "rr_id r1 = rr_id r"
    using Rr_body by (auto simp: request_decode_body_def on_member_eq split: prod.splits)
  have "p = After_headers \<or> p = In_body" using sim Rr_body by (simp add: simulates_def)
  then show ?thesis using p d r1 Rr_body
    by (cases y; cases x) (auto simp: request_process_def simulates_def Let_def dest!: request_failed_step split: if_splits)
qed (use p sim in \<open>auto simp: request_process_def simulates_def\<close>)

lemma request_run_order:
  "request_run handle (new_request_receiver i) evs r \<Longrightarrow>
   rr_id r = i \<and> (\<exists>p. message_phases i In_headers evs = Some p \<and> simulates p r)"
proof (induction rule: request_run.induct)
  case nothing_yet
  then show ?case by (simp add: new_request_receiver_def simulates_def)
next
  case (started evs r1 r2)
  then show ?case by (auto simp: request_receiver_start_def simulates_def split: if_splits)
next
  case (received evs r1 data x r2)
  then show ?case by (auto simp: request_recv_def simulates_def split: if_splits)
next
  case (reported evs r1 ev r2)
  then obtain p where p: "rr_id r1 = i" "message_phases i In_headers evs = Some p" "simulates p r1" by blast
  show ?case using request_process_step [OF reported(2) p(3)] p by (auto simp: message_phases_snoc)
next
  case (failed evs r1 e r2)
  then obtain p where p: "rr_id r1 = i" "message_phases i In_headers evs = Some p" "simulates p r1" by blast
  show ?case using request_process_step [OF failed(2) p(3)] p by auto
qed

end

section \<open>Properties\<close>

text \<open>
  C2. A message makes the trip over a request stream: a sender that is given headers and bodies and then
  finished hands out data events of its stream of which exactly the last carries the FIN, and a
  receiver that gets the same bytes in any other pieces, the FIN with the last byte, and is asked for
  events after each piece reports every header in order, the whole content, and that the stream is
  finished, without an error in between.
\<close>

theorem request_exchange:
  assumes "hs \<noteq> []" and "block_ok xxh hs" and "list_all body_ok bs"
    and "try_state (write_message xxh junk hs bs (new_request_sender i)) (\<lambda>_ s.
         request_drain junk (message_length hs bs) s) = (Ok (map Quic_data sent), s)"
    and "well_ended ds" and "concat (map data_buffer ds) = concat (map data_buffer sent)"
    and "length hs + length (concat bs) < n"
  shows "request_sender_finished s \<and> list_all (\<lambda>d. data_id d = i) sent \<and>
    map data_fin sent = replicate (length sent - 1) False @ [True] \<and>
    (\<exists>evs r. request_feed handle n ds (snd (request_receiver_start (new_request_receiver i))) = (Ok evs, r) \<and>
       message i hs (concat bs) evs \<and> request_receiver_finished r)"
proof -
  obtain r0 s0 where w: "write_message xxh junk hs bs (new_request_sender i) = (r0, s0)"
    by (cases "write_message xxh junk hs bs (new_request_sender i)")
  obtain s' where s': "r0 = Ok ()" "request_drain junk (message_length hs bs) s0 =
      (Ok (map Quic_data (as_data i True (message_chunks xxh hs bs))), s')" "request_sender_finished s'"
    using message_drained [OF assms(1-3) w] by blast
  have "map Quic_data sent = map Quic_data (as_data i True (message_chunks xxh hs bs))" and s: "s = s'"
    using assms(4) w s' by simp_all
  then have sent: "sent = as_data i True (message_chunks xxh hs bs)"
    using inj_map_eq_map [of Quic_data] by (auto simp: inj_def)
  let ?r = "snd (request_receiver_start (new_request_receiver i))"
  have r: "?r = (new_request_receiver i)\<lparr>rr_state := Rr_headers\<rparr>"
    by (simp add: request_receiver_start_def new_request_receiver_def)
  let ?w = "frame_wire (headers_frame (block_wire xxh hs)) @ block_wire xxh hs"
  have wire: "concat (map data_buffer ds) = ?w @ concat (body_chunks bs)"
    using assms(6) sent by (simp add: message_chunks_def block_wire_def)
  have "headers_due xxh new_headers_decoder hs ?w"
    using assms(1,2) by (simp add: headers_due_def block_ok_def)
  moreover have ne: "concat (map data_buffer ds) \<noteq> []" using wire by (simp add: frame_wire_def)
  ultimately have "request_due xxh i ?r hs bs (concat (map data_buffer ds))"
    using assms(3) wire unfolding r
    by (auto simp del: concat_eq_Nil_conv simp add: request_due_def new_request_receiver_def)
  from request_feed_due [OF this ne assms(5,7)]
  have "\<exists>evs r. request_feed handle n ds ?r = (Ok evs, r) \<and> message i hs (concat bs) evs \<and> request_receiver_finished r"
    by blast
  moreover have "message_chunks xxh hs bs \<noteq> []" by (simp add: message_chunks_def)
  ultimately show ?thesis using s s'(3) sent by (simp add: as_data_fin)
qed

theorem request_exchange_witness:
  "\<exists>evs r. request_feed client_request_frame 4 [make_data 0 False [1, 3, 0], make_data 0 True [0, 0xc2, 0, 2, 1, 2]]
      (snd (request_receiver_start (new_request_receiver 0))) = (Ok evs, r) \<and>
    message 0 [make_header ''age'' ''0''] (concat [[1, 2]]) evs \<and> request_receiver_finished r"
proof -
  let ?hs = "[make_header ''age'' ''0'']" and ?bs = "[[1, 2]] :: bytes list"
  let ?sent = "as_data 0 True (message_chunks sample_hash ?hs ?bs)"
  have bs: "list_all body_ok ?bs" by (simp add: body_ok_def)
  obtain r s where w: "write_message sample_hash (\<lambda>_. 0) ?hs ?bs (new_request_sender 0) = (r, s)"
    by (cases "write_message sample_hash (\<lambda>_. 0) ?hs ?bs (new_request_sender 0)")
  obtain s' where "r = Ok ()" "request_drain (\<lambda>_. 0) (message_length ?hs ?bs) s = (Ok (map Quic_data ?sent), s')"
    using message_drained [OF _ sample_block_ok bs w] by auto
  then have run: "try_state (write_message sample_hash (\<lambda>_. 0) ?hs ?bs (new_request_sender 0)) (\<lambda>_ s.
      request_drain (\<lambda>_. 0) (message_length ?hs ?bs) s) = (Ok (map Quic_data ?sent), s')" using w by simp
  have "frame_wire (headers_frame (block_wire sample_hash ?hs)) = [1, 3]" "frame_wire (data_frame [1, 2 :: byte]) = [0, 2]"
    by (simp_all add: sample_block_wire headers_frame_def data_frame_def frame_wire_def varint_wire_def
        varint_size_def varints_wire_def be_bytes_enum)
  moreover have "concat (block_fields sample_hash Prefix_due ?hs) = [0, 0, 0xc2]"
    using sample_block_wire by (simp only: block_wire_def)
  ultimately have "concat (message_chunks sample_hash ?hs ?bs) = [1, 3, 0, 0, 0xc2, 0, 2, 1, 2]"
    by (simp add: message_chunks_def body_chunks_def del: block_fields.simps)
  then have bytes: "concat (map data_buffer [make_data 0 False [1, 3, 0], make_data 0 True [0, 0xc2, 0, 2, 1, 2]]) =
      concat (map data_buffer ?sent)" by simp
  show ?thesis using request_exchange [OF _ sample_block_ok bs run _ bytes, of 4 client_request_frame] by simp
qed

text \<open>
  C3. The receiver refines the state machine of a message: whatever arrives and in whatever order it is
  started, fed and asked, also after errors, the events it has reported are a run of that machine.
\<close>

theorem request_event_order:
  assumes "handle = client_request_frame \<or> handle = server_request_frame"
    and "request_run handle (new_request_receiver i) evs r"
  shows "\<exists>p. message_phases i In_headers evs = Some p \<and> simulates p r"
  using assms client_request.request_run_order server_request.request_run_order by blast

theorem request_event_order_witness:
  "\<exists>p. message_phases 0 In_headers [] = Some p \<and>
    simulates p ((new_request_receiver 0)\<lparr>rr_state := Rr_headers, rr_buffers := [[1]]\<rparr>)"
proof (rule request_event_order)
  show "server_request_frame = client_request_frame \<or> server_request_frame = server_request_frame" by simp
  have "request_run server_request_frame (new_request_receiver 0) [] ((new_request_receiver 0)\<lparr>rr_state := Rr_headers\<rparr>)"
    by (rule request_run.started [OF request_run.nothing_yet])
      (simp add: request_receiver_start_def new_request_receiver_def)
  then show "request_run server_request_frame (new_request_receiver 0) []
      ((new_request_receiver 0)\<lparr>rr_state := Rr_headers, rr_buffers := [[1]]\<rparr>)"
    by (rule request_run.received [where data = "make_data 0 False [1]"])
      (simp add: request_recv_def new_request_receiver_def buffers_push_def)
qed

text \<open>
  C31. The FIN of a sender is lost when it comes late: once the bodies are drained, \<open>fin\<close> succeeds, but the
  next call to \<open>send\<close> is an internal error, and so is every one after it.
\<close>

theorem request_sender_late_fin:
  assumes "rs_state s = Rs_body" and "be_state (rs_body s) = Be_frame" and "concat (be_buffers (rs_body s)) = []"
  shows "\<exists>s'. request_sender_fin s = (Ok (), s') \<and> request_send junk s' = (Err Internal, s') \<and>
    \<not> request_sender_finished s'"
  using assms
  by (simp del: concat_eq_Nil_conv add: request_sender_fin_def body_encoder_fin_def request_send_def
      body_encoder_encode_def request_sender_finished_def)

theorem request_sender_late_fin_witness:
  "\<exists>s'. request_sender_fin ((new_request_sender 0)\<lparr>rs_state := Rs_body\<rparr>) = (Ok (), s') \<and>
    request_send (\<lambda>_. 0) s' = (Err Internal, s') \<and> \<not> request_sender_finished s'"
  by (rule request_sender_late_fin) (simp_all add: new_request_sender_def new_body_encoder_def)

text \<open>
  C32. A FIN that arrives on its own is not accepted: a receiver that has read everything up to it and is in
  the body takes the empty data event, and then reports the message as malformed.
\<close>

theorem request_receiver_late_fin:
  assumes "rr_state r = Rr_body" and "concat (rr_buffers r) = []" and "\<not> rr_fin_received r"
    and "\<not> body_decoder_in_progress (rr_body r)" and "data_fin d" and "data_buffer d = []"
  shows "\<exists>r'. request_recv d r = (Ok (), r') \<and> fst (request_process handle r') = Err Malformed_frame"
proof -
  let ?r = "r\<lparr>rr_fin_received := True, rr_buffers := buffers_push (rr_buffers r) []\<rparr>"
  let ?s = "Buffers_seq (rr_buffers ?r)"
  have "frame_peek ?s = Err Incomplete" using assms(2) by (intro frame_peek_nothing) (simp_all del: concat_eq_Nil_conv)
  moreover have "bd_state (rr_body r) = Bd_frame"
    using assms(4) by (cases "bd_state (rr_body r)") (simp_all add: body_decoder_in_progress_def)
  ultimately have "body_decode (rr_body ?r) ?s = (Err Incomplete, ?s, rr_body ?r)" by (simp add: body_decode_def)
  then have "fst (request_process handle ?r) = Err Malformed_frame"
    using assms(1) by (simp add: request_process_def request_decode_body_def request_failed_def)
  then show ?thesis using assms(3,5,6) by (auto simp: request_recv_def)
qed

theorem request_receiver_late_fin_witness:
  "\<exists>r'. request_recv (make_data 0 True []) ((new_request_receiver 0)\<lparr>rr_state := Rr_body\<rparr>) = (Ok (), r') \<and>
    fst (request_process client_request_frame r') = Err Malformed_frame"
  by (rule request_receiver_late_fin)
    (simp_all add: new_request_receiver_def body_decoder_in_progress_def new_body_decoder_def)

end
