(* ===== verification/Handles.thy ===== *)
theory Handles
  imports Request
begin

text \<open>
  Senders and handles (\<open>class sender::handle\<close> of \<open>endpoint/stream/request.hpp\<close>): the user of a
  connection holds a handle to a sender that the connection owns, each object points to the other, and
  constructors, moves and destructors on both sides keep the pointers up. The objects live in a store;
  reading or writing through a pointer to an object that is gone is a fault.
\<close>

section \<open>The store\<close>

text \<open>
  The address of a sender is of type \<open>'k\<close>: a connection keeps its senders in a map, whose nodes do not
  move, and uses the stream id. Handles live at addresses of the user's choice.
\<close>

record 'k handle =
  h_id :: uint64
  h_sender :: "'k option"

record 'k store =
  st_senders :: "'k \<Rightarrow> request_sender option"
  st_handles :: "nat \<Rightarrow> 'k handle option"

definition empty_store :: "'k store" where
  "empty_store = \<lparr> st_senders = (\<lambda>_. None), st_handles = (\<lambda>_. None) \<rparr>"

definition put_sender :: "'k \<Rightarrow> request_sender \<Rightarrow> 'k store \<Rightarrow> 'k store" where
  "put_sender k s st = st\<lparr>st_senders := (st_senders st)(k := Some s)\<rparr>"

definition put_handle :: "nat \<Rightarrow> 'k handle \<Rightarrow> 'k store \<Rightarrow> 'k store" where
  "put_handle h x st = st\<lparr>st_handles := (st_handles st)(h := Some x)\<rparr>"

text \<open>\<open>handle_->sender_ = p\<close> and \<open>sender_->handle_ = p\<close>, where the pointer is not null.\<close>

definition set_sender_of :: "nat option \<Rightarrow> 'k option \<Rightarrow> 'k store \<Rightarrow> 'k store option" where
  "set_sender_of ph p st =
     (case ph of
        None \<Rightarrow> Some st
      | Some h \<Rightarrow> do { x \<leftarrow> st_handles st h; Some (put_handle h (x\<lparr>h_sender := p\<rparr>) st) })"

definition set_handle_of :: "'k option \<Rightarrow> nat option \<Rightarrow> 'k store \<Rightarrow> 'k store option" where
  "set_handle_of pk p st =
     (case pk of
        None \<Rightarrow> Some st
      | Some k \<Rightarrow> do { s \<leftarrow> st_senders st k; Some (put_sender k (s\<lparr>rs_handle := p\<rparr>) st) })"

section \<open>Senders\<close>

definition sender_construct :: "'k \<Rightarrow> uint64 \<Rightarrow> 'k store \<Rightarrow> 'k store" where
  "sender_construct k i st = put_sender k (new_request_sender i) st"

text \<open>What a move leaves behind: no handle, and encoders whose lists have been taken.\<close>

definition moved_from :: "request_sender \<Rightarrow> request_sender" where
  "moved_from s =
     s\<lparr>rs_handle := None, rs_headers := (rs_headers s)\<lparr>he_buffers := []\<rparr>,
       rs_body := (rs_body s)\<lparr>be_buffers := []\<rparr>\<rparr>"

text \<open>
  \<open>sender(sender &&)\<close> and \<open>operator=(sender &&)\<close> do the same to the two objects; the assignment drops
  the pointer that the target had.
\<close>

definition sender_move_construct :: "'k \<Rightarrow> 'k \<Rightarrow> 'k store \<Rightarrow> 'k store option" where
  "sender_move_construct k other st =
     do { s \<leftarrow> st_senders st other;
          st \<leftarrow> set_sender_of (rs_handle s) (Some k) (put_sender k s st);
          Some (put_sender other (moved_from s) st) }"

definition sender_move_assign :: "'k \<Rightarrow> 'k \<Rightarrow> 'k store \<Rightarrow> 'k store option" where
  "sender_move_assign k other st =
     (if other = k then Some st
      else do { s \<leftarrow> st_senders st other;
                _ \<leftarrow> st_senders st k;
                st \<leftarrow> set_sender_of (rs_handle s) (Some k) (put_sender k s st);
                Some (put_sender other (moved_from s) st) })"

definition sender_destroy :: "'k \<Rightarrow> 'k store \<Rightarrow> 'k store option" where
  "sender_destroy k st =
     do { s \<leftarrow> st_senders st k;
          st \<leftarrow> set_sender_of (rs_handle s) None st;
          Some (st\<lparr>st_senders := (st_senders st)(k := None)\<rparr>) }"

section \<open>Handles\<close>

definition null_handle :: "'k handle" where
  "null_handle = \<lparr> h_id = - 1, h_sender = None \<rparr>"

definition handle_construct :: "nat \<Rightarrow> 'k \<Rightarrow> 'k store \<Rightarrow> 'k store option" where
  "handle_construct h k st =
     do { s \<leftarrow> st_senders st k;
          set_handle_of (Some k) (Some h) (put_handle h \<lparr> h_id = rs_id s, h_sender = Some k \<rparr> st) }"

definition handle_move_assign :: "nat \<Rightarrow> nat \<Rightarrow> 'k store \<Rightarrow> 'k store option" where
  "handle_move_assign h other st =
     (if other = h then Some st
      else do { x \<leftarrow> st_handles st other;
                _ \<leftarrow> st_handles st h;
                set_handle_of (h_sender x) (Some h) (put_handle other null_handle (put_handle h x st)) })"

definition handle_move_construct :: "nat \<Rightarrow> nat \<Rightarrow> 'k store \<Rightarrow> 'k store option" where
  "handle_move_construct h other st = handle_move_assign h other (put_handle h null_handle st)"

definition handle_destroy :: "nat \<Rightarrow> 'k store \<Rightarrow> 'k store option" where
  "handle_destroy h st =
     do { x \<leftarrow> st_handles st h;
          st \<leftarrow> set_handle_of (h_sender x) None st;
          Some (st\<lparr>st_handles := (st_handles st)(h := None)\<rparr>) }"

text \<open>The four calls of a handle differ only in what they call on the sender.\<close>

definition on_sender ::
  "nat \<Rightarrow> (request_sender \<Rightarrow> (unit, error) result \<times> request_sender) \<Rightarrow> 'k store \<Rightarrow>
   (unit, error) result \<times> 'k store" where
  "on_sender h f st =
     try_in st (or_fault (st_handles st h)) (\<lambda>x.
     case h_sender x of
       None \<Rightarrow> (Err Invalid_handle, st)
     | Some k \<Rightarrow>
         try_in st (or_fault (st_senders st k)) (\<lambda>s. on_member (\<lambda>s. put_sender k s st) (f s)))"

definition handle_id :: "nat \<Rightarrow> 'k store \<Rightarrow> uint64 option" where
  "handle_id h st = map_option h_id (st_handles st h)"

definition handle_header ::
  "(string \<Rightarrow> uint64) \<Rightarrow> (nat \<Rightarrow> byte) \<Rightarrow> nat \<Rightarrow> header \<Rightarrow> 'k store \<Rightarrow> (unit, error) result \<times> 'k store" where
  "handle_header xxh junk h header = on_sender h (request_sender_header xxh junk header)"

definition handle_body :: "nat \<Rightarrow> bytes \<Rightarrow> 'k store \<Rightarrow> (unit, error) result \<times> 'k store" where
  "handle_body h body = on_sender h (request_sender_body body)"

definition handle_start :: "nat \<Rightarrow> 'k store \<Rightarrow> (unit, error) result \<times> 'k store" where
  "handle_start h = on_sender h request_sender_start"

definition handle_fin :: "nat \<Rightarrow> 'k store \<Rightarrow> (unit, error) result \<times> 'k store" where
  "handle_fin h = on_sender h request_sender_fin"

section \<open>The links\<close>

text \<open>The pointers of both sides agree, and a handle knows the id of its sender.\<close>

definition linked :: "'k store \<Rightarrow> bool" where
  "linked st \<longleftrightarrow>
     (\<forall>h x k. st_handles st h = Some x \<longrightarrow> h_sender x = Some k \<longrightarrow>
        (\<exists>s. st_senders st k = Some s \<and> rs_handle s = Some h \<and> rs_id s = h_id x)) \<and>
     (\<forall>k s h. st_senders st k = Some s \<longrightarrow> rs_handle s = Some h \<longrightarrow>
        (\<exists>x. st_handles st h = Some x \<and> h_sender x = Some k))"

lemma linked_empty: "linked empty_store"
  by (simp add: linked_def empty_store_def)

lemma linked_handle:
  "linked st \<Longrightarrow> st_handles st h = Some x \<Longrightarrow> h_sender x = Some k \<Longrightarrow>
   \<exists>s. st_senders st k = Some s \<and> rs_handle s = Some h \<and> rs_id s = h_id x"
  by (simp add: linked_def)

lemma linked_sender:
  "linked st \<Longrightarrow> st_senders st k = Some s \<Longrightarrow> rs_handle s = Some h \<Longrightarrow>
   \<exists>x. st_handles st h = Some x \<and> h_sender x = Some k"
  by (simp add: linked_def)

lemma put_simps [simp]:
  "st_senders (put_sender k s st) = (st_senders st)(k := Some s)" "st_handles (put_sender k s st) = st_handles st"
  "st_handles (put_handle h x st) = (st_handles st)(h := Some x)" "st_senders (put_handle h x st) = st_senders st"
  by (simp_all add: put_sender_def put_handle_def)

lemma moved_from_handle [simp]: "rs_handle (moved_from s) = None"
  by (simp add: moved_from_def)

text \<open>An address of a handle is unattached when no live handle or one without a sender is there.\<close>

definition unattached :: "nat \<Rightarrow> 'k store \<Rightarrow> bool" where
  "unattached h st \<longleftrightarrow> (case st_handles st h of None \<Rightarrow> True | Some x \<Rightarrow> h_sender x = None)"

definition detached :: "'k \<Rightarrow> 'k store \<Rightarrow> bool" where
  "detached k st \<longleftrightarrow> (case st_senders st k of None \<Rightarrow> True | Some s \<Rightarrow> rs_handle s = None)"

lemma linked_sender_construct: "linked st \<Longrightarrow> detached k st \<Longrightarrow> linked (sender_construct k i st)"
  unfolding linked_def detached_def sender_construct_def new_request_sender_def
  by (auto split: option.splits) (metis option.distinct(1) option.inject)+

lemma linked_sender_destroy:
  assumes st: "linked st" and k: "st_senders st k = Some s"
  shows "\<exists>st'. sender_destroy k st = Some st' \<and> linked st' \<and>
    (\<forall>h x. st_handles st h = Some x \<longrightarrow> h_sender x = Some k \<longrightarrow> unattached h st')"
proof (cases "rs_handle s")
  case None
  then show ?thesis using st k unfolding linked_def
    by (auto simp: sender_destroy_def set_sender_of_def) (metis option.distinct(1) option.inject)+
next
  case (Some h)
  obtain x where "st_handles st h = Some x" "h_sender x = Some k"
    using linked_sender [OF st k Some] by blast
  then show ?thesis using st k Some unfolding linked_def unattached_def
    by (auto simp: sender_destroy_def set_sender_of_def) (metis option.inject)+
qed

lemma linked_sender_move:
  assumes st: "linked st" and s: "st_senders st other = Some s" and k: "k \<noteq> other" "detached k st"
  shows "\<exists>st'. sender_move_construct k other st = Some st' \<and> linked st' \<and>
    (st_senders st k \<noteq> None \<longrightarrow> sender_move_assign k other st = Some st')"
proof (cases "rs_handle s")
  case None
  then show ?thesis using st s k unfolding linked_def detached_def
    by (auto simp: sender_move_construct_def sender_move_assign_def set_sender_of_def split: option.splits)
      (metis option.distinct(1) option.inject)+
next
  case (Some h)
  obtain x where x: "st_handles st h = Some x" "h_sender x = Some other" "rs_id s = h_id x"
    using linked_sender [OF st s Some] linked_handle [OF st] s by force
  let ?st = "put_sender other (moved_from s) (put_handle h (x\<lparr>h_sender := Some k\<rparr>) (put_sender k s st))"
  have "sender_move_construct k other st = Some ?st"
    using s x(1) Some by (simp add: sender_move_construct_def set_sender_of_def)
  moreover have "st_senders st k \<noteq> None \<longrightarrow> sender_move_assign k other st = Some ?st"
    using s x(1) Some k by (auto simp: sender_move_assign_def set_sender_of_def)
  moreover have "linked ?st" using st s x Some k unfolding linked_def detached_def
    by (auto split: option.splits) (metis option.distinct(1) option.inject)+
  ultimately show ?thesis by blast
qed

lemma linked_handle_construct:
  assumes st: "linked st" and s: "st_senders st k = Some s" "rs_handle s = None" and h: "unattached h st"
  shows "\<exists>st'. handle_construct h k st = Some st' \<and> linked st' \<and> handle_id h st' = Some (rs_id s)"
  using st s h unfolding linked_def unattached_def
  by (auto simp: handle_construct_def set_handle_of_def handle_id_def split: option.splits)
    (metis option.distinct(1) option.inject)+

lemma linked_handle_destroy:
  assumes st: "linked st" and x: "st_handles st h = Some x"
  shows "\<exists>st'. handle_destroy h st = Some st' \<and> linked st'"
proof (cases "h_sender x")
  case None
  then show ?thesis using st x unfolding linked_def
    by (auto simp: handle_destroy_def set_handle_of_def) (metis option.distinct(1) option.inject)+
next
  case (Some k)
  obtain s where "st_senders st k = Some s" "rs_handle s = Some h" using linked_handle [OF st x Some] by blast
  then show ?thesis using st x Some unfolding linked_def
    by (auto simp: handle_destroy_def set_handle_of_def) (metis option.distinct(1) option.inject)+
qed

lemma linked_handle_move:
  assumes st: "linked st" and x: "st_handles st other = Some x" and h: "h \<noteq> other" "unattached h st"
  shows "\<exists>st'. handle_move_construct h other st = Some st' \<and> linked st' \<and> st_handles st' h = Some x \<and>
    (st_handles st h \<noteq> None \<longrightarrow> handle_move_assign h other st = Some st')"
proof (cases "h_sender x")
  case None
  then show ?thesis using st x h unfolding linked_def unattached_def
    by (auto simp: handle_move_construct_def handle_move_assign_def set_handle_of_def null_handle_def put_handle_def
        split: option.splits)
      (metis option.distinct(1) option.inject)+
next
  case (Some k)
  obtain s where s: "st_senders st k = Some s" "rs_handle s = Some other" "rs_id s = h_id x"
    using linked_handle [OF st x Some] by blast
  let ?st = "put_sender k (s\<lparr>rs_handle := Some h\<rparr>) (put_handle other null_handle (put_handle h x st))"
  have "handle_move_construct h other st = Some ?st"
    using x s(1) Some h by (simp add: handle_move_construct_def handle_move_assign_def set_handle_of_def put_handle_def)
  moreover have "st_handles st h \<noteq> None \<longrightarrow> handle_move_assign h other st = Some ?st"
    using x s(1) Some h by (auto simp: handle_move_assign_def set_handle_of_def)
  moreover have "linked ?st" using st x s Some h unfolding linked_def unattached_def
    by (auto simp: null_handle_def split: option.splits) (metis option.distinct(1) option.inject)+
  ultimately show ?thesis using h by simp
qed

section \<open>Stores that are reachable\<close>

lemma encoder_keeps_links:
  "request_sender_header xxh junk header s = (r, s') \<Longrightarrow> rs_handle s' = rs_handle s \<and> rs_id s' = rs_id s"
  "request_sender_body b s = (r, s') \<Longrightarrow> rs_handle s' = rs_handle s \<and> rs_id s' = rs_id s"
  "request_sender_start s = (r, s') \<Longrightarrow> rs_handle s' = rs_handle s \<and> rs_id s' = rs_id s"
  "request_sender_fin s = (r, s') \<Longrightarrow> rs_handle s' = rs_handle s \<and> rs_id s' = rs_id s"
  by (auto simp: request_sender_header_def request_sender_body_def request_sender_start_def
      request_sender_fin_def on_member_eq)

lemma request_send_keeps_links:
  "request_send junk s = (r, s') \<Longrightarrow> rs_handle s' = rs_handle s \<and> rs_id s' = rs_id s"
  by (cases "rs_state s"; cases "headers_encoder_encode junk (rs_headers s)"; cases "fst (headers_encoder_encode junk (rs_headers s))";
      cases "body_encoder_encode junk (rs_body s)"; cases "fst (body_encoder_encode junk (rs_body s))")
    (auto simp: request_send_def Let_def)

lemma linked_put_sender:
  "linked st \<Longrightarrow> st_senders st k = Some s \<Longrightarrow> rs_handle s' = rs_handle s \<and> rs_id s' = rs_id s \<Longrightarrow>
   linked (put_sender k s' st)"
  unfolding linked_def by auto (metis option.inject)+

lemma linked_on_sender:
  assumes f: "\<And>s r s'. f s = (r, s') \<Longrightarrow> rs_handle s' = rs_handle s \<and> rs_id s' = rs_id s"
    and st: "linked st" and r: "on_sender h f st = (r, st')"
  shows "linked st'"
proof (cases "st_handles st h")
  case (Some x)
  show ?thesis
  proof (cases "h_sender x")
    case (Some k)
    then obtain s where s: "st_senders st k = Some s"
      using linked_handle [OF st \<open>st_handles st h = Some x\<close>] by blast
    obtain y s' where y: "f s = (y, s')" by (cases "f s")
    then have "st' = put_sender k s' st" using r \<open>st_handles st h = Some x\<close> Some s by (simp add: on_sender_def)
    then show ?thesis using linked_put_sender [OF st s] f [OF y] by simp
  qed (use r st Some in \<open>simp add: on_sender_def\<close>)
qed (use r st in \<open>simp add: on_sender_def\<close>)

lemma sender_moves_need: "sender_move_construct k other st = Some st' \<Longrightarrow> \<exists>s. st_senders st other = Some s"
  "sender_move_assign k other st = Some st' \<Longrightarrow> other = k \<and> st' = st \<or>
     other \<noteq> k \<and> (\<exists>s. st_senders st other = Some s) \<and> st_senders st k \<noteq> None"
  by (auto simp: sender_move_construct_def sender_move_assign_def split: bind_splits if_splits)

lemma handle_moves_need: "handle_move_assign h other st = Some st' \<Longrightarrow> other = h \<and> st' = st \<or>
     other \<noteq> h \<and> (\<exists>x. st_handles st other = Some x) \<and> st_handles st h \<noteq> None"
  by (auto simp: handle_move_assign_def split: bind_splits if_splits)

lemma handle_move_construct_need:
  assumes "handle_move_construct h other st = Some st'" "st_handles st h = None"
  shows "other = h \<and> st' = put_handle h null_handle st \<or> h \<noteq> other \<and> (\<exists>x. st_handles st other = Some x)"
  using handle_moves_need [OF assms(1) [unfolded handle_move_construct_def]] by (auto split: if_splits)

text \<open>What the user of a connection may do with the handles it holds: it assigns only to handles that are
  not attached.\<close>

inductive user_step :: "'k store \<Rightarrow> 'k store \<Rightarrow> bool" where
  moved: "st_handles st h = None \<Longrightarrow> handle_move_construct h other st = Some st' \<Longrightarrow> user_step st st'"
| assigned: "unattached h st \<Longrightarrow> handle_move_assign h other st = Some st' \<Longrightarrow> user_step st st'"
| destroyed: "handle_destroy h st = Some st' \<Longrightarrow> user_step st st'"
| header_added: "handle_header xxh junk h header st = (r, st') \<Longrightarrow> user_step st st'"
| body_added: "handle_body h body st = (r, st') \<Longrightarrow> user_step st st'"
| started: "handle_start h st = (r, st') \<Longrightarrow> user_step st st'"
| finished: "handle_fin h st = (r, st') \<Longrightarrow> user_step st st'"

lemma linked_moved:
  assumes "linked st" "st_handles st h = None" "handle_move_construct h other st = Some st'"
  shows "linked st'"
  using handle_move_construct_need [OF assms(3,2)]
proof
  assume "other = h \<and> st' = put_handle h null_handle st"
  then show ?thesis using assms(1,2) unfolding linked_def by (auto simp: null_handle_def) (metis option.distinct(1))
next
  assume "h \<noteq> other \<and> (\<exists>x. st_handles st other = Some x)"
  then show ?thesis using linked_handle_move [OF assms(1), of other _ h] assms by (fastforce simp: unattached_def)
qed

lemma linked_user_step: "user_step st st' \<Longrightarrow> linked st \<Longrightarrow> linked st'"
proof (induction rule: user_step.induct)
  case (moved st h other st')
  then show ?case using linked_moved by blast
next
  case (assigned h st other st')
  then show ?case using handle_moves_need [OF assigned(2)] linked_handle_move [OF assigned(3)] by fastforce
next
  case (destroyed h st st')
  then obtain x where "st_handles st h = Some x" by (auto simp: handle_destroy_def split: bind_splits)
  then show ?case using linked_handle_destroy [OF destroyed(2)] destroyed(1) by fastforce
next
  case (header_added xxh junk h header st r st')
  then show ?case using linked_on_sender [OF encoder_keeps_links(1)] by (auto simp: handle_header_def)
next
  case (body_added h body st r st')
  then show ?case using linked_on_sender [OF encoder_keeps_links(2)] by (auto simp: handle_body_def)
next
  case (started h st r st')
  then show ?case using linked_on_sender [OF encoder_keeps_links(3)] by (auto simp: handle_start_def)
next
  case (finished h st r st')
  then show ?case using linked_on_sender [OF encoder_keeps_links(4)] by (auto simp: handle_fin_def)
qed

text \<open>
  What a program does with its objects as long as it makes a handle only for a sender that has none, and
  assigns only to senders that are not attached.
\<close>

inductive reachable_store :: "'k store \<Rightarrow> bool" where
  empty: "reachable_store empty_store"
| sender: "reachable_store st \<Longrightarrow> st_senders st k = None \<Longrightarrow> reachable_store (sender_construct k i st)"
| sender_moved: "reachable_store st \<Longrightarrow> st_senders st k = None \<Longrightarrow>
    sender_move_construct k other st = Some st' \<Longrightarrow> reachable_store st'"
| sender_assigned: "reachable_store st \<Longrightarrow> detached k st \<Longrightarrow>
    sender_move_assign k other st = Some st' \<Longrightarrow> reachable_store st'"
| sender_destroyed: "reachable_store st \<Longrightarrow> sender_destroy k st = Some st' \<Longrightarrow> reachable_store st'"
| handle: "reachable_store st \<Longrightarrow> st_handles st h = None \<Longrightarrow> detached k st \<Longrightarrow>
    handle_construct h k st = Some st' \<Longrightarrow> reachable_store st'"
| used: "reachable_store st \<Longrightarrow> user_step st st' \<Longrightarrow> reachable_store st'"
| sent: "reachable_store st \<Longrightarrow> st_senders st k = Some s \<Longrightarrow> request_send junk s = (r, s') \<Longrightarrow>
    reachable_store (put_sender k s' st)"

lemma reachable_linked: "reachable_store st \<Longrightarrow> linked st"
proof (induction rule: reachable_store.induct)
  case (sender st k i)
  then show ?case by (intro linked_sender_construct) (simp_all add: detached_def)
next
  case (sender_moved st k other st')
  obtain s where "st_senders st other = Some s" using sender_moves_need(1) [OF sender_moved(3)] by blast
  then show ?case using linked_sender_move [OF sender_moved(4), of other s k] sender_moved
    by (cases "k = other") (auto simp: detached_def)
next
  case (sender_assigned st k other st')
  then show ?case using sender_moves_need(2) [OF sender_assigned(3)] linked_sender_move [OF sender_assigned(4)] by fastforce
next
  case (sender_destroyed st k st')
  then obtain s where "st_senders st k = Some s" by (auto simp: sender_destroy_def split: bind_splits)
  then show ?case using linked_sender_destroy [OF sender_destroyed(3)] sender_destroyed(2) by fastforce
next
  case (handle st h k st')
  then obtain s where "st_senders st k = Some s" by (auto simp: handle_construct_def split: bind_splits)
  then show ?case using linked_handle_construct [OF handle(5), of k s h] handle by (auto simp: detached_def unattached_def)
next
  case (used st st')
  then show ?case using linked_user_step by blast
next
  case (sent st k s junk r s')
  then show ?case using linked_put_sender [OF sent(4) sent(2)] request_send_keeps_links [OF sent(3)] by simp
qed (rule linked_empty)

section \<open>Properties\<close>

text \<open>
  C8. While handles are made and assigned with care, no pointer dangles: senders and handles point to each
  other, every destructor is defined, and a call through a live handle either reaches the live sender
  with the handle's id or says that the handle is invalid.
\<close>

theorem handle_links:
  assumes "reachable_store st" and "st_handles st h = Some x" and "st_senders st k = Some s"
  shows "linked st \<and> sender_destroy k st \<noteq> None \<and> handle_destroy h st \<noteq> None \<and>
    (case h_sender x of
       None \<Rightarrow> handle_fin h st = (Err Invalid_handle, st)
     | Some j \<Rightarrow> \<exists>t. st_senders st j = Some t \<and> rs_id t = h_id x \<and>
         handle_fin h st = on_member (\<lambda>t. put_sender j t st) (request_sender_fin t))"
proof -
  note st = reachable_linked [OF assms(1)]
  have "sender_destroy k st \<noteq> None" using linked_sender_destroy [OF st assms(3)] by auto
  moreover have "handle_destroy h st \<noteq> None" using linked_handle_destroy [OF st assms(2)] by auto
  moreover have "case h_sender x of
       None \<Rightarrow> handle_fin h st = (Err Invalid_handle, st)
     | Some j \<Rightarrow> \<exists>t. st_senders st j = Some t \<and> rs_id t = h_id x \<and>
         handle_fin h st = on_member (\<lambda>t. put_sender j t st) (request_sender_fin t)"
    using linked_handle [OF st assms(2)] assms(2)
    by (cases "h_sender x") (auto simp: handle_fin_def on_sender_def)
  ultimately show ?thesis using st by blast
qed

definition sample_store :: "nat store" where
  "sample_store =
     \<lparr> st_senders = [7 \<mapsto> (new_request_sender 4)\<lparr>rs_handle := Some 1\<rparr>],
       st_handles = [1 \<mapsto> \<lparr> h_id = 4, h_sender = Some 7 \<rparr>] \<rparr>"

lemma sample_store_reachable: "reachable_store sample_store"
proof -
  let ?st = "sender_construct 7 4 empty_store :: nat store"
  show ?thesis
  proof (rule reachable_store.handle)
    show "reachable_store ?st" by (rule reachable_store.sender [OF reachable_store.empty]) (simp add: empty_store_def)
    show "handle_construct 1 7 ?st = Some sample_store"
      by (simp add: handle_construct_def sender_construct_def set_handle_of_def empty_store_def sample_store_def
          put_sender_def put_handle_def new_request_sender_def)
  qed (simp_all add: sender_construct_def empty_store_def detached_def new_request_sender_def)
qed

theorem handle_links_witness:
  "linked sample_store \<and> sender_destroy 7 sample_store \<noteq> None \<and> handle_destroy 1 sample_store \<noteq> None \<and>
    (\<exists>t. st_senders sample_store 7 = Some t \<and> rs_id t = 4 \<and>
       handle_fin 1 sample_store = on_member (\<lambda>t. put_sender 7 t sample_store) (request_sender_fin t))"
  using handle_links [OF sample_store_reachable, of 1 "\<lparr> h_id = 4, h_sender = Some 7 \<rparr>" 7]
  by (simp add: sample_store_def)

text \<open>
  C30. Without that care a pointer dangles: a second handle for a sender takes the link over, the sender's
  destructor then only tells the second handle, and a call through the first one reads a sender that is
  gone.
\<close>

theorem handle_second:
  assumes "linked st" and "st_handles st h = Some x" and "h_sender x = Some k" and "st_handles st h' = None"
  shows "\<exists>st1 st2. handle_construct h' k st = Some st1 \<and> sender_destroy k st1 = Some st2 \<and>
    handle_fin h' st2 = (Err Invalid_handle, st2) \<and> handle_fin h st2 = (Fault, st2)"
proof -
  obtain s where s: "st_senders st k = Some s" using linked_handle [OF assms(1-3)] by blast
  have "h' \<noteq> h" using assms(2,4) by auto
  then show ?thesis using s assms(2,3,4)
    by (simp add: handle_construct_def set_handle_of_def sender_destroy_def set_sender_of_def handle_fin_def on_sender_def)
qed

theorem handle_second_witness:
  "\<exists>st1 st2. handle_construct 2 7 sample_store = Some st1 \<and> sender_destroy 7 st1 = Some st2 \<and>
    handle_fin 2 st2 = (Err Invalid_handle, st2) \<and> handle_fin 1 st2 = (Fault, st2)"
  by (rule handle_second [where x = "\<lparr> h_id = 4, h_sender = Some 7 \<rparr>", OF reachable_linked [OF sample_store_reachable]])
    (simp_all add: sample_store_def)

end
