(* ===== verification/Ordered_Map.thy ===== *)
theory Ordered_Map
  imports Main
begin

text \<open>
  \<open>std::map\<close> as the connections use it: an association list sorted by its keys, so that a loop over the
  map visits the keys in ascending order. \<open>insert\<close> leaves an entry that is already there alone.
\<close>

section \<open>The operations\<close>

definition map_find :: "'a \<Rightarrow> ('a \<times> 'b) list \<Rightarrow> 'b option" where
  "map_find k xs = map_of xs k"

fun map_insert :: "'a :: linorder \<Rightarrow> 'b \<Rightarrow> ('a \<times> 'b) list \<Rightarrow> ('a \<times> 'b) list" where
  "map_insert k v [] = [(k, v)]"
| "map_insert k v ((j, w) # xs) =
     (if k < j then (k, v) # (j, w) # xs
      else if k = j then (j, w) # xs
      else (j, w) # map_insert k v xs)"

text \<open>Writing through the reference that \<open>find\<close> or \<open>at\<close> returned.\<close>

definition map_update :: "'a \<Rightarrow> 'b \<Rightarrow> ('a \<times> 'b) list \<Rightarrow> ('a \<times> 'b) list" where
  "map_update k v xs = map (\<lambda>(j, w). (j, if j = k then v else w)) xs"

definition map_erase :: "'a \<Rightarrow> ('a \<times> 'b) list \<Rightarrow> ('a \<times> 'b) list" where
  "map_erase k xs = filter (\<lambda>(j, w). j \<noteq> k) xs"

definition map_keys :: "('a \<times> 'b) list \<Rightarrow> 'a list" where
  "map_keys xs = map fst xs"

definition map_ok :: "('a :: linorder \<times> 'b) list \<Rightarrow> bool" where
  "map_ok xs \<longleftrightarrow> sorted_wrt (<) (map_keys xs)"

section \<open>The contract\<close>

locale ordered_map =
  fixes find :: "'k :: linorder \<Rightarrow> 'm \<Rightarrow> 'v option"
    and insert update :: "'k \<Rightarrow> 'v \<Rightarrow> 'm \<Rightarrow> 'm"
    and erase :: "'k \<Rightarrow> 'm \<Rightarrow> 'm"
    and keys :: "'m \<Rightarrow> 'k list"
    and ok :: "'m \<Rightarrow> bool"
  assumes keys_sorted: "ok m \<Longrightarrow> sorted_wrt (<) (keys m)"
    and keys_find: "k \<in> set (keys m) \<longleftrightarrow> find k m \<noteq> None"
    and insert_ok: "ok m \<Longrightarrow> ok (insert k v m)"
    and update_ok: "ok m \<Longrightarrow> ok (update k v m)"
    and erase_ok: "ok m \<Longrightarrow> ok (erase k m)"
    and find_insert: "ok m \<Longrightarrow> find j (insert k v m) = (if j = k \<and> find k m = None then Some v else find j m)"
    and find_update: "find j (update k v m) = (if j = k \<and> find k m \<noteq> None then Some v else find j m)"
    and find_erase: "find j (erase k m) = (if j = k then None else find j m)"
begin

lemma keys_insert: "ok m \<Longrightarrow> set (keys (insert k v m)) = Set.insert k (set (keys m))"
  by (auto simp: keys_find find_insert split: if_splits)

lemma keys_erase: "set (keys (erase k m)) = set (keys m) - {k}"
  by (auto simp: keys_find find_erase split: if_splits)

lemma keys_update [simp]: "set (keys (update k v m)) = set (keys m)"
  by (auto simp: keys_find find_update split: if_splits)

lemma keys_distinct: "ok m \<Longrightarrow> distinct (keys m)"
  using keys_sorted [of m] by (simp add: strict_sorted_iff)

end

section \<open>The association list keeps it\<close>

lemma map_keys_insert_set: "set (map_keys (map_insert k v xs)) = Set.insert k (set (map_keys xs))"
  by (induction k v xs rule: map_insert.induct) (auto simp: map_keys_def)

lemma map_insert_ok: "map_ok xs \<Longrightarrow> map_ok (map_insert k v xs)"
proof (induction k v xs rule: map_insert.induct)
  case (2 k v j w xs)
  then show ?case using map_keys_insert_set [of k v xs]
    by (fastforce simp: map_ok_def map_keys_def)
qed (simp add: map_ok_def map_keys_def)

lemma map_find_insert:
  "map_ok xs \<Longrightarrow> map_find j (map_insert k v xs) = (if j = k \<and> map_find k xs = None then Some v else map_find j xs)"
proof (induction k v xs rule: map_insert.induct)
  case (2 k v i w xs)
  have "k < i \<Longrightarrow> map_of xs k = None" using "2.prems" by (fastforce simp: map_ok_def map_keys_def map_of_eq_None_iff)
  then show ?case using 2 by (auto simp: map_find_def map_ok_def map_keys_def)
qed (simp add: map_find_def)

interpretation map: ordered_map map_find map_insert map_update map_erase map_keys map_ok
proof unfold_locales
  fix m :: "('a \<times> 'b) list" and k j :: 'a and v :: 'b
  show "map_ok m \<Longrightarrow> sorted_wrt (<) (map_keys m)" by (simp add: map_ok_def)
  show "k \<in> set (map_keys m) \<longleftrightarrow> map_find k m \<noteq> None"
    by (auto simp: map_keys_def map_find_def map_of_eq_None_iff)
  show "map_ok m \<Longrightarrow> map_ok (map_insert k v m)" by (rule map_insert_ok)
  have "map_keys (map_update k v m) = map_keys m"
    by (induction m) (auto simp: map_keys_def map_update_def)
  then show "map_ok m \<Longrightarrow> map_ok (map_update k v m)" by (simp add: map_ok_def)
  have "map_keys (map_erase k m) = filter (\<lambda>j. j \<noteq> k) (map_keys m)"
    by (induction m) (auto simp: map_keys_def map_erase_def)
  then show "map_ok m \<Longrightarrow> map_ok (map_erase k m)" by (simp add: map_ok_def sorted_wrt_filter)
  show "map_ok m \<Longrightarrow> map_find j (map_insert k v m) = (if j = k \<and> map_find k m = None then Some v else map_find j m)"
    by (rule map_find_insert)
  show "map_find j (map_update k v m) = (if j = k \<and> map_find k m \<noteq> None then Some v else map_find j m)"
    by (induction m) (auto simp: map_find_def map_update_def)
  show "map_find j (map_erase k m) = (if j = k then None else map_find j m)"
    by (induction m) (auto simp: map_find_def map_erase_def)
qed

end
