(* ===== verification/Generator.thy ===== *)
theory Generator
  imports Events
begin

text \<open>
  The event generator (\<open>endpoint/generator.hpp\<close>), a template over the connection: the connection is a
  state with a function that processes one stream. The loop a user writes over a generator ends, if the
  connection keeps the contract \<open>event_source\<close>.
\<close>

section \<open>generator\<close>

record generator =
  g_result :: "(event, error) result"
  g_finished :: bool
  g_id :: uint64

definition new_generator :: "uint64 \<Rightarrow> generator" where
  "new_generator i = \<lparr> g_result = Err Internal, g_finished = False, g_id = i \<rparr>"

text \<open>
  \<open>next\<close> is \<open>noexcept\<close>: an exception that leaves the connection ends the program, the fault of
  \<open>process\<close>.
\<close>

definition generator_next ::
  "(uint64 \<Rightarrow> 'c \<Rightarrow> (event, error) result \<times> 'c) \<Rightarrow> generator \<Rightarrow> 'c \<Rightarrow>
   (bool, error) result \<times> generator \<times> 'c" where
  "generator_next process g c =
     (if g_finished g then (Ok False, g, c)
      else (case process (g_id g) c of
          (Fault, c) \<Rightarrow> (Fault, g, c)
        | (r, c) \<Rightarrow>
            let g = g\<lparr>g_result := r\<rparr> in
            if r = Err Incomplete then (Ok False, g, c)
            else
              (Ok True,
               (case r of
                  Ok ev \<Rightarrow> if event_type_of ev = Finished_event then g\<lparr>g_finished := True\<rparr> else g
                | _ \<Rightarrow> g),
               c)))"

definition generator_get :: "generator \<Rightarrow> (event, error) result \<times> generator" where
  "generator_get g = (g_result g, g\<lparr>g_result := Err Internal\<rparr>)"

text \<open>
  The loop of a user: while there is a next event, get it, and leave with the error if it is one. At
  most \<open>n\<close> calls of \<open>next\<close> are made; \<open>None\<close> means that they were not enough.
\<close>

fun generator_events ::
  "(uint64 \<Rightarrow> 'c \<Rightarrow> (event, error) result \<times> 'c) \<Rightarrow> nat \<Rightarrow> generator \<Rightarrow> 'c \<Rightarrow>
   ((event list, error) result \<times> generator \<times> 'c) option" where
  "generator_events process 0 g c = None"
| "generator_events process (Suc n) g c =
     (case generator_next process g c of
        (Ok True, g, c) \<Rightarrow>
          (case generator_get g of
             (Ok ev, g) \<Rightarrow>
               map_option (\<lambda>m. try_state m (\<lambda>evs s. (Ok (ev # evs), s))) (generator_events process n g c)
           | (Err e, g) \<Rightarrow> Some (Err e, g, c)
           | (Fault, g) \<Rightarrow> Some (Fault, g, c))
      | (Ok False, g, c) \<Rightarrow> Some (Ok [], g, c)
      | (Err e, g, c) \<Rightarrow> Some (Err e, g, c)
      | (Fault, g, c) \<Rightarrow> Some (Fault, g, c))"

section \<open>The contract of a connection\<close>

text \<open>
  Every event but \<open>finished\<close> takes something from what the connection has left to process.
\<close>

locale event_source =
  fixes process :: "uint64 \<Rightarrow> 'c \<Rightarrow> (event, error) result \<times> 'c"
    and left :: "uint64 \<Rightarrow> 'c \<Rightarrow> nat"
  assumes uses_up: "process i c = (Ok ev, c') \<Longrightarrow> event_type_of ev \<noteq> Finished_event \<Longrightarrow> left i c' < left i c"
begin

lemma generator_ends:
  "left (g_id g) c + 2 \<le> n \<Longrightarrow>
   \<exists>r g' c'. generator_events process n g c = Some (r, g', c') \<and>
     (\<forall>evs. r = Ok evs \<longrightarrow> length evs \<le> Suc (left (g_id g) c))"
proof (induction n arbitrary: g c)
  case (Suc n)
  show ?case
  proof (cases "g_finished g")
    case True
    then show ?thesis by (simp add: generator_next_def)
  next
    case False
    obtain r c' where p: "process (g_id g) c = (r, c')" by (cases "process (g_id g) c")
    show ?thesis
    proof (cases r)
      case (Ok ev)
      show ?thesis
      proof (cases "event_type_of ev = Finished_event")
        case True
        obtain m where "n = Suc m" using Suc.prems by (cases n) auto
        then show ?thesis using False p Ok True
          by (simp add: generator_next_def generator_get_def Let_def)
      next
        case more: False
        let ?g = "g\<lparr>g_result := Err Internal\<rparr>"
        have less: "left (g_id g) c' < left (g_id g) c" using uses_up p Ok more by blast
        then obtain r' g' c'' where IH: "generator_events process n ?g c' = Some (r', g', c'')"
          "\<forall>evs. r' = Ok evs \<longrightarrow> length evs \<le> Suc (left (g_id g) c')"
          using Suc.IH [of ?g c'] Suc.prems by auto
        then show ?thesis using False p Ok more less
          by (cases r') (auto simp: generator_next_def generator_get_def Let_def)
      qed
    next
      case (Err e)
      then show ?thesis using False p by (auto simp: generator_next_def generator_get_def Let_def)
    next
      case Fault
      then show ?thesis using False p by (simp add: generator_next_def)
    qed
  qed
qed simp

end

end
