(* ===== verification/Client.thy ===== *)
theory Client
  imports Control Handles Ordered_Map Generator
begin

text \<open>
  The client's connection (\<open>client/connection.cpp\<close>): a control stream, the map of its requests and the id
  of the next one. The map \<open>requests_\<close> of pairs is kept as two with the same keys: the receivers, and the
  senders in the store that their handles point into, each at the address of its map node.
\<close>

section \<open>connection\<close>

record client =
  cl_control_sender :: control_sender
  cl_control_receiver :: control_receiver
  cl_local :: settings
  cl_peer :: settings
  cl_store :: "uint64 store"
  cl_receivers :: "(uint64 \<times> request_receiver) list"
  cl_next :: uint64

definition new_client :: client where
  "new_client =
     \<lparr> cl_control_sender = client_control_sender, cl_control_receiver = client_control_receiver,
       cl_local = default_settings, cl_peer = default_settings,
       cl_store = empty_store, cl_receivers = [], cl_next = 0 \<rparr>"

text \<open>The loop of \<open>send\<close> over the entries that are left.\<close>

fun client_send_requests ::
  "(nat \<Rightarrow> byte) \<Rightarrow> uint64 list \<Rightarrow> client \<Rightarrow> (quic_event, error) result \<times> client" where
  "client_send_requests junk [] c = (Err Idle, c)"
| "client_send_requests junk (i # is) c =
     try_in c (or_fault (st_senders (cl_store c) i)) (\<lambda>sender.
     if request_sender_finished sender then client_send_requests junk is c
     else (case on_member (\<lambda>sender. c\<lparr>cl_store := put_sender i sender (cl_store c)\<rparr>) (request_send junk sender) of
         (Ok ev, c) \<Rightarrow>
           try_in c (or_fault (map_find i (cl_receivers c))) (\<lambda>receiver.
           if request_receiver_closed receiver then
             try_state (on_member (\<lambda>receiver. c\<lparr>cl_receivers := map_update i receiver (cl_receivers c)\<rparr>)
                 (request_receiver_start receiver))
               (\<lambda>_ c. (Ok ev, c))
           else (Ok ev, c))
       | (Err e, c) \<Rightarrow> if e \<noteq> Idle then (Err e, c) else client_send_requests junk is c
       | (Fault, c) \<Rightarrow> (Fault, c)))"

definition client_send :: "(nat \<Rightarrow> byte) \<Rightarrow> client \<Rightarrow> (quic_event, error) result \<times> client" where
  "client_send junk c =
     (case on_member (\<lambda>control. c\<lparr>cl_control_sender := control\<rparr>) (control_send junk (cl_control_sender c)) of
        (Ok ev, c) \<Rightarrow> (Ok ev, c)
      | (Err e, c) \<Rightarrow>
          if e \<noteq> Idle then (Err e, c) else client_send_requests junk (map_keys (cl_receivers c)) c
      | (Fault, c) \<Rightarrow> (Fault, c))"

definition client_recv_data :: "quic_data \<Rightarrow> client \<Rightarrow> (unit, error) result \<times> client" where
  "client_recv_data data c =
     (if data_id data = cr_id (cl_control_receiver c) then
        on_member (\<lambda>control. c\<lparr>cl_control_receiver := control\<rparr>) (control_recv data (cl_control_receiver c))
      else if data_id data AND 0x2 \<noteq> 0 then (Ok (), c)
      else (case map_find (data_id data) (cl_receivers c) of
          None \<Rightarrow> (Err Internal, c)
        | Some receiver \<Rightarrow>
            on_member (\<lambda>receiver. c\<lparr>cl_receivers := map_update (data_id data) receiver (cl_receivers c)\<rparr>)
              (request_recv data receiver)))"

definition client_recv :: "quic_event \<Rightarrow> client \<Rightarrow> (generator, error) result \<times> client" where
  "client_recv event c =
     (case event of
        Quic_data data \<Rightarrow>
          try_state (client_recv_data data c) (\<lambda>_ c. (Ok (new_generator (quic_event_id event)), c))
      | Quic_application_error e \<Rightarrow> (Err Not_implemented, c))"

definition client_process :: "uint64 \<Rightarrow> client \<Rightarrow> (event, error) result \<times> client" where
  "client_process i c =
     (if i = cr_id (cl_control_receiver c) then
        try_state (on_member (\<lambda>control. c\<lparr>cl_control_receiver := control\<rparr>)
            (control_process client_control_frame (cl_control_receiver c)))
          (\<lambda>event c. (Ok event, case event of Ev_settings s \<Rightarrow> c\<lparr>cl_peer := s\<rparr> | _ \<Rightarrow> c))
      else if i AND 0x2 \<noteq> 0 then (Err Incomplete, c)
      else (case map_find i (cl_receivers c) of
          None \<Rightarrow> (Err Internal, c)
        | Some receiver \<Rightarrow>
            try_state (on_member (\<lambda>receiver. c\<lparr>cl_receivers := map_update i receiver (cl_receivers c)\<rparr>)
                (request_process client_request_frame receiver))
              (\<lambda>event c.
                if event_type_of event = Finished_event then
                  try_in c (or_fault (sender_destroy i (cl_store c))) (\<lambda>store.
                  (Ok event, c\<lparr>cl_store := store, cl_receivers := map_erase i (cl_receivers c)\<rparr>))
                else (Ok event, c))))"

text \<open>
  \<open>insert\<close> does nothing when the id is taken. The new handle is made in a temporary at \<open>t\<close> and moved to
  \<open>h\<close>, where the caller keeps it.
\<close>

definition client_insert :: "uint64 \<Rightarrow> client \<Rightarrow> client" where
  "client_insert i c =
     (if map_find i (cl_receivers c) = None then
        c\<lparr>cl_store := sender_construct i i (cl_store c),
          cl_receivers := map_insert i (new_request_receiver i) (cl_receivers c)\<rparr>
      else c)"

definition hand_over :: "nat \<Rightarrow> nat \<Rightarrow> 'k \<Rightarrow> 'k store \<Rightarrow> 'k store option" where
  "hand_over t h k st =
     do { st \<leftarrow> handle_construct t k st;
          st \<leftarrow> handle_move_construct h t st;
          handle_destroy t st }"

definition client_request :: "nat \<Rightarrow> nat \<Rightarrow> client \<Rightarrow> (unit, error) result \<times> client" where
  "client_request t h c =
     (let i = cl_next c;
          c = (client_insert i c)\<lparr>cl_next := cl_next c + 4\<rparr>
      in try_in c (or_fault (hand_over t h i (cl_store c))) (\<lambda>st. (Ok (), c\<lparr>cl_store := st\<rparr>)))"

text \<open>A call through a handle of the client's user.\<close>

definition client_call ::
  "(uint64 store \<Rightarrow> (unit, error) result \<times> uint64 store) \<Rightarrow> client \<Rightarrow> (unit, error) result \<times> client" where
  "client_call f c = on_member (\<lambda>st. c\<lparr>cl_store := st\<rparr>) (f (cl_store c))"

end
