(* ===== verification/Server.thy ===== *)
theory Server
  imports Client
begin

text \<open>
  The server's connection (\<open>server/connection.cpp\<close>): like the client's, with the requests that the peer
  opens by sending on a new stream.
\<close>

section \<open>connection\<close>

record server =
  sv_control_sender :: control_sender
  sv_control_receiver :: control_receiver
  sv_local :: settings
  sv_peer :: settings
  sv_store :: "uint64 store"
  sv_receivers :: "(uint64 \<times> request_receiver) list"

definition new_server :: server where
  "new_server =
     \<lparr> sv_control_sender = server_control_sender, sv_control_receiver = server_control_receiver,
       sv_local = default_settings, sv_peer = default_settings,
       sv_store = empty_store, sv_receivers = [] \<rparr>"

definition server_erase :: "uint64 \<Rightarrow> server \<Rightarrow> (unit, error) result \<times> server" where
  "server_erase i c =
     try_in c (or_fault (sender_destroy i (sv_store c))) (\<lambda>store.
     (Ok (), c\<lparr>sv_store := store, sv_receivers := map_erase i (sv_receivers c)\<rparr>))"

fun server_send_requests ::
  "(nat \<Rightarrow> byte) \<Rightarrow> uint64 list \<Rightarrow> server \<Rightarrow> (quic_event, error) result \<times> server" where
  "server_send_requests junk [] c = (Err Idle, c)"
| "server_send_requests junk (i # is) c =
     try_in c (or_fault (st_senders (sv_store c) i)) (\<lambda>sender.
     if request_sender_finished sender then server_send_requests junk is c
     else (case request_send junk sender of
         (Ok ev, sender) \<Rightarrow>
           let c = c\<lparr>sv_store := put_sender i sender (sv_store c)\<rparr> in
           if request_sender_finished sender then try_state (server_erase i c) (\<lambda>_ c. (Ok ev, c))
           else (Ok ev, c)
       | (Err e, sender) \<Rightarrow>
           let c = c\<lparr>sv_store := put_sender i sender (sv_store c)\<rparr> in
           if e \<noteq> Idle then (Err e, c) else server_send_requests junk is c
       | (Fault, sender) \<Rightarrow> (Fault, c\<lparr>sv_store := put_sender i sender (sv_store c)\<rparr>)))"

definition server_send :: "(nat \<Rightarrow> byte) \<Rightarrow> server \<Rightarrow> (quic_event, error) result \<times> server" where
  "server_send junk c =
     (case on_member (\<lambda>control. c\<lparr>sv_control_sender := control\<rparr>) (control_send junk (sv_control_sender c)) of
        (Ok ev, c) \<Rightarrow> (Ok ev, c)
      | (Err e, c) \<Rightarrow>
          if e \<noteq> Idle then (Err e, c) else server_send_requests junk (map_keys (sv_receivers c)) c
      | (Fault, c) \<Rightarrow> (Fault, c))"

text \<open>The entry for a stream that is not known yet; its receiver is started at once.\<close>

definition server_open :: "uint64 \<Rightarrow> server \<Rightarrow> (unit, error) result \<times> server" where
  "server_open i c =
     (if map_find i (sv_receivers c) = None then
        (case request_receiver_start (new_request_receiver i) of
           (Ok _, receiver) \<Rightarrow>
             (Ok (), c\<lparr>sv_store := sender_construct i i (sv_store c),
                       sv_receivers := map_insert i receiver (sv_receivers c)\<rparr>)
         | (Err e, _) \<Rightarrow> (Err e, c)
         | (Fault, _) \<Rightarrow> (Fault, c))
      else (Ok (), c))"

definition server_recv_data :: "quic_data \<Rightarrow> server \<Rightarrow> (unit, error) result \<times> server" where
  "server_recv_data data c =
     (if data_id data = cr_id (sv_control_receiver c) then
        on_member (\<lambda>control. c\<lparr>sv_control_receiver := control\<rparr>) (control_recv data (sv_control_receiver c))
      else
        try_state (server_open (data_id data) c) (\<lambda>_ c.
        try_in c (or_fault (map_find (data_id data) (sv_receivers c))) (\<lambda>receiver.
        on_member (\<lambda>receiver. c\<lparr>sv_receivers := map_update (data_id data) receiver (sv_receivers c)\<rparr>)
          (request_recv data receiver))))"

definition server_recv :: "quic_event \<Rightarrow> server \<Rightarrow> (generator, error) result \<times> server" where
  "server_recv event c =
     (case event of
        Quic_data data \<Rightarrow>
          try_state (server_recv_data data c) (\<lambda>_ c. (Ok (new_generator (quic_event_id event)), c))
      | Quic_application_error e \<Rightarrow> (Err Not_implemented, c))"

text \<open>
  \<open>requests_.at(id)\<close> throws when the id is not there. The exception leaves \<open>process\<close>, which only the
  generator calls, and ends the program in the generator's \<open>noexcept\<close> function: the fault.
\<close>

definition server_process :: "uint64 \<Rightarrow> server \<Rightarrow> (event, error) result \<times> server" where
  "server_process i c =
     (if i = cr_id (sv_control_receiver c) then
        try_state (on_member (\<lambda>control. c\<lparr>sv_control_receiver := control\<rparr>)
            (control_process server_control_frame (sv_control_receiver c)))
          (\<lambda>event c. (Ok event, case event of Ev_settings s \<Rightarrow> c\<lparr>sv_peer := s\<rparr> | _ \<Rightarrow> c))
      else
        try_in c (or_fault (map_find i (sv_receivers c))) (\<lambda>receiver.
        on_member (\<lambda>receiver. c\<lparr>sv_receivers := map_update i receiver (sv_receivers c)\<rparr>)
          (request_process server_request_frame receiver)))"

definition server_response :: "nat \<Rightarrow> nat \<Rightarrow> uint64 \<Rightarrow> server \<Rightarrow> (unit, error) result \<times> server" where
  "server_response t h i c =
     (case map_find i (sv_receivers c) of
        None \<Rightarrow> (Err Stream_closed, c)
      | Some _ \<Rightarrow>
          try_in c (or_fault (hand_over t h i (sv_store c))) (\<lambda>st. (Ok (), c\<lparr>sv_store := st\<rparr>)))"

definition server_call ::
  "(uint64 store \<Rightarrow> (unit, error) result \<times> uint64 store) \<Rightarrow> server \<Rightarrow> (unit, error) result \<times> server" where
  "server_call f c = on_member (\<lambda>st. c\<lparr>sv_store := st\<rparr>) (f (sv_store c))"

end
