(* ===== verification/Connections.thy ===== *)
theory Connections
  imports Server
begin

text \<open>
  The two connections: the loops over their events end, stream ids are used once, a request makes its way
  from the client's user to the server's, and what goes wrong when a response is sent early.
\<close>

section \<open>Loops over events end\<close>

definition request_left :: "request_receiver \<Rightarrow> nat" where
  "request_left r = body_left (rr_body r) (concat (rr_buffers r))"

lemma seq_buffers_length: "in_buffers s \<Longrightarrow> length (concat (seq_buffers s)) = length (seq_bytes s)"
  by simp

lemma body_decode_delegate:
  assumes s: "seq_ok s" and d: "body_decode dec s = (Err Delegate, s', dec')"
  shows "s' = s \<and> dec' = dec"
proof -
  have part: "\<not> (\<exists>t q. body_decode_part q t = (Err Delegate, s', dec'))"
    by (auto simp: body_decode_part_def try_in_def or_fault_def Let_def split: if_splits option.splits prod.splits)
  have "fst (frame_decode s) \<noteq> Err Delegate" using frame_decode_result [OF s] by (cases "fst (frame_decode s)") auto
  then show ?thesis using d part
    by (auto simp: body_decode_def try_in_def or_fault_def Let_def
        split: body_decoder_state.splits result.splits if_splits prod.splits option.splits)
qed

lemma buffers_consume_all: "buffers_consume bs (length (concat bs)) = Some bs' \<Longrightarrow> concat bs' = []"
  using buffers_consume_Ok [of "length (concat bs)" bs] by force

context rejecting_request
begin

lemma request_failed_left:
  assumes "request_failed handle e r = (Ok ev, r')"
  shows "e = Delegate \<and> request_left r' < request_left r"
proof -
  obtain f r1 where f: "e = Delegate" "request_frame r = (Ok f, r1)" "concat (rr_buffers r') = []"
      "rr_body r' = rr_body r1"
    using assms frame.no_event
    by (cases "request_frame r"; cases "fst (request_frame r)")
      (auto simp: request_failed_def try_in_def or_fault_def simp del: concat_eq_Nil_conv dest: buffers_consume_all
        split: if_splits frame_type.splits option.splits)
  obtain s' where s': "frame_decode (Buffers_seq (rr_buffers r)) = (Ok f, s')" "rr_body r1 = rr_body r"
    using f(2) by (auto simp: request_frame_def on_member_eq)
  then have "0 < length (concat (rr_buffers r))"
    using frame_decode_advances [OF _ s'(1)] by (simp del: length_concat concat_eq_Nil_conv length_greater_0_conv)
  then show ?thesis using f s'(2) by (auto simp: request_left_def body_left_def simp del: concat_eq_Nil_conv)
qed

lemma request_process_left:
  assumes p: "request_process handle r = (Ok ev, r')" and ev: "event_type_of ev \<noteq> Finished_event"
  shows "request_left r' < request_left r"
proof (cases "rr_state r")
  case Rr_headers
  obtain y r1 where y: "request_decode_header r = (y, r1)" by (cases "request_decode_header r")
  then obtain s' dec' where d: "headers_decode (rr_headers r) (Buffers_seq (rr_buffers r)) = (y, s', dec')"
      "r1 = r\<lparr>rr_buffers := seq_buffers s', rr_headers := dec'\<rparr>"
    by (auto simp: request_decode_header_def on_member_eq)
  show ?thesis
  proof (cases y)
    case (Ok h)
    have "in_buffers s'" using headers_decode_in_buffers [OF d(1)] by simp
    moreover have "length (seq_bytes s') < length (concat (rr_buffers r))"
      using headers_decode_advances [of "Buffers_seq (rr_buffers r)"] d(1) Ok by auto
    moreover have "rr_buffers r' = rr_buffers r1" "rr_body r' = rr_body r"
      using p Rr_headers y Ok d(2) by (auto simp: request_process_def Let_def split: if_splits)
    ultimately show ?thesis using d(2) by (simp add: request_left_def body_left_def)
  next
    case (Err e)
    then have "request_failed handle e r1 = (Ok ev, r')" using p Rr_headers y by (simp add: request_process_def)
    then have "rr_state r1 = Rr_body" using request_failed_step by fastforce
    then show ?thesis using d(2) Rr_headers by simp
  qed (use p Rr_headers y in \<open>simp add: request_process_def\<close>)
next
  case Rr_body
  obtain y r1 where y: "request_decode_body r = (y, r1)" by (cases "request_decode_body r")
  then obtain s' dec' where d: "body_decode (rr_body r) (Buffers_seq (rr_buffers r)) = (y, s', dec')"
      "r1 = r\<lparr>rr_buffers := seq_buffers s', rr_body := dec'\<rparr>"
    by (auto simp: request_decode_body_def on_member_eq)
  show ?thesis
  proof (cases y)
    case (Ok b)
    have "in_buffers s'" using body_decode_in_buffers [OF d(1)] by simp
    moreover have "body_left dec' (seq_bytes s') < request_left r"
      using body_decode_left [of "Buffers_seq (rr_buffers r)"] d(1) Ok by (auto simp: request_left_def)
    moreover have "rr_buffers r' = rr_buffers r1" "rr_body r' = rr_body r1"
      using p Rr_body y Ok by (auto simp: request_process_def Let_def split: if_splits)
    ultimately show ?thesis using d(2) by (simp add: request_left_def)
  next
    case (Err e)
    then have f: "request_failed handle e r1 = (Ok ev, r')" using p Rr_body y by (simp add: request_process_def)
    then have "e = Delegate" using request_failed_left by blast
    then have "s' = Buffers_seq (rr_buffers r)" "dec' = rr_body r"
      using body_decode_delegate [of "Buffers_seq (rr_buffers r)"] d(1) Err by auto
    then have "request_left r1 = request_left r" using d(2) by (simp add: request_left_def)
    then show ?thesis using request_failed_left [OF f] by simp
  qed (use p Rr_body y in \<open>simp add: request_process_def\<close>)
qed (use p ev in \<open>auto simp: request_process_def\<close>)

end

lemma control_frame_left:
  "control_frame c = (Ok f, c') \<Longrightarrow> length (concat (cr_buffers c')) < length (concat (cr_buffers c))"
  using frame_decode_advances [of "Buffers_seq (cr_buffers c)"] by (auto dest!: control_frame_eq)

context rejecting
begin

lemma control_process_left:
  assumes "control_process handle c = (Ok ev, c')"
  shows "length (concat (cr_buffers c')) < length (concat (cr_buffers c))"
proof -
  have settings: "length (concat (cr_buffers d')) < length (concat (cr_buffers d))"
    if "control_process_settings d = (Ok ev, d')" for d d'
    using that control_frame_left [of d]
    by (cases "control_frame d"; cases "fst (control_frame d)")
      (auto simp: control_process_settings_def split: frame.splits)
  show ?thesis
  proof (cases "cr_state c")
    case Cr_type
    let ?s = "Buffers_seq (cr_buffers c)"
    obtain t s' where v: "varint_decode ?s = (Ok t, s')"
        "control_process_settings (c\<lparr>cr_buffers := seq_buffers s', cr_state := Cr_settings\<rparr>) = (Ok ev, c')"
      using assms Cr_type by (auto simp: control_process_def try_state_def on_member_def split: prod.splits result.splits if_splits)
    obtain k where k: "s' = seq_drop ?s k" "k \<le> length (seq_bytes ?s)"
      using varint_decode_OkD [OF _ v(1)] by auto
    have "in_buffers s'" using k(1) by simp
    then have "length (concat (seq_buffers s')) = length (seq_bytes s')" by simp
    also have "seq_bytes s' = drop k (seq_bytes ?s)" unfolding k(1) by (rule seq_bytes_drop [OF _ k(2)]) simp
    finally have "length (concat (seq_buffers s')) \<le> length (concat (cr_buffers c))" by simp
    then show ?thesis using settings [OF v(2)] by simp
  next
    case Cr_settings
    then show ?thesis using assms settings by (simp add: control_process_def)
  next
    case Cr_active
    then show ?thesis using assms control_process_active_step by (fastforce simp: control_process_def)
  qed
qed

end

definition client_left :: "uint64 \<Rightarrow> client \<Rightarrow> nat" where
  "client_left i c =
     (if i = cr_id (cl_control_receiver c) then length (concat (cr_buffers (cl_control_receiver c)))
      else case map_find i (cl_receivers c) of None \<Rightarrow> 0 | Some r \<Rightarrow> request_left r)"

definition server_left :: "uint64 \<Rightarrow> server \<Rightarrow> nat" where
  "server_left i c =
     (if i = cr_id (sv_control_receiver c) then length (concat (cr_buffers (sv_control_receiver c)))
      else case map_find i (sv_receivers c) of None \<Rightarrow> 0 | Some r \<Rightarrow> request_left r)"

lemma control_process_id: "control_process handle c = (r, c') \<Longrightarrow> cr_id c' = cr_id c"
  by (auto simp: control_process_def control_process_settings_def control_process_active_def control_frame_def
      try_state_def on_member_def split: control_receiver_state.splits prod.splits result.splits if_splits frame.splits)

interpretation client_events: event_source client_process client_left
proof
  fix i c ev c'
  assume p: "client_process i c = (Ok ev, c')" and ev: "event_type_of ev \<noteq> Finished_event"
  show "client_left i c' < client_left i c"
  proof (cases "i = cr_id (cl_control_receiver c)")
    case True
    obtain r d where d: "control_process client_control_frame (cl_control_receiver c) = (r, d)"
      by (cases "control_process client_control_frame (cl_control_receiver c)")
    then have "r = Ok ev" "cl_control_receiver c' = d"
      using p True by (cases r; auto simp: client_process_def split: event.splits)+
    then show ?thesis using True d client_control.control_process_left control_process_id [OF d]
      by (auto simp: client_left_def)
  next
    case False
    then obtain q where q: "map_find i (cl_receivers c) = Some q"
      using p by (auto simp: client_process_def split: option.splits if_splits)
    obtain r q' where d: "request_process client_request_frame q = (r, q')"
      by (cases "request_process client_request_frame q")
    then have r: "r = Ok ev" and "c' = c\<lparr>cl_receivers := map_update i q' (cl_receivers c)\<rparr>"
      using p False q ev
      by (cases r; auto simp: client_process_def try_in_def or_fault_def split: if_splits option.splits)+
    then show ?thesis using False q client_request.request_process_left [OF d [unfolded r] ev]
      by (simp add: client_left_def map.find_update)
  qed
qed

interpretation server_events: event_source server_process server_left
proof
  fix i c ev c'
  assume p: "server_process i c = (Ok ev, c')" and ev: "event_type_of ev \<noteq> Finished_event"
  show "server_left i c' < server_left i c"
  proof (cases "i = cr_id (sv_control_receiver c)")
    case True
    obtain r d where d: "control_process server_control_frame (sv_control_receiver c) = (r, d)"
      by (cases "control_process server_control_frame (sv_control_receiver c)")
    then have "r = Ok ev" "sv_control_receiver c' = d"
      using p True by (cases r; auto simp: server_process_def split: event.splits)+
    then show ?thesis using True d server_control.control_process_left control_process_id [OF d]
      by (auto simp: server_left_def)
  next
    case False
    then obtain q where q: "map_find i (sv_receivers c) = Some q"
      using p by (auto simp: server_process_def try_in_def or_fault_def split: option.splits if_splits)
    obtain r q' where d: "request_process server_request_frame q = (r, q')"
      by (cases "request_process server_request_frame q")
    then have r: "r = Ok ev" and "c' = c\<lparr>sv_receivers := map_update i q' (sv_receivers c)\<rparr>"
      using p False q by (auto simp: server_process_def)
    then show ?thesis using False q server_request.request_process_left [OF d [unfolded r] ev]
      by (simp add: server_left_def map.find_update)
  qed
qed

section \<open>Streams of the client\<close>

text \<open>The runs of a client that has made \<open>n\<close> requests; \<open>t\<close> and \<open>h\<close> are free addresses.\<close>

inductive client_run :: "nat \<Rightarrow> client \<Rightarrow> bool" where
  fresh: "client_run 0 new_client"
| sent: "client_run n c \<Longrightarrow> client_send junk c = (r, c') \<Longrightarrow> client_run n c'"
| received: "client_run n c \<Longrightarrow> client_recv ev c = (r, c') \<Longrightarrow> client_run n c'"
| processed: "client_run n c \<Longrightarrow> client_process i c = (r, c') \<Longrightarrow> client_run n c'"
| requested: "client_run n c \<Longrightarrow> t \<noteq> h \<Longrightarrow> st_handles (cl_store c) t = None \<Longrightarrow> st_handles (cl_store c) h = None \<Longrightarrow>
    client_request t h c = (r, c') \<Longrightarrow> client_run (Suc n) c'"
| used: "client_run n c \<Longrightarrow> user_step (cl_store c) st \<Longrightarrow> client_run n (c\<lparr>cl_store := st\<rparr>)"

text \<open>
  The invariant: the two halves of the map have the same keys, each half knows its id, the links of the
  handles agree, and the ids in use are among those of the requests made so far.
\<close>

definition senders_ok :: "('k \<Rightarrow> uint64) \<Rightarrow> 'k set \<Rightarrow> 'k store \<Rightarrow> bool" where
  "senders_ok f K st \<longleftrightarrow> (\<forall>k. st_senders st k \<noteq> None \<longleftrightarrow> k \<in> K) \<and>
     (\<forall>k s. st_senders st k = Some s \<longrightarrow> rs_id s = f k)"

definition client_ok :: "nat \<Rightarrow> client \<Rightarrow> bool" where
  "client_ok n c \<longleftrightarrow>
     map_ok (cl_receivers c) \<and> linked (cl_store c) \<and>
     senders_ok id (set (map_keys (cl_receivers c))) (cl_store c) \<and>
     (\<forall>i r. map_find i (cl_receivers c) = Some r \<longrightarrow> rr_id r = i) \<and>
     cl_next c = word_of_nat (4 * n) \<and>
     set (map_keys (cl_receivers c)) \<subseteq> (\<lambda>k. word_of_nat (4 * k)) ` {..<n}"

lemma senders_ok_put:
  "senders_ok f K st \<Longrightarrow> st_senders st k = Some s \<Longrightarrow> rs_id s' = rs_id s \<Longrightarrow> senders_ok f K (put_sender k s' st)"
  by (auto simp: senders_ok_def)

lemma senders_ok_set_handle:
  "set_handle_of pk ph st = Some st' \<Longrightarrow> senders_ok f K st \<Longrightarrow> senders_ok f K st'"
  by (auto simp: set_handle_of_def senders_ok_put split: option.splits bind_splits)

lemma senders_ok_handles [simp]:
  "senders_ok f K (put_handle h x st) = senders_ok f K st"
  "senders_ok f K (st\<lparr>st_handles := hs\<rparr>) = senders_ok f K st"
  by (simp_all add: senders_ok_def)

lemma senders_ok_handle_move:
  assumes "handle_move_assign h other st = Some st'" "senders_ok f K st"
  shows "senders_ok f K st'"
proof (cases "other = h")
  case False
  then obtain x where "set_handle_of (h_sender x) (Some h) (put_handle other null_handle (put_handle h x st)) = Some st'"
    using assms(1) by (auto simp: handle_move_assign_def split: bind_splits)
  then show ?thesis by (rule senders_ok_set_handle) (use assms(2) in simp)
qed (use assms in \<open>simp add: handle_move_assign_def\<close>)

lemma senders_ok_handle_destroy:
  assumes "handle_destroy h st = Some st'" "senders_ok f K st"
  shows "senders_ok f K st'"
proof -
  obtain x where x: "st_handles st h = Some x" using assms(1) by (auto simp: handle_destroy_def split: bind_splits)
  then obtain st1 where "set_handle_of (h_sender x) None st = Some st1"
    using assms(1) by (cases "set_handle_of (h_sender x) None st") (simp_all add: handle_destroy_def)
  moreover have "st' = st1\<lparr>st_handles := (st_handles st1)(h := None)\<rparr>"
    using assms(1) x calculation by (simp add: handle_destroy_def)
  ultimately show ?thesis using senders_ok_set_handle [OF _ assms(2)] by simp
qed

lemma senders_ok_on_sender:
  assumes f: "\<And>s r s'. g s = (r, s') \<Longrightarrow> rs_handle s' = rs_handle s \<and> rs_id s' = rs_id s"
    and st: "senders_ok f K st" and r: "on_sender h g st = (r, st')"
  shows "senders_ok f K st'"
  using r st
  by (auto simp: on_sender_def try_in_def or_fault_def on_member_eq dest: f intro!: senders_ok_put
      split: option.splits)

lemma senders_ok_user_step: "user_step st st' \<Longrightarrow> senders_ok f K st \<Longrightarrow> senders_ok f K st'"
proof (induction rule: user_step.induct)
  case (moved st h other st')
  then show ?case
    using senders_ok_handle_move [of h other "put_handle h null_handle st" st' f K]
    by (simp add: handle_move_construct_def)
next
  case (header_added xxh junk h header st r st')
  then show ?case using senders_ok_on_sender [OF encoder_keeps_links(1)] by (auto simp: handle_header_def)
next
  case (body_added h body st r st')
  then show ?case using senders_ok_on_sender [OF encoder_keeps_links(2)] by (auto simp: handle_body_def)
next
  case (started h st r st')
  then show ?case using senders_ok_on_sender [OF encoder_keeps_links(3)] by (auto simp: handle_start_def)
next
  case (finished h st r st')
  then show ?case using senders_ok_on_sender [OF encoder_keeps_links(4)] by (auto simp: handle_fin_def)
qed (blast intro: senders_ok_handle_move senders_ok_handle_destroy)+

text \<open>Handing over a new handle: the links hold and the handle at \<open>h\<close> has the sender's id.\<close>

lemma hand_over_explicit:
  assumes "st_senders st k = Some s" "t \<noteq> h" "st_handles st t = None" "st_handles st h = None"
  shows "hand_over t h k st =
    Some (put_sender k (s\<lparr>rs_handle := Some h\<rparr>) (put_handle h \<lparr> h_id = rs_id s, h_sender = Some k \<rparr> st))"
  using assms
  by (simp add: hand_over_def handle_construct_def handle_move_construct_def handle_move_assign_def
      handle_destroy_def set_handle_of_def null_handle_def put_handle_def put_sender_def fun_eq_iff fun_upd_def cong: if_cong)

lemma hand_over_eq:
  assumes st: "linked st" "senders_ok f K st" and s: "st_senders st k = Some s" "rs_handle s = None"
    and t: "t \<noteq> h" "st_handles st t = None" "st_handles st h = None"
  shows "\<exists>st'. hand_over t h k st = Some st' \<and> linked st' \<and> senders_ok f K st' \<and>
    handle_id h st' = Some (rs_id s) \<and> (\<exists>x. st_handles st' h = Some x \<and> h_sender x = Some k)"
proof -
  let ?st = "put_sender k (s\<lparr>rs_handle := Some h\<rparr>) (put_handle h \<lparr> h_id = rs_id s, h_sender = Some k \<rparr> st)"
  have "hand_over t h k st = Some ?st" by (rule hand_over_explicit [OF s(1) t])
  moreover have "linked ?st"
    using st(1) s t unfolding linked_def by auto (metis option.distinct(1) option.inject)+
  moreover have "senders_ok f K ?st" using st(2) s by (auto simp: senders_ok_def)
  ultimately show ?thesis by (simp add: handle_id_def)
qed

lemma client_ok_fields [simp]:
  "client_ok n (c\<lparr>cl_control_sender := x\<rparr>) = client_ok n c"
  "client_ok n (c\<lparr>cl_control_receiver := y\<rparr>) = client_ok n c"
  "client_ok n (c\<lparr>cl_peer := z\<rparr>) = client_ok n c"
  by (simp_all add: client_ok_def)

lemma client_ok_store:
  "client_ok n c \<Longrightarrow> linked st \<Longrightarrow> senders_ok id (set (map_keys (cl_receivers c))) st \<Longrightarrow>
   client_ok n (c\<lparr>cl_store := st\<rparr>)"
  by (simp add: client_ok_def)

lemma client_ok_receiver:
  "client_ok n c \<Longrightarrow> map_find i (cl_receivers c) = Some r \<Longrightarrow> rr_id r' = rr_id r \<Longrightarrow>
   client_ok n (c\<lparr>cl_receivers := map_update i r' (cl_receivers c)\<rparr>)"
  by (auto simp: client_ok_def map.update_ok map.find_update)

lemma request_receiver_ids:
  "request_receiver_start r = (x, r') \<Longrightarrow> rr_id r' = rr_id r"
  "request_recv d r = (y, r') \<Longrightarrow> rr_id r' = rr_id r"
  by (auto simp: request_receiver_start_def request_recv_def split: if_splits)

lemma request_failed_id: "request_failed handle e r = (x, r') \<Longrightarrow> rr_id r' = rr_id r"
  by (cases "request_frame r")
    (auto simp: request_failed_def try_state_def try_in_def or_fault_def dest!: request_frame_state
      split: if_splits result.splits frame_type.splits option.splits)

lemma request_process_id: "request_process handle r = (x, r') \<Longrightarrow> rr_id r' = rr_id r"
proof -
  have "request_decode_header r = (y, r1) \<Longrightarrow> rr_id r1 = rr_id r" for y r1
    by (auto simp: request_decode_header_def on_member_eq split: prod.splits)
  moreover have "request_decode_body r = (y, r1) \<Longrightarrow> rr_id r1 = rr_id r" for y r1
    by (auto simp: request_decode_body_def on_member_eq split: prod.splits)
  ultimately show "request_process handle r = (x, r') \<Longrightarrow> rr_id r' = rr_id r"
    by (auto simp: request_process_def Let_def dest: request_failed_id
        split: request_receiver_state.splits prod.splits result.splits if_splits)
qed

lemma client_send_requests_ok:
  "client_ok n c \<Longrightarrow> client_send_requests junk is c = (r, c') \<Longrightarrow> client_ok n c'"
proof (induction "is" arbitrary: c)
  case (Cons i "is")
  show ?case
  proof (cases "st_senders (cl_store c) i")
    case (Some s)
    obtain x s' where x: "request_send junk s = (x, s')" by (cases "request_send junk s")
    let ?c = "c\<lparr>cl_store := put_sender i s' (cl_store c)\<rparr>"
    note keeps = request_send_keeps_links [OF x]
    have "linked (put_sender i s' (cl_store c))"
      using linked_put_sender [OF _ Some keeps] Cons.prems(1) by (simp add: client_ok_def)
    moreover have "senders_ok id (set (map_keys (cl_receivers c))) (put_sender i s' (cl_store c))"
      using senders_ok_put [OF _ Some] keeps Cons.prems(1) by (simp add: client_ok_def)
    ultimately have ok: "client_ok n ?c" using client_ok_store Cons.prems(1) by blast
    show ?thesis
    proof (cases x)
      case (Ok ev)
      have receiver: "client_ok n (?c\<lparr>cl_receivers := map_update i q' (cl_receivers ?c)\<rparr>)"
        if "map_find i (cl_receivers c) = Some q" "request_receiver_start q = (y, q')" for q y q'
        using client_ok_receiver [OF ok] that request_receiver_ids(1) [OF that(2)] by simp
      show ?thesis using Cons Some x Ok ok
        by (cases "map_find i (cl_receivers c)")
          (auto simp: try_state_def on_member_def dest: receiver split: if_splits prod.splits result.splits)
    qed (use Cons Some x ok in \<open>auto split: if_splits\<close>)
  qed (use Cons.prems in simp)
qed simp

lemma client_process_ok:
  assumes c: "client_ok n c" and p: "client_process i c = (r, c')"
  shows "client_ok n c'"
proof (cases "i = cr_id (cl_control_receiver c) \<or> i AND 0x2 \<noteq> 0")
  case True
  then show ?thesis using c p
    by (auto simp: client_process_def try_state_def on_member_def split: result.splits prod.splits event.splits if_splits)
next
  case control: False
  show ?thesis
  proof (cases "map_find i (cl_receivers c)")
    case (Some q)
    obtain x q' where x: "request_process client_request_frame q = (x, q')"
      by (cases "request_process client_request_frame q")
    let ?c = "c\<lparr>cl_receivers := map_update i q' (cl_receivers c)\<rparr>"
    have ok: "client_ok n ?c" using client_ok_receiver [OF c Some] request_process_id [OF x] by simp
    have "st_senders (cl_store c) i \<noteq> None"
      using c Some unfolding client_ok_def senders_ok_def by (simp add: map.keys_find)
    then obtain s where s: "st_senders (cl_store ?c) i = Some s" by auto
    obtain st where st: "sender_destroy i (cl_store ?c) = Some st" "linked st"
      using linked_sender_destroy [OF _ s] ok by (auto simp: client_ok_def)
    then have "senders_ok id (set (map_keys (map_erase i (cl_receivers ?c)))) st"
      using ok by (auto simp: client_ok_def senders_ok_def sender_destroy_def set_sender_of_def map.keys_erase
          split: bind_splits option.splits if_splits)
    then have erased: "client_ok n (?c\<lparr>cl_store := st, cl_receivers := map_erase i (cl_receivers ?c)\<rparr>)"
      using ok st(2) by (auto simp: client_ok_def map.erase_ok map.find_erase map.keys_erase)
    show ?thesis using p control Some x ok st(1) erased
      by (cases x) (auto simp: client_process_def split: if_splits)
  qed (use p c control in \<open>simp add: client_process_def\<close>)
qed

lemma word_4_inj: "k < 2 ^ 62 \<Longrightarrow> m < 2 ^ 62 \<Longrightarrow> (word_of_nat (4 * k) :: uint64) = word_of_nat (4 * m) \<longleftrightarrow> k = m"
proof -
  assume k: "k < 2 ^ 62" "m < 2 ^ 62"
  then have "4 * k < 2 ^ 64" "4 * m < 2 ^ 64" by simp_all
  then have "unat (word_of_nat (4 * k) :: uint64) = 4 * k" "unat (word_of_nat (4 * m) :: uint64) = 4 * m"
    by (simp_all add: unat_of_nat del: of_nat_mult)
  then show ?thesis by (metis mult_left_cancel zero_neq_numeral)
qed

lemma client_ok_fresh:
  "client_ok n c \<Longrightarrow> n < 2 ^ 62 \<Longrightarrow> map_find (cl_next c) (cl_receivers c) = None \<and> cl_next c = word_of_nat (4 * n)"
proof -
  assume c: "client_ok n c" and n: "n < 2 ^ 62"
  have "cl_next c = word_of_nat (4 * n)" using c by (simp add: client_ok_def)
  moreover have "word_of_nat (4 * n) \<notin> (\<lambda>k. word_of_nat (4 * k) :: uint64) ` {..<n}"
  proof
    assume "word_of_nat (4 * n) \<in> (\<lambda>k. word_of_nat (4 * k) :: uint64) ` {..<n}"
    then obtain k where "k < n" "(word_of_nat (4 * n) :: uint64) = word_of_nat (4 * k)" by blast
    then show False using word_4_inj [of n k] n by simp
  qed
  then have "word_of_nat (4 * n) \<notin> set (map_keys (cl_receivers c))" using c unfolding client_ok_def by blast
  ultimately show ?thesis using map.keys_find [of "cl_next c" "cl_receivers c"] by simp
qed

lemma client_request_ok:
  assumes c: "client_ok n c" and n: "n < 2 ^ 62"
    and t: "t \<noteq> h" "st_handles (cl_store c) t = None" "st_handles (cl_store c) h = None"
  shows "\<exists>c'. client_request t h c = (Ok (), c') \<and> client_ok (Suc n) c' \<and>
    handle_id h (cl_store c') = Some (cl_next c) \<and> map_find (cl_next c) (cl_receivers c') \<noteq> None \<and>
    (\<exists>x. st_handles (cl_store c') h = Some x \<and> h_sender x = Some (cl_next c))"
proof -
  let ?i = "cl_next c"
  note fresh = client_ok_fresh [OF c n]
  let ?st = "sender_construct ?i ?i (cl_store c)" and ?rs = "map_insert ?i (new_request_receiver ?i) (cl_receivers c)"
  let ?K = "insert ?i (set (map_keys (cl_receivers c)))"
  have "st_senders (cl_store c) ?i = None"
    using c fresh map.keys_find [of ?i "cl_receivers c"] by (auto simp: client_ok_def senders_ok_def)
  then have "linked ?st" using c by (intro linked_sender_construct) (simp_all add: client_ok_def detached_def)
  moreover have "senders_ok id ?K ?st"
    using c by (auto simp: client_ok_def senders_ok_def sender_construct_def new_request_sender_def)
  moreover have "st_senders ?st ?i = Some (new_request_sender ?i)" "rs_handle (new_request_sender ?i) = None"
      "rs_id (new_request_sender ?i) = ?i"
    by (simp_all add: sender_construct_def new_request_sender_def)
  moreover have "st_handles ?st = st_handles (cl_store c)" by (simp add: sender_construct_def)
  ultimately obtain st' where st': "hand_over t h ?i ?st = Some st'" "linked st'" "senders_ok id ?K st'"
      "handle_id h st' = Some ?i" "\<exists>x. st_handles st' h = Some x \<and> h_sender x = Some ?i"
    using hand_over_eq [of ?st id ?K ?i "new_request_sender ?i" t h] t by auto
  let ?c = "c\<lparr>cl_store := st', cl_receivers := ?rs, cl_next := ?i + 4\<rparr>"
  have "client_request t h c = (Ok (), ?c)"
    using st'(1) conjunct1 [OF fresh] by (simp add: client_request_def client_insert_def Let_def)
  moreover have rs: "map_ok ?rs" "set (map_keys ?rs) = ?K"
      "\<And>j. map_find j ?rs = (if j = ?i then Some (new_request_receiver ?i) else map_find j (cl_receivers c))"
    using c conjunct1 [OF fresh] by (simp_all add: client_ok_def map.insert_ok map.keys_insert map.find_insert)
  have "client_ok (Suc n) ?c"
    using c st' rs fresh unfolding client_ok_def
    by (auto simp: new_request_receiver_def lessThan_Suc)
  ultimately show ?thesis using st' rs by (intro exI [of _ ?c]) simp
qed

lemma client_run_ok: "client_run n c \<Longrightarrow> n \<le> 2 ^ 62 \<Longrightarrow> client_ok n c"
proof (induction rule: client_run.induct)
  case fresh
  then show ?case
    by (simp add: client_ok_def new_client_def map_ok_def map_keys_def linked_def senders_ok_def empty_store_def
        map_find_def)
next
  case (sent n c junk r c')
  obtain x d where x: "control_send junk (cl_control_sender c) = (x, d)" by (cases "control_send junk (cl_control_sender c)")
  have "client_ok n (c\<lparr>cl_control_sender := d\<rparr>)" using sent by simp
  then show ?case using sent(2) x client_send_requests_ok [of n "c\<lparr>cl_control_sender := d\<rparr>"]
    by (cases x) (auto simp: client_send_def split: if_splits)
next
  case (received n c ev r c')
  have "client_recv_data d c = (x, c') \<Longrightarrow> client_ok n c'" for d x
    using received(3,4) client_ok_receiver
    by (auto simp: client_recv_data_def on_member_def request_receiver_ids split: if_splits option.splits prod.splits)
  then show ?case using received
    by (auto simp: client_recv_def try_state_def split: quic_event.splits prod.splits result.splits)
next
  case (processed n c i r c')
  then show ?case using client_process_ok by blast
next
  case (requested n c t h r c')
  then show ?case using client_request_ok [of n c t h] by auto
next
  case (used n c st)
  then show ?case using linked_user_step senders_ok_user_step
    by (intro client_ok_store) (auto simp: client_ok_def)
qed

section \<open>A request makes its way\<close>

text \<open>
  A state that contains another one: when a function works on the inner state alone, so does every
  sequence of such functions.
\<close>

definition lifts :: "('s \<Rightarrow> 't) \<Rightarrow> ('s \<Rightarrow> ('a, 'e) result \<times> 's) \<Rightarrow> ('t \<Rightarrow> ('a, 'e) result \<times> 't) \<Rightarrow> bool" where
  "lifts put f F \<longleftrightarrow> (\<forall>s. F (put s) = on_member put (f s))"

lemma liftsD: "lifts put f F \<Longrightarrow> F (put s) = on_member put (f s)"
  by (simp add: lifts_def)

lemma lifts_return: "lifts put (\<lambda>s. (r, s)) (\<lambda>t. (r, t))"
  by (simp add: lifts_def)

lemma lifts_try:
  assumes "lifts put f F" "\<And>v. lifts put (k v) (K v)"
  shows "lifts put (\<lambda>s. try_state (f s) k) (\<lambda>t. try_state (F t) K)"
  unfolding lifts_def
proof
  fix s
  show "try_state (F (put s)) K = on_member put (try_state (f s) k)"
    using liftsD [OF assms(1), of s] liftsD [OF assms(2)]
    by (cases "f s"; cases "fst (f s)") simp_all
qed

text \<open>What the user of a client does to send a request through the handle \<open>h\<close>.\<close>

fun client_add_headers ::
  "(string \<Rightarrow> uint64) \<Rightarrow> (nat \<Rightarrow> byte) \<Rightarrow> nat \<Rightarrow> header list \<Rightarrow> client \<Rightarrow> (unit, error) result \<times> client" where
  "client_add_headers xxh junk h [] c = (Ok (), c)"
| "client_add_headers xxh junk h (x # hs) c =
     try_state (client_call (handle_header xxh junk h x) c) (\<lambda>_ c. client_add_headers xxh junk h hs c)"

fun client_add_bodies :: "nat \<Rightarrow> bytes list \<Rightarrow> client \<Rightarrow> (unit, error) result \<times> client" where
  "client_add_bodies h [] c = (Ok (), c)"
| "client_add_bodies h (b # bs) c = try_state (client_call (handle_body h b) c) (\<lambda>_ c. client_add_bodies h bs c)"

definition client_write ::
  "(string \<Rightarrow> uint64) \<Rightarrow> (nat \<Rightarrow> byte) \<Rightarrow> nat \<Rightarrow> header list \<Rightarrow> bytes list \<Rightarrow> client \<Rightarrow>
   (unit, error) result \<times> client" where
  "client_write xxh junk h hs bs c =
     try_state (client_add_headers xxh junk h hs c) (\<lambda>_ c.
     try_state (client_call (handle_start h) c) (\<lambda>_ c.
     try_state (client_add_bodies h bs c) (\<lambda>_ c. client_call (handle_fin h) c)))"

fun client_drain :: "(nat \<Rightarrow> byte) \<Rightarrow> nat \<Rightarrow> client \<Rightarrow> (quic_event list, error) result \<times> client" where
  "client_drain junk 0 c = (Ok [], c)"
| "client_drain junk (Suc n) c =
     try_state (client_send junk c) (\<lambda>e c.
     try_state (client_drain junk n c) (\<lambda>es c. (Ok (e # es), c)))"

definition with_sender :: "client \<Rightarrow> uint64 \<Rightarrow> request_sender \<Rightarrow> client" where
  "with_sender c i s = c\<lparr>cl_store := put_sender i s (cl_store c)\<rparr>"

lemma client_call_lifts:
  assumes "st_handles (cl_store c) h = Some x" "h_sender x = Some i"
  shows "lifts (with_sender c i) f (client_call (on_sender h f))"
  unfolding lifts_def
proof
  fix s
  obtain r s' where f: "f s = (r, s')" by (cases "f s")
  show "client_call (on_sender h f) (with_sender c i s) = on_member (with_sender c i) (f s)"
    using assms by (simp add: client_call_def with_sender_def on_sender_def f put_sender_def)
qed

lemma client_write_lifts:
  assumes x: "st_handles (cl_store c) h = Some x" "h_sender x = Some i"
  shows "lifts (with_sender c i) (write_message xxh junk hs bs) (client_write xxh junk h hs bs)"
proof -
  note call = client_call_lifts [OF x]
  have "lifts (with_sender c i) (request_add_headers xxh junk hs) (client_add_headers xxh junk h hs)"
  proof (induction hs)
    case (Cons y hs)
    have eqs: "request_add_headers xxh junk (y # hs) = (\<lambda>s. try_state (request_sender_header xxh junk y s) (\<lambda>_ s. request_add_headers xxh junk hs s))"
      "client_add_headers xxh junk h (y # hs) = (\<lambda>c. try_state (client_call (handle_header xxh junk h y) c) (\<lambda>_ c. client_add_headers xxh junk h hs c))"
      by (simp_all add: fun_eq_iff)
    show ?case unfolding eqs handle_header_def by (rule lifts_try [OF call Cons.IH])
  qed (simp add: lifts_def)
  moreover have "lifts (with_sender c i) (request_add_bodies bs) (client_add_bodies h bs)"
  proof (induction bs)
    case (Cons b bs)
    have eqs: "request_add_bodies (b # bs) = (\<lambda>s. try_state (request_sender_body b s) (\<lambda>_ s. request_add_bodies bs s))"
      "client_add_bodies h (b # bs) = (\<lambda>c. try_state (client_call (handle_body h b) c) (\<lambda>_ c. client_add_bodies h bs c))"
      by (simp_all add: fun_eq_iff)
    show ?case unfolding eqs handle_body_def by (rule lifts_try [OF call Cons.IH])
  qed (simp add: lifts_def)
  ultimately show ?thesis
    unfolding write_message_def [abs_def] client_write_def [abs_def] handle_start_def handle_fin_def
    by (intro lifts_try call) simp_all
qed

text \<open>A client whose control stream is idle and that has one request, which is not finished.\<close>

lemma client_send_one:
  assumes c: "cs_state (cl_control_sender c) = Cs_idle" "cl_receivers c = [(i, q)]"
    and s: "request_send junk s = (Ok ev, s')"
  shows "client_send junk (with_sender c i s) =
    (Ok ev, (with_sender c i s')\<lparr>cl_receivers := [(i, if rr_state q = Rr_closed then q\<lparr>rr_state := Rr_headers\<rparr> else q)]\<rparr>)"
proof -
  have "\<not> request_sender_finished s" using s by (auto simp: request_send_def request_sender_finished_def)
  moreover have "control_send junk (cl_control_sender c) = (Err Idle, cl_control_sender c)" using c(1) by (simp add: control_send_def)
  ultimately show ?thesis using c s
    by (simp add: client_send_def with_sender_def put_sender_def map_keys_def map_find_def map_update_def
        request_receiver_closed_def request_receiver_start_def)
qed

lemma client_drain_one:
  "cs_state (cl_control_sender c) = Cs_idle \<Longrightarrow> cl_receivers c = [(i, q)] \<Longrightarrow>
   request_drain junk n s = (Ok evs, s') \<Longrightarrow> request_sender_finished s' \<Longrightarrow>
   \<exists>c'. client_drain junk n (with_sender c i s) = (Ok evs, c') \<and> fst (client_send junk c') = Err Idle"
proof (induction n arbitrary: c q s evs)
  case 0
  then show ?case
    by (simp add: client_send_def control_send_def with_sender_def map_keys_def)
next
  case (Suc n)
  obtain ev s1 where s1: "request_send junk s = (Ok ev, s1)"
    using Suc.prems(3) by (cases "request_send junk s"; cases "fst (request_send junk s)") auto
  then obtain evs' where evs': "request_drain junk n s1 = (Ok evs', s')" "evs = ev # evs'"
    using Suc.prems(3) by (cases "request_drain junk n s1"; cases "fst (request_drain junk n s1)") auto
  let ?q = "if rr_state q = Rr_closed then q\<lparr>rr_state := Rr_headers\<rparr> else q"
  let ?c = "c\<lparr>cl_receivers := [(i, ?q)]\<rparr>"
  have "client_send junk (with_sender c i s) = (Ok ev, with_sender ?c i s1)"
    using client_send_one [OF Suc.prems(1,2) s1] by (simp add: with_sender_def)
  moreover obtain c' where "client_drain junk n (with_sender ?c i s1) = (Ok evs', c')" "fst (client_send junk c') = Err Idle"
    using Suc.IH [of ?c ?q s1 evs'] Suc.prems(1,4) evs'(1) by auto
  ultimately show ?case using evs'(2) by simp
qed

text \<open>The server takes what was sent, event by event, and is asked for everything there is after each.\<close>

fun server_feed :: "nat \<Rightarrow> quic_event list \<Rightarrow> server \<Rightarrow> (event list, error) result \<times> server" where
  "server_feed n [] c = (Ok [], c)"
| "server_feed n (e # es) c =
     try_state (server_recv e c) (\<lambda>g c.
     case generator_events server_process n g c of
       None \<Rightarrow> (Fault, c)
     | Some (r, _, c) \<Rightarrow>
         try_state (r, c) (\<lambda>evs c. try_state (server_feed n es c) (\<lambda>evs' c. (Ok (evs @ evs'), c))))"

lemma generator_pump:
  assumes lift: "lifts put (request_process handle) (process i)"
  shows "request_pump handle n r = (Ok evs, r') \<Longrightarrow> \<not> g_finished g \<Longrightarrow> g_id g = i \<Longrightarrow>
    \<exists>g'. generator_events process (Suc n) g (put r) = Some (Ok evs, g', put r')"
proof (induction n arbitrary: r evs g)
  case (Suc n)
  obtain x r1 where p: "request_process handle r = (x, r1)" by (cases "request_process handle r")
  then have P: "process (g_id g) (put r) = (x, put r1)" using liftsD [OF lift, of r] Suc.prems(3) by simp
  show ?case
  proof (cases x)
    case (Ok ev)
    show ?thesis
    proof (cases "event_type_of ev = Finished_event")
      case True
      then show ?thesis using Suc.prems p P Ok
        by (simp add: generator_next_def generator_get_def Let_def)
    next
      case False
      then obtain evs1 where evs1: "request_pump handle n r1 = (Ok evs1, r')" "evs = ev # evs1"
        using Suc.prems(1) p Ok by (cases "request_pump handle n r1"; cases "fst (request_pump handle n r1)") auto
      let ?g = "g\<lparr>g_result := Err Internal\<rparr>"
      obtain g' where "generator_events process (Suc n) ?g (put r1) = Some (Ok evs1, g', put r')"
        using Suc.IH [OF evs1(1), of ?g] Suc.prems(2,3) by auto
      then show ?thesis using Suc.prems(2) P Ok False evs1(2)
        by (simp add: generator_next_def [of _ g] generator_get_def Let_def del: generator_events.simps(2))
          (simp add: generator_next_def [of _ g] generator_get_def Let_def)
    qed
  next
    case (Err e)
    then show ?thesis using Suc.prems p P by (auto simp: generator_next_def split: if_splits)
  qed (use Suc.prems p in simp)
qed simp

text \<open>A server that has the request \<open>i\<close> and no other, as a function of its receiver.\<close>

definition with_receiver :: "server \<Rightarrow> uint64 \<Rightarrow> request_receiver \<Rightarrow> server" where
  "with_receiver c i r = c\<lparr>sv_receivers := [(i, r)]\<rparr>"

lemma server_recv_one:
  assumes i: "i \<noteq> cr_id (sv_control_receiver c)" and d: "data_id d = i"
  shows "server_recv (Quic_data d) (with_receiver c i r) =
    try_state (on_member (with_receiver c i) (request_recv d r)) (\<lambda>_ c. (Ok (new_generator i), c))"
  using assms
  by (simp add: server_recv_def server_recv_data_def with_receiver_def server_open_def map_find_def map_update_def
      fun_eq_iff split: result.split prod.split)
    (simp add: on_member_def with_receiver_def split: prod.split)

lemma server_process_lifts:
  "i \<noteq> cr_id (sv_control_receiver c) \<Longrightarrow> lifts (with_receiver c i) (request_process server_request_frame) (server_process i)"
  unfolding lifts_def
  by (auto simp: server_process_def with_receiver_def map_find_def map_update_def on_member_def split: prod.split)

lemma server_feed_one:
  "i \<noteq> cr_id (sv_control_receiver c) \<Longrightarrow> list_all (\<lambda>d. data_id d = i) ds \<Longrightarrow>
   request_feed server_request_frame n ds r = (Ok evs, r') \<Longrightarrow>
   server_feed (Suc n) (map Quic_data ds) (with_receiver c i r) = (Ok evs, with_receiver c i r')"
proof (induction ds arbitrary: r evs)
  case (Cons d ds)
  obtain r1 where r1: "request_recv d r = (Ok (), r1)"
    using Cons.prems(3) by (cases "request_recv d r"; cases "fst (request_recv d r)") auto
  then obtain evs1 r2 where p: "request_pump server_request_frame n r1 = (Ok evs1, r2)"
    using Cons.prems(3)
    by (cases "request_pump server_request_frame n r1"; cases "fst (request_pump server_request_frame n r1)") auto
  then obtain evs2 where f: "request_feed server_request_frame n ds r2 = (Ok evs2, r')" "evs = evs1 @ evs2"
    using Cons.prems(3) r1
    by (cases "request_feed server_request_frame n ds r2"; cases "fst (request_feed server_request_frame n ds r2)") auto
  have recv: "server_recv (Quic_data d) (with_receiver c i r) = (Ok (new_generator i), with_receiver c i r1)"
    using server_recv_one [OF Cons.prems(1)] Cons.prems(2) r1 by simp
  obtain g' where "generator_events server_process (Suc n) (new_generator i) (with_receiver c i r1) =
      Some (Ok evs1, g', with_receiver c i r2)"
    using generator_pump [where put = "with_receiver c i" and process = server_process and i = i,
        OF server_process_lifts [OF Cons.prems(1)] p, of "new_generator i"]
    by (auto simp: new_generator_def)
  then show ?case using recv f Cons by (simp del: generator_events.simps)
qed simp

lemma server_feed_append:
  "server_feed n (xs @ ys) c =
     try_state (server_feed n xs c) (\<lambda>evs c. try_state (server_feed n ys c) (\<lambda>evs' c. (Ok (evs @ evs'), c)))"
proof (induction xs arbitrary: c)
  case Nil
  then show ?case by (auto simp: try_state_def split: prod.splits result.splits)
next
  case (Cons x xs)
  then show ?case by (auto simp: try_state_def split: prod.splits result.splits option.splits)
qed

text \<open>The first data of a stream opens it.\<close>

lemma server_feed_open:
  assumes c: "i \<noteq> cr_id (sv_control_receiver c)" "sv_receivers c = []"
    and ds: "ds \<noteq> []" "list_all (\<lambda>d. data_id d = i) ds"
    and f: "request_feed server_request_frame n ds (snd (request_receiver_start (new_request_receiver i))) = (Ok evs, r')"
  shows "\<exists>c'. server_feed (Suc n) (map Quic_data ds) c = (Ok evs, c') \<and> sv_peer c' = sv_peer c"
proof -
  let ?r = "(new_request_receiver i)\<lparr>rr_state := Rr_headers\<rparr>"
  let ?c = "c\<lparr>sv_store := sender_construct i i (sv_store c)\<rparr>"
  have start: "request_receiver_start (new_request_receiver i) = (Ok (), ?r)"
    by (simp add: request_receiver_start_def new_request_receiver_def)
  have op: "server_open i c = (Ok (), with_receiver ?c i ?r)"
    using c(2) by (simp add: server_open_def map_find_def with_receiver_def start)
  have "server_open i (with_receiver ?c i ?r) = (Ok (), with_receiver ?c i ?r)"
    by (simp add: server_open_def with_receiver_def map_find_def)
  moreover have "sv_control_receiver (with_receiver ?c i ?r) = sv_control_receiver c" by (simp add: with_receiver_def)
  ultimately have "server_recv (Quic_data d) c = server_recv (Quic_data d) (with_receiver ?c i ?r)" if "data_id d = i" for d
    using c(1) op that by (simp add: server_recv_def server_recv_data_def)
  then have "server_feed (Suc n) (map Quic_data ds) c = server_feed (Suc n) (map Quic_data ds) (with_receiver ?c i ?r)"
    using ds by (cases ds) (simp_all del: generator_events.simps)
  moreover have "server_feed (Suc n) (map Quic_data ds) (with_receiver ?c i ?r) = (Ok evs, with_receiver ?c i r')"
    by (rule server_feed_one) (use c(1) ds(2) f start in simp_all)
  ultimately show ?thesis by (simp add: with_receiver_def)
qed

text \<open>The server reads the client's control stream.\<close>

lemma server_control_step:
  assumes d: "data_id d = cr_id (sv_control_receiver c)"
    and r: "control_recv d (sv_control_receiver c) = (Ok (), r1)"
  shows "server_recv (Quic_data d) c = (Ok (new_generator (data_id d)), c\<lparr>sv_control_receiver := r1\<rparr>)"
  using assms by (simp add: server_recv_def server_recv_data_def)

lemma server_feed_control:
  "\<exists>c. server_feed (Suc (Suc n)) (map Quic_data (control_sent 2)) new_server = (Ok [Ev_settings default_settings], c) \<and>
    sv_receivers c = [] \<and> cr_id (sv_control_receiver c) = 2 \<and> sv_peer c = default_settings"
proof -
  let ?w = "frame_wire (Settings default_settings)" and ?h = server_control_frame
  let ?d1 = "make_data 2 False [0]" and ?d2 = "make_data 2 False ?w"
  let ?c0 = "new_control_receiver 2"
  have ne: "?w \<noteq> []" by (simp add: frame_wire_def)
  have w: "waiting default_settings ?c0 ([0] @ ?w)" by (simp add: waiting_def new_control_receiver_def)
  obtain r1 r2 where r: "control_recv ?d1 ?c0 = (Ok (), r1)" "control_process ?h r1 = (Err Incomplete, r2)"
      "waiting default_settings r2 ?w"
    using control_process_waiting [OF default_settings_encodable w, of ?d1 ?h] ne by auto
  then have w2: "waiting default_settings r2 (?w @ [])" by simp
  obtain r3 r4 where s: "control_recv ?d2 r2 = (Ok (), r3)" "control_process ?h r3 = (Ok (Ev_settings default_settings), r4)"
      "cr_state r4 = Cr_active" "concat (cr_buffers r4) = []"
    using control_process_waiting [OF default_settings_encodable w2, of ?d2 ?h] ne by (auto simp del: concat_eq_Nil_conv)
  have recv_id: "control_recv d c = (x, c') \<Longrightarrow> cr_id c' = cr_id c" for d c x c'
    by (auto simp: control_recv_def split: if_splits)
  have "cr_id ?c0 = 2" by (simp add: new_control_receiver_def)
  then have ids: "cr_id r1 = 2" "cr_id r2 = 2" "cr_id r3 = 2" "cr_id r4 = 2"
    using recv_id [OF r(1)] control_process_id [OF r(2)] recv_id [OF s(1)] control_process_id [OF s(2)] by simp_all
  have "frame_decode (Buffers_seq (cr_buffers r4)) = (Err Incomplete, Buffers_seq (cr_buffers r4))"
    using frame_decode_short [OF default_settings_encodable, of 0 "Buffers_seq (cr_buffers r4)"] ne s(4) by simp
  then have idle: "control_process ?h r4 = (Err Incomplete, r4)"
    using s(3) by (simp add: control_process_def control_process_active_def control_frame_def)
  let ?c1 = "new_server\<lparr>sv_control_receiver := r1\<rparr>" and ?c2 = "new_server\<lparr>sv_control_receiver := r2\<rparr>"
  let ?c3 = "new_server\<lparr>sv_control_receiver := r3\<rparr>"
  let ?c4 = "new_server\<lparr>sv_control_receiver := r4, sv_peer := default_settings\<rparr>"
  have c0: "sv_control_receiver new_server = ?c0"
    by (simp add: new_server_def server_control_receiver_def client_stream_control_id_def)
  have a: "server_recv (Quic_data ?d1) new_server = (Ok (new_generator 2), ?c1)"
    using server_control_step [of ?d1 new_server r1] c0 r(1) by (simp add: new_control_receiver_def)
  have "server_process 2 ?c1 = (Err Incomplete, ?c2)" using r(2) ids by (simp add: server_process_def)
  then have b: "\<exists>g. generator_events server_process (Suc (Suc n)) (new_generator 2) ?c1 = Some (Ok [], g, ?c2)"
    by (simp add: generator_next_def new_generator_def)
  have c: "server_recv (Quic_data ?d2) ?c2 = (Ok (new_generator 2), ?c3)"
    using server_control_step [of ?d2 ?c2 r3] s(1) ids by simp
  have "server_process 2 ?c3 = (Ok (Ev_settings default_settings), ?c4)" "server_process 2 ?c4 = (Err Incomplete, ?c4)"
    using s(2) idle ids by (simp_all add: server_process_def)
  then have d: "\<exists>g. generator_events server_process (Suc (Suc n)) (new_generator 2) ?c3 =
      Some (Ok [Ev_settings default_settings], g, ?c4)"
    by (simp add: generator_next_def new_generator_def generator_get_def)
  have "server_feed (Suc (Suc n)) (map Quic_data (control_sent 2)) new_server = (Ok [Ev_settings default_settings], ?c4)"
    using a b c d by (auto simp: control_sent_def simp del: generator_events.simps)
  then show ?thesis using ids by (simp add: new_server_def)
qed

text \<open>The link to its handle does not matter to a sender.\<close>

abbreviation linked_to :: "nat \<Rightarrow> request_sender \<Rightarrow> request_sender" where
  "linked_to h s \<equiv> s\<lparr>rs_handle := Some h\<rparr>"

lemma linked_to_lifts:
  "lifts (linked_to h) (request_sender_header xxh junk x) (request_sender_header xxh junk x)"
  "lifts (linked_to h) (request_sender_body b) (request_sender_body b)"
  "lifts (linked_to h) request_sender_start request_sender_start"
  "lifts (linked_to h) request_sender_fin request_sender_fin"
  by (simp_all add: lifts_def request_sender_header_def request_sender_body_def request_sender_start_def
      request_sender_fin_def on_member_def split: prod.split)

lemma linked_to_send: "lifts (linked_to h) (request_send junk) (request_send junk)"
  unfolding lifts_def
proof
  fix s
  show "request_send junk (linked_to h s) = on_member (linked_to h) (request_send junk s)"
    by (cases "headers_encoder_encode junk (rs_headers s)"; cases "fst (headers_encoder_encode junk (rs_headers s))";
        cases "body_encoder_encode junk (rs_body s)"; cases "fst (body_encoder_encode junk (rs_body s))")
      (simp_all add: request_send_def Let_def split: request_sender_state.split)
qed

lemma linked_to_write: "lifts (linked_to h) (write_message xxh junk hs bs) (write_message xxh junk hs bs)"
proof -
  have "lifts (linked_to h) (request_add_headers xxh junk hs) (request_add_headers xxh junk hs)"
  proof (induction hs)
    case (Cons y hs)
    have eq: "request_add_headers xxh junk (y # hs) = (\<lambda>s. try_state (request_sender_header xxh junk y s) (\<lambda>_ s. request_add_headers xxh junk hs s))"
      by (simp add: fun_eq_iff)
    show ?case unfolding eq by (rule lifts_try [OF linked_to_lifts(1) Cons.IH])
  qed (simp add: lifts_def)
  moreover have "lifts (linked_to h) (request_add_bodies bs) (request_add_bodies bs)"
  proof (induction bs)
    case (Cons b bs)
    have eq: "request_add_bodies (b # bs) = (\<lambda>s. try_state (request_sender_body b s) (\<lambda>_ s. request_add_bodies bs s))"
      by (simp add: fun_eq_iff)
    show ?case unfolding eq by (rule lifts_try [OF linked_to_lifts(2) Cons.IH])
  qed (simp add: lifts_def)
  ultimately show ?thesis unfolding write_message_def [abs_def] by (intro lifts_try linked_to_lifts) simp_all
qed

lemma linked_to_drain: "lifts (linked_to h) (request_drain junk n) (request_drain junk n)"
proof (induction n)
  case (Suc n)
  have eq: "request_drain junk (Suc n) = (\<lambda>s. try_state (request_send junk s) (\<lambda>e s.
      try_state (request_drain junk n s) (\<lambda>es s. (Ok (e # es), s))))" by (simp add: fun_eq_iff)
  show ?case unfolding eq by (intro lifts_try linked_to_send Suc.IH lifts_return)
qed (simp add: lifts_def)

text \<open>The client's side: the request, what is written to it, and all that is sent.\<close>

lemma client_sends:
  assumes hs: "hs \<noteq> []" "block_ok xxh hs" and bs: "list_all body_ok bs" and t: "t \<noteq> h"
  shows "\<exists>c. try_state (client_request t h new_client) (\<lambda>_ c.
      try_state (client_write xxh junk h hs bs c) (\<lambda>_ c. client_drain junk (2 + message_length hs bs) c)) =
      (Ok (map Quic_data (control_sent 2 @ as_data 0 True (message_chunks xxh hs bs))), c) \<and>
    fst (client_send junk c) = Err Idle"
proof -
  let ?st = "sender_construct 0 0 empty_store :: uint64 store"
  let ?x = "\<lparr> h_id = 0, h_sender = Some 0 \<rparr> :: uint64 handle"
  let ?s = "new_request_sender 0"
  let ?c = "new_client\<lparr>cl_store := put_handle h ?x ?st, cl_receivers := [(0, new_request_receiver 0)], cl_next := 4\<rparr>"
  have "hand_over t h 0 ?st = Some (put_sender 0 (linked_to h ?s) (put_handle h ?x ?st))"
    using hand_over_explicit [of ?st 0 ?s t h] t
    by (simp add: sender_construct_def new_request_sender_def empty_store_def)
  then have req: "client_request t h new_client = (Ok (), with_sender ?c 0 (linked_to h ?s))"
    by (simp add: client_request_def client_insert_def new_client_def map_find_def with_sender_def)
  obtain r s where w: "write_message xxh junk hs bs ?s = (r, s)" by (cases "write_message xxh junk hs bs ?s")
  obtain s' where s': "r = Ok ()" "request_drain junk (message_length hs bs) s =
      (Ok (map Quic_data (as_data 0 True (message_chunks xxh hs bs))), s')" "request_sender_finished s'"
    using message_drained [OF hs bs w] by blast
  have "write_message xxh junk hs bs (linked_to h ?s) = (Ok (), linked_to h s)"
    using liftsD [OF linked_to_write, of xxh junk hs bs h ?s] w s'(1) by simp
  then have written: "client_write xxh junk h hs bs (with_sender ?c 0 (linked_to h ?s)) = (Ok (), with_sender ?c 0 (linked_to h s))"
    using liftsD [OF client_write_lifts, of ?c h ?x 0 xxh junk hs bs "linked_to h ?s"] by simp
  have drain: "request_drain junk (message_length hs bs) (linked_to h s) =
      (Ok (map Quic_data (as_data 0 True (message_chunks xxh hs bs))), linked_to h s')"
    using liftsD [OF linked_to_drain, of junk "message_length hs bs" h s] s'(2) by simp
  have fin: "request_sender_finished (linked_to h s')" using s'(3) by (simp add: request_sender_finished_def)
  obtain d where "try_state (control_send junk (new_control_sender 2)) (\<lambda>e1 c.
       try_state (control_send junk c) (\<lambda>e2 c. (Ok [e1, e2], c))) = (Ok (map Quic_data (control_sent 2)), d)"
      and idle: "cs_state d = Cs_idle" using control_sender_run by blast
  then obtain e1 e2 d1 where ctrl: "control_send junk (new_control_sender 2) = (Ok e1, d1)" "control_send junk d1 = (Ok e2, d)"
      "[e1, e2] = map Quic_data (control_sent 2)"
    by (cases "control_send junk (new_control_sender 2)"; cases "fst (control_send junk (new_control_sender 2))";
        cases "control_send junk (snd (control_send junk (new_control_sender 2)))";
        cases "fst (control_send junk (snd (control_send junk (new_control_sender 2))))") auto
  let ?cl = "with_sender ?c 0 (linked_to h s)"
  have cl: "cl_control_sender ?cl = new_control_sender 2"
    by (simp add: with_sender_def new_client_def client_control_sender_def client_stream_control_id_def)
  then have "client_send junk ?cl = (Ok e1, ?cl\<lparr>cl_control_sender := d1\<rparr>)" using ctrl(1) by (simp add: client_send_def)
  moreover have "client_send junk (?cl\<lparr>cl_control_sender := d1\<rparr>) = (Ok e2, ?cl\<lparr>cl_control_sender := d\<rparr>)"
    using ctrl(2) by (simp add: client_send_def)
  moreover have "?cl\<lparr>cl_control_sender := d\<rparr> = with_sender (?c\<lparr>cl_control_sender := d\<rparr>) 0 (linked_to h s)"
    by (simp add: with_sender_def)
  moreover obtain c' where "client_drain junk (message_length hs bs) (with_sender (?c\<lparr>cl_control_sender := d\<rparr>) 0 (linked_to h s)) =
      (Ok (map Quic_data (as_data 0 True (message_chunks xxh hs bs))), c')" "fst (client_send junk c') = Err Idle"
    using client_drain_one [of "?c\<lparr>cl_control_sender := d\<rparr>" 0 "new_request_receiver 0", OF _ _ drain fin] idle by auto
  ultimately have "client_drain junk (2 + message_length hs bs) ?cl =
      (Ok (map Quic_data (control_sent 2 @ as_data 0 True (message_chunks xxh hs bs))), c')"
    using ctrl(3) by (simp add: numeral_2_eq_2)
  then show ?thesis using req written \<open>fst (client_send junk c') = Err Idle\<close> by simp
qed

lemma well_ended_as_data: "bs \<noteq> [] \<Longrightarrow> last bs \<noteq> [] \<Longrightarrow> well_ended (as_data i True bs)"
proof (induction bs)
  case (Cons b bs)
  then show ?case using last_in_set [of bs] by (cases bs) auto
qed simp

lemma message_chunks_last:
  assumes "hs \<noteq> []" "list_all (field_ok xxh) hs" "list_all body_ok bs"
  shows "message_chunks xxh hs bs \<noteq> [] \<and> last (message_chunks xxh hs bs) \<noteq> []"
proof -
  have fields: "block_fields xxh Prefix_due hs \<noteq> []" using assms(1) length_block_fields [of xxh Prefix_due hs] by force
  then have "last (block_fields xxh Prefix_due hs) \<in> set (block_fields xxh Prefix_due hs)" by simp
  then have "last (block_fields xxh Prefix_due hs) \<noteq> []"
    using block_fields_not_Nil [OF assms(2), of Prefix_due] by (auto simp: list_all_iff)
  moreover have "bs \<noteq> [] \<longrightarrow> body_chunks bs \<noteq> [] \<and> last (body_chunks bs) \<noteq> []"
    using assms(3) by (induction bs rule: rev_induct) (auto simp: body_chunks_def body_ok_def)
  moreover have "bs = [] \<longrightarrow> body_chunks bs = []" by (simp add: body_chunks_def)
  ultimately show ?thesis using fields by (cases "bs = []") (auto simp: message_chunks_def)
qed

lemma message_in_pieces:
  assumes hs: "hs \<noteq> []" "block_ok xxh hs" and bs: "list_all body_ok bs" and n: "length hs + length (concat bs) < n"
    and ds: "well_ended ds" "concat (map data_buffer ds) = concat (message_chunks xxh hs bs)"
  shows "\<exists>evs r. request_feed handle n ds (snd (request_receiver_start (new_request_receiver i))) = (Ok evs, r) \<and>
    message i hs (concat bs) evs \<and> request_receiver_finished r"
proof -
  let ?r = "snd (request_receiver_start (new_request_receiver i))"
  let ?w = "frame_wire (headers_frame (block_wire xxh hs)) @ block_wire xxh hs"
  have wire: "concat (map data_buffer ds) = ?w @ concat (body_chunks bs)"
    using ds(2) by (simp add: message_chunks_def block_wire_def)
  then have ne: "concat (map data_buffer ds) \<noteq> []" by (simp add: frame_wire_def)
  have "headers_due xxh new_headers_decoder hs ?w" using hs by (simp add: headers_due_def block_ok_def)
  then have "request_due xxh i ?r hs bs (concat (map data_buffer ds))"
    using bs wire ne
    by (auto simp del: concat_eq_Nil_conv simp add: request_due_def request_receiver_start_def new_request_receiver_def)
  from request_feed_due [OF this ne ds(1) n] show ?thesis .
qed

lemma message_arrives:
  assumes hs: "hs \<noteq> []" "block_ok xxh hs" and bs: "list_all body_ok bs" and n: "length hs + length (concat bs) < n"
  shows "\<exists>evs r. request_feed handle n (as_data i True (message_chunks xxh hs bs))
      (snd (request_receiver_start (new_request_receiver i))) = (Ok evs, r) \<and>
    message i hs (concat bs) evs \<and> request_receiver_finished r"
proof (rule message_in_pieces [OF assms])
  have "list_all (field_ok xxh) hs" using hs(2) by (auto simp: block_ok_def list_all_iff)
  from message_chunks_last [OF hs(1) this bs] show "well_ended (as_data i True (message_chunks xxh hs bs))"
    by (intro well_ended_as_data) simp_all
qed simp

section \<open>Properties\<close>

text \<open>
  C1. A request makes its way through both connections: a fresh client opens a request, its user writes
  headers and bodies through the handle and finishes it, and the client sends its control stream and
  the whole message and is idle then; a fresh server that takes these events one by one and is asked
  for everything after each reports the client's settings, every header in order, the whole content and
  the end of the stream, and nothing else.
\<close>

theorem connection_exchange:
  assumes "hs \<noteq> []" and "block_ok xxh hs" and "list_all body_ok bs" and "t \<noteq> h"
    and "length hs + length (concat bs) < n"
  shows "\<exists>sent c evs sv.
    try_state (client_request t h new_client) (\<lambda>_ c.
    try_state (client_write xxh junk h hs bs c) (\<lambda>_ c. client_drain junk (2 + message_length hs bs) c)) = (Ok sent, c) \<and>
    fst (client_send junk c) = Err Idle \<and>
    server_feed (Suc n) sent new_server = (Ok (Ev_settings default_settings # evs), sv) \<and>
    message 0 hs (concat bs) evs \<and> sv_peer sv = default_settings"
proof -
  let ?ds = "as_data 0 True (message_chunks xxh hs bs)"
  obtain c where c: "try_state (client_request t h new_client) (\<lambda>_ c.
      try_state (client_write xxh junk h hs bs c) (\<lambda>_ c. client_drain junk (2 + message_length hs bs) c)) =
      (Ok (map Quic_data (control_sent 2 @ ?ds)), c)" "fst (client_send junk c) = Err Idle"
    using client_sends [OF assms(1-4)] by blast
  obtain m where m: "n = Suc m" using assms(5) by (cases n) auto
  obtain s1 where s1: "server_feed (Suc n) (map Quic_data (control_sent 2)) new_server = (Ok [Ev_settings default_settings], s1)"
    "sv_receivers s1 = []" "cr_id (sv_control_receiver s1) = 2" "sv_peer s1 = default_settings"
    using server_feed_control [of m] unfolding m by blast
  obtain evs r where r: "request_feed server_request_frame n ?ds (snd (request_receiver_start (new_request_receiver 0))) =
      (Ok evs, r)" "message 0 hs (concat bs) evs"
    using message_arrives [OF assms(1-3,5)] by blast
  have "message_chunks xxh hs bs \<noteq> []" by (simp add: message_chunks_def)
  then have "?ds \<noteq> []" by (cases "message_chunks xxh hs bs") (simp_all split: if_splits)
  moreover have "(0 :: 64 word) \<noteq> cr_id (sv_control_receiver s1)" using s1(3) by simp
  ultimately obtain s2 where s2: "server_feed (Suc n) (map Quic_data ?ds) s1 = (Ok evs, s2)" "sv_peer s2 = sv_peer s1"
    using server_feed_open [OF _ s1(2) _ as_data_simps(3) r(1)] by blast
  have "server_feed (Suc n) (map Quic_data (control_sent 2 @ ?ds)) new_server = (Ok (Ev_settings default_settings # evs), s2)"
    by (simp only: map_append server_feed_append s1(1) s2(1) try_state_simps) simp
  then show ?thesis using c r(2) s1(4) s2(2) by metis
qed

theorem connection_exchange_witness:
  "\<exists>sent c evs sv.
    try_state (client_request 0 1 new_client) (\<lambda>_ c.
    try_state (client_write sample_hash (\<lambda>_. 0) 1 [make_header ''age'' ''0''] [[7]] c) (\<lambda>_ c.
      client_drain (\<lambda>_. 0) (2 + message_length [make_header ''age'' ''0''] [[7]]) c)) = (Ok sent, c) \<and>
    fst (client_send (\<lambda>_. 0) c) = Err Idle \<and>
    server_feed (Suc 3) sent new_server = (Ok (Ev_settings default_settings # evs), sv) \<and>
    message 0 [make_header ''age'' ''0''] (concat [[7]]) evs \<and> sv_peer sv = default_settings"
  by (rule connection_exchange [OF _ sample_block_ok]) (simp_all add: body_ok_def)

text \<open>
  C7. Every request of a client has a stream of its own: in whatever order a client is sent from, fed, asked,
  and its handles used, while it has made fewer than \<open>2 ^ 62\<close> requests the next one succeeds, gets the
  next id divisible by four, which no open stream has, and its handle reaches a live sender.
\<close>

theorem client_streams:
  assumes "client_run n c" and "n < 2 ^ 62"
    and "t \<noteq> h" and "st_handles (cl_store c) t = None" and "st_handles (cl_store c) h = None"
  shows "\<exists>c'. client_request t h c = (Ok (), c') \<and> map_find (word_of_nat (4 * n)) (cl_receivers c) = None \<and>
    handle_id h (cl_store c') = Some (word_of_nat (4 * n)) \<and>
    map_keys (cl_receivers c') = sorted_list_of_set (insert (word_of_nat (4 * n)) (set (map_keys (cl_receivers c)))) \<and>
    (\<exists>s. st_senders (cl_store c') (word_of_nat (4 * n)) = Some s \<and> rs_handle s = Some h) \<and> linked (cl_store c')"
proof -
  have ok: "client_ok n c" using client_run_ok [OF assms(1)] assms(2) by simp
  note fresh = client_ok_fresh [OF ok assms(2)]
  obtain c' x where c': "client_request t h c = (Ok (), c')" "client_ok (Suc n) c'"
      "handle_id h (cl_store c') = Some (cl_next c)" "st_handles (cl_store c') h = Some x" "h_sender x = Some (cl_next c)"
    using client_request_ok [OF ok assms(2-5)] by blast
  have links: "linked (cl_store c')" using c'(2) by (simp add: client_ok_def)
  then obtain s where s: "st_senders (cl_store c') (cl_next c) = Some s" "rs_handle s = Some h"
    using linked_handle [OF _ c'(4,5)] by blast
  have "cl_receivers c' = map_insert (cl_next c) (new_request_receiver (cl_next c)) (cl_receivers c)"
    using c'(1) conjunct1 [OF fresh]
    by (auto simp: client_request_def client_insert_def Let_def try_in_def or_fault_def split: option.splits)
  then have "set (map_keys (cl_receivers c')) = insert (cl_next c) (set (map_keys (cl_receivers c)))"
    using ok by (simp add: client_ok_def map.keys_insert)
  moreover have "sorted_wrt (<) (map_keys (cl_receivers c'))" using c'(2) by (simp add: client_ok_def map.keys_sorted)
  ultimately have "map_keys (cl_receivers c') = sorted_list_of_set (insert (cl_next c) (set (map_keys (cl_receivers c))))"
    by (metis sorted_list_of_set.idem_if_sorted_distinct strict_sorted_iff)
  then show ?thesis using c' fresh s links by auto
qed

theorem client_streams_witness:
  "\<exists>c'. client_request 0 1 new_client = (Ok (), c') \<and> map_find (word_of_nat (4 * 0)) (cl_receivers new_client) = None \<and>
    handle_id 1 (cl_store c') = Some (word_of_nat (4 * 0)) \<and>
    map_keys (cl_receivers c') = sorted_list_of_set (insert (word_of_nat (4 * 0)) (set (map_keys (cl_receivers new_client)))) \<and>
    (\<exists>s. st_senders (cl_store c') (word_of_nat (4 * 0)) = Some s \<and> rs_handle s = Some 1) \<and> linked (cl_store c')"
  by (rule client_streams [OF client_run.fresh]) (simp_all add: new_client_def empty_store_def)

text \<open>
  C9. The loop over the events of a connection ends whatever the peer has sent: after at most as many
  events as \<open>client_left\<close> or \<open>server_left\<close> says, about twice the number of bytes that are waiting.
\<close>

theorem generators_end:
  "(\<exists>r g c'. generator_events client_process (client_left i c + 2) (new_generator i) c = Some (r, g, c') \<and>
     (\<forall>evs. r = Ok evs \<longrightarrow> length evs \<le> Suc (client_left i c))) \<and>
   (\<exists>r g s'. generator_events server_process (server_left i s + 2) (new_generator i) s = Some (r, g, s') \<and>
     (\<forall>evs. r = Ok evs \<longrightarrow> length evs \<le> Suc (server_left i s)))"
  using client_events.generator_ends [of "new_generator i" c "client_left i c + 2"]
    server_events.generator_ends [of "new_generator i" s "server_left i s + 2"]
  by (simp add: new_generator_def)

theorem generators_end_witness:
  "(\<exists>r g c'. generator_events client_process (client_left 0 new_client + 2) (new_generator 0) new_client = Some (r, g, c') \<and>
     (\<forall>evs. r = Ok evs \<longrightarrow> length evs \<le> Suc (client_left 0 new_client))) \<and>
   (\<exists>r g s'. generator_events server_process (server_left 0 new_server + 2) (new_generator 0) new_server = Some (r, g, s') \<and>
     (\<forall>evs. r = Ok evs \<longrightarrow> length evs \<le> Suc (server_left 0 new_server)))"
  by (rule generators_end)

text \<open>
  C29. A server cannot be asked for events once it has sent the end of a response: the request is erased
  although the peer may not have finished it, and the next call of its generator ends the program.
\<close>

theorem server_early_response:
  assumes "cs_state (sv_control_sender c) = Cs_idle" and "sv_receivers c = [(i, r)]"
    and "i \<noteq> cr_id (sv_control_receiver c)"
    and "linked (sv_store c)" and "st_senders (sv_store c) i = Some s"
    and "request_send junk s = (Ok ev, s')" and "request_sender_finished s'"
  shows "\<exists>c'. server_send junk c = (Ok ev, c') \<and>
    generator_next server_process (new_generator i) c' = (Fault, new_generator i, c')"
proof -
  have nf: "\<not> request_sender_finished s" using assms(6) by (auto simp: request_send_def request_sender_finished_def)
  have "linked (put_sender i s' (sv_store c))"
    by (rule linked_put_sender [OF assms(4,5) request_send_keeps_links [OF assms(6)]])
  then obtain st where st: "sender_destroy i (put_sender i s' (sv_store c)) = Some st"
    using linked_sender_destroy [of "put_sender i s' (sv_store c)" i s'] by auto
  let ?c = "c\<lparr>sv_store := st, sv_receivers := []\<rparr>"
  have ctrl: "control_send junk (sv_control_sender c) = (Err Idle, sv_control_sender c)" using assms(1) by (simp add: control_send_def)
  have "server_send junk c = (Ok ev, ?c)"
    using assms(2,5,6,7) nf st ctrl
    by (simp add: server_send_def map_keys_def server_erase_def map_erase_def)
  moreover have "server_process i ?c = (Fault, ?c)" using assms(3) by (simp add: server_process_def map_find_def)
  ultimately show ?thesis by (simp add: generator_next_def new_generator_def)
qed

theorem server_early_response_witness:
  "\<exists>c'. server_send (\<lambda>_. 0) (new_server\<lparr>
        sv_control_sender := server_control_sender\<lparr>cs_state := Cs_idle\<rparr>,
        sv_receivers := [(4, new_request_receiver 4)],
        sv_store := sender_construct 4 4 empty_store\<lparr>st_senders := [4 \<mapsto> (new_request_sender 4)\<lparr>rs_state := Rs_body,
          rs_body := \<lparr> be_state = Be_data, be_fin = True, be_buffers = [[1]] \<rparr>\<rparr>]\<rparr>\<rparr>) =
      (Ok (Quic_data (make_data 4 True [1])), c') \<and>
    generator_next server_process (new_generator 4) c' = (Fault, new_generator 4, c')"
proof (rule server_early_response)
  let ?s = "(new_request_sender 4)\<lparr>rs_state := Rs_body, rs_body := \<lparr> be_state = Be_data, be_fin = True, be_buffers = [[1]] \<rparr>\<rparr>"
  let ?s' = "?s\<lparr>rs_body := \<lparr> be_state = Be_fin, be_fin = True, be_buffers = [] \<rparr>, rs_state := Rs_fin\<rparr>"
  show "request_send (\<lambda>_. 0) ?s = (Ok (Quic_data (make_data 4 True [1])), ?s')"
    by (simp add: request_send_def body_encoder_encode_def buffers_pop_Ok body_encoder_finished_def new_request_sender_def)
  show "request_sender_finished ?s'" by (simp add: request_sender_finished_def)
qed (simp_all add: new_server_def server_control_receiver_def client_stream_control_id_def new_control_receiver_def
    linked_def sender_construct_def empty_store_def new_request_sender_def put_sender_def)

end
