(* ===== verification/Buffer_Heap.thy ===== *)
theory Buffer_Heap
  imports Buffers
begin

text \<open>
  The memory behind \<open>base::buffer\<close> (\<open>buffer.hpp\<close>, \<open>buffer.cpp\<close>): a buffer of at most twenty bytes lives
  in the object itself, a longer one in a block that slices share and count. The operations are shown to
  implement those on byte lists that the other theories use: every live buffer shows its bytes, no
  operation on one changes what another shows, and no block outlives its last buffer.
\<close>

section \<open>Objects and blocks\<close>

text \<open>
  A pointer is null, points into the array \<open>sso_\<close> of the object at some address, or into the data of a
  block. The array holds bytes or, read as \<open>uint32_t *\<close>, the pointer to the count of a block.
\<close>

datatype pointer = Null | Own nat nat | Heap nat nat

datatype storage = Raw bytes | Count nat

record buffer_object =
  o_begin :: pointer
  o_end :: pointer
  o_sso :: storage

record block =
  b_count :: uint32
  b_bytes :: bytes

record buffer_heap =
  h_objects :: "nat \<Rightarrow> buffer_object option"
  h_blocks :: "nat \<Rightarrow> block option"
  h_next :: nat

definition empty_heap :: buffer_heap where
  "empty_heap = \<lparr> h_objects = (\<lambda>_. None), h_blocks = (\<lambda>_. None), h_next = 0 \<rparr>"

definition put_object :: "nat \<Rightarrow> buffer_object \<Rightarrow> buffer_heap \<Rightarrow> buffer_heap" where
  "put_object b x st = st\<lparr>h_objects := (h_objects st)(b := Some x)\<rparr>"

definition drop_object :: "nat \<Rightarrow> buffer_heap \<Rightarrow> buffer_heap" where
  "drop_object b st = st\<lparr>h_objects := (h_objects st)(b := None)\<rparr>"

definition put_block :: "nat \<Rightarrow> block option \<Rightarrow> buffer_heap \<Rightarrow> buffer_heap" where
  "put_block k x st = st\<lparr>h_blocks := (h_blocks st)(k := x)\<rparr>"

definition sso_threshold :: nat where "sso_threshold = 20"

fun pointer_add :: "pointer \<Rightarrow> nat \<Rightarrow> pointer" where
  "pointer_add Null n = Null"
| "pointer_add (Own b i) n = Own b (i + n)"
| "pointer_add (Heap k i) n = Heap k (i + n)"

fun pointer_diff :: "pointer \<Rightarrow> pointer \<Rightarrow> nat option" where
  "pointer_diff Null Null = Some 0"
| "pointer_diff (Own b j) (Own b' i) = (if b = b' \<and> i \<le> j then Some (j - i) else None)"
| "pointer_diff (Heap k j) (Heap k' i) = (if k = k' \<and> i \<le> j then Some (j - i) else None)"
| "pointer_diff _ _ = None"

text \<open>Reading and writing \<open>n\<close> bytes through a pointer.\<close>

definition load_bytes :: "pointer \<Rightarrow> nat \<Rightarrow> buffer_heap \<Rightarrow> bytes option" where
  "load_bytes p n st =
     (case p of
        Null \<Rightarrow> (if n = 0 then Some [] else None)
      | Own b i \<Rightarrow>
          do { x \<leftarrow> h_objects st b;
               case o_sso x of
                 Raw bs \<Rightarrow> if i + n \<le> length bs then Some (take n (drop i bs)) else None
               | Count _ \<Rightarrow> None }
      | Heap k i \<Rightarrow>
          do { x \<leftarrow> h_blocks st k;
               if i + n \<le> length (b_bytes x) then Some (take n (drop i (b_bytes x))) else None })"

definition store_bytes :: "pointer \<Rightarrow> bytes \<Rightarrow> buffer_heap \<Rightarrow> buffer_heap option" where
  "store_bytes p bs st =
     (case p of
        Null \<Rightarrow> (if bs = [] then Some st else None)
      | Own b i \<Rightarrow>
          do { x \<leftarrow> h_objects st b;
               case o_sso x of
                 Raw mem \<Rightarrow> do { mem \<leftarrow> mem_store mem i bs; Some (put_object b (x\<lparr>o_sso := Raw mem\<rparr>) st) }
               | Count _ \<Rightarrow> None }
      | Heap k i \<Rightarrow>
          do { x \<leftarrow> h_blocks st k;
               mem \<leftarrow> mem_store (b_bytes x) i bs;
               Some (put_block k (Some (x\<lparr>b_bytes := mem\<rparr>)) st) })"

section \<open>Operations\<close>

text \<open>
  The two functions \<open>rc_\<close>. Writing a null pointer zeroes the first eight bytes of the array; what a
  pointer to a block looks like as bytes is not known (\<open>junk\<close>).
\<close>

definition sso_bytes :: "(nat \<Rightarrow> byte) \<Rightarrow> storage \<Rightarrow> bytes" where
  "sso_bytes junk s = (case s of Raw bs \<Rightarrow> bs | Count _ \<Rightarrow> fresh_memory junk sso_threshold)"

definition set_rc :: "(nat \<Rightarrow> byte) \<Rightarrow> nat option \<Rightarrow> storage \<Rightarrow> storage" where
  "set_rc junk location s =
     (case location of None \<Rightarrow> Raw (replicate 8 0 @ drop 8 (sso_bytes junk s)) | Some k \<Rightarrow> Count k)"

definition get_rc :: "storage \<Rightarrow> nat option" where
  "get_rc s = (case s of Raw _ \<Rightarrow> None | Count k \<Rightarrow> Some k)"

text \<open>\<open>sso() const\<close>: the begin is null or points into the object's own array.\<close>

definition object_sso :: "nat \<Rightarrow> buffer_object \<Rightarrow> bool" where
  "object_sso b x =
     (case o_begin x of Null \<Rightarrow> True | Own b' i \<Rightarrow> b' = b \<and> i \<le> sso_threshold | Heap _ _ \<Rightarrow> False)"

definition size_sso :: "nat \<Rightarrow> bool" where
  "size_sso n \<longleftrightarrow> n \<le> sso_threshold"

definition object_size :: "buffer_object \<Rightarrow> nat option" where
  "object_size x = pointer_diff (o_end x) (o_begin x)"

text \<open>The constructors: the default one, of a size, and from data.\<close>

definition buffer_construct :: "(nat \<Rightarrow> byte) \<Rightarrow> nat \<Rightarrow> buffer_heap \<Rightarrow> buffer_heap" where
  "buffer_construct junk b st =
     put_object b \<lparr> o_begin = Null, o_end = Null, o_sso = Raw (fresh_memory junk sso_threshold) \<rparr> st"

definition buffer_construct_size ::
  "(nat \<Rightarrow> byte) \<Rightarrow> nat \<Rightarrow> nat \<Rightarrow> buffer_heap \<Rightarrow> buffer_heap" where
  "buffer_construct_size junk b n st =
     (if size_sso n then
        put_object b \<lparr> o_begin = Own b 0, o_end = Own b n,
          o_sso = set_rc junk None (Raw (fresh_memory junk sso_threshold)) \<rparr> st
      else
        (let k = h_next st;
             st = put_block k (Some \<lparr> b_count = 1, b_bytes = fresh_memory junk n \<rparr>) (st\<lparr>h_next := Suc k\<rparr>)
         in put_object b \<lparr> o_begin = Heap k 0, o_end = Heap k n, o_sso = Count k \<rparr> st))"

definition buffer_construct_data ::
  "(nat \<Rightarrow> byte) \<Rightarrow> nat \<Rightarrow> bytes \<Rightarrow> buffer_heap \<Rightarrow> buffer_heap option" where
  "buffer_construct_data junk b data st =
     (let st = buffer_construct_size junk b (length data) st
      in do { x \<leftarrow> h_objects st b; store_bytes (o_begin x) data st })"

text \<open>The private constructor that shares a block and counts the new owner.\<close>

definition buffer_construct_shared ::
  "nat \<Rightarrow> storage \<Rightarrow> pointer \<Rightarrow> pointer \<Rightarrow> buffer_heap \<Rightarrow> buffer_heap option" where
  "buffer_construct_shared b rc p q st =
     do { k \<leftarrow> get_rc rc;
          x \<leftarrow> h_blocks st k;
          Some (put_object b \<lparr> o_begin = p, o_end = q, o_sso = Count k \<rparr>
            (put_block k (Some (x\<lparr>b_count := b_count x + 1\<rparr>)) st)) }"

text \<open>\<open>destroy\<close>, and the destructor that calls it.\<close>

definition buffer_release :: "(nat \<Rightarrow> byte) \<Rightarrow> nat \<Rightarrow> buffer_heap \<Rightarrow> buffer_heap option" where
  "buffer_release junk b st =
     do { x \<leftarrow> h_objects st b;
          if object_sso b x then Some st
          else do { k \<leftarrow> get_rc (o_sso x);
                    blk \<leftarrow> h_blocks st k;
                    let count = b_count blk - 1
                    in if count = 0
                       then Some (put_object b (x\<lparr>o_sso := set_rc junk None (o_sso x)\<rparr>) (put_block k None st))
                       else Some (put_block k (Some (blk\<lparr>b_count := count\<rparr>)) st) } }"

definition buffer_destruct :: "(nat \<Rightarrow> byte) \<Rightarrow> nat \<Rightarrow> buffer_heap \<Rightarrow> buffer_heap option" where
  "buffer_destruct junk b st = map_option (drop_object b) (buffer_release junk b st)"

text \<open>\<open>operator=(buffer &&)\<close> and the constructor that uses it.\<close>

definition buffer_move_assign ::
  "(nat \<Rightarrow> byte) \<Rightarrow> nat \<Rightarrow> nat \<Rightarrow> buffer_heap \<Rightarrow> buffer_heap option" where
  "buffer_move_assign junk b other st =
     (if other = b then Some st
      else do {
        st \<leftarrow> buffer_release junk b st;
        x \<leftarrow> h_objects st b;
        y \<leftarrow> h_objects st other;
        st \<leftarrow> (if object_sso other y then
                 do { n \<leftarrow> object_size y;
                      bs \<leftarrow> load_bytes (o_begin y) n st;
                      store_bytes (Own b 0) bs
                        (put_object b \<lparr> o_begin = Own b 0, o_end = Own b n, o_sso = Raw (sso_bytes junk (o_sso x)) \<rparr> st) }
               else
                 do { k \<leftarrow> get_rc (o_sso y);
                      Some (put_object b \<lparr> o_begin = o_begin y, o_end = o_end y, o_sso = Count k \<rparr> st) });
        Some (put_object other \<lparr> o_begin = Null, o_end = Null, o_sso = set_rc junk None (o_sso y) \<rparr> st) })"

definition buffer_move_construct ::
  "(nat \<Rightarrow> byte) \<Rightarrow> nat \<Rightarrow> nat \<Rightarrow> buffer_heap \<Rightarrow> buffer_heap option" where
  "buffer_move_construct junk b other st = buffer_move_assign junk b other (buffer_construct junk b st)"

definition heap_consume :: "nat \<Rightarrow> nat \<Rightarrow> buffer_heap \<Rightarrow> buffer_heap option" where
  "heap_consume b n st =
     do { x \<leftarrow> h_objects st b;
          size \<leftarrow> object_size x;
          if n \<le> size then Some (put_object b (x\<lparr>o_begin := pointer_add (o_begin x) n\<rparr>) st) else None }"

text \<open>
  \<open>slice\<close>: the result is built at \<open>r\<close>, where the caller keeps it; the buffer that is assigned to it is a
  temporary at \<open>t\<close>.
\<close>

definition heap_slice ::
  "(nat \<Rightarrow> byte) \<Rightarrow> nat \<Rightarrow> nat \<Rightarrow> nat \<Rightarrow> nat \<Rightarrow> buffer_heap \<Rightarrow> buffer_heap option" where
  "heap_slice junk t r b n st =
     do { x \<leftarrow> h_objects st b;
          size \<leftarrow> object_size x;
          if \<not> n \<le> size then None
          else if n = 0 then Some (buffer_construct junk r st)
          else do {
            st \<leftarrow> Some (buffer_construct junk r st);
            st \<leftarrow> (if size_sso n
                   then do { bs \<leftarrow> load_bytes (o_begin x) n st; buffer_construct_data junk t bs st }
                   else buffer_construct_shared t (o_sso x) (o_begin x) (pointer_add (o_begin x) n) st);
            st \<leftarrow> buffer_move_assign junk r t st;
            st \<leftarrow> buffer_destruct junk t st;
            heap_consume b n st } }"

definition heap_concat ::
  "(nat \<Rightarrow> byte) \<Rightarrow> nat \<Rightarrow> nat \<Rightarrow> nat \<Rightarrow> buffer_heap \<Rightarrow> buffer_heap option" where
  "heap_concat junk r first second st =
     do { x \<leftarrow> h_objects st first;
          y \<leftarrow> h_objects st second;
          m \<leftarrow> object_size x;
          n \<leftarrow> object_size y;
          st \<leftarrow> Some (buffer_construct_size junk r (m + n) st);
          z \<leftarrow> h_objects st r;
          bs \<leftarrow> load_bytes (o_begin x) m st;
          st \<leftarrow> store_bytes (o_begin z) bs st;
          bs \<leftarrow> load_bytes (o_begin y) n st;
          store_bytes (pointer_add (o_begin z) m) bs st }"

text \<open>The bytes from \<open>begin()\<close> to \<open>end()\<close>, and \<open>operator[]\<close> on both sides of an assignment.\<close>

definition heap_bytes :: "buffer_heap \<Rightarrow> nat \<Rightarrow> bytes option" where
  "heap_bytes st b =
     do { x \<leftarrow> h_objects st b; n \<leftarrow> object_size x; load_bytes (o_begin x) n st }"

definition heap_at :: "nat \<Rightarrow> nat \<Rightarrow> buffer_heap \<Rightarrow> byte option" where
  "heap_at b index st =
     do { x \<leftarrow> h_objects st b;
          size \<leftarrow> object_size x;
          if index < size then map_option hd (load_bytes (pointer_add (o_begin x) index) 1 st) else None }"

definition heap_put :: "nat \<Rightarrow> nat \<Rightarrow> byte \<Rightarrow> buffer_heap \<Rightarrow> buffer_heap option" where
  "heap_put b index v st =
     do { x \<leftarrow> h_objects st b;
          size \<leftarrow> object_size x;
          if index < size then store_bytes (pointer_add (o_begin x) index) [v] st else None }"

section \<open>The invariant\<close>

text \<open>
  An object is empty (null pointers), local (pointers into its own array) or holds a range of a block:
  its \<open>slot\<close>.
\<close>

definition slot :: "buffer_object \<Rightarrow> (nat \<times> nat \<times> nat) option" where
  "slot x = (case o_begin x of
     Heap k i \<Rightarrow> (case o_end x of Heap _ j \<Rightarrow> Some (k, i, j) | _ \<Rightarrow> None) | _ \<Rightarrow> None)"

definition raw :: "buffer_object \<Rightarrow> bool" where
  "raw x \<longleftrightarrow> (\<exists>bs. o_sso x = Raw bs \<and> length bs = sso_threshold)"

definition local :: "nat \<Rightarrow> buffer_object \<Rightarrow> bool" where
  "local b x \<longleftrightarrow> raw x \<and>
     ((o_begin x = Null \<and> o_end x = Null) \<or>
      (\<exists>i j. o_begin x = Own b i \<and> o_end x = Own b j \<and> i \<le> j \<and> j \<le> sso_threshold))"

definition shares :: "buffer_object \<Rightarrow> nat \<times> nat \<times> nat \<Rightarrow> bool" where
  "shares x r \<longleftrightarrow> (case r of (k, i, j) \<Rightarrow>
     o_begin x = Heap k i \<and> o_end x = Heap k j \<and> i \<le> j \<and> o_sso x = Count k)"

definition object_ok :: "nat \<Rightarrow> buffer_object \<Rightarrow> bool" where
  "object_ok b x \<longleftrightarrow> (case slot x of None \<Rightarrow> local b x | Some r \<Rightarrow> shares x r)"

definition slots :: "buffer_heap \<Rightarrow> nat \<Rightarrow> (nat \<times> nat \<times> nat) option" where
  "slots st b = (case h_objects st b of None \<Rightarrow> None | Some x \<Rightarrow> slot x)"

definition owners :: "(nat \<Rightarrow> (nat \<times> nat \<times> nat) option) \<Rightarrow> nat \<Rightarrow> nat set" where
  "owners S k = {b. \<exists>i j. S b = Some (k, i, j)}"

text \<open>
  Every block is counted by its owners, has at least one, and its owners hold disjoint ranges of it.
\<close>

definition slots_ok :: "(nat \<Rightarrow> (nat \<times> nat \<times> nat) option) \<Rightarrow> (nat \<Rightarrow> block option) \<Rightarrow> nat \<Rightarrow> bool" where
  "slots_ok S B n \<longleftrightarrow>
     (\<forall>b k i j. S b = Some (k, i, j) \<longrightarrow> i \<le> j \<and> (\<exists>blk. B k = Some blk \<and> j \<le> length (b_bytes blk))) \<and>
     (\<forall>k blk. B k = Some blk \<longrightarrow> k < n \<and> owners S k \<noteq> {} \<and> unat (b_count blk) = card (owners S k)) \<and>
     (\<forall>b b' k i j i' j'. b \<noteq> b' \<longrightarrow> S b = Some (k, i, j) \<longrightarrow> S b' = Some (k, i', j') \<longrightarrow> j \<le> i' \<or> j' \<le> i)"

definition heap_ok :: "buffer_heap \<Rightarrow> bool" where
  "heap_ok st \<longleftrightarrow>
     finite (dom (h_objects st)) \<and> (\<forall>b x. h_objects st b = Some x \<longrightarrow> object_ok b x) \<and>
     slots_ok (slots st) (h_blocks st) (h_next st)"

lemma slots_okD:
  assumes "slots_ok S B n"
  shows "S b = Some (k, i, j) \<Longrightarrow> i \<le> j \<and> (\<exists>blk. B k = Some blk \<and> j \<le> length (b_bytes blk))"
    and "B k = Some blk \<Longrightarrow> k < n \<and> owners S k \<noteq> {} \<and> unat (b_count blk) = card (owners S k)"
    and "b \<noteq> b' \<Longrightarrow> S b = Some (k, i, j) \<Longrightarrow> S b' = Some (k, i', j') \<Longrightarrow> j \<le> i' \<or> j' \<le> i"
  using assms unfolding slots_ok_def by blast+

lemma slots_okI:
  assumes "\<And>b k i j. S b = Some (k, i, j) \<Longrightarrow> i \<le> j \<and> (\<exists>blk. B k = Some blk \<and> j \<le> length (b_bytes blk))"
    and "\<And>k blk. B k = Some blk \<Longrightarrow> k < n \<and> owners S k \<noteq> {} \<and> unat (b_count blk) = card (owners S k)"
    and "\<And>b b' k i j i' j'. b \<noteq> b' \<Longrightarrow> S b = Some (k, i, j) \<Longrightarrow> S b' = Some (k, i', j') \<Longrightarrow> j \<le> i' \<or> j' \<le> i"
  shows "slots_ok S B n"
  unfolding slots_ok_def using assms by blast

lemma owners_upd:
  "owners (S(b := None)) k = owners S k - {b}"
  "owners (S(b := Some (k', i, j))) k = (if k = k' then insert b (owners S k) else owners S k - {b})"
  by (auto simp: owners_def split: if_splits)

lemma owner_mem: "b \<in> owners S k \<longleftrightarrow> (\<exists>i j. S b = Some (k, i, j))"
  by (simp add: owners_def)

lemma owners_finite: "finite (dom S) \<Longrightarrow> finite (owners S k)"
  by (rule finite_subset) (auto simp: owners_def)

text \<open>The four ways the slots change: a new block, a release, a move and a split; and a shorter range.\<close>

lemma slots_alloc:
  assumes ok: "slots_ok S B n" and b: "S b = None"
  shows "slots_ok (S(b := Some (n, 0, length mem))) (B(n := Some \<lparr> b_count = 1, b_bytes = mem \<rparr>)) (Suc n)"
proof -
  have fresh: "k \<noteq> n" if "S c = Some (k, i, j)" for c k i j
    using slots_okD(1) [OF ok that] slots_okD(2) [OF ok] by blast
  then have none: "owners S n = {}" by (auto simp: owners_def)
  have no_b: "owners S k - {b} = owners S k" for k using b by (auto simp: owners_def)
  show ?thesis
  proof (rule slots_okI)
    fix c k i j assume "(S(b := Some (n, 0, length mem))) c = Some (k, i, j)"
    then show "i \<le> j \<and> (\<exists>blk. (B(n := Some \<lparr> b_count = 1, b_bytes = mem \<rparr>)) k = Some blk \<and> j \<le> length (b_bytes blk))"
      using fresh [of c k i j] slots_okD(1) [OF ok, of c k i j] by (auto split: if_splits)
  next
    fix k blk assume "(B(n := Some \<lparr> b_count = 1, b_bytes = mem \<rparr>)) k = Some blk"
    then show "k < Suc n \<and> owners (S(b := Some (n, 0, length mem))) k \<noteq> {} \<and>
        unat (b_count blk) = card (owners (S(b := Some (n, 0, length mem))) k)"
      using slots_okD(2) [OF ok, of k blk] none no_b by (auto simp: owners_upd split: if_splits)
  next
    fix c c' k i j i' j'
    assume "c \<noteq> c'" "(S(b := Some (n, 0, length mem))) c = Some (k, i, j)"
      "(S(b := Some (n, 0, length mem))) c' = Some (k, i', j')"
    then show "j \<le> i' \<or> j' \<le> i"
      using fresh slots_okD(3) [OF ok, of c c' k i j i' j'] by (auto split: if_splits)
  qed
qed

lemma slots_release:
  assumes ok: "slots_ok S B n" and b: "S b = Some (k, i, j)" and blk: "B k = Some blk" and fin: "finite (dom S)"
  shows "slots_ok (S(b := None))
    (B(k := if b_count blk - 1 = 0 then None else Some (blk\<lparr>b_count := b_count blk - 1\<rparr>))) n"
    (is "slots_ok ?S ?B n")
proof -
  have card: "unat (b_count blk) = card (owners S k)" using slots_okD(2) [OF ok blk] by simp
  have mem: "b \<in> owners S k" using b by (simp add: owner_mem)
  have card': "card (owners ?S k) = card (owners S k) - 1" using mem by (simp add: owners_upd)
  have pos: "0 < card (owners S k)" using mem owners_finite [OF fin] card_gt_0_iff by blast
  then have "b_count blk \<noteq> 0" using card by (metis less_numeral_extra(3) unsigned_0)
  then have count: "unat (b_count blk - 1) = card (owners ?S k)" using card card' by (simp add: unat_minus_one)
  then have last: "b_count blk - 1 = 0 \<longleftrightarrow> owners ?S k = {}"
    using owners_finite [OF fin, of k] by (metis card_0_eq finite_Diff owners_upd(1) unat_eq_zero)
  have other: "owners ?S m = owners S m" if "m \<noteq> k" for m using b that by (auto simp: owners_def)
  show ?thesis
  proof (rule slots_okI)
    fix c m i j assume c: "?S c = Some (m, i, j)"
    then have "c \<in> owners ?S m" by (auto simp: owner_mem)
    then have "m = k \<Longrightarrow> b_count blk - 1 \<noteq> 0" using last by auto
    then show "i \<le> j \<and> (\<exists>blk. ?B m = Some blk \<and> j \<le> length (b_bytes blk))"
      using c slots_okD(1) [OF ok, of c m i j] blk by (auto split: if_splits)
  next
    fix m blk' assume "?B m = Some blk'"
    then show "m < n \<and> owners ?S m \<noteq> {} \<and> unat (b_count blk') = card (owners ?S m)"
      using slots_okD(2) [OF ok, of m] blk other [of m] count last
      by (cases "m = k") (auto simp del: owners_upd split: if_splits)
  next
    fix c c' m i j i' j'
    assume "c \<noteq> c'" "?S c = Some (m, i, j)" "?S c' = Some (m, i', j')"
    then show "j \<le> i' \<or> j' \<le> i"
      using slots_okD(3) [OF ok, of c c' m i j i' j'] by (auto split: if_splits)
  qed
qed

lemma slots_move:
  assumes ok: "slots_ok S B n" and b: "S b = None" and c: "S c = Some (k, i, j)" and fin: "finite (dom S)"
  shows "slots_ok (S(b := Some (k, i, j), c := None)) B n" (is "slots_ok ?S B n")
proof -
  have bc: "b \<noteq> c" using b c by auto
  have card: "card (owners ?S m) = card (owners S m) \<and> (owners ?S m = {} \<longleftrightarrow> owners S m = {})" for m
  proof (cases "m = k")
    case True
    have bk: "b \<notin> owners S k - {c}" and ck: "c \<in> owners S k" using b c by (auto simp: owner_mem)
    have eq: "owners ?S k = insert b (owners S k - {c})" using bc b by (auto simp: owners_def)
    have "card (insert b (owners S k - {c})) = Suc (card (owners S k - {c}))"
      by (rule card_insert_disjoint) (use owners_finite [OF fin] bk in auto)
    also have "\<dots> = card (owners S k)" by (rule card_Suc_Diff1 [OF owners_finite [OF fin] ck])
    finally show ?thesis using True eq ck by auto
  next
    case False
    then have "owners ?S m = owners S m" using b c by (auto simp: owners_def)
    then show ?thesis by simp
  qed
  show ?thesis
  proof (rule slots_okI)
    fix d m i' j' assume "?S d = Some (m, i', j')"
    then show "i' \<le> j' \<and> (\<exists>blk. B m = Some blk \<and> j' \<le> length (b_bytes blk))"
      using slots_okD(1) [OF ok, of d m i' j'] slots_okD(1) [OF ok c] by (auto split: if_splits)
  next
    fix m blk assume "B m = Some blk"
    then show "m < n \<and> owners ?S m \<noteq> {} \<and> unat (b_count blk) = card (owners ?S m)"
      using slots_okD(2) [OF ok, of m blk] card [of m] by simp
  next
    fix d d' m i' j' i2 j2
    assume d: "d \<noteq> d'" "?S d = Some (m, i', j')" "?S d' = Some (m, i2, j2)"
    show "j' \<le> i2 \<or> j2 \<le> i'"
      using d slots_okD(3) [OF ok, of d d' m i' j' i2 j2] slots_okD(3) [OF ok, of c d' m i' j' i2 j2]
        slots_okD(3) [OF ok, of d c m i' j' i2 j2] c by (auto split: if_splits)
  qed
qed

lemma slots_shrink:
  assumes ok: "slots_ok S B n" and b: "S b = Some (k, i, j)" and m: "i \<le> m" "m \<le> j"
  shows "slots_ok (S(b := Some (k, m, j))) B n" (is "slots_ok ?S B n")
proof (rule slots_okI)
  fix d l i' j' assume "?S d = Some (l, i', j')"
  then show "i' \<le> j' \<and> (\<exists>blk. B l = Some blk \<and> j' \<le> length (b_bytes blk))"
    using slots_okD(1) [OF ok, of d l i' j'] slots_okD(1) [OF ok b] m by (auto split: if_splits)
next
  have "owners ?S l = owners S l" for l using b by (auto simp: owners_def)
  then show "l < n \<and> owners ?S l \<noteq> {} \<and> unat (b_count blk) = card (owners ?S l)" if "B l = Some blk" for l blk
    using slots_okD(2) [OF ok that] by simp
next
  fix d d' l i' j' i2 j2
  assume d: "d \<noteq> d'" "?S d = Some (l, i', j')" "?S d' = Some (l, i2, j2)"
  show "j' \<le> i2 \<or> j2 \<le> i'"
    using d slots_okD(3) [OF ok d(1), of l] slots_okD(3) [OF ok d(1), of k i j] b m by (fastforce split: if_splits)
qed

lemma slots_split:
  assumes ok: "slots_ok S B n" and b: "S b = Some (k, i, j)" and r: "S r = None" and m: "i \<le> m" "m \<le> j"
    and blk: "B k = Some blk" and fin: "finite (dom S)" and few: "card (dom S) < 2 ^ 32 - 1"
  shows "slots_ok (S(r := Some (k, i, m), b := Some (k, m, j))) (B(k := Some (blk\<lparr>b_count := b_count blk + 1\<rparr>))) n"
    (is "slots_ok ?S ?B n")
proof -
  have br: "b \<noteq> r" using b r by auto
  have own: "owners ?S k = insert r (owners S k)" using b br by (auto simp: owners_def)
  have other: "owners ?S l = owners S l" if "l \<noteq> k" for l using b r that by (auto simp: owners_def)
  have "r \<notin> owners S k" using r by (auto simp: owner_mem)
  then have card: "card (owners ?S k) = Suc (card (owners S k))" using own owners_finite [OF fin] by simp
  have "owners S k \<subseteq> dom S" by (auto simp: owners_def)
  then have "card (owners S k) < 2 ^ 32 - 1" using few fin card_mono by (metis le_less_trans)
  moreover have "unat (b_count blk) = card (owners S k)" using slots_okD(2) [OF ok blk] by simp
  ultimately have count: "unat (b_count blk + 1) = card (owners ?S k)"
    using card by (simp add: unat_word_ariths)
  show ?thesis
  proof (rule slots_okI)
    fix d l i' j' assume "?S d = Some (l, i', j')"
    then show "i' \<le> j' \<and> (\<exists>blk. ?B l = Some blk \<and> j' \<le> length (b_bytes blk))"
      using slots_okD(1) [OF ok, of d l i' j'] slots_okD(1) [OF ok b] m blk by (auto split: if_splits)
  next
    fix l blk' assume "?B l = Some blk'"
    then show "l < n \<and> owners ?S l \<noteq> {} \<and> unat (b_count blk') = card (owners ?S l)"
      using slots_okD(2) [OF ok, of l] blk other [of l] count own
      by (cases "l = k") (auto simp del: owners_upd split: if_splits)
  next
    fix d d' l i' j' i2 j2
    assume d: "d \<noteq> d'" "?S d = Some (l, i', j')" "?S d' = Some (l, i2, j2)"
    show "j' \<le> i2 \<or> j2 \<le> i'"
      using d slots_okD(3) [OF ok, of d d' l i' j' i2 j2] slots_okD(3) [OF ok, of b d' k i j i2 j2]
        slots_okD(3) [OF ok, of d b k i' j' i j] b m by (auto split: if_splits)
  qed
qed

lemma slots_store:
  assumes ok: "slots_ok S B n" and blk: "B k = Some blk" and mem: "length mem = length (b_bytes blk)"
  shows "slots_ok S (B(k := Some (blk\<lparr>b_bytes := mem\<rparr>))) n"
proof (rule slots_okI)
  fix b l i j assume "S b = Some (l, i, j)"
  then show "i \<le> j \<and> (\<exists>x. (B(k := Some (blk\<lparr>b_bytes := mem\<rparr>))) l = Some x \<and> j \<le> length (b_bytes x))"
    using slots_okD(1) [OF ok, of b l i j] blk mem by (cases "l = k") auto
next
  fix l x assume "(B(k := Some (blk\<lparr>b_bytes := mem\<rparr>))) l = Some x"
  then show "l < n \<and> owners S l \<noteq> {} \<and> unat (b_count x) = card (owners S l)"
    using slots_okD(2) [OF ok, of l] blk by (cases "l = k") auto
next
  show "b \<noteq> b' \<Longrightarrow> S b = Some (l, i, j) \<Longrightarrow> S b' = Some (l, i', j') \<Longrightarrow> j \<le> i' \<or> j' \<le> i" for b b' l i j i' j'
    by (rule slots_okD(3) [OF ok])
qed

lemma put_fields [simp]:
  "h_objects (put_object b x st) = (h_objects st)(b := Some x)" "h_blocks (put_object b x st) = h_blocks st"
  "h_next (put_object b x st) = h_next st"
  "h_objects (drop_object b st) = (h_objects st)(b := None)" "h_blocks (drop_object b st) = h_blocks st"
  "h_next (drop_object b st) = h_next st"
  "h_objects (put_block k y st) = h_objects st" "h_blocks (put_block k y st) = (h_blocks st)(k := y)"
  "h_next (put_block k y st) = h_next st"
  by (simp_all add: put_object_def drop_object_def put_block_def)

lemma sso_bytes_length: "raw x \<Longrightarrow> length (sso_bytes junk (o_sso x)) = sso_threshold"
  "length (sso_bytes junk (Count k)) = sso_threshold"
  by (auto simp: raw_def sso_bytes_def)

lemma object_ok_cases:
  assumes "object_ok b x"
  obtains (null) bs where "x = \<lparr> o_begin = Null, o_end = Null, o_sso = Raw bs \<rparr>" "length bs = 20" "slot x = None"
  | (own) i j bs where "x = \<lparr> o_begin = Own b i, o_end = Own b j, o_sso = Raw bs \<rparr>" "length bs = 20"
      "i \<le> j" "j \<le> 20" "slot x = None"
  | (heap) k i j where "x = \<lparr> o_begin = Heap k i, o_end = Heap k j, o_sso = Count k \<rparr>" "i \<le> j" "slot x = Some (k, i, j)"
proof (cases "slot x")
  case None
  then have "local b x" using assms by (simp add: object_ok_def)
  then show thesis using None null own unfolding local_def raw_def sso_threshold_def
    by (cases x) auto
next
  case (Some r)
  obtain k i j where r: "r = (k, i, j)" by (cases r)
  have "shares x (k, i, j)" using assms Some r by (simp add: object_ok_def)
  then show thesis using Some r heap unfolding shares_def by (cases x) auto
qed

lemma slot_simps [simp]:
  "slot \<lparr> o_begin = Null, o_end = e, o_sso = s \<rparr> = None"
  "slot \<lparr> o_begin = Own b i, o_end = e, o_sso = s \<rparr> = None"
  "slot \<lparr> o_begin = Heap k i, o_end = Heap k' j, o_sso = s \<rparr> = Some (k, i, j)"
  by (simp_all add: slot_def)

lemma heap_okD:
  assumes "heap_ok st"
  shows "finite (dom (h_objects st))"
    and "h_objects st b = Some x \<Longrightarrow> object_ok b x"
    and "h_objects st b = Some x \<Longrightarrow> slot x = Some (k, i, j) \<Longrightarrow>
      \<exists>blk. h_blocks st k = Some blk \<and> j \<le> length (b_bytes blk)"
    and "slots_ok (slots st) (h_blocks st) (h_next st)"
    and "finite (dom (slots st))"
proof -
  show f: "finite (dom (h_objects st))" using assms by (simp add: heap_ok_def)
  show "h_objects st b = Some x \<Longrightarrow> object_ok b x" using assms by (simp add: heap_ok_def)
  show s: "slots_ok (slots st) (h_blocks st) (h_next st)" using assms by (simp add: heap_ok_def)
  show "h_objects st b = Some x \<Longrightarrow> slot x = Some (k, i, j) \<Longrightarrow>
      \<exists>blk. h_blocks st k = Some blk \<and> j \<le> length (b_bytes blk)"
    using slots_okD(1) [OF s, of b k i j] by (simp add: slots_def)
  show "finite (dom (slots st))" by (rule finite_subset [OF _ f]) (auto simp: slots_def split: option.splits)
qed

lemma slots_put [simp]:
  "slots (put_object b x st) = (slots st)(b := slot x)" "slots (drop_object b st) = (slots st)(b := None)"
  "slots (put_block k y st) = slots st" "slots (st\<lparr>h_next := n\<rparr>) = slots st"
  by (rule ext; simp add: slots_def)+

text \<open>What an object shows depends on its own array or on the bytes of its block.\<close>

lemma heap_bytes_own:
  "h_objects st b = Some \<lparr> o_begin = Own b i, o_end = Own b j, o_sso = Raw bs \<rparr> \<Longrightarrow> i \<le> j \<Longrightarrow> j \<le> length bs \<Longrightarrow>
   heap_bytes st b = Some (take (j - i) (drop i bs))"
  by (simp add: heap_bytes_def object_size_def load_bytes_def)

lemma heap_bytes_null:
  "h_objects st b = Some \<lparr> o_begin = Null, o_end = Null, o_sso = s \<rparr> \<Longrightarrow> heap_bytes st b = Some []"
  by (simp add: heap_bytes_def object_size_def load_bytes_def)

lemma heap_bytes_heap:
  "h_objects st b = Some \<lparr> o_begin = Heap k i, o_end = Heap k j, o_sso = s \<rparr> \<Longrightarrow> i \<le> j \<Longrightarrow>
   h_blocks st k = Some blk \<Longrightarrow> j \<le> length (b_bytes blk) \<Longrightarrow>
   heap_bytes st b = Some (take (j - i) (drop i (b_bytes blk)))"
  by (simp add: heap_bytes_def object_size_def load_bytes_def)

lemma heap_bytes_defined:
  assumes "heap_ok st"
  shows "heap_bytes st b \<noteq> None \<longleftrightarrow> h_objects st b \<noteq> None"
proof (cases "h_objects st b")
  case None
  then show ?thesis by (simp add: heap_bytes_def)
next
  case (Some x)
  from heap_okD(2) [OF assms Some] show ?thesis
  proof (cases rule: object_ok_cases)
    case (null bs)
    then show ?thesis using Some heap_bytes_null by simp
  next
    case (own i j bs)
    then show ?thesis using Some heap_bytes_own by simp
  next
    case (heap k i j)
    then obtain blk where "h_blocks st k = Some blk" "j \<le> length (b_bytes blk)"
      using heap_okD(3) [OF assms Some] by blast
    then show ?thesis using Some heap heap_bytes_heap by simp
  qed
qed

lemma heap_bytes_frame:
  assumes "heap_ok st" and "h_objects st' b = h_objects st b"
    and "\<And>x k i j. h_objects st b = Some x \<Longrightarrow> slot x = Some (k, i, j) \<Longrightarrow>
      map_option b_bytes (h_blocks st' k) = map_option b_bytes (h_blocks st k)"
  shows "heap_bytes st' b = heap_bytes st b"
proof (cases "h_objects st b")
  case None
  then show ?thesis using assms(2) by (simp add: heap_bytes_def)
next
  case (Some x)
  from heap_okD(2) [OF assms(1) Some] show ?thesis
  proof (cases rule: object_ok_cases)
    case (null bs)
    then show ?thesis using Some assms(2) heap_bytes_null by simp
  next
    case (own i j bs)
    then show ?thesis using Some assms(2) heap_bytes_own by simp
  next
    case (heap k i j)
    then obtain blk where blk: "h_blocks st k = Some blk" "j \<le> length (b_bytes blk)"
      using heap_okD(3) [OF assms(1) Some] by blast
    then obtain blk' where "h_blocks st' k = Some blk'" "b_bytes blk' = b_bytes blk"
      using assms(3) [OF Some heap(3)] by auto
    then show ?thesis using Some assms(2) heap blk heap_bytes_heap by simp
  qed
qed

section \<open>Every operation keeps the invariant and does what it says on the bytes\<close>

lemma heap_ok_put:
  assumes "heap_ok st" and "object_ok b x" and "slots_ok ((slots st)(b := slot x)) (h_blocks st) (h_next st)"
  shows "heap_ok (put_object b x st)"
  using assms by (simp add: heap_ok_def)

lemma local_slot: "local b x \<Longrightarrow> slot x = None"
  by (auto simp: local_def slot_def)

lemma heap_ok_put_local:
  assumes "heap_ok st" and "slots st b = None" and "local b x"
  shows "heap_ok (put_object b x st)"
proof (rule heap_ok_put [OF assms(1)])
  show "object_ok b x" using assms(3) local_slot by (simp add: object_ok_def)
  have "(slots st)(b := slot x) = slots st" using assms(2) local_slot [OF assms(3)] by (simp add: fun_upd_idem)
  then show "slots_ok ((slots st)(b := slot x)) (h_blocks st) (h_next st)" using heap_okD(4) [OF assms(1)] by simp
qed

lemma heap_bytes_put:
  assumes "heap_ok st" and "heap_bytes (put_object b x st) b = v"
  shows "heap_bytes (put_object b x st) = (heap_bytes st)(b := v)"
proof
  fix c
  show "heap_bytes (put_object b x st) c = ((heap_bytes st)(b := v)) c"
    using assms heap_bytes_frame [OF assms(1), of "put_object b x st" c] by (cases "c = b") auto
qed

lemma put_drop: "put_object b x (drop_object b st) = put_object b x st"
  "put_object b x (put_object b y st) = put_object b x st"
  by (simp_all add: put_object_def drop_object_def)

lemma put_commute: "b \<noteq> c \<Longrightarrow> put_object b x (put_object c y st) = put_object c y (put_object b x st)"
  by (simp add: put_object_def fun_upd_twist)

lemma absent_slot: "heap_bytes st b = None \<Longrightarrow> heap_ok st \<Longrightarrow> slots st b = None"
  using heap_bytes_defined [of st b] by (simp add: slots_def)

lemma null_local: "length bs = 20 \<Longrightarrow> local b \<lparr> o_begin = Null, o_end = Null, o_sso = Raw bs \<rparr>"
  by (simp add: local_def raw_def sso_threshold_def)

lemma own_local:
  "length bs = 20 \<Longrightarrow> i \<le> j \<Longrightarrow> j \<le> 20 \<Longrightarrow> local b \<lparr> o_begin = Own b i, o_end = Own b j, o_sso = Raw bs \<rparr>"
  by (simp add: local_def raw_def sso_threshold_def)

lemma construct_ok:
  assumes "heap_ok st" and "heap_bytes st b = None"
  shows "heap_ok (buffer_construct junk b st)" "heap_bytes (buffer_construct junk b st) = (heap_bytes st)(b \<mapsto> [])"
proof -
  let ?x = "\<lparr> o_begin = Null, o_end = Null, o_sso = Raw (fresh_memory junk sso_threshold) \<rparr>"
  show "heap_ok (buffer_construct junk b st)" unfolding buffer_construct_def
    by (rule heap_ok_put_local [OF assms(1) absent_slot [OF assms(2,1)] null_local]) (simp add: sso_threshold_def)
  show "heap_bytes (buffer_construct junk b st) = (heap_bytes st)(b \<mapsto> [])" unfolding buffer_construct_def
    by (rule heap_bytes_put [OF assms(1)]) (simp add: heap_bytes_null)
qed

lemma construct_size_ok:
  assumes "heap_ok st" and "heap_bytes st b = None"
  shows "heap_ok (buffer_construct_size junk b n st)"
    "\<exists>bs. length bs = n \<and> heap_bytes (buffer_construct_size junk b n st) = (heap_bytes st)(b \<mapsto> bs)"
proof -
  note s = absent_slot [OF assms(2,1)]
  let ?raw = "replicate 8 0 @ drop 8 (fresh_memory junk 20) :: bytes"
  let ?x = "\<lparr> o_begin = Own b 0, o_end = Own b n, o_sso = Raw ?raw \<rparr>"
  let ?k = "h_next st" and ?mem = "fresh_memory junk n"
  let ?y = "\<lparr> o_begin = Heap ?k 0, o_end = Heap ?k n, o_sso = Count ?k \<rparr>"
  let ?st = "put_block ?k (Some \<lparr> b_count = 1, b_bytes = ?mem \<rparr>) (st\<lparr>h_next := Suc ?k\<rparr>)"
  have short: "buffer_construct_size junk b n st = put_object b ?x st" if "size_sso n"
    using that by (simp add: buffer_construct_size_def set_rc_def sso_bytes_def sso_threshold_def)
  have long: "buffer_construct_size junk b n st = put_object b ?y ?st" if "\<not> size_sso n"
    using that by (simp add: buffer_construct_size_def Let_def)
  have "slots_ok ((slots st)(b := slot ?y)) (h_blocks ?st) (h_next ?st)"
    using slots_alloc [OF heap_okD(4) [OF assms(1)] s, of ?mem] by (simp add: put_block_def)
  then have ok: "heap_ok (put_object b ?y ?st)"
    using assms(1) by (simp add: heap_ok_def object_ok_def shares_def)
  show "heap_ok (buffer_construct_size junk b n st)"
  proof (cases "size_sso n")
    case True
    then show ?thesis using heap_ok_put_local [OF assms(1) s own_local, of ?raw 0 n] short
      by (simp add: size_sso_def sso_threshold_def)
  next
    case False
    then show ?thesis using ok long by simp
  qed
  show "\<exists>bs. length bs = n \<and> heap_bytes (buffer_construct_size junk b n st) = (heap_bytes st)(b \<mapsto> bs)"
  proof (cases "size_sso n")
    case True
    then have n: "n \<le> 20" by (simp add: size_sso_def sso_threshold_def)
    then have "heap_bytes (put_object b ?x st) b = Some (take (n - 0) (drop 0 ?raw))"
      by (intro heap_bytes_own) simp_all
    from heap_bytes_put [OF assms(1) this]
    have "heap_bytes (put_object b ?x st) = (heap_bytes st)(b \<mapsto> take n ?raw)" by (simp only: diff_zero drop_0)
    then show ?thesis using short [OF True] n by (intro exI [of _ "take n ?raw"]) simp
  next
    case False
    have none: "h_blocks st ?k = None" using slots_okD(2) [OF heap_okD(4) [OF assms(1)], of ?k] by (cases "h_blocks st ?k") auto
    have "heap_bytes (put_object b ?y ?st) c = ((heap_bytes st)(b \<mapsto> ?mem)) c" for c
    proof (cases "c = b")
      case True
      have "heap_bytes (put_object b ?y ?st) b = Some (take (n - 0) (drop 0 (b_bytes \<lparr> b_count = 1, b_bytes = ?mem \<rparr>)))"
        by (rule heap_bytes_heap [of _ _ ?k]) simp_all
      then show ?thesis using True by simp
    next
      case other: False
      have "k \<noteq> ?k" if "h_objects st c = Some x" "slot x = Some (k, i, j)" for x k i j
        using heap_okD(3) [OF assms(1) that] none by auto
      then have "heap_bytes (put_object b ?y ?st) c = heap_bytes st c"
        by (intro heap_bytes_frame [OF assms(1)]) (use other in auto)
      then show ?thesis using other by simp
    qed
    then have "heap_bytes (put_object b ?y ?st) = (heap_bytes st)(b \<mapsto> ?mem)" by (rule ext)
    then show ?thesis using long [OF False] by (intro exI [of _ ?mem]) simp
  qed
qed

text \<open>A store through a pointer into an object's own range changes that object only.\<close>

lemma take_drop_replaced:
  assumes "b + length xs \<le> l \<or> h \<le> b" and "b + length xs \<le> length mem" and "l \<le> h" and "h \<le> length mem"
  shows "take (h - l) (drop l (take b mem @ xs @ drop (b + length xs) mem)) = take (h - l) (drop l mem)"
  using assms(1)
proof
  assume "b + length xs \<le> l"
  then have "drop l (take b mem @ xs @ drop (b + length xs) mem) = drop l mem" using assms by simp
  then show ?thesis by simp
next
  assume h: "h \<le> b"
  have "take (h - l) (drop l ys) = drop l (take h ys)" for ys :: "'a list" by (simp add: drop_take)
  moreover have "take h (take b mem @ xs @ drop (b + length xs) mem) = take h mem" using h assms by simp
  ultimately show ?thesis by metis
qed

lemma store_ok:
  assumes st: "heap_ok st" and x: "h_objects st b = Some x" and old: "heap_bytes st b = Some old"
    and fits: "i + length bs \<le> length old"
  shows "\<exists>st' x'. store_bytes (pointer_add (o_begin x) i) bs st = Some st' \<and> heap_ok st' \<and>
    heap_bytes st' = (heap_bytes st)(b \<mapsto> take i old @ bs @ drop (i + length bs) old) \<and>
    h_objects st' = (h_objects st)(b \<mapsto> x') \<and> o_begin x' = o_begin x \<and> o_end x' = o_end x"
  using heap_okD(2) [OF st x]
proof (cases rule: object_ok_cases)
  case (null mem)
  then have "old = []" using old heap_bytes_null x by simp
  then have "i = 0" "bs = []" using fits by simp_all
  then show ?thesis using null old \<open>old = []\<close> st x
    by (intro exI [of _ st] exI [of _ x]) (simp add: store_bytes_def fun_upd_idem)
next
  case (own l h mem)
  then have o: "old = take (h - l) (drop l mem)" using old heap_bytes_own [of st b l h mem] x by simp
  then have len: "length old = h - l" using own by simp
  let ?mem = "take (l + i) mem @ bs @ drop (l + i + length bs) mem"
  let ?x = "\<lparr> o_begin = Own b l, o_end = Own b h, o_sso = Raw ?mem \<rparr>"
  have l: "length ?mem = 20" using own fits len by simp
  have s: "store_bytes (pointer_add (o_begin x) i) bs st = Some (put_object b ?x st)"
    using own x fits len by (simp add: store_bytes_def mem_store_def)
  have "slots st b = None" using x own by (simp add: slots_def)
  then have ok: "heap_ok (put_object b ?x st)" using heap_ok_put_local [OF st _ own_local [OF l]] own by simp
  have "heap_bytes (put_object b ?x st) b = Some (take (h - l) (drop l ?mem))"
    by (rule heap_bytes_own) (use own l in simp_all)
  also have "take (h - l) (drop l ?mem) = take i old @ bs @ drop (i + length bs) old"
  proof -
    have 1: "drop l ?mem = take i (drop l mem) @ bs @ drop (l + i + length bs) mem"
      using own fits len by (simp add: drop_take)
    have "take (h - l) (drop l ?mem) = take i (drop l mem) @ bs @ take (h - l - i - length bs) (drop (l + i + length bs) mem)"
      unfolding 1 using own fits len by simp
    moreover have "take i old = take i (drop l mem)" using o fits len by simp
    moreover have "drop (i + length bs) old = take (h - l - i - length bs) (drop (l + i + length bs) mem)"
      unfolding o by (simp add: drop_take add.commute add.left_commute)
    ultimately show ?thesis by simp
  qed
  finally have "heap_bytes (put_object b ?x st) b = Some (take i old @ bs @ drop (i + length bs) old)" .
  from heap_bytes_put [OF st this] show ?thesis using s ok own by (intro exI [of _ "put_object b ?x st"] exI [of _ ?x]) simp
next
  case (heap k l h)
  then obtain blk where blk: "h_blocks st k = Some blk" "h \<le> length (b_bytes blk)" using heap_okD(3) [OF st x] by blast
  then have o: "old = take (h - l) (drop l (b_bytes blk))" using old heap_bytes_heap x heap by simp
  then have len: "length old = h - l" using blk by simp
  let ?mem = "take (l + i) (b_bytes blk) @ bs @ drop (l + i + length bs) (b_bytes blk)"
  let ?st = "put_block k (Some (blk\<lparr>b_bytes := ?mem\<rparr>)) st"
  have l: "length ?mem = length (b_bytes blk)" using heap fits len blk by simp
  have s: "store_bytes (pointer_add (o_begin x) i) bs st = Some ?st"
    using heap x fits len blk by (simp add: store_bytes_def mem_store_def)
  have ok: "heap_ok ?st" using st slots_store [OF heap_okD(4) [OF st] blk(1) l] by (simp add: heap_ok_def)
  have "heap_bytes ?st b = Some (take (h - l) (drop l (b_bytes (blk\<lparr>b_bytes := ?mem\<rparr>))))"
    by (rule heap_bytes_heap [of _ _ k]) (use x heap l blk in simp_all)
  also have "take (h - l) (drop l (b_bytes (blk\<lparr>b_bytes := ?mem\<rparr>))) = take i old @ bs @ drop (i + length bs) old"
  proof -
    have 1: "drop l ?mem = take i (drop l (b_bytes blk)) @ bs @ drop (l + i + length bs) (b_bytes blk)"
      using heap fits len blk by (simp add: drop_take)
    have "take (h - l) (drop l ?mem) =
        take i (drop l (b_bytes blk)) @ bs @ take (h - l - i - length bs) (drop (l + i + length bs) (b_bytes blk))"
      unfolding 1 using heap fits len blk by simp
    moreover have "take i old = take i (drop l (b_bytes blk))" using o fits len by simp
    moreover have "drop (i + length bs) old = take (h - l - i - length bs) (drop (l + i + length bs) (b_bytes blk))"
      unfolding o by (simp add: drop_take add.commute add.left_commute)
    ultimately show ?thesis by simp
  qed
  finally have b: "heap_bytes ?st b = Some (take i old @ bs @ drop (i + length bs) old)" .
  have other: "heap_bytes ?st c = heap_bytes st c" if "c \<noteq> b" for c
  proof (cases "h_objects st c")
    case None
    then show ?thesis by (simp add: heap_bytes_def)
  next
    case (Some y)
    show ?thesis
    proof (cases "\<exists>l' h'. slot y = Some (k, l', h')")
      case False
      then show ?thesis by (intro heap_bytes_frame [OF st]) (use Some in auto)
    next
      case True
      then obtain l' h' where y: "y = \<lparr> o_begin = Heap k l', o_end = Heap k h', o_sso = Count k \<rparr>" "l' \<le> h'"
        using heap_okD(2) [OF st Some] by (auto elim!: object_ok_cases)
      have slots: "slots st b = Some (k, l, h)" "slots st c = Some (k, l', h')"
        using x Some heap y by (simp_all add: slots_def)
      have apart: "h \<le> l' \<or> h' \<le> l" by (rule slots_okD(3) [OF heap_okD(4) [OF st] _ slots]) (use that in simp)
      have h': "h' \<le> length (b_bytes blk)" using slots_okD(1) [OF heap_okD(4) [OF st] slots(2)] blk by auto
      have "heap_bytes ?st c = Some (take (h' - l') (drop l' (b_bytes (blk\<lparr>b_bytes := ?mem\<rparr>))))"
        by (rule heap_bytes_heap [of _ _ k]) (use Some y l h' in simp_all)
      moreover have "take (h' - l') (drop l' ?mem) = take (h' - l') (drop l' (b_bytes blk))"
        by (rule take_drop_replaced) (use apart fits len y(2) h' heap(2) blk(2) in auto)
      moreover have "heap_bytes st c = Some (take (h' - l') (drop l' (b_bytes blk)))"
        by (rule heap_bytes_heap [of _ _ k]) (use Some y blk h' in simp_all)
      ultimately show ?thesis by simp
    qed
  qed
  have "heap_bytes ?st = (heap_bytes st)(b \<mapsto> take i old @ bs @ drop (i + length bs) old)"
    using b other by (intro ext) (simp add: fun_upd_def)
  then show ?thesis using s ok x by (intro exI [of _ ?st] exI [of _ x]) (simp add: fun_upd_idem)
qed

lemma construct_data_ok:
  assumes "heap_ok st" and "heap_bytes st b = None"
  shows "\<exists>st'. buffer_construct_data junk b data st = Some st' \<and> heap_ok st' \<and>
    heap_bytes st' = (heap_bytes st)(b \<mapsto> data)"
proof -
  let ?st = "buffer_construct_size junk b (length data) st"
  note ok = construct_size_ok(1) [OF assms, of junk "length data"]
  obtain bs where bs: "length bs = length data" "heap_bytes ?st = (heap_bytes st)(b \<mapsto> bs)"
    using construct_size_ok(2) [OF assms] by blast
  then obtain x where x: "h_objects ?st b = Some x" using heap_bytes_defined [OF ok, of b] by auto
  have add0: "pointer_add p 0 = p" for p by (cases p) simp_all
  show ?thesis using store_ok [OF ok x, of bs 0 data] bs x add0 by (auto simp: buffer_construct_data_def)
qed

lemma object_defined: "heap_ok st \<Longrightarrow> heap_bytes st b = Some bs \<Longrightarrow> \<exists>x. h_objects st b = Some x \<and> object_size x = Some (length bs)"
proof -
  assume st: "heap_ok st" and b: "heap_bytes st b = Some bs"
  then obtain x where x: "h_objects st b = Some x" using heap_bytes_defined [OF st, of b] by auto
  from heap_okD(2) [OF st x] show ?thesis
  proof (cases rule: object_ok_cases)
    case (null mem)
    then show ?thesis using x b heap_bytes_null by (simp add: object_size_def)
  next
    case (own i j mem)
    then show ?thesis using x b heap_bytes_own [of st b i j mem] by (auto simp: object_size_def)
  next
    case (heap k i j)
    then obtain blk where "h_blocks st k = Some blk" "j \<le> length (b_bytes blk)" using heap_okD(3) [OF st x] by blast
    then show ?thesis using x b heap heap_bytes_heap [of st b k i j "Count k" blk] by (auto simp: object_size_def)
  qed
qed

text \<open>\<open>destroy\<close>, seen with the object removed: the last owner frees the block.\<close>

lemma release_ok:
  assumes st: "heap_ok st" and x: "h_objects st b = Some x"
  shows "\<exists>st1. buffer_release junk b st = Some st1 \<and> heap_ok (drop_object b st1) \<and>
    heap_bytes (drop_object b st1) = (heap_bytes st)(b := None) \<and>
    (\<exists>y. h_objects st1 = (h_objects st)(b \<mapsto> y) \<and> length (sso_bytes junk (o_sso y)) = 20)"
proof -
  have gone: "heap_bytes (drop_object b s) b = None" for s by (simp add: heap_bytes_def)
  from heap_okD(2) [OF st x] have cases: "(object_sso b x \<and> slot x = None \<and> length (sso_bytes junk (o_sso x)) = 20) \<or>
      (\<exists>k i j. x = \<lparr> o_begin = Heap k i, o_end = Heap k j, o_sso = Count k \<rparr>)"
    by (cases rule: object_ok_cases) (auto simp: object_sso_def sso_bytes_def sso_threshold_def)
  show ?thesis
  proof (cases "slot x")
    case None
    then have sso: "object_sso b x" "length (sso_bytes junk (o_sso x)) = 20" using cases by auto
    have "(slots st)(b := None) = slots st" using x None by (simp add: slots_def fun_upd_idem_iff)
    then have "heap_ok (drop_object b st)" using st by (auto simp: heap_ok_def split: if_splits)
    moreover have "heap_bytes (drop_object b st) c = ((heap_bytes st)(b := None)) c" for c
      using heap_bytes_frame [OF st, of "drop_object b st" c] gone by (cases "c = b") auto
    ultimately show ?thesis using sso x by (auto simp: buffer_release_def fun_upd_idem intro!: exI [of _ x])
  next
    case (Some r)
    then obtain k i j where h: "x = \<lparr> o_begin = Heap k i, o_end = Heap k j, o_sso = Count k \<rparr>" using cases by auto
    then have slot: "slot x = Some (k, i, j)" by simp
    then obtain blk where blk: "h_blocks st k = Some blk" using heap_okD(3) [OF st x] by blast
    let ?B = "if b_count blk - 1 = 0 then None else Some (blk\<lparr>b_count := b_count blk - 1\<rparr>)"
    let ?y = "if b_count blk - 1 = 0 then x\<lparr>o_sso := set_rc junk None (o_sso x)\<rparr> else x"
    let ?st = "put_object b ?y (put_block k ?B st)"
    have put_same: "put_object b x (put_block k z st) = put_block k z st" for z
      using x by (simp add: put_object_def put_block_def fun_upd_idem)
    have r: "buffer_release junk b st = Some ?st"
      using x h blk put_same by (simp add: buffer_release_def object_sso_def get_rc_def Let_def)
    have S: "slots st b = Some (k, i, j)" using x slot by (simp add: slots_def)
    note rel = slots_release [OF heap_okD(4) [OF st] S blk heap_okD(5) [OF st]]
    have drop: "drop_object b ?st = drop_object b (put_block k ?B st)" by (simp add: drop_object_def put_object_def)
    have ok: "heap_ok (drop_object b ?st)" unfolding drop
      using st rel by (auto simp: heap_ok_def split: if_splits)
    moreover have "heap_bytes (drop_object b ?st) c = ((heap_bytes st)(b := None)) c" for c
    proof (cases "c = b")
      case True
      then show ?thesis using gone by simp
    next
      case False
      have "map_option b_bytes (h_blocks (drop_object b ?st) l) = map_option b_bytes (h_blocks st l)"
        if z: "h_objects st c = Some z" "slot z = Some (l, m, n)" for z l m n
      proof (cases "l = k")
        case True
        have "slots (drop_object b ?st) c = Some (k, m, n)" using z True False by (simp add: slots_def)
        then have "h_blocks (drop_object b ?st) k \<noteq> None" using slots_okD(1) [OF heap_okD(4) [OF ok]] by blast
        then show ?thesis using True blk by (auto split: if_splits)
      qed simp
      then have "heap_bytes (drop_object b ?st) c = heap_bytes st c"
        by (intro heap_bytes_frame [OF st]) (use False in simp_all)
      then show ?thesis using False by simp
    qed
    moreover have "length (sso_bytes junk (o_sso ?y)) = 20"
      using h by (simp add: sso_bytes_def set_rc_def sso_threshold_def)
    ultimately show ?thesis using r by (intro exI [of _ ?st]) auto
  qed
qed

lemma destruct_ok:
  assumes "heap_ok st" and "heap_bytes st b \<noteq> None"
  shows "\<exists>st'. buffer_destruct junk b st = Some st' \<and> heap_ok st' \<and> heap_bytes st' = (heap_bytes st)(b := None)"
proof -
  obtain x where "h_objects st b = Some x" using assms heap_bytes_defined by auto
  from release_ok [OF assms(1) this, of junk] show ?thesis by (auto simp: buffer_destruct_def)
qed

text \<open>A move hands the bytes over; the other buffer is empty after it.\<close>

lemma move_assign_ok:
  assumes st: "heap_ok st" and b: "heap_bytes st b \<noteq> None" and other: "heap_bytes st other = Some bs" and ne: "other \<noteq> b"
  shows "\<exists>st'. buffer_move_assign junk b other st = Some st' \<and> heap_ok st' \<and>
    heap_bytes st' = (heap_bytes st)(b \<mapsto> bs, other \<mapsto> [])"
proof -
  obtain x where x: "h_objects st b = Some x" using b heap_bytes_defined [OF st] by auto
  obtain st1 x1 where r: "buffer_release junk b st = Some st1" "heap_ok (drop_object b st1)"
      "heap_bytes (drop_object b st1) = (heap_bytes st)(b := None)"
      "h_objects st1 = (h_objects st)(b \<mapsto> x1)" "length (sso_bytes junk (o_sso x1)) = 20"
    using release_ok [OF st x] by blast
  let ?st = "drop_object b st1"
  obtain y where y: "h_objects st other = Some y" "object_size y = Some (length bs)"
    using object_defined [OF st other] by blast
  have y': "h_objects st1 other = Some y" "h_objects ?st other = Some y" using y r(4) ne by simp_all
  have other': "heap_bytes ?st other = Some bs" "heap_bytes ?st b = None" using r(3) other ne by simp_all
  note absent = absent_slot [OF other'(2) r(2)]
  let ?null = "\<lparr> o_begin = Null, o_end = Null, o_sso = set_rc junk None (o_sso y) \<rparr>"
  have nl: "local other ?null"
    using heap_okD(2) [OF st y(1)]
    by (cases rule: object_ok_cases) (auto simp: set_rc_def sso_bytes_def sso_threshold_def intro!: null_local)
  show ?thesis
  proof (cases "slot y")
    case None
    have yo: "object_sso other y" "load_bytes (o_begin y) (length bs) st1 = Some bs" "length bs \<le> 20"
    proof -
      have l: "load_bytes (o_begin y) (length bs) ?st = Some bs"
        using other'(1) y'(2) y(2) by (simp add: heap_bytes_def)
      from heap_okD(2) [OF st y(1)] None
      have "object_sso other y \<and> load_bytes (o_begin y) (length bs) st1 = Some bs \<and> length bs \<le> 20"
        using l y' y(2) by (cases rule: object_ok_cases) (auto simp: object_sso_def load_bytes_def object_size_def sso_threshold_def)
      then show "object_sso other y" "load_bytes (o_begin y) (length bs) st1 = Some bs" "length bs \<le> 20" by simp_all
    qed
    let ?mem = "bs @ drop (length bs) (sso_bytes junk (o_sso x1))"
    let ?x = "\<lparr> o_begin = Own b 0, o_end = Own b (length bs), o_sso = Raw ?mem \<rparr>"
    let ?st2 = "put_object b ?x ?st"
    have len: "length ?mem = 20" using r(5) yo(3) by simp
    have run: "buffer_move_assign junk b other st = Some (put_object other ?null ?st2)"
      using ne r(1) y' r(4) r(5) yo y(2) len
      by (simp add: buffer_move_assign_def store_bytes_def mem_store_def put_drop)
    have ok2: "heap_ok ?st2" by (rule heap_ok_put_local [OF r(2) absent own_local [OF len]]) (use yo in simp_all)
    have "heap_bytes ?st2 b = Some (take (length bs - 0) (drop 0 ?mem))" by (rule heap_bytes_own) (use yo len in simp_all)
    from heap_bytes_put [OF r(2) this] have b2: "heap_bytes ?st2 = (heap_bytes st)(b \<mapsto> bs)" using r(3) by simp
    have "slots ?st2 other = None" using None y' ne by (simp add: slots_def)
    then have ok3: "heap_ok (put_object other ?null ?st2)" by (rule heap_ok_put_local [OF ok2 _ nl])
    have "heap_bytes (put_object other ?null ?st2) other = Some []" by (rule heap_bytes_null) simp
    from heap_bytes_put [OF ok2 this] show ?thesis using run ok3 b2 by simp
  next
    case (Some s)
    obtain k i j where h: "y = \<lparr> o_begin = Heap k i, o_end = Heap k j, o_sso = Count k \<rparr>" "i \<le> j" "slot y = Some (k, i, j)"
      using heap_okD(2) [OF st y(1)] Some by (cases rule: object_ok_cases) auto
    let ?st3 = "put_object other ?null (put_object b y ?st)"
    have run: "buffer_move_assign junk b other st = Some ?st3"
      using ne r(1) y' r(4) h(1) by (simp add: buffer_move_assign_def object_sso_def get_rc_def put_drop)
    have S: "slots ?st other = Some (k, i, j)" using y'(1) h(3) ne by (simp add: slots_def)
    have "slots ?st3 = (slots ?st)(b := Some (k, i, j), other := None)" using h(3) by simp
    then have "slots_ok (slots ?st3) (h_blocks ?st3) (h_next ?st3)"
      using slots_move [OF heap_okD(4) [OF r(2)] absent S heap_okD(5) [OF r(2)]] by simp
    moreover have "object_ok b y" using h by (simp add: object_ok_def shares_def)
    moreover have "object_ok other ?null" using nl by (simp add: object_ok_def)
    ultimately have ok3: "heap_ok ?st3" using r(2) by (simp add: heap_ok_def)
    obtain blk where blk: "h_blocks ?st k = Some blk" "j \<le> length (b_bytes blk)"
      using heap_okD(3) [OF r(2) y'(2) h(3)] by blast
    have bs: "bs = take (j - i) (drop i (b_bytes blk))"
      using heap_bytes_heap [of ?st other k i j "Count k" blk] y'(2) h(1,2) blk other'(1) ne by simp
    have "heap_bytes ?st3 c = ((heap_bytes st)(b \<mapsto> bs, other \<mapsto> [])) c" for c
    proof -
      have 1: "heap_bytes ?st3 other = Some []" by (rule heap_bytes_null) simp
      have 2: "heap_bytes ?st3 b = Some (take (j - i) (drop i (b_bytes blk)))"
        by (rule heap_bytes_heap [of _ _ k]) (use ne h blk in simp_all)
      have "heap_bytes ?st3 c = heap_bytes ?st c" if "c \<noteq> b" "c \<noteq> other"
        by (rule heap_bytes_frame [OF r(2)]) (use that in simp_all)
      then show ?thesis using 1 2 bs r(3) by auto
    qed
    then have "heap_bytes ?st3 = (heap_bytes st)(b \<mapsto> bs, other \<mapsto> [])" by (rule ext)
    then show ?thesis using run ok3 by blast
  qed
qed

lemma consume_ok:
  assumes st: "heap_ok st" and b: "heap_bytes st b = Some bs" and n: "n \<le> length bs"
  shows "\<exists>st'. heap_consume b n st = Some st' \<and> heap_ok st' \<and> heap_bytes st' = (heap_bytes st)(b \<mapsto> drop n bs)"
proof -
  obtain x where x: "h_objects st b = Some x" "object_size x = Some (length bs)" using object_defined [OF st b] by blast
  let ?x = "x\<lparr>o_begin := pointer_add (o_begin x) n\<rparr>"
  have run: "heap_consume b n st = Some (put_object b ?x st)" using x n by (simp add: heap_consume_def)
  from heap_okD(2) [OF st x(1)] have "heap_ok (put_object b ?x st) \<and> heap_bytes (put_object b ?x st) b = Some (drop n bs)"
  proof (cases rule: object_ok_cases)
    case (null mem)
    then have "?x = x" "bs = []" using x(2) by (simp_all add: object_size_def)
    then show ?thesis using st x(1) b by (simp add: put_object_def fun_upd_idem)
  next
    case (own i j mem)
    then have bs: "length bs = j - i" "bs = take (j - i) (drop i mem)"
      using x b heap_bytes_own [of st b i j mem] by (auto simp: object_size_def)
    have X: "?x = \<lparr> o_begin = Own b (i + n), o_end = Own b j, o_sso = Raw mem \<rparr>" using own by simp
    have "slots st b = None" using x(1) own by (simp add: slots_def)
    then have "heap_ok (put_object b ?x st)" unfolding X
      by (rule heap_ok_put_local [OF st _ own_local]) (use own n bs in simp_all)
    moreover have "heap_bytes (put_object b ?x st) b = Some (take (j - (i + n)) (drop (i + n) mem))" unfolding X
      by (rule heap_bytes_own) (use own n bs in simp_all)
    moreover have "take (j - (i + n)) (drop (i + n) mem) = drop n bs"
      unfolding bs(2) by (simp add: drop_take add.commute)
    ultimately show ?thesis by simp
  next
    case (heap k i j)
    then obtain blk where blk: "h_blocks st k = Some blk" "j \<le> length (b_bytes blk)"
      using heap_okD(3) [OF st x(1)] by blast
    have bs: "length bs = j - i" "bs = take (j - i) (drop i (b_bytes blk))"
      using x b heap heap_bytes_heap [of st b k i j "Count k" blk] blk by (auto simp: object_size_def)
    have X: "?x = \<lparr> o_begin = Heap k (i + n), o_end = Heap k j, o_sso = Count k \<rparr>" using heap by simp
    have S: "slots st b = Some (k, i, j)" using x(1) heap by (simp add: slots_def)
    have inj: "i + n \<le> j" using n bs(1) heap(2) by simp
    have "slots_ok ((slots st)(b := slot ?x)) (h_blocks st) (h_next st)"
      using slots_shrink [OF heap_okD(4) [OF st] S, of "i + n"] inj unfolding X by simp
    moreover have "object_ok b ?x" unfolding X using inj by (simp add: object_ok_def shares_def)
    ultimately have "heap_ok (put_object b ?x st)" by (intro heap_ok_put [OF st])
    moreover have "heap_bytes (put_object b ?x st) b = Some (take (j - (i + n)) (drop (i + n) (b_bytes blk)))" unfolding X
      by (rule heap_bytes_heap [of _ _ k]) (use inj blk in simp_all)
    moreover have "take (j - (i + n)) (drop (i + n) (b_bytes blk)) = drop n bs"
      unfolding bs(2) by (simp add: drop_take add.commute)
    ultimately show ?thesis by simp
  qed
  then show ?thesis using run heap_bytes_put [OF st] by blast
qed

text \<open>A slice of more than twenty bytes shares the block: the two ranges are those the old one is cut into.\<close>

lemma slice_shared:
  assumes st: "heap_ok st" and x: "h_objects st b = Some \<lparr> o_begin = Heap k i, o_end = Heap k j, o_sso = Count k \<rparr>"
    and n: "n \<noteq> 0" "\<not> size_sso n" "i + n \<le> j"
    and fresh: "h_objects st r = None" "h_objects st t = None" "t \<noteq> r"
    and few: "card (dom (h_objects st)) < 2 ^ 32 - 1"
  shows "\<exists>st'. heap_slice junk t r b n st = Some st' \<and> heap_ok st' \<and> (\<exists>blk :: block.
    heap_bytes st b = Some (take (j - i) (drop i (b_bytes blk))) \<and>
    heap_bytes st' = (heap_bytes st)(r \<mapsto> take n (drop i (b_bytes blk)), b \<mapsto> take (j - (i + n)) (drop (i + n) (b_bytes blk))))"
proof -
  let ?r = "\<lparr> o_begin = Heap k i, o_end = Heap k (i + n), o_sso = Count k \<rparr>"
  let ?b = "\<lparr> o_begin = Heap k (i + n), o_end = Heap k j, o_sso = Count k \<rparr>"
  have S: "slots st b = Some (k, i, j)" "slots st r = None" using x fresh by (simp_all add: slots_def)
  obtain blk where blk: "h_blocks st k = Some blk" "j \<le> length (b_bytes blk)"
    using slots_okD(1) [OF heap_okD(4) [OF st] S(1)] by blast
  let ?blk = "blk\<lparr>b_count := b_count blk + 1\<rparr>"
  let ?st = "put_object b ?b (put_object r ?r (put_block k (Some ?blk) st))"
  have ne: "b \<noteq> r" "b \<noteq> t" using x fresh by auto
  have run: "heap_slice junk t r b n st = Some ?st"
    using x n ne fresh blk
    by (simp add: heap_slice_def object_size_def buffer_construct_def buffer_construct_shared_def get_rc_def
        buffer_move_assign_def buffer_release_def object_sso_def buffer_destruct_def heap_consume_def)
      (auto simp: put_object_def drop_object_def put_block_def fun_upd_def intro!: buffer_heap.equality ext)
  have "dom (slots st) \<subseteq> dom (h_objects st)" by (auto simp: slots_def split: option.splits)
  then have "card (dom (slots st)) < 2 ^ 32 - 1" using few heap_okD(1) [OF st] card_mono by (metis le_less_trans)
  then have "slots_ok (slots ?st) (h_blocks ?st) (h_next ?st)"
    using slots_split [OF heap_okD(4) [OF st] S _ _ blk(1) heap_okD(5) [OF st], of "i + n"] n by simp
  moreover have "object_ok r ?r" "object_ok b ?b" using n by (simp_all add: object_ok_def shares_def)
  ultimately have ok: "heap_ok ?st" using st by (simp add: heap_ok_def)
  have r: "heap_bytes ?st r = Some (take (i + n - i) (drop i (b_bytes ?blk)))"
    by (rule heap_bytes_heap [of _ _ k]) (use ne n blk in simp_all)
  have b: "heap_bytes ?st b = Some (take (j - (i + n)) (drop (i + n) (b_bytes ?blk)))"
    by (rule heap_bytes_heap [of _ _ k]) (use ne n blk in simp_all)
  have "heap_bytes ?st c = heap_bytes st c" if "c \<noteq> r" "c \<noteq> b" for c
    by (rule heap_bytes_frame [OF st]) (use that blk in auto)
  then have "heap_bytes ?st = (heap_bytes st)(r \<mapsto> take n (drop i (b_bytes blk)), b \<mapsto> take (j - (i + n)) (drop (i + n) (b_bytes blk)))"
    using r b ne by (intro ext) auto
  moreover have "heap_bytes st b = Some (take (j - i) (drop i (b_bytes blk)))"
    by (rule heap_bytes_heap [of _ _ k]) (use x n blk in simp_all)
  ultimately show ?thesis using run ok by (intro exI [of _ ?st] exI [of _ blk] conjI)
qed

lemma load_prefix:
  assumes "heap_bytes st b = Some bs" and "h_objects st b = Some x" and "object_size x = Some (length bs)" and "n \<le> length bs"
  shows "load_bytes (o_begin x) n st = Some (take n bs)"
proof -
  have l: "load_bytes (o_begin x) (length bs) st = Some bs" using assms by (simp add: heap_bytes_def)
  show ?thesis
  proof (cases "o_begin x")
    case Null
    then show ?thesis using l assms(4) by (simp add: load_bytes_def split: if_splits)
  next
    case (Own c i)
    then obtain y mem where "h_objects st c = Some y" "o_sso y = Raw mem" "i + length bs \<le> length mem" "bs = take (length bs) (drop i mem)"
      using l by (auto simp: load_bytes_def split: if_splits option.splits storage.splits Option.bind_splits)
    then show ?thesis using Own assms(4) by (simp add: load_bytes_def) (metis min_def take_take)
  next
    case (Heap k i)
    then obtain y where "h_blocks st k = Some y" "i + length bs \<le> length (b_bytes y)" "bs = take (length bs) (drop i (b_bytes y))"
      using l by (auto simp: load_bytes_def split: if_splits option.splits Option.bind_splits)
    then show ?thesis using Heap assms(4) by (simp add: load_bytes_def) (metis min_def take_take)
  qed
qed

lemma slice_ok:
  assumes st: "heap_ok st" and b: "heap_bytes st b = Some bs" and n: "n \<le> length bs"
    and fresh: "heap_bytes st r = None" "heap_bytes st t = None" "t \<noteq> r"
    and few: "card (dom (h_objects st)) < 2 ^ 32 - 1"
  shows "\<exists>st'. heap_slice junk t r b n st = Some st' \<and> heap_ok st' \<and>
    heap_bytes st' = (heap_bytes st)(r \<mapsto> take n bs, b \<mapsto> drop n bs)"
proof -
  obtain x where x: "h_objects st b = Some x" "object_size x = Some (length bs)" using object_defined [OF st b] by blast
  note construct = construct_ok [OF st fresh(1), of junk]
  let ?st = "buffer_construct junk r st"
  have ne: "b \<noteq> r" "b \<noteq> t" using b fresh by auto
  show ?thesis
  proof (cases "n = 0 \<or> size_sso n")
    case True
    show ?thesis
    proof (cases "n = 0")
      case True
      then have "heap_slice junk t r b n st = Some ?st" using x by (simp add: heap_slice_def)
      then show ?thesis using construct True b ne by (auto simp: fun_upd_idem)
    next
      case False
      then have sso: "size_sso n" using True by simp
      have load: "load_bytes (o_begin x) n ?st = Some (take n bs)"
        by (rule load_prefix [of _ b]) (use construct(2) b ne x n in \<open>simp_all add: buffer_construct_def\<close>)
      have "heap_bytes ?st t = None" using construct(2) fresh by simp
      from construct_data_ok [OF construct(1) this, of junk "take n bs"]
      obtain s1 where s1: "buffer_construct_data junk t (take n bs) ?st = Some s1" "heap_ok s1"
          "heap_bytes s1 = (heap_bytes ?st)(t \<mapsto> take n bs)" by blast
      have "heap_bytes s1 r \<noteq> None" "heap_bytes s1 t = Some (take n bs)" using s1(3) construct(2) fresh(3) by simp_all
      from move_assign_ok [OF s1(2) this fresh(3), of junk]
      obtain s2 where s2: "buffer_move_assign junk r t s1 = Some s2" "heap_ok s2"
          "heap_bytes s2 = (heap_bytes s1)(r \<mapsto> take n bs, t \<mapsto> [])" by blast
      have "heap_bytes s2 t \<noteq> None" using s2(3) by simp
      from destruct_ok [OF s2(2) this, of junk]
      obtain s3 where s3: "buffer_destruct junk t s2 = Some s3" "heap_ok s3" "heap_bytes s3 = (heap_bytes s2)(t := None)"
        by blast
      have eq3: "heap_bytes s3 = (heap_bytes st)(r \<mapsto> take n bs)"
        using s3(3) s2(3) s1(3) construct(2) fresh by (auto simp: fun_eq_iff)
      then have "heap_bytes s3 b = Some bs" using b ne by simp
      from consume_ok [OF s3(2) this n] obtain s4 where s4: "heap_consume b n s3 = Some s4" "heap_ok s4"
          "heap_bytes s4 = (heap_bytes s3)(b \<mapsto> drop n bs)" by blast
      have "heap_slice junk t r b n st = Some s4"
        using x n False sso load s1(1) s2(1) s3(1) s4(1) by (simp add: heap_slice_def)
      then show ?thesis using s4 eq3 by simp
    qed
  next
    case False
    then have "20 < length bs" using n by (simp add: size_sso_def sso_threshold_def)
    with heap_okD(2) [OF st x(1)] x(2) obtain k i j where h: "x = \<lparr> o_begin = Heap k i, o_end = Heap k j, o_sso = Count k \<rparr>" "i \<le> j" "length bs = j - i"
      by (cases rule: object_ok_cases) (auto simp: object_size_def)
    have objs: "h_objects st r = None" "h_objects st t = None" using fresh heap_bytes_defined [OF st] by metis+
    have "i + n \<le> j" using h(2,3) n by simp
    from slice_shared [OF st _ _ _ this objs fresh(3) few, of b k junk] x(1) h(1) False obtain st' and blk :: block where s: "heap_slice junk t r b n st = Some st'" "heap_ok st'"
        "heap_bytes st b = Some (take (j - i) (drop i (b_bytes blk)))"
        "heap_bytes st' = (heap_bytes st)(r \<mapsto> take n (drop i (b_bytes blk)),
           b \<mapsto> take (j - (i + n)) (drop (i + n) (b_bytes blk)))"
      by metis
    have bs: "bs = take (j - i) (drop i (b_bytes blk))" using s(3) b by simp
    have "take n (drop i (b_bytes blk)) = take n bs" "take (j - (i + n)) (drop (i + n) (b_bytes blk)) = drop n bs"
      unfolding bs using h(3) n by (simp_all add: drop_take add.commute min_def)
    then show ?thesis using s by auto
  qed
qed

lemma concat_ok:
  assumes st: "heap_ok st" and r: "heap_bytes st r = None"
    and m: "heap_bytes st first = Some xs" and n: "heap_bytes st second = Some ys"
  shows "\<exists>st'. heap_concat junk r first second st = Some st' \<and> heap_ok st' \<and>
    heap_bytes st' = (heap_bytes st)(r \<mapsto> xs @ ys)"
proof -
  let ?st = "buffer_construct_size junk r (length xs + length ys) st"
  obtain x where x: "h_objects st first = Some x" "object_size x = Some (length xs)" using object_defined [OF st m] by blast
  obtain y where y: "h_objects st second = Some y" "object_size y = Some (length ys)" using object_defined [OF st n] by blast
  have ne: "first \<noteq> r" "second \<noteq> r" using r m n by auto
  have objs: "h_objects ?st first = Some x" "h_objects ?st second = Some y"
    using x y ne by (simp_all add: buffer_construct_size_def Let_def)
  note ok = construct_size_ok(1) [OF st r, of junk "length xs + length ys"]
  obtain bs where bs: "length bs = length xs + length ys" "heap_bytes ?st = (heap_bytes st)(r \<mapsto> bs)"
    using construct_size_ok(2) [OF st r] by blast
  have r1: "heap_bytes ?st r = Some bs" "heap_bytes ?st first = Some xs" using bs(2) m ne by simp_all
  then obtain z where z: "h_objects ?st r = Some z" using object_defined [OF ok] by blast
  have add0: "pointer_add p 0 = p" for p by (cases p) simp_all
  have load1: "load_bytes (o_begin x) (length xs) ?st = Some xs"
    using load_prefix [OF r1(2) objs(1) x(2), of "length xs"] by simp
  obtain s1 z1 where s1: "store_bytes (o_begin z) xs ?st = Some s1" "heap_ok s1"
      "heap_bytes s1 = (heap_bytes ?st)(r \<mapsto> xs @ drop (length xs) bs)"
      "h_objects s1 = (h_objects ?st)(r \<mapsto> z1)" "o_begin z1 = o_begin z"
    using store_ok [OF ok z r1(1), of 0 xs] bs(1) add0 by auto
  have r2: "heap_bytes s1 r = Some (xs @ drop (length xs) bs)" "h_objects s1 r = Some z1" using s1(3,4) by simp_all
  have "heap_bytes s1 second = Some ys" "h_objects s1 second = Some y" using s1(3,4) bs(2) n objs ne by simp_all
  then have load2: "load_bytes (o_begin y) (length ys) s1 = Some ys"
    using load_prefix [of s1 second ys y "length ys"] y(2) by simp
  obtain s2 where s2: "store_bytes (pointer_add (o_begin z1) (length xs)) ys s1 = Some s2" "heap_ok s2"
      "heap_bytes s2 = (heap_bytes s1)(r \<mapsto> xs @ ys)"
    using store_ok [OF s1(2) r2(2,1), of "length xs" ys] bs(1) by auto
  have "heap_concat junk r first second st = Some s2"
    using x y z load1 s1(1,5) load2 s2(1) by (simp add: heap_concat_def)
  then show ?thesis using s2 s1(3) bs(2) by simp
qed

lemma put_ok:
  assumes st: "heap_ok st" and b: "heap_bytes st b = Some bs" and i: "i < length bs"
  shows "\<exists>st'. heap_put b i v st = Some st' \<and> heap_ok st' \<and> heap_bytes st' = (heap_bytes st)(b \<mapsto> bs[i := v])"
proof -
  obtain x where x: "h_objects st b = Some x" "object_size x = Some (length bs)" using object_defined [OF st b] by blast
  show ?thesis using store_ok [OF st x(1) b, of i "[v]"] x i by (auto simp: heap_put_def upd_conv_take_nth_drop)
qed

lemma at_ok:
  assumes st: "heap_ok st" and b: "heap_bytes st b = Some bs"
  shows "heap_at b i st = buffer_at bs i"
proof (cases "i < length bs")
  case True
  obtain x where x: "h_objects st b = Some x" "object_size x = Some (length bs)" using object_defined [OF st b] by blast
  obtain st' where c: "heap_consume b i st = Some st'" "heap_bytes st' = (heap_bytes st)(b \<mapsto> drop i bs)" "heap_ok st'"
    using consume_ok [OF st b, of i] True by auto
  let ?x = "x\<lparr>o_begin := pointer_add (o_begin x) i\<rparr>"
  have st': "st' = put_object b ?x st" using c(1) x True by (simp add: heap_consume_def)
  have b': "heap_bytes st' b = Some (drop i bs)" using c(2) by simp
  have x': "h_objects st' b = Some ?x" using st' by simp
  then have "object_size ?x = Some (length (drop i bs))" using object_defined [OF c(3) b'] by auto
  from load_prefix [OF b' x' this, of 1] True have l: "load_bytes (pointer_add (o_begin x) i) 1 st' = Some (take 1 (drop i bs))" by simp
  have "load_bytes (pointer_add (o_begin x) i) 1 st = load_bytes (pointer_add (o_begin x) i) 1 st'"
    using x(1) st' by (auto simp: load_bytes_def split: pointer.splits)
  then show ?thesis using l x True by (simp add: heap_at_def buffer_at_def hd_drop_conv_nth)
next
  case False
  obtain x where "h_objects st b = Some x" "object_size x = Some (length bs)" using object_defined [OF st b] by blast
  then show ?thesis using False by (simp add: heap_at_def buffer_at_def)
qed

section \<open>Refinement\<close>

text \<open>
  The operations a user of buffers has, on the objects at the addresses they name, and what they do to
  the bytes that are shown: the functions of the theory \<open>Buffers\<close>.
\<close>

datatype buffer_op =
    New nat
  | New_size nat nat
  | New_data nat bytes
  | Move_new nat nat
  | Move_to nat nat
  | Delete nat
  | Consume_front nat nat
  | Slice_off nat nat nat nat
  | Concat_new nat nat nat
  | Put_byte nat nat byte

fun run_op :: "(nat \<Rightarrow> byte) \<Rightarrow> buffer_op \<Rightarrow> buffer_heap \<Rightarrow> buffer_heap option" where
  "run_op junk (New b) st = Some (buffer_construct junk b st)"
| "run_op junk (New_size b n) st = Some (buffer_construct_size junk b n st)"
| "run_op junk (New_data b bs) st = buffer_construct_data junk b bs st"
| "run_op junk (Move_new b other) st = buffer_move_construct junk b other st"
| "run_op junk (Move_to b other) st = buffer_move_assign junk b other st"
| "run_op junk (Delete b) st = buffer_destruct junk b st"
| "run_op junk (Consume_front b n) st = heap_consume b n st"
| "run_op junk (Slice_off t r b n) st = heap_slice junk t r b n st"
| "run_op junk (Concat_new r first second) st = heap_concat junk r first second st"
| "run_op junk (Put_byte b i v) st = heap_put b i v st"

type_synonym contents = "nat \<Rightarrow> bytes option"

text \<open>Objects that are made are new, objects that are used are live, sizes and indices are in range.\<close>

fun op_allowed :: "buffer_op \<Rightarrow> contents \<Rightarrow> bool" where
  "op_allowed (New b) m \<longleftrightarrow> m b = None"
| "op_allowed (New_size b n) m \<longleftrightarrow> m b = None"
| "op_allowed (New_data b bs) m \<longleftrightarrow> m b = None"
| "op_allowed (Move_new b other) m \<longleftrightarrow> m b = None \<and> m other \<noteq> None"
| "op_allowed (Move_to b other) m \<longleftrightarrow> m b \<noteq> None \<and> m other \<noteq> None"
| "op_allowed (Delete b) m \<longleftrightarrow> m b \<noteq> None"
| "op_allowed (Consume_front b n) m \<longleftrightarrow> (\<exists>bs. m b = Some bs \<and> n \<le> length bs)"
| "op_allowed (Slice_off t r b n) m \<longleftrightarrow>
     m t = None \<and> m r = None \<and> t \<noteq> r \<and> (\<exists>bs. m b = Some bs \<and> n \<le> length bs)"
| "op_allowed (Concat_new r first second) m \<longleftrightarrow> m r = None \<and> m first \<noteq> None \<and> m second \<noteq> None"
| "op_allowed (Put_byte b i v) m \<longleftrightarrow> (\<exists>bs. m b = Some bs \<and> i < length bs)"

fun op_effect :: "buffer_op \<Rightarrow> contents \<Rightarrow> contents \<Rightarrow> bool" where
  "op_effect (New b) m m' \<longleftrightarrow> m' = m(b \<mapsto> [])"
| "op_effect (New_size b n) m m' \<longleftrightarrow> (\<exists>bs. length bs = n \<and> m' = m(b \<mapsto> bs))"
| "op_effect (New_data b bs) m m' \<longleftrightarrow> m' = m(b \<mapsto> bs)"
| "op_effect (Move_new b other) m m' \<longleftrightarrow> m' = m(b := m other, other \<mapsto> [])"
| "op_effect (Move_to b other) m m' \<longleftrightarrow> m' = (if b = other then m else m(b := m other, other \<mapsto> []))"
| "op_effect (Delete b) m m' \<longleftrightarrow> m' = m(b := None)"
| "op_effect (Consume_front b n) m m' \<longleftrightarrow> m' = m(b := buffer_consume (the (m b)) n)"
| "op_effect (Slice_off t r b n) m m' \<longleftrightarrow>
     (\<exists>front rest. buffer_slice (the (m b)) n = Some (front, rest) \<and> m' = m(r \<mapsto> front, b \<mapsto> rest))"
| "op_effect (Concat_new r first second) m m' \<longleftrightarrow> m' = m(r \<mapsto> buffer_concat (the (m first)) (the (m second)))"
| "op_effect (Put_byte b i v) m m' \<longleftrightarrow> m' = m(b \<mapsto> (the (m b))[i := v])"

text \<open>There are fewer live buffers than a count of 32 bits can hold.\<close>

definition few_buffers :: "contents \<Rightarrow> bool" where
  "few_buffers m \<longleftrightarrow> card (dom m) < 2 ^ 32 - 1"

inductive reachable_heap :: "(nat \<Rightarrow> byte) \<Rightarrow> buffer_heap \<Rightarrow> bool" for junk where
  start: "reachable_heap junk empty_heap"
| step: "reachable_heap junk st \<Longrightarrow> op_allowed op (heap_bytes st) \<Longrightarrow> few_buffers (heap_bytes st) \<Longrightarrow>
    run_op junk op st = Some st' \<Longrightarrow> reachable_heap junk st'"

lemma op_refines:
  assumes st: "heap_ok st" and op: "op_allowed op (heap_bytes st)" and few: "few_buffers (heap_bytes st)"
  shows "\<exists>st'. run_op junk op st = Some st' \<and> heap_ok st' \<and> op_effect op (heap_bytes st) (heap_bytes st')"
proof (cases op)
  case (New b)
  then show ?thesis using construct_ok [OF st] op by simp
next
  case (New_size b n)
  then show ?thesis using construct_size_ok [OF st] op by simp
next
  case (New_data b bs)
  then show ?thesis using construct_data_ok [OF st] op by simp
next
  case (Move_new b other)
  then obtain bs where b: "heap_bytes st b = None" "heap_bytes st other = Some bs" using op by auto
  note c = construct_ok [OF st b(1), of junk]
  have "heap_bytes (buffer_construct junk b st) b \<noteq> None" "heap_bytes (buffer_construct junk b st) other = Some bs" "other \<noteq> b"
    using b c(2) by auto
  from move_assign_ok [OF c(1) this, of junk] show ?thesis using Move_new b c(2) by (auto simp: buffer_move_construct_def)
next
  case (Move_to b other)
  then obtain bs where b: "heap_bytes st b \<noteq> None" "heap_bytes st other = Some bs" using op by auto
  show ?thesis
  proof (cases "b = other")
    case True
    then show ?thesis using Move_to st by (simp add: buffer_move_assign_def)
  next
    case False
    then show ?thesis using Move_to move_assign_ok [OF st b, of junk] b by auto
  qed
next
  case (Delete b)
  then show ?thesis using destruct_ok [OF st] op by simp
next
  case (Consume_front b n)
  then obtain bs where "heap_bytes st b = Some bs" "n \<le> length bs" using op by auto
  then show ?thesis using Consume_front consume_ok [OF st] by (auto simp: buffer_consume_def)
next
  case (Slice_off t r b n)
  then obtain bs where bs: "heap_bytes st b = Some bs" "n \<le> length bs" "heap_bytes st r = None" "heap_bytes st t = None" "t \<noteq> r"
    using op by auto
  have "dom (h_objects st) = dom (heap_bytes st)" using heap_bytes_defined [OF st] by auto
  then have "card (dom (h_objects st)) < 2 ^ 32 - 1" using few by (simp add: few_buffers_def)
  then show ?thesis using Slice_off bs slice_ok [OF st bs, of junk] by (auto simp: buffer_slice_eq)
next
  case (Concat_new r first second)
  then show ?thesis using concat_ok [OF st] op by (fastforce simp: buffer_concat_def)
next
  case (Put_byte b i v)
  then show ?thesis using put_ok [OF st] op by auto
qed

lemma empty_heap_ok: "heap_ok empty_heap"
  by (simp add: heap_ok_def empty_heap_def slots_ok_def slots_def)

lemma reachable_heap_ok: "reachable_heap junk st \<Longrightarrow> heap_ok st"
proof (induction rule: reachable_heap.induct)
  case start
  then show ?case by (rule empty_heap_ok)
next
  case (step st op st')
  then show ?case using op_refines [OF step.IH step.hyps(2,3), of junk] by auto
qed

lemma reachable_heap_step:
  assumes "reachable_heap junk st" and "op_allowed op (heap_bytes st)" and "few_buffers (heap_bytes st)"
  shows "\<exists>st'. run_op junk op st = Some st' \<and> reachable_heap junk st' \<and> op_effect op (heap_bytes st) (heap_bytes st')"
  using op_refines [OF reachable_heap_ok [OF assms(1)] assms(2,3), of junk] reachable_heap.step [OF assms] by blast

lemma empty_heap_bytes: "heap_bytes empty_heap = (\<lambda>_. None)"
  by (rule ext) (simp add: heap_bytes_def empty_heap_def)

lemma few_buffers_finite: "dom m \<subseteq> set bs \<Longrightarrow> length bs < 2 ^ 32 - 1 \<Longrightarrow> few_buffers m"
  unfolding few_buffers_def using card_mono [of "set bs" "dom m"] card_length [of bs] by simp

text \<open>A heap with one buffer of thirty bytes, for the witnesses.\<close>

lemma sample_heap: "\<exists>st. reachable_heap junk st \<and> heap_bytes st = [0 \<mapsto> replicate 30 7]"
proof -
  have "few_buffers (heap_bytes empty_heap)" by (rule few_buffers_finite [of _ "[]"]) (simp_all add: empty_heap_bytes)
  then have "\<exists>st. reachable_heap junk st \<and> op_effect (New_data 0 (replicate 30 7)) (heap_bytes empty_heap) (heap_bytes st)"
    using reachable_heap_step [OF reachable_heap.start, of "New_data 0 (replicate 30 7)" junk]
    by (auto simp: empty_heap_bytes)
  then show ?thesis by (simp add: empty_heap_bytes)
qed

section \<open>Properties\<close>

text \<open>
  C12. The buffers implement byte lists: in every state that operations on live buffers lead to, with fewer
  buffers than a 32-bit count can hold, every operation is defined and what it does to the bytes of the
  buffers it names is what the list operation does; it leaves the bytes of every other buffer alone,
  also of those that share the block, and so does a store into a slice.
\<close>

theorem buffer_refinement:
  assumes "reachable_heap junk st" and "op_allowed op (heap_bytes st)" and "few_buffers (heap_bytes st)"
  shows "\<exists>st'. run_op junk op st = Some st' \<and> reachable_heap junk st' \<and>
    op_effect op (heap_bytes st) (heap_bytes st') \<and>
    (\<forall>b i. heap_at b i st' = Option.bind (heap_bytes st' b) (\<lambda>bs. buffer_at bs i))"
proof -
  obtain st' where st': "run_op junk op st = Some st'" "reachable_heap junk st'"
      "op_effect op (heap_bytes st) (heap_bytes st')" using reachable_heap_step [OF assms] by blast
  have "heap_at b i st' = Option.bind (heap_bytes st' b) (\<lambda>bs. buffer_at bs i)" for b i
  proof (cases "heap_bytes st' b")
    case None
    then show ?thesis using heap_bytes_defined [OF reachable_heap_ok [OF st'(2)], of b] by (simp add: heap_at_def)
  next
    case (Some bs)
    then show ?thesis using at_ok [OF reachable_heap_ok [OF st'(2)]] by simp
  qed
  then show ?thesis using st' by blast
qed

theorem buffer_refinement_witness:
  "\<exists>st st'. heap_bytes st = [0 \<mapsto> replicate 30 7] \<and> run_op (\<lambda>_. 0) (Slice_off 2 1 0 25) st = Some st' \<and>
    heap_bytes st' = [1 \<mapsto> replicate 25 7, 0 \<mapsto> replicate 5 7]"
proof -
  obtain st where st: "reachable_heap (\<lambda>_. 0) st" "heap_bytes st = [0 \<mapsto> replicate 30 7]" using sample_heap by blast
  have "few_buffers (heap_bytes st)" using st(2) by (intro few_buffers_finite [of _ "[0]"]) simp_all
  then obtain st' where "run_op (\<lambda>_. 0) (Slice_off 2 1 0 25) st = Some st'"
      "op_effect (Slice_off 2 1 0 25) (heap_bytes st) (heap_bytes st')"
    using buffer_refinement [OF st(1), of "Slice_off 2 1 0 25"] st(2) by auto
  then have "run_op (\<lambda>_. 0) (Slice_off 2 1 0 25) st = Some st' \<and> heap_bytes st' = [1 \<mapsto> replicate 25 7, 0 \<mapsto> replicate 5 7]"
    using st(2) by (simp add: buffer_slice_eq)
  then show ?thesis using st(2) by blast
qed

text \<open>
  C20. Blocks are counted: the count of a block is the number of live buffers that hold a part of it, the
  parts are disjoint, and a block is gone with the last of them, so that no block is left when no buffer
  is.
\<close>

theorem blocks_counted:
  assumes "reachable_heap junk st"
  shows "(h_blocks st k = Some blk \<longrightarrow>
      0 < unat (b_count blk) \<and> unat (b_count blk) = card {b. \<exists>x i j. h_objects st b = Some x \<and> slot x = Some (k, i, j)}) \<and>
    (b \<noteq> b' \<longrightarrow> h_objects st b = Some x \<longrightarrow> h_objects st b' = Some x' \<longrightarrow> slot x = Some (k, i, j) \<longrightarrow>
      slot x' = Some (k, i', j') \<longrightarrow> {i..<j} \<inter> {i'..<j'} = {}) \<and>
    (heap_bytes st = (\<lambda>_. None) \<longrightarrow> h_blocks st = (\<lambda>_. None))"
proof -
  note ok = reachable_heap_ok [OF assms]
  note s = heap_okD(4) [OF ok]
  have own: "owners (slots st) l = {b. \<exists>x i j. h_objects st b = Some x \<and> slot x = Some (l, i, j)}" for l
    by (auto simp: owners_def slots_def split: option.splits)
  have 1: "0 < unat (b_count blk) \<and> unat (b_count blk) = card {b. \<exists>x i j. h_objects st b = Some x \<and> slot x = Some (k, i, j)}"
    if "h_blocks st k = Some blk"
    using slots_okD(2) [OF s that] owners_finite [OF heap_okD(5) [OF ok], of k] card_gt_0_iff own [of k] by metis
  have 2: "{i..<j} \<inter> {i'..<j'} = {}" if "b \<noteq> b'" "h_objects st b = Some x" "h_objects st b' = Some x'"
      "slot x = Some (k, i, j)" "slot x' = Some (k, i', j')"
    using slots_okD(3) [OF s that(1), of k i j i' j'] that by (auto simp: slots_def)
  have 3: "h_blocks st l = None" if "heap_bytes st = (\<lambda>_. None)" for l
  proof (rule ccontr)
    assume "h_blocks st l \<noteq> None"
    then obtain b x where "h_objects st b = Some x" using slots_okD(2) [OF s, of l] own [of l] by auto
    then show False using heap_bytes_defined [OF ok, of b] that by simp
  qed
  show ?thesis using 1 2 3 by blast
qed

theorem blocks_counted_witness:
  "\<exists>st. heap_bytes st = [0 \<mapsto> replicate 30 7] \<and> (heap_bytes st = (\<lambda>_. None) \<longrightarrow> h_blocks st = (\<lambda>_. None))"
proof -
  obtain st where st: "reachable_heap (\<lambda>_. 0) st" "heap_bytes st = [0 \<mapsto> replicate 30 7]" using sample_heap by blast
  then show ?thesis using blocks_counted [OF st(1)] by blast
qed

end
