(* ===== verification/Huffman_Long.thy ===== *)
theory Huffman_Long
  imports Literal
begin

text \<open>
  What the Huffman encoder does with codes of more than sixteen bits (\<open>symbol_encode\<close> of
  \<open>huffman/encode.cpp\<close>) when sixteen or twenty-four bits are left after the first byte.
\<close>

section \<open>Codes that go on for sixteen or twenty-four bits\<close>

text \<open>
  Here the store in the middle shifts by all the \<open>k\<close> bits that are left, instead of \<open>k - 8\<close>: it stores once
  more the bits that went into the first byte.
\<close>

lemma byte_bits_eq_iff [simp]: "byte_bits a = byte_bits b \<longleftrightarrow> a = b"
  using byte_bits_inj by blast

lemma store_next3:
  "mem_store (A @ c # d # e # f # post) (Suc (Suc (Suc (length A)))) [b] = Some (A @ c # d # e # b # post)"
  using mem_store_append [of "Suc (Suc (Suc (length A)))" "A @ [c, d, e]" "[b]" "f # post"] by simp

lemma symbol_encode_long:
  assumes "pending r p tail" and "code < 2 ^ (r + k)" and "k = 16 \<or> k = 24" and "r + k \<le> 31"
    and "length p + (r + k) \<le> 8 * length tail"
  shows "\<exists>W tail'. symbol_encode (A @ tail) (length A) r (code, r + k) = Some (length W, 8, A @ W @ tail') \<and>
    length W + length tail' = length tail \<and> length W = 1 + k div 8 \<and> W ! 1 = ucast (drop_bit k code) \<and>
    (bits_of W = p @ code_bits (code, r + k) \<longleftrightarrow>
      W ! 1 = ucast (drop_bit (k - 8) code) \<and> (k = 24 \<longrightarrow> W ! 2 = ucast (drop_bit (k - 16) code)))"
proof -
  obtain c post where tail: "tail = c # post" using assms(3,5) by (cases tail) auto
  define cur where "cur = (if r = 8 then 0 else c)"
  have cur: "byte_bits cur = p @ replicate r False" and p: "length p = 8 - r" and r: "r \<le> 8" "1 \<le> r"
    using assms(1) tail by (auto simp: pending_def cur_def byte_bits_0)
  let ?b = "cur OR ucast (drop_bit k code)" and ?u = "\<lambda>i. ucast (drop_bit i code) :: byte"
  have head: "byte_bits ?b = p @ code_bits (drop_bit k code, r)"
    using packed_head [OF cur p r(1), of code "r + k"] assms(2-4) r by auto
  have all: "p @ code_bits (code, r + k) = byte_bits ?b @ code_bits (code, k)"
    using code_bits_split [of k "r + k" code] by (simp add: head)
  have start: "(if r = 8 then mem_store (A @ c # post) (length A) [0] else Some (A @ c # post)) = Some (A @ cur # post)"
    by (simp add: cur_def store_at)
  have low: "byte_bits (?u i) @ code_bits (code, i) = code_bits (code, 8 + i)" for i
    using code_bits_split [of i "8 + i" code] by (simp add: byte_bits_ucast)
  have last: "byte_bits (ucast code) = code_bits (code, 8)" by (simp add: byte_bits_ucast)
  show ?thesis
  proof (cases "k = 16")
    case True
    then obtain d e post' where post: "post = d # e # post'"
      using assms(5) tail p r by (cases post; cases "tl post") auto
    have "symbol_encode (A @ tail) (length A) r (code, r + k) = Some (3, 8, A @ [?b, ?u 16, ucast code] @ post')"
      unfolding symbol_encode_def Let_def fst_conv snd_conv tail start
      using True by (simp add: or_at post symbol_loop_more symbol_loop_stop store_next store_next2)
    moreover have "code_bits (code, 16) = byte_bits (?u 8) @ byte_bits (ucast code)" using low [of 8] last by simp
    ultimately show ?thesis using True all tail post
      by (intro exI [of _ "[?b, ?u 16, ucast code]"] exI [of _ post']) auto
  next
    case False
    then have k: "k = 24" using assms(3) by simp
    then obtain d e f post' where post: "post = d # e # f # post'"
      using assms(5) tail p r by (cases post; cases "tl post"; cases "tl (tl post)") auto
    have "symbol_encode (A @ tail) (length A) r (code, r + k) = Some (4, 8, A @ [?b, ?u 24, ?u 16, ucast code] @ post')"
      unfolding symbol_encode_def Let_def fst_conv snd_conv tail start
      using k by (simp add: or_at post symbol_loop_more symbol_loop_stop store_next store_next2 store_next3)
    moreover have "code_bits (code, 24) = byte_bits (?u 16) @ byte_bits (?u 8) @ byte_bits (ucast code)"
      using low [of 8] low [of 16] last by simp
    ultimately show ?thesis using k all tail post
      by (intro exI [of _ "[?b, ?u 24, ?u 16, ucast code]"] exI [of _ post']) auto
  qed
qed

text \<open>
  What the table has to do with it: below bit \<open>k\<close> a code has a one, and the repeated bits are less than a byte
  unless the code has twenty-four bits, which start with sixteen ones.
\<close>

lemmas encoding_rows =
  encoding_rows_0_def encoding_rows_16_def encoding_rows_32_def encoding_rows_48_def encoding_rows_64_def
  encoding_rows_80_def encoding_rows_96_def encoding_rows_112_def encoding_rows_128_def encoding_rows_144_def
  encoding_rows_160_def encoding_rows_176_def encoding_rows_192_def encoding_rows_208_def
  encoding_rows_224_def encoding_rows_240_def encoding_rows_256_def

definition long_code :: "symbol \<Rightarrow> bool" where
  "long_code s \<longleftrightarrow>
     (16 < snd s \<and> snd s \<le> 24 \<longrightarrow> bit (fst s) 15) \<and> (24 < snd s \<longrightarrow> bit (fst s) 23) \<and>
     (snd s = 24 \<longrightarrow> (ucast (drop_bit 16 (fst s)) :: byte) = ucast (drop_bit 8 (fst s)))"

lemma encoding_table_all: "\<forall>r \<in> set encoding_chunks. list_all P r \<Longrightarrow> P (symbol_for c)"
proof -
  assume a: "\<forall>r \<in> set encoding_chunks. list_all P r"
  have "length encoding_table = 257"
    by (simp add: encoding_table_def encoding_chunks_def encoding_rows)
  moreover have "unat (byte_of_char c) < 256" using unsigned_less [of "byte_of_char c"] by simp
  ultimately have "symbol_for c \<in> set encoding_table" unfolding symbol_for_def by (intro nth_mem) simp
  then show ?thesis using a by (auto simp: encoding_table_def list_all_iff)
qed

lemma symbol_for_long: "long_code (symbol_for c)"
  by (rule encoding_table_all)
    (simp add: encoding_chunks_def long_code_def encoding_rows bit_simps drop_bit_eq_div)

lemma word_bit_high:
  assumes "(w :: uint32) < 2 ^ n" "n \<le> 31" "n \<le> m"
  shows "\<not> bit w m"
proof -
  have "drop_bit n w = 0" using drop_bit_less [of w n n] assms by (simp add: word_less_nat_alt unat_eq_0)
  then have "\<not> bit (drop_bit n w) (m - n)" by simp
  then show ?thesis using assms(3) by (simp add: bit_drop_bit_eq)
qed

lemma long_code_repeated:
  assumes "symbol_for c = (code, r + k)" and "1 \<le> r" "r \<le> 8" and "k = 16 \<or> k = 24"
  shows "(ucast (drop_bit k code) :: byte) = ucast (drop_bit (k - 8) code) \<longleftrightarrow> r = 8 \<and> k = 16"
proof (cases "r = 8 \<and> k = 16")
  case True
  then show ?thesis using symbol_for_long [of c] assms(1) by (simp add: long_code_def)
next
  case False
  have n: "code < 2 ^ (r + k)" "r + k \<le> 30" using symbol_for_ok [of c] assms(1) by (simp_all add: symbol_ok_def)
  then have "r < 8" using False assms(3,4) by auto
  then have "\<not> bit (ucast (drop_bit k code) :: byte) 7" using word_bit_high [OF n(1), of "k + 7"] n(2)
    by (simp add: bit_ucast_iff bit_drop_bit_eq)
  moreover have "bit (ucast (drop_bit (k - 8) code) :: byte) 7"
    using symbol_for_long [of c] assms \<open>r < 8\<close> by (auto simp: long_code_def bit_ucast_iff bit_drop_bit_eq)
  ultimately show ?thesis using False by auto
qed

text \<open>One such character, at the place where a string has brought the encoder.\<close>

lemma symbol_encode_long_char:
  assumes "pending r p tail" and "k = 16 \<or> k = 24" and "length (char_code c) = r + k"
    and "length p + (r + k) \<le> 8 * length tail"
  shows "\<exists>W tail'. symbol_encode (A @ tail) (length A) r (symbol_for c) = Some (length W, 8, A @ W @ tail') \<and>
    length W + length tail' = length tail \<and> length W = 1 + k div 8 \<and> W ! 1 = ucast (drop_bit k (fst (symbol_for c))) \<and>
    (bits_of W = p @ char_code c \<longleftrightarrow> r = 8)"
proof -
  obtain code where s: "symbol_for c = (code, r + k)"
    using assms(3) by (cases "symbol_for c") (simp add: char_code_eq length_code_bits)
  have n: "code < 2 ^ (r + k)" "r + k \<le> 31" using symbol_for_ok [of c] s by (simp_all add: symbol_ok_def)
  have r: "1 \<le> r" "r \<le> 8" using assms(1) by (auto simp: pending_def)
  obtain W tail' where W: "symbol_encode (A @ tail) (length A) r (code, r + k) = Some (length W, 8, A @ W @ tail')"
      "length W + length tail' = length tail" "length W = 1 + k div 8" "W ! 1 = ucast (drop_bit k code)"
      "bits_of W = p @ code_bits (code, r + k) \<longleftrightarrow>
        W ! 1 = ucast (drop_bit (k - 8) code) \<and> (k = 24 \<longrightarrow> W ! 2 = ucast (drop_bit (k - 16) code))"
    using symbol_encode_long [OF assms(1) n(1) assms(2) n(2) assms(4), of A] by blast
  have "r = 8 \<Longrightarrow> k = 16" using assms(2) symbol_for_ok [of c] s by (auto simp: symbol_ok_def)
  then have "bits_of W = p @ char_code c \<longleftrightarrow> r = 8"
    using W(4,5) long_code_repeated [OF s r assms(2)] assms(2) by (auto simp: char_code_eq s)
  then show ?thesis unfolding s fst_conv by (intro exI [of _ W] exI [of _ tail'] conjI W(1-4))
qed

lemma huffman_encode_loop_append:
  "huffman_encode_loop (s @ t) dest r mem =
     do { (dest, r, mem) \<leftarrow> huffman_encode_loop s dest r mem; huffman_encode_loop t dest r mem }"
  by (induction s arbitrary: dest r mem) (auto split: Option.bind_splits)

lemma bytes_div: "(8 * n + m) div 8 = n + m div (8 :: nat)"
  by simp

lemma append_middle: "length xs = length ys \<Longrightarrow> as @ xs @ bs = as @ ys @ cs \<longleftrightarrow> xs = ys \<and> bs = cs"
  by simp

text \<open>The whole of a string with one such character.\<close>

lemma huffman_encode_long:
  assumes short: "\<forall>d \<in> set (s @ t). short_code d" and k: "k = 16 \<or> k = 24"
    and c: "length (char_code c) = 8 - length (string_bits s) mod 8 + k"
  shows "\<exists>encoded A p W j. huffman_encode_buffer junk (s @ c # t) = Some encoded \<and>
    bits_of encoded = bits_of A @ bits_of W @ string_bits t @ replicate j True \<and> j < 8 \<and>
    take (length A + length W) encoded = A @ W \<and> length A = length (string_bits s) div 8 \<and>
    bits_of A @ p = string_bits s \<and> 8 * length W = length (p @ char_code c) \<and>
    W ! 1 = ucast (drop_bit k (fst (symbol_for c))) \<and> 1 < length W \<and>
    (bits_of W = p @ char_code c \<longleftrightarrow> length (string_bits s) mod 8 = 0)"
proof -
  let ?n = "huffman_encoded_size (s @ c # t)" and ?l = "length (string_bits s)"
  let ?m = "fresh_memory junk ?n"
  have size: "?n = (?l + length (char_code c) + length (string_bits t) + 7) div 8"
    by (simp add: huffman_encoded_size_eq string_bits_def add.assoc)
  have init: "pending 8 [] ?m" by (simp add: pending_def)
  have "length ([] :: bool list) + ?l \<le> 8 * length ?m" using size by simp
  from huffman_encode_loop_eq [OF init _ this, of "[]"] short
  obtain A r p tail where A: "huffman_encode_loop s 0 8 ?m = Some (length A, r, A @ tail)" "pending r p tail"
      "bits_of A @ p = string_bits s" "length A + length tail = ?n" by auto
  have lens: "8 * length A + length p = ?l" using arg_cong [OF A(3), of length] by simp
  have p: "length p = 8 - r" "1 \<le> r" "r \<le> 8" using A(2) by (auto simp: pending_def)
  then have "length p < 8" by simp
  then have div: "length A = ?l div 8" "length p = ?l mod 8" by (simp_all flip: lens)
  have r: "r = 8 - ?l mod 8" using p div by simp
  have c': "length (char_code c) = r + k" using c r by simp
  have room: "length p + (r + k) \<le> 8 * length tail" using size A(4) lens c' by simp
  obtain W tail1 where W: "symbol_encode (A @ tail) (length A) r (symbol_for c) = Some (length W, 8, A @ W @ tail1)"
      "length W + length tail1 = length tail" "length W = 1 + k div 8" "W ! 1 = ucast (drop_bit k (fst (symbol_for c)))"
      "bits_of W = p @ char_code c \<longleftrightarrow> r = 8"
    using symbol_encode_long_char [OF A(2) k c' room, of A] by blast
  have lenW: "8 * length W = length (p @ char_code c)" using W(3) p c' k by auto
  have init1: "pending 8 [] tail1" by (simp add: pending_def)
  have "length ([] :: bool list) + length (string_bits t) \<le> 8 * length tail1"
    using size A(4) W(2) lens lenW by simp
  from huffman_encode_loop_eq [OF init1 _ this, of "A @ W"] short
  obtain V r2 q tail2 where V: "huffman_encode_loop t (length A + length W) 8 (A @ W @ tail1) =
        Some (length A + length W + length V, r2, A @ W @ V @ tail2)"
      "pending r2 q tail2" "bits_of V @ q = string_bits t" "length V + length tail2 = length tail1" by auto
  have loop: "huffman_encode_loop (s @ c # t) 0 8 ?m = Some (length A + length W + length V, r2, A @ W @ V @ tail2)"
    using A(1) W(1) V(1) by (simp add: huffman_encode_loop_append)
  have lenV: "8 * length V + length q = length (string_bits t)" using arg_cong [OF V(3), of length] by simp
  have q: "length q = 8 - r2" "1 \<le> r2" "r2 \<le> 8" using V(2) by (auto simp: pending_def)
  have total: "8 * (length A + length W + length V) + length q = ?l + length (char_code c) + length (string_bits t)"
    using lens lenW lenV by simp
  have "length A + length W + length V + length tail2 = (8 * (length A + length W + length V) + (length q + 7)) div 8"
    using size total A(4) W(2) V(4) by simp
  then have left: "length tail2 = (length q + 7) div 8" unfolding bytes_div by simp
  obtain encoded j where e: "huffman_encode_buffer junk (s @ c # t) = Some encoded"
      "bits_of encoded = bits_of (A @ W @ V) @ q @ replicate j True" "j < 8" "take (length A + length W) encoded = A @ W"
  proof (cases "r2 = 8")
    case True
    then have "q = []" "tail2 = []" using q left by simp_all
    then show thesis using that [of "A @ W @ V" 0] loop True by (simp add: huffman_encode_buffer_def huffman_encode_def)
  next
    case False
    then obtain x post where x: "tail2 = x # post" "byte_bits x = q @ replicate r2 False" "r2 < 8"
      using V(2) by (auto simp: pending_def)
    have "length tail2 \<le> 1" using q left by simp
    then have "post = []" using x(1) by simp
    then have "huffman_encode_buffer junk (s @ c # t) = Some (A @ W @ V @ [x OR ucast (drop_bit (30 - r2) (0x3fffffff :: uint32))])"
      using loop x or_at [of "A @ W @ V" x "[]"]
      by (simp add: huffman_encode_buffer_def huffman_encode_def encoding_rules add.assoc)
    then show thesis using that padding_bits [OF x(2) q(1,3)] x(3) by simp
  qed
  have "bits_of encoded = bits_of A @ bits_of W @ string_bits t @ replicate j True"
    using e(2) V(3) by (simp flip: append_assoc) (simp add: V(3))
  moreover have "bits_of W = p @ char_code c \<longleftrightarrow> ?l mod 8 = 0" using W(5) p(1,3) div(2) by auto
  moreover have "1 < length W" using W(3) k by auto
  ultimately show ?thesis using e(1,3,4) div(1) A(3) lenW W(4)
    by (intro exI [of _ encoded] exI [of _ A] exI [of _ p] exI [of _ W] exI [of _ j] conjI)
qed

section \<open>Property\<close>

text \<open>
  C38. The encoder stores a wrong byte in the middle of a code whenever 16 or 24 of its bits are left after the
  first byte: it shifts by the number of bits left instead of eight less, so the second byte repeats what went
  into the first one. A string with such a character, among any others with codes it gets right, does not
  decode to itself, except where the code starts with a byte: then the code has twenty-four bits, its first
  two bytes are the same, and the result is right.
\<close>

theorem huffman_encode_wrong_byte:
  assumes "\<forall>d \<in> set (s @ t). short_code d" and "k = 16 \<or> k = 24"
    and "length (char_code c) = 8 - length (string_bits s) mod 8 + k"
  shows "\<exists>encoded. huffman_encode_buffer junk (s @ c # t) = Some encoded \<and>
    length encoded = huffman_encoded_size (s @ c # t) \<and>
    encoded ! Suc (length (string_bits s) div 8) = ucast (drop_bit k (fst (symbol_for c))) \<and>
    (fst (huffman_decode (Buffer_seq encoded) (length encoded)) = Ok (s @ c # t) \<longleftrightarrow> length (string_bits s) mod 8 = 0)"
proof -
  obtain encoded A p W j where e: "huffman_encode_buffer junk (s @ c # t) = Some encoded"
      "bits_of encoded = bits_of A @ bits_of W @ string_bits t @ replicate j True" "j < 8"
      "take (length A + length W) encoded = A @ W" "length A = length (string_bits s) div 8"
      "bits_of A @ p = string_bits s" "8 * length W = length (p @ char_code c)"
      "W ! 1 = ucast (drop_bit k (fst (symbol_for c)))" "1 < length W"
      "bits_of W = p @ char_code c \<longleftrightarrow> length (string_bits s) mod 8 = 0"
    using huffman_encode_long [OF assms, of junk] by (elim exE conjE) (rule that, assumption+)
  have bits: "string_bits (s @ c # t) @ xs = bits_of A @ (p @ char_code c) @ string_bits t @ xs" for xs
    using e(6) by (simp add: string_bits_def flip: append_assoc)
  have len: "8 * length encoded = length (string_bits (s @ c # t)) + j"
    using arg_cong [OF e(2), of length] e(7) bits [of "[]"] by simp
  have "fst (huffman_decode (Buffer_seq encoded) (length encoded)) = Ok (s @ c # t) \<longleftrightarrow> huffman_spec encoded = Some (s @ c # t)"
    by (simp add: huffman_decode_eq split: option.split)
  also have "\<dots> \<longleftrightarrow> (\<exists>i < 8. bits_of encoded = string_bits (s @ c # t) @ replicate i True)"
    using len by (auto simp: huffman_spec_iff_string)
  also have "\<dots> \<longleftrightarrow> bits_of W = p @ char_code c"
  proof -
    have "length (bits_of W) = length (p @ char_code c)" using e(7) by simp
    from append_middle [OF this] show ?thesis unfolding e(2) bits using e(3) by auto
  qed
  finally have "fst (huffman_decode (Buffer_seq encoded) (length encoded)) = Ok (s @ c # t) \<longleftrightarrow>
      length (string_bits s) mod 8 = 0" using e(10) by simp
  moreover have "length encoded = huffman_encoded_size (s @ c # t)"
    using len e(3) by (simp add: huffman_encoded_size_eq)
  moreover have "encoded ! Suc (length A) = (A @ W) ! Suc (length A)" unfolding e(4) [symmetric] using e(9) by simp
  then have "encoded ! Suc (length (string_bits s) div 8) = ucast (drop_bit k (fst (symbol_for c)))"
    unfolding e(5) [symmetric] e(8) [symmetric] by (simp add: nth_append)
  ultimately show ?thesis using e(1) by (intro exI [of _ encoded] conjI)
qed

text \<open>Nine zeros and a backslash, with sixteen bits left; two zeros and a line feed, with twenty-four.\<close>

theorem huffman_encode_wrong_byte_witness:
  "(\<exists>encoded. huffman_encode_buffer (\<lambda>_. 0) (''000000000'' @ CHR 0x5c # []) = Some encoded \<and>
     encoded ! 6 = 7 \<and>
     fst (huffman_decode (Buffer_seq encoded) (length encoded)) \<noteq> Ok (''000000000'' @ CHR 0x5c # [])) \<and>
   (\<exists>encoded. huffman_encode_buffer (\<lambda>_. 0) (''00'' @ CHR 0x0a # ''0'') = Some encoded \<and>
     encoded ! 2 = 0x3f \<and>
     fst (huffman_decode (Buffer_seq encoded) (length encoded)) \<noteq> Ok (''00'' @ CHR 0x0a # ''0''))"
proof -
  have zero: "symbol_for (CHR ''0'') = (0, 5)" "symbol_for (CHR 0x5c) = (0x7fff0, 19)" "symbol_for (CHR 0x0a) = (0x3ffffffc, 30)"
    by (simp_all add: symbol_for_def byte_of_char_def encoding_rules)
  then have lens: "length (char_code CHR ''0'') = 5" "length (char_code CHR 0x5c) = 19" "length (char_code CHR 0x0a) = 30"
    by (simp_all add: char_code_eq length_code_bits)
  let ?a = "''000000000'' @ CHR 0x5c # []" and ?b = "''00'' @ CHR 0x0a # ''0''"
  have "\<exists>encoded. huffman_encode_buffer (\<lambda>_. 0) ?a = Some encoded \<and> length encoded = huffman_encoded_size ?a \<and>
      encoded ! 6 = 7 \<and> (fst (huffman_decode (Buffer_seq encoded) (length encoded)) = Ok ?a \<longleftrightarrow> False)"
    using huffman_encode_wrong_byte [of "''000000000''" "[]" 16 "CHR 0x5c" "\<lambda>_. 0"]
    by (simp add: short_code_def zero lens)
  moreover have "\<exists>encoded. huffman_encode_buffer (\<lambda>_. 0) ?b = Some encoded \<and> length encoded = huffman_encoded_size ?b \<and>
      encoded ! Suc (Suc 0) = 0x3f \<and> (fst (huffman_decode (Buffer_seq encoded) (length encoded)) = Ok ?b \<longleftrightarrow> False)"
    using huffman_encode_wrong_byte [of "''00''" "''0''" 24 "CHR 0x0a" "\<lambda>_. 0"]
    by (simp add: short_code_def zero lens)
  ultimately show ?thesis unfolding numeral_2_eq_2 by blast
qed

end
