(* ===== verification/Interop.thy ===== *)
theory Interop
  imports Headers_Codec Events
begin

text \<open>
  The two QPACK interop tools (\<open>app/qpack/qpack-interop-encode.cpp\<close>, \<open>qpack-interop-decode.cpp\<close>): one turns
  a text of header lists into numbered and sized blocks, the other turns the blocks back into text.
  The input file is a string that was read, the output file the bytes written so far, and the result the
  exit code: \<open>Err 1\<close> is \<open>return 1\<close>.
\<close>

section \<open>qpack-interop-encode.cpp\<close>

definition id_encode :: "uint64 \<Rightarrow> bytes" where
  "id_encode i =
     [ucast (drop_bit 56 i), ucast (drop_bit 48 i), ucast (drop_bit 40 i), ucast (drop_bit 32 i),
      ucast (drop_bit 24 i), ucast (drop_bit 16 i), ucast (drop_bit 8 i), ucast (drop_bit 0 i)]"

definition size_encode :: "uint32 \<Rightarrow> bytes" where
  "size_encode n =
     [ucast (drop_bit 24 n), ucast (drop_bit 16 n), ucast (drop_bit 8 n), ucast (drop_bit 0 n)]"

fun encode_headers ::
  "(string \<Rightarrow> uint64) \<Rightarrow> (nat \<Rightarrow> byte) \<Rightarrow> header list \<Rightarrow> bytes list \<Rightarrow> qpack_encoder \<Rightarrow>
   (bytes list, error) result \<times> qpack_encoder" where
  "encode_headers xxh junk [] queue qpack = (Ok queue, qpack)"
| "encode_headers xxh junk (h # hs) queue qpack =
     try_state (qpack_encode_buffer xxh junk qpack h) (\<lambda>b qpack.
     encode_headers xxh junk hs (queue @ [b]) qpack)"

text \<open>A size that does not fit its 32 bits is reported, and written all the same.\<close>

definition interop_encode ::
  "(string \<Rightarrow> uint64) \<Rightarrow> (nat \<Rightarrow> byte) \<Rightarrow> uint64 \<Rightarrow> header list \<Rightarrow> bytes \<Rightarrow> (unit, error) result \<times> bytes" where
  "interop_encode xxh junk i headers dest =
     (case encode_headers xxh junk headers [] new_qpack_encoder of
        (Ok queue, qpack) \<Rightarrow>
          (Ok (), dest @ id_encode i @ size_encode (ucast (qe_count qpack)) @ concat queue)
      | (Err e, _) \<Rightarrow> (Err e, dest)
      | (Fault, _) \<Rightarrow> (Fault, dest))"

definition newline :: char where "newline = CHR 0x0a"
definition tab :: char where "tab = CHR 0x09"

text \<open>\<open>std::getline\<close>: what comes before the next newline, unless nothing is left to read.\<close>

function get_lines :: "string \<Rightarrow> string list" where
  "get_lines input =
     (if input = [] then []
      else takeWhile (\<lambda>c. c \<noteq> newline) input #
        get_lines (drop (Suc (length (takeWhile (\<lambda>c. c \<noteq> newline) input))) input))"
  by pat_completeness auto
termination by (relation "measure length") auto

definition find_char :: "char \<Rightarrow> string \<Rightarrow> nat option" where
  "find_char c line = (if c \<in> set line then Some (length (takeWhile (\<lambda>d. d \<noteq> c) line)) else None)"

text \<open>One turn of the loop over the lines, on the next id, the headers of the list so far and the output.\<close>

type_synonym encode_state = "uint64 \<times> header list \<times> bytes"

definition encode_line ::
  "(string \<Rightarrow> uint64) \<Rightarrow> (nat \<Rightarrow> byte) \<Rightarrow> string \<Rightarrow> encode_state \<Rightarrow> (unit, int) result \<times> encode_state" where
  "encode_line xxh junk line st =
     (case st of (i, headers, dest) \<Rightarrow>
        if line = [] then
          if headers = [] then (Ok (), i, headers, dest)
          else (case interop_encode xxh junk i headers dest of
              (Ok _, dest) \<Rightarrow> (Ok (), i + 1, [], dest)
            | (Err _, dest) \<Rightarrow> (Err 1, i, headers, dest)
            | (Fault, dest) \<Rightarrow> (Fault, i, headers, dest))
        else if hd line = CHR ''#'' then (Ok (), i, headers, dest)
        else (case find_char tab line of
            None \<Rightarrow> (Err 1, i, headers, dest)
          | Some n \<Rightarrow> (Ok (), i, headers @ [make_header (take n line) (drop (n + 1) line)], dest)))"

fun encode_lines ::
  "(string \<Rightarrow> uint64) \<Rightarrow> (nat \<Rightarrow> byte) \<Rightarrow> string list \<Rightarrow> encode_state \<Rightarrow> (unit, int) result \<times> encode_state" where
  "encode_lines xxh junk [] st = (Ok (), st)"
| "encode_lines xxh junk (line # lines) st =
     try_state (encode_line xxh junk line st) (\<lambda>_ st. encode_lines xxh junk lines st)"

definition interop_encode_main :: "(string \<Rightarrow> uint64) \<Rightarrow> (nat \<Rightarrow> byte) \<Rightarrow> string \<Rightarrow> (unit, int) result \<times> bytes" where
  "interop_encode_main xxh junk input =
     on_member (\<lambda>(_, _, dest). dest) (encode_lines xxh junk (get_lines input) (1, [], []))"

section \<open>Decoding one header makes progress\<close>

definition strict :: "(sequence \<Rightarrow> ('a, error) result \<times> sequence) \<Rightarrow> bool" where
  "strict D \<longleftrightarrow>
     (\<forall>l v l'. lookahead_ok l \<longrightarrow> D l = (Ok v, l') \<longrightarrow> length (seq_bytes l') < length (seq_bytes l))"

lemma strictD:
  "strict D \<Longrightarrow> lookahead_ok l \<Longrightarrow> D l = (Ok v, l') \<Longrightarrow> length (seq_bytes l') < length (seq_bytes l)"
  by (simp add: strict_def)

lemma strict_try:
  assumes D: "strict D" "moves D E" and K: "\<And>v. moves (K v) E"
  shows "strict (\<lambda>l. try_state (D l) K)"
  unfolding strict_def
proof (intro allI impI)
  fix l v l'
  assume l: "lookahead_ok l" and run: "try_state (D l) K = (Ok v, l')"
  obtain r n where r: "D l = (r, seq_drop l n)" using movesD [OF D(2) l] by blast
  then obtain u where u: "r = Ok u" using run by (cases r) simp_all
  obtain r' m where r': "K u (seq_drop l n) = (r', seq_drop (seq_drop l n) m)" "m \<le> length (seq_bytes (seq_drop l n))"
    using movesD [OF K, of "seq_drop l n" u] l by auto
  have "length (seq_bytes (seq_drop l n)) < length (seq_bytes l)" using strictD [OF D(1) l] r u by simp
  moreover have "l' = seq_drop (seq_drop l n) m" using run r u r' by simp
  then have "length (seq_bytes l') \<le> length (seq_bytes (seq_drop l n))" using r'(2) l by simp
  ultimately show "length (seq_bytes l') < length (seq_bytes l)" by simp
qed

lemma strict_if: "strict D \<Longrightarrow> strict D' \<Longrightarrow> strict (\<lambda>l. if P l then D l else D' l)"
  by (simp add: strict_def)

lemma strict_fails: "(\<And>v l. fst (D l) \<noteq> Ok v) \<Longrightarrow> strict D"
  by (auto simp: strict_def dest: arg_cong [where f = fst])

lemma strict_at:
  assumes "\<And>b. strict (D b)"
  shows "strict (\<lambda>l. if P l then (Err e, l) else try_in l (or_fault (seq_at l 0)) (\<lambda>b. D b l))"
  using assms by (auto simp: strict_def try_in_def or_fault_def split: option.splits)

lemma strict_commit:
  assumes D: "strict D" "moves D E"
  shows "strict (commit D)"
  unfolding strict_def
proof (intro allI impI)
  fix l v l'
  assume l: "lookahead_ok l" and run: "commit D l = (Ok v, l')"
  then have la: "lookahead_ok (seq_lookahead l)" by simp
  obtain r n where r: "D (seq_lookahead l) = (r, seq_drop (seq_lookahead l) n)" "n \<le> length (seq_bytes l)"
    using movesD [OF D(2) la] l by auto
  then obtain u where u: "r = Ok u" using run by (cases r) (simp_all add: commit_def)
  have "length (seq_bytes (seq_drop (seq_lookahead l) n)) < length (seq_bytes l)"
    using strictD [OF D(1) la] r(1) u l by fastforce
  then show "length (seq_bytes l') < length (seq_bytes l)"
    using run r u l by (auto simp: commit_def seq_consume_eq)
qed

lemma strict_prefix_int: "strict (\<lambda>l. prefix_int_decode l p)"
proof -
  have moves: "moves prefix_uint8_decode {Incomplete}" by (rule moves_uint8) simp
  have "strict prefix_uint8_decode"
    unfolding strict_def
  proof (intro allI impI)
    fix l v l'
    assume l: "lookahead_ok l" and run: "prefix_uint8_decode l = (Ok v, l')"
    then have "seq_ok l'" using movesD [OF moves l] by auto
    then show "length (seq_bytes l') < length (seq_bytes l)" using prefix_uint8_shrinks [OF run] l by simp
  qed
  then have "strict (\<lambda>l. try_state (prefix_uint8_decode l) (\<lambda>b l.
      let result = ucast b AND ucast (prefix_max p) in
      try_state (if result \<ge> ucast (prefix_max p) then prefix_int_decode_loop result 0 l else (Ok result, l))
        (\<lambda>v l. (Ok v, l))))"
    unfolding Let_def
    by (rule strict_try [OF _ moves]) (intro moves_try moves_if moves_prefix_loop moves_return; simp)
  then show ?thesis unfolding strict_def using prefix_int_decode_lookahead by simp
qed

lemma strict_literal: "strict (\<lambda>l. literal_decode l p)"
proof -
  have moves: "moves (literal_body p) qpack_errors"
    unfolding literal_body_def [abs_def] Let_def
    by (intro moves_at moves_try moves_prefix_int moves_payload) simp_all
  have "strict (literal_body p)" unfolding literal_body_def [abs_def] Let_def
    by (intro strict_at strict_try [OF strict_prefix_int moves_prefix_int moves_payload, of qpack_errors]) simp_all
  then show ?thesis unfolding literal_decode_def by (rule strict_commit [OF _ moves])
qed

lemma strict_field: "strict qpack_field"
proof -
  have kinds: "strict decode_indexed" "strict decode_with_name_reference" "strict decode_without_name_reference"
    unfolding decode_indexed_def [abs_def] decode_with_name_reference_def [abs_def]
      decode_without_name_reference_def [abs_def] Let_def prod.case_eq_if
    by (intro strict_try [OF strict_prefix_int moves_prefix_int, of qpack_errors]
        strict_try [OF strict_literal moves_literal, of qpack_errors]
        moves_try moves_literal moves_if moves_return; auto)+
  have "strict (\<lambda>l. case find_type b of
          Header_value \<Rightarrow>
            if b AND 0x40 = 0 then (Err Qpack_decompression_failed, l) else decode_indexed l
        | Header_only \<Rightarrow>
            if b AND 0x10 = 0 then (Err Qpack_decompression_failed, l) else decode_with_name_reference l
        | Missing \<Rightarrow> decode_without_name_reference l
        | Unknown \<Rightarrow> (Err Qpack_decompression_failed, l))" for b
    by (cases "find_type b"; simp only: fixed_type.case) (intro strict_if kinds strict_fails; simp)+
  then show ?thesis unfolding qpack_field_def [abs_def] by (rule strict_at)
qed

lemma qpack_decode_shrinks:
  assumes s: "seq_ok s" and d: "qpack_decode dec s = (Ok h, s', dec')"
  shows "length (seq_bytes s') < length (seq_bytes s)"
proof -
  have field: "length (seq_bytes s') < length (seq_bytes s)"
    if s: "seq_ok s" and due: "qd_state dec = Header_due" and d: "qpack_decode dec s = (Ok h, s', dec')" for s dec
  proof -
    have la: "lookahead_ok (seq_lookahead s)" using s by simp
    obtain r n where r: "qpack_field (seq_lookahead s) = (r, seq_drop (seq_lookahead s) n)" "n \<le> length (seq_bytes s)"
      using movesD [OF moves_field la] s by auto
    then obtain g where g: "r = Ok g" using d due
      by (cases r) (simp_all add: qpack_decode_def qpack_decode_prefix_def)
    have "length (seq_bytes (seq_drop (seq_lookahead s) n)) < length (seq_bytes s)"
      using strictD [OF strict_field la] r(1) g s by fastforce
    then show ?thesis using d due r g s
      by (auto simp: qpack_decode_def qpack_decode_prefix_def seq_consume_eq Let_def)
  qed
  show ?thesis
  proof (cases "qd_state dec")
    case Header_due
    then show ?thesis by (rule field [OF s _ d])
  next
    case Prefix_due
    then have "\<not> length (seq_bytes s) < 2" using qpack_decode_prefix_due [OF s] d by auto
    then show ?thesis using qpack_decode_prefix_due [OF s Prefix_due] d
        field [of "seq_drop s 2" "dec\<lparr>qd_count := qd_count dec + 2, qd_state := Header_due\<rparr>"] s by simp
  qed
qed

lemma buffer_shrinks:
  "(Ok h, s, dec') = qpack_decode dec (Buffer_seq bs) \<Longrightarrow> length (seq_bytes s) < length bs"
  using qpack_decode_shrinks [of "Buffer_seq bs" dec h s dec'] by simp

section \<open>qpack-interop-decode.cpp\<close>

definition id_decode :: "bytes \<Rightarrow> (uint64, error) result \<times> bytes" where
  "id_decode encoded =
     (if length encoded < 8 then (Err Incomplete, encoded)
      else (Ok (push_bit 56 (ucast (encoded ! 0)) OR push_bit 48 (ucast (encoded ! 1)) OR
                push_bit 40 (ucast (encoded ! 2)) OR push_bit 32 (ucast (encoded ! 3)) OR
                push_bit 24 (ucast (encoded ! 4)) OR push_bit 16 (ucast (encoded ! 5)) OR
                push_bit 8 (ucast (encoded ! 6)) OR push_bit 0 (ucast (encoded ! 7))),
            drop 8 encoded))"

definition size_decode :: "bytes \<Rightarrow> (uint64, error) result \<times> bytes" where
  "size_decode encoded =
     (if length encoded < 4 then (Err Incomplete, encoded)
      else (Ok (ucast ((push_bit 24 (ucast (encoded ! 0)) OR push_bit 16 (ucast (encoded ! 1)) OR
                push_bit 8 (ucast (encoded ! 2)) OR push_bit 0 (ucast (encoded ! 3))) :: uint32)),
            drop 4 encoded))"

definition write_headers :: "header list \<Rightarrow> string" where
  "write_headers headers = concat (map (\<lambda>h. header_name h @ [tab] @ header_value h @ [newline]) headers) @ [newline]"

text \<open>The loop of \<open>decode\<close>, which ends because every header takes something from the buffer.\<close>

function decode_headers ::
  "uint64 \<Rightarrow> qpack_decoder \<Rightarrow> bytes \<Rightarrow> header list \<Rightarrow> (header list, error) result \<times> bytes" where
  "decode_headers encoded_size qpack encoded headers =
     (if qd_count qpack = encoded_size then (Ok headers, encoded)
      else (case qpack_decode qpack (Buffer_seq encoded) of
          (Ok h, s, qpack') \<Rightarrow> decode_headers encoded_size qpack' (seq_bytes s) (headers @ [h])
        | (Err e, s, _) \<Rightarrow> (Err e, seq_bytes s)
        | (Fault, s, _) \<Rightarrow> (Fault, seq_bytes s)))"
  by pat_completeness auto
termination by (relation "measure (\<lambda>(_, _, encoded, _). length encoded)") (auto dest: buffer_shrinks)

declare get_lines.simps [simp del] decode_headers.simps [simp del]

definition interop_decode :: "bytes \<Rightarrow> string \<Rightarrow> (unit, error) result \<times> bytes \<times> string" where
  "interop_decode encoded dest =
     (case id_decode encoded of
        (Ok _, encoded) \<Rightarrow>
          (case size_decode encoded of
             (Ok encoded_size, encoded) \<Rightarrow>
               (case decode_headers encoded_size new_qpack_decoder encoded [] of
                  (Ok headers, encoded) \<Rightarrow> (Ok (), encoded, dest @ write_headers headers)
                | (Err e, encoded) \<Rightarrow> (Err e, encoded, dest)
                | (Fault, encoded) \<Rightarrow> (Fault, encoded, dest))
           | (Err e, encoded) \<Rightarrow> (Err e, encoded, dest)
           | (Fault, encoded) \<Rightarrow> (Fault, encoded, dest))
      | (Err e, encoded) \<Rightarrow> (Err e, encoded, dest)
      | (Fault, encoded) \<Rightarrow> (Fault, encoded, dest))"

lemma decode_headers_shrinks:
  "length (snd (decode_headers encoded_size qpack encoded headers)) \<le> length encoded"
proof (induction encoded_size qpack encoded headers rule: decode_headers.induct)
  case (1 encoded_size qpack encoded headers)
  obtain r s qpack' where d: "qpack_decode qpack (Buffer_seq encoded) = (r, s, qpack')"
    by (cases "qpack_decode qpack (Buffer_seq encoded)") auto
  have ok: "seq_ok (Buffer_seq encoded)" by simp
  obtain n where "decoder_step qpack (Buffer_seq encoded) n qpack' s" using qpack_decode_step [OF ok d] by blast
  then have le: "length (seq_bytes s) \<le> length encoded" by (simp add: decoder_step_def)
  show ?case
  proof (cases "qd_count qpack = encoded_size")
    case True
    then show ?thesis by (simp add: decode_headers.simps)
  next
    case False
    show ?thesis
    proof (cases r)
      case (Ok h)
      then have "length (snd (decode_headers encoded_size qpack' (seq_bytes s) (headers @ [h]))) \<le> length (seq_bytes s)"
        using "1.IH" [OF False] d by simp
      then show ?thesis using le False Ok d by (simp add: decode_headers.simps [of _ qpack])
    qed (use le False d in \<open>simp_all add: decode_headers.simps [of _ qpack]\<close>)
  qed
qed

lemma interop_decode_shrinks:
  "interop_decode encoded dest = (Ok u, encoded', dest') \<Longrightarrow> length encoded' < length encoded"
proof -
  assume d: "interop_decode encoded dest = (Ok u, encoded', dest')"
  then have n: "8 \<le> length encoded" "4 \<le> length (drop 8 encoded)"
    by (auto simp: interop_decode_def id_decode_def size_decode_def split: if_splits)
  obtain v where i: "id_decode encoded = (Ok v, drop 8 encoded)" using n by (simp add: id_decode_def)
  obtain k where "size_decode (drop 8 encoded) = (Ok k, drop 4 (drop 8 encoded))" using n by (simp add: size_decode_def)
  then have "encoded' = snd (decode_headers k new_qpack_decoder (drop 4 (drop 8 encoded)) [])"
    using d i by (simp add: interop_decode_def split: prod.splits result.splits)
  then obtain n where "encoded' = snd (decode_headers n new_qpack_decoder (drop 4 (drop 8 encoded)) [])" by blast
  then show ?thesis using decode_headers_shrinks [of n new_qpack_decoder "drop 4 (drop 8 encoded)" "[]"] n by simp
qed

function decode_blocks :: "bytes \<Rightarrow> string \<Rightarrow> (unit, int) result \<times> string" where
  "decode_blocks encoded dest =
     (if encoded = [] then (Ok (), dest)
      else (case interop_decode encoded dest of
          (Ok _, encoded', dest') \<Rightarrow> decode_blocks encoded' dest'
        | (Err _, _, dest') \<Rightarrow> (Err 1, dest')
        | (Fault, _, dest') \<Rightarrow> (Fault, dest')))"
  by pat_completeness auto
termination by (relation "measure (length o fst)") (auto dest: interop_decode_shrinks [OF sym])

declare decode_blocks.simps [simp del]

definition interop_decode_main :: "bytes \<Rightarrow> (unit, int) result \<times> string" where
  "interop_decode_main input = decode_blocks input []"

section \<open>Numbers make the trip\<close>

lemma byte_at:
  "bit (push_bit k (ucast (ucast (drop_bit k w) :: byte)) :: 'a :: len word) m \<longleftrightarrow>
     m < LENGTH('a) \<and> k \<le> m \<and> m < k + 8 \<and> bit (w :: 'a word) m"
  by (auto simp: bit_simps)

lemma size_bytes:
  fixes n :: uint32
  shows "push_bit 24 (ucast (ucast (drop_bit 24 n) :: byte)) OR push_bit 16 (ucast (ucast (drop_bit 16 n) :: byte)) OR
      push_bit 8 (ucast (ucast (drop_bit 8 n) :: byte)) OR push_bit 0 (ucast (ucast (drop_bit 0 n) :: byte)) = n"
proof (rule bit_word_eqI, unfold bit_or_iff byte_at)
  fix m
  assume "m < LENGTH(32)"
  then have "m < 8 \<or> 8 \<le> m \<and> m < 16 \<or> 16 \<le> m \<and> m < 24 \<or> 24 \<le> m \<and> m < 32" by simp linarith
  then show "(m < LENGTH(32) \<and> 24 \<le> m \<and> m < 24 + 8 \<and> bit n m \<or> m < LENGTH(32) \<and> 16 \<le> m \<and> m < 16 + 8 \<and> bit n m \<or>
     m < LENGTH(32) \<and> 8 \<le> m \<and> m < 8 + 8 \<and> bit n m \<or> m < LENGTH(32) \<and> 0 \<le> m \<and> m < 0 + 8 \<and> bit n m) = bit n m"
    by auto
qed

lemma id_bytes:
  fixes i :: uint64
  shows "push_bit 56 (ucast (ucast (drop_bit 56 i) :: byte)) OR push_bit 48 (ucast (ucast (drop_bit 48 i) :: byte)) OR
      push_bit 40 (ucast (ucast (drop_bit 40 i) :: byte)) OR push_bit 32 (ucast (ucast (drop_bit 32 i) :: byte)) OR
      push_bit 24 (ucast (ucast (drop_bit 24 i) :: byte)) OR push_bit 16 (ucast (ucast (drop_bit 16 i) :: byte)) OR
      push_bit 8 (ucast (ucast (drop_bit 8 i) :: byte)) OR push_bit 0 (ucast (ucast (drop_bit 0 i) :: byte)) = i"
    (is "?w = i")
proof (rule bit_word_eqI)
  fix m
  assume m: "m < LENGTH(64)"
  have "bit ?w m \<longleftrightarrow> bit i m \<and> (56 \<le> m \<and> m < 64 \<or> 48 \<le> m \<and> m < 56 \<or> 40 \<le> m \<and> m < 48 \<or> 32 \<le> m \<and> m < 40 \<or>
      24 \<le> m \<and> m < 32 \<or> 16 \<le> m \<and> m < 24 \<or> 8 \<le> m \<and> m < 16 \<or> m < 8)"
    unfolding bit_or_iff byte_at using m by simp blast
  moreover have "56 \<le> m \<and> m < 64 \<or> 48 \<le> m \<and> m < 56 \<or> 40 \<le> m \<and> m < 48 \<or> 32 \<le> m \<and> m < 40 \<or>
      24 \<le> m \<and> m < 32 \<or> 16 \<le> m \<and> m < 24 \<or> 8 \<le> m \<and> m < 16 \<or> m < 8"
    using m by simp linarith
  ultimately show "bit ?w m = bit i m" by blast
qed

lemma size_round_trip: "size_decode (size_encode n @ rest) = (Ok (ucast n), rest)"
  using size_bytes [of n] by (simp add: size_decode_def size_encode_def)

lemma id_round_trip: "id_decode (id_encode i @ rest) = (Ok i, rest)"
  using id_bytes [of i] by (simp add: id_decode_def id_encode_def)

section \<open>Blocks make the trip\<close>

lemma encode_headers_eq:
  "list_all (field_ok xxh) hs \<Longrightarrow>
   \<exists>enc'. encode_headers xxh junk hs queue enc = (Ok (queue @ block_fields xxh (qe_state enc) hs), enc') \<and>
     qe_count enc' = qe_count enc + word_of_nat (length (concat (block_fields xxh (qe_state enc) hs)))"
proof (induction hs arbitrary: queue enc)
  case (Cons h hs)
  let ?bs = "block_prefix (qe_state enc) @ field_wire xxh h"
  have e: "qpack_encode_buffer xxh junk enc h = (Ok ?bs, encoder_after enc ?bs)"
    using qpack_encode_buffer_eq [OF _ refl] Cons.prems by simp
  obtain enc' where "encode_headers xxh junk hs (queue @ [?bs]) (encoder_after enc ?bs) =
      (Ok ((queue @ [?bs]) @ block_fields xxh Header_due hs), enc')"
      "qe_count enc' = qe_count (encoder_after enc ?bs) + word_of_nat (length (concat (block_fields xxh Header_due hs)))"
    using Cons.IH [of "queue @ [?bs]" "encoder_after enc ?bs"] Cons.prems by (auto simp: encoder_after_def)
  then show ?case using e by (simp add: encoder_after_def)
qed simp

lemma decode_headers_eq:
  "list_all (\<lambda>h. hashes_apart xxh h \<and> field_ok xxh h) hs \<Longrightarrow>
   unat (qd_count dec) + length (concat (block_fields xxh (qd_state dec) hs)) = unat n \<Longrightarrow>
   decode_headers n dec (concat (block_fields xxh (qd_state dec) hs) @ rest) headers = (Ok (headers @ hs), rest)"
proof (induction hs arbitrary: dec headers)
  case Nil
  then have "qd_count dec = n" by (simp add: word_unat_eq_iff)
  then show ?case by (simp add: decode_headers.simps)
next
  case (Cons h hs)
  let ?bs = "block_prefix (qd_state dec) @ field_wire xxh h" and ?tail = "concat (block_fields xxh Header_due hs)"
  have R: "reads qpack_field (field_wire xxh h) h" using qpack_field_wire(1) Cons.prems(1) by simp
  have len: "unat (qd_count dec) + (length ?bs + length ?tail) = unat n" using Cons.prems(2) by simp
  have "field_wire xxh h \<noteq> []" using Cons.prems(1) by (simp add: field_wire_not_Nil)
  then have ne: "qd_count dec \<noteq> n" using len by (auto simp: word_unat_eq_iff)
  have bytes: "seq_bytes (Buffer_seq (?bs @ ?tail @ rest)) = block_prefix (qd_state dec) @ field_wire xxh h @ (?tail @ rest)"
    by simp
  obtain s where s: "qpack_decode dec (Buffer_seq (?bs @ ?tail @ rest)) = (Ok h, s, decoder_after dec ?bs)"
      "seq_bytes s = ?tail @ rest"
    using qpack_decode_wire [OF R _ bytes] by auto
  have "unat (qd_count (decoder_after dec ?bs)) = unat (qd_count dec) + length ?bs"
    using count_add [OF len, of "length ?bs"] by (simp add: decoder_after_def)
  then have "decode_headers n (decoder_after dec ?bs) (?tail @ rest) (headers @ [h]) = (Ok ((headers @ [h]) @ hs), rest)"
    using Cons.IH [of "decoder_after dec ?bs" "headers @ [h]"] Cons.prems(1) len by (simp add: decoder_after_def)
  then show ?case using s ne by (simp add: decode_headers.simps [of n dec])
qed

text \<open>A list of headers that fits the format: encodable, and of a size of 32 bits.\<close>

definition list_ok :: "(string \<Rightarrow> uint64) \<Rightarrow> header list \<Rightarrow> bool" where
  "list_ok xxh hs \<longleftrightarrow> list_all (\<lambda>h. hashes_apart xxh h \<and> field_ok xxh h) hs \<and> length (block_wire xxh hs) < 2 ^ 32"

definition interop_block :: "(string \<Rightarrow> uint64) \<Rightarrow> uint64 \<Rightarrow> header list \<Rightarrow> bytes" where
  "interop_block xxh i hs = id_encode i @ size_encode (word_of_nat (length (block_wire xxh hs))) @ block_wire xxh hs"

lemma interop_encode_eq:
  assumes "list_ok xxh hs"
  shows "interop_encode xxh junk i hs dest = (Ok (), dest @ interop_block xxh i hs)"
proof -
  have "list_all (field_ok xxh) hs" using assms by (simp add: list_ok_def list_all_iff)
  then obtain enc' where e: "encode_headers xxh junk hs [] new_qpack_encoder = (Ok (block_fields xxh Prefix_due hs), enc')"
      "qe_count enc' = word_of_nat (length (block_wire xxh hs))"
    using encode_headers_eq [of xxh hs junk "[]" new_qpack_encoder] by (auto simp: new_qpack_encoder_def block_wire_def)
  have "(ucast (word_of_nat (length (block_wire xxh hs)) :: uint64) :: uint32) = word_of_nat (length (block_wire xxh hs))"
    by (rule bit_word_eqI) (simp add: bit_simps)
  then show ?thesis using e by (simp add: interop_encode_def interop_block_def block_wire_def)
qed

lemma interop_decode_eq:
  assumes "list_ok xxh hs"
  shows "interop_decode (interop_block xxh i hs @ rest) dest = (Ok (), rest, dest @ write_headers hs)"
proof -
  have hs: "list_all (\<lambda>h. hashes_apart xxh h \<and> field_ok xxh h) hs" and len: "length (block_wire xxh hs) < 2 ^ 32"
    using assms by (simp_all add: list_ok_def)
  let ?n = "ucast (word_of_nat (length (block_wire xxh hs)) :: uint32) :: uint64"
  have "unat ?n = length (block_wire xxh hs)" using len by (simp add: unsigned_ucast_eq unat_of_nat take_bit_nat_eq_self)
  then have "decode_headers ?n new_qpack_decoder (block_wire xxh hs @ rest) [] = (Ok hs, rest)"
    using decode_headers_eq [OF hs, of new_qpack_decoder ?n rest "[]"] by (simp add: new_qpack_decoder_def block_wire_def)
  then show ?thesis
    by (simp add: interop_decode_def interop_block_def id_round_trip size_round_trip)
qed

lemma decode_blocks_eq:
  "list_all (list_ok xxh) groups \<Longrightarrow>
   decode_blocks (concat (map (\<lambda>(i, hs). interop_block xxh i hs) (zip ids groups))) dest =
     (Ok (), dest @ concat (map (write_headers o snd) (zip ids groups)))"
proof (induction groups arbitrary: ids dest)
  case (Cons hs groups)
  show ?case
  proof (cases ids)
    case ids: (Cons i ids')
    have "interop_block xxh i hs \<noteq> []" by (simp add: interop_block_def id_encode_def)
    then show ?thesis
      using interop_decode_eq [of xxh hs i] Cons ids by (simp add: decode_blocks.simps [of "interop_block xxh i hs @ _"])
  qed (simp add: decode_blocks.simps)
qed (simp add: decode_blocks.simps)

section \<open>Lines\<close>

lemma get_lines_line: "newline \<notin> set line \<Longrightarrow> get_lines (line @ newline # rest) = line # get_lines rest"
proof -
  assume "newline \<notin> set line"
  then have "\<forall>x\<in>set line. x \<noteq> newline" by blast
  then have "takeWhile (\<lambda>c. c \<noteq> newline) (line @ newline # rest) = line" by (simp add: takeWhile_append2 takeWhile_tail)
  then show ?thesis by (simp add: get_lines.simps [of "line @ newline # rest"])
qed

text \<open>A header that its line shows: the name has no tab, and does not begin a comment.\<close>

definition line_ok :: "header \<Rightarrow> bool" where
  "line_ok h \<longleftrightarrow> tab \<notin> set (header_name h) \<and> newline \<notin> set (header_name h) \<and> newline \<notin> set (header_value h) \<and>
     take 1 (header_name h) \<noteq> ''#''"

definition header_line :: "header \<Rightarrow> string" where
  "header_line h = header_name h @ [tab] @ header_value h"

lemma get_lines_headers:
  "list_all line_ok hs \<Longrightarrow>
   get_lines (concat (map (\<lambda>h. header_name h @ [tab] @ header_value h @ [newline]) hs) @ rest) =
     map header_line hs @ get_lines rest"
proof (induction hs)
  case (Cons h hs)
  then have "newline \<notin> set (header_line h)" by (simp add: line_ok_def header_line_def tab_def newline_def)
  then show ?case using Cons get_lines_line [of "header_line h"] by (simp add: header_line_def)
qed simp

lemma encode_header_line:
  assumes "line_ok h"
  shows "encode_line xxh junk (header_line h) (i, headers, dest) = (Ok (), i, headers @ [h], dest)"
proof -
  have "hd (header_line h) \<noteq> CHR ''#''"
    using assms by (cases "header_name h") (simp_all add: line_ok_def header_line_def tab_def)
  moreover have "takeWhile (\<lambda>d. d \<noteq> tab) (header_name h) = header_name h"
    using assms unfolding takeWhile_eq_all_conv by (auto simp: line_ok_def)
  then have "find_char tab (header_line h) = Some (length (header_name h))"
    using assms by (simp add: find_char_def header_line_def line_ok_def takeWhile_tail takeWhile_append)
  ultimately show ?thesis by (simp add: encode_line_def header_line_def)
qed

lemma encode_header_lines:
  "list_all line_ok hs \<Longrightarrow>
   encode_lines xxh junk (map header_line hs @ lines) (i, headers, dest) = encode_lines xxh junk lines (i, headers @ hs, dest)"
  by (induction hs arbitrary: headers) (simp_all add: encode_header_line)

lemma encode_list:
  assumes "list_all line_ok hs" and "hs \<noteq> []" and "list_ok xxh hs"
  shows "encode_lines xxh junk (get_lines (write_headers hs @ rest)) (i, [], dest) =
    encode_lines xxh junk (get_lines rest) (i + 1, [], dest @ interop_block xxh i hs)"
  using get_lines_headers [OF assms(1), of "newline # rest"] get_lines_line [of "[]" rest] assms
  by (simp add: write_headers_def encode_header_lines encode_line_def interop_encode_eq)

lemma encode_lists:
  "list_all (\<lambda>hs. list_all line_ok hs \<and> hs \<noteq> [] \<and> list_ok xxh hs) groups \<Longrightarrow>
   encode_lines xxh junk (get_lines (concat (map write_headers groups) @ rest)) (i, [], dest) =
   encode_lines xxh junk (get_lines rest) (i + word_of_nat (length groups), [],
     dest @ concat (map (\<lambda>(j, hs). interop_block xxh j hs) (zip (map (\<lambda>k. i + word_of_nat k) [0..<length groups]) groups)))"
proof (induction groups arbitrary: i dest)
  case (Cons hs groups)
  have ids: "map (\<lambda>k. i + word_of_nat k) [0..<Suc (length groups)] =
      i # map (\<lambda>k. i + 1 + word_of_nat k) [0..<length groups]"
    by (simp add: upt_conv_Cons map_Suc_upt [symmetric] add.assoc del: upt_Suc)
  show ?case
    using Cons.IH [of "i + 1" "dest @ interop_block xxh i hs"] Cons.prems
      encode_list [of hs xxh junk "concat (map write_headers groups) @ rest" i dest] ids
    by (simp add: add.assoc del: upt_Suc)
qed simp

lemma sample_list_ok: "list_ok sample_hash [make_header ''age'' ''0'']"
  by (simp add: list_ok_def sample_hash_apart sample_field_ok sample_block_wire)

lemma sample_line_ok: "line_ok (make_header ''age'' ''0'')"
  by (simp add: line_ok_def tab_def newline_def)

section \<open>Properties\<close>



text \<open>
  A last list that no empty line closes is dropped: the program reads its headers, writes nothing for
  them, and exits with 0.
\<close>

theorem interop_drops_last:
  assumes "list_all (\<lambda>hs. list_all line_ok hs \<and> hs \<noteq> [] \<and> list_ok xxh hs) groups" and "list_all line_ok hs"
  shows "interop_encode_main xxh junk (concat (map write_headers groups) @
      concat (map (\<lambda>h. header_name h @ [tab] @ header_value h @ [newline]) hs)) =
    interop_encode_main xxh junk (concat (map write_headers groups))"
  using encode_lists [OF assms(1), of junk _ 1 "[]"] encode_lists [OF assms(1), of junk "[]" 1 "[]"]
    get_lines_headers [OF assms(2), of "[]"] encode_header_lines [OF assms(2), of xxh junk "[]"]
  by (simp add: interop_encode_main_def get_lines.simps [of "[]"])

theorem interop_drops_last_witness:
  "interop_encode_main sample_hash (\<lambda>_. 0) (concat (map write_headers [[make_header ''age'' ''0'']]) @
      concat (map (\<lambda>h. header_name h @ [tab] @ header_value h @ [newline]) [make_header ''age'' ''0''])) =
    interop_encode_main sample_hash (\<lambda>_. 0) (concat (map write_headers [[make_header ''age'' ''0'']]))"
  by (rule interop_drops_last) (simp_all add: sample_list_ok sample_line_ok)

end
