(* ===== verification/Crypto.thy ===== *)
theory Crypto
  imports Errors Buffers
begin

text \<open>
  Packet protection (\<open>class crypto\<close> of \<open>bnl/quic/crypto.hpp\<close>, \<open>crypto.cpp\<close> and \<open>crypto/boringssl.cpp\<close>): the
  sizes of the suites, the labels that keys are derived with, and the calls into BoringSSL. The
  primitives of that library are parameters.
\<close>

section \<open>Data\<close>

datatype crypto_level = Level_initial | Level_early_data | Level_handshake | Level_application

datatype aead = Aes_128_gcm | Aes_256_gcm | Chacha20_poly1305

datatype hash_algorithm = Sha256 | Sha384

record crypto =
  cy_aead :: aead
  cy_hash :: hash_algorithm

definition default_crypto :: crypto where
  "default_crypto = \<lparr> cy_aead = Aes_128_gcm, cy_hash = Sha256 \<rparr>"

record crypto_key =
  key_data :: bytes
  key_iv :: bytes
  key_hp :: bytes

definition empty_key :: crypto_key where
  "empty_key = \<lparr> key_data = [], key_iv = [], key_hp = [] \<rparr>"

fun show_level :: "crypto_level \<Rightarrow> string" where
  "show_level Level_initial = ''initial''"
| "show_level Level_early_data = ''early data''"
| "show_level Level_handshake = ''handshake''"
| "show_level Level_application = ''application''"

fun show_aead :: "aead \<Rightarrow> string" where
  "show_aead Aes_128_gcm = ''AES_128_GCM''"
| "show_aead Aes_256_gcm = ''AES_256_GCM''"
| "show_aead Chacha20_poly1305 = ''CHACHA_POLY1305''"

fun show_hash :: "hash_algorithm \<Rightarrow> string" where
  "show_hash Sha256 = ''SHA256''"
| "show_hash Sha384 = ''SHA384''"

definition show_crypto :: "crypto \<Rightarrow> string" where
  "show_crypto c = ''AEAD: '' @ show_aead (cy_aead c) @ '', '' @ ''HASH: '' @ show_hash (cy_hash c)"

fun aead_overhead :: "crypto \<Rightarrow> nat" where
  "aead_overhead c = (case cy_aead c of Aes_128_gcm \<Rightarrow> 16 | Aes_256_gcm \<Rightarrow> 16 | Chacha20_poly1305 \<Rightarrow> 16)"

fun aead_key_size :: "aead \<Rightarrow> nat" where
  "aead_key_size Aes_128_gcm = 16"
| "aead_key_size Aes_256_gcm = 32"
| "aead_key_size Chacha20_poly1305 = 32"

fun aead_nonce_min_size :: "aead \<Rightarrow> nat" where
  "aead_nonce_min_size Aes_128_gcm = 12"
| "aead_nonce_min_size Aes_256_gcm = 12"
| "aead_nonce_min_size Chacha20_poly1305 = 12"

fun hash_size :: "hash_algorithm \<Rightarrow> nat" where
  "hash_size Sha256 = 32"
| "hash_size Sha384 = 48"

section \<open>The calls into BoringSSL\<close>

text \<open>
  What the source calls: \<open>HKDF_extract\<close> and \<open>HKDF_expand\<close> (the bytes written, or none when the function
  returns zero), \<open>EVP_AEAD_CTX_new\<close>, \<open>EVP_AEAD_max_overhead\<close>, \<open>EVP_AEAD_CTX_seal\<close> and \<open>EVP_AEAD_CTX_open\<close>
  with the maximal output size, \<open>AES_set_encrypt_key\<close>, \<open>AES_ecb_encrypt\<close> and \<open>CRYPTO_chacha_20\<close>.
\<close>

record boringssl =
  lib_hkdf_extract :: "hash_algorithm \<Rightarrow> bytes \<Rightarrow> bytes \<Rightarrow> bytes option"
  lib_hkdf_expand :: "hash_algorithm \<Rightarrow> nat \<Rightarrow> bytes \<Rightarrow> bytes \<Rightarrow> bytes option"
  lib_aead_key_ok :: "aead \<Rightarrow> bytes \<Rightarrow> bool"
  lib_aead_max_overhead :: "aead \<Rightarrow> nat"
  lib_seal :: "aead \<Rightarrow> bytes \<Rightarrow> nat \<Rightarrow> bytes \<Rightarrow> bytes \<Rightarrow> bytes \<Rightarrow> bytes option"
  lib_open :: "aead \<Rightarrow> bytes \<Rightarrow> nat \<Rightarrow> bytes \<Rightarrow> bytes \<Rightarrow> bytes \<Rightarrow> bytes option"
  lib_aes_key_ok :: "bytes \<Rightarrow> bool"
  lib_aes_block :: "bytes \<Rightarrow> bytes \<Rightarrow> bytes"
  lib_chacha20 :: "bytes \<Rightarrow> bytes \<Rightarrow> uint32 \<Rightarrow> bytes \<Rightarrow> bytes"

text \<open>
  The output buffer of \<open>hkdf_extract\<close> has the size of the hash; a size that differs fails the assertion.
  \<open>HKDF_expand\<close> fills exactly the buffer it is given.
\<close>

definition hkdf_extract :: "boringssl \<Rightarrow> crypto \<Rightarrow> bytes \<Rightarrow> bytes \<Rightarrow> (bytes, quic_error) result" where
  "hkdf_extract lib c secret salt =
     (case lib_hkdf_extract lib (cy_hash c) secret salt of
        None \<Rightarrow> Err Q_crypto
      | Some prk \<Rightarrow> if length prk = hash_size (cy_hash c) then Ok prk else Fault)"

definition hkdf_expand :: "boringssl \<Rightarrow> crypto \<Rightarrow> bytes \<Rightarrow> bytes \<Rightarrow> nat \<Rightarrow> (bytes, quic_error) result" where
  "hkdf_expand lib c prk info n =
     (case lib_hkdf_expand lib (cy_hash c) n prk info of
        None \<Rightarrow> Err Q_crypto
      | Some okm \<Rightarrow> if length okm = n then Ok okm else Fault)"

text \<open>
  \<open>dest\<close> is the memory behind the mutable view; the result is what it holds after a success. The library
  is told that it may write \<open>max_size\<close> bytes, which need not fit.
\<close>

definition crypto_encrypt ::
  "boringssl \<Rightarrow> crypto \<Rightarrow> bytes \<Rightarrow> bytes \<Rightarrow> bytes \<Rightarrow> bytes \<Rightarrow> bytes \<Rightarrow> (bytes, quic_error) result" where
  "crypto_encrypt lib c dest plaintext key nonce ad =
     (if \<not> lib_aead_key_ok lib (cy_aead c) key then Err Q_crypto
      else let max_size = length plaintext + lib_aead_max_overhead lib (cy_aead c)
      in (case lib_seal lib (cy_aead c) key max_size nonce plaintext ad of
            None \<Rightarrow> Err Q_crypto
          | Some out \<Rightarrow> if length out = max_size then or_fault (mem_store dest 0 out) else Fault))"

definition crypto_decrypt ::
  "boringssl \<Rightarrow> crypto \<Rightarrow> bytes \<Rightarrow> bytes \<Rightarrow> bytes \<Rightarrow> bytes \<Rightarrow> bytes \<Rightarrow> (bytes, quic_error) result" where
  "crypto_decrypt lib c dest ciphertext key nonce ad =
     (if \<not> lib_aead_key_ok lib (cy_aead c) key then Err Q_crypto
      else (case lib_open lib (cy_aead c) key (length dest) nonce ciphertext ad of
            None \<Rightarrow> Err Q_crypto
          | Some out \<Rightarrow> or_fault (mem_store dest 0 out)))"

text \<open>
  The mask of header protection. The machine is little-endian: the array of words passed as the nonce
  has the bytes it was read from.
\<close>

definition uint32_LE :: "bytes \<Rightarrow> nat \<Rightarrow> uint32" where
  "uint32_LE data i =
     ucast (data ! i) OR push_bit 8 (ucast (data ! (i + 1))) OR push_bit 16 (ucast (data ! (i + 2))) OR
     push_bit 24 (ucast (data ! (i + 3)))"

definition uint32_memory :: "uint32 \<Rightarrow> bytes" where
  "uint32_memory w = map (\<lambda>k. ucast (drop_bit (8 * k) w)) [0..<4]"

definition crypto_hp_mask ::
  "boringssl \<Rightarrow> crypto \<Rightarrow> bytes \<Rightarrow> bytes \<Rightarrow> bytes \<Rightarrow> (bytes, quic_error) result" where
  "crypto_hp_mask lib c dest key sample =
     (if length sample \<noteq> 16 then Fault
      else case cy_aead c of
        Chacha20_poly1305 \<Rightarrow>
          (let counter = uint32_LE sample 0;
               nonce = uint32_memory (uint32_LE sample 4) @ uint32_memory (uint32_LE sample 8) @
                 uint32_memory (uint32_LE sample 12)
           in or_fault (mem_store dest 0 (lib_chacha20 lib key nonce counter sample)))
      | _ \<Rightarrow>
          if \<not> lib_aes_key_ok lib key then Err Q_crypto
          else or_fault (mem_store dest 0 (lib_aes_block lib key sample)))"

section \<open>Key derivation\<close>

definition ascii :: "string \<Rightarrow> bytes" where
  "ascii s = map byte_of_char s"

text \<open>
  The structure \<open>HkdfLabel\<close> as it is written, byte by byte, to an array of 256 bytes: the pieces in the
  order of the stores.
\<close>

definition label_prefix :: bytes where "label_prefix = ascii ''tls13 ''"

definition label_info :: "bytes \<Rightarrow> nat \<Rightarrow> bytes option" where
  "label_info label sz =
     do { info \<leftarrow> Some (replicate 256 0);
          info \<leftarrow> mem_store info 0 [word_of_nat (sz div 255)];
          info \<leftarrow> mem_store info 1 [word_of_nat (sz mod 255)];
          info \<leftarrow> mem_store info 2 [word_of_nat (length label_prefix + length label)];
          info \<leftarrow> mem_store info 3 label_prefix;
          info \<leftarrow> mem_store info (3 + length label_prefix) label;
          info \<leftarrow> mem_store info (3 + length label_prefix + length label) [0];
          Some (take (4 + length label_prefix + length label) info) }"

definition hkdf_expand_label ::
  "boringssl \<Rightarrow> crypto \<Rightarrow> bytes \<Rightarrow> bytes \<Rightarrow> nat \<Rightarrow> (bytes, quic_error) result" where
  "hkdf_expand_label lib c secret label sz =
     bnl_try (or_fault (label_info label sz)) (\<lambda>info. hkdf_expand lib c secret info sz)"

definition initial_secret :: "boringssl \<Rightarrow> crypto \<Rightarrow> bytes \<Rightarrow> bytes \<Rightarrow> (bytes, quic_error) result" where
  "initial_secret lib c dcid salt = hkdf_extract lib c dcid salt"

definition update_secret :: "boringssl \<Rightarrow> crypto \<Rightarrow> bytes \<Rightarrow> (bytes, quic_error) result" where
  "update_secret lib c secret = hkdf_expand_label lib c secret (ascii ''traffic upd'') (length secret)"

definition client_initial_secret :: "boringssl \<Rightarrow> crypto \<Rightarrow> bytes \<Rightarrow> (bytes, quic_error) result" where
  "client_initial_secret lib c secret = hkdf_expand_label lib c secret (ascii ''client in'') (hash_size (cy_hash c))"

definition server_initial_secret :: "boringssl \<Rightarrow> crypto \<Rightarrow> bytes \<Rightarrow> (bytes, quic_error) result" where
  "server_initial_secret lib c secret = hkdf_expand_label lib c secret (ascii ''server in'') (hash_size (cy_hash c))"

definition packet_protection_data :: "boringssl \<Rightarrow> crypto \<Rightarrow> bytes \<Rightarrow> (bytes, quic_error) result" where
  "packet_protection_data lib c secret =
     hkdf_expand_label lib c secret (ascii ''quic key'') (aead_key_size (cy_aead c))"

definition packet_protection_iv :: "boringssl \<Rightarrow> crypto \<Rightarrow> bytes \<Rightarrow> (bytes, quic_error) result" where
  "packet_protection_iv lib c secret =
     (let iv_size = max 8 (aead_nonce_min_size (cy_aead c))
      in hkdf_expand_label lib c secret (ascii ''quic iv'') iv_size)"

definition packet_protection_hp :: "boringssl \<Rightarrow> crypto \<Rightarrow> bytes \<Rightarrow> (bytes, quic_error) result" where
  "packet_protection_hp lib c secret =
     hkdf_expand_label lib c secret (ascii ''quic hp'') (aead_key_size (cy_aead c))"

definition packet_protection_key :: "boringssl \<Rightarrow> crypto \<Rightarrow> bytes \<Rightarrow> (crypto_key, quic_error) result" where
  "packet_protection_key lib c secret =
     bnl_try (packet_protection_data lib c secret) (\<lambda>data.
     bnl_try (packet_protection_iv lib c secret) (\<lambda>iv.
     bnl_try (packet_protection_hp lib c secret) (\<lambda>hp.
     Ok \<lparr> key_data = data, key_iv = iv, key_hp = hp \<rparr>)))"

section \<open>What the label should be\<close>

text \<open>
  RFC 8446, section 7.1: \<open>struct { uint16 length; opaque label<7..255>; opaque context<0..255> }\<close> with the
  label's text prefixed by \<open>tls13\<close> and a space, and an empty context.
\<close>

definition hkdf_label :: "nat \<Rightarrow> bytes \<Rightarrow> bytes" where
  "hkdf_label sz label =
     [word_of_nat (sz div 256), word_of_nat (sz mod 256)] @
     [word_of_nat (length label_prefix + length label)] @ label_prefix @ label @ [0]"

lemma length_label_prefix [simp]: "length label_prefix = 6"
  by (simp add: label_prefix_def ascii_def)

lemma length_ascii [simp]: "length (ascii s) = length s"
  by (simp add: ascii_def)

lemma mem_store_front:
  "length pre = i \<Longrightarrow> length bs \<le> k \<Longrightarrow>
   mem_store (pre @ replicate k z) i bs = Some ((pre @ bs) @ replicate (k - length bs) z)"
  by (simp add: mem_store_def)

lemma take_front: "length xs = n \<Longrightarrow> take n (xs @ ys) = xs"
  by simp

lemma label_info_eq:
  "label_info label sz =
     (if length label \<le> 246 then
        Some ([word_of_nat (sz div 255), word_of_nat (sz mod 255)] @
          [word_of_nat (length label_prefix + length label)] @ label_prefix @ label @ [0])
      else None)"
proof (cases "length label \<le> 246")
  case True
  let ?s = "[word_of_nat (sz div 255)] :: bytes" and ?t = "[word_of_nat (sz mod 255)] :: bytes"
  let ?n = "[word_of_nat (length label_prefix + length label)] :: bytes"
  let ?k = "247 - length label"
  have s: "mem_store ([] @ replicate 256 0) 0 ?s = Some (([] @ ?s) @ replicate (256 - length ?s) 0)"
    by (rule mem_store_front) simp_all
  have t: "mem_store (?s @ replicate 255 0) 1 ?t = Some ((?s @ ?t) @ replicate (255 - length ?t) 0)"
    by (rule mem_store_front) simp_all
  have n: "mem_store ((?s @ ?t) @ replicate 254 0) 2 ?n = Some (((?s @ ?t) @ ?n) @ replicate (254 - length ?n) 0)"
    by (rule mem_store_front) simp_all
  have p: "mem_store (((?s @ ?t) @ ?n) @ replicate 253 0) 3 label_prefix =
      Some ((((?s @ ?t) @ ?n) @ label_prefix) @ replicate (253 - length label_prefix) 0)"
    by (rule mem_store_front) simp_all
  have l: "mem_store ((((?s @ ?t) @ ?n) @ label_prefix) @ replicate 247 0) 9 label =
      Some (((((?s @ ?t) @ ?n) @ label_prefix) @ label) @ replicate ?k 0)"
    by (rule mem_store_front) (use True in simp_all)
  have z: "mem_store (((((?s @ ?t) @ ?n) @ label_prefix) @ label) @ replicate ?k 0) (9 + length label) [0] =
      Some ((((((?s @ ?t) @ ?n) @ label_prefix) @ label) @ [0]) @ replicate (?k - length [0 :: byte]) 0)"
    by (rule mem_store_front) (use True in simp_all)
  have nums: "256 - length ?s = 255" "255 - length ?t = 254" "254 - length ?n = 253" "253 - length label_prefix = 247"
    "3 + length label_prefix = 9" by simp_all
  have len: "length ((((((?s @ ?t) @ ?n) @ label_prefix) @ label) @ [0]) :: bytes) = 4 + length label_prefix + length label"
    by simp
  have "label_info label sz = Some (take (4 + length label_prefix + length label)
      ((((((?s @ ?t) @ ?n) @ label_prefix) @ label) @ [0]) @ replicate (?k - length [0 :: byte]) 0))"
    using s t n p l z unfolding nums by (simp only: label_info_def nums append_Nil Option.bind.bind_lunit)
  then have "label_info label sz = Some (((((?s @ ?t) @ ?n) @ label_prefix) @ label) @ [0])"
    by (simp only: take_front [OF len])
  then show ?thesis using True by simp
next
  case False
  then show ?thesis by (auto simp: label_info_def mem_store_def split: Option.bind_splits if_splits)
qed

lemma byte_of_nat_eq: "(word_of_nat m :: byte) = word_of_nat n \<longleftrightarrow> m mod 256 = n mod 256"
  using word_of_nat_eq_iff [where ?'a = 8, of m n] by (simp add: take_bit_eq_mod)

lemma split_255:
  assumes "(sz :: nat) < 65536"
  shows "(sz div 255) mod 256 = (sz div 256) mod 256 \<and> (sz mod 255) mod 256 = (sz mod 256) mod 256 \<longleftrightarrow> sz < 255"
proof
  assume eq: "(sz div 255) mod 256 = (sz div 256) mod 256 \<and> (sz mod 255) mod 256 = (sz mod 256) mod 256"
  have "sz mod 255 < 255" "sz mod 256 < 256" "sz div 256 < 256" "sz div 255 \<le> 257" using assms by auto
  then have r: "sz mod 255 = sz mod 256" and q: "(sz div 255) mod 256 = sz div 256" using eq by simp_all
  have e: "255 * (sz div 255) = 256 * (sz div 256)"
    using r mult_div_mod_eq [of 255 sz] mult_div_mod_eq [of 256 sz] by linarith
  have "sz div 255 = 0"
  proof (cases "sz div 255 < 256")
    case True
    then have "sz div 255 = sz div 256" using q by simp
    then show ?thesis using e by simp
  next
    case False
    then have "sz div 255 = 256 \<or> sz div 255 = 257" using \<open>sz div 255 \<le> 257\<close> by auto
    then show ?thesis using e q by auto
  qed
  then show "sz < 255" by simp
qed simp

lemma label_info_short: "sz < 255 \<Longrightarrow> length label \<le> 246 \<Longrightarrow> label_info label sz = Some (hkdf_label sz label)"
  by (simp add: label_info_eq hkdf_label_def)

lemma hkdf_expand_label_eq:
  "sz < 255 \<Longrightarrow> length label \<le> 246 \<Longrightarrow>
   hkdf_expand_label lib c secret label sz = hkdf_expand lib c secret (hkdf_label sz label) sz"
  by (simp add: hkdf_expand_label_def label_info_short)

lemma hkdf_expand_Ok:
  "hkdf_expand lib c prk info n = Ok okm \<longleftrightarrow> lib_hkdf_expand lib (cy_hash c) n prk info = Some okm \<and> length okm = n"
  by (auto simp: hkdf_expand_def split: option.splits if_splits)

lemma suite_sizes: "aead_key_size a < 255" "max 8 (aead_nonce_min_size a) = 12" "hash_size h < 255"
  by (cases a; simp)+ (cases h; simp)

lemmas derived = hkdf_expand_label_eq hkdf_expand_Ok suite_sizes

lemma map2_XOR_cancel:
  "length xs = length zs \<Longrightarrow> length ys = length zs \<Longrightarrow> map2 (XOR) xs zs = map2 (XOR) ys zs \<longleftrightarrow> xs = (ys :: bytes)"
proof (induction zs arbitrary: xs ys)
  case (Cons z zs)
  have "x XOR z = y XOR z \<longleftrightarrow> x = y" for x y :: byte
    by (metis xor.assoc xor_self_eq xor.right_neutral)
  then show ?case using Cons by (cases xs; cases ys) simp_all
qed simp

section \<open>Properties\<close>

text \<open>
  C19. The keys of a suite are derived with the labels and lengths of the key schedule: whatever the library
  computes, data, iv and hp of a key are its output for \<open>quic key\<close>, \<open>quic iv\<close> and \<open>quic hp\<close>, the next
  secret that for \<open>traffic upd\<close>, and each has the size the suite asks for.
\<close>

theorem key_schedule:
  assumes "packet_protection_key lib c secret = Ok key" and "update_secret lib c secret = Ok secret'" and "length secret < 255"
  shows "lib_hkdf_expand lib (cy_hash c) (aead_key_size (cy_aead c)) secret
      (hkdf_label (aead_key_size (cy_aead c)) (ascii ''quic key'')) = Some (key_data key) \<and>
    lib_hkdf_expand lib (cy_hash c) 12 secret (hkdf_label 12 (ascii ''quic iv'')) = Some (key_iv key) \<and>
    lib_hkdf_expand lib (cy_hash c) (aead_key_size (cy_aead c)) secret
      (hkdf_label (aead_key_size (cy_aead c)) (ascii ''quic hp'')) = Some (key_hp key) \<and>
    lib_hkdf_expand lib (cy_hash c) (length secret) secret
      (hkdf_label (length secret) (ascii ''traffic upd'')) = Some secret' \<and>
    length (key_data key) = aead_key_size (cy_aead c) \<and> length (key_iv key) = 12 \<and>
      length (key_hp key) = aead_key_size (cy_aead c) \<and> length secret' = length secret"
  using assms
  by (auto simp: packet_protection_key_def packet_protection_data_def packet_protection_iv_def
      packet_protection_hp_def update_secret_def Let_def bnl_try_eq_Ok derived)

text \<open>A library whose answers are made of what it was asked.\<close>

definition sample_lib :: boringssl where
  "sample_lib =
     \<lparr> lib_hkdf_extract = (\<lambda>h secret salt. Some (replicate (hash_size h) 1)),
       lib_hkdf_expand = (\<lambda>h n prk info. Some (take n (info @ replicate n 0))),
       lib_aead_key_ok = (\<lambda>a key. True), lib_aead_max_overhead = (\<lambda>a. 16),
       lib_seal = (\<lambda>a key n nonce plaintext ad. Some (plaintext @ replicate 16 0)),
       lib_open = (\<lambda>a key n nonce ciphertext ad. Some (take (length ciphertext - 16) ciphertext)),
       lib_aes_key_ok = (\<lambda>key. True), lib_aes_block = (\<lambda>key block. block),
       lib_chacha20 = (\<lambda>key nonce counter input. map2 (XOR) input (replicate (length input) 5)) \<rparr>"

theorem key_schedule_witness:
  "lib_hkdf_expand sample_lib Sha256 12 (replicate 32 1) (hkdf_label 12 (ascii ''quic iv'')) =
     Some (take 12 (hkdf_label 12 (ascii ''quic iv'')))"
proof -
  let ?s = "replicate 32 1 :: bytes"
  obtain key where key: "packet_protection_key sample_lib default_crypto ?s = Ok key"
      "key_iv key = take 12 (hkdf_label 12 (ascii ''quic iv''))"
    by (simp add: packet_protection_key_def packet_protection_data_def packet_protection_iv_def
        packet_protection_hp_def hkdf_expand_label_eq hkdf_expand_def sample_lib_def default_crypto_def hkdf_label_def)
  have "update_secret sample_lib default_crypto ?s = Ok (take 32 (hkdf_label 32 (ascii ''traffic upd'') @ replicate 32 0))"
    by (simp add: update_secret_def hkdf_expand_label_eq hkdf_expand_def sample_lib_def min_def)
  from key_schedule [OF key(1) this] key(2) show ?thesis by (simp add: default_crypto_def)
qed

text \<open>
  The label is right exactly for lengths below 255: the two bytes of the length are the quotient and the
  remainder of a division by 255, not by 256.
\<close>

theorem label_length_limit:
  assumes "sz < 65536" and "length label \<le> 246"
  shows "label_info label sz = Some (hkdf_label sz label) \<longleftrightarrow> sz < 255"
  using split_255 [OF assms(1)] assms(2) by (simp add: label_info_eq hkdf_label_def byte_of_nat_eq)

theorem label_length_limit_witness:
  "label_info (ascii ''quic key'') 255 \<noteq> Some (hkdf_label 255 (ascii ''quic key'')) \<and>
   label_info (ascii ''quic key'') 254 = Some (hkdf_label 254 (ascii ''quic key''))"
  using label_length_limit [of 255 "ascii ''quic key''"] label_length_limit [of 254 "ascii ''quic key''"] by simp



end
