(* ===== verification/Ip.thy ===== *)
theory Ip
  imports Buffers
begin

text \<open>
  Addresses, endpoints and paths (\<open>bnl/ip\<close> and \<open>bnl/quic/path.hpp\<close>). An address is a tagged union of the
  two families; its views are its bytes.
\<close>

definition ipv4_size :: nat where "ipv4_size = 4"
definition ipv6_size :: nat where "ipv6_size = 16"

datatype address_type = Ipv4_type | Ipv6_type

datatype address = Ipv4 bytes | Ipv6 bytes

text \<open>The constructors of the two families assert the size of their argument.\<close>

definition ipv4_of_bytes :: "bytes \<Rightarrow> bytes option" where
  "ipv4_of_bytes bs = (if length bs = ipv4_size then mem_store (replicate ipv4_size 0) 0 bs else None)"

definition ipv6_of_bytes :: "bytes \<Rightarrow> bytes option" where
  "ipv6_of_bytes bs = (if length bs = ipv6_size then mem_store (replicate ipv6_size 0) 0 bs else None)"

definition ipv4_of_word :: "uint32 \<Rightarrow> bytes" where
  "ipv4_of_word w = [ucast (drop_bit 0 w), ucast (drop_bit 8 w), ucast (drop_bit 16 w), ucast (drop_bit 24 w)]"

definition default_address :: address where
  "default_address = Ipv4 (replicate ipv4_size 0)"

fun address_type_of :: "address \<Rightarrow> address_type" where
  "address_type_of (Ipv4 _) = Ipv4_type"
| "address_type_of (Ipv6 _) = Ipv6_type"

fun address_bytes :: "address \<Rightarrow> bytes" where
  "address_bytes (Ipv4 bs) = bs"
| "address_bytes (Ipv6 bs) = bs"

definition size_to_type :: "nat \<Rightarrow> address_type option" where
  "size_to_type n =
     (if n = ipv4_size \<or> n = ipv6_size then Some (if n = ipv4_size then Ipv4_type else Ipv6_type) else None)"

definition address_of_bytes :: "bytes \<Rightarrow> address option" where
  "address_of_bytes bs =
     do { t \<leftarrow> size_to_type (length bs);
          case t of
            Ipv4_type \<Rightarrow> map_option Ipv4 (ipv4_of_bytes bs)
          | Ipv6_type \<Rightarrow> map_option Ipv6 (ipv6_of_bytes bs) }"

definition address_eq :: "address \<Rightarrow> address \<Rightarrow> bool" where
  "address_eq lhs rhs \<longleftrightarrow> address_bytes lhs = address_bytes rhs"

record endpoint =
  ep_address :: address
  ep_port :: uint16

definition default_endpoint :: endpoint where
  "default_endpoint = \<lparr> ep_address = default_address, ep_port = 0 \<rparr>"

record quic_path =
  path_local :: endpoint
  path_peer :: endpoint

definition default_path :: quic_path where
  "default_path = \<lparr> path_local = default_endpoint, path_peer = default_endpoint \<rparr>"

text \<open>Both families have their size, so that equality of the bytes is equality of the addresses.\<close>

fun address_ok :: "address \<Rightarrow> bool" where
  "address_ok (Ipv4 bs) \<longleftrightarrow> length bs = ipv4_size"
| "address_ok (Ipv6 bs) \<longleftrightarrow> length bs = ipv6_size"

lemma address_of_bytes_ok: "address_of_bytes bs = Some a \<Longrightarrow> address_ok a \<and> address_bytes a = bs"
  by (auto simp: address_of_bytes_def size_to_type_def ipv4_of_bytes_def ipv6_of_bytes_def mem_store_def
      split: if_splits)

lemma address_round_trip: "address_ok a \<Longrightarrow> address_of_bytes (address_bytes a) = Some a"
  by (cases a) (simp_all add: address_of_bytes_def size_to_type_def ipv4_of_bytes_def ipv6_of_bytes_def
      mem_store_def ipv4_size_def ipv6_size_def)

lemma address_eq_iff: "address_ok a \<Longrightarrow> address_ok b \<Longrightarrow> address_eq a b \<longleftrightarrow> a = b"
  by (cases a; cases b) (auto simp: address_eq_def ipv4_size_def ipv6_size_def)

lemma ipv4_of_word_ok: "address_ok (Ipv4 (ipv4_of_word w))"
  by (simp add: ipv4_of_word_def ipv4_size_def)

end
