(* ===== verification/Script.thy ===== *)
theory Script
  imports Errors Events
begin

text \<open>
  Calls into a library that calls back (ngtcp2, BoringSSL). The library's state and behaviour are not
  known: a call is a script, which either returns, or calls back with a request and goes on with the
  answer and with the library's state as the callback left it. \<open>run_script\<close> runs the callbacks of the
  program.
\<close>

datatype ('n, 'c, 'r, 'a) script =
    Return 'n 'a
  | Call 'n 'c "'r \<times> 'n \<Rightarrow> ('n, 'c, 'r, 'a) script"

primrec run_script ::
  "('n \<Rightarrow> 'q \<Rightarrow> 'q) \<Rightarrow> ('q \<Rightarrow> 'n) \<Rightarrow> ('c \<Rightarrow> 'q \<Rightarrow> ('r, quic_error) result \<times> 'q) \<Rightarrow>
   ('n, 'c, 'r, 'a) script \<Rightarrow> 'q \<Rightarrow> ('a, quic_error) result \<times> 'q" where
  "run_script put get handle (Return n a) q = (Ok a, put n q)"
| "run_script put get handle (Call n c k) q =
     try_state (handle c (put n q)) (\<lambda>r q. run_script put get handle (k (r, get q)) q)"

text \<open>What every callback keeps is kept by every call, whatever the library does.\<close>

lemma run_script_keeps:
  assumes "\<And>n q. P q \<Longrightarrow> P (put n q)" and "\<And>c q. P q \<Longrightarrow> P (snd (handle c q))"
  shows "P q \<Longrightarrow> P (snd (run_script put get handle script q))"
proof (induction script arbitrary: q)
  case (Return n a)
  then show ?case using assms(1) by simp
next
  case (Call n c k)
  obtain r q' where h: "handle c (put n q) = (r, q')" by (cases "handle c (put n q)")
  then have q': "P q'" using assms Call.prems by (metis snd_conv)
  show ?case
  proof (cases r)
    case (Ok a)
    then show ?thesis using h Call.IH [of "k (a, get q')" q'] q' by simp
  qed (use h q' in simp_all)
qed

text \<open>The same with a log of the callbacks that were made.\<close>

definition log_callbacks ::
  "('c \<Rightarrow> 'q \<Rightarrow> ('r, quic_error) result \<times> 'q) \<Rightarrow> 'c \<Rightarrow> 'q \<times> 'c list \<Rightarrow> ('r, quic_error) result \<times> 'q \<times> 'c list" where
  "log_callbacks handle c ql = (case ql of (q, log) \<Rightarrow> on_member (\<lambda>q. (q, log @ [c])) (handle c q))"

definition run_logged ::
  "('n \<Rightarrow> 'q \<Rightarrow> 'q) \<Rightarrow> ('q \<Rightarrow> 'n) \<Rightarrow> ('c \<Rightarrow> 'q \<Rightarrow> ('r, quic_error) result \<times> 'q) \<Rightarrow>
   ('n, 'c, 'r, 'a) script \<Rightarrow> 'q \<Rightarrow> ('a, quic_error) result \<times> 'q \<times> 'c list" where
  "run_logged put get handle script q =
     run_script (\<lambda>n (q, log). (put n q, log)) (\<lambda>(q, log). get q) (log_callbacks handle) script (q, [])"

lemma log_callbacks_apply [simp]:
  "log_callbacks handle c (q, log) = on_member (\<lambda>q. (q, log @ [c])) (handle c q)"
  by (simp add: log_callbacks_def)

lemma run_logged_from:
  "run_script (\<lambda>n (q, log). (put n q, log)) (\<lambda>(q, log). get q) (log_callbacks handle) script (q, log) =
   (case run_logged put get handle script q of (r, q', log') \<Rightarrow> (r, q', log @ log'))"
proof (induction script arbitrary: q log)
  case (Return n a)
  then show ?case by (simp add: run_logged_def)
next
  case (Call n c k)
  obtain r q' where h: "handle c (put n q) = (r, q')" by (cases "handle c (put n q)")
  show ?case
  proof (cases r)
    case (Ok a)
    then show ?thesis
      using h Call.IH [of "k (a, get q')" q' "log @ [c]"] Call.IH [of "k (a, get q')" q' "[c]"]
      by (simp add: run_logged_def split: prod.splits)
  qed (use h in \<open>simp_all add: run_logged_def\<close>)
qed

text \<open>
  If every callback adds something to what \<open>view\<close> sees, and the library itself nothing, a call adds what
  the callbacks in its log add, in their order.
\<close>

lemma run_logged_view:
  assumes "\<And>n q. view (put n q) = view q" and "\<And>c q. view (snd (handle c q)) = view q @ adds c"
  shows "\<exists>log. run_logged put get handle script q = (case run_script put get handle script q of (r, q') \<Rightarrow> (r, q', log)) \<and>
    view (snd (run_script put get handle script q)) = view q @ concat (map adds log)"
proof (induction script arbitrary: q)
  case (Return n a)
  then show ?case using assms(1) by (simp add: run_logged_def)
next
  case (Call n c k)
  obtain r q' where h: "handle c (put n q) = (r, q')" by (cases "handle c (put n q)")
  then have v: "view q' = view q @ adds c" using assms(1) [of n q] assms(2) [of c "put n q"] by simp
  show ?case
  proof (cases r)
    case (Ok a)
    obtain log where "run_logged put get handle (k (a, get q')) q' =
        (case run_script put get handle (k (a, get q')) q' of (r, q') \<Rightarrow> (r, q', log))"
      "view (snd (run_script put get handle (k (a, get q')) q')) = view q' @ concat (map adds log)"
      using Call.IH [of "k (a, get q')" q'] by blast
    then show ?thesis using h Ok v run_logged_from [of put get handle "k (a, get q')" q' "[c]"]
      by (intro exI [of _ "c # log"]) (simp add: run_logged_def split: prod.splits)
  next
    case (Err e)
    then show ?thesis using h v by (intro exI [of _ "[c]"]) (simp add: run_logged_def)
  next
    case Fault
    then show ?thesis using h v by (intro exI [of _ "[c]"]) (simp add: run_logged_def)
  qed
qed

end
