(* ===== verification/Ngtcp2.thy ===== *)
theory Ngtcp2
  imports Crypto Ip Script
begin

text \<open>
  The wrapper of the ngtcp2 library (\<open>bnl/quic/client/ngtcp2/connection.hpp\<close>): what the library is asked
  and how its return codes become errors. The library itself is a parameter, a record of its functions
  over an unknown state \<open>'n\<close>; those that may call back are scripts. Its callbacks are handled by the
  client connection, in the theory \<open>Quic_Client\<close>.
\<close>

section \<open>The library\<close>

datatype ngtcp2_level = Ng_initial | Ng_early | Ng_handshake | Ng_app

fun level_from_ngtcp2 :: "ngtcp2_level \<Rightarrow> crypto_level" where
  "level_from_ngtcp2 Ng_initial = Level_initial"
| "level_from_ngtcp2 Ng_early = Level_early_data"
| "level_from_ngtcp2 Ng_handshake = Level_handshake"
| "level_from_ngtcp2 Ng_app = Level_application"

fun level_to_ngtcp2 :: "crypto_level \<Rightarrow> ngtcp2_level" where
  "level_to_ngtcp2 Level_initial = Ng_initial"
| "level_to_ngtcp2 Level_early_data = Ng_early"
| "level_to_ngtcp2 Level_handshake = Ng_handshake"
| "level_to_ngtcp2 Level_application = Ng_app"

lemma levels_inverse [simp]:
  "level_from_ngtcp2 (level_to_ngtcp2 l) = l" "level_to_ngtcp2 (level_from_ngtcp2 m) = m"
  by (cases l; simp) (cases m; simp)

text \<open>The callbacks with the arguments that the handlers look at.\<close>

datatype ngtcp2_callback =
    Cb_client_initial
  | Cb_recv_crypto_data ngtcp2_level bytes
  | Cb_handshake_completed
  | Cb_in_encrypt bytes bytes bytes bytes bytes
  | Cb_in_decrypt bytes bytes bytes bytes bytes
  | Cb_encrypt bytes bytes bytes bytes bytes
  | Cb_decrypt bytes bytes bytes bytes bytes
  | Cb_in_hp_mask bytes bytes bytes
  | Cb_hp_mask bytes bytes bytes
  | Cb_recv_stream_data uint64 int bytes
  | Cb_acked_crypto_offset ngtcp2_level nat
  | Cb_acked_stream_data_offset uint64 nat
  | Cb_stream_open uint64
  | Cb_stream_close uint64 uint64
  | Cb_recv_stateless_reset bytes bytes
  | Cb_recv_retry
  | Cb_extend_max_local_streams_bidi uint64
  | Cb_extend_max_local_streams_uni uint64
  | Cb_rand nat
  | Cb_get_new_connection_id nat
  | Cb_remove_connection_id bytes
  | Cb_update_key
  | Cb_path_validation bytes bytes bool
  | Cb_select_preferred_addr bytes bytes uint16 bytes uint16 bytes
  | Cb_stream_reset uint64 uint64 uint64
  | Cb_extend_max_remote_streams_bidi uint64
  | Cb_extend_max_remote_streams_uni uint64
  | Cb_extend_max_stream_data uint64 uint64

text \<open>A callback answers with a code and, where it has some, with the bytes it wrote.\<close>

type_synonym answer = "int \<times> bytes list"

record params =
  pa_max_stream_data_bidi_local :: uint64
  pa_max_stream_data_bidi_remote :: uint64
  pa_max_stream_data_uni :: uint64
  pa_max_data :: uint64
  pa_max_streams_bidi :: uint64
  pa_max_streams_uni :: uint64
  pa_idle_timeout :: uint64
  pa_max_packet_size :: uint64
  pa_ack_delay_exponent :: uint64
  pa_disable_migration :: byte
  pa_max_ack_delay :: uint64

definition default_params :: params where
  "default_params =
     \<lparr> pa_max_stream_data_bidi_local = 0, pa_max_stream_data_bidi_remote = 0, pa_max_stream_data_uni = 0,
       pa_max_data = 0, pa_max_streams_bidi = 0, pa_max_streams_uni = 0, pa_idle_timeout = 0,
       pa_max_packet_size = 65527, pa_ack_delay_exponent = 3, pa_disable_migration = 0, pa_max_ack_delay = 25 \<rparr>"

text \<open>The fields of \<open>ngtcp2_settings\<close> that the wrapper sets.\<close>

record ngtcp2_settings = params +
  ns_initial_ts :: uint64

datatype key_slot = Initial_tx | Initial_rx | Early | Handshake_tx | Handshake_rx | Tx | Rx

record 'n ngtcp2_lib =
  ng_microseconds :: uint64
  ng_max_pktlen :: nat
  ng_max_cidlen :: nat
  ng_reset_tokenlen :: nat
  ng_hp_masklen :: int
  ng_err_stream_data_blocked :: int
  ng_err_stream_id_blocked :: int
  ng_err_callback_failure :: int
  ng_err_crypto :: int
  ng_initial_salt :: bytes
  ng_alpn_h3 :: bytes
  ng_client_new :: "bytes \<Rightarrow> bytes \<Rightarrow> bytes \<times> bytes \<Rightarrow> ngtcp2_settings \<Rightarrow> int \<times> 'n"
  ng_set_aead_overhead :: "nat \<Rightarrow> 'n \<Rightarrow> 'n"
  ng_get_handshake_completed :: "'n \<Rightarrow> int"
  ng_handshake_completed :: "'n \<Rightarrow> 'n"
  ng_encode_local_params :: "nat \<Rightarrow> 'n \<Rightarrow> int \<times> bytes"
  ng_decode_params :: "bytes \<Rightarrow> int"
  ng_set_remote_params :: "bytes \<Rightarrow> 'n \<Rightarrow> int \<times> 'n"
  ng_install :: "key_slot \<Rightarrow> bytes \<Rightarrow> bytes \<Rightarrow> bytes \<Rightarrow> 'n \<Rightarrow> int \<times> 'n"
  ng_update_tx :: "bytes \<Rightarrow> bytes \<Rightarrow> 'n \<Rightarrow> int \<times> 'n"
  ng_update_rx :: "bytes \<Rightarrow> bytes \<Rightarrow> 'n \<Rightarrow> int \<times> 'n"
  ng_submit_crypto_data :: "ngtcp2_level \<Rightarrow> bytes \<Rightarrow> 'n \<Rightarrow> int \<times> 'n"
  ng_write_pkt :: "bytes \<times> bytes \<Rightarrow> bytes \<Rightarrow> uint64 \<Rightarrow> 'n \<Rightarrow> ('n, ngtcp2_callback, answer, int \<times> bytes) script"
  ng_write_stream :: "bytes \<Rightarrow> uint64 \<Rightarrow> bool \<Rightarrow> bytes \<Rightarrow> uint64 \<Rightarrow> 'n \<Rightarrow>
    ('n, ngtcp2_callback, answer, int \<times> bytes \<times> int) script"
  ng_read_pkt :: "bytes \<times> bytes \<Rightarrow> bytes \<Rightarrow> uint64 \<Rightarrow> 'n \<Rightarrow> ('n, ngtcp2_callback, answer, int) script"
  ng_dcid :: "'n \<Rightarrow> bytes"
  ng_idle_timeout :: "'n \<Rightarrow> uint64"
  ng_expiry :: "'n \<Rightarrow> uint64"
  ng_loss_detection_expiry :: "'n \<Rightarrow> uint64"
  ng_on_loss_detection_timer :: "uint64 \<Rightarrow> 'n \<Rightarrow> int \<times> 'n"
  ng_ack_delay_expiry :: "'n \<Rightarrow> uint64"
  ng_cancel_ack_delay_timer :: "uint64 \<Rightarrow> 'n \<Rightarrow> 'n"
  ng_open_bidi_stream :: "'n \<Rightarrow> int \<times> uint64 \<times> 'n"
  ng_open_uni_stream :: "'n \<Rightarrow> int \<times> uint64 \<times> 'n"

section \<open>The wrapper\<close>

text \<open>The clock is a function of the program; its successive readings are a sequence of times.\<close>

record 'n ngtcp2_connection =
  nc_conn :: 'n
  nc_path :: quic_path
  nc_clock :: "nat \<Rightarrow> uint64"
  nc_ticks :: nat

definition read_clock :: "'n ngtcp2_connection \<Rightarrow> uint64 \<times> 'n ngtcp2_connection" where
  "read_clock c = (nc_clock c (nc_ticks c), c\<lparr>nc_ticks := Suc (nc_ticks c)\<rparr>)"

definition timestamp_to_ngtcp2 :: "'n ngtcp2_lib \<Rightarrow> uint64 \<Rightarrow> uint64" where
  "timestamp_to_ngtcp2 lib t = t * ng_microseconds lib"

definition timestamp_from_ngtcp2 :: "'n ngtcp2_lib \<Rightarrow> uint64 \<Rightarrow> uint64" where
  "timestamp_from_ngtcp2 lib t = t div ng_microseconds lib"

text \<open>Both ends of the path that the library is given are the local one.\<close>

definition make_path :: "quic_path \<Rightarrow> bytes \<times> bytes" where
  "make_path path = (address_bytes (ep_address (path_local path)), address_bytes (ep_address (path_local path)))"

definition make_cid :: "'n ngtcp2_lib \<Rightarrow> (nat \<Rightarrow> byte) \<Rightarrow> nat \<Rightarrow> bytes \<times> nat" where
  "make_cid lib prng drawn = (map prng [drawn..<drawn + ng_max_cidlen lib], drawn + ng_max_cidlen lib)"

definition make_settings :: "params \<Rightarrow> ngtcp2_settings" where
  "make_settings p =
     \<lparr> pa_max_stream_data_bidi_local = pa_max_stream_data_bidi_local p,
       pa_max_stream_data_bidi_remote = pa_max_stream_data_bidi_remote p,
       pa_max_stream_data_uni = pa_max_stream_data_uni p, pa_max_data = pa_max_data p,
       pa_max_streams_bidi = pa_max_streams_bidi p, pa_max_streams_uni = pa_max_streams_uni p,
       pa_idle_timeout = pa_idle_timeout p, pa_max_packet_size = pa_max_packet_size p,
       pa_ack_delay_exponent = pa_ack_delay_exponent p, pa_disable_migration = pa_disable_migration p,
       pa_max_ack_delay = pa_max_ack_delay p, ns_initial_ts = 0 \<rparr>"

text \<open>The constructor; \<open>drawn\<close> counts the bytes taken from the random source.\<close>

definition new_ngtcp2_connection ::
  "'n ngtcp2_lib \<Rightarrow> quic_path \<Rightarrow> params \<Rightarrow> (nat \<Rightarrow> uint64) \<Rightarrow> (nat \<Rightarrow> byte) \<Rightarrow> nat \<Rightarrow>
   ('n ngtcp2_connection \<times> nat) option" where
  "new_ngtcp2_connection lib path p clock prng drawn =
     (let (scid, drawn) = make_cid lib prng drawn;
          (dcid, drawn) = make_cid lib prng drawn;
          settings = make_settings p;
          settings = settings\<lparr>ns_initial_ts := timestamp_to_ngtcp2 lib (clock 0)\<rparr>;
          (rv, conn) = ng_client_new lib dcid scid (make_path path) settings
      in if rv \<noteq> 0 then None
         else Some (\<lparr> nc_conn = conn, nc_path = path, nc_clock = clock, nc_ticks = 1 \<rparr>, drawn))"

text \<open>A call that returns a code; anything but zero is reported as \<open>error::ngtcp2\<close>.\<close>

definition ngtcp2_call ::
  "('n \<Rightarrow> int \<times> 'n) \<Rightarrow> 'n ngtcp2_connection \<Rightarrow> (unit, quic_error) result \<times> 'n ngtcp2_connection" where
  "ngtcp2_call f c =
     (let (rv, n) = f (nc_conn c); c = c\<lparr>nc_conn := n\<rparr>
      in if rv \<noteq> 0 then (Err Q_ngtcp2, c) else (Ok (), c))"

definition set_aead_overhead :: "'n ngtcp2_lib \<Rightarrow> nat \<Rightarrow> 'n ngtcp2_connection \<Rightarrow> 'n ngtcp2_connection" where
  "set_aead_overhead lib overhead c = c\<lparr>nc_conn := ng_set_aead_overhead lib overhead (nc_conn c)\<rparr>"

definition get_handshake_completed :: "'n ngtcp2_lib \<Rightarrow> 'n ngtcp2_connection \<Rightarrow> bool" where
  "get_handshake_completed lib c \<longleftrightarrow> ng_get_handshake_completed lib (nc_conn c) \<noteq> 0"

definition set_handshake_completed :: "'n ngtcp2_lib \<Rightarrow> 'n ngtcp2_connection \<Rightarrow> 'n ngtcp2_connection" where
  "set_handshake_completed lib c = c\<lparr>nc_conn := ng_handshake_completed lib (nc_conn c)\<rparr>"

definition get_local_transport_parameters ::
  "'n ngtcp2_lib \<Rightarrow> 'n ngtcp2_connection \<Rightarrow> (bytes, quic_error) result" where
  "get_local_transport_parameters lib c =
     (let (nwrite, tp) = ng_encode_local_params lib 64 (nc_conn c)
      in if nwrite < 0 then Err Q_ngtcp2
         else if nat nwrite \<le> length tp then Ok (take (nat nwrite) tp) else Fault)"

definition set_remote_transport_parameters ::
  "'n ngtcp2_lib \<Rightarrow> bytes \<Rightarrow> 'n ngtcp2_connection \<Rightarrow> (unit, quic_error) result \<times> 'n ngtcp2_connection" where
  "set_remote_transport_parameters lib encoded c =
     (if ng_decode_params lib encoded \<noteq> 0 then (Err Q_ngtcp2, c)
      else ngtcp2_call (ng_set_remote_params lib encoded) c)"

text \<open>The seven functions that install keys differ in the library function they call.\<close>

definition install_key ::
  "'n ngtcp2_lib \<Rightarrow> key_slot \<Rightarrow> crypto_key \<Rightarrow> 'n ngtcp2_connection \<Rightarrow> (unit, quic_error) result \<times> 'n ngtcp2_connection" where
  "install_key lib slot key = ngtcp2_call (ng_install lib slot (key_data key) (key_iv key) (key_hp key))"

definition install_initial_tx_keys where "install_initial_tx_keys lib = install_key lib Initial_tx"
definition install_initial_rx_keys where "install_initial_rx_keys lib = install_key lib Initial_rx"
definition install_early_keys where "install_early_keys lib = install_key lib Early"
definition install_handshake_tx_keys where "install_handshake_tx_keys lib = install_key lib Handshake_tx"
definition install_handshake_rx_keys where "install_handshake_rx_keys lib = install_key lib Handshake_rx"
definition install_tx_keys where "install_tx_keys lib = install_key lib Tx"
definition install_rx_keys where "install_rx_keys lib = install_key lib Rx"

lemmas install_defs = install_initial_tx_keys_def install_initial_rx_keys_def install_early_keys_def
  install_handshake_tx_keys_def install_handshake_rx_keys_def install_tx_keys_def install_rx_keys_def

definition update_tx_keys ::
  "'n ngtcp2_lib \<Rightarrow> crypto_key \<Rightarrow> 'n ngtcp2_connection \<Rightarrow> (unit, quic_error) result \<times> 'n ngtcp2_connection" where
  "update_tx_keys lib key = ngtcp2_call (ng_update_tx lib (key_data key) (key_iv key))"

definition update_rx_keys ::
  "'n ngtcp2_lib \<Rightarrow> crypto_key \<Rightarrow> 'n ngtcp2_connection \<Rightarrow> (unit, quic_error) result \<times> 'n ngtcp2_connection" where
  "update_rx_keys lib key = ngtcp2_call (ng_update_rx lib (key_data key) (key_iv key))"

definition submit_crypto_data ::
  "'n ngtcp2_lib \<Rightarrow> crypto_level \<Rightarrow> bytes \<Rightarrow> 'n ngtcp2_connection \<Rightarrow> (unit, quic_error) result \<times> 'n ngtcp2_connection" where
  "submit_crypto_data lib level data = ngtcp2_call (ng_submit_crypto_data lib (level_to_ngtcp2 level) data)"

definition ngtcp2_dcid :: "'n ngtcp2_lib \<Rightarrow> 'n ngtcp2_connection \<Rightarrow> bytes" where
  "ngtcp2_dcid lib c = ng_dcid lib (nc_conn c)"

definition ngtcp2_timeout :: "'n ngtcp2_lib \<Rightarrow> 'n ngtcp2_connection \<Rightarrow> uint64" where
  "ngtcp2_timeout lib c = timestamp_from_ngtcp2 lib (ng_idle_timeout lib (nc_conn c))"

definition ngtcp2_expiry :: "'n ngtcp2_lib \<Rightarrow> 'n ngtcp2_connection \<Rightarrow> uint64" where
  "ngtcp2_expiry lib c = timestamp_from_ngtcp2 lib (ng_expiry lib (nc_conn c))"

definition ngtcp2_expire ::
  "'n ngtcp2_lib \<Rightarrow> 'n ngtcp2_connection \<Rightarrow> (unit, quic_error) result \<times> 'n ngtcp2_connection" where
  "ngtcp2_expire lib c =
     (let (now, c) = read_clock c;
          ts = timestamp_to_ngtcp2 lib now
      in try_state
           (if ng_loss_detection_expiry lib (nc_conn c) \<le> ts
            then ngtcp2_call (ng_on_loss_detection_timer lib ts) c else (Ok (), c))
           (\<lambda>_ c. (Ok (),
              if ng_ack_delay_expiry lib (nc_conn c) \<le> ts
              then c\<lparr>nc_conn := ng_cancel_ack_delay_timer lib ts (nc_conn c)\<rparr> else c)))"

text \<open>The library gives the stream an id of its own; the assertion compares it with the one asked for.\<close>

definition ngtcp2_open ::
  "'n ngtcp2_lib \<Rightarrow> uint64 \<Rightarrow> 'n ngtcp2_connection \<Rightarrow> (unit, quic_error) result \<times> 'n ngtcp2_connection" where
  "ngtcp2_open lib i c =
     (let (rv, quic_id, n) =
        (if i AND 0x2 = 0 then ng_open_bidi_stream lib (nc_conn c) else ng_open_uni_stream lib (nc_conn c));
          c = c\<lparr>nc_conn := n\<rparr>
      in if rv = ng_err_stream_id_blocked lib then (Err Q_stream_id_blocked, c)
         else if rv \<noteq> 0 then (Err Q_ngtcp2, c)
         else if quic_id \<noteq> i then (Fault, c)
         else (Ok (), c))"

text \<open>What the two writing functions make of the library's answer, with the memory it wrote to.\<close>

definition packet_of :: "bytes \<Rightarrow> int \<Rightarrow> (bytes, quic_error) result" where
  "packet_of storage rv = (if nat rv \<le> length storage then Ok (take (nat rv) storage) else Fault)"

definition written_pkt :: "int \<times> bytes \<Rightarrow> (bytes, quic_error) result" where
  "written_pkt = (\<lambda>(rv, storage).
     if rv = 0 then Err Q_idle else if rv < 0 then Err Q_ngtcp2 else packet_of storage rv)"

definition written_stream :: "'n ngtcp2_lib \<Rightarrow> int \<times> bytes \<times> int \<Rightarrow> (bytes \<times> nat, quic_error) result" where
  "written_stream lib = (\<lambda>(rv, storage, stream_data_written).
     if rv = ng_err_stream_data_blocked lib then Err Q_stream_data_blocked
     else if rv < 0 then Err Q_ngtcp2
     else let stream_data_written = (if stream_data_written = - 1 then 0 else stream_data_written)
     in bnl_try (packet_of storage rv) (\<lambda>packet. Ok (packet, nat (stream_data_written mod 2 ^ 64))))"

end
