(* ===== verification/Handshake.thy ===== *)
theory Handshake
  imports Ngtcp2 Buffers
begin

text \<open>
  The TLS handshake of a client (\<open>bnl/quic/client/handshake.hpp\<close>, \<open>handshake.cpp\<close>, \<open>handshake/boringssl.cpp\<close>):
  it drives BoringSSL, installs the keys that come out of it in ngtcp2, and keeps the handshake data until
  it is acknowledged. BoringSSL's state and functions are parameters.
\<close>

section \<open>The library\<close>

datatype ssl_level = Ssl_initial | Ssl_early_data | Ssl_handshake | Ssl_application

fun level_to_ssl :: "crypto_level \<Rightarrow> ssl_level" where
  "level_to_ssl Level_initial = Ssl_initial"
| "level_to_ssl Level_early_data = Ssl_early_data"
| "level_to_ssl Level_handshake = Ssl_handshake"
| "level_to_ssl Level_application = Ssl_application"

fun level_from_ssl :: "ssl_level \<Rightarrow> crypto_level" where
  "level_from_ssl Ssl_initial = Level_initial"
| "level_from_ssl Ssl_early_data = Level_early_data"
| "level_from_ssl Ssl_handshake = Level_handshake"
| "level_from_ssl Ssl_application = Level_application"

lemma ssl_levels_inverse [simp]:
  "level_from_ssl (level_to_ssl l) = l" "level_to_ssl (level_from_ssl m) = m"
  by (cases l; simp) (cases m; simp)

datatype ssl_callback =
    Ssl_set_encryption_secrets ssl_level bytes bytes
  | Ssl_add_handshake_data ssl_level bytes
  | Ssl_flush_flight
  | Ssl_send_alert ssl_level byte

record 's ssl_lib =
  sl_error_want_read :: int
  sl_error_want_write :: int
  sl_tls1_3_version :: nat
  sl_new :: 's
  sl_set_alpn_protos :: "bytes \<Rightarrow> 's \<Rightarrow> int \<times> 's"
  sl_set_connect_state :: "'s \<Rightarrow> 's"
  sl_set_min_proto_version :: "nat \<Rightarrow> 's \<Rightarrow> 's"
  sl_set_max_proto_version :: "nat \<Rightarrow> 's \<Rightarrow> 's"
  sl_set_tlsext_host_name :: "bytes \<Rightarrow> 's \<Rightarrow> 's"
  sl_set_quic_transport_params :: "bytes \<Rightarrow> 's \<Rightarrow> int \<times> 's"
  sl_set_quic_method :: "'s \<Rightarrow> int \<times> 's"
  sl_do_handshake :: "'s \<Rightarrow> ('s, ssl_callback, int, int) script"
  sl_process_quic_post_handshake :: "'s \<Rightarrow> ('s, ssl_callback, int, int) script"
  sl_provide_quic_data :: "ssl_level \<Rightarrow> bytes \<Rightarrow> 's \<Rightarrow> int \<times> 's"
  sl_get_error :: "'s \<Rightarrow> int \<Rightarrow> int"
  sl_get_peer_quic_transport_params :: "'s \<Rightarrow> bytes"
  sl_get_current_cipher :: "'s \<Rightarrow> uint32 option"

text \<open>The three libraries the client is built on.\<close>

record ('n, 's) libraries =
  crypto_lib :: boringssl
  ngtcp2_lib :: "'n ngtcp2_lib"
  ssl_lib :: "'s ssl_lib"

section \<open>The handshake\<close>

record 's handshake =
  hs_ssl :: 's
  hs_keepalive :: "crypto_level \<Rightarrow> buffers"
  hs_tx_secret :: bytes
  hs_rx_secret :: bytes

text \<open>The handshake works on itself and on the ngtcp2 connection it points to.\<close>

type_synonym ('n, 's) tls = "'s handshake \<times> 'n ngtcp2_connection"

definition on_ngtcp2 ::
  "('n ngtcp2_connection \<Rightarrow> ('a, quic_error) result \<times> 'n ngtcp2_connection) \<Rightarrow> ('n, 's) tls \<Rightarrow>
   ('a, quic_error) result \<times> ('n, 's) tls" where
  "on_ngtcp2 f t = on_member (Pair (fst t)) (f (snd t))"

definition make_aead :: "uint32 \<Rightarrow> (aead, quic_error) result" where
  "make_aead cipher =
     (if cipher = 0x03001301 then Ok Aes_128_gcm
      else if cipher = 0x03001302 then Ok Aes_256_gcm
      else if cipher = 0x03001303 then Ok Chacha20_poly1305
      else Err Q_handshake)"

definition make_hash :: "uint32 \<Rightarrow> (hash_algorithm, quic_error) result" where
  "make_hash cipher =
     (if cipher = 0x03001301 \<or> cipher = 0x03001303 then Ok Sha256
      else if cipher = 0x03001302 then Ok Sha384
      else Err Q_handshake)"

definition negotiated_crypto :: "('n, 's) libraries \<Rightarrow> 's handshake \<Rightarrow> (crypto, quic_error) result" where
  "negotiated_crypto L h =
     (case sl_get_current_cipher (ssl_lib L) (hs_ssl h) of
        None \<Rightarrow> Err Q_handshake
      | Some cipher \<Rightarrow>
          bnl_try (make_aead cipher) (\<lambda>aead.
          bnl_try (make_hash cipher) (\<lambda>hash.
          Ok \<lparr> cy_aead = aead, cy_hash = hash \<rparr>)))"

definition handshake_ack :: "crypto_level \<Rightarrow> nat \<Rightarrow> 's handshake \<Rightarrow> (unit, quic_error) result \<times> 's handshake" where
  "handshake_ack level n h =
     (if n > buffers_size (hs_keepalive h level) then (Err Q_internal, h)
      else try_in h (or_fault (buffers_consume (hs_keepalive h level) n)) (\<lambda>bs.
           (Ok (), h\<lparr>hs_keepalive := (hs_keepalive h)(level := bs)\<rparr>)))"

definition handshake_completed :: "('n, 's) libraries \<Rightarrow> ('n, 's) tls \<Rightarrow> bool" where
  "handshake_completed L t \<longleftrightarrow> get_handshake_completed (ngtcp2_lib L) (snd t)"

definition handshake_update_keys :: "('n, 's) libraries \<Rightarrow> ('n, 's) tls \<Rightarrow> (unit, quic_error) result \<times> ('n, 's) tls" where
  "handshake_update_keys L t =
     (let lib = crypto_lib L; ng = ngtcp2_lib L in
      try_in t (negotiated_crypto L (fst t)) (\<lambda>crypto.
      try_in t (update_secret lib crypto (hs_tx_secret (fst t))) (\<lambda>secret.
      let t = ((fst t)\<lparr>hs_tx_secret := secret\<rparr>, snd t) in
      try_in t (packet_protection_key lib crypto (hs_tx_secret (fst t))) (\<lambda>write_key.
      try_state (on_ngtcp2 (update_tx_keys ng write_key) t) (\<lambda>_ t.
      try_in t (update_secret lib crypto (hs_rx_secret (fst t))) (\<lambda>secret.
      let t = ((fst t)\<lparr>hs_rx_secret := secret\<rparr>, snd t) in
      try_in t (packet_protection_key lib crypto (hs_rx_secret (fst t))) (\<lambda>read_key.
      try_state (on_ngtcp2 (update_rx_keys ng read_key) t) (\<lambda>_ t. (Ok (), t)))))))))"

definition set_encryption_secrets ::
  "('n, 's) libraries \<Rightarrow> crypto_level \<Rightarrow> bytes \<Rightarrow> bytes \<Rightarrow> ('n, 's) tls \<Rightarrow> (unit, quic_error) result \<times> ('n, 's) tls" where
  "set_encryption_secrets L level read_secret write_secret t =
     (let lib = crypto_lib L; ng = ngtcp2_lib L in
      try_in t (negotiated_crypto L (fst t)) (\<lambda>crypto.
      let t = (fst t, Ngtcp2.set_aead_overhead ng (aead_overhead crypto) (snd t)) in
      try_in t (packet_protection_key lib crypto write_secret) (\<lambda>write_key.
      try_in t (if level \<noteq> Level_early_data then packet_protection_key lib crypto read_secret else Ok empty_key)
        (\<lambda>read_key.
      case level of
        Level_initial \<Rightarrow> (Err Q_handshake, t)
      | Level_early_data \<Rightarrow> on_ngtcp2 (install_early_keys ng write_key) t
      | Level_handshake \<Rightarrow>
          try_state (on_ngtcp2 (install_handshake_tx_keys ng write_key) t) (\<lambda>_ t.
          on_ngtcp2 (install_handshake_rx_keys ng read_key) t)
      | Level_application \<Rightarrow>
          (let t = ((fst t)\<lparr>hs_tx_secret := write_secret\<rparr>, snd t) in
           try_state (on_ngtcp2 (install_tx_keys ng write_key) t) (\<lambda>_ t.
           let t = ((fst t)\<lparr>hs_rx_secret := read_secret\<rparr>, snd t) in
           on_ngtcp2 (install_rx_keys ng read_key) t))))))"

definition add_handshake_data ::
  "('n, 's) libraries \<Rightarrow> crypto_level \<Rightarrow> bytes \<Rightarrow> ('n, 's) tls \<Rightarrow> (unit, quic_error) result \<times> ('n, 's) tls" where
  "add_handshake_data L level data t =
     (let h = fst t;
          h = h\<lparr>hs_keepalive := (hs_keepalive h)(level := buffers_push (hs_keepalive h level) data)\<rparr>;
          t = (h, snd t)
      in try_in t (or_fault (buffers_back (hs_keepalive h level))) (\<lambda>buffer.
         on_ngtcp2 (submit_crypto_data (ngtcp2_lib L) level buffer) t))"

text \<open>The four callbacks; an error becomes the code 0.\<close>

definition ssl_code :: "(unit, quic_error) result \<times> 't \<Rightarrow> (int, quic_error) result \<times> 't" where
  "ssl_code m = (case m of (Ok _, t) \<Rightarrow> (Ok 1, t) | (Err _, t) \<Rightarrow> (Ok 0, t) | (Fault, t) \<Rightarrow> (Fault, t))"

fun handle_ssl ::
  "('n, 's) libraries \<Rightarrow> ssl_callback \<Rightarrow> ('n, 's) tls \<Rightarrow> (int, quic_error) result \<times> ('n, 's) tls" where
  "handle_ssl L (Ssl_set_encryption_secrets level read_secret write_secret) t =
     ssl_code (set_encryption_secrets L (level_from_ssl level) read_secret write_secret t)"
| "handle_ssl L (Ssl_add_handshake_data level data) t =
     ssl_code (add_handshake_data L (level_from_ssl level) data t)"
| "handle_ssl L Ssl_flush_flight t = (Ok 1, t)"
| "handle_ssl L (Ssl_send_alert level alert) t = (Ok 1, t)"

definition run_ssl ::
  "('n, 's) libraries \<Rightarrow> ('s, ssl_callback, int, int) script \<Rightarrow> ('n, 's) tls \<Rightarrow> (int, quic_error) result \<times> ('n, 's) tls" where
  "run_ssl L = run_script (\<lambda>s (h, c). (h\<lparr>hs_ssl := s\<rparr>, c)) (\<lambda>(h, c). hs_ssl h) (handle_ssl L)"

definition on_ssl :: "('s \<Rightarrow> int \<times> 's) \<Rightarrow> ('n, 's) tls \<Rightarrow> int \<times> ('n, 's) tls" where
  "on_ssl f t = (case f (hs_ssl (fst t)) of (rv, s) \<Rightarrow> (rv, (fst t)\<lparr>hs_ssl := s\<rparr>, snd t))"

definition set_ssl :: "('s \<Rightarrow> 's) \<Rightarrow> ('n, 's) tls \<Rightarrow> ('n, 's) tls" where
  "set_ssl f t = ((fst t)\<lparr>hs_ssl := f (hs_ssl (fst t))\<rparr>, snd t)"

definition handshake_init ::
  "('n, 's) libraries \<Rightarrow> bytes \<Rightarrow> bytes \<Rightarrow> ('n, 's) tls \<Rightarrow> (unit, quic_error) result \<times> ('n, 's) tls" where
  "handshake_init L host dcid t =
     (let lib = crypto_lib L; ng = ngtcp2_lib L; ssl = ssl_lib L;
          crypto = \<lparr> cy_aead = Aes_128_gcm, cy_hash = Sha256 \<rparr> in
      try_in t (initial_secret lib crypto dcid (ng_initial_salt ng)) (\<lambda>initial.
      try_in t (client_initial_secret lib crypto initial) (\<lambda>client_secret.
      try_in t (packet_protection_key lib crypto client_secret) (\<lambda>write_key.
      try_state (on_ngtcp2 (install_initial_tx_keys ng write_key) t) (\<lambda>_ t.
      try_in t (server_initial_secret lib crypto initial) (\<lambda>server_secret.
      try_in t (packet_protection_key lib crypto server_secret) (\<lambda>read_key.
      try_state (on_ngtcp2 (install_initial_rx_keys ng read_key) t) (\<lambda>_ t.
      let (rv, t) = on_ssl (sl_set_alpn_protos ssl (ng_alpn_h3 ng)) t in
      if rv = 1 then (Err Q_handshake, t)
      else
        let t = set_ssl (sl_set_connect_state ssl) t;
            t = set_ssl (sl_set_min_proto_version ssl (sl_tls1_3_version ssl)) t;
            t = set_ssl (sl_set_max_proto_version ssl (sl_tls1_3_version ssl)) t;
            t = set_ssl (sl_set_tlsext_host_name ssl host) t in
        try_in t (get_local_transport_parameters ng (snd t)) (\<lambda>tp.
        let (rv, t) = on_ssl (sl_set_quic_transport_params ssl tp) t in
        if rv = 0 then (Err Q_handshake, t)
        else
          let (rv, t) = on_ssl (sl_set_quic_method ssl) t in
          if rv = 0 then (Err Q_handshake, t) else (Ok (), t))))))))))"

text \<open>The constructor takes the value of \<open>init\<close> for granted.\<close>

definition new_handshake ::
  "('n, 's) libraries \<Rightarrow> bytes \<Rightarrow> bytes \<Rightarrow> 'n ngtcp2_connection \<Rightarrow> ('n, 's) tls option" where
  "new_handshake L host dcid c =
     (let h = \<lparr> hs_ssl = sl_new (ssl_lib L), hs_keepalive = (\<lambda>_. []), hs_tx_secret = [], hs_rx_secret = [] \<rparr>
      in case handshake_init L host dcid (h, c) of
           (Ok _, t) \<Rightarrow> Some t
         | _ \<Rightarrow> None)"

definition wants_more :: "'s ssl_lib \<Rightarrow> int \<Rightarrow> bool" where
  "wants_more ssl e \<longleftrightarrow> e = sl_error_want_read ssl \<or> e = sl_error_want_write ssl"

definition handshake_send :: "('n, 's) libraries \<Rightarrow> ('n, 's) tls \<Rightarrow> (unit, quic_error) result \<times> ('n, 's) tls" where
  "handshake_send L t =
     try_state (run_ssl L (sl_do_handshake (ssl_lib L) (hs_ssl (fst t))) t) (\<lambda>rv t.
     if rv \<le> 0 \<and> \<not> wants_more (ssl_lib L) (sl_get_error (ssl_lib L) (hs_ssl (fst t)) rv)
     then (Err Q_handshake, t)
     else (Ok (), t))"

definition handshake_recv ::
  "('n, 's) libraries \<Rightarrow> crypto_level \<Rightarrow> bytes \<Rightarrow> ('n, 's) tls \<Rightarrow> (unit, quic_error) result \<times> ('n, 's) tls" where
  "handshake_recv L level data t =
     (let ssl = ssl_lib L; ng = ngtcp2_lib L;
          (rv, t) = on_ssl (sl_provide_quic_data ssl (level_to_ssl level) data) t in
      if rv = 0 then (Err Q_handshake, t)
      else if handshake_completed L t then
        try_state (run_ssl L (sl_process_quic_post_handshake ssl (hs_ssl (fst t))) t) (\<lambda>rv t.
        if rv = 0 then (Err Q_handshake, t) else (Ok (), t))
      else
        try_state (run_ssl L (sl_do_handshake ssl (hs_ssl (fst t))) t) (\<lambda>rv t.
        if rv \<le> 0 then
          (if wants_more ssl (sl_get_error ssl (hs_ssl (fst t)) rv) then (Err Q_incomplete, t) else (Err Q_handshake, t))
        else
          let t = (fst t, set_handshake_completed ng (snd t)) in
          on_ngtcp2 (set_remote_transport_parameters ng (sl_get_peer_quic_transport_params ssl (hs_ssl (fst t)))) t))"

end
