(* ===== verification/Quic_Stream.thy ===== *)
theory Quic_Stream
  imports Errors Buffers Events
begin

text \<open>
  The sending side of a QUIC stream (\<open>class stream\<close> of \<open>bnl/quic/client/stream.hpp\<close>): it hands its
  buffers to the transport one by one and keeps what was taken until it is acknowledged.
\<close>

section \<open>The stream\<close>

record quic_stream =
  qs_buffers :: buffers
  qs_keepalive :: buffers
  qs_fin :: bool
  qs_opened :: bool
  qs_id :: uint64

definition new_quic_stream :: "uint64 \<Rightarrow> quic_stream" where
  "new_quic_stream i = \<lparr> qs_buffers = [], qs_keepalive = [], qs_fin = False, qs_opened = False, qs_id = i \<rparr>"

text \<open>
  The stream calls \<open>open\<close> and \<open>write_stream\<close> of the connection it points to. While these run, the rest of
  the program may act on the state; \<open>get\<close> and \<open>put\<close> say where in it the stream is. The last buffer is
  recognised by comparing contents (\<open>first == buffers_.back()\<close>).
\<close>

definition quic_stream_take :: "nat \<Rightarrow> quic_stream \<Rightarrow> (unit, quic_error) result \<times> quic_stream" where
  "quic_stream_take written s =
     try_in s (or_fault (buffers_slice (qs_buffers s) written)) (\<lambda>(sent, bs).
     (Ok (), s\<lparr>qs_buffers := bs, qs_keepalive := buffers_push (qs_keepalive s) sent\<rparr>))"

definition quic_stream_open ::
  "('q \<Rightarrow> quic_stream option) \<Rightarrow> (quic_stream \<Rightarrow> 'q \<Rightarrow> 'q) \<Rightarrow>
   (uint64 \<Rightarrow> 'q \<Rightarrow> (unit, quic_error) result \<times> 'q) \<Rightarrow> quic_stream \<Rightarrow> 'q \<Rightarrow> (unit, quic_error) result \<times> 'q" where
  "quic_stream_open get put open_to s q =
     (if qs_opened s then (Ok (), q)
      else (case open_to (qs_id s) q of
          (Err e, q) \<Rightarrow> (Err (if e = Q_stream_id_blocked then Q_idle else e), q)
        | (Fault, q) \<Rightarrow> (Fault, q)
        | (Ok _, q) \<Rightarrow> try_in q (or_fault (get q)) (\<lambda>s. (Ok (), put (s\<lparr>qs_opened := True\<rparr>) q))))"

definition quic_stream_send ::
  "('q \<Rightarrow> quic_stream option) \<Rightarrow> (quic_stream \<Rightarrow> 'q \<Rightarrow> 'q) \<Rightarrow>
   (uint64 \<Rightarrow> 'q \<Rightarrow> (unit, quic_error) result \<times> 'q) \<Rightarrow>
   (uint64 \<Rightarrow> bytes \<Rightarrow> bool \<Rightarrow> 'q \<Rightarrow> (bytes \<times> nat, quic_error) result \<times> 'q) \<Rightarrow>
   'q \<Rightarrow> (bytes, quic_error) result \<times> 'q" where
  "quic_stream_send get put open_to write_stream q =
     try_in q (or_fault (get q)) (\<lambda>s.
     if buffers_empty (qs_buffers s) then (Err Q_idle, q)
     else
       try_state (quic_stream_open get put open_to s q) (\<lambda>_ q.
       try_in q (or_fault (get q)) (\<lambda>s.
       try_in q (or_fault (buffers_front (qs_buffers s))) (\<lambda>first.
       try_in q (or_fault (buffers_back (qs_buffers s))) (\<lambda>back.
       let fin = (qs_fin s \<and> first = back)
       in (case write_stream (qs_id s) first fin q of
            (Err e, q) \<Rightarrow>
              (Err (if e = Q_stream_id_blocked \<or> e = Q_stream_data_blocked then Q_idle else e), q)
          | (Fault, q) \<Rightarrow> (Fault, q)
          | (Ok (packet, stream_bytes_written), q) \<Rightarrow>
              try_in q (or_fault (get q)) (\<lambda>s.
              try_state (on_member (\<lambda>s. put s q) (quic_stream_take stream_bytes_written s)) (\<lambda>_ q. (Ok packet, q)))))))))"

definition quic_stream_add :: "bytes \<Rightarrow> quic_stream \<Rightarrow> (unit, quic_error) result \<times> quic_stream" where
  "quic_stream_add buffer s =
     (if qs_fin s then (Fault, s) else (Ok (), s\<lparr>qs_buffers := buffers_push (qs_buffers s) buffer\<rparr>))"

definition quic_stream_fin :: "quic_stream \<Rightarrow> (unit, quic_error) result \<times> quic_stream" where
  "quic_stream_fin s = (if qs_fin s then (Fault, s) else (Ok (), s\<lparr>qs_fin := True\<rparr>))"

definition quic_stream_ack :: "nat \<Rightarrow> quic_stream \<Rightarrow> (unit, quic_error) result \<times> quic_stream" where
  "quic_stream_ack n s =
     (if n > buffers_size (qs_keepalive s) then (Err Q_internal, s)
      else try_in s (or_fault (buffers_consume (qs_keepalive s) n)) (\<lambda>bs. (Ok (), s\<lparr>qs_keepalive := bs\<rparr>)))"

definition quic_stream_finished :: "quic_stream \<Rightarrow> bool" where
  "quic_stream_finished s \<longleftrightarrow> qs_fin s \<and> buffers_empty (qs_buffers s) \<and> buffers_empty (qs_keepalive s)"

section \<open>A stream on its own\<close>

text \<open>
  A transport of any behaviour with a log of what it was offered and took: the bytes and FIN of every
  call, and how many of the bytes were written.
\<close>

type_synonym offers = "(bytes \<times> bool \<times> nat) list"

definition logged ::
  "(uint64 \<Rightarrow> bytes \<Rightarrow> bool \<Rightarrow> 'n \<Rightarrow> (bytes \<times> nat, quic_error) result \<times> 'n) \<Rightarrow>
   uint64 \<Rightarrow> bytes \<Rightarrow> bool \<Rightarrow> quic_stream \<times> 'n \<times> offers \<Rightarrow>
   (bytes \<times> nat, quic_error) result \<times> quic_stream \<times> 'n \<times> offers" where
  "logged write_to i b fin q =
     (case q of (s, n, log) \<Rightarrow>
        (case write_to i b fin n of
           (Ok (packet, written), n) \<Rightarrow> (Ok (packet, written), s, n, log @ [(b, fin, written)])
         | (Err e, n) \<Rightarrow> (Err e, s, n, log)
         | (Fault, n) \<Rightarrow> (Fault, s, n, log)))"

definition alone_send ::
  "(uint64 \<Rightarrow> 'n \<Rightarrow> (unit, quic_error) result \<times> 'n) \<Rightarrow>
   (uint64 \<Rightarrow> bytes \<Rightarrow> bool \<Rightarrow> 'n \<Rightarrow> (bytes \<times> nat, quic_error) result \<times> 'n) \<Rightarrow>
   quic_stream \<times> 'n \<times> offers \<Rightarrow> (bytes, quic_error) result \<times> quic_stream \<times> 'n \<times> offers" where
  "alone_send open_to write_to =
     quic_stream_send (\<lambda>(s, _). Some s) (\<lambda>s (_, q). (s, q))
       (\<lambda>i (s, n, log). on_member (\<lambda>n. (s, n, log)) (open_to i n)) (logged write_to)"

definition taken :: "offers \<Rightarrow> bytes" where
  "taken log = concat (map (\<lambda>(b, _, written). take written b) log)"

lemma taken_simps [simp]: "taken [] = []" "taken (log @ [(b, fin, w)]) = taken log @ take w b"
  by (simp_all add: taken_def)

text \<open>The transport never claims to have written more than it was given.\<close>

definition honest :: "(uint64 \<Rightarrow> bytes \<Rightarrow> bool \<Rightarrow> 'n \<Rightarrow> (bytes \<times> nat, quic_error) result \<times> 'n) \<Rightarrow> bool" where
  "honest write_to \<longleftrightarrow> (\<forall>i b fin n packet w n'. write_to i b fin n = (Ok (packet, w), n') \<longrightarrow> w \<le> length b)"

lemma quic_stream_take_Ok:
  assumes "concat (qs_buffers s) \<noteq> []" and "n \<le> length (concat (qs_buffers s))"
  shows "\<exists>s'. quic_stream_take n s = (Ok (), s') \<and>
    concat (qs_buffers s') = drop n (concat (qs_buffers s)) \<and>
    concat (qs_keepalive s') = concat (qs_keepalive s) @ take n (concat (qs_buffers s)) \<and>
    qs_fin s' = qs_fin s \<and> qs_opened s' = qs_opened s \<and> qs_id s' = qs_id s"
proof -
  obtain bs' where "buffers_slice (qs_buffers s) n = Some (take n (concat (qs_buffers s)), bs')"
      "concat bs' = drop n (concat (qs_buffers s))"
    using buffers_slice_Ok [OF assms(2,1)] by blast
  then show ?thesis by (simp add: quic_stream_take_def)
qed

lemma concat_front: "concat bs \<noteq> [] \<Longrightarrow> \<exists>first rest. bs = first # rest"
  by (cases bs) auto

text \<open>What a call of \<open>send\<close> does: it is idle, or opens the stream, or offers the first buffer.\<close>

lemma alone_send_cases:
  assumes run: "alone_send open_to write_to (s, n, log) = (r, s', n', log')" and honest: "honest write_to"
  shows "concat (qs_keepalive s') @ concat (qs_buffers s') = concat (qs_keepalive s) @ concat (qs_buffers s) \<and>
    qs_fin s' = qs_fin s \<and>
    (\<exists>w. taken log' = taken log @ w \<and> concat (qs_keepalive s') = concat (qs_keepalive s) @ w) \<and>
    (r = Fault \<longrightarrow> (\<exists>i m. open_to i m = (Fault, n')) \<or> (\<exists>i b fin m. write_to i b fin m = (Fault, n')))"
proof (cases "concat (qs_buffers s) = []")
  case True
  then have "s' = s" "log' = log" "r = Err Q_idle"
    using run by (auto simp del: concat_eq_Nil_conv simp: alone_send_def quic_stream_send_def)
  then show ?thesis by simp
next
  case False
  then obtain first rest where bs: "qs_buffers s = first # rest" using concat_front by blast
  define s1 where "s1 = s\<lparr>qs_opened := True\<rparr>"
  have same: "concat (qs_buffers s1) = concat (qs_buffers s)" "qs_keepalive s1 = qs_keepalive s"
      "qs_fin s1 = qs_fin s" "qs_buffers s1 = qs_buffers s" by (simp_all add: s1_def)
  let ?put = "\<lambda>s :: quic_stream. \<lambda>(_ :: quic_stream, q). (s, q)"
  have unopened: ?thesis if "s' = s" "log' = log" "r = Fault \<Longrightarrow> \<exists>i m. open_to i m = (Fault, n')"
    using that by auto
  have opened: ?thesis
    if go: "(case logged write_to (qs_id s1) first (qs_fin s1 \<and> first = last (qs_buffers s)) (s1, m, log) of
        (Err e, q) \<Rightarrow> (Err (if e = Q_stream_id_blocked \<or> e = Q_stream_data_blocked then Q_idle else e), q)
      | (Fault, q) \<Rightarrow> (Fault, q)
      | (Ok (packet, w), q) \<Rightarrow>
          try_in q (or_fault (case q of (s, _) \<Rightarrow> Some s)) (\<lambda>s.
          try_state (on_member (\<lambda>s. ?put s q) (quic_stream_take w s)) (\<lambda>_ q. (Ok packet, q)))) = (r, s', n', log')"
    for m
  proof (cases "write_to (qs_id s1) first (qs_fin s1 \<and> first = last (qs_buffers s)) m")
    case (Pair x m')
    show ?thesis
    proof (cases x)
      case (Ok y)
      then obtain packet w where y: "x = Ok (packet, w)" by (cases y) simp
      then have w: "w \<le> length first" using honest Pair unfolding honest_def by blast
      then have w': "w \<le> length (concat (qs_buffers s1))" using bs same by simp
      obtain s2 where s2: "quic_stream_take w s1 = (Ok (), s2)"
          "concat (qs_buffers s2) = drop w (concat (qs_buffers s))"
          "concat (qs_keepalive s2) = concat (qs_keepalive s) @ take w (concat (qs_buffers s))" "qs_fin s2 = qs_fin s"
        using quic_stream_take_Ok [of s1 w] False w' same by (auto simp del: concat_eq_Nil_conv)
      have "r = Ok packet" "s' = s2" "n' = m'" "log' = log @ [(first, (qs_fin s1 \<and> first = last (qs_buffers s)), w)]"
        using go Pair y s2(1) by (auto simp: logged_def)
      moreover have "take w (concat (qs_buffers s)) = take w first" using w bs by simp
      ultimately show ?thesis using s2 append_take_drop_id [of w "concat (qs_buffers s)"] by simp
    next
      case (Err e)
      then show ?thesis using go Pair same by (auto simp: logged_def)
    next
      case Fault
      then have "r = Fault" "s' = s1" "log' = log" "n' = m'" using go Pair by (auto simp: logged_def)
      then show ?thesis using Pair Fault same by auto
    qed
  qed
  have ne: "\<not> buffers_empty (qs_buffers s)" using False by simp
  have last_front: "buffers_back (qs_buffers s) = Some (last (qs_buffers s))" using bs by (simp add: buffers_back_def)
  show ?thesis
  proof (cases "qs_opened s")
    case True
    then have s1: "s1 = s" by (simp add: s1_def)
    show ?thesis using opened [of n] run ne bs last_front True unfolding s1
      by (simp del: buffers_empty_eq add: alone_send_def quic_stream_send_def quic_stream_open_def buffers_front_def Let_def)
  next
    case not_open: False
    obtain x m where o: "open_to (qs_id s) n = (x, m)" by (cases "open_to (qs_id s) n")
    show ?thesis
    proof (cases x)
      case (Ok u)
      then show ?thesis using opened [of m] run ne bs last_front not_open o unfolding s1_def
        by (simp del: buffers_empty_eq add: alone_send_def quic_stream_send_def quic_stream_open_def buffers_front_def Let_def)
    next
      case (Err e)
      then show ?thesis using unopened run False not_open o
        by (auto simp del: concat_eq_Nil_conv simp: alone_send_def quic_stream_send_def quic_stream_open_def)
    next
      case Fault
      then show ?thesis using unopened run False not_open o
        by (auto simp del: concat_eq_Nil_conv simp: alone_send_def quic_stream_send_def quic_stream_open_def)
    qed
  qed
qed

text \<open>
  The life of a stream: data is added, the end is marked, the stream is sent from, and what was sent is
  acknowledged. \<open>A\<close> is what was added and \<open>k\<close> how much was acknowledged.
\<close>

inductive stream_run ::
  "(uint64 \<Rightarrow> 'n \<Rightarrow> (unit, quic_error) result \<times> 'n) \<Rightarrow>
   (uint64 \<Rightarrow> bytes \<Rightarrow> bool \<Rightarrow> 'n \<Rightarrow> (bytes \<times> nat, quic_error) result \<times> 'n) \<Rightarrow>
   bytes \<Rightarrow> nat \<Rightarrow> quic_stream \<times> 'n \<times> offers \<Rightarrow> bool"
  for open_to write_to where
  fresh: "stream_run open_to write_to [] 0 (new_quic_stream i, n, [])"
| added: "stream_run open_to write_to A k (s, n, log) \<Longrightarrow> quic_stream_add b s = (Ok (), s') \<Longrightarrow>
    stream_run open_to write_to (A @ b) k (s', n, log)"
| ended: "stream_run open_to write_to A k (s, n, log) \<Longrightarrow> quic_stream_fin s = (Ok (), s') \<Longrightarrow>
    stream_run open_to write_to A k (s', n, log)"
| sent: "stream_run open_to write_to A k q \<Longrightarrow> alone_send open_to write_to q = (r, q') \<Longrightarrow> stream_run open_to write_to A k q'"
| acked: "stream_run open_to write_to A k (s, n, log) \<Longrightarrow> quic_stream_ack m s = (Ok (), s') \<Longrightarrow>
    stream_run open_to write_to A (k + m) (s', n, log)"

lemma quic_stream_ack_Ok:
  "quic_stream_ack m s = (Ok (), s') \<Longrightarrow> m \<le> length (concat (qs_keepalive s)) \<and>
   concat (qs_keepalive s') = drop m (concat (qs_keepalive s)) \<and> qs_buffers s' = qs_buffers s \<and> qs_fin s' = qs_fin s"
proof -
  assume a: "quic_stream_ack m s = (Ok (), s')"
  then have m: "m \<le> length (concat (qs_keepalive s))" by (simp add: quic_stream_ack_def split: if_splits)
  obtain bs where "buffers_consume (qs_keepalive s) m = Some bs" "concat bs = drop m (concat (qs_keepalive s))"
    using buffers_consume_Ok [OF m] by blast
  then show ?thesis using a m by (auto simp: quic_stream_ack_def)
qed

lemma stream_run_bytes:
  "stream_run open_to write_to A k q \<Longrightarrow> honest write_to \<Longrightarrow>
   (case q of (s, n, log) \<Rightarrow> taken log @ concat (qs_buffers s) = A \<and> k \<le> length (taken log) \<and>
      concat (qs_keepalive s) = drop k (taken log))"
proof (induction rule: stream_run.induct)
  case (fresh i n)
  then show ?case by (simp add: new_quic_stream_def)
next
  case (added A k s n log b s')
  then show ?case by (auto simp: quic_stream_add_def split: if_splits)
next
  case (ended A k s n log s')
  then show ?case by (auto simp: quic_stream_fin_def split: if_splits)
next
  case (sent A k q r q')
  obtain s n log where q: "q = (s, n, log)" by (cases q)
  obtain s' n' log' where q': "q' = (s', n', log')" by (cases q')
  from alone_send_cases [of open_to write_to s n log r s' n' log'] sent.hyps(2) sent.prems
  obtain w where w: "taken log' = taken log @ w" "concat (qs_keepalive s') = concat (qs_keepalive s) @ w"
      "concat (qs_keepalive s') @ concat (qs_buffers s') = concat (qs_keepalive s) @ concat (qs_buffers s)"
    unfolding q q' by blast
  then have "w @ concat (qs_buffers s') = concat (qs_buffers s)" by simp
  then show ?case using sent.IH [OF sent.prems] w(1,2) unfolding q q' by auto
next
  case (acked A k s n log m s')
  then show ?case using quic_stream_ack_Ok [OF acked.hyps(2)] by (auto simp: add.commute)
qed

text \<open>A transport that opens every stream and takes at most four bytes at once.\<close>

definition sample_open :: "uint64 \<Rightarrow> unit \<Rightarrow> (unit, quic_error) result \<times> unit" where
  "sample_open i n = (Ok (), n)"

definition sample_write :: "uint64 \<Rightarrow> bytes \<Rightarrow> bool \<Rightarrow> unit \<Rightarrow> (bytes \<times> nat, quic_error) result \<times> unit" where
  "sample_write i b fin n = (Ok (take 4 b, min 4 (length b)), n)"

lemma sample_honest: "honest sample_write"
  by (simp add: honest_def sample_write_def)

lemmas send_simps = alone_send_def quic_stream_send_def quic_stream_open_def quic_stream_take_def logged_def
  sample_open_def sample_write_def buffers_front_def buffers_back_def buffers_slice_def buffer_slice_def
  buffers_push_def buffers_consume_def Let_def

section \<open>Properties\<close>

text \<open>
  C14. Nothing is lost, doubled or reordered on the way to the transport: whatever the transport does, as
  long as it takes no more than it is offered, what it took so far and what still waits are together
  what was added, what is kept is what it took and has not acknowledged, and a stream is finished only
  when all of it was taken and acknowledged.
\<close>

theorem stream_delivers:
  assumes "stream_run open_to write_to A k (s, n, log)" and "honest write_to"
  shows "taken log @ concat (qs_buffers s) = A \<and> k \<le> length (taken log) \<and>
    concat (qs_keepalive s) = drop k (taken log) \<and>
    (quic_stream_finished s \<longrightarrow> taken log = A \<and> k = length A)"
proof -
  have b: "taken log @ concat (qs_buffers s) = A" "k \<le> length (taken log)" "concat (qs_keepalive s) = drop k (taken log)"
    using stream_run_bytes [OF assms] by simp_all
  have "taken log = A \<and> k = length A" if "quic_stream_finished s"
  proof -
    have "concat (qs_buffers s) = []" "drop k (taken log) = []"
      using that b(3) by (simp_all del: concat_eq_Nil_conv add: quic_stream_finished_def)
    then show ?thesis using b(1,2) by (simp del: concat_eq_Nil_conv)
  qed
  then show ?thesis using b by blast
qed

theorem stream_delivers_witness:
  "\<exists>s. stream_run sample_open sample_write [1, 2, 3, 4, 5] 0 (s, (), [([1, 2, 3, 4, 5], False, 4)]) \<and>
    taken [([1, 2, 3, 4, 5], False, 4)] @ concat (qs_buffers s) = [1, 2, 3, 4, 5]"
proof -
  let ?s = "(new_quic_stream 0)\<lparr>qs_buffers := [[1, 2, 3, 4, 5]]\<rparr>"
  have "stream_run sample_open sample_write ([] @ [1, 2, 3, 4, 5]) 0 (?s, (), [])"
    by (rule stream_run.added [OF stream_run.fresh [of _ _ 0]]) (simp add: quic_stream_add_def new_quic_stream_def buffers_push_def)
  moreover have "alone_send sample_open sample_write (?s, (), []) =
      (Ok [1, 2, 3, 4], ?s\<lparr>qs_opened := True, qs_buffers := [[5]], qs_keepalive := [[1, 2, 3, 4]]\<rparr>, (), [([1, 2, 3, 4, 5], False, 4)])"
    by (simp add: send_simps new_quic_stream_def)
  ultimately have run: "stream_run sample_open sample_write ([] @ [1, 2, 3, 4, 5]) 0
      (?s\<lparr>qs_opened := True, qs_buffers := [[5]], qs_keepalive := [[1, 2, 3, 4]]\<rparr>, (), [([1, 2, 3, 4, 5], False, 4)])"
    by (rule stream_run.sent)
  from conjunct1 [OF stream_delivers [OF this sample_honest]] run show ?thesis
    by (intro exI conjI) (auto simp: new_quic_stream_def)
qed

text \<open>
  C33. The end of a stream is announced too early whenever the first and the last of its buffers have the same
  bytes, opened or not, whatever is between them and however much the transport takes: the first one is offered
  with the FIN, although the others still follow it.
\<close>

theorem stream_early_fin:
  assumes "qs_fin s" and "qs_buffers s = first # rest" and "rest \<noteq> []" and "last rest = first"
    and "concat (first # rest) \<noteq> []"
    and "(if qs_opened s then (Ok (), n) else open_to (qs_id s) n) = (Ok (), m)"
    and "write_to (qs_id s) first True m = (Ok (packet, w), n')" and "w \<le> length first"
  shows "\<exists>s'. alone_send open_to write_to (s, n, log) = (Ok packet, s', n', log @ [(first, True, w)]) \<and>
    concat (qs_buffers s') = drop w first @ concat rest \<and> concat (qs_buffers s') \<noteq> [] \<and> qs_fin s'"
proof -
  let ?s = "s\<lparr>qs_opened := True\<rparr>"
  obtain s' where s': "quic_stream_take w ?s = (Ok (), s')" "concat (qs_buffers s') = drop w (concat (first # rest))" "qs_fin s'"
    using quic_stream_take_Ok [of ?s w] assms(1,2,5,8) by (auto simp del: concat_eq_Nil_conv)
  have open_take: "quic_stream_take w s = (Ok (), s')" if "qs_opened s"
  proof -
    have "?s = s" using that by (cases s) simp
    then show ?thesis using s'(1) by (simp only:)
  qed
  have "alone_send open_to write_to (s, n, log) = (Ok packet, s', n', log @ [(first, True, w)])"
    using assms s'(1) open_take
    by (cases "qs_opened s") (simp_all del: concat_eq_Nil_conv add: alone_send_def quic_stream_send_def
        quic_stream_open_def buffers_front_def buffers_back_def logged_def Let_def)
  moreover have "concat (qs_buffers s') = drop w first @ concat rest" using s'(2) assms(8) by simp
  moreover have "concat rest \<noteq> [] \<or> first = []"
    using assms(3,4) last_in_set [of rest] by auto
  then have "drop w first @ concat rest \<noteq> []" using assms(5) by auto
  ultimately show ?thesis using s'(3) by (simp del: concat_eq_Nil_conv)
qed

theorem stream_early_fin_witness:
  "\<exists>s'. alone_send sample_open sample_write ((new_quic_stream 0)\<lparr>qs_buffers := [[7], [8, 9], [7]], qs_fin := True\<rparr>, (), []) =
     (Ok [7], s', (), [([7], True, 1)]) \<and> concat (qs_buffers s') = [8, 9, 7] \<and> qs_fin s'"
  using stream_early_fin [of "(new_quic_stream 0)\<lparr>qs_buffers := [[7], [8, 9], [7]], qs_fin := True\<rparr>" "[7]" "[[8, 9], [7]]"
      "()" sample_open "()" sample_write "[7]" 1 "()" "[]"]
  by (auto simp: sample_write_def sample_open_def new_quic_stream_def)

text \<open>
  C34. The end of a stream is never announced when it comes after the last byte was sent: the stream is idle,
  offers nothing to the transport, and counts as finished as soon as its bytes are acknowledged.
\<close>

theorem stream_late_fin:
  assumes "concat (qs_buffers s) = []" and "\<not> qs_fin s"
  shows "\<exists>s' s''. quic_stream_fin s = (Ok (), s') \<and>
    alone_send open_to write_to (s', n, log) = (Err Q_idle, s', n, log) \<and>
    quic_stream_ack (length (concat (qs_keepalive s))) s' = (Ok (), s'') \<and> quic_stream_finished s''"
proof -
  let ?s = "s\<lparr>qs_fin := True\<rparr>"
  have "quic_stream_fin s = (Ok (), ?s)" using assms by (simp add: quic_stream_fin_def)
  moreover have "alone_send open_to write_to (?s, n, log) = (Err Q_idle, ?s, n, log)"
    using assms by (simp del: concat_eq_Nil_conv add: alone_send_def quic_stream_send_def)
  moreover obtain bs where bs: "buffers_consume (qs_keepalive s) (length (concat (qs_keepalive s))) = Some bs"
      "concat bs = drop (length (concat (qs_keepalive s))) (concat (qs_keepalive s))"
    using buffers_consume_Ok [of "length (concat (qs_keepalive s))" "qs_keepalive s"] by blast
  then have "quic_stream_ack (length (concat (qs_keepalive s))) ?s = (Ok (), ?s\<lparr>qs_keepalive := bs\<rparr>)"
    by (simp add: quic_stream_ack_def)
  moreover have "quic_stream_finished (?s\<lparr>qs_keepalive := bs\<rparr>)"
    using assms bs by (simp del: concat_eq_Nil_conv add: quic_stream_finished_def)
  ultimately show ?thesis by blast
qed

theorem stream_late_fin_witness:
  "\<exists>s' s''. quic_stream_fin ((new_quic_stream 0)\<lparr>qs_keepalive := [[7]]\<rparr>) = (Ok (), s') \<and>
    alone_send sample_open sample_write (s', (), []) = (Err Q_idle, s', (), []) \<and>
    quic_stream_ack 1 s' = (Ok (), s'') \<and> quic_stream_finished s''"
  using stream_late_fin [of "(new_quic_stream 0)\<lparr>qs_keepalive := [[7]]\<rparr>" sample_open sample_write "()" "[]"]
  by (simp add: new_quic_stream_def)

end
