(* ===== verification/Quic_Client.thy ===== *)
theory Quic_Client
  imports Handshake Quic_Stream Ordered_Map
begin

text \<open>
  The QUIC client connection (\<open>bnl/quic/client/connection.hpp\<close>): it owns the streams, the ngtcp2 connection
  and the handshake, answers the callbacks of the library, and queues what they report until the user
  takes it from a generator.
\<close>

section \<open>The connection\<close>

record ('n, 's) quic_client =
  qc_prng :: "nat \<Rightarrow> byte"
  qc_drawn :: nat
  qc_streams :: "(uint64 \<times> quic_stream) list"
  qc_events :: "(quic_event, quic_error) result list"
  qc_max_local_bidi :: uint64
  qc_max_local_uni :: uint64
  qc_max_remote_bidi :: uint64
  qc_max_remote_uni :: uint64
  qc_ngtcp2 :: "'n ngtcp2_connection"
  qc_handshake :: "'s handshake"
  qc_path :: quic_path

definition new_quic_client ::
  "('n, 's) libraries \<Rightarrow> bytes \<Rightarrow> quic_path \<Rightarrow> params \<Rightarrow> (nat \<Rightarrow> uint64) \<Rightarrow> (nat \<Rightarrow> byte) \<Rightarrow> ('n, 's) quic_client option" where
  "new_quic_client L host path p clock prng =
     do { (c, drawn) \<leftarrow> new_ngtcp2_connection (ngtcp2_lib L) path p clock prng 0;
          (h, c) \<leftarrow> new_handshake L host (ngtcp2_dcid (ngtcp2_lib L) c) c;
          Some \<lparr> qc_prng = prng, qc_drawn = drawn, qc_streams = [], qc_events = [],
            qc_max_local_bidi = 0, qc_max_local_uni = 0, qc_max_remote_bidi = 0, qc_max_remote_uni = 0,
            qc_ngtcp2 = c, qc_handshake = h, qc_path = path \<rparr> }"

text \<open>The generator of events: \<open>next\<close> and \<open>get\<close>.\<close>

definition quic_generator_next :: "('n, 's) quic_client \<Rightarrow> bool" where
  "quic_generator_next q \<longleftrightarrow> qc_events q \<noteq> []"

definition quic_generator_get :: "('n, 's) quic_client \<Rightarrow> (quic_event, quic_error) result \<times> ('n, 's) quic_client" where
  "quic_generator_get q =
     (case qc_events q of [] \<Rightarrow> (Fault, q) | e # es \<Rightarrow> (e, q\<lparr>qc_events := es\<rparr>))"

definition quic_queue :: "(quic_event, quic_error) result \<Rightarrow> ('n, 's) quic_client \<Rightarrow> ('n, 's) quic_client" where
  "quic_queue e q = q\<lparr>qc_events := qc_events q @ [e]\<rparr>"

section \<open>What the connection does on a callback\<close>

definition on_tls ::
  "(('n, 's) tls \<Rightarrow> ('a, quic_error) result \<times> ('n, 's) tls) \<Rightarrow> ('n, 's) quic_client \<Rightarrow>
   ('a, quic_error) result \<times> ('n, 's) quic_client" where
  "on_tls f q = on_member (\<lambda>(h, c). q\<lparr>qc_handshake := h, qc_ngtcp2 := c\<rparr>) (f (qc_handshake q, qc_ngtcp2 q))"

definition quic_client_initial :: "('n, 's) libraries \<Rightarrow> ('n, 's) quic_client \<Rightarrow> (unit, quic_error) result \<times> ('n, 's) quic_client" where
  "quic_client_initial L = on_tls (handshake_send L)"

definition quic_recv_crypto_data ::
  "('n, 's) libraries \<Rightarrow> crypto_level \<Rightarrow> bytes \<Rightarrow> ('n, 's) quic_client \<Rightarrow> (unit, quic_error) result \<times> ('n, 's) quic_client" where
  "quic_recv_crypto_data L level data q =
     (case on_tls (handshake_recv L level data) q of
        (Ok _, q) \<Rightarrow> (Ok (), q)
      | (Err e, q) \<Rightarrow> (if e = Q_incomplete then Ok () else Err e, q)
      | (Fault, q) \<Rightarrow> (Fault, q))"

definition quic_recv_stream_data :: "uint64 \<Rightarrow> bool \<Rightarrow> bytes \<Rightarrow> ('n, 's) quic_client \<Rightarrow> ('n, 's) quic_client" where
  "quic_recv_stream_data i fin data = quic_queue (Ok (Quic_data (make_data i fin data)))"

definition quic_acked_crypto_offset ::
  "crypto_level \<Rightarrow> nat \<Rightarrow> ('n, 's) quic_client \<Rightarrow> (unit, quic_error) result \<times> ('n, 's) quic_client" where
  "quic_acked_crypto_offset level n q =
     on_member (\<lambda>h. q\<lparr>qc_handshake := h\<rparr>) (handshake_ack level n (qc_handshake q))"

definition quic_acked_stream_data_offset ::
  "uint64 \<Rightarrow> nat \<Rightarrow> ('n, 's) quic_client \<Rightarrow> (unit, quic_error) result \<times> ('n, 's) quic_client" where
  "quic_acked_stream_data_offset i n q =
     (case map_find i (qc_streams q) of
        None \<Rightarrow> (Err Q_internal, q)
      | Some s \<Rightarrow>
          (case quic_stream_ack n s of
             (Ok _, s) \<Rightarrow>
               (Ok (), if quic_stream_finished s then q\<lparr>qc_streams := map_erase i (qc_streams q)\<rparr>
                       else q\<lparr>qc_streams := map_update i s (qc_streams q)\<rparr>)
           | (Err e, s) \<Rightarrow> (Err e, q\<lparr>qc_streams := map_update i s (qc_streams q)\<rparr>)
           | (Fault, s) \<Rightarrow> (Fault, q)))"

definition quic_stream_reset :: "uint64 \<Rightarrow> uint64 \<Rightarrow> uint64 \<Rightarrow> ('n, 's) quic_client \<Rightarrow> ('n, 's) quic_client" where
  "quic_stream_reset i final_size e =
     quic_queue (Ok (Quic_application_error \<lparr> ae_type = Rst_stream, ae_id = i, ae_value = e \<rparr>))"

text \<open>What is only written to the log.\<close>

definition quic_handshake_completed :: "('n, 's) quic_client \<Rightarrow> ('n, 's) quic_client" where
  "quic_handshake_completed q = q"

definition quic_stream_opened :: "uint64 \<Rightarrow> ('n, 's) quic_client \<Rightarrow> ('n, 's) quic_client" where
  "quic_stream_opened i q = q"

definition quic_stream_closed :: "uint64 \<Rightarrow> uint64 \<Rightarrow> ('n, 's) quic_client \<Rightarrow> ('n, 's) quic_client" where
  "quic_stream_closed i e q = q"

definition quic_remove_connection_id :: "bytes \<Rightarrow> ('n, 's) quic_client \<Rightarrow> ('n, 's) quic_client" where
  "quic_remove_connection_id cid q = q"

definition quic_extend_max_stream_data :: "uint64 \<Rightarrow> uint64 \<Rightarrow> ('n, 's) quic_client \<Rightarrow> ('n, 's) quic_client" where
  "quic_extend_max_stream_data i n q = q"

lemmas logged_only = quic_handshake_completed_def quic_stream_opened_def quic_stream_closed_def
  quic_remove_connection_id_def quic_extend_max_stream_data_def

definition quic_recv_stateless_reset :: "bytes \<Rightarrow> bytes \<Rightarrow> (unit, quic_error) result" where
  "quic_recv_stateless_reset bs token = Err Q_not_implemented"

definition quic_recv_retry :: "bytes \<Rightarrow> (unit, quic_error) result" where
  "quic_recv_retry dcid = Err Q_not_implemented"

definition extend_max_local_streams_bidi :: "uint64 \<Rightarrow> ('n, 's) quic_client \<Rightarrow> ('n, 's) quic_client" where
  "extend_max_local_streams_bidi n q = q\<lparr>qc_max_local_bidi := n\<rparr>"

definition extend_max_local_streams_uni :: "uint64 \<Rightarrow> ('n, 's) quic_client \<Rightarrow> ('n, 's) quic_client" where
  "extend_max_local_streams_uni n q = q\<lparr>qc_max_local_uni := n\<rparr>"

definition extend_max_remote_streams_bidi :: "uint64 \<Rightarrow> ('n, 's) quic_client \<Rightarrow> ('n, 's) quic_client" where
  "extend_max_remote_streams_bidi n q = q\<lparr>qc_max_remote_bidi := n\<rparr>"

definition extend_max_remote_streams_uni :: "uint64 \<Rightarrow> ('n, 's) quic_client \<Rightarrow> ('n, 's) quic_client" where
  "extend_max_remote_streams_uni n q = q\<lparr>qc_max_remote_uni := n\<rparr>"

definition quic_random :: "nat \<Rightarrow> ('n, 's) quic_client \<Rightarrow> bytes \<times> ('n, 's) quic_client" where
  "quic_random n q = (map (qc_prng q) [qc_drawn q..<qc_drawn q + n], q\<lparr>qc_drawn := qc_drawn q + n\<rparr>)"

definition quic_new_connection_id :: "nat \<Rightarrow> ('n, 's) quic_client \<Rightarrow> bytes \<times> ('n, 's) quic_client" where
  "quic_new_connection_id = quic_random"

definition quic_new_stateless_reset_token :: "nat \<Rightarrow> ('n, 's) quic_client \<Rightarrow> bytes \<times> ('n, 's) quic_client" where
  "quic_new_stateless_reset_token = quic_random"

definition quic_update_key :: "('n, 's) libraries \<Rightarrow> ('n, 's) quic_client \<Rightarrow> (unit, quic_error) result \<times> ('n, 's) quic_client" where
  "quic_update_key L = on_tls (handshake_update_keys L)"

definition quic_path_validation :: "bytes \<Rightarrow> bytes \<Rightarrow> bool \<Rightarrow> (unit, quic_error) result" where
  "quic_path_validation loc peer succeeded = (if \<not> succeeded then Err Q_path_validation else Ok ())"

text \<open>The address is copied over the memory that the library passes, which must be large enough.\<close>

definition quic_select_preferred_address ::
  "bytes \<Rightarrow> endpoint \<Rightarrow> endpoint \<Rightarrow> bytes \<Rightarrow> ('n, 's) quic_client \<Rightarrow> (bytes, quic_error) result" where
  "quic_select_preferred_address dest ipv4 ipv6 token q =
     (case address_type_of (ep_address (path_local (qc_path q))) of
        Ipv4_type \<Rightarrow> or_fault (mem_store dest 0 (address_bytes (ep_address ipv4)))
      | Ipv6_type \<Rightarrow> or_fault (mem_store dest 0 (address_bytes (ep_address ipv6))))"

definition quic_crypto :: "('n, 's) libraries \<Rightarrow> ('n, 's) quic_client \<Rightarrow> (crypto, quic_error) result" where
  "quic_crypto L q = negotiated_crypto L (qc_handshake q)"

section \<open>The callbacks of the library\<close>

text \<open>The static functions of the wrapper: call the connection and turn its result into a code.\<close>

definition ng_code ::
  "('n, 's) libraries \<Rightarrow> ('a, quic_error) result \<times> 'q \<Rightarrow> (answer, quic_error) result \<times> 'q" where
  "ng_code L m =
     (case m of
        (Ok _, q) \<Rightarrow> (Ok (0, []), q)
      | (Err _, q) \<Rightarrow> (Ok (ng_err_callback_failure (ngtcp2_lib L), []), q)
      | (Fault, q) \<Rightarrow> (Fault, q))"

definition crypto_code ::
  "('n, 's) libraries \<Rightarrow> (unit, quic_error) result \<times> 'q \<Rightarrow> (answer, quic_error) result \<times> 'q" where
  "crypto_code L m =
     (case m of
        (Ok _, q) \<Rightarrow> (Ok (0, []), q)
      | (Err e, q) \<Rightarrow>
          (Ok (if e = Q_handshake \<or> e = Q_crypto then ng_err_crypto (ngtcp2_lib L)
               else ng_err_callback_failure (ngtcp2_lib L), []), q)
      | (Fault, q) \<Rightarrow> (Fault, q))"

definition sized_code ::
  "('n, 's) libraries \<Rightarrow> int \<Rightarrow> (bytes, quic_error) result \<Rightarrow> 'q \<Rightarrow> (answer, quic_error) result \<times> 'q" where
  "sized_code L n r q =
     (case r of
        Ok dest \<Rightarrow> (Ok (n, [dest]), q)
      | Err _ \<Rightarrow> (Ok (ng_err_callback_failure (ngtcp2_lib L), []), q)
      | Fault \<Rightarrow> (Fault, q))"

definition initial_crypto :: crypto where
  "initial_crypto = \<lparr> cy_aead = Aes_128_gcm, cy_hash = Sha256 \<rparr>"

definition with_crypto ::
  "('n, 's) libraries \<Rightarrow> ('n, 's) quic_client \<Rightarrow> (crypto \<Rightarrow> (answer, quic_error) result \<times> ('n, 's) quic_client) \<Rightarrow>
   (answer, quic_error) result \<times> ('n, 's) quic_client" where
  "with_crypto L q k =
     (case quic_crypto L q of
        Ok c \<Rightarrow> k c
      | Err _ \<Rightarrow> (Ok (ng_err_callback_failure (ngtcp2_lib L), []), q)
      | Fault \<Rightarrow> (Fault, q))"

definition encrypt_with where
  "encrypt_with L c dest plaintext key nonce ad q =
     sized_code L (int (length plaintext + aead_overhead c)) (crypto_encrypt (crypto_lib L) c dest plaintext key nonce ad) q"

definition decrypt_with where
  "decrypt_with L c dest ciphertext key nonce ad q =
     sized_code L (int (length ciphertext) - int (aead_overhead c))
       (crypto_decrypt (crypto_lib L) c dest ciphertext key nonce ad) q"

definition hp_mask_with where
  "hp_mask_with L c dest key sample q =
     sized_code L (ng_hp_masklen (ngtcp2_lib L)) (crypto_hp_mask (crypto_lib L) c dest key sample) q"

text \<open>
  One definition per callback. The one for unidirectional streams calls \<open>extend_max_local_streams_bidi\<close>;
  the one for a validated path passes the local address twice.
\<close>

type_synonym ('n, 's) callback = "('n, 's) quic_client \<Rightarrow> (answer, quic_error) result \<times> ('n, 's) quic_client"

definition cb_client_initial :: "('n, 's) libraries \<Rightarrow> ('n, 's) callback" where
  "cb_client_initial L q = ng_code L (quic_client_initial L q)"

definition cb_recv_crypto_data :: "('n, 's) libraries \<Rightarrow> ngtcp2_level \<Rightarrow> bytes \<Rightarrow> ('n, 's) callback" where
  "cb_recv_crypto_data L level data q =
     crypto_code L (quic_recv_crypto_data L (level_from_ngtcp2 level) data q)"

definition cb_handshake_completed :: "('n, 's) callback" where
  "cb_handshake_completed q = (Ok (0, []), quic_handshake_completed q)"

definition cb_in_encrypt ::
  "('n, 's) libraries \<Rightarrow> bytes \<Rightarrow> bytes \<Rightarrow> bytes \<Rightarrow> bytes \<Rightarrow> bytes \<Rightarrow> ('n, 's) callback" where
  "cb_in_encrypt L dest plaintext key nonce ad q =
     encrypt_with L initial_crypto dest plaintext key nonce ad q"

definition cb_in_decrypt ::
  "('n, 's) libraries \<Rightarrow> bytes \<Rightarrow> bytes \<Rightarrow> bytes \<Rightarrow> bytes \<Rightarrow> bytes \<Rightarrow> ('n, 's) callback" where
  "cb_in_decrypt L dest ciphertext key nonce ad q =
     decrypt_with L initial_crypto dest ciphertext key nonce ad q"

definition cb_encrypt ::
  "('n, 's) libraries \<Rightarrow> bytes \<Rightarrow> bytes \<Rightarrow> bytes \<Rightarrow> bytes \<Rightarrow> bytes \<Rightarrow> ('n, 's) callback" where
  "cb_encrypt L dest plaintext key nonce ad q =
     with_crypto L q (\<lambda>c. encrypt_with L c dest plaintext key nonce ad q)"

definition cb_decrypt ::
  "('n, 's) libraries \<Rightarrow> bytes \<Rightarrow> bytes \<Rightarrow> bytes \<Rightarrow> bytes \<Rightarrow> bytes \<Rightarrow> ('n, 's) callback" where
  "cb_decrypt L dest ciphertext key nonce ad q =
     with_crypto L q (\<lambda>c. decrypt_with L c dest ciphertext key nonce ad q)"

definition cb_in_hp_mask :: "('n, 's) libraries \<Rightarrow> bytes \<Rightarrow> bytes \<Rightarrow> bytes \<Rightarrow> ('n, 's) callback" where
  "cb_in_hp_mask L dest key sample q = hp_mask_with L initial_crypto dest key sample q"

definition cb_hp_mask :: "('n, 's) libraries \<Rightarrow> bytes \<Rightarrow> bytes \<Rightarrow> bytes \<Rightarrow> ('n, 's) callback" where
  "cb_hp_mask L dest key sample q = with_crypto L q (\<lambda>c. hp_mask_with L c dest key sample q)"

definition cb_recv_stream_data :: "uint64 \<Rightarrow> int \<Rightarrow> bytes \<Rightarrow> ('n, 's) callback" where
  "cb_recv_stream_data i fin data q = (Ok (0, []), quic_recv_stream_data i (fin \<noteq> 0) data q)"

definition cb_acked_crypto_offset :: "('n, 's) libraries \<Rightarrow> ngtcp2_level \<Rightarrow> nat \<Rightarrow> ('n, 's) callback" where
  "cb_acked_crypto_offset L level n q = ng_code L (quic_acked_crypto_offset (level_from_ngtcp2 level) n q)"

definition cb_acked_stream_data_offset :: "('n, 's) libraries \<Rightarrow> uint64 \<Rightarrow> nat \<Rightarrow> ('n, 's) callback" where
  "cb_acked_stream_data_offset L i n q = ng_code L (quic_acked_stream_data_offset i n q)"

definition cb_stream_open :: "uint64 \<Rightarrow> ('n, 's) callback" where
  "cb_stream_open i q = (Ok (0, []), quic_stream_opened i q)"

definition cb_stream_close :: "uint64 \<Rightarrow> uint64 \<Rightarrow> ('n, 's) callback" where
  "cb_stream_close i e q = (Ok (0, []), quic_stream_closed i e q)"

definition cb_recv_stateless_reset :: "('n, 's) libraries \<Rightarrow> bytes \<Rightarrow> bytes \<Rightarrow> ('n, 's) callback" where
  "cb_recv_stateless_reset L bs token q = ng_code L (quic_recv_stateless_reset bs token, q)"

definition cb_recv_retry :: "('n, 's) libraries \<Rightarrow> ('n, 's) callback" where
  "cb_recv_retry L q = ng_code L (quic_recv_retry (ngtcp2_dcid (ngtcp2_lib L) (qc_ngtcp2 q)), q)"

definition cb_extend_max_local_streams_bidi :: "uint64 \<Rightarrow> ('n, 's) callback" where
  "cb_extend_max_local_streams_bidi n q = (Ok (0, []), extend_max_local_streams_bidi n q)"

definition cb_extend_max_local_streams_uni :: "uint64 \<Rightarrow> ('n, 's) callback" where
  "cb_extend_max_local_streams_uni n q = (Ok (0, []), extend_max_local_streams_bidi n q)"

definition cb_rand :: "nat \<Rightarrow> ('n, 's) callback" where
  "cb_rand n q = (let (bs, q) = quic_random n q in (Ok (0, [bs]), q))"

definition cb_get_new_connection_id :: "('n, 's) libraries \<Rightarrow> nat \<Rightarrow> ('n, 's) callback" where
  "cb_get_new_connection_id L n q =
     (let (cid, q) = quic_new_connection_id n q;
          (token, q) = quic_new_stateless_reset_token (ng_reset_tokenlen (ngtcp2_lib L)) q
      in (Ok (0, [cid, token]), q))"

definition cb_remove_connection_id :: "bytes \<Rightarrow> ('n, 's) callback" where
  "cb_remove_connection_id cid q = (Ok (0, []), quic_remove_connection_id cid q)"

definition cb_update_key :: "('n, 's) libraries \<Rightarrow> ('n, 's) callback" where
  "cb_update_key L q = ng_code L (quic_update_key L q)"

definition cb_path_validation :: "('n, 's) libraries \<Rightarrow> bytes \<Rightarrow> bytes \<Rightarrow> bool \<Rightarrow> ('n, 's) callback" where
  "cb_path_validation L loc peer succeeded q = ng_code L (quic_path_validation loc loc succeeded, q)"

definition cb_select_preferred_addr ::
  "('n, 's) libraries \<Rightarrow> bytes \<Rightarrow> bytes \<Rightarrow> uint16 \<Rightarrow> bytes \<Rightarrow> uint16 \<Rightarrow> bytes \<Rightarrow> ('n, 's) callback" where
  "cb_select_preferred_addr L dest ipv4 port4 ipv6 port6 token q =
     (case (ipv4_of_bytes (take ipv4_size ipv4), ipv6_of_bytes (take ipv6_size ipv6)) of
        (Some a4, Some a6) \<Rightarrow>
          sized_code L 0 (quic_select_preferred_address dest \<lparr> ep_address = Ipv4 a4, ep_port = port4 \<rparr>
            \<lparr> ep_address = Ipv6 a6, ep_port = port6 \<rparr> token q) q
      | _ \<Rightarrow> (Fault, q))"

definition cb_stream_reset :: "uint64 \<Rightarrow> uint64 \<Rightarrow> uint64 \<Rightarrow> ('n, 's) callback" where
  "cb_stream_reset i final_size e q = (Ok (0, []), quic_stream_reset i final_size e q)"

definition cb_extend_max_remote_streams_bidi :: "uint64 \<Rightarrow> ('n, 's) callback" where
  "cb_extend_max_remote_streams_bidi n q = (Ok (0, []), extend_max_remote_streams_bidi n q)"

definition cb_extend_max_remote_streams_uni :: "uint64 \<Rightarrow> ('n, 's) callback" where
  "cb_extend_max_remote_streams_uni n q = (Ok (0, []), extend_max_remote_streams_uni n q)"

definition cb_extend_max_stream_data :: "uint64 \<Rightarrow> uint64 \<Rightarrow> ('n, 's) callback" where
  "cb_extend_max_stream_data i n q = (Ok (0, []), quic_extend_max_stream_data i n q)"

lemmas callback_defs =
  cb_client_initial_def cb_recv_crypto_data_def cb_handshake_completed_def cb_in_encrypt_def
  cb_in_decrypt_def cb_encrypt_def cb_decrypt_def cb_in_hp_mask_def cb_hp_mask_def cb_recv_stream_data_def
  cb_acked_crypto_offset_def cb_acked_stream_data_offset_def cb_stream_open_def cb_stream_close_def
  cb_recv_stateless_reset_def cb_recv_retry_def cb_extend_max_local_streams_bidi_def
  cb_extend_max_local_streams_uni_def cb_rand_def cb_get_new_connection_id_def cb_remove_connection_id_def
  cb_update_key_def cb_path_validation_def cb_select_preferred_addr_def cb_stream_reset_def
  cb_extend_max_remote_streams_bidi_def cb_extend_max_remote_streams_uni_def cb_extend_max_stream_data_def

fun handle_ngtcp2 :: "('n, 's) libraries \<Rightarrow> ngtcp2_callback \<Rightarrow> ('n, 's) callback" where
  "handle_ngtcp2 L Cb_client_initial q = cb_client_initial L q"
| "handle_ngtcp2 L (Cb_recv_crypto_data level data) q = cb_recv_crypto_data L level data q"
| "handle_ngtcp2 L Cb_handshake_completed q = cb_handshake_completed q"
| "handle_ngtcp2 L (Cb_in_encrypt dest plaintext key nonce ad) q = cb_in_encrypt L dest plaintext key nonce ad q"
| "handle_ngtcp2 L (Cb_in_decrypt dest ciphertext key nonce ad) q = cb_in_decrypt L dest ciphertext key nonce ad q"
| "handle_ngtcp2 L (Cb_encrypt dest plaintext key nonce ad) q = cb_encrypt L dest plaintext key nonce ad q"
| "handle_ngtcp2 L (Cb_decrypt dest ciphertext key nonce ad) q = cb_decrypt L dest ciphertext key nonce ad q"
| "handle_ngtcp2 L (Cb_in_hp_mask dest key sample) q = cb_in_hp_mask L dest key sample q"
| "handle_ngtcp2 L (Cb_hp_mask dest key sample) q = cb_hp_mask L dest key sample q"
| "handle_ngtcp2 L (Cb_recv_stream_data i fin data) q = cb_recv_stream_data i fin data q"
| "handle_ngtcp2 L (Cb_acked_crypto_offset level n) q = cb_acked_crypto_offset L level n q"
| "handle_ngtcp2 L (Cb_acked_stream_data_offset i n) q = cb_acked_stream_data_offset L i n q"
| "handle_ngtcp2 L (Cb_stream_open i) q = cb_stream_open i q"
| "handle_ngtcp2 L (Cb_stream_close i e) q = cb_stream_close i e q"
| "handle_ngtcp2 L (Cb_recv_stateless_reset bs token) q = cb_recv_stateless_reset L bs token q"
| "handle_ngtcp2 L Cb_recv_retry q = cb_recv_retry L q"
| "handle_ngtcp2 L (Cb_extend_max_local_streams_bidi n) q = cb_extend_max_local_streams_bidi n q"
| "handle_ngtcp2 L (Cb_extend_max_local_streams_uni n) q = cb_extend_max_local_streams_uni n q"
| "handle_ngtcp2 L (Cb_rand n) q = cb_rand n q"
| "handle_ngtcp2 L (Cb_get_new_connection_id n) q = cb_get_new_connection_id L n q"
| "handle_ngtcp2 L (Cb_remove_connection_id cid) q = cb_remove_connection_id cid q"
| "handle_ngtcp2 L Cb_update_key q = cb_update_key L q"
| "handle_ngtcp2 L (Cb_path_validation loc peer succeeded) q = cb_path_validation L loc peer succeeded q"
| "handle_ngtcp2 L (Cb_select_preferred_addr dest ipv4 port4 ipv6 port6 token) q =
     cb_select_preferred_addr L dest ipv4 port4 ipv6 port6 token q"
| "handle_ngtcp2 L (Cb_stream_reset i final_size e) q = cb_stream_reset i final_size e q"
| "handle_ngtcp2 L (Cb_extend_max_remote_streams_bidi n) q = cb_extend_max_remote_streams_bidi n q"
| "handle_ngtcp2 L (Cb_extend_max_remote_streams_uni n) q = cb_extend_max_remote_streams_uni n q"
| "handle_ngtcp2 L (Cb_extend_max_stream_data i n) q = cb_extend_max_stream_data i n q"

definition put_conn :: "'n \<Rightarrow> ('n, 's) quic_client \<Rightarrow> ('n, 's) quic_client" where
  "put_conn n q = q\<lparr>qc_ngtcp2 := (qc_ngtcp2 q)\<lparr>nc_conn := n\<rparr>\<rparr>"

definition get_conn :: "('n, 's) quic_client \<Rightarrow> 'n" where
  "get_conn q = nc_conn (qc_ngtcp2 q)"

definition run_ngtcp2 ::
  "('n, 's) libraries \<Rightarrow> ('n, ngtcp2_callback, answer, 'a) script \<Rightarrow> ('n, 's) quic_client \<Rightarrow>
   ('a, quic_error) result \<times> ('n, 's) quic_client" where
  "run_ngtcp2 L = run_script put_conn get_conn (handle_ngtcp2 L)"

section \<open>The calls of the wrapper that may call back\<close>

definition with_clock ::
  "(uint64 \<Rightarrow> ('n, 's) quic_client \<Rightarrow> 'b) \<Rightarrow> ('n, 's) quic_client \<Rightarrow> 'b" where
  "with_clock f q = (let (ts, c) = read_clock (qc_ngtcp2 q) in f ts (q\<lparr>qc_ngtcp2 := c\<rparr>))"

text \<open>The packet is written to an array of zeros on the stack.\<close>

definition quic_write_pkt :: "('n, 's) libraries \<Rightarrow> ('n, 's) quic_client \<Rightarrow> (bytes, quic_error) result \<times> ('n, 's) quic_client" where
  "quic_write_pkt L =
     with_clock (\<lambda>ts q. let ng = ngtcp2_lib L in
       try_state (run_ngtcp2 L (ng_write_pkt ng (make_path (nc_path (qc_ngtcp2 q))) (replicate (ng_max_pktlen ng) 0)
           (timestamp_to_ngtcp2 ng ts) (get_conn q)) q)
         (\<lambda>a q. (written_pkt a, q)))"

definition quic_write_stream ::
  "('n, 's) libraries \<Rightarrow> uint64 \<Rightarrow> bytes \<Rightarrow> bool \<Rightarrow> ('n, 's) quic_client \<Rightarrow>
   (bytes \<times> nat, quic_error) result \<times> ('n, 's) quic_client" where
  "quic_write_stream L i data fin =
     with_clock (\<lambda>ts q. let ng = ngtcp2_lib L in
       try_state (run_ngtcp2 L (ng_write_stream ng (replicate (ng_max_pktlen ng) 0) i fin data
           (timestamp_to_ngtcp2 ng ts) (get_conn q)) q)
         (\<lambda>a q. (written_stream ng a, q)))"

definition quic_read_pkt :: "('n, 's) libraries \<Rightarrow> bytes \<Rightarrow> ('n, 's) quic_client \<Rightarrow> (unit, quic_error) result \<times> ('n, 's) quic_client" where
  "quic_read_pkt L packet =
     with_clock (\<lambda>ts q. let ng = ngtcp2_lib L in
       try_state (run_ngtcp2 L (ng_read_pkt ng (make_path (nc_path (qc_ngtcp2 q))) packet
           (timestamp_to_ngtcp2 ng ts) (get_conn q)) q)
         (\<lambda>rv q. (if rv \<noteq> 0 then Err Q_ngtcp2 else Ok (), q)))"

definition quic_open :: "('n, 's) libraries \<Rightarrow> uint64 \<Rightarrow> ('n, 's) quic_client \<Rightarrow> (unit, quic_error) result \<times> ('n, 's) quic_client" where
  "quic_open L i q = on_member (\<lambda>c. q\<lparr>qc_ngtcp2 := c\<rparr>) (ngtcp2_open (ngtcp2_lib L) i (qc_ngtcp2 q))"

section \<open>The operations of the connection\<close>

definition quic_send_stream ::
  "('n, 's) libraries \<Rightarrow> uint64 \<Rightarrow> ('n, 's) quic_client \<Rightarrow> (bytes, quic_error) result \<times> ('n, 's) quic_client" where
  "quic_send_stream L i =
     quic_stream_send (\<lambda>q. map_find i (qc_streams q)) (\<lambda>s q. q\<lparr>qc_streams := map_update i s (qc_streams q)\<rparr>)
       (quic_open L) (quic_write_stream L)"

text \<open>
  The loop over the streams. No callback adds a stream, but one may erase one: a later stream that is gone is
  not visited, and going on from the stream at hand is undefined when it is gone itself.
\<close>

fun quic_send_streams ::
  "('n, 's) libraries \<Rightarrow> uint64 list \<Rightarrow> ('n, 's) quic_client \<Rightarrow> (bytes, quic_error) result \<times> ('n, 's) quic_client" where
  "quic_send_streams L [] q = (Err Q_idle, q)"
| "quic_send_streams L (i # is) q =
     (if map_find i (qc_streams q) = None then quic_send_streams L is q
      else (case quic_send_stream L i q of
          (Ok packet, q) \<Rightarrow> (Ok packet, q)
        | (Err e, q) \<Rightarrow>
            if e \<noteq> Q_idle then (Err e, q)
            else if map_find i (qc_streams q) = None then (Fault, q)
            else quic_send_streams L is q
        | (Fault, q) \<Rightarrow> (Fault, q)))"

definition quic_send :: "('n, 's) libraries \<Rightarrow> ('n, 's) quic_client \<Rightarrow> (bytes, quic_error) result \<times> ('n, 's) quic_client" where
  "quic_send L q =
     try_state (on_tls (handshake_send L) q) (\<lambda>_ q.
     case quic_write_pkt L q of
       (Ok packet, q) \<Rightarrow> (Ok packet, q)
     | (Err e, q) \<Rightarrow>
         if e \<noteq> Q_idle then (Err e, q)
         else if \<not> handshake_completed L (qc_handshake q, qc_ngtcp2 q) then (Err Q_idle, q)
         else quic_send_streams L (map_keys (qc_streams q)) q
     | (Fault, q) \<Rightarrow> (Fault, q))"

text \<open>An error of \<open>read_pkt\<close> is queued behind the events of the packet.\<close>

definition quic_recv :: "('n, 's) libraries \<Rightarrow> bytes \<Rightarrow> ('n, 's) quic_client \<Rightarrow> (unit, quic_error) result \<times> ('n, 's) quic_client" where
  "quic_recv L data q =
     (case quic_read_pkt L data q of
        (Ok _, q) \<Rightarrow> (Ok (), q)
      | (Err e, q) \<Rightarrow> (Ok (), quic_queue (Err e) q)
      | (Fault, q) \<Rightarrow> (Fault, q))"

definition quic_add_data :: "quic_data \<Rightarrow> ('n, 's) quic_client \<Rightarrow> (unit, quic_error) result \<times> ('n, 's) quic_client" where
  "quic_add_data data q =
     (let i = data_id data;
          q = (if map_find i (qc_streams q) = None
               then q\<lparr>qc_streams := map_insert i (new_quic_stream i) (qc_streams q)\<rparr> else q)
      in try_in q (or_fault (map_find i (qc_streams q))) (\<lambda>s.
         let put = \<lambda>s. q\<lparr>qc_streams := map_update i s (qc_streams q)\<rparr>
         in case quic_stream_add (data_buffer data) s of
              (Ok _, s) \<Rightarrow> if data_fin data then on_member put (quic_stream_fin s) else (Ok (), put s)
            | (Err e, s) \<Rightarrow> (Err e, put s)
            | (Fault, s) \<Rightarrow> (Fault, put s)))"

definition quic_add :: "quic_event \<Rightarrow> ('n, 's) quic_client \<Rightarrow> (unit, quic_error) result \<times> ('n, 's) quic_client" where
  "quic_add event q =
     (case event of
        Quic_data data \<Rightarrow> quic_add_data data q
      | Quic_application_error e \<Rightarrow> (Err Q_not_implemented, q))"

definition quic_timeout :: "('n, 's) libraries \<Rightarrow> ('n, 's) quic_client \<Rightarrow> uint64" where
  "quic_timeout L q = ngtcp2_timeout (ngtcp2_lib L) (qc_ngtcp2 q)"

definition quic_expiry :: "('n, 's) libraries \<Rightarrow> ('n, 's) quic_client \<Rightarrow> uint64" where
  "quic_expiry L q = ngtcp2_expiry (ngtcp2_lib L) (qc_ngtcp2 q)"

definition quic_expire :: "('n, 's) libraries \<Rightarrow> ('n, 's) quic_client \<Rightarrow> (unit, quic_error) result \<times> ('n, 's) quic_client" where
  "quic_expire L q = on_member (\<lambda>c. q\<lparr>qc_ngtcp2 := c\<rparr>) (ngtcp2_expire (ngtcp2_lib L) (qc_ngtcp2 q))"

end
