(* ===== verification/Quic_Run.thy ===== *)
theory Quic_Run
  imports Quic_Client "HOL-Library.Sublist"
begin

text \<open>
  What holds of a QUIC client whatever its libraries do: the shape of its state in every run, and the
  events that come out of a packet.
\<close>

section \<open>What the handshake leaves alone\<close>

lemma keeps_try_state:
  "P (snd m) \<Longrightarrow> (\<And>a s. P s \<Longrightarrow> P (snd (k a s))) \<Longrightarrow> P (snd (try_state m k))"
  by (cases m) (auto simp: try_state_def split: result.splits)

lemma keeps_try_in: "P s \<Longrightarrow> (\<And>a. P (snd (k a))) \<Longrightarrow> P (snd (try_in s r k))"
  by (cases r) simp_all

definition on_path :: "quic_path \<Rightarrow> ('n, 's) tls \<Rightarrow> bool" where
  "on_path p t \<longleftrightarrow> nc_path (snd t) = p"

lemma on_path_pair [simp]: "on_path p (h, c) \<longleftrightarrow> nc_path c = p"
  by (simp add: on_path_def)

lemma ngtcp2_call_path [simp]: "nc_path (snd (ngtcp2_call f c)) = nc_path c"
  by (simp add: ngtcp2_call_def Let_def split: prod.splits)

lemmas path_try_state = keeps_try_state [where P = "on_path p" for p]
lemmas path_try_in = keeps_try_in [where P = "on_path p" for p]

lemma on_ngtcp2_path:
  assumes "\<And>c. nc_path (snd (f c)) = nc_path c" and "on_path p t"
  shows "on_path p (snd (on_ngtcp2 f t))"
proof -
  obtain r c where f: "f (snd t) = (r, c)" by (cases "f (snd t)")
  then have "nc_path c = nc_path (snd t)" using assms(1) [of "snd t"] by simp
  then show ?thesis using assms(2) f by (simp add: on_ngtcp2_def on_path_def)
qed

lemma ngtcp2_paths [simp]:
  "nc_path (snd (install_key lib slot key c)) = nc_path c"
  "nc_path (snd (update_tx_keys lib key c)) = nc_path c"
  "nc_path (snd (update_rx_keys lib key c)) = nc_path c"
  "nc_path (snd (submit_crypto_data lib level data c)) = nc_path c"
  "nc_path (snd (set_remote_transport_parameters lib encoded c)) = nc_path c"
  "nc_path (Ngtcp2.set_aead_overhead lib n c) = nc_path c"
  "nc_path (set_handshake_completed lib c) = nc_path c"
  by (simp_all add: install_key_def update_tx_keys_def update_rx_keys_def submit_crypto_data_def
      set_remote_transport_parameters_def set_aead_overhead_def set_handshake_completed_def)

lemma set_encryption_secrets_path:
  "on_path p t \<Longrightarrow> on_path p (snd (set_encryption_secrets L level r w t))"
  unfolding set_encryption_secrets_def Let_def install_defs
  by (cases level; simp) (intro path_try_in path_try_state on_ngtcp2_path; cases t; simp add: on_path_def)+

lemma add_handshake_data_path: "on_path p t \<Longrightarrow> on_path p (snd (add_handshake_data L level data t))"
  unfolding add_handshake_data_def Let_def
  by (intro path_try_in on_ngtcp2_path; cases t; simp)

lemma ssl_code_path: "on_path p (snd m) \<Longrightarrow> on_path p (snd (ssl_code m))"
  by (cases m) (simp add: ssl_code_def split: result.splits)

lemma handle_ssl_path: "on_path p t \<Longrightarrow> on_path p (snd (handle_ssl L c t))"
  by (cases c) (simp_all add: ssl_code_path set_encryption_secrets_path add_handshake_data_path)

lemma run_ssl_path: "on_path p t \<Longrightarrow> on_path p (snd (run_ssl L script t))"
  unfolding run_ssl_def
  by (rule run_script_keeps [where P = "on_path p"]) (auto intro: handle_ssl_path)

lemma handshake_update_keys_path: "on_path p t \<Longrightarrow> on_path p (snd (handshake_update_keys L t))"
  unfolding handshake_update_keys_def Let_def
  by (intro path_try_in path_try_state on_ngtcp2_path; cases t; simp add: on_path_def)

lemma handshake_send_path: "on_path p t \<Longrightarrow> on_path p (snd (handshake_send L t))"
  unfolding handshake_send_def by (intro path_try_state run_ssl_path) simp_all

lemma handshake_recv_path: "on_path p t \<Longrightarrow> on_path p (snd (handshake_recv L level data t))"
  unfolding handshake_recv_def Let_def on_ssl_def
  by (cases t) (auto split: prod.splits intro!: path_try_state run_ssl_path on_ngtcp2_path)

section \<open>What a callback can change\<close>

text \<open>
  The streams are sorted by id and know their id, what a stream holds is the end of what was added under
  its id (\<open>A\<close>), the path is the one the library was given, and the limit on unidirectional streams is
  never set.
\<close>

definition stream_bytes :: "quic_stream \<Rightarrow> bytes" where
  "stream_bytes s = concat (qs_keepalive s) @ concat (qs_buffers s)"

definition quic_ok :: "(uint64 \<Rightarrow> bytes) \<Rightarrow> ('n, 's) quic_client \<Rightarrow> bool" where
  "quic_ok A q \<longleftrightarrow> map_ok (qc_streams q) \<and>
     (\<forall>i s. map_find i (qc_streams q) = Some s \<longrightarrow> qs_id s = i \<and> suffix (stream_bytes s) (A i)) \<and>
     nc_path (qc_ngtcp2 q) = qc_path q \<and> qc_max_local_uni q = 0"

lemma quic_okD:
  "quic_ok A q \<Longrightarrow> map_find i (qc_streams q) = Some s \<Longrightarrow> qs_id s = i \<and> suffix (stream_bytes s) (A i)"
  by (simp add: quic_ok_def)

lemma quic_ok_update:
  "quic_ok A q \<Longrightarrow> qs_id s = i \<Longrightarrow> suffix (stream_bytes s) (A i) \<Longrightarrow>
   quic_ok A (q\<lparr>qc_streams := map_update i s (qc_streams q)\<rparr>)"
  by (auto simp: quic_ok_def map.update_ok map.find_update)

lemma quic_ok_erase: "quic_ok A q \<Longrightarrow> quic_ok A (q\<lparr>qc_streams := map_erase i (qc_streams q)\<rparr>)"
  by (auto simp: quic_ok_def map.erase_ok map.find_erase)

lemma on_tls_ok:
  assumes "quic_ok A q" and "\<And>p t. on_path p t \<Longrightarrow> on_path p (snd (f t))"
  shows "quic_ok A (snd (on_tls f q))"
proof -
  obtain r h c where f: "f (qc_handshake q, qc_ngtcp2 q) = (r, h, c)" by (cases "f (qc_handshake q, qc_ngtcp2 q)") auto
  have "nc_path c = nc_path (qc_ngtcp2 q)"
    using assms(2) [of "nc_path (qc_ngtcp2 q)" "(qc_handshake q, qc_ngtcp2 q)"] f by simp
  then show ?thesis using assms(1) f by (simp add: on_tls_def quic_ok_def)
qed

lemma on_tls_events: "qc_events (snd (on_tls f q)) = qc_events q"
  by (simp add: on_tls_def on_member_def split: prod.splits)

lemma quic_stream_ack_id: "qs_id (snd (quic_stream_ack n s)) = qs_id s"
  by (simp add: quic_stream_ack_def try_in_def split: result.splits)

lemma quic_stream_ack_bytes: "suffix (stream_bytes (snd (quic_stream_ack n s))) (stream_bytes s)"
proof (cases "n \<le> length (concat (qs_keepalive s))")
  case True
  then obtain bs where "buffers_consume (qs_keepalive s) n = Some bs" "concat bs = drop n (concat (qs_keepalive s))"
    using buffers_consume_Ok by blast
  then show ?thesis using True by (simp add: quic_stream_ack_def stream_bytes_def suffix_drop)
qed (simp add: quic_stream_ack_def)

lemma code_keeps [simp]:
  "snd (ng_code L m) = snd m" "snd (crypto_code L m) = snd m" "snd (sized_code L n r q) = q"
  by (simp_all add: ng_code_def crypto_code_def sized_code_def split: prod.splits result.splits)

lemma with_crypto_keeps: "(\<And>c. snd (k c) = q) \<Longrightarrow> snd (with_crypto L q k) = q"
  by (simp add: with_crypto_def split: result.splits)

lemma cb_keeps [simp]:
  "snd (encrypt_with L c dest b key nonce ad q) = q" "snd (decrypt_with L c dest b key nonce ad q) = q"
  "snd (hp_mask_with L c dest key sample q) = q"
  by (simp_all add: encrypt_with_def decrypt_with_def hp_mask_with_def)

lemma quic_recv_crypto_data_tls: "snd (quic_recv_crypto_data L level data q) = snd (on_tls (handshake_recv L level data) q)"
  by (simp add: quic_recv_crypto_data_def split: prod.splits result.splits)

lemma acked_stream_ok: "quic_ok A q \<Longrightarrow> quic_ok A (snd (quic_acked_stream_data_offset i n q))"
proof -
  assume ok: "quic_ok A q"
  show ?thesis
  proof (cases "map_find i (qc_streams q)")
    case (Some s)
    have i: "qs_id s = i" "suffix (stream_bytes s) (A i)" using quic_okD [OF ok Some] by simp_all
    obtain r s' where a: "quic_stream_ack n s = (r, s')" by (cases "quic_stream_ack n s")
    then have "qs_id s' = i" using quic_stream_ack_id [of n s] i by simp
    moreover have "suffix (stream_bytes s') (A i)"
      using quic_stream_ack_bytes [of n s] a i(2) suffix_order.trans by simp
    ultimately have "quic_ok A (q\<lparr>qc_streams := map_update i s' (qc_streams q)\<rparr>)" using quic_ok_update [OF ok] by blast
    then show ?thesis using Some a ok quic_ok_erase [OF ok, of i]
      by (cases r) (simp_all add: quic_acked_stream_data_offset_def)
  qed (simp add: quic_acked_stream_data_offset_def ok)
qed

lemma acked_stream_events: "qc_events (snd (quic_acked_stream_data_offset i n q)) = qc_events q"
  by (simp add: quic_acked_stream_data_offset_def split: option.splits prod.splits result.splits)

lemma acked_crypto: "snd (quic_acked_crypto_offset level n q) = q\<lparr>qc_handshake := snd (handshake_ack level n (qc_handshake q))\<rparr>"
  by (simp add: quic_acked_crypto_offset_def on_member_def split: prod.splits)

lemma handle_ngtcp2_ok: "quic_ok A q \<Longrightarrow> quic_ok A (snd (handle_ngtcp2 L c q))"
proof -
  assume ok: "quic_ok A q"
  have fields: "quic_ok A (q\<lparr>qc_drawn := d\<rparr>)" "quic_ok A (q\<lparr>qc_handshake := h\<rparr>)" "quic_ok A (quic_queue e q)"
    "quic_ok A (q\<lparr>qc_max_local_bidi := m\<rparr>)" "quic_ok A (q\<lparr>qc_max_remote_bidi := m\<rparr>)" "quic_ok A (q\<lparr>qc_max_remote_uni := m\<rparr>)"
    for d h e m using ok by (simp_all add: quic_ok_def quic_queue_def)
  show ?thesis
  proof (cases c)
    case (Cb_encrypt dest b key nonce ad)
    then show ?thesis using ok with_crypto_keeps by (metis cb_keeps(1) cb_encrypt_def handle_ngtcp2.simps(6))
  next
    case (Cb_decrypt dest b key nonce ad)
    then show ?thesis using ok with_crypto_keeps by (metis cb_keeps(2) cb_decrypt_def handle_ngtcp2.simps(7))
  next
    case (Cb_hp_mask dest key sample)
    then show ?thesis using ok with_crypto_keeps by (metis cb_keeps(3) cb_hp_mask_def handle_ngtcp2.simps(9))
  qed (use ok fields acked_stream_ok in \<open>auto simp: callback_defs logged_only Let_def quic_random_def quic_new_connection_id_def
      quic_new_stateless_reset_token_def quic_client_initial_def quic_update_key_def quic_recv_crypto_data_tls
      acked_crypto quic_recv_stream_data_def quic_stream_reset_def extend_max_local_streams_bidi_def
      extend_max_remote_streams_bidi_def extend_max_remote_streams_uni_def
      intro!: on_tls_ok handshake_send_path handshake_recv_path handshake_update_keys_path
      split: option.splits\<close>)
qed

lemma put_conn_ok: "quic_ok A q \<Longrightarrow> quic_ok A (put_conn n q)"
  by (simp add: quic_ok_def put_conn_def)

lemma run_ngtcp2_ok: "quic_ok A q \<Longrightarrow> quic_ok A (snd (run_ngtcp2 L script q))"
  unfolding run_ngtcp2_def by (rule run_script_keeps) (simp_all add: put_conn_ok handle_ngtcp2_ok)

section \<open>Runs of a client\<close>

text \<open>What an event adds to a stream, when \<open>add\<close> accepts it.\<close>

definition record_add :: "quic_event \<Rightarrow> (unit, quic_error) result \<Rightarrow> (uint64 \<Rightarrow> bytes) \<Rightarrow> uint64 \<Rightarrow> bytes" where
  "record_add event r A =
     (case (event, r) of (Quic_data d, Ok _) \<Rightarrow> A(data_id d := A (data_id d) @ data_buffer d) | _ \<Rightarrow> A)"

text \<open>What can happen to a client; \<open>A\<close> is what was added to each stream.\<close>

inductive quic_run :: "('n, 's) libraries \<Rightarrow> (uint64 \<Rightarrow> bytes) \<Rightarrow> ('n, 's) quic_client \<Rightarrow> bool" for L where
  fresh: "new_quic_client L host path p clock prng = Some q \<Longrightarrow> quic_run L (\<lambda>_. []) q"
| sent: "quic_run L A q \<Longrightarrow> quic_send L q = (r, q') \<Longrightarrow> quic_run L A q'"
| received: "quic_run L A q \<Longrightarrow> quic_recv L data q = (r, q') \<Longrightarrow> quic_run L A q'"
| added: "quic_run L A q \<Longrightarrow> quic_add event q = (r, q') \<Longrightarrow> quic_run L (record_add event r A) q'"
| taken: "quic_run L A q \<Longrightarrow> quic_generator_get q = (r, q') \<Longrightarrow> quic_run L A q'"
| expired: "quic_run L A q \<Longrightarrow> quic_expire L q = (r, q') \<Longrightarrow> quic_run L A q'"

lemma new_handshake_path: "new_handshake L host dcid c = Some (h, c') \<Longrightarrow> nc_path c' = nc_path c"
proof -
  have "on_path p t \<Longrightarrow> on_path p (snd (handshake_init L host dcid t))" for p t
    unfolding handshake_init_def Let_def install_defs
    by (intro path_try_in path_try_state on_ngtcp2_path)
      (cases t; auto simp: on_path_def on_ssl_def set_ssl_def split: prod.splits intro!: path_try_in [unfolded on_path_def])+
  note init = this
  assume "new_handshake L host dcid c = Some (h, c')"
  then obtain h0 where "handshake_init L host dcid (h0, c) = (Ok (), h, c')"
    by (auto simp: new_handshake_def Let_def split: prod.splits result.splits)
  then show "nc_path c' = nc_path c" using init [of "nc_path c" "(h0, c)"] by simp
qed

lemma new_quic_client_ok: "new_quic_client L host path p clock prng = Some q \<Longrightarrow> quic_ok A q"
proof -
  assume new: "new_quic_client L host path p clock prng = Some q"
  then obtain c0 drawn h c where c: "new_ngtcp2_connection (ngtcp2_lib L) path p clock prng 0 = Some (c0, drawn)"
      "new_handshake L host (ngtcp2_dcid (ngtcp2_lib L) c0) c0 = Some (h, c)"
      "qc_ngtcp2 q = c" "qc_path q = path" "qc_streams q = []" "qc_max_local_uni q = 0"
    by (auto simp: new_quic_client_def split: Option.bind_splits)
  have "nc_path c0 = path" using c(1)
    by (auto simp: new_ngtcp2_connection_def Let_def split: prod.splits if_splits)
  then show ?thesis using c new_handshake_path [OF c(2)] by (simp add: quic_ok_def map_ok_def map_keys_def map_find_def)
qed

lemma buffers_slice_concat:
  assumes "buffers_slice bs n = Some (r, bs')"
  shows "r @ concat bs' = concat bs"
proof -
  have n: "n \<le> length (concat bs)" using assms by (simp add: buffers_slice_def split: if_splits)
  have "concat bs \<noteq> []"
  proof
    assume "concat bs = []"
    then have "snd (find_first_not_empty bs) = []" by (simp add: find_first_not_empty_eq dropWhile_eq_Nil_conv)
    then show False using assms
      by (cases "find_first_not_empty bs") (simp del: concat_eq_Nil_conv add: buffers_slice_def split: if_splits)
  qed
  then show ?thesis using buffers_slice_Ok [OF n] assms by (metis Pair_inject append_take_drop_id option.inject)
qed

lemma quic_stream_take_keeps:
  "qs_id (snd (quic_stream_take n s)) = qs_id s" "stream_bytes (snd (quic_stream_take n s)) = stream_bytes s"
  using buffers_slice_concat [of "qs_buffers s" n]
  by (auto simp: quic_stream_take_def try_in_def or_fault_def stream_bytes_def split: option.splits)

lemma quic_stream_send_keeps:
  assumes put: "\<And>q s s'. P q \<Longrightarrow> get q = Some s \<Longrightarrow> qs_id s' = qs_id s \<Longrightarrow>
      stream_bytes s' = stream_bytes s \<Longrightarrow> P (put s' q)"
    and opens: "\<And>q i. P q \<Longrightarrow> P (snd (open_to i q))" and writes: "\<And>q i b fin. P q \<Longrightarrow> P (snd (write_to i b fin q))"
    and q: "P q"
  shows "P (snd (quic_stream_send get put open_to write_to q))"
proof -
  have o: "P (snd (quic_stream_open get put open_to s q))" if "P q" for s q
  proof -
    obtain r q' where oq: "open_to (qs_id s) q = (r, q')" by (cases "open_to (qs_id s) q")
    then have q': "P q'" using opens [OF that, of "qs_id s"] by simp
    show ?thesis
    proof (cases r)
      case (Ok a)
      then show ?thesis using oq q' that put by (cases "get q'") (simp_all add: quic_stream_open_def stream_bytes_def)
    qed (use oq q' that in \<open>simp_all add: quic_stream_open_def\<close>)
  qed
  have w: "P (snd (case write_to i b fin q of
        (Err e, q) \<Rightarrow> (Err (if e = Q_stream_id_blocked \<or> e = Q_stream_data_blocked then Q_idle else e), q)
      | (Fault, q) \<Rightarrow> (Fault, q)
      | (Ok (packet, n), q) \<Rightarrow>
          try_in q (or_fault (get q)) (\<lambda>s.
          try_state (on_member (\<lambda>s. put s q) (quic_stream_take n s)) (\<lambda>_ q. (Ok packet, q)))))"
    if "P q" for i b fin q
  proof -
    obtain r q' where wq: "write_to i b fin q = (r, q')" by (cases "write_to i b fin q")
    then have q': "P q'" using writes [OF that, of i b fin] by simp
    show ?thesis
    proof (cases r)
      case (Ok a)
      show ?thesis
      proof (cases "get q'")
        case (Some s)
        obtain r' s' where t: "quic_stream_take (snd a) s = (r', s')" by (cases "quic_stream_take (snd a) s")
        then have "P (put s' q')" using put [OF q' Some] quic_stream_take_keeps [of "snd a" s] by simp
        then show ?thesis using wq Ok Some t by (cases r'; cases a) simp_all
      qed (use wq Ok q' in \<open>simp add: or_fault_def split: prod.split\<close>)
    qed (use wq q' in simp_all)
  qed
  have after: "P (snd (try_in q (or_fault (get q)) (\<lambda>s.
        try_in q (or_fault (buffers_front (qs_buffers s))) (\<lambda>first.
        try_in q (or_fault (buffers_back (qs_buffers s))) (\<lambda>back.
        case write_to (qs_id s) first (qs_fin s \<and> first = back) q of
          (Err e, q) \<Rightarrow> (Err (if e = Q_stream_id_blocked \<or> e = Q_stream_data_blocked then Q_idle else e), q)
        | (Fault, q) \<Rightarrow> (Fault, q)
        | (Ok (packet, n), q) \<Rightarrow>
            try_in q (or_fault (get q)) (\<lambda>s.
            try_state (on_member (\<lambda>s. put s q) (quic_stream_take n s)) (\<lambda>_ q. (Ok packet, q))))))))"
    if "P q" for q
    by (rule keeps_try_in [where P = P], rule that)+ (rule w [OF that])
  show ?thesis
  proof (cases "get q")
    case (Some s)
    show ?thesis
    proof (cases "buffers_empty (qs_buffers s)")
      case False
      obtain r q' where oq: "quic_stream_open get put open_to s q = (r, q')" by (cases "quic_stream_open get put open_to s q")
      then have "P q'" using o [OF q, of s] by simp
      then show ?thesis using Some False oq after [of q']
        by (cases r) (simp_all del: buffers_empty_eq add: quic_stream_send_def Let_def)
    qed (use Some q in \<open>simp add: quic_stream_send_def\<close>)
  qed (use q in \<open>simp add: quic_stream_send_def\<close>)
qed

lemma with_clock_ok:
  assumes ok: "quic_ok A q" and f: "\<And>ts q. quic_ok A q \<Longrightarrow> quic_ok A (snd (f ts q))"
  shows "quic_ok A (snd (with_clock f q))"
proof -
  have "quic_ok A (q\<lparr>qc_ngtcp2 := (qc_ngtcp2 q)\<lparr>nc_ticks := Suc (nc_ticks (qc_ngtcp2 q))\<rparr>\<rparr>)"
    using ok by (simp add: quic_ok_def)
  then show ?thesis unfolding with_clock_def read_clock_def Let_def prod.case by (rule f)
qed

lemmas ok_try_state = keeps_try_state [where P = "quic_ok A" for A]
lemmas ok_try_in = keeps_try_in [where P = "quic_ok A" for A]

lemma quic_write_pkt_ok: "quic_ok A q \<Longrightarrow> quic_ok A (snd (quic_write_pkt L q))"
  unfolding quic_write_pkt_def Let_def
  by (erule with_clock_ok) (rule ok_try_state, erule run_ngtcp2_ok, simp)

lemma quic_write_stream_ok: "quic_ok A q \<Longrightarrow> quic_ok A (snd (quic_write_stream L i data fin q))"
  unfolding quic_write_stream_def Let_def
  by (erule with_clock_ok) (rule ok_try_state, erule run_ngtcp2_ok, simp)

lemma quic_read_pkt_ok: "quic_ok A q \<Longrightarrow> quic_ok A (snd (quic_read_pkt L data q))"
  unfolding quic_read_pkt_def Let_def
  by (erule with_clock_ok) (rule ok_try_state, erule run_ngtcp2_ok, simp)

lemma ngtcp2_open_path: "nc_path (snd (ngtcp2_open lib i c)) = nc_path c"
  by (simp add: ngtcp2_open_def Let_def split: prod.splits)

lemma ngtcp2_expire_path: "nc_path (snd (ngtcp2_expire lib c)) = nc_path c"
  unfolding ngtcp2_expire_def read_clock_def Let_def prod.case
  by (rule keeps_try_state [where P = "\<lambda>c'. nc_path c' = nc_path c"]) simp_all

lemma on_conn_ok:
  assumes "quic_ok A q" and "nc_path (snd m) = nc_path (qc_ngtcp2 q)"
  shows "quic_ok A (snd (on_member (\<lambda>c. q\<lparr>qc_ngtcp2 := c\<rparr>) m))"
  using assms by (cases m) (simp add: quic_ok_def)

lemma quic_send_stream_ok: "quic_ok A q \<Longrightarrow> quic_ok A (snd (quic_send_stream L i q))"
  unfolding quic_send_stream_def
proof (rule quic_stream_send_keeps [where P = "quic_ok A"])
  fix q :: "('a, 'b) quic_client" and s s' :: quic_stream
  assume q: "quic_ok A q" and "map_find i (qc_streams q) = Some s" "qs_id s' = qs_id s" "stream_bytes s' = stream_bytes s"
  then show "quic_ok A (q\<lparr>qc_streams := map_update i s' (qc_streams q)\<rparr>)"
    using quic_okD [OF q, of i s] by (intro quic_ok_update) simp_all
qed (auto simp: quic_open_def quic_write_stream_ok intro!: on_conn_ok ngtcp2_open_path)

lemma quic_send_streams_ok: "quic_ok A q \<Longrightarrow> quic_ok A (snd (quic_send_streams L is q))"
proof (induction L "is" q rule: quic_send_streams.induct)
  case (2 L i "is" q)
  obtain r q' where s: "quic_send_stream L i q = (r, q')" by (cases "quic_send_stream L i q")
  then have "quic_ok A q'" using quic_send_stream_ok [OF "2.prems", of L i] by simp
  then show ?case using 2 s by (cases "map_find i (qc_streams q)"; cases r) simp_all
qed simp

lemma quic_send_ok: "quic_ok A q \<Longrightarrow> quic_ok A (snd (quic_send L q))"
proof -
  assume "quic_ok A q"
  then have h: "quic_ok A (snd (on_tls (handshake_send L) q))" by (intro on_tls_ok handshake_send_path)
  have "quic_ok A (snd (case quic_write_pkt L q of
       (Ok packet, q) \<Rightarrow> (Ok packet, q)
     | (Err e, q) \<Rightarrow>
         if e \<noteq> Q_idle then (Err e, q)
         else if \<not> handshake_completed L (qc_handshake q, qc_ngtcp2 q) then (Err Q_idle, q)
         else quic_send_streams L (map_keys (qc_streams q)) q
     | (Fault, q) \<Rightarrow> (Fault, q)))" if "quic_ok A q" for q
    using quic_write_pkt_ok [OF that, of L] quic_send_streams_ok by (auto split: prod.splits result.splits)
  then show ?thesis unfolding quic_send_def using h by (intro ok_try_state)
qed

lemma quic_queue_ok: "quic_ok A q \<Longrightarrow> quic_ok A (quic_queue e q)"
  by (simp add: quic_ok_def quic_queue_def)

lemma quic_recv_ok: "quic_ok A q \<Longrightarrow> quic_ok A (snd (quic_recv L data q))"
proof -
  assume ok: "quic_ok A q"
  obtain r q' where r: "quic_read_pkt L data q = (r, q')" by (cases "quic_read_pkt L data q")
  then have "quic_ok A q'" using quic_read_pkt_ok [OF ok, of L data] by simp
  then show ?thesis using r by (cases r) (simp_all add: quic_recv_def quic_queue_ok)
qed

text \<open>The stream of an event is created when there is none.\<close>

definition with_stream :: "uint64 \<Rightarrow> ('n, 's) quic_client \<Rightarrow> ('n, 's) quic_client" where
  "with_stream i q = (if map_find i (qc_streams q) = None
     then q\<lparr>qc_streams := map_insert i (new_quic_stream i) (qc_streams q)\<rparr> else q)"

lemma with_stream_find:
  "map_ok (qc_streams q) \<Longrightarrow>
   map_find j (qc_streams (with_stream i q)) =
     (if j = i \<and> map_find i (qc_streams q) = None then Some (new_quic_stream i) else map_find j (qc_streams q))"
  by (simp add: with_stream_def map.find_insert)

lemma with_stream_ok: "quic_ok A q \<Longrightarrow> quic_ok A (with_stream i q)"
  by (auto simp: with_stream_def quic_ok_def map.insert_ok map.find_insert new_quic_stream_def stream_bytes_def
      split: if_splits)

text \<open>\<open>add\<close> of data, once its stream is there: it is refused after the end of the stream.\<close>

lemma quic_add_data_apply:
  assumes "map_ok (qc_streams q)" and "map_find (data_id d) (qc_streams (with_stream (data_id d) q)) = Some s"
  shows "quic_add_data d q =
    (if qs_fin s then (Fault, (with_stream (data_id d) q)\<lparr>qc_streams :=
         map_update (data_id d) s (qc_streams (with_stream (data_id d) q))\<rparr>)
     else (Ok (), (with_stream (data_id d) q)\<lparr>qc_streams := map_update (data_id d)
         (s\<lparr>qs_buffers := buffers_push (qs_buffers s) (data_buffer d), qs_fin := data_fin d\<rparr>)
         (qc_streams (with_stream (data_id d) q))\<rparr>))"
  using assms(2) by (cases s) (simp add: quic_add_data_def Let_def quic_stream_add_def quic_stream_fin_def flip: with_stream_def)

lemma with_stream_present:
  assumes "map_ok (qc_streams q)"
  obtains s where "map_find i (qc_streams (with_stream i q)) = Some s"
  using with_stream_find [OF assms, of i i] by (cases "map_find i (qc_streams q)") auto

lemma quic_ok_wider:
  "quic_ok A q \<Longrightarrow> map_find i (qc_streams q) = Some s \<Longrightarrow> qs_id s' = i \<Longrightarrow> stream_bytes s' = stream_bytes s @ b \<Longrightarrow>
   quic_ok (A(i := A i @ b)) (q\<lparr>qc_streams := map_update i s' (qc_streams q)\<rparr>)"
  by (auto simp: quic_ok_def map.update_ok map.find_update suffix_def)

lemma quic_add_ok:
  assumes ok: "quic_ok A q" and add: "quic_add event q = (r, q')"
  shows "quic_ok (record_add event r A) q'"
proof (cases event)
  case (Quic_data d)
  let ?i = "data_id d" and ?q = "with_stream (data_id d) q"
  have m: "map_ok (qc_streams q)" using ok by (simp add: quic_ok_def)
  obtain s where s: "map_find ?i (qc_streams ?q) = Some s" using with_stream_present [OF m] by blast
  have i: "qs_id s = ?i" "suffix (stream_bytes s) (A ?i)" using quic_okD [OF with_stream_ok [OF ok] s] by simp_all
  show ?thesis
  proof (cases "qs_fin s")
    case True
    then show ?thesis using add Quic_data quic_add_data_apply [OF m s] quic_ok_update [OF with_stream_ok [OF ok] i]
      by (auto simp: quic_add_def record_add_def)
  next
    case False
    let ?s = "s\<lparr>qs_buffers := buffers_push (qs_buffers s) (data_buffer d), qs_fin := data_fin d\<rparr>"
    have "stream_bytes ?s = stream_bytes s @ data_buffer d" by (simp add: stream_bytes_def)
    then show ?thesis
      using False add Quic_data quic_add_data_apply [OF m s] quic_ok_wider [OF with_stream_ok [OF ok] s, of ?s] i(1)
      by (auto simp: quic_add_def record_add_def)
  qed
qed (use assms in \<open>simp add: quic_add_def record_add_def\<close>)

lemma quic_run_ok: "quic_run L A q \<Longrightarrow> quic_ok A q"
proof (induction rule: quic_run.induct)
  case (fresh host path p clock prng q)
  then show ?case by (rule new_quic_client_ok)
next
  case (sent A q r q')
  then show ?case using quic_send_ok [of A q L] by simp
next
  case (received A q data r q')
  then show ?case using quic_recv_ok [of A q L data] by simp
next
  case (added A q event r q')
  then show ?case by (intro quic_add_ok)
next
  case (taken A q r q')
  then show ?case by (auto simp: quic_generator_get_def quic_ok_def split: list.splits)
next
  case (expired A q r q')
  then show ?case using on_conn_ok [OF expired.IH, of "ngtcp2_expire (ngtcp2_lib L) (qc_ngtcp2 q)"]
    by (simp add: quic_expire_def ngtcp2_expire_path)
qed

section \<open>The events of a packet\<close>

text \<open>What a callback reports.\<close>

fun reported :: "ngtcp2_callback \<Rightarrow> (quic_event, quic_error) result list" where
  "reported (Cb_recv_stream_data i fin data) = [Ok (Quic_data (make_data i (fin \<noteq> 0) data))]"
| "reported (Cb_stream_reset i final_size e) =
     [Ok (Quic_application_error \<lparr> ae_type = Rst_stream, ae_id = i, ae_value = e \<rparr>)]"
| "reported _ = []"

text \<open>A user of the generator: take at most \<open>n\<close> events.\<close>

primrec quic_take :: "nat \<Rightarrow> ('n, 's) quic_client \<Rightarrow> (quic_event, quic_error) result list \<times> ('n, 's) quic_client" where
  "quic_take 0 q = ([], q)"
| "quic_take (Suc n) q =
     (if quic_generator_next q
      then case quic_generator_get q of (e, q) \<Rightarrow> (case quic_take n q of (es, q) \<Rightarrow> (e # es, q))
      else ([], q))"

lemma quic_take_all: "length (qc_events q) \<le> n \<Longrightarrow> quic_take n q = (qc_events q, q\<lparr>qc_events := []\<rparr>)"
proof (induction n arbitrary: q)
  case (Suc n)
  show ?case
  proof (cases "qc_events q")
    case (Cons e es)
    then show ?thesis using Suc.IH [of "q\<lparr>qc_events := es\<rparr>"] Suc.prems
      by (simp add: quic_generator_next_def quic_generator_get_def)
  qed (simp add: quic_generator_next_def)
qed simp

lemma handle_ngtcp2_events: "qc_events (snd (handle_ngtcp2 L c q)) = qc_events q @ reported c"
proof -
  have crypto: "snd (with_crypto L q k) = q" if "\<And>c. snd (k c) = q" for k using with_crypto_keeps that by blast
  show ?thesis
  proof (cases c)
    case (Cb_encrypt dest b key nonce ad)
    then show ?thesis using crypto by (simp add: cb_encrypt_def)
  next
    case (Cb_decrypt dest b key nonce ad)
    then show ?thesis using crypto by (simp add: cb_decrypt_def)
  next
    case (Cb_hp_mask dest key sample)
    then show ?thesis using crypto by (simp add: cb_hp_mask_def)
  qed (auto simp: callback_defs logged_only Let_def quic_random_def quic_new_connection_id_def
      quic_new_stateless_reset_token_def quic_client_initial_def quic_update_key_def quic_recv_crypto_data_tls
      acked_crypto on_tls_events acked_stream_events quic_recv_stream_data_def quic_stream_reset_def quic_queue_def
      extend_max_local_streams_bidi_def extend_max_remote_streams_bidi_def extend_max_remote_streams_uni_def
      split: option.splits)
qed

lemma codes_not_Err [simp]:
  "fst (ng_code L m) \<noteq> Err e" "fst (crypto_code L m') \<noteq> Err e" "fst (sized_code L n r q) \<noteq> Err e"
  by (auto simp: ng_code_def crypto_code_def sized_code_def split: prod.splits result.splits)

lemma handle_ngtcp2_not_Err: "fst (handle_ngtcp2 L c q) \<noteq> Err e"
proof -
  have "fst (with_crypto L q k) \<noteq> Err e" if "\<And>c. fst (k c) \<noteq> Err e" for k
    using that by (simp add: with_crypto_def split: result.splits)
  then show ?thesis
    by (cases c) (auto simp: callback_defs encrypt_with_def decrypt_with_def hp_mask_with_def Let_def
        quic_random_def quic_new_connection_id_def quic_new_stateless_reset_token_def split: option.splits)
qed

lemma run_script_not_Err:
  "(\<And>c q e. fst (handle c q) \<noteq> Err e) \<Longrightarrow> fst (run_script put get handle script q) \<noteq> Err e"
proof (induction script arbitrary: q)
  case (Call n c k)
  obtain r q' where h: "handle c (put n q) = (r, q')" by (cases "handle c (put n q)")
  then have "r \<noteq> Err e" for e using Call.prems [of c "put n q"] by auto
  then show ?case using h Call by (cases r) (auto simp: rangeI)
qed simp

text \<open>The call of the library for a packet, with the state in which it is made.\<close>

definition packet_script ::
  "('n, 's) libraries \<Rightarrow> bytes \<Rightarrow> ('n, 's) quic_client \<Rightarrow> ('n, ngtcp2_callback, answer, int) script" where
  "packet_script L packet q =
     ng_read_pkt (ngtcp2_lib L) (make_path (nc_path (qc_ngtcp2 q))) packet
       (timestamp_to_ngtcp2 (ngtcp2_lib L) (fst (read_clock (qc_ngtcp2 q)))) (get_conn q)"

definition ticked :: "('n, 's) quic_client \<Rightarrow> ('n, 's) quic_client" where
  "ticked q = q\<lparr>qc_ngtcp2 := snd (read_clock (qc_ngtcp2 q))\<rparr>"

lemma quic_read_pkt_eq:
  "quic_read_pkt L packet q =
     try_state (run_ngtcp2 L (packet_script L packet q) (ticked q)) (\<lambda>rv q. (if rv \<noteq> 0 then Err Q_ngtcp2 else Ok (), q))"
  by (simp add: quic_read_pkt_def with_clock_def read_clock_def packet_script_def ticked_def get_conn_def Let_def)

section \<open>A library to try it on\<close>

text \<open>It reports the packet as data of stream 0, and accepts everything else.\<close>

definition sample_ngtcp2 :: "unit ngtcp2_lib" where
  "sample_ngtcp2 =
     \<lparr> ng_microseconds = 1000, ng_max_pktlen = 4, ng_max_cidlen = 2, ng_reset_tokenlen = 2, ng_hp_masklen = 5,
       ng_err_stream_data_blocked = - 210, ng_err_stream_id_blocked = - 206, ng_err_callback_failure = - 502,
       ng_err_crypto = - 216, ng_initial_salt = [1], ng_alpn_h3 = [2],
       ng_client_new = (\<lambda>dcid scid path settings. (0, ())), ng_set_aead_overhead = (\<lambda>n c. c),
       ng_get_handshake_completed = (\<lambda>c. 1), ng_handshake_completed = (\<lambda>c. c),
       ng_encode_local_params = (\<lambda>n c. (1, replicate n 0)), ng_decode_params = (\<lambda>bs. 0),
       ng_set_remote_params = (\<lambda>bs c. (0, c)), ng_install = (\<lambda>slot key iv hp c. (0, c)),
       ng_update_tx = (\<lambda>key iv c. (0, c)), ng_update_rx = (\<lambda>key iv c. (0, c)),
       ng_submit_crypto_data = (\<lambda>level data c. (0, c)),
       ng_write_pkt = (\<lambda>path storage ts c. Return c (0, storage)),
       ng_write_stream = (\<lambda>storage i fin data ts c. Return c (1, storage, int (min 4 (length data)))),
       ng_read_pkt = (\<lambda>path packet ts c. Call c (Cb_recv_stream_data 0 1 packet) (\<lambda>_. Return c 0)),
       ng_dcid = (\<lambda>c. [3]), ng_idle_timeout = (\<lambda>c. 0), ng_expiry = (\<lambda>c. 0), ng_loss_detection_expiry = (\<lambda>c. 1),
       ng_on_loss_detection_timer = (\<lambda>ts c. (0, c)), ng_ack_delay_expiry = (\<lambda>c. 1), ng_cancel_ack_delay_timer = (\<lambda>ts c. c),
       ng_open_bidi_stream = (\<lambda>c. (0, 0, c)), ng_open_uni_stream = (\<lambda>c. (0, 2, c)) \<rparr>"

definition sample_ssl :: "unit ssl_lib" where
  "sample_ssl =
     \<lparr> sl_error_want_read = 2, sl_error_want_write = 3, sl_tls1_3_version = 0x304, sl_new = (),
       sl_set_alpn_protos = (\<lambda>bs s. (0, s)), sl_set_connect_state = (\<lambda>s. s), sl_set_min_proto_version = (\<lambda>v s. s),
       sl_set_max_proto_version = (\<lambda>v s. s), sl_set_tlsext_host_name = (\<lambda>bs s. s),
       sl_set_quic_transport_params = (\<lambda>bs s. (1, s)), sl_set_quic_method = (\<lambda>s. (1, s)),
       sl_do_handshake = (\<lambda>s. Return s 1), sl_process_quic_post_handshake = (\<lambda>s. Return s 1),
       sl_provide_quic_data = (\<lambda>level data s. (1, s)), sl_get_error = (\<lambda>s rv. 2),
       sl_get_peer_quic_transport_params = (\<lambda>s. []), sl_get_current_cipher = (\<lambda>s. Some 0x03001301) \<rparr>"

definition sample_libraries :: "(unit, unit) libraries" where
  "sample_libraries = \<lparr> crypto_lib = sample_lib, ngtcp2_lib = sample_ngtcp2, ssl_lib = sample_ssl \<rparr>"

definition sample_quic :: "(unit, unit) quic_client option" where
  "sample_quic = new_quic_client sample_libraries [104] default_path default_params (\<lambda>n. 0) (\<lambda>n. 0)"

lemma sample_secret: "length label \<le> 246 \<Longrightarrow> \<exists>okm. hkdf_expand_label sample_lib c secret label n = Ok okm"
  by (simp add: hkdf_expand_label_def label_info_eq hkdf_expand_def sample_lib_def)

lemma sample_key: "\<exists>key. packet_protection_key sample_lib c secret = Ok key"
proof -
  have "length (ascii ''quic key'') \<le> 246" "length (ascii ''quic iv'') \<le> 246" "length (ascii ''quic hp'') \<le> 246" by simp_all
  then show ?thesis using sample_secret [of "ascii ''quic key''" c secret "aead_key_size (cy_aead c)"]
      sample_secret [of "ascii ''quic iv''" c secret "max 8 (aead_nonce_min_size (cy_aead c))"]
      sample_secret [of "ascii ''quic hp''" c secret "aead_key_size (cy_aead c)"]
    by (auto simp: packet_protection_key_def packet_protection_data_def packet_protection_iv_def
        packet_protection_hp_def Let_def)
qed

lemma sample_handshake: "\<exists>h' c'. handshake_init sample_libraries host dcid (h, c) = (Ok (), h', c')"
proof -
  let ?c = "\<lparr> cy_aead = Aes_128_gcm, cy_hash = Sha256 \<rparr>" and ?i = "replicate 32 1 :: bytes"
  obtain s1 where s1: "client_initial_secret sample_lib ?c ?i = Ok s1"
    using sample_secret [of "ascii ''client in''" ?c ?i] by (auto simp: client_initial_secret_def)
  obtain s2 where s2: "server_initial_secret sample_lib ?c ?i = Ok s2"
    using sample_secret [of "ascii ''server in''" ?c ?i] by (auto simp: server_initial_secret_def)
  obtain k1 k2 where k: "packet_protection_key sample_lib ?c s1 = Ok k1" "packet_protection_key sample_lib ?c s2 = Ok k2"
    using sample_key [of ?c s1] sample_key [of ?c s2] by blast
  have "initial_secret sample_lib ?c dcid salt = Ok ?i" for salt
    by (simp add: initial_secret_def hkdf_extract_def sample_lib_def)
  then show ?thesis using s1 s2 k
    by (simp add: handshake_init_def sample_libraries_def install_defs install_key_def on_ngtcp2_def ngtcp2_call_def
        sample_ngtcp2_def sample_ssl_def on_ssl_def set_ssl_def get_local_transport_parameters_def Let_def)
qed

lemma sample_quic_ready:
  obtains q where "sample_quic = Some q" "qc_streams q = []" "qc_events q = []"
proof -
  obtain c0 d where c0: "new_ngtcp2_connection sample_ngtcp2 default_path default_params (\<lambda>n. 0) (\<lambda>n. 0) 0 = Some (c0, d)"
    by (simp add: new_ngtcp2_connection_def make_cid_def Let_def sample_ngtcp2_def)
  let ?h = "\<lparr> hs_ssl = sl_new (ssl_lib sample_libraries), hs_keepalive = (\<lambda>_. []), hs_tx_secret = [], hs_rx_secret = [] \<rparr>"
  obtain h c where "handshake_init sample_libraries [104] (ngtcp2_dcid sample_ngtcp2 c0) (?h, c0) = (Ok (), h, c)"
    using sample_handshake by blast
  then have "new_handshake sample_libraries [104] (ngtcp2_dcid sample_ngtcp2 c0) c0 = Some (h, c)"
    by (simp add: new_handshake_def)
  then show thesis using that c0 by (simp add: sample_quic_def new_quic_client_def sample_libraries_def)
qed

section \<open>Properties\<close>

text \<open>
  C13. Whatever the libraries do and whenever they call back, in every run of a client the streams are sorted by
  id and know their id; what a stream still holds, acknowledged bytes apart, is the end of what was added
  under its id, in order and unchanged; the path stays the one the library was given; and the limit on
  unidirectional streams is still 0, because its callback sets another one.
\<close>

theorem quic_streams_hold:
  assumes "quic_run L A q"
  shows "sorted_wrt (<) (map_keys (qc_streams q)) \<and>
    (\<forall>i s. map_find i (qc_streams q) = Some s \<longrightarrow>
       qs_id s = i \<and> suffix (concat (qs_keepalive s) @ concat (qs_buffers s)) (A i)) \<and>
    nc_path (qc_ngtcp2 q) = qc_path q \<and> qc_max_local_uni q = 0"
  using quic_run_ok [OF assms] by (simp add: quic_ok_def map_ok_def stream_bytes_def)

theorem quic_streams_hold_witness:
  "\<exists>q. quic_run sample_libraries (record_add (Quic_data (make_data 0 True [1, 2])) (Ok ()) (\<lambda>_. [])) q \<and>
    sorted_wrt (<) (map_keys (qc_streams q)) \<and> qc_max_local_uni q = 0"
proof -
  obtain q where q: "sample_quic = Some q" "qc_streams q = []" using sample_quic_ready by blast
  let ?d = "make_data 0 True [1, 2]"
  obtain q' where "quic_add (Quic_data ?d) q = (Ok (), q')"
    using q(2) by (simp add: quic_add_def quic_add_data_def quic_stream_add_def quic_stream_fin_def new_quic_stream_def
        map_find_def map_update_def Let_def)
  then have run: "quic_run sample_libraries (record_add (Quic_data ?d) (Ok ()) (\<lambda>_. [])) q'"
    by (rule quic_run.added [OF quic_run.fresh [OF q(1) [unfolded sample_quic_def]]])
  then show ?thesis using quic_streams_hold [OF run] by blast
qed

text \<open>
  C18. The events of a packet: everything its callbacks report is queued once and in the order of the
  callbacks, behind what was waiting; a packet that the library rejects adds its error at the end; and the
  generator hands out all of that, in that order, until the queue is empty.
\<close>

theorem packet_events:
  assumes "quic_recv L packet q = (Ok (), q')"
  shows "\<exists>rv log q1. run_logged put_conn get_conn (handle_ngtcp2 L) (packet_script L packet q) (ticked q) = (Ok rv, q1, log) \<and>
    quic_take (length (qc_events q')) q' =
      (qc_events q @ concat (map reported log) @ (if rv = 0 then [] else [Err Q_ngtcp2]), q'\<lparr>qc_events := []\<rparr>)"
proof -
  let ?run = "run_script put_conn get_conn (handle_ngtcp2 L) (packet_script L packet q) (ticked q)"
  obtain r q1 where run: "?run = (r, q1)" by (cases ?run)
  have "qc_events (put_conn n q) = qc_events q" for n and q :: "('a, 'b) quic_client" by (simp add: put_conn_def)
  from run_logged_view [of qc_events put_conn "handle_ngtcp2 L" reported get_conn "packet_script L packet q" "ticked q",
      OF this handle_ngtcp2_events]
  obtain log where log: "run_logged put_conn get_conn (handle_ngtcp2 L) (packet_script L packet q) (ticked q) = (r, q1, log)"
      "qc_events q1 = qc_events q @ concat (map reported log)"
    using run by (auto simp: ticked_def)
  have "r \<noteq> Err e" for e
    using run_script_not_Err [of "handle_ngtcp2 L" put_conn get_conn "packet_script L packet q" "ticked q"] run
      handle_ngtcp2_not_Err [of L] by fastforce
  moreover have "r \<noteq> Fault" using assms run by (auto simp: quic_recv_def quic_read_pkt_eq run_ngtcp2_def)
  ultimately obtain rv where rv: "r = Ok rv" by (cases r) auto
  then have "q' = (if rv = 0 then q1 else quic_queue (Err Q_ngtcp2) q1)"
    using assms run by (auto simp: quic_recv_def quic_read_pkt_eq run_ngtcp2_def split: if_splits)
  then have "qc_events q' = qc_events q @ concat (map reported log) @ (if rv = 0 then [] else [Err Q_ngtcp2])"
    using log(2) by (simp add: quic_queue_def)
  then show ?thesis using log(1) rv quic_take_all [of q' "length (qc_events q')"] by auto
qed

theorem packet_events_witness:
  "\<exists>q q' rv log q1. quic_recv sample_libraries [7] q = (Ok (), q') \<and>
    run_logged put_conn get_conn (handle_ngtcp2 sample_libraries) (packet_script sample_libraries [7] q) (ticked q) = (Ok rv, q1, log) \<and>
    quic_take (length (qc_events q')) q' =
      (qc_events q @ concat (map reported log) @ (if rv = 0 then [] else [Err Q_ngtcp2]), q'\<lparr>qc_events := []\<rparr>)"
proof -
  obtain q where q: "sample_quic = Some q" using sample_quic_ready by blast
  obtain q' where r: "quic_recv sample_libraries [7] q = (Ok (), q')"
    by (simp add: quic_recv_def quic_read_pkt_eq run_ngtcp2_def packet_script_def sample_libraries_def sample_ngtcp2_def
        cb_recv_stream_data_def)
  then show ?thesis using packet_events [OF r] by blast
qed

end
