(* ===== verification/Http_Over_Quic.thy ===== *)
theory Http_Over_Quic
  imports Connections Quic_Run
begin

text \<open>
  The HTTP/3 client on top of the QUIC client, the way the endpoint application drives them: every event that
  \<open>http3::client::connection::send\<close> returns is passed to \<open>quic::client::connection::add\<close>.
\<close>

section \<open>Adding events\<close>

fun quic_add_all :: "quic_event list \<Rightarrow> ('n, 's) quic_client \<Rightarrow> (unit, quic_error) result \<times> ('n, 's) quic_client" where
  "quic_add_all [] q = (Ok (), q)"
| "quic_add_all (e # es) q = try_state (quic_add e q) (\<lambda>_ q. quic_add_all es q)"

text \<open>What waits on a stream: its bytes, and whether they are the last ones.\<close>

definition waiting :: "uint64 \<Rightarrow> ('n, 's) quic_client \<Rightarrow> bytes \<times> bool" where
  "waiting i q = (case map_find i (qc_streams q) of None \<Rightarrow> ([], False) | Some s \<Rightarrow> (concat (qs_buffers s), qs_fin s))"

definition bytes_for :: "uint64 \<Rightarrow> quic_data list \<Rightarrow> bytes" where
  "bytes_for i ds = concat (map data_buffer (filter (\<lambda>d. data_id d = i) ds))"

definition fin_for :: "uint64 \<Rightarrow> quic_data list \<Rightarrow> bool" where
  "fin_for i ds \<longleftrightarrow> (\<exists>d \<in> set ds. data_id d = i \<and> data_fin d)"

text \<open>No stream goes on after its end.\<close>

fun ends_once :: "quic_data list \<Rightarrow> bool" where
  "ends_once [] \<longleftrightarrow> True"
| "ends_once (d # ds) \<longleftrightarrow> (data_fin d \<longrightarrow> (\<forall>e \<in> set ds. data_id e \<noteq> data_id d)) \<and> ends_once ds"

lemma for_simps [simp]:
  "bytes_for i [] = []" "bytes_for i (d # ds) = (if data_id d = i then data_buffer d else []) @ bytes_for i ds"
  "fin_for i [] \<longleftrightarrow> False" "fin_for i (d # ds) \<longleftrightarrow> data_id d = i \<and> data_fin d \<or> fin_for i ds"
  by (auto simp: bytes_for_def fin_for_def)

lemma for_append [simp]:
  "bytes_for i (xs @ ys) = bytes_for i xs @ bytes_for i ys" "fin_for i (xs @ ys) \<longleftrightarrow> fin_for i xs \<or> fin_for i ys"
  by (auto simp: bytes_for_def fin_for_def)

lemma quic_add_waiting:
  assumes m: "map_ok (qc_streams q)" and fin: "\<not> snd (waiting (data_id d) q)"
  shows "\<exists>q'. quic_add (Quic_data d) q = (Ok (), q') \<and> map_ok (qc_streams q') \<and>
    (\<forall>i. waiting i q' = (if i = data_id d then (fst (waiting i q) @ data_buffer d, data_fin d) else waiting i q)) \<and>
    set (map_keys (qc_streams q')) = Set.insert (data_id d) (set (map_keys (qc_streams q)))"
proof -
  let ?i = "data_id d" and ?q = "with_stream (data_id d) q"
  obtain s where s: "map_find ?i (qc_streams ?q) = Some s" using with_stream_present [OF m] by blast
  have m': "map_ok (qc_streams ?q)" using m by (simp add: with_stream_def map.insert_ok)
  have here: "concat (qs_buffers s) = fst (waiting ?i q)" "qs_fin s = snd (waiting ?i q)"
    using s with_stream_find [OF m, of ?i ?i]
    by (auto simp: waiting_def new_quic_stream_def split: if_splits option.splits)
  let ?s = "s\<lparr>qs_buffers := buffers_push (qs_buffers s) (data_buffer d), qs_fin := data_fin d\<rparr>"
  let ?q' = "?q\<lparr>qc_streams := map_update ?i ?s (qc_streams ?q)\<rparr>"
  have "quic_add (Quic_data d) q = (Ok (), ?q')"
    using quic_add_data_apply [OF m s] fin here(2) by (simp add: quic_add_def)
  moreover have "map_ok (qc_streams ?q')" using m' by (simp add: map.update_ok)
  moreover have "waiting i ?q' = (if i = ?i then (fst (waiting i q) @ data_buffer d, data_fin d) else waiting i q)" for i
    using s with_stream_find [OF m, of i ?i] here(1)
    by (simp add: waiting_def map.find_update split: if_splits option.splits)
  moreover have "set (map_keys (qc_streams ?q')) = Set.insert ?i (set (map_keys (qc_streams q)))"
    using m by (auto simp: with_stream_def map.keys_insert map.keys_find)
  ultimately show ?thesis by blast
qed

lemma quic_add_all_waiting:
  "map_ok (qc_streams q) \<Longrightarrow> ends_once ds \<Longrightarrow> \<forall>d \<in> set ds. \<not> snd (waiting (data_id d) q) \<Longrightarrow>
   \<exists>q'. quic_add_all (map Quic_data ds) q = (Ok (), q') \<and> map_ok (qc_streams q') \<and>
     (\<forall>i. waiting i q' = (fst (waiting i q) @ bytes_for i ds, snd (waiting i q) \<or> fin_for i ds)) \<and>
     set (map_keys (qc_streams q')) = set (map_keys (qc_streams q)) \<union> data_id ` set ds"
proof (induction ds arbitrary: q)
  case (Cons d ds)
  obtain q1 where q1: "quic_add (Quic_data d) q = (Ok (), q1)" "map_ok (qc_streams q1)"
      "\<forall>i. waiting i q1 = (if i = data_id d then (fst (waiting i q) @ data_buffer d, data_fin d) else waiting i q)"
      "set (map_keys (qc_streams q1)) = Set.insert (data_id d) (set (map_keys (qc_streams q)))"
    using quic_add_waiting [of q d] Cons.prems by auto
  have "\<forall>e \<in> set ds. \<not> snd (waiting (data_id e) q1)" using q1(3) Cons.prems by auto
  then obtain q' where q': "quic_add_all (map Quic_data ds) q1 = (Ok (), q')" "map_ok (qc_streams q')"
      "\<forall>i. waiting i q' = (fst (waiting i q1) @ bytes_for i ds, snd (waiting i q1) \<or> fin_for i ds)"
      "set (map_keys (qc_streams q')) = set (map_keys (qc_streams q1)) \<union> data_id ` set ds"
    using Cons.IH [OF q1(2)] Cons.prems(2) by auto
  have "\<not> snd (waiting (data_id d) q)" using Cons.prems by simp
  then have "waiting i q' = (fst (waiting i q) @ bytes_for i (d # ds), snd (waiting i q) \<or> fin_for i (d # ds))" for i
    using q1(3) q'(3) by auto
  then show ?case using q1(1,4) q'(1,2,4) by auto
qed (simp add: prod_eq_iff)

section \<open>A request on its way\<close>

lemma as_data_for:
  "bytes_for j (as_data i fin bs) = (if j = i then concat bs else [])"
  "fin_for j (as_data i fin bs) \<longleftrightarrow> j = i \<and> fin \<and> bs \<noteq> []"
  by (induction i fin bs rule: as_data.induct) auto

lemma as_data_ends_once: "ends_once (as_data i fin bs)"
  by (induction i fin bs rule: as_data.induct) auto

lemma as_data_ids: "data_id ` set (as_data i fin bs) = (if bs = [] then {} else {i})"
  by (induction i fin bs rule: as_data.induct) auto

lemma ends_once_append: "ends_once (xs @ ys) \<longleftrightarrow> ends_once xs \<and> ends_once ys \<and> (\<forall>d \<in> set ys. \<not> fin_for (data_id d) xs)"
  by (induction xs) auto

section \<open>Property\<close>

text \<open>
  C15. A request reaches the transport: whatever the libraries below do, the events of a fresh HTTP/3 client that
  was asked for one request are all accepted by a QUIC client without streams. Then it has two streams: the
  request's, with exactly the bytes of the message and its end marked, and the control stream, with its type
  and the settings, which stays open.
\<close>

theorem http_over_quic:
  assumes "hs \<noteq> []" and "block_ok xxh hs" and "list_all body_ok bs" and "t \<noteq> h" and "qc_streams q = []"
  shows "\<exists>sent c q'.
    try_state (client_request t h new_client) (\<lambda>_ c.
    try_state (client_write xxh junk h hs bs c) (\<lambda>_ c. client_drain junk (2 + message_length hs bs) c)) = (Ok sent, c) \<and>
    quic_add_all sent q = (Ok (), q') \<and> set (map_keys (qc_streams q')) = {0, 2} \<and>
    waiting 0 q' = (concat (message_chunks xxh hs bs), True) \<and>
    waiting 2 q' = (0 # frame_wire (Settings default_settings), False)"
proof -
  let ?ds = "control_sent 2 @ as_data 0 True (message_chunks xxh hs bs)"
  obtain c where c: "try_state (client_request t h new_client) (\<lambda>_ c.
      try_state (client_write xxh junk h hs bs c) (\<lambda>_ c. client_drain junk (2 + message_length hs bs) c)) =
      (Ok (map Quic_data ?ds), c)"
    using client_sends [OF assms(1-4)] by blast
  have w: "waiting i q = ([], False)" for i using assms(5) by (simp add: waiting_def map_find_def)
  have ne: "message_chunks xxh hs bs \<noteq> []" by (simp add: message_chunks_def)
  have "map_ok (qc_streams q)" using assms(5) by (simp add: map_ok_def map_keys_def)
  moreover have "ends_once ?ds"
    by (simp add: ends_once_append as_data_ends_once control_sent_def)
  ultimately obtain q' where q': "quic_add_all (map Quic_data ?ds) q = (Ok (), q')"
      "\<forall>i. waiting i q' = (bytes_for i ?ds, fin_for i ?ds)" "set (map_keys (qc_streams q')) = data_id ` set ?ds"
    using quic_add_all_waiting [of q ?ds] w assms(5) by (auto simp: map_keys_def)
  have "set (map_keys (qc_streams q')) = {0, 2}"
    using q'(3) ne as_data_ids [of 0 True "message_chunks xxh hs bs"] by (auto simp: control_sent_def image_Un)
  then show ?thesis using c q'(1,2) ne by (auto simp: as_data_for control_sent_def)
qed

theorem http_over_quic_witness:
  "\<exists>q sent c q'. sample_quic = Some q \<and>
    try_state (client_request 0 1 new_client) (\<lambda>_ c.
    try_state (client_write sample_hash (\<lambda>_. 0) 1 [make_header ''age'' ''0''] [[7]] c) (\<lambda>_ c.
      client_drain (\<lambda>_. 0) (2 + message_length [make_header ''age'' ''0''] [[7]]) c)) = (Ok sent, c) \<and>
    quic_add_all sent q = (Ok (), q') \<and> set (map_keys (qc_streams q')) = {0, 2} \<and>
    waiting 0 q' = (concat (message_chunks sample_hash [make_header ''age'' ''0''] [[7]]), True) \<and>
    waiting 2 q' = (0 # frame_wire (Settings default_settings), False)"
proof -
  obtain q where q: "sample_quic = Some q" "qc_streams q = []" using sample_quic_ready by blast
  then show ?thesis using http_over_quic [OF _ sample_block_ok, of "[[7]]" 0 1 q "\<lambda>_. 0"] by (auto simp: body_ok_def)
qed

end
