(* ===== verification/Os.thy ===== *)
theory Os
  imports Http_Over_Quic
begin

text \<open>
  The operating system layer of the command line client (\<open>http3/app/endpoint/os\<close>): error codes of all
  layers, socket addresses, host names and the UDP socket. The calls of the system are parameters.
\<close>

section \<open>Error codes\<close>

text \<open>
  \<open>std::error_code\<close>: an \<open>int\<close> and a category. The enumerations of the libraries are converted by their
  \<open>make_error_code\<close>, which keep the low 32 bits.
\<close>

datatype app_error = App_timeout | App_resolve | App_invalid_argument | App_idle | App_finished

fun app_error_value :: "app_error \<Rightarrow> 32 word" where
  "app_error_value App_timeout = 0"
| "app_error_value App_resolve = 1"
| "app_error_value App_invalid_argument = 2"
| "app_error_value App_idle = 3"
| "app_error_value App_finished = 4"

fun app_error_message :: "app_error \<Rightarrow> string" where
  "app_error_message App_timeout = ''timeout''"
| "app_error_message App_resolve = ''resolve''"
| "app_error_message App_invalid_argument = ''invalid argument''"
| "app_error_message App_idle = ''idle''"
| "app_error_message App_finished = ''finished''"

definition all_app_errors :: "app_error list" where
  "all_app_errors = [App_timeout, App_resolve, App_invalid_argument, App_idle, App_finished]"

definition app_category_message :: "32 word \<Rightarrow> string" where
  "app_category_message code =
     (case filter (\<lambda>e. app_error_value e = code) all_app_errors of
        e # _ \<Rightarrow> app_error_message e
      | [] \<Rightarrow> ''unknown'')"

definition app_category_name :: string where
  "app_category_name = ''bnl-http3''"

datatype category = System_category | App_category | Quic_category | Http3_category

type_synonym error_code = "32 word \<times> category"

definition app_code :: "app_error \<Rightarrow> error_code" where
  "app_code e = (app_error_value e, App_category)"

definition quic_code :: "quic_error \<Rightarrow> error_code" where
  "quic_code e = (ucast (quic_error_value e), Quic_category)"

definition http3_code :: "error \<Rightarrow> error_code" where
  "http3_code e = (make_error_code e, Http3_category)"

definition system_code :: "32 word \<Rightarrow> error_code" where
  "system_code n = (n, System_category)"

definition no_code :: error_code where
  "no_code = (0, System_category)"

text \<open>A code counts as an error when its value is not zero.\<close>

definition is_error :: "error_code \<Rightarrow> bool" where
  "is_error ec \<longleftrightarrow> fst ec \<noteq> 0"

definition with_code :: "('e \<Rightarrow> error_code) \<Rightarrow> ('a, 'e) result \<times> 't \<Rightarrow> ('a, error_code) result \<times> 't" where
  "with_code code m = (case m of (Ok a, t) \<Rightarrow> (Ok a, t) | (Err e, t) \<Rightarrow> (Err (code e), t) | (Fault, t) \<Rightarrow> (Fault, t))"

lemma with_code_simps [simp]:
  "with_code code (Ok a, t) = (Ok a, t)" "with_code code (Err e, t) = (Err (code e), t)" "with_code code (Fault, t) = (Fault, t)"
  by (simp_all add: with_code_def)

lemma with_code_eq:
  "with_code code m = (Ok a, t) \<longleftrightarrow> m = (Ok a, t)"
  "with_code code m = (Fault, t) \<longleftrightarrow> m = (Fault, t)"
  "with_code code m = (Err ec, t) \<longleftrightarrow> (\<exists>e. m = (Err e, t) \<and> ec = code e)"
  by (auto simp: with_code_def split: prod.splits result.splits)

section \<open>Socket addresses\<close>

text \<open>
  A \<open>sockaddr_storage\<close> by its family, with the fields as they are in memory: the address as bytes and the
  port as the two bytes of its network order. The program runs on a little-endian machine.
\<close>

datatype sockaddr =
    Sockaddr_in bytes uint16
  | Sockaddr_in6 bytes uint16
  | Sockaddr_other

definition htons :: "uint16 \<Rightarrow> uint16" where
  "htons w = (push_bit 8 w) OR (drop_bit 8 w)"

text \<open>\<open>s_addr\<close> is an integer in memory.\<close>

definition load_uint32 :: "bytes \<Rightarrow> uint32" where
  "load_uint32 bs =
     ucast (bs ! 0) OR push_bit 8 (ucast (bs ! 1)) OR push_bit 16 (ucast (bs ! 2)) OR push_bit 24 (ucast (bs ! 3))"

definition make_sockaddr :: "endpoint \<Rightarrow> sockaddr" where
  "make_sockaddr e =
     (case address_type_of (ep_address e) of
        Ipv4_type \<Rightarrow> Sockaddr_in (address_bytes (ep_address e)) (htons (ep_port e))
      | Ipv6_type \<Rightarrow> Sockaddr_in6 (address_bytes (ep_address e)) (htons (ep_port e)))"

text \<open>
  The addresses the system hands out have the size of their family. \<open>make_endpoint\<close> in \<open>udp.cpp\<close> and
  \<open>make_address\<close> in \<open>dns.cpp\<close>.
\<close>

definition address_of_sockaddr :: "sockaddr \<Rightarrow> address option" where
  "address_of_sockaddr sa =
     (case sa of
        Sockaddr_in bs _ \<Rightarrow> if length bs = ipv4_size then Some (Ipv4 (ipv4_of_word (load_uint32 bs))) else None
      | Sockaddr_in6 bs _ \<Rightarrow> map_option Ipv6 (ipv6_of_bytes bs)
      | Sockaddr_other \<Rightarrow> None)"

definition make_endpoint :: "sockaddr \<Rightarrow> endpoint option" where
  "make_endpoint sa =
     (case sa of
        Sockaddr_in bs port \<Rightarrow>
          if length bs = ipv4_size
          then Some \<lparr> ep_address = Ipv4 (ipv4_of_word (load_uint32 bs)), ep_port = htons port \<rparr> else None
      | Sockaddr_in6 bs port \<Rightarrow>
          map_option (\<lambda>ip. \<lparr> ep_address = Ipv6 ip, ep_port = htons port \<rparr>) (ipv6_of_bytes bs)
      | Sockaddr_other \<Rightarrow> None)"

lemma htons_htons [simp]: "htons (htons w) = w"
  by (rule word_eqI_upt) (simp add: htons_def bit_simps upt_enum)

lemma ipv4_of_load:
  assumes "length bs = ipv4_size"
  shows "ipv4_of_word (load_uint32 bs) = bs"
proof -
  have "\<exists>a b c d. bs = [a, b, c, d]" using assms
    by (auto simp: ipv4_size_def eval_nat_numeral length_Suc_conv)
  then obtain a b c d where bs: "bs = [a, b, c, d]" by blast
  have high: "\<not> bit x n" if "8 \<le> n" for x :: byte and n using that bit_imp_le_length [of x n] by auto
  have "ucast (drop_bit (8 * i) (load_uint32 bs)) = bs ! i" if "i < 4" for i
  proof -
    have "i \<in> {0, 1, 2, 3}" using that by auto
    then show ?thesis by (auto simp: load_uint32_def bs bit_simps upt_enum high intro!: word_eqI_upt)
  qed
  from this [of 0] this [of 1] this [of 2] this [of 3] show ?thesis by (simp add: ipv4_of_word_def bs)
qed

lemma make_endpoint_make_sockaddr:
  assumes "address_ok (ep_address e)"
  shows "make_endpoint (make_sockaddr e) = Some e"
  using assms
  by (cases "ep_address e") (auto simp: make_endpoint_def make_sockaddr_def ipv4_of_load ipv6_of_bytes_def mem_store_def)

section \<open>The system\<close>

text \<open>
  What the program calls, over a state of the system: each call gives its return value, \<open>errno\<close> and what it
  writes.
\<close>

record 'o system =
  sys_eagain :: "32 word"
  sys_enobufs :: "32 word"
  sys_eai_system :: int
  sys_epollin :: "32 word"
  sys_epollout :: "32 word"
  sys_epollerr :: "32 word"
  sys_epollhup :: "32 word"
  sys_epollrdhup :: "32 word"
  sys_socket :: "sockaddr \<Rightarrow> 'o \<Rightarrow> int \<times> 32 word \<times> 'o"
  sys_connect :: "int \<Rightarrow> sockaddr \<Rightarrow> 'o \<Rightarrow> int \<times> 32 word \<times> 'o"
  sys_reuseaddr :: "int \<Rightarrow> 'o \<Rightarrow> int \<times> 32 word \<times> 'o"
  sys_close :: "int \<Rightarrow> 'o \<Rightarrow> 'o"
  sys_getsockname :: "int \<Rightarrow> 'o \<Rightarrow> int \<times> 32 word \<times> sockaddr"
  sys_getpeername :: "int \<Rightarrow> 'o \<Rightarrow> int \<times> 32 word \<times> sockaddr"
  sys_so_error :: "int \<Rightarrow> 'o \<Rightarrow> int \<times> 32 word \<times> 'o"
  sys_send :: "int \<Rightarrow> bytes \<Rightarrow> 'o \<Rightarrow> int \<times> 32 word \<times> 'o"
  sys_fionread :: "int \<Rightarrow> 'o \<Rightarrow> int \<times> 32 word \<times> int"
  sys_recv :: "int \<Rightarrow> nat \<Rightarrow> 'o \<Rightarrow> int \<times> 32 word \<times> bytes \<times> 'o"
  sys_getaddrinfo :: "string \<Rightarrow> int \<times> 32 word \<times> sockaddr list"
  sys_inet_pton4 :: "string \<Rightarrow> int \<times> 32 word \<times> bytes"
  sys_inet_pton6 :: "string \<Rightarrow> int \<times> 32 word \<times> bytes"

text \<open>\<open>r.error() == std::errc::resource_unavailable_try_again\<close>: only codes of the system are equivalent to it.\<close>

definition would_block :: "'o system \<Rightarrow> error_code \<Rightarrow> bool" where
  "would_block S ec \<longleftrightarrow> ec = system_code (sys_eagain S)"

section \<open>Names\<close>

text \<open>The addresses of a name, each once, in the order of the system.\<close>

definition add_address :: "address list \<Rightarrow> address \<Rightarrow> address list" where
  "add_address addresses a = (if list_ex (\<lambda>b. address_eq b a) addresses then addresses else addresses @ [a])"

fun resolve_loop :: "sockaddr list \<Rightarrow> address list \<Rightarrow> address list option" where
  "resolve_loop [] addresses = Some addresses"
| "resolve_loop (info # infos) addresses =
     Option.bind (address_of_sockaddr info) (\<lambda>a. resolve_loop infos (add_address addresses a))"

definition resolve :: "'o system \<Rightarrow> string \<Rightarrow> (address list, error_code) result" where
  "resolve S host =
     (case sys_getaddrinfo S host of (rv, errno, results) \<Rightarrow>
        if rv \<noteq> 0 then Err (system_code (if rv = sys_eai_system S then errno else word_of_int rv))
        else or_fault (resolve_loop results []))"

definition os_make_address :: "'o system \<Rightarrow> string \<Rightarrow> (address, error_code) result" where
  "os_make_address S s =
     (case sys_inet_pton4 S s of (rv, errno, bs) \<Rightarrow>
        if rv = 1 then bnl_try (or_fault (ipv4_of_bytes bs)) (\<lambda>ip. Ok (Ipv4 ip))
        else if rv \<noteq> 0 then Err (system_code errno)
        else (case sys_inet_pton6 S s of (rv, errno, bs) \<Rightarrow>
          if rv \<noteq> 1 then Err (system_code errno) else bnl_try (or_fault (ipv6_of_bytes bs)) (\<lambda>ip. Ok (Ipv6 ip))))"

lemma address_of_sockaddr_ok: "address_of_sockaddr sa = Some a \<Longrightarrow> address_ok a"
  by (auto simp: address_of_sockaddr_def ipv6_of_bytes_def mem_store_def ipv4_of_word_def ipv4_size_def
      split: sockaddr.splits if_splits)

lemma add_address_set:
  assumes "list_all address_ok addresses" "address_ok a"
  shows "set (add_address addresses a) = Set.insert a (set addresses)" "list_all address_ok (add_address addresses a)"
    "distinct addresses \<Longrightarrow> distinct (add_address addresses a)" "\<exists>cs. add_address addresses a = addresses @ cs"
proof -
  have "list_ex (\<lambda>b. address_eq b a) addresses \<longleftrightarrow> a \<in> set addresses"
    using assms by (auto simp: list_ex_iff list_all_iff address_eq_iff)
  then show "set (add_address addresses a) = Set.insert a (set addresses)" "list_all address_ok (add_address addresses a)"
      "distinct addresses \<Longrightarrow> distinct (add_address addresses a)" "\<exists>cs. add_address addresses a = addresses @ cs"
    using assms by (auto simp: add_address_def)
qed

lemma resolve_loop_ok:
  "resolve_loop infos known = Some found \<Longrightarrow> list_all address_ok known \<Longrightarrow> distinct known \<Longrightarrow>
   list_all address_ok found \<and> distinct found \<and> (\<exists>cs. found = known @ cs) \<and>
   Some ` set found = Some ` set known \<union> address_of_sockaddr ` set infos"
proof (induction infos known arbitrary: found rule: resolve_loop.induct)
  case (2 info infos known)
  then obtain a where a: "address_of_sockaddr info = Some a" "resolve_loop infos (add_address known a) = Some found"
    by (auto simp: bind_eq_Some_conv)
  note add = add_address_set [OF "2.prems"(2) address_of_sockaddr_ok [OF a(1)]]
  obtain cs ds where "found = (add_address known a) @ cs" "add_address known a = known @ ds"
    using "2.IH" [OF a(1,2) add(2)] add(3) [OF "2.prems"(3)] add(4) by blast
  then show ?case using "2.IH" [OF a(1,2) add(2) add(3) [OF "2.prems"(3)]] add(1) a(1) by auto
qed auto

section \<open>The socket\<close>

text \<open>
  A descriptor owns what it names: \<open>-1\<close> is none. Moving leaves \<open>-1\<close> behind; the assignment does not close
  the descriptor that is overwritten.
\<close>

definition fd_move :: "int \<Rightarrow> int \<times> int" where
  "fd_move other = (other, - 1)"

definition fd_move_assign :: "int \<Rightarrow> int \<Rightarrow> int \<times> int" where
  "fd_move_assign this_fd other = (other, - 1)"

definition fd_destroy :: "'o system \<Rightarrow> int \<Rightarrow> 'o \<Rightarrow> 'o" where
  "fd_destroy S fd os = (if fd \<noteq> - 1 then sys_close S fd os else os)"

record 'o udp =
  udp_send_buffer :: buffers
  udp_socket :: int
  udp_os :: 'o

definition make_socket :: "'o system \<Rightarrow> endpoint \<Rightarrow> 'o \<Rightarrow> (int, error_code) result \<times> 'o" where
  "make_socket S peer os =
     (let storage = make_sockaddr peer
      in case sys_socket S storage os of (fd, errno, os) \<Rightarrow>
        if fd = - 1 then (Err (system_code errno), os)
        else case sys_connect S fd storage os of (rv, errno, os) \<Rightarrow>
          if rv = - 1 then (Err (system_code errno), fd_destroy S fd os)
          else case sys_reuseaddr S fd os of (rv, errno, os) \<Rightarrow>
            if rv = - 1 then (Err (system_code errno), fd_destroy S fd os)
            else (Ok fd, os))"

definition new_udp :: "'o system \<Rightarrow> endpoint \<Rightarrow> 'o \<Rightarrow> 'o udp option" where
  "new_udp S peer os =
     (case make_socket S peer os of
        (Ok fd, os) \<Rightarrow> Some \<lparr> udp_send_buffer = [], udp_socket = fd, udp_os = os \<rparr>
      | _ \<Rightarrow> None)"

definition udp_local :: "'o system \<Rightarrow> 'o udp \<Rightarrow> endpoint option" where
  "udp_local S u =
     (case sys_getsockname S (udp_socket u) (udp_os u) of (rv, errno, storage) \<Rightarrow>
        if rv = - 1 then None else make_endpoint storage)"

definition udp_peer :: "'o system \<Rightarrow> 'o udp \<Rightarrow> endpoint option" where
  "udp_peer S u =
     (case sys_getpeername S (udp_socket u) (udp_os u) of (rv, errno, storage) \<Rightarrow>
        if rv = - 1 then None else make_endpoint storage)"

text \<open>The pending error is read, which clears it, and then left unused.\<close>

definition udp_error :: "'o system \<Rightarrow> 'o udp \<Rightarrow> error_code \<times> 'o udp" where
  "udp_error S u =
     (case sys_so_error S (udp_socket u) (udp_os u) of (rv, errno, os) \<Rightarrow>
        (if rv = - 1 then system_code errno else no_code, u\<lparr>udp_os := os\<rparr>))"

definition udp_send :: "'o system \<Rightarrow> 'o udp \<Rightarrow> (unit, error_code) result \<times> 'o udp" where
  "udp_send S u =
     (if buffers_empty (udp_send_buffer u) then (Err (app_code App_idle), u)
      else try_in u (or_fault (buffers_front (udp_send_buffer u))) (\<lambda>first.
        case sys_send S (udp_socket u) first (udp_os u) of (rv, errno, os) \<Rightarrow>
          let u = u\<lparr>udp_os := os\<rparr>
          in if rv = - 1 then (Err (system_code errno), u)
             else if rv < 0 then (Fault, u)
             else try_in u (or_fault (buffers_consume (udp_send_buffer u) (nat rv)))
               (\<lambda>bs. (Ok (), u\<lparr>udp_send_buffer := bs\<rparr>))))"

definition udp_add :: "bytes \<Rightarrow> 'o udp \<Rightarrow> 'o udp" where
  "udp_add buffer u = u\<lparr>udp_send_buffer := buffers_push (udp_send_buffer u) buffer\<rparr>"

text \<open>The datagram is a new buffer of the size the system gives; the system writes to its front.\<close>

definition udp_recv :: "'o system \<Rightarrow> (nat \<Rightarrow> byte) \<Rightarrow> 'o udp \<Rightarrow> (bytes, error_code) result \<times> 'o udp" where
  "udp_recv S junk u =
     (case sys_fionread S (udp_socket u) (udp_os u) of (rv, errno, avail) \<Rightarrow>
        if rv = - 1 then (Err (system_code errno), u)
        else if avail < 0 then (Fault, u)
        else let datagram = fresh_memory junk (nat avail)
             in case sys_recv S (udp_socket u) (length datagram) (udp_os u) of (rv, errno, bs, os) \<Rightarrow>
               let u = u\<lparr>udp_os := os\<rparr>
               in if rv = - 1 then (Err (system_code errno), u)
                  else (or_fault (mem_store datagram 0 bs), u))"

end
