(* ===== verification/Endpoint.thy ===== *)
theory Endpoint
  imports Os
begin

text \<open>
  The command line client (\<open>http3/app/endpoint/client.cpp\<close>) with the event loop it runs in
  (\<open>http3/app/endpoint/sd\<close>): it moves datagrams between the socket and the QUIC client, and events between
  the QUIC client and the HTTP/3 client, whose events go to a handler.
\<close>

section \<open>The event loop\<close>

text \<open>
  The functions of libsystemd over a state of the library. \<open>sd_loop\<close> is a script: it runs the handlers of
  the sources, in whatever order, and returns. The clock is that of the QUIC client, which is given the
  clock of the loop.
\<close>

datatype timer = Retransmit_timer | Timeout_timer

datatype sd_callback = Sd_io "32 word" | Sd_retransmit uint64 | Sd_timeout uint64

record 'd sd_lib =
  sd_add_io :: "int \<Rightarrow> 'd \<Rightarrow> int \<times> 'd"
  sd_add_time :: "timer \<Rightarrow> 'd \<Rightarrow> int \<times> 'd"
  sd_sigemptyset :: "int \<times> 32 word"
  sd_sigaddset :: "int \<Rightarrow> int \<times> 32 word"
  sd_sigprocmask :: "int \<Rightarrow> 'd \<Rightarrow> int \<times> 32 word \<times> 'd"
  sd_add_signal :: "int \<Rightarrow> 'd \<Rightarrow> int \<times> 'd"
  sd_set_time :: "timer \<Rightarrow> uint64 \<Rightarrow> 'd \<Rightarrow> int \<times> 'd"
  sd_enable_oneshot :: "timer \<Rightarrow> 'd \<Rightarrow> int \<times> 'd"
  sd_exit :: "32 word \<Rightarrow> 'd \<Rightarrow> int \<times> 'd"
  sd_loop :: "'d \<Rightarrow> ('d, sd_callback, int, int) script"

record 'd event_loop =
  el_event :: 'd
  el_error :: error_code

definition new_event_loop :: "'d \<Rightarrow> 'd event_loop" where
  "new_event_loop d = \<lparr> el_event = d, el_error = no_code \<rparr>"

text \<open>A call that returns a negative \<open>errno\<close> when it fails.\<close>

definition sd_call :: "('d \<Rightarrow> int \<times> 'd) \<Rightarrow> 'd event_loop \<Rightarrow> (unit, error_code) result \<times> 'd event_loop" where
  "sd_call f l =
     (case f (el_event l) of (rv, d) \<Rightarrow>
        (if rv < 0 then Err (system_code (word_of_int (- rv))) else Ok (), l\<lparr>el_event := d\<rparr>))"

definition loop_io :: "'d sd_lib \<Rightarrow> int \<Rightarrow> 'd event_loop \<Rightarrow> (unit, error_code) result \<times> 'd event_loop" where
  "loop_io D fd = sd_call (sd_add_io D fd)"

definition loop_timer :: "'d sd_lib \<Rightarrow> timer \<Rightarrow> 'd event_loop \<Rightarrow> (unit, error_code) result \<times> 'd event_loop" where
  "loop_timer D t = sd_call (sd_add_time D t)"

definition loop_signal :: "'d sd_lib \<Rightarrow> int \<Rightarrow> 'd event_loop \<Rightarrow> (unit, error_code) result \<times> 'd event_loop" where
  "loop_signal D signal l =
     (case sd_sigemptyset D of (rv, errno) \<Rightarrow>
        if rv = - 1 then (Err (system_code errno), l)
        else case sd_sigaddset D signal of (rv, errno) \<Rightarrow>
          if rv = - 1 then (Err (system_code errno), l)
          else case sd_sigprocmask D signal (el_event l) of (rv, errno, d) \<Rightarrow>
            let l = l\<lparr>el_event := d\<rparr>
            in if rv = - 1 then (Err (system_code errno), l) else sd_call (sd_add_signal D signal) l)"

text \<open>\<open>exit\<close>, without and with an error.\<close>

definition loop_exit :: "'d sd_lib \<Rightarrow> 'd event_loop \<Rightarrow> (unit, error_code) result \<times> 'd event_loop" where
  "loop_exit D = sd_call (sd_exit D 0)"

definition loop_exit_with ::
  "'d sd_lib \<Rightarrow> error_code \<Rightarrow> 'd event_loop \<Rightarrow> (unit, error_code) result \<times> 'd event_loop" where
  "loop_exit_with D ec l = try_state (sd_call (sd_exit D (fst ec)) l) (\<lambda>_ l. (Ok (), l\<lparr>el_error := ec\<rparr>))"

text \<open>\<open>timer::update\<close>: a failure throws, or ends in an assertion.\<close>

definition timer_update :: "'d sd_lib \<Rightarrow> timer \<Rightarrow> uint64 \<Rightarrow> 'd event_loop \<Rightarrow> 'd event_loop option" where
  "timer_update D t usec l =
     (case sd_set_time D t usec (el_event l) of (rv, d) \<Rightarrow>
        if rv < 0 then None
        else case sd_enable_oneshot D t d of (rv, d) \<Rightarrow> if rv < 0 then None else Some (l\<lparr>el_event := d\<rparr>))"

text \<open>What \<open>run\<close> makes of the value of the loop.\<close>

definition loop_result :: "int \<Rightarrow> 'd event_loop \<Rightarrow> (unit, error_code) result" where
  "loop_result rv l =
     (if is_error (el_error l) then Err (el_error l)
      else if rv \<noteq> 0 then Err (system_code (word_of_int (- rv))) else Ok ())"

section \<open>The client\<close>

record ('n, 's, 'o, 'd, 'u) endpoint_client =
  ec_socket :: "'o udp"
  ec_loop :: "'d event_loop"
  ec_quic :: "('n, 's) quic_client"
  ec_http3 :: client
  ec_user :: 'u

text \<open>What the client runs on, and the handler of its events with a state of its own.\<close>

record ('n, 's, 'o, 'd, 'u) platform =
  pf_libraries :: "('n, 's) libraries"
  pf_system :: "'o system"
  pf_sd :: "'d sd_lib"
  pf_junk :: "nat \<Rightarrow> byte"
  pf_handler :: "event \<Rightarrow> 'u \<Rightarrow> (unit, error_code) result \<times> 'u"

type_synonym ('n, 's, 'o, 'd, 'u) outcome = "(unit, error_code) result \<times> ('n, 's, 'o, 'd, 'u) endpoint_client"

definition default_quic_params :: params where
  "default_quic_params = default_params
     \<lparr>pa_max_stream_data_bidi_local := 256 * 1024, pa_max_stream_data_bidi_remote := 256 * 1024,
      pa_max_stream_data_uni := 256 * 1024, pa_max_data := 1 * 1024 * 1024, pa_max_streams_bidi := 1,
      pa_max_streams_uni := 3, pa_idle_timeout := 30000\<rparr>"

text \<open>The members by which the parts of the client are changed.\<close>

definition on_socket where "on_socket f a = on_member (\<lambda>u. a\<lparr>ec_socket := u\<rparr>) (f (ec_socket a))"
definition on_loop where "on_loop f a = on_member (\<lambda>l. a\<lparr>ec_loop := l\<rparr>) (f (ec_loop a))"
definition on_quic where "on_quic f a = on_member (\<lambda>q. a\<lparr>ec_quic := q\<rparr>) (f (ec_quic a))"
definition on_http3 where "on_http3 f a = on_member (\<lambda>c. a\<lparr>ec_http3 := c\<rparr>) (f (ec_http3 a))"
definition on_user where "on_user f a = on_member (\<lambda>u. a\<lparr>ec_user := u\<rparr>) (f (ec_user a))"

lemmas on_defs = on_socket_def on_loop_def on_quic_def on_http3_def on_user_def

text \<open>A timer is set to a time from now.\<close>

definition update_timer ::
  "('n, 's, 'o, 'd, 'u) platform \<Rightarrow> timer \<Rightarrow> (('n, 's) quic_client \<Rightarrow> uint64) \<Rightarrow>
   ('n, 's, 'o, 'd, 'u) endpoint_client \<Rightarrow> ('n, 's, 'o, 'd, 'u) outcome" where
  "update_timer P t after a =
     (case read_clock (qc_ngtcp2 (ec_quic a)) of (now, c) \<Rightarrow>
        let a = a\<lparr>ec_quic := (ec_quic a)\<lparr>qc_ngtcp2 := c\<rparr>\<rparr>
        in try_in a (or_fault (timer_update (pf_sd P) t (now + after (ec_quic a)) (ec_loop a)))
             (\<lambda>l. (Ok (), a\<lparr>ec_loop := l\<rparr>)))"

section \<open>Sending\<close>

text \<open>The three parts of \<open>send_once\<close>: done with a value, over with an error, or on to the next when idle.\<close>

definition or_when_idle ::
  "'e \<Rightarrow> ('e \<Rightarrow> error_code) \<Rightarrow> ('a, 'e) result \<times> 't \<Rightarrow>
   ('a \<Rightarrow> 't \<Rightarrow> (unit, error_code) result \<times> 't) \<Rightarrow> ('t \<Rightarrow> (unit, error_code) result \<times> 't) \<Rightarrow>
   (unit, error_code) result \<times> 't" where
  "or_when_idle idle code m done_with go_on =
     (case m of (Ok x, t) \<Rightarrow> done_with x t
      | (Err e, t) \<Rightarrow> if e \<noteq> idle then (Err (code e), t) else go_on t
      | (Fault, t) \<Rightarrow> (Fault, t))"

definition send_once ::
  "('n, 's, 'o, 'd, 'u) platform \<Rightarrow> ('n, 's, 'o, 'd, 'u) endpoint_client \<Rightarrow> ('n, 's, 'o, 'd, 'u) outcome" where
  "send_once P a =
     or_when_idle (app_code App_idle) (\<lambda>ec. ec) (on_socket (udp_send (pf_system P)) a) (\<lambda>_ a. (Ok (), a)) (\<lambda>a.
     or_when_idle Q_idle quic_code (on_quic (quic_send (pf_libraries P)) a)
       (\<lambda>packet a. (Ok (), a\<lparr>ec_socket := udp_add packet (ec_socket a)\<rparr>)) (\<lambda>a.
     or_when_idle Idle http3_code (on_http3 (client_send (pf_junk P)) a)
       (\<lambda>event a. with_code quic_code (on_quic (quic_add event) a)) (\<lambda>a.
     (Err (app_code App_idle), a))))"

partial_function (option) send_loop ::
  "('n, 's, 'o, 'd, 'u) platform \<Rightarrow> ('n, 's, 'o, 'd, 'u) endpoint_client \<Rightarrow>
   (error_code option \<times> ('n, 's, 'o, 'd, 'u) endpoint_client) option" where
  "send_loop P a =
     (case send_once P a of
        (Ok _, a) \<Rightarrow> send_loop P a
      | (Err ec, a) \<Rightarrow> Some (Some ec, a)
      | (Fault, a) \<Rightarrow> Some (None, a))"

text \<open>The loop ends with an error or with a fault. \<open>None\<close> is a loop that does not end.\<close>

definition endpoint_send ::
  "('n, 's, 'o, 'd, 'u) platform \<Rightarrow> ('n, 's, 'o, 'd, 'u) endpoint_client \<Rightarrow> ('n, 's, 'o, 'd, 'u) outcome option" where
  "endpoint_send P a =
     map_option (\<lambda>(r, a). case r of
         None \<Rightarrow> (Fault, a)
       | Some ec \<Rightarrow>
           try_state (update_timer P Retransmit_timer (quic_expiry (pf_libraries P)) a) (\<lambda>_ a.
           try_state (update_timer P Timeout_timer (quic_timeout (pf_libraries P)) a) (\<lambda>_ a.
           (if would_block (pf_system P) ec \<or> ec = app_code App_idle then Ok () else Err ec, a))))
       (send_loop P a)"

section \<open>Receiving\<close>

text \<open>
  The inner loop of \<open>recv_once\<close>: the events of a generator go to the handler. \<open>False\<close> says that the handler
  wants no more and the loop of the program was told to exit.
\<close>

definition after_handler ::
  "('n, 's, 'o, 'd, 'u) platform \<Rightarrow> error_code \<Rightarrow> ('n, 's, 'o, 'd, 'u) endpoint_client \<Rightarrow> ('n, 's, 'o, 'd, 'u) outcome" where
  "after_handler P ec a =
     (if ec = app_code App_finished then on_loop (loop_exit (pf_sd P)) a
      else on_loop (loop_exit_with (pf_sd P) ec) a)"

text \<open>Every round of the loop takes something from what the client has to process.\<close>

lemma generator_next_left:
  assumes "generator_next client_process g c = (Ok True, g1, c')" and "generator_get g1 = (Ok event, g2)"
  shows "(if g_finished g2 then 0 else Suc (client_left (g_id g2) c')) < (if g_finished g then 0 else Suc (client_left (g_id g) c))"
proof -
  obtain r d where p: "client_process (g_id g) c = (r, d)" by (cases "client_process (g_id g) c")
  have nf: "\<not> g_finished g" using assms(1) by (auto simp: generator_next_def)
  then have r: "r = Ok event" "c' = d" "g_id g2 = g_id g" "g_finished g2 \<longleftrightarrow> event_type_of event = Finished_event"
    using assms p by (auto simp: generator_next_def generator_get_def Let_def split: result.splits if_splits)
  show ?thesis
    using nf r client_events.uses_up [of "g_id g" c event d] p by auto
qed

function http3_loop ::
  "('n, 's, 'o, 'd, 'u) platform \<Rightarrow> generator \<Rightarrow> ('n, 's, 'o, 'd, 'u) endpoint_client \<Rightarrow>
   (bool, error_code) result \<times> ('n, 's, 'o, 'd, 'u) endpoint_client" where
  "http3_loop P g a =
     (case generator_next client_process g (ec_http3 a) of
        (Ok True, g, c) \<Rightarrow>
          (case generator_get g of
             (Ok event, g) \<Rightarrow>
               (case on_user (pf_handler P event) (a\<lparr>ec_http3 := c\<rparr>) of
                  (Ok _, a) \<Rightarrow> http3_loop P g a
                | (Err ec, a) \<Rightarrow> try_state (after_handler P ec a) (\<lambda>_ a. (Ok False, a))
                | (Fault, a) \<Rightarrow> (Fault, a))
           | (Err e, g) \<Rightarrow> (Err (http3_code e), a\<lparr>ec_http3 := c\<rparr>)
           | (Fault, g) \<Rightarrow> (Fault, a\<lparr>ec_http3 := c\<rparr>))
      | (Ok False, g, c) \<Rightarrow> (Ok True, a\<lparr>ec_http3 := c\<rparr>)
      | (Err e, g, c) \<Rightarrow> (Err (http3_code e), a\<lparr>ec_http3 := c\<rparr>)
      | (Fault, g, c) \<Rightarrow> (Fault, a\<lparr>ec_http3 := c\<rparr>))"
  by pat_completeness auto

termination
  by (relation "measure (\<lambda>(P, g, a). if g_finished g then 0 else Suc (client_left (g_id g) (ec_http3 a)))")
    (auto dest!: generator_next_left [OF sym sym] simp: on_user_def on_member_def split: prod.splits if_splits)

lemma on_user_keeps: "on_user f a = (r, a') \<Longrightarrow> ec_quic a' = ec_quic a"
  by (auto simp: on_user_def on_member_eq)

lemma on_http3_keeps: "on_http3 f a = (r, a') \<Longrightarrow> ec_quic a' = ec_quic a"
  by (auto simp: on_http3_def on_member_eq)

lemma on_quic_eq: "on_quic f a = (r, a') \<longleftrightarrow> (\<exists>q. f (ec_quic a) = (r, q) \<and> a' = a\<lparr>ec_quic := q\<rparr>)"
  by (auto simp: on_quic_def on_member_eq)

lemma after_handler_keeps: "after_handler P ec a = (r, a') \<Longrightarrow> ec_quic a' = ec_quic a"
  by (auto simp: after_handler_def on_loop_def on_member_eq split: if_splits)

declare http3_loop.simps [simp del]

text \<open>One round of the loop.\<close>

lemma http3_loop_round:
  assumes "generator_next client_process g (ec_http3 a) = (Ok True, g1, c)" "generator_get g1 = (Ok event, g2)"
  shows "http3_loop P g a =
    (case on_user (pf_handler P event) (a\<lparr>ec_http3 := c\<rparr>) of
       (Ok _, a) \<Rightarrow> http3_loop P g2 a
     | (Err ec, a) \<Rightarrow> try_state (after_handler P ec a) (\<lambda>_ a. (Ok False, a))
     | (Fault, a) \<Rightarrow> (Fault, a))"
  using assms by (subst http3_loop.simps) simp

lemma http3_loop_over:
  assumes "generator_next client_process g (ec_http3 a) = (x, g1, c)" "x \<noteq> Ok True \<or> (\<forall>event. fst (generator_get g1) \<noteq> Ok event)"
  shows "ec_quic (snd (http3_loop P g a)) = ec_quic a" "ec_user (snd (http3_loop P g a)) = ec_user a"
  using assms by (auto simp: http3_loop.simps [of P g a] split: result.split bool.split prod.split)

lemma http3_loop_keeps: "http3_loop P g a = (r, a') \<Longrightarrow> ec_quic a' = ec_quic a"
proof (induction P g a arbitrary: r a' rule: http3_loop.induct)
  case (1 P g a)
  obtain x g1 c where n: "generator_next client_process g (ec_http3 a) = (x, g1, c)"
    by (cases "generator_next client_process g (ec_http3 a)")
  show ?case
  proof (cases "x = Ok True \<and> (\<exists>event. fst (generator_get g1) = Ok event)")
    case True
    then obtain event g2 where get: "generator_get g1 = (Ok event, g2)" by (cases "generator_get g1") auto
    obtain z a1 where u: "on_user (pf_handler P event) (a\<lparr>ec_http3 := c\<rparr>) = (z, a1)" by fastforce
    have q: "ec_quic a1 = ec_quic a" using on_user_keeps [OF u] by simp
    have run: "http3_loop P g a =
        (case (z, a1) of (Ok _, a) \<Rightarrow> http3_loop P g2 a
         | (Err ec, a) \<Rightarrow> try_state (after_handler P ec a) (\<lambda>_ a. (Ok False, a)) | (Fault, a) \<Rightarrow> (Fault, a))"
      using http3_loop_round [of g a g1 c event g2 P] n get True u by simp
    show ?thesis
    proof (cases z)
      case (Ok y)
      then show ?thesis using "1.IH" [OF n [symmetric] _ _ refl get [symmetric] refl u [symmetric] Ok, of True r a'] run "1.prems" q True
        by simp
    next
      case (Err ec)
      obtain w b where h: "after_handler P ec a1 = (w, b)" by fastforce
      then show ?thesis using run "1.prems" q Err after_handler_keeps [OF h] by (cases w) auto
    qed (use run "1.prems" q in auto)
  next
    case False
    then show ?thesis using http3_loop_over(1) [OF n, of P] "1.prems" by auto
  qed
qed

text \<open>The outer loop: the events of the QUIC client go to the HTTP/3 client.\<close>

function quic_loop ::
  "('n, 's, 'o, 'd, 'u) platform \<Rightarrow> ('n, 's, 'o, 'd, 'u) endpoint_client \<Rightarrow> ('n, 's, 'o, 'd, 'u) outcome" where
  "quic_loop P a =
     (if \<not> quic_generator_next (ec_quic a) then (Ok (), a)
      else
        try_state (with_code quic_code (on_quic quic_generator_get a)) (\<lambda>event a.
        try_state (with_code http3_code (on_http3 (client_recv event) a)) (\<lambda>g a.
        try_state (http3_loop P g a) (\<lambda>more a. if more then quic_loop P a else (Ok (), a)))))"
  by pat_completeness auto

termination
  by (relation "measure (\<lambda>(P, a). length (qc_events (ec_quic a)))")
    (auto simp: with_code_eq on_quic_eq quic_generator_get_def quic_generator_next_def
      dest!: on_http3_keeps http3_loop_keeps split: list.splits)

definition recv_once ::
  "('n, 's, 'o, 'd, 'u) platform \<Rightarrow> ('n, 's, 'o, 'd, 'u) endpoint_client \<Rightarrow> ('n, 's, 'o, 'd, 'u) outcome" where
  "recv_once P a =
     try_state (on_socket (udp_recv (pf_system P) (pf_junk P)) a) (\<lambda>packet a.
     try_state (with_code quic_code (on_quic (quic_recv (pf_libraries P) packet) a)) (\<lambda>_ a. quic_loop P a))"

partial_function (option) recv_loop ::
  "('n, 's, 'o, 'd, 'u) platform \<Rightarrow> ('n, 's, 'o, 'd, 'u) endpoint_client \<Rightarrow>
   (error_code option \<times> ('n, 's, 'o, 'd, 'u) endpoint_client) option" where
  "recv_loop P a =
     (case recv_once P a of
        (Ok _, a) \<Rightarrow> recv_loop P a
      | (Err ec, a) \<Rightarrow> Some (Some ec, a)
      | (Fault, a) \<Rightarrow> Some (None, a))"

definition endpoint_recv ::
  "('n, 's, 'o, 'd, 'u) platform \<Rightarrow> ('n, 's, 'o, 'd, 'u) endpoint_client \<Rightarrow> ('n, 's, 'o, 'd, 'u) outcome option" where
  "endpoint_recv P a =
     map_option (\<lambda>(r, a). case r of
         None \<Rightarrow> (Fault, a)
       | Some ec \<Rightarrow>
           try_state (update_timer P Timeout_timer (quic_timeout (pf_libraries P)) a) (\<lambda>_ a.
           (if would_block (pf_system P) ec then Ok () else Err ec, a)))
       (recv_loop P a)"

section \<open>The handlers of the loop\<close>

text \<open>One call after the other, where each may not return.\<close>

definition then_may ::
  "(('a, 'e) result \<times> 's) option \<Rightarrow> ('a \<Rightarrow> 's \<Rightarrow> (('b, 'e) result \<times> 's) option) \<Rightarrow> (('b, 'e) result \<times> 's) option" where
  "then_may m k =
     (case m of
        None \<Rightarrow> None
      | Some (Ok x, s) \<Rightarrow> k x s
      | Some (Err e, s) \<Rightarrow> Some (Err e, s)
      | Some (Fault, s) \<Rightarrow> Some (Fault, s))"

definition endpoint_io ::
  "('n, 's, 'o, 'd, 'u) platform \<Rightarrow> 32 word \<Rightarrow> ('n, 's, 'o, 'd, 'u) endpoint_client \<Rightarrow>
   ('n, 's, 'o, 'd, 'u) outcome option" where
  "endpoint_io P events a =
     (let S = pf_system P
      in if events AND sys_epollerr S \<noteq> 0 then
           (case udp_error S (ec_socket a) of (ec, u) \<Rightarrow> Some (Err ec, a\<lparr>ec_socket := u\<rparr>))
         else
           then_may
             (if events AND sys_epollout S \<noteq> 0 \<or> events AND sys_epollhup S \<noteq> 0
              then endpoint_send P a else Some (Ok (), a)) (\<lambda>_ a.
           if events AND sys_epollin S \<noteq> 0 \<or> events AND sys_epollrdhup S \<noteq> 0
           then then_may (endpoint_recv P a) (\<lambda>_ a. endpoint_send P a)
           else Some (Ok (), a)))"

definition endpoint_retransmit ::
  "('n, 's, 'o, 'd, 'u) platform \<Rightarrow> uint64 \<Rightarrow> ('n, 's, 'o, 'd, 'u) endpoint_client \<Rightarrow>
   ('n, 's, 'o, 'd, 'u) outcome option" where
  "endpoint_retransmit P usec a =
     then_may (Some (with_code quic_code (on_quic (quic_expire (pf_libraries P)) a))) (\<lambda>_ a. endpoint_send P a)"

definition endpoint_timeout ::
  "('n, 's, 'o, 'd, 'u) platform \<Rightarrow> uint64 \<Rightarrow> ('n, 's, 'o, 'd, 'u) endpoint_client \<Rightarrow> ('n, 's, 'o, 'd, 'u) outcome" where
  "endpoint_timeout P usec a = on_loop (loop_exit_with (pf_sd P) (app_code App_timeout)) a"

text \<open>The static \<open>handle\<close> of the sources: zero, or a negative value when the handler fails.\<close>

definition sd_code :: "('n, 's, 'o, 'd, 'u) outcome \<Rightarrow> (int, error_code) result \<times> ('n, 's, 'o, 'd, 'u) endpoint_client" where
  "sd_code m = (case m of (Ok _, a) \<Rightarrow> (Ok 0, a) | (Err _, a) \<Rightarrow> (Ok (- 1), a) | (Fault, a) \<Rightarrow> (Fault, a))"

fun handle_sd ::
  "('n, 's, 'o, 'd, 'u) platform \<Rightarrow> sd_callback \<Rightarrow> ('n, 's, 'o, 'd, 'u) endpoint_client \<Rightarrow>
   ((int, error_code) result \<times> ('n, 's, 'o, 'd, 'u) endpoint_client) option" where
  "handle_sd P (Sd_io events) a = map_option sd_code (endpoint_io P events a)"
| "handle_sd P (Sd_retransmit usec) a = map_option sd_code (endpoint_retransmit P usec a)"
| "handle_sd P (Sd_timeout usec) a = Some (sd_code (endpoint_timeout P usec a))"

definition put_event :: "'d \<Rightarrow> ('n, 's, 'o, 'd, 'u) endpoint_client \<Rightarrow> ('n, 's, 'o, 'd, 'u) endpoint_client" where
  "put_event d a = a\<lparr>ec_loop := (ec_loop a)\<lparr>el_event := d\<rparr>\<rparr>"

definition get_event :: "('n, 's, 'o, 'd, 'u) endpoint_client \<Rightarrow> 'd" where
  "get_event a = el_event (ec_loop a)"

text \<open>\<open>run_script\<close> for handlers that may not return.\<close>

primrec run_script_may ::
  "('n \<Rightarrow> 'q \<Rightarrow> 'q) \<Rightarrow> ('q \<Rightarrow> 'n) \<Rightarrow> ('c \<Rightarrow> 'q \<Rightarrow> (('r, 'e) result \<times> 'q) option) \<Rightarrow>
   ('n, 'c, 'r, 'a) script \<Rightarrow> 'q \<Rightarrow> (('a, 'e) result \<times> 'q) option" where
  "run_script_may put get handle (Return n a) q = Some (Ok a, put n q)"
| "run_script_may put get handle (Call n c k) q =
     then_may (handle c (put n q)) (\<lambda>r q. run_script_may put get handle (k (r, get q)) q)"

definition endpoint_run ::
  "('n, 's, 'o, 'd, 'u) platform \<Rightarrow> ('n, 's, 'o, 'd, 'u) endpoint_client \<Rightarrow> ('n, 's, 'o, 'd, 'u) outcome option" where
  "endpoint_run P a =
     then_may (run_script_may put_event get_event (handle_sd P) (sd_loop (pf_sd P) (get_event a)) a)
       (\<lambda>rv a. Some (loop_result rv (ec_loop a), a))"

section \<open>The program\<close>

definition sigint :: int where "sigint = 2"
definition sigterm :: int where "sigterm = 15"

text \<open>
  The constructor: a failure of any of its calls ends the program (\<open>assume_value\<close>, or a bad assertion).
\<close>

definition must :: "('a, 'e) result \<times> 's \<Rightarrow> 's option" where
  "must m = (case m of (Ok _, s) \<Rightarrow> Some s | _ \<Rightarrow> None)"

definition new_endpoint ::
  "('n, 's, 'o, 'd, 'u) platform \<Rightarrow> string \<Rightarrow> endpoint \<Rightarrow> (nat \<Rightarrow> uint64) \<Rightarrow> (nat \<Rightarrow> byte) \<Rightarrow> 'o \<Rightarrow> 'd \<Rightarrow> 'u \<Rightarrow>
   ('n, 's, 'o, 'd, 'u) endpoint_client option" where
  "new_endpoint P host peer clock prng os d user =
     do { let S = pf_system P;
          let D = pf_sd P;
          socket \<leftarrow> new_udp S peer os;
          l \<leftarrow> must (loop_io D (udp_socket socket) (new_event_loop d));
          l \<leftarrow> must (loop_timer D Retransmit_timer l);
          l \<leftarrow> must (loop_timer D Timeout_timer l);
          here \<leftarrow> udp_local S socket;
          there \<leftarrow> udp_peer S socket;
          q \<leftarrow> new_quic_client (pf_libraries P) (map byte_of_char host) \<lparr> path_local = here, path_peer = there \<rparr>
                 default_quic_params clock prng;
          l \<leftarrow> must (loop_signal D sigint l);
          l \<leftarrow> must (loop_signal D sigterm l);
          must (update_timer P Timeout_timer (quic_timeout (pf_libraries P))
            \<lparr> ec_socket = socket, ec_loop = l, ec_quic = q, ec_http3 = new_client, ec_user = user \<rparr>) }"

definition endpoint_request ::
  "nat \<Rightarrow> nat \<Rightarrow> ('n, 's, 'o, 'd, 'u) endpoint_client \<Rightarrow> ('n, 's, 'o, 'd, 'u) outcome" where
  "endpoint_request t h a = with_code http3_code (on_http3 (client_request t h) a)"

text \<open>The handler of \<open>run\<close>: headers are collected, bodies appended, and the end of the message ends the loop.\<close>

fun run_handler :: "event \<Rightarrow> header list \<times> bytes \<Rightarrow> (unit, error_code) result \<times> header list \<times> bytes" where
  "run_handler (Ev_settings s) (headers, body) = (Ok (), headers, body)"
| "run_handler (Ev_header i fin header) (headers, body) = (Ok (), headers @ [header], body)"
| "run_handler (Ev_body d) (headers, body) = (Ok (), headers, body @ data_buffer d)"
| "run_handler (Ev_finished i) (headers, body) = (Err (app_code App_finished), headers, body)"

definition request_headers :: "string \<Rightarrow> header list" where
  "request_headers host =
     [make_header '':method'' ''GET'', make_header '':scheme'' ''https'', make_header '':authority'' host,
      make_header '':path'' ''/index.html'']"

text \<open>
  \<open>run\<close>, from the name and the number of the port to the headers and the body it prints; \<open>h\<close> is where it
  keeps the handle, \<open>t\<close> that of a temporary.
\<close>

definition endpoint_main ::
  "('n, 's, 'o, 'd, header list \<times> bytes) platform \<Rightarrow> (string \<Rightarrow> uint64) \<Rightarrow> nat \<Rightarrow> nat \<Rightarrow> string \<Rightarrow> nat \<Rightarrow>
   (nat \<Rightarrow> uint64) \<Rightarrow> (nat \<Rightarrow> byte) \<Rightarrow> 'o \<Rightarrow> 'd \<Rightarrow> (header list \<times> bytes, error_code) result option" where
  "endpoint_main P xxh t h host port clock prng os d =
     (case resolve (pf_system P) host of
        Err ec \<Rightarrow> Some (Err ec)
      | Fault \<Rightarrow> Some Fault
      | Ok [] \<Rightarrow> Some (Err (app_code App_resolve))
      | Ok (address # _) \<Rightarrow>
          (case new_endpoint P host \<lparr> ep_address = address, ep_port = word_of_nat port \<rparr> clock prng os d ([], []) of
             None \<Rightarrow> Some Fault
           | Some a \<Rightarrow>
               map_option (\<lambda>(r, a). bnl_try r (\<lambda>_. Ok (ec_user a)))
                 (then_may (Some
                    (try_state (endpoint_request t h a) (\<lambda>_ a.
                     with_code http3_code (on_http3 (client_write xxh (pf_junk P) h (request_headers host) []) a))))
                    (\<lambda>_ a. endpoint_run (P\<lparr>pf_handler := run_handler\<rparr>) a))))"

end
