(* ===== verification/Endpoint_Run.thy ===== *)
theory Endpoint_Run
  imports Endpoint
begin

text \<open>
  What the command line client does with its parts: when its loop over the three senders ends and what it
  leaves behind, when it does not end, and what happens to a timeout.
\<close>

section \<open>What an HTTP/3 client has to send\<close>

text \<open>Every event that a client sends takes something from what is unsent.\<close>

definition control_unsent :: "control_sender \<Rightarrow> nat" where
  "control_unsent c = (case cs_state c of Cs_type \<Rightarrow> 2 | Cs_settings \<Rightarrow> 1 | Cs_idle \<Rightarrow> 0)"

definition request_unsent :: "request_sender \<Rightarrow> nat" where
  "request_unsent s =
     2 * length (he_buffers (rs_headers s)) + (if he_state (rs_headers s) = He_frame then 1 else 0) +
     2 * length (be_buffers (rs_body s)) + (if be_state (rs_body s) = Be_frame then 1 else 0)"

definition sender_unsent :: "uint64 store \<Rightarrow> uint64 \<Rightarrow> nat" where
  "sender_unsent st i = (case st_senders st i of None \<Rightarrow> 0 | Some s \<Rightarrow> request_unsent s)"

definition client_unsent :: "client \<Rightarrow> nat" where
  "client_unsent c = control_unsent (cl_control_sender c) + sum_list (map (sender_unsent (cl_store c)) (map_keys (cl_receivers c)))"

lemma control_send_unsent: "control_send junk c = (Ok ev, c') \<Longrightarrow> control_unsent c' < control_unsent c"
  by (auto simp: control_send_def control_unsent_def try_in_def split: control_sender_state.splits result.splits)

lemma control_send_rest: "control_send junk c = (Err e, c') \<Longrightarrow> c' = c"
  by (auto simp: control_send_def try_in_def split: control_sender_state.splits result.splits)

lemma request_send_unsent: "request_send junk s = (Ok ev, s') \<Longrightarrow> request_unsent s' < request_unsent s"
  by (auto simp: request_send_def request_unsent_def headers_encoder_encode_def body_encoder_encode_def try_in_def
      try_state_def on_member_def or_fault_def buffers_pop_def Let_def
      split: request_sender_state.splits headers_encoder_state.splits body_encoder_state.splits result.splits
        option.splits if_splits list.splits)

lemma request_send_rest: "request_send junk s = (Err e, s') \<Longrightarrow> s' = s"
  by (auto simp: request_send_def headers_encoder_encode_def body_encoder_encode_def try_in_def
      try_state_def on_member_def or_fault_def Let_def
      split: request_sender_state.splits headers_encoder_state.splits body_encoder_state.splits result.splits
        option.splits if_splits prod.splits)

lemma put_same_sender: "st_senders st i = Some s \<Longrightarrow> put_sender i s st = st"
  by (cases st) (auto simp: put_sender_def)

lemma map_keys_update [simp]: "map_keys (map_update k v m) = map_keys m"
  by (induction m) (auto simp: map_keys_def map_update_def)

lemma sum_list_less:
  fixes f g :: "'a \<Rightarrow> nat"
  shows "\<forall>x \<in> set xs. f x \<le> g x \<Longrightarrow> x \<in> set xs \<Longrightarrow> f x < g x \<Longrightarrow> sum_list (map f xs) < sum_list (map g xs)"
proof (induction xs)
  case (Cons y ys)
  have le: "sum_list (map f ys) \<le> sum_list (map g ys)" using Cons.prems(1) by (auto intro: sum_list_mono)
  show ?case
  proof (cases "x = y")
    case True
    then show ?thesis using le Cons.prems(3) by simp
  next
    case False
    then have "sum_list (map f ys) < sum_list (map g ys)" using Cons by auto
    then show ?thesis using Cons.prems(1) by (simp add: add_le_less_mono)
  qed
qed simp

lemma client_send_requests_unsent:
  "client_send_requests junk is c = (Ok ev, c') \<Longrightarrow> set is \<subseteq> set (map_keys (cl_receivers c)) \<Longrightarrow> client_unsent c' < client_unsent c"
proof (induction "is" arbitrary: c)
  case (Cons i "is")
  obtain s where s: "st_senders (cl_store c) i = Some s" using Cons.prems(1) by (auto simp: try_in_def or_fault_def split: option.splits)
  obtain r s' where send: "request_send junk s = (r, s')" by (cases "request_send junk s")
  show ?case
  proof (cases "request_sender_finished s \<or> (\<exists>e. r = Err e)")
    case True
    then have "client_send_requests junk is c = (Ok ev, c')"
      using Cons.prems(1) s send request_send_rest [of junk s _ s']
      by (auto simp: put_same_sender split: if_splits)
    then show ?thesis using Cons by simp
  next
    case False
    then obtain e where r: "r = Ok e" using Cons.prems(1) s send by (cases r) auto
    let ?c = "c\<lparr>cl_store := put_sender i s' (cl_store c)\<rparr>"
    have "cl_store c' = cl_store ?c \<and> map_keys (cl_receivers c') = map_keys (cl_receivers ?c) \<and>
        cl_control_sender c' = cl_control_sender ?c"
      using Cons.prems(1) s send r False
      by (auto simp: try_in_def or_fault_def try_state_def on_member_def split: option.splits if_splits result.splits prod.splits)
    moreover have "sum_list (map (sender_unsent (cl_store ?c)) (map_keys (cl_receivers c))) <
        sum_list (map (sender_unsent (cl_store c)) (map_keys (cl_receivers c)))"
      using s request_send_unsent [of junk s e s'] send r Cons.prems(2)
      by (intro sum_list_less [of _ _ _ i]) (auto simp: sender_unsent_def put_sender_def)
    ultimately show ?thesis by (simp add: client_unsent_def)
  qed
qed simp

lemma client_send_unsent: "client_send junk c = (Ok ev, c') \<Longrightarrow> client_unsent c' < client_unsent c"
proof -
  assume a: "client_send junk c = (Ok ev, c')"
  obtain r d where s: "control_send junk (cl_control_sender c) = (r, d)" by (cases "control_send junk (cl_control_sender c)")
  show ?thesis
  proof (cases r)
    case (Ok e)
    then show ?thesis using a s control_send_unsent [of junk "cl_control_sender c"] by (auto simp: client_send_def client_unsent_def)
  next
    case (Err e)
    then have "d = cl_control_sender c" using s control_send_rest by blast
    then have "client_send_requests junk (map_keys (cl_receivers c)) c = (Ok ev, c')"
      using a s Err by (auto simp: client_send_def split: if_splits)
    then show ?thesis by (rule client_send_requests_unsent) simp
  qed (use a s in \<open>simp add: client_send_def\<close>)
qed

section \<open>Packets are not empty\<close>

text \<open>A property of what a call of a library returns, whatever is answered to its callbacks.\<close>

primrec script_returns :: "('a \<Rightarrow> bool) \<Rightarrow> ('n, 'c, 'r, 'a) script \<Rightarrow> bool" where
  "script_returns P (Return n a) \<longleftrightarrow> P a"
| "script_returns P (Call n c k) \<longleftrightarrow> (\<forall>x. script_returns P (k x))"

lemma script_returns_run:
  "script_returns P script \<Longrightarrow> run_script put get handle script q = (Ok a, q') \<Longrightarrow> P a"
proof (induction script arbitrary: q)
  case (Call n c k)
  obtain r q1 where h: "handle c (put n q) = (r, q1)" by (cases "handle c (put n q)")
  then obtain x where "r = Ok x" using Call.prems(2) by (cases r) auto
  then show ?case using Call.IH [of "k (x, get q1)" q1] Call.prems h by simp
qed auto

definition writes_something :: "'n ngtcp2_lib \<Rightarrow> bool" where
  "writes_something ng \<longleftrightarrow>
     (\<forall>storage i fin data ts n. script_returns (\<lambda>(rv, storage, written). rv \<noteq> 0) (ng_write_stream ng storage i fin data ts n))"

lemma quic_write_pkt_some: "quic_write_pkt L q = (Ok packet, q') \<Longrightarrow> packet \<noteq> []"
  by (auto simp: quic_write_pkt_def with_clock_def Let_def try_state_def written_pkt_def packet_of_def
      split: prod.splits result.splits if_splits)

lemma quic_write_stream_some:
  assumes "writes_something (ngtcp2_lib L)" "quic_write_stream L i data fin q = (Ok (packet, n), q')"
  shows "packet \<noteq> []"
proof -
  let ?ng = "ngtcp2_lib L" and ?q = "q\<lparr>qc_ngtcp2 := snd (read_clock (qc_ngtcp2 q))\<rparr>"
  let ?script = "ng_write_stream ?ng (replicate (ng_max_pktlen ?ng) 0) i fin data
      (timestamp_to_ngtcp2 ?ng (fst (read_clock (qc_ngtcp2 q)))) (get_conn ?q)"
  obtain r q1 where run: "run_ngtcp2 L ?script ?q = (r, q1)" by fastforce
  then obtain a where a: "r = Ok a" "written_stream ?ng a = Ok (packet, n)"
    using assms(2) by (cases r) (auto simp: quic_write_stream_def with_clock_def Let_def split: prod.splits)
  obtain rv storage written where a': "a = (rv, storage, written)" by (cases a)
  have "script_returns (\<lambda>(rv, storage, written). rv \<noteq> 0) ?script" using assms(1) by (simp add: writes_something_def)
  then have "rv \<noteq> 0" using script_returns_run run a(1) a' unfolding run_ngtcp2_def by fastforce
  then show ?thesis using a(2) a'
    by (auto simp: written_stream_def packet_of_def Let_def split: if_splits)
qed

lemma quic_stream_send_some:
  assumes "\<And>i data fin q n q'. write_stream i data fin q \<noteq> (Ok ([], n), q')"
  shows "quic_stream_send get put open_to write_stream q \<noteq> (Ok [], q')"
  by (auto simp: assms quic_stream_send_def try_in_def try_state_def on_member_def or_fault_def Let_def
      split: option.splits result.splits prod.splits if_splits)

lemma quic_send_some:
  assumes "writes_something (ngtcp2_lib L)"
  shows "quic_send L q \<noteq> (Ok [], q')"
proof -
  have stream: "quic_send_stream L i q \<noteq> (Ok [], q')" for i q q'
    unfolding quic_send_stream_def using quic_write_stream_some [OF assms] by (intro quic_stream_send_some) blast
  have streams: "quic_send_streams L is q \<noteq> (Ok [], q')" for "is" q q'
    by (induction "is" arbitrary: q) (auto simp: stream split: prod.splits result.splits if_splits)
  have pkt: "quic_write_pkt L q \<noteq> (Ok [], q')" for q q' using quic_write_pkt_some by blast
  show ?thesis
    by (auto simp: quic_send_def try_state_def streams pkt split: prod.splits result.splits if_splits)
qed

section \<open>The loop of \<open>send\<close>\<close>

text \<open>
  A system of a test that takes only so many datagrams before it says that the call would block: \<open>room\<close> goes down
  with every datagram it takes.
\<close>

definition takes_finitely :: "('o \<Rightarrow> nat) \<Rightarrow> 'o system \<Rightarrow> bool" where
  "takes_finitely room S \<longleftrightarrow>
     (\<forall>fd bs os. case sys_send S fd bs os of (rv, errno, os') \<Rightarrow> rv \<noteq> - 1 \<longrightarrow> room os' < room os)"

lemma udp_send_room:
  assumes "takes_finitely room S" "udp_send S u = (Ok x, u')"
  shows "room (udp_os u') < room (udp_os u)"
proof -
  obtain first where f: "buffers_front (udp_send_buffer u) = Some first"
    using assms(2) by (cases "buffers_front (udp_send_buffer u)") (auto simp: udp_send_def split: if_splits)
  obtain rv errno os where s: "sys_send S (udp_socket u) first (udp_os u) = (rv, errno, os)"
    by (cases "sys_send S (udp_socket u) first (udp_os u)") auto
  then have "rv \<noteq> - 1" "udp_os u' = os"
    using assms(2) f by (auto simp: udp_send_def Let_def try_in_def or_fault_def split: if_splits option.splits)
  then show ?thesis using assms(1) s unfolding takes_finitely_def by (metis (mono_tags, lifting) case_prod_conv)
qed

lemma udp_send_failed:
  assumes "udp_send S u = (Err ec, u')"
  shows "ec = app_code App_idle \<and> u' = u \<and> buffers_empty (udp_send_buffer u) \<or>
    (\<exists>bs os errno. ec = system_code errno \<and> sys_send S (udp_socket u') bs os = (- 1, errno, udp_os u'))"
  using assms
  by (auto simp: udp_send_def Let_def try_in_def or_fault_def split: if_splits option.splits prod.splits)

lemma codes_differ [simp]:
  "quic_code e \<noteq> app_code x" "http3_code e' \<noteq> app_code x" "system_code n \<noteq> app_code x"
  "quic_code e \<noteq> system_code n" "http3_code e' \<noteq> system_code n" "app_code x \<noteq> system_code n"
  by (simp_all add: quic_code_def http3_code_def app_code_def system_code_def)

lemma or_when_idle_simps [simp]:
  "or_when_idle idle code (Ok x, t) f g = f x t" "or_when_idle idle code (Fault, t) f g = (Fault, t)"
  "or_when_idle idle code (Err e, t) f g = (if e \<noteq> idle then (Err (code e), t) else g t)"
  by (simp_all add: or_when_idle_def)

text \<open>How \<open>send_once\<close> may end.\<close>

lemma send_onceE:
  assumes "send_once P a = (r, a')"
  obtains (sent) u where "udp_send (pf_system P) (ec_socket a) = (Ok (), u)" "r = Ok ()" "a' = a\<lparr>ec_socket := u\<rparr>"
    | (failed) ec u where "udp_send (pf_system P) (ec_socket a) = (Err ec, u)" "ec \<noteq> app_code App_idle" "r = Err ec" "a' = a\<lparr>ec_socket := u\<rparr>"
    | (fault) "r = Fault"
    | (packet) u packet q where "udp_send (pf_system P) (ec_socket a) = (Err (app_code App_idle), u)"
        "quic_send (pf_libraries P) (ec_quic a) = (Ok packet, q)" "r = Ok ()" "a' = a\<lparr>ec_socket := udp_add packet u, ec_quic := q\<rparr>"
    | (quic) e where "r = Err (quic_code e)"
    | (event) u event c q' where "udp_send (pf_system P) (ec_socket a) = (Err (app_code App_idle), u)"
        "client_send (pf_junk P) (ec_http3 a) = (Ok event, c)" "a' = a\<lparr>ec_socket := u, ec_http3 := c, ec_quic := q'\<rparr>"
        "r = Ok () \<or> (\<exists>e. r = Err (quic_code e)) \<or> r = Fault"
    | (http3) e where "r = Err (http3_code e)"
    | (idle) u q c where "udp_send (pf_system P) (ec_socket a) = (Err (app_code App_idle), u)"
        "quic_send (pf_libraries P) (ec_quic a) = (Err Q_idle, q)" "client_send (pf_junk P) (ec_http3 a) = (Err Idle, c)"
        "r = Err (app_code App_idle)" "a' = a\<lparr>ec_socket := u, ec_quic := q, ec_http3 := c\<rparr>"
proof -
  obtain x u where s: "udp_send (pf_system P) (ec_socket a) = (x, u)" by fastforce
  obtain y q where p: "quic_send (pf_libraries P) (ec_quic a) = (y, q)" by fastforce
  obtain z c where h: "client_send (pf_junk P) (ec_http3 a) = (z, c)" by fastforce
  let ?a = "a\<lparr>ec_socket := u, ec_quic := q, ec_http3 := c\<rparr>"
  let ?h = "or_when_idle Idle http3_code (z, ?a) (\<lambda>event a. with_code quic_code (on_quic (quic_add event) a))
      (\<lambda>a. (Err (app_code App_idle), a))"
  let ?p = "or_when_idle Q_idle quic_code (y, a\<lparr>ec_socket := u, ec_quic := q\<rparr>)
      (\<lambda>packet a. (Ok (), a\<lparr>ec_socket := udp_add packet (ec_socket a)\<rparr>)) (\<lambda>a. ?h)"
  have run: "(r, a') = or_when_idle (app_code App_idle) (\<lambda>ec. ec) (x, a\<lparr>ec_socket := u\<rparr>) (\<lambda>_ a. (Ok (), a)) (\<lambda>a. ?p)"
    using assms [symmetric] by (simp add: send_once_def on_socket_def on_quic_def on_http3_def s p h or_when_idle_def split: result.split)
  show thesis
  proof (cases x)
    case (Ok v)
    then show thesis using run s that(1) [of u] by simp
  next
    case x: (Err ec)
    show thesis
    proof (cases "ec = app_code App_idle")
      case False
      then show thesis using run s x that(2) [of ec u] by simp
    next
      case idle: True
      then have run: "(r, a') = ?p" using run x by simp
      show thesis
      proof (cases y)
        case (Ok packet)
        then show thesis using run s p x idle that(4) [of u packet q] by simp
      next
        case y: (Err e)
        show thesis
        proof (cases "e = Q_idle")
          case False
          then show thesis using run y that(5) [of e] by simp
        next
          case True
          then have run: "(r, a') = ?h" using run y by simp
          show thesis
          proof (cases z)
            case (Ok event)
            obtain w q' where add: "quic_add event q = (w, q')" by fastforce
            have "(r, a') = with_code quic_code (w, a\<lparr>ec_socket := u, ec_http3 := c, ec_quic := q'\<rparr>)"
              using run Ok add by (simp add: on_quic_def)
            then show thesis using s h x idle Ok that(6) [of u event c q'] by (cases w) auto
          next
            case z: (Err e')
            then show thesis using run s p h x y idle True that(7) [of e'] that(8) [of u q c] by (cases "e' = Idle") simp_all
          qed (use run that(3) in simp)
        qed
      qed (use run that(3) in simp)
    qed
  qed (use run that(3) in simp)
qed

text \<open>
  Rounds that depend on the surroundings: the system takes a datagram, or the transport answers an offer with
  a packet of no bytes.
\<close>

definition sends_datagram :: "('n, 's, 'o, 'd, 'u) platform \<Rightarrow> ('n, 's, 'o, 'd, 'u) endpoint_client \<Rightarrow> bool" where
  "sends_datagram P a \<longleftrightarrow> (\<exists>u. udp_send (pf_system P) (ec_socket a) = (Ok (), u))"

definition writes_nothing :: "('n, 's, 'o, 'd, 'u) platform \<Rightarrow> ('n, 's, 'o, 'd, 'u) endpoint_client \<Rightarrow> bool" where
  "writes_nothing P a \<longleftrightarrow> (\<exists>u q. udp_send (pf_system P) (ec_socket a) = (Err (app_code App_idle), u) \<and>
     quic_send (pf_libraries P) (ec_quic a) = (Ok [], q))"

lemma send_once_unsent:
  assumes "send_once P a = (Ok x, a')"
  shows "client_unsent (ec_http3 a') \<le> client_unsent (ec_http3 a)"
  using assms by (cases rule: send_onceE) (auto dest: client_send_unsent)

lemma waiting_round:
  assumes "send_once P a = (Ok x, a')" and "\<not> buffers_empty (udp_send_buffer (ec_socket a))"
  shows "sends_datagram P a"
  using assms by (cases rule: send_onceE) (auto simp: sends_datagram_def simp del: buffers_empty_eq dest: udp_send_failed)

text \<open>Any other round takes something from the HTTP/3 client, or leaves a packet that waits for the socket.\<close>

lemma other_round:
  assumes "send_once P a = (Ok x, a')" and "\<not> sends_datagram P a" and "\<not> writes_nothing P a"
  shows "client_unsent (ec_http3 a') < client_unsent (ec_http3 a) \<or> \<not> buffers_empty (udp_send_buffer (ec_socket a'))"
  using assms(1)
proof (cases rule: send_onceE)
  case (packet u packet q)
  then have "packet \<noteq> []" using assms(3) by (auto simp: writes_nothing_def)
  then show ?thesis using packet(4) by (simp add: udp_add_def buffers_push_def)
qed (use assms(2) client_send_unsent in \<open>auto simp: sends_datagram_def\<close>)

text \<open>A run of the loop that goes on for ever.\<close>

definition endless ::
  "('n, 's, 'o, 'd, 'u) platform \<Rightarrow> (nat \<Rightarrow> ('n, 's, 'o, 'd, 'u) endpoint_client) \<Rightarrow> bool" where
  "endless P run \<longleftrightarrow> (\<forall>i. send_once P (run i) = (Ok (), run (Suc i)))"

lemma endless_unsent: "endless P run \<Longrightarrow> client_unsent (ec_http3 (run i)) \<le> client_unsent (ec_http3 (run 0))"
proof (induction i)
  case (Suc i)
  then have "send_once P (run i) = (Ok (), run (Suc i))" by (simp add: endless_def)
  then show ?case using send_once_unsent Suc by (metis order.trans)
qed simp

lemma endless_soon:
  assumes run: "endless P run"
  shows "\<exists>j. i \<le> j \<and> j \<le> Suc (i + client_unsent (ec_http3 (run i))) \<and> (sends_datagram P (run j) \<or> writes_nothing P (run j))"
proof (induction "client_unsent (ec_http3 (run i))" arbitrary: i rule: less_induct)
  case less
  have once: "send_once P (run i) = (Ok (), run (Suc i))" for i using run by (simp add: endless_def)
  show ?case
  proof (cases "sends_datagram P (run i) \<or> writes_nothing P (run i)")
    case True
    then show ?thesis by (intro exI [of _ i]) simp
  next
    case False
    then consider (unsent) "client_unsent (ec_http3 (run (Suc i))) < client_unsent (ec_http3 (run i))"
      | (waits) "\<not> buffers_empty (udp_send_buffer (ec_socket (run (Suc i))))"
      using other_round [OF once] by blast
    then show ?thesis
    proof cases
      case unsent
      then obtain j where "Suc i \<le> j" "j \<le> Suc (Suc i + client_unsent (ec_http3 (run (Suc i))))"
          "sends_datagram P (run j) \<or> writes_nothing P (run j)"
        using less by blast
      then show ?thesis using unsent by (intro exI [of _ j]) simp
    next
      case waits
      then show ?thesis using waiting_round [OF once] by (intro exI [of _ "Suc i"]) simp
    qed
  qed
qed

lemma send_loop_on: "send_once P a = (Ok x, a') \<Longrightarrow> send_loop P a = send_loop P a'"
  by (subst send_loop.simps) simp

lemma send_loop_endless:
  assumes "send_loop P a = None"
  shows "\<exists>run. run 0 = a \<and> endless P run"
proof -
  define run where "run = rec_nat a (\<lambda>_ b. snd (send_once P b))"
  have step: "send_once P b = (Ok (), snd (send_once P b)) \<and> send_loop P (snd (send_once P b)) = None"
    if "send_loop P b = None" for b
  proof -
    obtain r b' where once: "send_once P b = (r, b')" by fastforce
    then have r: "r = Ok ()" using that by (cases r) (simp_all add: send_loop.simps [of P b])
    show ?thesis using that once send_loop_on [OF once [unfolded r]] r by simp
  qed
  have "send_loop P (run i) = None" for i
    by (induction i) (use assms step in \<open>auto simp: run_def\<close>)
  then have "endless P run" using step by (simp add: endless_def run_def)
  then show ?thesis by (intro exI [of _ run]) (simp add: run_def)
qed

lemma send_loop_error: "send_loop P a = Some (Some ec, a') \<Longrightarrow> \<exists>a0. send_once P a0 = (Err ec, a')"
proof -
  have "fst r = Some ec \<longrightarrow> (\<exists>a0. send_once P a0 = (Err ec, snd r))" if "send_loop P a = Some r" for r
  proof -
    have "fst r = Some ec \<longrightarrow> (\<exists>a0. send_once (fst (P, a)) a0 = (Err ec, snd r))"
    proof (rule send_loop.raw_induct [of "\<lambda>x r. fst r = Some ec \<longrightarrow> (\<exists>a0. send_once (fst x) a0 = (Err ec, snd r))", OF _ that])
      fix loop Q b r
      assume IH: "\<And>Q b r. loop Q b = Some r \<Longrightarrow> fst r = Some ec \<longrightarrow> (\<exists>a0. send_once (fst (Q, b)) a0 = (Err ec, snd r))"
        and run: "(case send_once Q b of (Ok _, a) \<Rightarrow> loop Q a | (Err ec, a) \<Rightarrow> Some (Some ec, a)
          | (Fault, a) \<Rightarrow> Some (None, a)) = Some r"
      obtain x b' where once: "send_once Q b = (x, b')" by fastforce
      show "fst r = Some ec \<longrightarrow> (\<exists>a0. send_once (fst (Q, b)) a0 = (Err ec, snd r))"
        using IH [of Q b' r] run once by (cases x) auto
    qed
    then show ?thesis by simp
  qed
  then show "send_loop P a = Some (Some ec, a') \<Longrightarrow> \<exists>a0. send_once P a0 = (Err ec, a')" by fastforce
qed

text \<open>
  Surroundings in which there is no such run, to try the loop on: they say in advance how often they take a
  datagram, and always have something to write. Neither the system nor ngtcp2 promises this.
\<close>

lemma finite_surroundings:
  assumes "takes_finitely room (pf_system P)" and "writes_something (ngtcp2_lib (pf_libraries P))"
  shows "\<not> endless P run"
proof
  assume run: "endless P run"
  let ?room = "\<lambda>i. room (udp_os (ec_socket (run i)))"
  have once: "send_once P (run i) = (Ok (), run (Suc i))" for i using run by (simp add: endless_def)
  have takes: "sends_datagram P (run i) \<Longrightarrow> ?room (Suc i) < ?room i" for i
    using once [of i] by (cases rule: send_onceE) (auto simp: sends_datagram_def dest: udp_send_room [OF assms(1)])
  have keeps: "\<not> sends_datagram P (run i) \<Longrightarrow> ?room (Suc i) \<le> ?room i" for i
    using once [of i] by (cases rule: send_onceE) (auto simp: sends_datagram_def udp_add_def dest: udp_send_failed)
  have down: "?room (Suc i) \<le> ?room i" for i using takes [of i] keeps [of i] by (cases "sends_datagram P (run i)") simp_all
  have "i \<le> j \<Longrightarrow> ?room j \<le> ?room i" for i j by (rule lift_Suc_antimono_le [of ?room]) (use down in auto)
  then have "\<exists>j. ?room j < ?room i" for i
    using endless_soon [OF run, of i] takes quic_send_some [OF assms(2)]
    by (metis (no_types, lifting) order.strict_trans2 writes_nothing_def)
  then have False if "?room i = m" for m i
    using that by (induction m arbitrary: i rule: less_induct) metis
  then show False by blast
qed

lemma send_once_failed:
  assumes "send_once P a = (Err ec, a')" "would_block (pf_system P) ec \<or> ec = app_code App_idle"
  shows "(\<exists>bs os. sys_send (pf_system P) (udp_socket (ec_socket a')) bs os = (- 1, sys_eagain (pf_system P), udp_os (ec_socket a'))) \<or>
    buffers_empty (udp_send_buffer (ec_socket a')) \<and>
    (\<exists>q. quic_send (pf_libraries P) q = (Err Q_idle, ec_quic a')) \<and>
    (\<exists>c. client_send (pf_junk P) c = (Err Idle, ec_http3 a'))"
  using assms(1)
proof (cases rule: send_onceE)
  case (failed ec' u)
  then show ?thesis using assms(2) udp_send_failed [OF failed(1)] by (auto simp: would_block_def system_code_def)
next
  case (quic e)
  then show ?thesis using assms(2) by (simp add: would_block_def)
next
  case (http3 e)
  then show ?thesis using assms(2) by (simp add: would_block_def)
next
  case (event u ev c q')
  then show ?thesis using assms(2) by (auto simp: would_block_def)
next
  case (idle u q c)
  then show ?thesis using udp_send_failed [OF idle(1)] by auto
qed simp_all

lemma update_timer_keeps:
  "update_timer P t after a = (Ok (), a') \<Longrightarrow>
   ec_quic a' = ticked (ec_quic a) \<and> ec_socket a' = ec_socket a \<and> ec_http3 a' = ec_http3 a"
  by (auto simp: update_timer_def read_clock_def ticked_def try_in_def or_fault_def Let_def split: option.splits)

lemma send_ends_well:
  assumes "send_once P a0 = (Err ec, a1)" and "send_loop P a = Some (Some ec, a1)"
  shows "\<exists>r a'. endpoint_send P a = Some (r, a') \<and>
    (r = Ok () \<longrightarrow>
      (\<exists>bs os. sys_send (pf_system P) (udp_socket (ec_socket a')) bs os =
         (- 1, sys_eagain (pf_system P), udp_os (ec_socket a'))) \<or>
      buffers_empty (udp_send_buffer (ec_socket a')) \<and>
      (\<exists>q q'. quic_send (pf_libraries P) q = (Err Q_idle, q') \<and> ec_quic a' = ticked (ticked q')) \<and>
      (\<exists>c. client_send (pf_junk P) c = (Err Idle, ec_http3 a')))"
proof -
  obtain x a2 where x: "update_timer P Retransmit_timer (quic_expiry (pf_libraries P)) a1 = (x, a2)" by fastforce
  obtain y a3 where y: "update_timer P Timeout_timer (quic_timeout (pf_libraries P)) a2 = (y, a3)" by fastforce
  show ?thesis
  proof (cases "x = Ok () \<and> y = Ok ()")
    case True
    then have "ec_quic a3 = ticked (ticked (ec_quic a1)) \<and> ec_socket a3 = ec_socket a1 \<and> ec_http3 a3 = ec_http3 a1"
      using update_timer_keeps [of P _ _ a1 a2] update_timer_keeps [of P _ _ a2 a3] x y by simp
    then show ?thesis using assms x y True send_once_failed [of P a0 ec a1] by (auto simp: endpoint_send_def)
  next
    case False
    then show ?thesis using assms(2) x y by (cases x; cases y) (auto simp: endpoint_send_def)
  qed
qed

section \<open>A loop that does not end\<close>

text \<open>A step that always succeeds and leads back to where it started from keeps the loop going.\<close>

lemma send_loop_stuck:
  assumes "\<And>a. S a \<Longrightarrow> \<exists>a'. send_once P a = (Ok (), a') \<and> S a'" and "S a"
  shows "send_loop P a = None"
proof -
  have "fst (Q, b) = P \<longrightarrow> \<not> S (snd (Q, b))" if "send_loop Q b = Some r" for Q b r
  proof (rule send_loop.raw_induct [of "\<lambda>x r. fst x = P \<longrightarrow> \<not> S (snd x)", OF _ that])
    fix loop Q b r
    assume IH: "\<And>Q b r. loop Q b = Some r \<Longrightarrow> fst (Q, b) = P \<longrightarrow> \<not> S (snd (Q, b))"
      and run: "(case send_once Q b of (Ok _, a) \<Rightarrow> loop Q a | (Err ec, a) \<Rightarrow> Some (Some ec, a)
        | (Fault, a) \<Rightarrow> Some (None, a)) = Some r"
    have "Q = P \<longrightarrow> \<not> S b"
    proof (intro impI notI)
      assume "Q = P" "S b"
      then obtain b' where "send_once Q b = (Ok (), b')" "S b'" using assms(1) by blast
      then show False using IH run \<open>Q = P\<close> by simp
    qed
    then show "fst (Q, b) = P \<longrightarrow> \<not> S (snd (Q, b))" by simp
  qed
  then show ?thesis using assms(2) by (cases "send_loop P a") auto
qed

text \<open>A transport that may not send: both of its functions write nothing.\<close>

definition congested :: "('n, 's) libraries \<Rightarrow> bool" where
  "congested L \<longleftrightarrow>
     (\<forall>path storage ts n. ng_write_pkt (ngtcp2_lib L) path storage ts n = Return n (0, storage)) \<and>
     (\<forall>storage i fin data ts n. ng_write_stream (ngtcp2_lib L) storage i fin data ts n = Return n (0, storage, - 1)) \<and>
     (\<forall>s. sl_do_handshake (ssl_lib L) s = Return s 1) \<and> (\<forall>n. ng_get_handshake_completed (ngtcp2_lib L) n \<noteq> 0) \<and>
     ng_err_stream_data_blocked (ngtcp2_lib L) < 0"

definition one_stream :: "uint64 \<Rightarrow> ('n, 's, 'o, 'd, 'u) endpoint_client \<Rightarrow> bool" where
  "one_stream i a \<longleftrightarrow> buffers_empty (udp_send_buffer (ec_socket a)) \<and>
     (\<exists>s. qc_streams (ec_quic a) = [(i, s)] \<and> qs_opened s \<and> \<not> buffers_empty (qs_buffers s))"

lemma congested_quic_send:
  assumes c: "congested L" and s: "qc_streams q = [(i, s)]" "qs_opened s" "\<not> buffers_empty (qs_buffers s)"
  shows "\<exists>q' s'. quic_send L q = (Ok [], q') \<and> qc_streams q' = [(i, s')] \<and> qs_opened s' \<and> \<not> buffers_empty (qs_buffers s')"
proof -
  have tls: "on_tls (handshake_send L) q = (Ok (), q)"
    using c by (simp add: congested_def on_tls_def handshake_send_def run_ssl_def)
  have "ng_write_pkt (ngtcp2_lib L) path storage ts n = Return n (0, storage)" for path storage ts n
    using c by (simp only: congested_def)
  then have pkt: "quic_write_pkt L q = (Err Q_idle, ticked q)"
    by (simp add: quic_write_pkt_def with_clock_def read_clock_def ticked_def run_ngtcp2_def
        put_conn_def get_conn_def written_pkt_def Let_def)
  have completed: "handshake_completed L t" for t
    using c by (simp add: congested_def handshake_completed_def get_handshake_completed_def)
  have stream: "quic_write_stream L j data fin q' = (Ok ([], 0), ticked q')" for j data fin q'
    using c by (auto simp: congested_def quic_write_stream_def with_clock_def read_clock_def ticked_def run_ngtcp2_def
        put_conn_def get_conn_def written_stream_def packet_of_def Let_def)
  obtain b bs where bs: "qs_buffers s = b # bs" using s(3) by (cases "qs_buffers s") auto
  obtain bs' where bs': "buffers_slice (qs_buffers s) 0 = Some ([], bs')" "concat bs' = concat (qs_buffers s)"
    using s(3) buffers_slice_Ok [of 0 "qs_buffers s"] by auto
  let ?s = "s\<lparr>qs_buffers := bs', qs_keepalive := buffers_push (qs_keepalive s) []\<rparr>"
  have "quic_stream_take 0 s = (Ok (), ?s)" using bs' by (simp add: quic_stream_take_def)
  then have "quic_send_stream L i (ticked q) = (Ok [], (ticked (ticked q))\<lparr>qc_streams := [(i, ?s)]\<rparr>)"
    using s bs by (simp add: quic_send_stream_def quic_stream_send_def quic_stream_open_def stream ticked_def map_find_def
        map_update_def buffers_front_def buffers_back_def Let_def)
  then have "quic_send L q = (Ok [], (ticked (ticked q))\<lparr>qc_streams := [(i, ?s)]\<rparr>)"
    using tls pkt completed s(1) by (simp add: quic_send_def map_keys_def map_find_def ticked_def)
  moreover have "\<not> buffers_empty bs'" using s(3) bs'(2) by (simp del: concat_eq_Nil_conv)
  ultimately show ?thesis using s(2) by simp
qed

lemma congested_send_once:
  assumes "congested (pf_libraries P)" and "one_stream i a"
  shows "\<exists>a'. send_once P a = (Ok (), a') \<and> one_stream i a'"
proof -
  obtain s where s: "qc_streams (ec_quic a) = [(i, s)]" "qs_opened s" "\<not> buffers_empty (qs_buffers s)"
      "buffers_empty (udp_send_buffer (ec_socket a))"
    using assms(2) by (auto simp: one_stream_def)
  obtain q' s' where q': "quic_send (pf_libraries P) (ec_quic a) = (Ok [], q')" "qc_streams q' = [(i, s')]" "qs_opened s'"
      "\<not> buffers_empty (qs_buffers s')"
    using congested_quic_send [OF assms(1) s(1-3)] by blast
  have "udp_send (pf_system P) (ec_socket a) = (Err (app_code App_idle), ec_socket a)" using s(4) by (simp add: udp_send_def)
  then have "send_once P a = (Ok (), a\<lparr>ec_quic := q', ec_socket := udp_add [] (ec_socket a)\<rparr>)"
    using q'(1) by (simp add: send_once_def on_socket_def on_quic_def)
  then show ?thesis using s(4) q'(2-4) by (auto simp: one_stream_def udp_add_def buffers_push_def buffers_empty_eq)
qed

section \<open>The event loop and its exit code\<close>

text \<open>
  What libsystemd documents: after \<open>sd_event_exit\<close> no more handlers run (the program adds no exit sources), and
  \<open>sd_event_loop\<close> returns the code that was given. \<open>code\<close> reads from the state of the library the code it
  was told to exit with, if it was.
\<close>

primrec obeys_exit :: "('d \<Rightarrow> int option) \<Rightarrow> ('d, 'c, 'r, int) script \<Rightarrow> bool" where
  "obeys_exit code (Return d rv) \<longleftrightarrow> (\<forall>c. code d = Some c \<longrightarrow> rv = c)"
| "obeys_exit code (Call d callback k) \<longleftrightarrow>
     (\<forall>x. case code (snd x) of None \<Rightarrow> obeys_exit code (k x) | Some c \<Rightarrow> \<exists>d. k x = Return d c)"

definition keeps_exit_code :: "('d \<Rightarrow> int option) \<Rightarrow> 'd sd_lib \<Rightarrow> bool" where
  "keeps_exit_code code D \<longleftrightarrow>
     (\<forall>c d rv d'. sd_exit D c d = (rv, d') \<longrightarrow> 0 \<le> rv \<longrightarrow> code d' = Some (sint c)) \<and>
     (\<forall>d. code d = None \<longrightarrow> obeys_exit code (sd_loop D d))"

text \<open>How far the loop has come: the part that is left, and the program after the handlers so far.\<close>

inductive runs_to ::
  "('n, 's, 'o, 'd, 'u) platform \<Rightarrow> ('d, sd_callback, int, int) script \<Rightarrow> ('n, 's, 'o, 'd, 'u) endpoint_client \<Rightarrow>
   ('d, sd_callback, int, int) script \<Rightarrow> ('n, 's, 'o, 'd, 'u) endpoint_client \<Rightarrow> bool"
  for P where
  here: "runs_to P script a script a"
| handled: "handle_sd P callback (put_event d a) = Some (Ok r, a') \<Longrightarrow>
    runs_to P (k (r, get_event a')) a' script b \<Longrightarrow> runs_to P (Call d callback k) a script b"

lemma obeys_exit_Call:
  "obeys_exit code (Call d callback k) \<Longrightarrow>
   (case code d' of None \<Rightarrow> obeys_exit code (k (r, d')) | Some c \<Rightarrow> \<exists>d. k (r, d') = Return d c)"
  by simp

inductive_cases runs_to_ReturnE: "runs_to P (Return d rv) a script b"

lemma runs_to_run:
  "runs_to P script a script' b \<Longrightarrow>
   run_script_may put_event get_event (handle_sd P) script a = run_script_may put_event get_event (handle_sd P) script' b"
  by (induction rule: runs_to.induct) (simp_all add: then_may_def)

lemma runs_to_obeys:
  "runs_to P script a (Call d callback k) b \<Longrightarrow> obeys_exit code script \<Longrightarrow> obeys_exit code (Call d callback k)"
proof (induction script a "Call d callback k" b rule: runs_to.induct)
  case (handled callback' d' a r a' k' b)
  show ?case
    using obeys_exit_Call [OF handled.prems, of r "get_event a'"] handled.hyps(2,3)
    by (cases "code (get_event a')") (auto elim: runs_to_ReturnE)
qed simp

section \<open>A platform to try it on\<close>

text \<open>The state of the system is the number of datagrams it still takes; nothing can be received.\<close>

definition sample_system :: "nat system" where
  "sample_system =
     \<lparr> sys_eagain = 11, sys_enobufs = 105, sys_eai_system = - 11, sys_epollin = 0x1, sys_epollout = 0x4,
       sys_epollerr = 0x8, sys_epollhup = 0x10, sys_epollrdhup = 0x2000,
       sys_socket = (\<lambda>sa os. (3, 0, os)), sys_connect = (\<lambda>fd sa os. (0, 0, os)), sys_reuseaddr = (\<lambda>fd os. (0, 0, os)),
       sys_close = (\<lambda>fd os. os), sys_getsockname = (\<lambda>fd os. (0, 0, Sockaddr_in [127, 0, 0, 1] 1)),
       sys_getpeername = (\<lambda>fd os. (0, 0, Sockaddr_in [127, 0, 0, 1] 2)), sys_so_error = (\<lambda>fd os. (0, 0, os)),
       sys_send = (\<lambda>fd bs os. if os = 0 then (- 1, 11, os) else (int (length bs), 0, os - 1)),
       sys_fionread = (\<lambda>fd os. (0, 0, 0)), sys_recv = (\<lambda>fd n os. (- 1, 11, [], os)),
       sys_getaddrinfo = (\<lambda>name. (0, 0, [Sockaddr_in [127, 0, 0, 1] 0])), sys_inet_pton4 = (\<lambda>s. (1, 0, [127, 0, 0, 1])),
       sys_inet_pton6 = (\<lambda>s. (0, 0, [])) \<rparr>"

text \<open>
  An event loop whose state is the code it was told to exit with: it sees the socket, then the timeout, and
  returns the code.
\<close>

definition sample_sd_loop :: "int option \<Rightarrow> (int option, sd_callback, int, int) script" where
  "sample_sd_loop d = Call d (Sd_io 0) (\<lambda>(rv, d). case d of Some c \<Rightarrow> Return d c
     | None \<Rightarrow> Call d (Sd_timeout 5) (\<lambda>(rv, d). Return d (case d of None \<Rightarrow> 0 | Some c \<Rightarrow> c)))"

definition sample_sd :: "int option sd_lib" where
  "sample_sd =
     \<lparr> sd_add_io = (\<lambda>fd d. (0, d)), sd_add_time = (\<lambda>t d. (0, d)), sd_sigemptyset = (0, 0), sd_sigaddset = (\<lambda>s. (0, 0)),
       sd_sigprocmask = (\<lambda>s d. (0, 0, d)), sd_add_signal = (\<lambda>s d. (0, d)), sd_set_time = (\<lambda>t u d. (0, d)),
       sd_enable_oneshot = (\<lambda>t d. (0, d)), sd_exit = (\<lambda>code d. (0, Some (sint code))), sd_loop = sample_sd_loop \<rparr>"

lemma sample_exit: "sd_exit sample_sd c d = (0, Some (sint c))" "sd_loop sample_sd = sample_sd_loop"
  by (simp_all add: sample_sd_def)

lemma sample_keeps_exit_code: "keeps_exit_code id sample_sd"
  by (auto simp: keeps_exit_code_def sample_sd_def sample_sd_loop_def split: option.split)

definition sample_platform :: "(unit, unit, nat, int option, header list \<times> bytes) platform" where
  "sample_platform =
     \<lparr> pf_libraries = sample_libraries, pf_system = sample_system, pf_sd = sample_sd, pf_junk = (\<lambda>_. 0),
       pf_handler = run_handler \<rparr>"

definition sample_endpoint :: "('n, 's) quic_client \<Rightarrow> ('n, 's, nat, int option, header list \<times> bytes) endpoint_client" where
  "sample_endpoint q =
     \<lparr> ec_socket = \<lparr> udp_send_buffer = [], udp_socket = 3, udp_os = 2 \<rparr>, ec_loop = new_event_loop None, ec_quic = q,
       ec_http3 = new_client, ec_user = ([], []) \<rparr>"

lemma sample_sd: "pf_sd sample_platform = sample_sd"
  by (simp add: sample_platform_def)

lemma sample_start: "get_event (sample_endpoint q) = None"
  by (simp add: get_event_def sample_endpoint_def new_event_loop_def)

lemma sample_system_finite: "takes_finitely (\<lambda>n. n) sample_system"
  by (simp add: takes_finitely_def sample_system_def)

lemma sample_writes_something: "writes_something sample_ngtcp2"
  by (simp add: writes_something_def sample_ngtcp2_def)

text \<open>The same with a transport that is congested.\<close>

definition congested_libraries :: "(unit, unit) libraries" where
  "congested_libraries = sample_libraries
     \<lparr>ngtcp2_lib := sample_ngtcp2\<lparr>ng_write_stream := (\<lambda>storage i fin data ts c. Return c (0, storage, - 1))\<rparr>\<rparr>"

lemma congested_libraries_are: "congested congested_libraries"
  by (simp add: congested_def congested_libraries_def sample_libraries_def sample_ngtcp2_def sample_ssl_def)

section \<open>Properties\<close>

text \<open>
  C17. How sending ends, for any system and any transport. Either the loop over socket, QUIC client and
  HTTP/3 client returns, and without an error only when the socket would block or nothing is left to do in any of
  the three; or it runs for ever, and then the surroundings keep it going: however long it has run, within
  \<open>client_unsent\<close> and two more rounds the system takes a datagram or the transport answers an offer with nothing.
\<close>

theorem endpoint_send_ends:
  "(\<exists>r a'. endpoint_send P a = Some (r, a') \<and>
    (r = Ok () \<longrightarrow>
      (\<exists>bs os. sys_send (pf_system P) (udp_socket (ec_socket a')) bs os =
         (- 1, sys_eagain (pf_system P), udp_os (ec_socket a'))) \<or>
      buffers_empty (udp_send_buffer (ec_socket a')) \<and>
      (\<exists>q q'. quic_send (pf_libraries P) q = (Err Q_idle, q') \<and> ec_quic a' = ticked (ticked q')) \<and>
      (\<exists>c. client_send (pf_junk P) c = (Err Idle, ec_http3 a')))) \<or>
   endpoint_send P a = None \<and>
     (\<exists>run. run 0 = a \<and> (\<forall>i. send_once P (run i) = (Ok (), run (Suc i))) \<and>
       (\<forall>i. \<exists>j. i \<le> j \<and> j \<le> Suc (i + client_unsent (ec_http3 a)) \<and>
          (sends_datagram P (run j) \<or> writes_nothing P (run j))))"
proof (cases "send_loop P a")
  case None
  then obtain run where run: "run 0 = a" "endless P run" using send_loop_endless by blast
  have "\<exists>j. i \<le> j \<and> j \<le> Suc (i + client_unsent (ec_http3 a)) \<and> (sends_datagram P (run j) \<or> writes_nothing P (run j))" for i
    using endless_soon [OF run(2), of i] endless_unsent [OF run(2), of i] run(1) by fastforce
  then show ?thesis using None run by (auto simp: endpoint_send_def endless_def)
next
  case (Some ra)
  obtain r a1 where r: "send_loop P a = Some (r, a1)" using Some by (cases ra) simp
  show ?thesis
  proof (cases r)
    case None
    then show ?thesis using r by (simp add: endpoint_send_def)
  next
    case (Some ec)
    obtain a0 where "send_once P a0 = (Err ec, a1)" using send_loop_error r Some by blast
    then show ?thesis using r Some send_ends_well [of P a0 ec a1 a] by simp
  qed
qed

theorem endpoint_send_ends_witness:
  "\<forall>a. \<exists>r a'. endpoint_send sample_platform a = Some (r, a') \<and>
    (r = Ok () \<longrightarrow>
      (\<exists>bs os. sys_send sample_system (udp_socket (ec_socket a')) bs os =
         (- 1, sys_eagain sample_system, udp_os (ec_socket a'))) \<or>
      buffers_empty (udp_send_buffer (ec_socket a')) \<and>
      (\<exists>q q'. quic_send sample_libraries q = (Err Q_idle, q') \<and> ec_quic a' = ticked (ticked q')) \<and>
      (\<exists>c. client_send (\<lambda>_. 0) c = (Err Idle, ec_http3 a')))"
proof
  fix a
  have P: "pf_system sample_platform = sample_system" "pf_libraries sample_platform = sample_libraries"
      "pf_junk sample_platform = (\<lambda>_. 0)" "ngtcp2_lib sample_libraries = sample_ngtcp2"
    by (simp_all add: sample_platform_def sample_libraries_def)
  have "\<not> endless sample_platform run" for run
    using finite_surroundings [of "\<lambda>n. n" sample_platform run] sample_system_finite sample_writes_something P by simp
  then show "\<exists>r a'. endpoint_send sample_platform a = Some (r, a') \<and>
    (r = Ok () \<longrightarrow>
      (\<exists>bs os. sys_send sample_system (udp_socket (ec_socket a')) bs os =
         (- 1, sys_eagain sample_system, udp_os (ec_socket a'))) \<or>
      buffers_empty (udp_send_buffer (ec_socket a')) \<and>
      (\<exists>q q'. quic_send sample_libraries q = (Err Q_idle, q') \<and> ec_quic a' = ticked (ticked q')) \<and>
      (\<exists>c. client_send (\<lambda>_. 0) c = (Err Idle, ec_http3 a')))"
    using endpoint_send_ends [of sample_platform a] unfolding P endless_def by blast
qed

text \<open>
  C35. Sending does not end while the transport may not send: a connected client with data on a stream asks it
  for a packet again and again, because a packet of no bytes counts as progress.
\<close>

theorem congested_send_hangs:
  assumes "congested (pf_libraries P)" and "buffers_empty (udp_send_buffer (ec_socket a))"
    and "qc_streams (ec_quic a) = [(i, s)]" and "qs_opened s" and "\<not> buffers_empty (qs_buffers s)"
  shows "endpoint_send P a = None"
proof -
  have "one_stream i a" using assms(2-5) by (simp add: one_stream_def)
  then have "send_loop P a = None" using send_loop_stuck [of "one_stream i" P a] congested_send_once [OF assms(1)] by blast
  then show ?thesis by (simp add: endpoint_send_def)
qed

theorem congested_send_hangs_witness:
  "\<exists>q. sample_quic = Some q \<and>
    endpoint_send (sample_platform\<lparr>pf_libraries := congested_libraries\<rparr>)
      (sample_endpoint (q\<lparr>qc_streams := [(0, (new_quic_stream 0)\<lparr>qs_opened := True, qs_buffers := [[7]]\<rparr>)]\<rparr>)) = None"
proof -
  obtain q where q: "sample_quic = Some q" using sample_quic_ready by blast
  let ?s = "(new_quic_stream 0)\<lparr>qs_opened := True, qs_buffers := [[7]]\<rparr>"
  have "endpoint_send (sample_platform\<lparr>pf_libraries := congested_libraries\<rparr>)
      (sample_endpoint (q\<lparr>qc_streams := [(0, ?s)]\<rparr>)) = None"
    by (rule congested_send_hangs [of _ _ 0 ?s])
      (simp_all add: congested_libraries_are sample_platform_def sample_endpoint_def)
  then show ?thesis using q by blast
qed

text \<open>
  C36. A timeout goes unnoticed: whenever the event loop, after any handlers, runs the handler of the timeout and
  lets it request an exit, \<open>run\<close> returns as if all had gone well. The loop is any loop that ends with the code
  that was given to \<open>sd_event_exit\<close>, which is the value of the error; and that value is zero.
\<close>

theorem timeout_unnoticed:
  assumes "keeps_exit_code code (pf_sd P)" and "code (get_event a) = None"
    and "runs_to P (sd_loop (pf_sd P) (get_event a)) a (Call d (Sd_timeout usec) k) b"
    and "sd_exit (pf_sd P) 0 d = (rv, d')" and "0 \<le> rv"
  shows "\<exists>a'. endpoint_run P a = Some (Ok (), a') \<and> el_error (ec_loop a') = app_code App_timeout \<and>
    ec_user a' = ec_user b"
proof -
  let ?b = "put_event d b\<lparr>ec_loop := \<lparr> el_event = d', el_error = app_code App_timeout \<rparr>\<rparr>"
  have handled: "handle_sd P (Sd_timeout usec) (put_event d b) = Some (Ok 0, ?b)"
    using assms(4,5) by (simp add: endpoint_timeout_def on_loop_def loop_exit_with_def sd_call_def sd_code_def
        put_event_def app_code_def)
  have "code d' = Some 0" using assms(1,4,5) by (auto simp: keeps_exit_code_def)
  moreover have "obeys_exit code (Call d (Sd_timeout usec) k)"
    using runs_to_obeys [OF assms(3)] assms(1,2) by (auto simp: keeps_exit_code_def)
  ultimately obtain d'' where "k (0, d') = Return d'' 0" using obeys_exit_Call [of code d _ k 0 d'] by auto
  then have "run_script_may put_event get_event (handle_sd P) (Call d (Sd_timeout usec) k) b = Some (Ok 0, put_event d'' ?b)"
    using handled by (simp add: then_may_def get_event_def)
  then have "endpoint_run P a = Some (loop_result 0 (ec_loop (put_event d'' ?b)), put_event d'' ?b)"
    using runs_to_run [OF assms(3)] by (simp add: endpoint_run_def then_may_def)
  then show ?thesis by (simp add: loop_result_def is_error_def app_code_def put_event_def)
qed

theorem timeout_unnoticed_witness:
  "\<exists>q a'. sample_quic = Some q \<and> endpoint_run sample_platform (sample_endpoint q) = Some (Ok (), a') \<and>
    el_error (ec_loop a') = app_code App_timeout"
proof -
  obtain q where q: "sample_quic = Some q" using sample_quic_ready by blast
  let ?a = "sample_endpoint q"
  have "runs_to sample_platform (sd_loop (pf_sd sample_platform) (get_event ?a)) ?a
      (Call None (Sd_timeout 5) (\<lambda>(rv, d). Return d (case d of None \<Rightarrow> 0 | Some c \<Rightarrow> c))) (put_event None ?a)"
    unfolding sample_sd sample_exit sample_start sample_sd_loop_def
    by (rule runs_to.handled [where r = 0 and a' = "put_event None ?a"])
      (simp_all add: runs_to.here endpoint_io_def then_may_def sd_code_def Let_def get_event_def put_event_def)
  then have "\<exists>a'. endpoint_run sample_platform ?a = Some (Ok (), a') \<and> el_error (ec_loop a') = app_code App_timeout \<and>
      ec_user a' = ec_user (put_event None ?a)"
    by (rule timeout_unnoticed [where code = id and rv = 0 and d' = "Some 0", rotated 2])
      (simp_all add: sample_sd sample_start sample_exit sample_keeps_exit_code)
  then show ?thesis using q by blast
qed

end
