(* ===== verification/Endpoint_Response.thy ===== *)
theory Endpoint_Response
  imports Endpoint_Run
begin

text \<open>
  A response on its way through the command line client: from the packet that carries it, through the QUIC
  client, the HTTP/3 client and its generator, to the headers and the body that the program prints.
\<close>

section \<open>What the handler collects\<close>

definition collect :: "event list \<Rightarrow> header list \<times> bytes \<Rightarrow> header list \<times> bytes" where
  "collect evs u = fold (\<lambda>ev u. snd (run_handler ev u)) evs u"

lemma collect_simps [simp]:
  "collect [] u = u" "collect (ev # evs) u = collect evs (snd (run_handler ev u))"
  "collect (evs @ evs') u = collect evs' (collect evs u)"
  by (simp_all add: collect_def)

lemma run_handler_continues: "event_type_of ev \<noteq> Finished_event \<Longrightarrow> run_handler ev u = (Ok (), snd (run_handler ev u))"
  by (cases ev; cases u) simp_all

lemma run_handler_ends: "event_type_of ev = Finished_event \<Longrightarrow> run_handler ev u = (Err (app_code App_finished), u)"
  by (cases ev; cases u) simp_all

lemma collect_message: "message i hs content evs \<Longrightarrow> collect evs (H, B) = (H @ hs, B @ content)"
  by (induction arbitrary: H B rule: message.induct) simp_all

definition goes_on :: "event list \<Rightarrow> bool" where
  "goes_on evs \<longleftrightarrow> list_all (\<lambda>ev. event_type_of ev \<noteq> Finished_event) evs"

lemma goes_on_simps [simp]:
  "goes_on []" "goes_on (ev # evs) \<longleftrightarrow> event_type_of ev \<noteq> Finished_event \<and> goes_on evs"
  "goes_on (xs @ ys) \<longleftrightarrow> goes_on xs \<and> goes_on ys"
  by (simp_all add: goes_on_def)

lemma message_ends: "message i hs content evs \<Longrightarrow> \<exists>xs. evs = xs @ [Ev_finished i] \<and> goes_on xs"
proof (induction rule: message.induct)
  case finished
  show ?case by (intro exI [of _ "[]"]) simp
next
  case (header hs content evs h)
  then obtain xs where "evs = xs @ [Ev_finished i]" "goes_on xs" by blast
  then show ?case by (intro exI [of _ "Ev_header i (hs = []) h # xs"]) simp
next
  case (body content evs part)
  then obtain xs where "evs = xs @ [Ev_finished i]" "goes_on xs" by blast
  then show ?case by (intro exI [of _ "Ev_body (make_data i (content = []) part) # xs"]) simp
qed

section \<open>A client with one request\<close>

definition answering :: "client \<Rightarrow> uint64 \<Rightarrow> request_receiver \<Rightarrow> client" where
  "answering c i r = c\<lparr>cl_receivers := [(i, r)]\<rparr>"

definition answered :: "client \<Rightarrow> uint64 store \<Rightarrow> client" where
  "answered c st = c\<lparr>cl_store := st, cl_receivers := []\<rparr>"

text \<open>The request \<open>i\<close> is not on a control stream, and its sender can be destroyed.\<close>

definition one_request :: "client \<Rightarrow> uint64 \<Rightarrow> uint64 store \<Rightarrow> bool" where
  "one_request c i st \<longleftrightarrow> i \<noteq> cr_id (cl_control_receiver c) \<and> i AND 0x2 = 0 \<and> sender_destroy i (cl_store c) = Some st"

lemma client_recv_one:
  "one_request c i st \<Longrightarrow> data_id d = i \<Longrightarrow> client_recv (Quic_data d) (answering c i r) =
    try_state (on_member (answering c i) (request_recv d r)) (\<lambda>_ c. (Ok (new_generator i), c))"
  by (simp add: one_request_def client_recv_def client_recv_data_def answering_def map_find_def map_update_def
      on_member_def split: prod.split)

lemma client_process_one:
  assumes "one_request c i st" "request_process client_request_frame r = (x, r')"
  shows "client_process i (answering c i r) =
    (case x of Ok ev \<Rightarrow> (Ok ev, if event_type_of ev = Finished_event then answered c st else answering c i r')
     | _ \<Rightarrow> (x, answering c i r'))"
  using assms
  by (cases x) (auto simp: one_request_def client_process_def answering_def answered_def map_find_def map_update_def
      map_erase_def split: prod.split)

section \<open>The two loops of \<open>recv_once\<close>\<close>

text \<open>The platform: its handler is that of the program, and the loop takes the request to exit.\<close>

definition exits :: "('n, 's, 'o, 'd, header list \<times> bytes) platform \<Rightarrow> 'd \<Rightarrow> 'd \<Rightarrow> bool" where
  "exits P d d' \<longleftrightarrow> pf_handler P = run_handler \<and> (\<exists>rv. sd_exit (pf_sd P) 0 d = (rv, d') \<and> 0 \<le> rv)"

lemma exits_loop:
  "exits P d d' \<Longrightarrow> el_event (ec_loop a) = d \<Longrightarrow>
   after_handler P (app_code App_finished) a = (Ok (), a\<lparr>ec_loop := (ec_loop a)\<lparr>el_event := d'\<rparr>\<rparr>)"
  by (auto simp: exits_def after_handler_def on_loop_def loop_exit_def sd_call_def)

lemma http3_loop_pump:
  assumes c: "one_request c i st" and P: "exits P d d'"
  shows "request_pump client_request_frame n r = (Ok evs, r') \<Longrightarrow> \<not> g_finished g \<Longrightarrow> g_id g = i \<Longrightarrow>
    el_event (ec_loop a) = d \<Longrightarrow> ec_http3 a = answering c i r \<Longrightarrow>
    http3_loop P g a =
      (if goes_on evs then (Ok True, a\<lparr>ec_http3 := answering c i r', ec_user := collect evs (ec_user a)\<rparr>)
       else (Ok False, a\<lparr>ec_http3 := answered c st, ec_user := collect evs (ec_user a),
         ec_loop := (ec_loop a)\<lparr>el_event := d'\<rparr>\<rparr>))"
proof (induction n arbitrary: r evs g a)
  case (Suc n)
  have h: "pf_handler P = run_handler" using P by (simp add: exits_def)
  obtain x r1 where p: "request_process client_request_frame r = (x, r1)" by (cases "request_process client_request_frame r")
  note step = client_process_one [OF c p]
  show ?case
  proof (cases x)
    case (Ok ev)
    let ?c = "if event_type_of ev = Finished_event then answered c st else answering c i r1"
    let ?g = "g\<lparr>g_result := Ok ev, g_finished := event_type_of ev = Finished_event\<rparr>"
    have nxt: "generator_next client_process g (ec_http3 a) = (Ok True, ?g, ?c)"
      using Suc.prems step Ok by (simp add: generator_next_def Let_def)
    have get: "generator_get ?g = (Ok ev, ?g\<lparr>g_result := Err Internal\<rparr>)" by (simp add: generator_get_def)
    note round = http3_loop_round [OF nxt get, of P]
    show ?thesis
    proof (cases "event_type_of ev = Finished_event")
      case True
      then have "evs = [ev]" using Suc.prems(1) p Ok by simp
      then show ?thesis using True round run_handler_ends [OF True] exits_loop [OF P] Suc.prems(4) h
        by (simp add: on_user_def)
    next
      case False
      then obtain evs1 where evs1: "request_pump client_request_frame n r1 = (Ok evs1, r')" "evs = ev # evs1"
        using Suc.prems(1) p Ok
        by (cases "request_pump client_request_frame n r1"; cases "fst (request_pump client_request_frame n r1)") auto
      obtain u1 where u1: "run_handler ev (ec_user a) = (Ok (), u1)" using run_handler_continues [OF False] by blast
      let ?a = "a\<lparr>ec_http3 := answering c i r1, ec_user := u1\<rparr>"
      have "http3_loop P g a = http3_loop P (?g\<lparr>g_result := Err Internal\<rparr>) ?a"
        using round False u1 h by (simp add: on_user_def)
      then show ?thesis using Suc.IH [OF evs1(1), of "?g\<lparr>g_result := Err Internal\<rparr>" ?a] Suc.prems False evs1(2) u1 by simp
    qed
  next
    case (Err e)
    then have "e = Incomplete" "evs = []" "r' = r1" using Suc.prems(1) p by (auto split: if_splits)
    then show ?thesis using Suc.prems step Err by (simp add: http3_loop.simps [of P g a] generator_next_def)
  qed (use Suc.prems p in simp)
qed simp

lemma quic_loop_feed:
  assumes c: "one_request c i st" and P: "exits P d d'"
  shows "request_feed client_request_frame n ds r = (Ok evs, r') \<Longrightarrow> list_all (\<lambda>d. data_id d = i) ds \<Longrightarrow>
    evs = xs @ [ev] \<Longrightarrow> goes_on xs \<Longrightarrow> event_type_of ev = Finished_event \<Longrightarrow>
    qc_events (ec_quic a) = map (Ok o Quic_data) ds \<Longrightarrow> el_event (ec_loop a) = d \<Longrightarrow> ec_http3 a = answering c i r \<Longrightarrow>
    \<exists>a'. quic_loop P a = (Ok (), a') \<and> ec_user a' = collect evs (ec_user a) \<and> ec_http3 a' = answered c st \<and>
      el_event (ec_loop a') = d' \<and> ec_socket a' = ec_socket a"
proof (induction ds arbitrary: r evs xs a)
  case (Cons x ds)
  obtain r1 where r1: "request_recv x r = (Ok (), r1)"
    using Cons.prems(1) by (cases "request_recv x r"; cases "fst (request_recv x r)") auto
  then obtain evs1 r2 where p: "request_pump client_request_frame n r1 = (Ok evs1, r2)"
    using Cons.prems(1)
    by (cases "request_pump client_request_frame n r1"; cases "fst (request_pump client_request_frame n r1)") auto
  then obtain evs2 where f: "request_feed client_request_frame n ds r2 = (Ok evs2, r')" "evs = evs1 @ evs2"
    using Cons.prems(1) r1
    by (cases "request_feed client_request_frame n ds r2"; cases "fst (request_feed client_request_frame n ds r2)") auto
  let ?q = "(ec_quic a)\<lparr>qc_events := map (Ok o Quic_data) ds\<rparr>"
  let ?a = "a\<lparr>ec_quic := ?q, ec_http3 := answering c i r1\<rparr>"
  have get: "on_quic quic_generator_get a = (Ok (Quic_data x), a\<lparr>ec_quic := ?q\<rparr>)"
    using Cons.prems(6) by (simp add: on_quic_def quic_generator_get_def)
  have recv: "on_http3 (client_recv (Quic_data x)) (a\<lparr>ec_quic := ?q\<rparr>) = (Ok (new_generator i), ?a)"
    using client_recv_one [OF c, of x r] Cons.prems(2,8) r1 by (simp add: on_http3_def)
  have more: "quic_generator_next (ec_quic a)" using Cons.prems(6) by (simp add: quic_generator_next_def)
  have loop: "quic_loop P a = try_state (http3_loop P (new_generator i) ?a) (\<lambda>more a. if more then quic_loop P a else (Ok (), a))"
    using more get recv by (subst quic_loop.simps) simp
  note pump = http3_loop_pump [OF c P p, of "new_generator i" ?a]
  show ?case
  proof (cases "goes_on evs1")
    case True
    let ?b = "?a\<lparr>ec_http3 := answering c i r2, ec_user := collect evs1 (ec_user a)\<rparr>"
    have "evs2 \<noteq> []" using f(2) Cons.prems(3,5) True by (auto simp: append_eq_append_conv2 Cons_eq_append_conv)
    then obtain ys where ys: "evs2 = ys @ [ev]" "xs = evs1 @ ys" using f(2) Cons.prems(3)
      by (cases evs2 rule: rev_cases) auto
    have "quic_loop P a = quic_loop P ?b" using loop pump True Cons.prems(7) by (simp add: new_generator_def)
    moreover have "\<exists>a'. quic_loop P ?b = (Ok (), a') \<and> ec_user a' = collect evs2 (ec_user ?b) \<and> ec_http3 a' = answered c st \<and>
        el_event (ec_loop a') = d' \<and> ec_socket a' = ec_socket ?b"
      using Cons.IH [OF f(1) _ ys(1) _ Cons.prems(5), of ?b] Cons.prems(2,4,7) ys(2) by simp
    ultimately show ?thesis using f(2) by simp
  next
    case False
    have "evs2 = []"
    proof (rule ccontr)
      assume "evs2 \<noteq> []"
      then obtain ys where "xs = evs1 @ ys" using f(2) Cons.prems(3) by (cases evs2 rule: rev_cases) auto
      then show False using False Cons.prems(4) by simp
    qed
    then show ?thesis using loop pump False Cons.prems(7) f(2) by (simp add: new_generator_def)
  qed
qed simp

section \<open>A response to try it on\<close>

definition sample_response :: bytes where
  "sample_response = concat (message_chunks sample_hash [make_header ''age'' ''0''] [[7]])"

definition receiving :: "bytes \<Rightarrow> (unit, unit, nat, int option, header list \<times> bytes) platform" where
  "receiving packet = sample_platform\<lparr>pf_system := sample_system
     \<lparr>sys_fionread := (\<lambda>fd os. (0, 0, int (length packet))), sys_recv := (\<lambda>fd n os. (int (length packet), 0, packet, os))\<rparr>\<rparr>"

definition sample_waiting :: "(unit, unit) quic_client \<Rightarrow> (unit, unit, nat, int option, header list \<times> bytes) endpoint_client" where
  "sample_waiting q = (sample_endpoint q)\<lparr>ec_http3 := new_client
     \<lparr>cl_store := sender_construct 0 0 empty_store,
      cl_receivers := [(0, snd (request_receiver_start (new_request_receiver 0)))]\<rparr>\<rparr>"

lemma receiving_packet: "udp_recv (pf_system (receiving packet)) junk u = (Ok packet, u)"
  by (simp add: receiving_def udp_recv_def sample_system_def mem_store_def Let_def)

lemma sample_quic_recv:
  "\<exists>q'. quic_recv sample_libraries packet q = (Ok (), q') \<and>
    qc_events q' = qc_events q @ [Ok (Quic_data (make_data 0 True packet))]"
  by (simp add: quic_recv_def quic_read_pkt_eq run_ngtcp2_def packet_script_def sample_libraries_def sample_ngtcp2_def
      cb_recv_stream_data_def quic_recv_stream_data_def quic_queue_def ticked_def put_conn_def)

lemma sample_waiting_one: "\<exists>st. one_request (ec_http3 (sample_waiting q)) 0 st"
  by (simp add: one_request_def sample_waiting_def new_client_def client_control_receiver_def new_control_receiver_def
      server_stream_control_id_def sender_destroy_def sender_construct_def set_sender_of_def new_request_sender_def)

section \<open>Property\<close>

text \<open>
  C16. A response arrives: when a packet brings the pieces of a message for the one open request, in whatever
  pieces and with the FIN on the last one, one round of receiving hands its headers, in order, and its whole
  content to the handler of the program, removes the request and tells the loop of the program to exit.
\<close>

theorem response_arrives:
  assumes "hs \<noteq> []" and "block_ok xxh hs" and "list_all body_ok bs"
    and "well_ended ds" and "list_all (\<lambda>d. data_id d = i) ds"
    and "concat (map data_buffer ds) = concat (message_chunks xxh hs bs)"
    and "udp_recv (pf_system P) (pf_junk P) (ec_socket a) = (Ok packet, u)"
    and "quic_recv (pf_libraries P) packet (ec_quic a) = (Ok (), q)" and "qc_events q = map (Ok o Quic_data) ds"
    and "cl_receivers (ec_http3 a) = [(i, snd (request_receiver_start (new_request_receiver i)))]"
    and "one_request (ec_http3 a) i st" and "exits P (el_event (ec_loop a)) d"
  shows "\<exists>a'. recv_once P a = (Ok (), a') \<and>
    ec_user a' = (fst (ec_user a) @ hs, snd (ec_user a) @ concat bs) \<and>
    cl_receivers (ec_http3 a') = [] \<and> cl_store (ec_http3 a') = st \<and> el_event (ec_loop a') = d"
proof -
  let ?r = "snd (request_receiver_start (new_request_receiver i))" and ?c = "ec_http3 a"
  let ?a = "a\<lparr>ec_socket := u, ec_quic := q\<rparr>"
  obtain evs r' where evs: "request_feed client_request_frame (Suc (length hs + length (concat bs))) ds ?r = (Ok evs, r')"
      "message i hs (concat bs) evs"
    using message_in_pieces [OF assms(1-3) _ assms(4,6)] by blast
  obtain xs where xs: "evs = xs @ [Ev_finished i]" "goes_on xs" using message_ends [OF evs(2)] by blast
  have c: "?c = answering ?c i ?r" using assms(10) by (simp add: answering_def)
  have "recv_once P a = quic_loop P ?a"
    using assms(7,8) by (simp add: recv_once_def on_socket_def on_quic_def)
  moreover obtain a' where "quic_loop P ?a = (Ok (), a')" "ec_user a' = collect evs (ec_user a)"
      "ec_http3 a' = answered ?c st" "el_event (ec_loop a') = d"
    using quic_loop_feed [OF assms(11,12) evs(1) assms(5) xs, of ?a] assms(9) c by auto
  moreover have "collect evs (ec_user a) = (fst (ec_user a) @ hs, snd (ec_user a) @ concat bs)"
    using collect_message [OF evs(2), of "fst (ec_user a)" "snd (ec_user a)"] by simp
  ultimately show ?thesis by (simp add: answered_def)
qed

theorem response_arrives_witness:
  "\<exists>q a'. sample_quic = Some q \<and> recv_once (receiving sample_response) (sample_waiting q) = (Ok (), a') \<and>
    ec_user a' = ([make_header ''age'' ''0''], [7])"
proof -
  let ?hs = "[make_header ''age'' ''0'']" and ?bs = "[[7]] :: bytes list" and ?P = "receiving sample_response"
  let ?ds = "[make_data 0 True sample_response]"
  obtain q where q: "sample_quic = Some q" "qc_events q = []" using sample_quic_ready by blast
  let ?a = "sample_waiting q"
  obtain q' where q': "quic_recv sample_libraries sample_response q = (Ok (), q')"
      "qc_events q' = map (Ok o Quic_data) ?ds"
    using sample_quic_recv [of sample_response q] q(2) by auto
  obtain st where st: "one_request (ec_http3 ?a) 0 st" using sample_waiting_one by blast
  have "sample_response \<noteq> []" by (simp add: sample_response_def message_chunks_def frame_wire_def)
  then have ds: "well_ended ?ds" "list_all (\<lambda>d. data_id d = 0) ?ds"
      "concat (map data_buffer ?ds) = concat (message_chunks sample_hash ?hs ?bs)"
    by (simp_all add: sample_response_def)
  have L: "pf_libraries ?P = sample_libraries" by (simp add: receiving_def sample_platform_def)
  have a: "ec_quic ?a = q" "ec_user ?a = ([], [])" "el_event (ec_loop ?a) = None"
      "cl_receivers (ec_http3 ?a) = [(0, snd (request_receiver_start (new_request_receiver 0)))]"
    by (simp_all add: sample_waiting_def sample_endpoint_def new_event_loop_def)
  have "exits ?P (el_event (ec_loop ?a)) (Some 0)" by (simp add: exits_def receiving_def sample_platform_def sample_sd_def)
  moreover have "list_all body_ok ?bs" by (simp add: body_ok_def)
  ultimately obtain a' where "recv_once ?P ?a = (Ok (), a')" "ec_user a' = (fst (ec_user ?a) @ ?hs, snd (ec_user ?a) @ concat ?bs)"
    using response_arrives [of ?hs sample_hash ?bs ?ds 0 ?P ?a sample_response "ec_socket ?a" q' st "Some 0"]
      sample_block_ok ds receiving_packet q' st L a by auto
  then show ?thesis using q(1) a(2) by auto
qed

end
