(* ===== verification/Spec2Isabelle.thy ===== *)
theory Spec2Isabelle
  imports Connections Buffer_Heap Huffman_Long Interop Endpoint_Response
begin

text \<open>
  bnl is an HTTP/3 library over QUIC in C++. This development models its codecs, its HTTP/3 client and
  server, its QUIC client, its command line client and the interop tools, and proves what they promise each other.

  \<^bold>\<open>The program.\<close> A user asks \<open>http3::client::connection\<close> for a request and writes headers and body through a
  handle. The connection encodes them into frames (HEADERS blocks with QPACK, which uses Huffman codes,
  string literals and prefixed integers; DATA frames; SETTINGS on the control stream), all of it on
  \<open>base::buffers\<close>, and hands out QUIC events. \<open>quic::client::connection\<close> keeps one sending stream per id,
  and lets ngtcp2 turn them into packets; ngtcp2 calls back for keys, encryption and received data, and
  the handshake drives BoringSSL, which calls back as well. On the way back events of streams are given
  to the HTTP/3 connection, which returns a generator: the user asks it for headers, bodies and settings
  until it is empty. The command line client puts both clients on a UDP socket and the event loop of
  libsystemd.

  \<^bold>\<open>Conventions.\<close>
  \<^item> A function that returns \<open>base::result\<close> returns \<open>('a, 'e) result\<close>: \<open>Ok\<close>, \<open>Err\<close> with the code, or
    \<open>Fault\<close> where an assertion fails, memory outside its bounds is touched or a shift is undefined.
    \<open>option\<close> is used where only the fault is possible. \<open>BNL_TRY\<close> is \<open>bnl_try\<close>, \<open>try_state\<close> or \<open>try_in\<close>.
  \<^item> Integers keep their width (\<open>uint64\<close> and so on are words), and sizes of things in memory are naturals.
  \<^item> State is passed explicitly: an operation returns the result and the state after it, also after an
    error. Pointers between objects are addresses in a store (\<open>Handles\<close>, \<open>Buffer_Heap\<close>).
  \<^item> New memory has unspecified contents, given as a parameter \<open>junk\<close>; XXH64 is a parameter \<open>xxh\<close>.

  \<^bold>\<open>Theories and sources\<close> (paths below \<open>src/bnl\<close>).
  \<^item> \<open>Prelude\<close>: results, words, memory. \<open>Errors\<close>: the two error enumerations and their categories
    (\<open>base/src/base/system_error.cpp\<close>).
  \<^item> \<open>Buffer_Heap\<close>: \<open>class buffer\<close> (\<open>base/src/base/buffer.cpp\<close>) with inline storage, counted blocks and
    every constructor, assignment and destructor. Its operations refine byte lists, and that is how all
    other theories see a buffer. \<open>Buffers\<close>: \<open>base/src/base/buffers.cpp\<close>. \<open>Sequence\<close>: the four containers
    that decoders are instantiated for, behind one locale.
  \<^item> \<open>Codec\<close>: the contract of a self-delimiting format. \<open>Varint\<close>, \<open>Frame\<close>, \<open>Prefix_Int\<close>, \<open>Literal\<close>,
    \<open>Header\<close>, \<open>Qpack\<close>, \<open>Headers_Codec\<close>, \<open>Body_Codec\<close>: \<open>http3/src/codec\<close>. \<open>Huffman_Tables\<close>,
    \<open>Huffman_Trie\<close>, \<open>Huffman\<close>, \<open>Huffman_Long\<close>: the generated tables in full, the code tree they stand for, the
    two loops, and what the encoder does with its longest codes. \<open>Static_Table_Rows\<close>, \<open>Static_Table\<close>: the generated QPACK switches.
  \<^item> \<open>Events\<close>, \<open>Control\<close>, \<open>Message\<close>, \<open>Request\<close>, \<open>Handles\<close>, \<open>Generator\<close>: the events of both layers
    and \<open>http3/src/endpoint\<close>, with the overrides of client and server. \<open>Ordered_Map\<close>: \<open>std::map\<close>.
    \<open>Client\<close>, \<open>Server\<close>, \<open>Connections\<close>: the two connections and what they do together.
  \<^item> \<open>Crypto\<close>: \<open>quic/src/crypto.cpp\<close> and \<open>quic/src/crypto/boringssl.cpp\<close>. \<open>Ip\<close>: addresses and paths.
    \<open>Script\<close>: a library that calls back. \<open>Ngtcp2\<close>: \<open>quic/src/client/ngtcp2/connection.cpp\<close> without its
    callbacks, which need the connection and are in \<open>Quic_Client\<close> (\<open>cb_...\<close>). \<open>Handshake\<close>:
    \<open>quic/src/client/handshake.cpp\<close> and \<open>handshake/boringssl.cpp\<close>. \<open>Quic_Stream\<close>, \<open>Quic_Client\<close>:
    \<open>quic/src/client/stream.cpp\<close> and \<open>connection.cpp\<close>. \<open>Quic_Run\<close>: runs of a QUIC client.
  \<^item> \<open>Http_Over_Quic\<close>: the events of an HTTP/3 client given to a QUIC client. \<open>Os\<close>: error codes, socket
    addresses, names and the UDP socket (\<open>http3/app/endpoint/os\<close>). \<open>Endpoint\<close>: the event loop
    (\<open>http3/app/endpoint/sd\<close>) and the command line client (\<open>http3/app/endpoint/client.cpp\<close>).
    \<open>Endpoint_Run\<close>, \<open>Endpoint_Response\<close>: its sending loop, its timeout, and a response on its way to the
    handler.
  \<^item> \<open>Interop\<close>: the two programs in \<open>http3/app/qpack\<close>.

  \<^bold>\<open>What the lemmas show.\<close>
  \<^item> Codecs: round trips on every container, sizes that match what is written, no fault on any input or
    exactly the inputs on which there is one, and that decoding does not depend on how the bytes arrive.
    The Huffman decoder is shown equal to a specification by the table of codes.
  \<^item> Streams: the sequence of events of a message is that of an abstract state machine, and a message
    arrives whatever the pieces. Control streams report the settings once.
  \<^item> Handles and buffers: the links, the reference counts and the disjointness of the parts of a block in
    every reachable store.
  \<^item> Connections: stream ids, termination of the loops over events, a request from the user of a client
    to the user of a server.
  \<^item> QUIC: what is added to a stream is what the transport is offered, in order; the keys that are derived
    are those of the key schedule; every callback's event is handed out once and in order.
  \<^item> The command line client: how sending ends and that nothing is left then, what else keeps it going, a
    response from the packet to the handler, and that a timeout is lost.
  \<^item> Errors: what an operation does on malformed, truncated or late input, and where the program does
    not do what it should.

  \<^bold>\<open>Loops.\<close> Loops over containers are structural, other loops have a measure (the bytes that are left).
  Draining an HTTP/3 client takes as many calls of \<open>send\<close> as \<open>2 + message_length\<close>, one for each
  chunk of the control stream and of the message; the functions of the user's side take that number. A
  generator is asked at most as often as the bytes that wait allow, which is proved; \<open>generator_events\<close>
  takes that bound. The loops of the command line client over its socket depend on the system and on the
  transport: they are partial functions, and \<open>None\<close> is a loop that does not end. It is proved, for any system and
  transport, that \<open>send\<close> returns unless rounds in which the system takes a datagram or the transport writes
  nothing come again and again, and that it does not return when the transport is congested.

  \<^bold>\<open>Parameters.\<close> ngtcp2, BoringSSL, libsystemd and the system calls are not part of the repository. Their
  functions are fields of the records \<open>ngtcp2_lib\<close>, \<open>ssl_lib\<close>, \<open>boringssl\<close>, \<open>sd_lib\<close> and \<open>system\<close>, over
  states of their own. A function that calls back
  is a script: it returns or makes a call and goes on with the answer, so that properties hold for every
  order of callbacks. The clock and the random source are sequences. A property that needs a law of a
  library names it as a hypothesis.

  \<^bold>\<open>Representation choices.\<close> A list of the standard library that was moved from is empty. The map of
  requests of an HTTP/3 connection is kept as the map of their receivers and a store of their senders,
  because handles point to senders. The inherited and overridden \<open>process\<close> of a stream is one definition
  with the override as a parameter. In the wrapper of ngtcp2, the pointer of the library's context is the
  client that is passed as state.

  \<^bold>\<open>Not modelled.\<close> Logging and the printing operators of most types, which only produce output; the views
  \<open>buffer_view\<close> and \<open>string_view\<close>, which own nothing and are the bytes they show; the aliases and macros
  over the outcome library; moves of whole connections, which are defaulted; the move of the command line
  client and of the sources of its loop, which only hand on pointers; the parsing of its port and the
  opening of files by the tools; and the generators of the tables, whose output is modelled.
\<close>

end
